(* ===== verification/Prelude.thy ===== *)
theory Prelude
  imports "HOL-Library.Word" "HOL-Library.State_Monad"
begin

text \<open>
  Shared vocabulary of the development.

  \<^item> the C integer types of the sources as machine words;
  \<^item> the return codes and the constants of \<^verbatim>\<open>exfat_api.h\<close>, \<^verbatim>\<open>exfat_data.h\<close> and \<^verbatim>\<open>exfat_core.h\<close>;
  \<^item> the state monad in which the stateful C functions are written, with a Hoare triple and its rules
    (collection \<open>hoare_rules\<close>);
  \<^item> generic lemmas on words and lists.
\<close>

unbundle bit_operations_syntax

section \<open>C integer types\<close>

type_synonym u8 = "8 word"
type_synonym u16 = "16 word"
type_synonym u32 = "32 word"
type_synonym u64 = "64 word"
type_synonym s32 = int

section \<open>Constants of the driver\<close>

definition FFS_SUCCESS :: s32 where "FFS_SUCCESS = 0"
definition FFS_MEDIAERR :: s32 where "FFS_MEDIAERR = 1"
definition FFS_FORMATERR :: s32 where "FFS_FORMATERR = 2"
definition FFS_INVALIDPATH :: s32 where "FFS_INVALIDPATH = 7"
definition FFS_NOTFOUND :: s32 where "FFS_NOTFOUND = 9"
definition FFS_FILEEXIST :: s32 where "FFS_FILEEXIST = 10"
definition FFS_PERMISSIONERR :: s32 where "FFS_PERMISSIONERR = 11"
definition FFS_FULL :: s32 where "FFS_FULL = 14"
definition FFS_EOF :: s32 where "FFS_EOF = 15"
definition FFS_MEMORYERR :: s32 where "FFS_MEMORYERR = 17"
definition FFS_ERROR :: s32 where "FFS_ERROR = 19"

lemmas ffs_codes = FFS_SUCCESS_def FFS_MEDIAERR_def FFS_FORMATERR_def FFS_INVALIDPATH_def
  FFS_NOTFOUND_def FFS_FILEEXIST_def FFS_PERMISSIONERR_def FFS_FULL_def FFS_EOF_def
  FFS_MEMORYERR_def FFS_ERROR_def

text \<open>The four volume types, by the partition-type byte the code gives them.\<close>

definition FAT12 :: u32 where "FAT12 = 0x01"
definition FAT16 :: u32 where "FAT16 = 0x0E"
definition FAT32 :: u32 where "FAT32 = 0x0C"
definition EXFAT :: u32 where "EXFAT = 0x07"

lemmas vol_types = FAT12_def FAT16_def FAT32_def EXFAT_def

text \<open>\<open>CLUSTER_32(~0)\<close>, the end-of-chain marker of every volume type.\<close>

definition CLU_EOF :: u32 where "CLU_EOF = 0xFFFFFFFF"

definition DENTRY_SIZE :: nat where "DENTRY_SIZE = 32"
definition DOS_NAME_LENGTH :: nat where "DOS_NAME_LENGTH = 11"
definition MAX_NAME_LENGTH :: nat where "MAX_NAME_LENGTH = 256"

section \<open>The state monad\<close>

abbreviation ret :: "'a \<Rightarrow> ('s, 'a) state" where
  "ret \<equiv> State_Monad.return"

definition gets :: "('s \<Rightarrow> 'a) \<Rightarrow> ('s, 'a) state" where
  "gets f = State (\<lambda>s. (f s, s))"

definition modify :: "('s \<Rightarrow> 's) \<Rightarrow> ('s, unit) state" where
  "modify f = State (\<lambda>s. ((), f s))"

definition whenM :: "bool \<Rightarrow> ('s, unit) state \<Rightarrow> ('s, unit) state" where
  "whenM b m = (if b then m else ret ())"

lemma run_gets [simp]: "run_state (gets f) s = (f s, s)"
  by (simp add: gets_def)

lemma run_modify [simp]: "run_state (modify f) s = ((), f s)"
  by (simp add: modify_def)

lemma run_whenM [simp]: "run_state (whenM b m) s = (if b then run_state m s else ((), s))"
  by (simp add: whenM_def)

subsection \<open>Hoare triples\<close>

definition hoare :: "('s \<Rightarrow> bool) \<Rightarrow> ('s, 'a) state \<Rightarrow> ('a \<Rightarrow> 's \<Rightarrow> bool) \<Rightarrow> bool" where
  "hoare P m Q = (\<forall>s. P s \<longrightarrow> (case run_state m s of (a, s') \<Rightarrow> Q a s'))"

named_theorems hoare_rules \<open>rules for Hoare triples of the primitive operations\<close>

lemma hoareI: "(\<And>s a s'. P s \<Longrightarrow> run_state m s = (a, s') \<Longrightarrow> Q a s') \<Longrightarrow> hoare P m Q"
  by (auto simp: hoare_def)

lemma hoareD: "hoare P m Q \<Longrightarrow> P s \<Longrightarrow> run_state m s = (a, s') \<Longrightarrow> Q a s'"
  by (auto simp: hoare_def)

lemma hoare_weaken:
  "hoare P' m Q' \<Longrightarrow> (\<And>s. P s \<Longrightarrow> P' s) \<Longrightarrow> (\<And>a s. Q' a s \<Longrightarrow> Q a s) \<Longrightarrow> hoare P m Q"
  by (fastforce simp: hoare_def)

lemma hoare_ret [hoare_rules]: "hoare (Q a) (ret a) Q"
  by (simp add: hoare_def)

lemma hoare_bind [hoare_rules]:
  "hoare P m R \<Longrightarrow> (\<And>a. hoare (R a) (f a) Q) \<Longrightarrow> hoare P (State_Monad.bind m f) Q"
  by (fastforce simp: hoare_def split: prod.splits)

lemma hoare_gets [hoare_rules]: "hoare (\<lambda>s. Q (f s) s) (gets f) Q"
  by (simp add: hoare_def)

lemma hoare_modify [hoare_rules]: "hoare (\<lambda>s. Q () (f s)) (modify f) Q"
  by (simp add: hoare_def)

lemma hoare_whenM [hoare_rules]:
  "hoare P m Q \<Longrightarrow> (\<And>s. \<not> b \<Longrightarrow> P s \<Longrightarrow> Q () s) \<Longrightarrow> hoare P (whenM b m) Q"
  by (simp add: hoare_def)

lemma hoare_if [hoare_rules]:
  "(b \<Longrightarrow> hoare P m Q) \<Longrightarrow> (\<not> b \<Longrightarrow> hoare P n Q) \<Longrightarrow> hoare P (if b then m else n) Q"
  by simp

text \<open>An invariant that an operation keeps, whatever it returns.\<close>

definition keeps :: "('s \<Rightarrow> bool) \<Rightarrow> ('s, 'a) state \<Rightarrow> bool" where
  "keeps I m = hoare I m (\<lambda>_. I)"

lemma keepsI: "(\<And>s a s'. I s \<Longrightarrow> run_state m s = (a, s') \<Longrightarrow> I s') \<Longrightarrow> keeps I m"
  by (auto simp: keeps_def hoare_def)

lemma keepsD: "keeps I m \<Longrightarrow> I s \<Longrightarrow> run_state m s = (a, s') \<Longrightarrow> I s'"
  by (auto simp: keeps_def hoare_def)

lemma keeps_ret [hoare_rules]: "keeps I (ret a)"
  by (simp add: keeps_def hoare_def)

lemma keeps_gets [hoare_rules]: "keeps I (gets f)"
  by (simp add: keeps_def hoare_def)

lemma keeps_modify [hoare_rules]: "(\<And>s. I s \<Longrightarrow> I (f s)) \<Longrightarrow> keeps I (modify f)"
  by (simp add: keeps_def hoare_def)

lemma keeps_bind [hoare_rules]:
  "keeps I m \<Longrightarrow> (\<And>a. keeps I (f a)) \<Longrightarrow> keeps I (State_Monad.bind m f)"
  unfolding keeps_def by (rule hoare_bind)

lemma keeps_if [hoare_rules]:
  "(b \<Longrightarrow> keeps I m) \<Longrightarrow> (\<not> b \<Longrightarrow> keeps I n) \<Longrightarrow> keeps I (if b then m else n)"
  by simp

lemma keeps_whenM [hoare_rules]: "(b \<Longrightarrow> keeps I m) \<Longrightarrow> keeps I (whenM b m)"
  by (simp add: keeps_def hoare_def)

lemma keeps_option [hoare_rules]:
  "keeps I m \<Longrightarrow> (\<And>x. keeps I (f x)) \<Longrightarrow> keeps I (case r of None \<Rightarrow> m | Some x \<Rightarrow> f x)"
  by (cases r) simp_all

lemma keeps_prod [hoare_rules]: "(\<And>x y. keeps I (f x y)) \<Longrightarrow> keeps I (case r of (x, y) \<Rightarrow> f x y)"
  by (cases r) simp

lemma keeps_sum [hoare_rules]:
  "(\<And>x. keeps I (f x)) \<Longrightarrow> (\<And>x. keeps I (g x)) \<Longrightarrow> keeps I (case r of Inl x \<Rightarrow> f x | Inr x \<Rightarrow> g x)"
  by (cases r) simp_all

lemma keeps_Let [hoare_rules]: "(\<And>x. keeps I (f x)) \<Longrightarrow> keeps I (let x = v in f x)"
  by simp

section \<open>Lists and words\<close>

lemma nth_update_if: "i < length xs \<Longrightarrow> (xs[i := x]) ! j = (if i = j then x else xs ! j)"
  by simp

lemma unat_ucast_u8_u32 [simp]: "unat (ucast (b :: u8) :: u32) = unat b"
  by transfer simp

lemma u8_less_256: "unat (b :: u8) < 256"
  by (rule order.strict_trans2 [OF unsigned_less]) simp

text \<open>The bits of the mask literals \<open>2 ^ k - 1\<close>.\<close>

lemma bit_ones: "x = 2 ^ k - 1 \<Longrightarrow> bit (x :: int) n \<longleftrightarrow> n < k"
  using bit_mask_iff [of k n, where 'a = int] by (simp add: mask_eq_exp_minus_1)

lemma bit_mask_3: "bit (7 :: int) n \<longleftrightarrow> n < 3"
  by (rule bit_ones) simp

lemma bit_mask_4: "bit (15 :: int) n \<longleftrightarrow> n < 4"
  by (rule bit_ones) simp

lemma bit_mask_5: "bit (31 :: int) n \<longleftrightarrow> n < 5"
  by (rule bit_ones) simp

lemma bit_mask_6: "bit (63 :: int) n \<longleftrightarrow> n < 6"
  by (rule bit_ones) simp

lemma bit_mask_7: "bit (127 :: int) n \<longleftrightarrow> n < 7"
  by (rule bit_ones) simp

lemma bit_mask_8: "bit (255 :: int) n \<longleftrightarrow> n < 8"
  by (rule bit_ones) simp

lemma bit_mask_12: "bit (4095 :: int) n \<longleftrightarrow> n < 12"
  by (rule bit_ones) simp

lemma bit_mask_15: "bit (32767 :: int) n \<longleftrightarrow> n < 15"
  by (rule bit_ones) simp

lemma bit_mask_16: "bit (65535 :: int) n \<longleftrightarrow> n < 16"
  by (rule bit_ones) simp

lemma bit_mask_28: "bit (268435455 :: int) n \<longleftrightarrow> n < 28"
  by (rule bit_ones) simp

lemma bit_mask_31: "bit (2147483647 :: int) n \<longleftrightarrow> n < 31"
  by (rule bit_ones) simp

lemma bit_mask_32: "bit (4294967295 :: int) n \<longleftrightarrow> n < 32"
  by (rule bit_ones) simp

lemmas mask_bits = bit_mask_3 bit_mask_4 bit_mask_5 bit_mask_6 bit_mask_7 bit_mask_8 bit_mask_12 bit_mask_15 bit_mask_16 bit_mask_28 bit_mask_31 bit_mask_32

text \<open>Masking with \<open>2 ^ k - 1\<close> takes the lowest \<open>k\<close> bits.\<close>

lemma and_ones_1: "(x :: 'a::len word) AND 1 = take_bit 1 x"
  by (simp add: take_bit_eq_mask mask_eq_exp_minus_1)

lemma and_ones_3: "(x :: 'a::len word) AND 7 = take_bit 3 x"
  by (simp add: take_bit_eq_mask mask_eq_exp_minus_1)

lemma and_ones_4: "(x :: 'a::len word) AND 15 = take_bit 4 x"
  by (simp add: take_bit_eq_mask mask_eq_exp_minus_1)

lemma and_ones_5: "(x :: 'a::len word) AND 31 = take_bit 5 x"
  by (simp add: take_bit_eq_mask mask_eq_exp_minus_1)

lemma and_ones_6: "(x :: 'a::len word) AND 63 = take_bit 6 x"
  by (simp add: take_bit_eq_mask mask_eq_exp_minus_1)

lemma and_ones_8: "(x :: 'a::len word) AND 255 = take_bit 8 x"
  by (simp add: take_bit_eq_mask mask_eq_exp_minus_1)

lemma and_ones_12: "(x :: 'a::len word) AND 4095 = take_bit 12 x"
  by (simp add: take_bit_eq_mask mask_eq_exp_minus_1)

lemma and_ones_15: "(x :: 'a::len word) AND 32767 = take_bit 15 x"
  by (simp add: take_bit_eq_mask mask_eq_exp_minus_1)

lemma and_ones_16: "(x :: 'a::len word) AND 65535 = take_bit 16 x"
  by (simp add: take_bit_eq_mask mask_eq_exp_minus_1)

lemma and_ones_28: "(x :: 'a::len word) AND 268435455 = take_bit 28 x"
  by (simp add: take_bit_eq_mask mask_eq_exp_minus_1)

lemmas and_ones = and_ones_1 and_ones_3 and_ones_4 and_ones_5 and_ones_6 and_ones_8 and_ones_12 and_ones_15 and_ones_16 and_ones_28

lemma shift_out_low_bit: "push_bit 1 (drop_bit 1 (x :: 'a::len word)) = x AND NOT 1"
  by (rule bit_word_eqI)
     (simp only: bit_push_bit_iff bit_drop_bit_eq bit_and_iff bit_not_iff bit_1_iff, auto)

lemma bit_lt_word:
  fixes x :: "'a::len word"
  assumes "x < 2 ^ k" "bit x n"
  shows "n < k"
proof -
  have "x AND mask k = x" using assms(1) by (rule less_mask_eq)
  with assms(2) have "bit (x AND mask k) n" by simp
  then show ?thesis by (simp add: bit_and_iff bit_mask_iff)
qed

lemma ucast_ucast_small:
  fixes x :: "'a::len word"
  assumes "x < 2 ^ k" "k \<le> LENGTH('b::len)"
  shows "ucast (ucast x :: 'b word) = x"
proof (rule bit_word_eqI)
  fix n assume "n < LENGTH('a)"
  moreover have "bit x n \<Longrightarrow> n < k" using bit_lt_word [OF assms(1)] .
  ultimately show "bit (ucast (ucast x :: 'b word) :: 'a word) n = bit x n"
    using assms(2) by (auto simp: bit_ucast_iff)
qed

end
