(* ===== verification/Bytes.thy ===== *)
theory Bytes
  imports Prelude
begin

text \<open>
  The little-endian accessors of \<^verbatim>\<open>exfat_core.h\<close>: \<^verbatim>\<open>GET16/GET32/GET64\<close> and \<^verbatim>\<open>SET16/SET32/SET64\<close> (their \<open>_A\<close>
  variants are the same on the little-endian targets of the driver).  A pointer into a buffer is the buffer,
  a \<open>u8 list\<close>, and an offset.  The locale \<open>byte_field\<close> is the contract that the directory-entry code relies
  on: a stored value is read back, and storing leaves every byte outside the field alone.
\<close>

section \<open>The accessors\<close>

definition GET16 :: "u8 list \<Rightarrow> nat \<Rightarrow> u16" where
  "GET16 p i = ucast (p ! i) OR push_bit 8 (ucast (p ! (i + 1)))"

definition GET32 :: "u8 list \<Rightarrow> nat \<Rightarrow> u32" where
  "GET32 p i = ucast (p ! i) OR push_bit 8 (ucast (p ! (i + 1))) OR
     push_bit 16 (ucast (p ! (i + 2))) OR push_bit 24 (ucast (p ! (i + 3)))"

definition GET64 :: "u8 list \<Rightarrow> nat \<Rightarrow> u64" where
  "GET64 p i = ucast (p ! i) OR push_bit 8 (ucast (p ! (i + 1))) OR
     push_bit 16 (ucast (p ! (i + 2))) OR push_bit 24 (ucast (p ! (i + 3))) OR
     push_bit 32 (ucast (p ! (i + 4))) OR push_bit 40 (ucast (p ! (i + 5))) OR
     push_bit 48 (ucast (p ! (i + 6))) OR push_bit 56 (ucast (p ! (i + 7)))"

definition SET16 :: "u8 list \<Rightarrow> nat \<Rightarrow> u16 \<Rightarrow> u8 list" where
  "SET16 p i v = p[i := ucast v, i + 1 := ucast (drop_bit 8 v)]"

definition SET32 :: "u8 list \<Rightarrow> nat \<Rightarrow> u32 \<Rightarrow> u8 list" where
  "SET32 p i v = p[i := ucast v, i + 1 := ucast (drop_bit 8 v),
     i + 2 := ucast (drop_bit 16 v), i + 3 := ucast (drop_bit 24 v)]"

definition SET64 :: "u8 list \<Rightarrow> nat \<Rightarrow> u64 \<Rightarrow> u8 list" where
  "SET64 p i v = p[i := ucast v, i + 1 := ucast (drop_bit 8 v),
     i + 2 := ucast (drop_bit 16 v), i + 3 := ucast (drop_bit 24 v),
     i + 4 := ucast (drop_bit 32 v), i + 5 := ucast (drop_bit 40 v),
     i + 6 := ucast (drop_bit 48 v), i + 7 := ucast (drop_bit 56 v)]"

section \<open>Little-endian numbers in general\<close>

fun le_get :: "u8 list \<Rightarrow> 'a::len word" where
  "le_get [] = 0"
| "le_get (b # bs) = ucast b OR push_bit 8 (le_get bs)"

fun le_put :: "nat \<Rightarrow> 'a::len word \<Rightarrow> u8 list" where
  "le_put 0 v = []"
| "le_put (Suc n) v = ucast v # le_put n (drop_bit 8 v)"

lemma length_le_put [simp]: "length (le_put n v) = n"
  by (induction n arbitrary: v) auto

lemma bit_le_get:
  "bit (le_get bs :: 'a::len word) k \<longleftrightarrow>
     k < LENGTH('a) \<and> k div 8 < length bs \<and> bit (bs ! (k div 8)) (k mod 8)"
proof (induction bs arbitrary: k)
  case Nil
  then show ?case by simp
next
  case (Cons b bs)
  show ?case
  proof (cases "k < 8")
    case True
    then show ?thesis
      by (auto simp: bit_or_iff bit_push_bit_iff bit_ucast_iff)
  next
    case False
    then obtain j where j: "k = 8 + j" using le_Suc_ex not_less by metis
    have "\<not> bit b k" using False bit_imp_le_length [of b k] by auto
    moreover have "k div 8 = Suc (j div 8)" "k mod 8 = j mod 8" using j by simp_all
    ultimately show ?thesis
      using j Cons.IH [of j] by (auto simp: bit_or_iff bit_push_bit_iff bit_ucast_iff)
  qed
qed

lemma nth_le_put: "k < n \<Longrightarrow> le_put n v ! k = ucast (drop_bit (8 * k) v)"
proof (induction n arbitrary: v k)
  case 0
  then show ?case by simp
next
  case (Suc n)
  then show ?case by (cases k) (auto simp: drop_bit_drop_bit add.commute)
qed

lemma le_get_put:
  fixes v :: "'a::len word"
  assumes "LENGTH('a) = 8 * n"
  shows "le_get (le_put n v) = v"
proof (rule bit_word_eqI)
  fix k assume k: "k < LENGTH('a)"
  then have "k div 8 < n" using assms by simp
  then show "bit (le_get (le_put n v) :: 'a word) k = bit v k"
    using k by (simp add: bit_le_get nth_le_put bit_ucast_iff bit_drop_bit_eq)
qed

lemma le_put_get:
  fixes bs :: "u8 list"
  assumes "LENGTH('a::len) = 8 * length bs"
  shows "le_put (length bs) (le_get bs :: 'a word) = bs"
proof (rule nth_equalityI)
  show "length (le_put (length bs) (le_get bs :: 'a word)) = length bs" by simp
next
  fix i assume "i < length (le_put (length bs) (le_get bs :: 'a word))"
  then have i: "i < length bs" by simp
  show "le_put (length bs) (le_get bs :: 'a word) ! i = bs ! i"
  proof (rule bit_word_eqI)
    fix k assume "k < LENGTH(8)"
    with i assms have "8 * i + k < LENGTH('a)" "(8 * i + k) div 8 = i" "(8 * i + k) mod 8 = k" "k < 8"
      by auto
    with i show "bit (le_put (length bs) (le_get bs :: 'a word) ! i) k = bit (bs ! i) k"
      by (simp add: nth_le_put bit_ucast_iff bit_drop_bit_eq bit_le_get)
  qed
qed

section \<open>The accessors are little-endian numbers\<close>

lemma GET16_le: "GET16 p i = le_get [p ! i, p ! (i + 1)]"
  by (simp add: GET16_def)

lemma GET32_le: "GET32 p i = le_get [p ! i, p ! (i + 1), p ! (i + 2), p ! (i + 3)]"
  by (simp add: GET32_def push_bit_or)

lemma GET64_le:
  "GET64 p i = le_get [p ! i, p ! (i + 1), p ! (i + 2), p ! (i + 3),
     p ! (i + 4), p ! (i + 5), p ! (i + 6), p ! (i + 7)]"
  by (simp add: GET64_def push_bit_or)

lemma GET16_slice: "GET16 p i = le_get (map (\<lambda>k. p ! (i + k)) [0..<2])"
  by (simp add: GET16_le upt_rec)

lemma GET32_slice: "GET32 p i = le_get (map (\<lambda>k. p ! (i + k)) [0..<4])"
  by (simp add: GET32_le upt_rec numeral_eq_Suc)

lemma GET64_slice: "GET64 p i = le_get (map (\<lambda>k. p ! (i + k)) [0..<8])"
  by (simp add: GET64_le upt_rec numeral_eq_Suc)

lemma length_SET16 [simp]: "length (SET16 p i v) = length p"
  by (simp add: SET16_def)

lemma length_SET32 [simp]: "length (SET32 p i v) = length p"
  by (simp add: SET32_def)

lemma length_SET64 [simp]: "length (SET64 p i v) = length p"
  by (simp add: SET64_def)

lemma nth_SET16:
  "i + 2 \<le> length p \<Longrightarrow>
     SET16 p i v ! j = (if i \<le> j \<and> j < i + 2 then le_put 2 v ! (j - i) else p ! j)"
  by (auto simp: SET16_def nth_list_update numeral_2_eq_2 less_Suc_eq)

lemma nth_SET32:
  "i + 4 \<le> length p \<Longrightarrow>
     SET32 p i v ! j = (if i \<le> j \<and> j < i + 4 then le_put 4 v ! (j - i) else p ! j)"
  by (cases "j < i"; cases "j < i + 4")
     (auto simp: SET32_def nth_list_update eval_nat_numeral less_Suc_eq)

lemma nth_SET64:
  assumes "i + 8 \<le> length p"
  shows "SET64 p i v ! j = (if i \<le> j \<and> j < i + 8 then le_put 8 v ! (j - i) else p ! j)"
proof (cases "i \<le> j \<and> j < i + 8")
  case True
  then have "j - i \<in> {0, 1, 2, 3, 4, 5, 6, 7}" by auto
  with True assms show ?thesis
    by (auto simp: SET64_def nth_list_update nth_le_put)
next
  case False
  with assms show ?thesis by (auto simp: SET64_def nth_list_update)
qed

section \<open>The field contract\<close>

text \<open>
  \<open>get\<close> and \<open>put\<close> work on \<open>w\<close> bytes of a buffer.  The provider promises the round trip and the frame; from
  these follow that reads of disjoint fields are not disturbed, that a second store wins, and that storing
  what is there changes nothing.
\<close>

locale byte_field =
  fixes get :: "u8 list \<Rightarrow> nat \<Rightarrow> 'a::len word"
    and put :: "u8 list \<Rightarrow> nat \<Rightarrow> 'a word \<Rightarrow> u8 list"
    and w :: nat
  assumes get_cong: "(\<And>k. k < w \<Longrightarrow> p ! (i + k) = q ! (j + k)) \<Longrightarrow> get p i = get q j"
    and length_put: "length (put p i v) = length p"
    and get_put: "i + w \<le> length p \<Longrightarrow> get (put p i v) i = v"
    and put_frame: "i + w \<le> length p \<Longrightarrow> j < i \<or> i + w \<le> j \<Longrightarrow> put p i v ! j = p ! j"
    and put_bytes: "i + w \<le> length p \<Longrightarrow> i + w \<le> length q \<Longrightarrow> k < w \<Longrightarrow> put p i v ! (i + k) = put q i v ! (i + k)"
    and put_get: "i + w \<le> length p \<Longrightarrow> put p i (get p i) = p"
begin

lemma get_put_disjoint:
  assumes "i + w \<le> length p" and "j + w \<le> i \<or> i + w \<le> j"
  shows "get (put p i v) j = get p j"
  by (rule get_cong) (use assms in \<open>auto intro!: put_frame\<close>)

lemma put_put:
  assumes "i + w \<le> length p"
  shows "put (put p i u) i v = put p i v"
proof (rule nth_equalityI)
  show "length (put (put p i u) i v) = length (put p i v)" by (simp add: length_put)
next
  fix j assume "j < length (put (put p i u) i v)"
  show "put (put p i u) i v ! j = put p i v ! j"
  proof (cases "j < i \<or> i + w \<le> j")
    case True
    then show ?thesis using assms by (simp add: put_frame length_put)
  next
    case False
    then obtain k where "j = i + k" "k < w" by (metis add_diff_inverse_nat linorder_not_le nat_add_left_cancel_less)
    then show ?thesis using assms put_bytes [of i "put p i u" p k v] by (simp add: length_put)
  qed
qed

lemma put_inj:
  "i + w \<le> length p \<Longrightarrow> i + w \<le> length q \<Longrightarrow> put p i u = put q i v \<Longrightarrow> u = v"
  by (metis get_put)

end

interpretation f16: byte_field GET16 SET16 2
proof
  fix p q :: "u8 list" and i j :: nat
  assume "\<And>k. k < 2 \<Longrightarrow> p ! (i + k) = q ! (j + k)"
  from this [of 0] this [of 1] show "GET16 p i = GET16 q j" by (simp add: GET16_def)
next
  fix p :: "u8 list" and i :: nat and v
  assume a: "i + 2 \<le> length p"
  have "map (\<lambda>k. SET16 p i v ! (i + k)) [0..<2] = le_put 2 v"
    by (rule nth_equalityI) (use a in \<open>auto simp: nth_SET16\<close>)
  then show "GET16 (SET16 p i v) i = v" by (simp add: GET16_slice le_get_put del: upt.simps)
next
  fix p :: "u8 list" and i :: nat
  assume a: "i + 2 \<le> length p"
  have "le_put (length [p ! i, p ! (i + 1)]) (le_get [p ! i, p ! (i + 1)] :: u16) = [p ! i, p ! (i + 1)]"
    by (rule le_put_get) simp
  then have "ucast (GET16 p i) = p ! i" "ucast (drop_bit 8 (GET16 p i)) = p ! (i + 1)"
    unfolding GET16_le by simp_all
  then show "SET16 p i (GET16 p i) = p" using a by (simp add: SET16_def)
qed (auto simp: nth_SET16)

interpretation f32: byte_field GET32 SET32 4
proof
  fix p q :: "u8 list" and i j :: nat
  assume "\<And>k. k < 4 \<Longrightarrow> p ! (i + k) = q ! (j + k)"
  from this [of 0] this [of 1] this [of 2] this [of 3] show "GET32 p i = GET32 q j"
    by (simp add: GET32_def)
next
  fix p :: "u8 list" and i :: nat and v
  assume a: "i + 4 \<le> length p"
  have "map (\<lambda>k. SET32 p i v ! (i + k)) [0..<4] = le_put 4 v"
    by (rule nth_equalityI) (use a in \<open>auto simp: nth_SET32\<close>)
  then show "GET32 (SET32 p i v) i = v" by (simp add: GET32_slice le_get_put del: upt.simps)
next
  fix p :: "u8 list" and i :: nat
  assume a: "i + 4 \<le> length p"
  let ?bs = "[p ! i, p ! (i + 1), p ! (i + 2), p ! (i + 3)]"
  have "le_put (length ?bs) (le_get ?bs :: u32) = ?bs" by (rule le_put_get) simp
  then have "ucast (GET32 p i) = p ! i" "ucast (drop_bit 8 (GET32 p i)) = p ! (i + 1)"
     "ucast (drop_bit 16 (GET32 p i)) = p ! (i + 2)" "ucast (drop_bit 24 (GET32 p i)) = p ! (i + 3)"
    unfolding GET32_le by (simp_all add: drop_bit_drop_bit)
  then show "SET32 p i (GET32 p i) = p" using a by (simp add: SET32_def)
qed (auto simp: nth_SET32)

interpretation f64: byte_field GET64 SET64 8
proof
  fix p q :: "u8 list" and i j :: nat
  assume "\<And>k. k < 8 \<Longrightarrow> p ! (i + k) = q ! (j + k)"
  from this [of 0] this [of 1] this [of 2] this [of 3] this [of 4] this [of 5] this [of 6] this [of 7]
  show "GET64 p i = GET64 q j" by (simp add: GET64_def)
next
  fix p :: "u8 list" and i :: nat and v
  assume a: "i + 8 \<le> length p"
  have "map (\<lambda>k. SET64 p i v ! (i + k)) [0..<8] = le_put 8 v"
    by (rule nth_equalityI) (use a in \<open>auto simp: nth_SET64\<close>)
  then show "GET64 (SET64 p i v) i = v" by (simp add: GET64_slice le_get_put del: upt.simps)
next
  fix p :: "u8 list" and i :: nat
  assume a: "i + 8 \<le> length p"
  let ?bs = "[p ! i, p ! (i + 1), p ! (i + 2), p ! (i + 3), p ! (i + 4), p ! (i + 5), p ! (i + 6), p ! (i + 7)]"
  have "le_put (length ?bs) (le_get ?bs :: u64) = ?bs" by (rule le_put_get) simp
  then have "ucast (GET64 p i) = p ! i" "ucast (drop_bit 8 (GET64 p i)) = p ! (i + 1)"
     "ucast (drop_bit 16 (GET64 p i)) = p ! (i + 2)" "ucast (drop_bit 24 (GET64 p i)) = p ! (i + 3)"
     "ucast (drop_bit 32 (GET64 p i)) = p ! (i + 4)" "ucast (drop_bit 40 (GET64 p i)) = p ! (i + 5)"
     "ucast (drop_bit 48 (GET64 p i)) = p ! (i + 6)" "ucast (drop_bit 56 (GET64 p i)) = p ! (i + 7)"
    unfolding GET64_le by (simp_all add: drop_bit_drop_bit)
  then show "SET64 p i (GET64 p i) = p" using a by (simp add: SET64_def)
qed (auto simp: nth_SET64)

end
