(* ===== verification/Bitmap.thy ===== *)
theory Bitmap
  imports Prelude
begin

text \<open>
  \<^verbatim>\<open>exfat_bitmap.c\<close>: one-bit test, set and clear on a byte array, and the two lookup tables of
  \<^verbatim>\<open>exfat_core.c\<close> that the allocation-bitmap code uses: \<^verbatim>\<open>free_bit\<close> (index of the lowest clear bit of a
  byte) and \<^verbatim>\<open>used_bit\<close> (number of set bits of a byte).  The locale \<open>bit_array\<close> is the contract of a
  mutable array of bits; the byte-array bitmap is one instance, the on-disk allocation bitmap
  (theory \<open>AllocMap\<close>) another.
\<close>

section \<open>Bit operations\<close>

definition BITMAP_LOC :: "nat \<Rightarrow> nat" where "BITMAP_LOC v = drop_bit 3 v"
definition BITMAP_SHIFT :: "nat \<Rightarrow> nat" where "BITMAP_SHIFT v = v AND 0x07"

definition exfat_bitmap_test :: "u8 list \<Rightarrow> nat \<Rightarrow> s32" where
  "exfat_bitmap_test bitmap i =
     (let data = bitmap ! BITMAP_LOC i
      in if drop_bit (BITMAP_SHIFT i) data AND 0x01 \<noteq> 0 then 1 else 0)"

definition exfat_bitmap_set :: "u8 list \<Rightarrow> nat \<Rightarrow> u8 list" where
  "exfat_bitmap_set bitmap i =
     bitmap[BITMAP_LOC i := (bitmap ! BITMAP_LOC i) OR push_bit (BITMAP_SHIFT i) 0x01]"

definition exfat_bitmap_clear :: "u8 list \<Rightarrow> nat \<Rightarrow> u8 list" where
  "exfat_bitmap_clear bitmap i =
     bitmap[BITMAP_LOC i := (bitmap ! BITMAP_LOC i) AND NOT (push_bit (BITMAP_SHIFT i) 0x01)]"

lemma BITMAP_LOC_div: "BITMAP_LOC i = i div 8"
  by (simp add: BITMAP_LOC_def drop_bit_eq_div)

lemma BITMAP_SHIFT_mod: "BITMAP_SHIFT i = i mod 8"
proof -
  have "i AND 7 = i AND mask 3" by (simp add: mask_eq_exp_minus_1)
  also have "\<dots> = i mod 8" by (simp add: take_bit_eq_mask [symmetric] take_bit_eq_mod)
  finally show ?thesis by (simp add: BITMAP_SHIFT_def)
qed

lemma and_1_nonzero: "(x :: 'a::len word) AND 1 \<noteq> 0 \<longleftrightarrow> bit x 0"
  by (simp add: and_one_eq bit_0 odd_iff_mod_2_eq_one even_iff_mod_2_eq_zero)

lemma exfat_bitmap_test_bit:
  "exfat_bitmap_test bm i = (if bit (bm ! (i div 8)) (i mod 8) then 1 else 0)"
  by (simp add: exfat_bitmap_test_def BITMAP_LOC_div BITMAP_SHIFT_mod Let_def and_1_nonzero
        bit_drop_bit_eq)

lemma length_exfat_bitmap_set [simp]: "length (exfat_bitmap_set bm i) = length bm"
  by (simp add: exfat_bitmap_set_def)

lemma length_exfat_bitmap_clear [simp]: "length (exfat_bitmap_clear bm i) = length bm"
  by (simp add: exfat_bitmap_clear_def)

lemma div_mod_8_eq: "(i::nat) div 8 = j div 8 \<Longrightarrow> i mod 8 = j mod 8 \<Longrightarrow> i = j"
  by (metis div_mult_mod_eq)

lemma bit_exfat_bitmap_set:
  assumes "i < 8 * length bm"
  shows "bit (exfat_bitmap_set bm i ! (j div 8)) (j mod 8) \<longleftrightarrow> i = j \<or> bit (bm ! (j div 8)) (j mod 8)"
proof -
  have i: "i div 8 < length bm" using assms by simp
  have m: "j mod 8 < 8" by simp
  show ?thesis
  proof (cases "i div 8 = j div 8")
    case True
    then have "i = j \<longleftrightarrow> i mod 8 = j mod 8" using div_mod_8_eq by blast
    with True i m show ?thesis
      by (simp add: exfat_bitmap_set_def BITMAP_LOC_div BITMAP_SHIFT_mod bit_or_iff bit_exp_iff eq_commute [of "j mod 8" "i mod 8"] disj_commute)
  next
    case False
    then show ?thesis by (auto simp: exfat_bitmap_set_def BITMAP_LOC_div)
  qed
qed

lemma bit_exfat_bitmap_clear:
  assumes "i < 8 * length bm"
  shows "bit (exfat_bitmap_clear bm i ! (j div 8)) (j mod 8) \<longleftrightarrow> i \<noteq> j \<and> bit (bm ! (j div 8)) (j mod 8)"
proof -
  have i: "i div 8 < length bm" using assms by simp
  have m: "j mod 8 < 8" by simp
  show ?thesis
  proof (cases "i div 8 = j div 8")
    case True
    then have "i = j \<longleftrightarrow> i mod 8 = j mod 8" using div_mod_8_eq by blast
    with True i m show ?thesis
      by (simp add: exfat_bitmap_clear_def BITMAP_LOC_div BITMAP_SHIFT_mod bit_and_iff bit_exp_iff bit_not_iff eq_commute [of "j mod 8" "i mod 8"] conj_commute)
  next
    case False
    then show ?thesis by (auto simp: exfat_bitmap_clear_def BITMAP_LOC_div)
  qed
qed

section \<open>The contract of a bit array\<close>

locale bit_array =
  fixes test :: "'b \<Rightarrow> nat \<Rightarrow> bool"
    and setb :: "'b \<Rightarrow> nat \<Rightarrow> 'b"
    and clrb :: "'b \<Rightarrow> nat \<Rightarrow> 'b"
    and bits :: "'b \<Rightarrow> nat"
  assumes bits_set: "i < bits b \<Longrightarrow> bits (setb b i) = bits b"
    and bits_clr: "i < bits b \<Longrightarrow> bits (clrb b i) = bits b"
    and test_set: "i < bits b \<Longrightarrow> test (setb b i) j = (i = j \<or> test b j)"
    and test_clr: "i < bits b \<Longrightarrow> test (clrb b i) j = (i \<noteq> j \<and> test b j)"
begin

lemma test_clr_set: "i < bits b \<Longrightarrow> \<not> test b i \<Longrightarrow> test (clrb (setb b i) i) = test b"
  by (rule ext) (auto simp: test_set test_clr bits_set)

lemma test_set_clr: "i < bits b \<Longrightarrow> test b i \<Longrightarrow> test (setb (clrb b i) i) = test b"
  by (rule ext) (auto simp: test_set test_clr bits_clr)

lemma bits_fold_set: "\<forall>i\<in>set is. i < bits b \<Longrightarrow> bits (fold (\<lambda>i b. setb b i) is b) = bits b"
  by (induction "is" arbitrary: b) (auto simp: bits_set)

lemma test_fold_set:
  "\<forall>i\<in>set is. i < bits b \<Longrightarrow> test (fold (\<lambda>i b. setb b i) is b) j = (j \<in> set is \<or> test b j)"
  by (induction "is" arbitrary: b) (auto simp: test_set bits_set)

lemma test_fold_clr:
  "\<forall>i\<in>set is. i < bits b \<Longrightarrow> test (fold (\<lambda>i b. clrb b i) is b) j = (j \<notin> set is \<and> test b j)"
  by (induction "is" arbitrary: b) (auto simp: test_clr bits_clr)

text \<open>The number of set bits among the first \<open>n\<close>.\<close>

lemma count_set:
  assumes "i < bits b" "\<not> test b i" "i < n"
  shows "card {j. j < n \<and> test (setb b i) j} = Suc (card {j. j < n \<and> test b j})"
proof -
  have "{j. j < n \<and> test (setb b i) j} = insert i {j. j < n \<and> test b j}"
    using assms by (auto simp: test_set)
  with assms show ?thesis by simp
qed

lemma count_clr:
  assumes "i < bits b" "test b i" "i < n"
  shows "Suc (card {j. j < n \<and> test (clrb b i) j}) = card {j. j < n \<and> test b j}"
proof -
  have "{j. j < n \<and> test b j} = insert i {j. j < n \<and> test (clrb b i) j}"
    using assms by (auto simp: test_clr)
  with assms show ?thesis by (simp add: test_clr)
qed

end

interpretation bm: bit_array "\<lambda>b i. exfat_bitmap_test b i = 1" exfat_bitmap_set exfat_bitmap_clear
    "\<lambda>b. 8 * length b"
  by unfold_locales
     (simp_all add: exfat_bitmap_test_bit bit_exfat_bitmap_set bit_exfat_bitmap_clear)

section \<open>The lookup tables\<close>

definition free_bit :: "nat list" where
  "free_bit = [
     0, 1, 0, 2, 0, 1, 0, 3, 0, 1, 0, 2, 0, 1, 0, 4, 0, 1, 0, 2,
     0, 1, 0, 3, 0, 1, 0, 2, 0, 1, 0, 5, 0, 1, 0, 2, 0, 1, 0, 3,
     0, 1, 0, 2, 0, 1, 0, 4, 0, 1, 0, 2, 0, 1, 0, 3, 0, 1, 0, 2,
     0, 1, 0, 6, 0, 1, 0, 2, 0, 1, 0, 3, 0, 1, 0, 2, 0, 1, 0, 4,
     0, 1, 0, 2, 0, 1, 0, 3, 0, 1, 0, 2, 0, 1, 0, 5, 0, 1, 0, 2,
     0, 1, 0, 3, 0, 1, 0, 2, 0, 1, 0, 4, 0, 1, 0, 2, 0, 1, 0, 3,
     0, 1, 0, 2, 0, 1, 0, 7, 0, 1, 0, 2, 0, 1, 0, 3, 0, 1, 0, 2,
     0, 1, 0, 4, 0, 1, 0, 2, 0, 1, 0, 3, 0, 1, 0, 2, 0, 1, 0, 5,
     0, 1, 0, 2, 0, 1, 0, 3, 0, 1, 0, 2, 0, 1, 0, 4, 0, 1, 0, 2,
     0, 1, 0, 3, 0, 1, 0, 2, 0, 1, 0, 6, 0, 1, 0, 2, 0, 1, 0, 3,
     0, 1, 0, 2, 0, 1, 0, 4, 0, 1, 0, 2, 0, 1, 0, 3, 0, 1, 0, 2,
     0, 1, 0, 5, 0, 1, 0, 2, 0, 1, 0, 3, 0, 1, 0, 2, 0, 1, 0, 4,
     0, 1, 0, 2, 0, 1, 0, 3, 0, 1, 0, 2, 0, 1, 0]"

definition used_bit :: "nat list" where
  "used_bit = [
     0, 1, 1, 2, 1, 2, 2, 3, 1, 2, 2, 3, 2, 3, 3, 4, 1, 2, 2, 3,
     2, 3, 3, 4, 2, 3, 3, 4, 3, 4, 4, 5, 1, 2, 2, 3, 2, 3, 3, 4,
     2, 3, 3, 4, 3, 4, 4, 5, 2, 3, 3, 4, 3, 4, 4, 5, 3, 4, 4, 5,
     4, 5, 5, 6, 1, 2, 2, 3, 2, 3, 3, 4, 2, 3, 3, 4, 3, 4, 4, 5,
     2, 3, 3, 4, 3, 4, 4, 5, 3, 4, 4, 5, 4, 5, 5, 6, 2, 3, 3, 4,
     3, 4, 4, 5, 3, 4, 4, 5, 4, 5, 5, 6, 3, 4, 4, 5, 4, 5, 5, 6,
     4, 5, 5, 6, 5, 6, 6, 7, 1, 2, 2, 3, 2, 3, 3, 4, 2, 3, 3, 4,
     3, 4, 4, 5, 2, 3, 3, 4, 3, 4, 4, 5, 3, 4, 4, 5, 4, 5, 5, 6,
     2, 3, 3, 4, 3, 4, 4, 5, 3, 4, 4, 5, 4, 5, 5, 6, 3, 4, 4, 5,
     4, 5, 5, 6, 4, 5, 5, 6, 5, 6, 6, 7, 2, 3, 3, 4, 3, 4, 4, 5,
     3, 4, 4, 5, 4, 5, 5, 6, 3, 4, 4, 5, 4, 5, 5, 6, 4, 5, 5, 6,
     5, 6, 6, 7, 3, 4, 4, 5, 4, 5, 5, 6, 4, 5, 5, 6, 5, 6, 6, 7,
     4, 5, 5, 6, 5, 6, 6, 7, 5, 6, 6, 7, 6, 7, 7, 8]"

text \<open>
  Reference functions: the lowest clear bit and the number of set bits of a number below 256, by recursion on
  the bits.
\<close>

fun low_zero :: "nat \<Rightarrow> nat \<Rightarrow> nat" where
  "low_zero 0 k = 0"
| "low_zero (Suc n) k = (if even k then 0 else Suc (low_zero n (k div 2)))"

fun popcount :: "nat \<Rightarrow> nat \<Rightarrow> nat" where
  "popcount 0 k = 0"
| "popcount (Suc n) k = k mod 2 + popcount n (k div 2)"

lemma free_bit_table: "free_bit = map (low_zero 8) [0..<255]"
  by code_simp

lemma used_bit_table: "used_bit = map (popcount 8) [0..<256]"
  by code_simp

lemma free_bit_nth: "k < 255 \<Longrightarrow> free_bit ! k = low_zero 8 k"
  by (simp add: free_bit_table)

lemma used_bit_nth: "k < 256 \<Longrightarrow> used_bit ! k = popcount 8 k"
  by (simp add: used_bit_table)

lemma low_zero_spec:
  "low_zero n k \<le> n \<and> (\<forall>j < low_zero n k. bit k j) \<and> (low_zero n k < n \<longrightarrow> \<not> bit k (low_zero n k))"
proof (induction n arbitrary: k)
  case 0
  then show ?case by simp
next
  case (Suc n)
  show ?case
  proof (cases "even k")
    case True
    then show ?thesis by (simp add: bit_0)
  next
    case False
    have "bit k j" if "j < Suc (low_zero n (k div 2))" for j
      using that False Suc.IH [of "k div 2"] by (cases j) (auto simp: bit_0 bit_Suc)
    with False Suc.IH [of "k div 2"] show ?thesis by (auto simp: bit_Suc)
  qed
qed

lemma low_zero_unique:
  "m < n \<Longrightarrow> \<not> bit k m \<Longrightarrow> low_zero n k \<le> m"
  using low_zero_spec [of n k] by (meson leI)

lemma popcount_card: "popcount n k = card {j. j < n \<and> bit k j}"
proof (induction n arbitrary: k)
  case 0
  then show ?case by simp
next
  case (Suc n)
  have "{j. j < Suc n \<and> bit k j} = {j. j = 0 \<and> odd k} \<union> Suc ` {j. j < n \<and> bit (k div 2) j}"
    by (auto simp: bit_0 bit_Suc image_iff less_Suc_eq_0_disj)
  moreover have "card ({j. j = 0 \<and> odd k} \<union> Suc ` {j. j < n \<and> bit (k div 2) j}) =
      card {j::nat. j = 0 \<and> odd k} + card (Suc ` {j. j < n \<and> bit (k div 2) j})"
    by (rule card_Un_disjoint) auto
  moreover have "card {j::nat. j = 0 \<and> odd k} = k mod 2"
    by (cases "even k") (auto simp: odd_iff_mod_2_eq_one)
  ultimately show ?case
    using Suc.IH [of "k div 2"] by (simp add: card_image)
qed

end
