(* ===== verification/NandEcc.thy ===== *)
theory NandEcc
  imports Bytes Bitmap
begin

text \<open>
  The NAND error-correcting code of \<^verbatim>\<open>flashimg-0.1/nand_ecc.c\<close>: \<^verbatim>\<open>__nand_calculate_ecc\<close> computes, by word-wise
  XOR accumulation in an unrolled loop, three bytes of inverted row and column parities of a block of 256 or 512
  bytes.  The state of the loop is a record of the accumulators; \<open>W j\<close> is the \<open>j\<close>-th little-endian word of the
  buffer.  The theorems give every bit of the code as a parity of the bytes whose address has the corresponding
  bit, and from that the linearity and the location of a single flipped bit.
\<close>

section \<open>The table\<close>

definition invparity :: "nat list" where
  "invparity =
    [1, 0, 0, 1, 0, 1, 1, 0, 0, 1, 1, 0, 1, 0, 0, 1,
     0, 1, 1, 0, 1, 0, 0, 1, 1, 0, 0, 1, 0, 1, 1, 0,
     0, 1, 1, 0, 1, 0, 0, 1, 1, 0, 0, 1, 0, 1, 1, 0,
     1, 0, 0, 1, 0, 1, 1, 0, 0, 1, 1, 0, 1, 0, 0, 1,
     0, 1, 1, 0, 1, 0, 0, 1, 1, 0, 0, 1, 0, 1, 1, 0,
     1, 0, 0, 1, 0, 1, 1, 0, 0, 1, 1, 0, 1, 0, 0, 1,
     1, 0, 0, 1, 0, 1, 1, 0, 0, 1, 1, 0, 1, 0, 0, 1,
     0, 1, 1, 0, 1, 0, 0, 1, 1, 0, 0, 1, 0, 1, 1, 0,
     0, 1, 1, 0, 1, 0, 0, 1, 1, 0, 0, 1, 0, 1, 1, 0,
     1, 0, 0, 1, 0, 1, 1, 0, 0, 1, 1, 0, 1, 0, 0, 1,
     1, 0, 0, 1, 0, 1, 1, 0, 0, 1, 1, 0, 1, 0, 0, 1,
     0, 1, 1, 0, 1, 0, 0, 1, 1, 0, 0, 1, 0, 1, 1, 0,
     1, 0, 0, 1, 0, 1, 1, 0, 0, 1, 1, 0, 1, 0, 0, 1,
     0, 1, 1, 0, 1, 0, 0, 1, 1, 0, 0, 1, 0, 1, 1, 0,
     0, 1, 1, 0, 1, 0, 0, 1, 1, 0, 0, 1, 0, 1, 1, 0,
     1, 0, 0, 1, 0, 1, 1, 0, 0, 1, 1, 0, 1, 0, 0, 1]"

section \<open>The loop\<close>

record ECC_STATE =
  par :: u32
  rp4 :: u32
  rp6 :: u32
  rp8 :: u32
  rp10 :: u32
  rp12 :: u32
  rp14 :: u32
  rp16 :: u32

definition ecc_init :: ECC_STATE where
  "ecc_init = \<lparr>par = 0, rp4 = 0, rp6 = 0, rp8 = 0, rp10 = 0, rp12 = 0, rp14 = 0, rp16 = 0\<rparr>"

text \<open>One iteration: sixteen words, \<open>W (16 * i)\<close> to \<open>W (16 * i + 15)\<close>.\<close>

definition ecc_iter :: "(nat \<Rightarrow> u32) \<Rightarrow> nat \<Rightarrow> nat \<Rightarrow> ECC_STATE \<Rightarrow> ECC_STATE" where
  "ecc_iter W mult i st =
     (let rp4 = rp4 st; rp6 = rp6 st; rp8 = rp8 st; rp10 = rp10 st;
          cur = W (16 * i + 0); tmppar = cur; rp4 = rp4 XOR cur;
          cur = W (16 * i + 1); tmppar = tmppar XOR cur; rp6 = rp6 XOR tmppar;
          cur = W (16 * i + 2); tmppar = tmppar XOR cur; rp4 = rp4 XOR cur;
          cur = W (16 * i + 3); tmppar = tmppar XOR cur; rp8 = rp8 XOR tmppar;
          cur = W (16 * i + 4); tmppar = tmppar XOR cur; rp4 = rp4 XOR cur; rp6 = rp6 XOR cur;
          cur = W (16 * i + 5); tmppar = tmppar XOR cur; rp6 = rp6 XOR cur;
          cur = W (16 * i + 6); tmppar = tmppar XOR cur; rp4 = rp4 XOR cur;
          cur = W (16 * i + 7); tmppar = tmppar XOR cur; rp10 = rp10 XOR tmppar;
          cur = W (16 * i + 8); tmppar = tmppar XOR cur; rp4 = rp4 XOR cur; rp6 = rp6 XOR cur; rp8 = rp8 XOR cur;
          cur = W (16 * i + 9); tmppar = tmppar XOR cur; rp6 = rp6 XOR cur; rp8 = rp8 XOR cur;
          cur = W (16 * i + 10); tmppar = tmppar XOR cur; rp4 = rp4 XOR cur; rp8 = rp8 XOR cur;
          cur = W (16 * i + 11); tmppar = tmppar XOR cur; rp8 = rp8 XOR cur;
          cur = W (16 * i + 12); tmppar = tmppar XOR cur; rp4 = rp4 XOR cur; rp6 = rp6 XOR cur;
          cur = W (16 * i + 13); tmppar = tmppar XOR cur; rp6 = rp6 XOR cur;
          cur = W (16 * i + 14); tmppar = tmppar XOR cur; rp4 = rp4 XOR cur;
          cur = W (16 * i + 15); tmppar = tmppar XOR cur;
          par = par st XOR tmppar;
          rp12 = (if i AND 0x1 = 0 then rp12 st XOR tmppar else rp12 st);
          rp14 = (if i AND 0x2 = 0 then rp14 st XOR tmppar else rp14 st);
          rp16 = (if mult = 2 \<and> i AND 0x4 = 0 then rp16 st XOR tmppar else rp16 st)
      in \<lparr>par = par, rp4 = rp4, rp6 = rp6, rp8 = rp8, rp10 = rp10, rp12 = rp12, rp14 = rp14, rp16 = rp16\<rparr>)"

fun ecc_loop :: "(nat \<Rightarrow> u32) \<Rightarrow> nat \<Rightarrow> nat \<Rightarrow> ECC_STATE" where
  "ecc_loop W mult 0 = ecc_init"
| "ecc_loop W mult (Suc i) = ecc_iter W mult i (ecc_loop W mult i)"

section \<open>The code bytes\<close>

definition fold32 :: "u32 \<Rightarrow> u32" where
  "fold32 x = (let x = x XOR drop_bit 16 x; x = x XOR drop_bit 8 x in x AND 0xff)"

definition invp :: "u32 \<Rightarrow> u8" where
  "invp x = of_nat (invparity ! unat x)"

text \<open>\<open>buf\<close> starts at offset \<open>o\<close> of \<open>b\<close>; the result is \<^verbatim>\<open>code[0]\<close>, \<^verbatim>\<open>code[1]\<close>, \<^verbatim>\<open>code[2]\<close>.\<close>

definition nand_calculate_ecc :: "u8 list \<Rightarrow> nat \<Rightarrow> nat \<Rightarrow> u8 list" where
  "nand_calculate_ecc b off eccsize =
     (let mult = eccsize div 256;
          st = ecc_loop (\<lambda>j. GET32 b (off + 4 * j)) mult (4 * mult);
          rp4 = fold32 (rp4 st); rp6 = fold32 (rp6 st); rp8 = fold32 (rp8 st); rp10 = fold32 (rp10 st);
          rp12 = fold32 (rp12 st); rp14 = fold32 (rp14 st);
          rp16 = (if mult = 2 then fold32 (rp16 st) else rp16 st);
          par = par st;
          rp3 = drop_bit 16 par; rp3 = rp3 XOR drop_bit 8 rp3; rp3 = rp3 AND 0xff;
          rp2 = par AND 0xffff; rp2 = rp2 XOR drop_bit 8 rp2; rp2 = rp2 AND 0xff;
          par = par XOR drop_bit 16 par;
          rp1 = drop_bit 8 par AND 0xff; rp0 = par AND 0xff;
          par = par XOR drop_bit 8 par; par = par AND 0xff;
          rp5 = (par XOR rp4) AND 0xff; rp7 = (par XOR rp6) AND 0xff; rp9 = (par XOR rp8) AND 0xff;
          rp11 = (par XOR rp10) AND 0xff; rp13 = (par XOR rp12) AND 0xff; rp15 = (par XOR rp14) AND 0xff;
          rp17 = (par XOR rp16) AND 0xff;
          code1 = push_bit 7 (invp rp7) OR push_bit 6 (invp rp6) OR push_bit 5 (invp rp5) OR push_bit 4 (invp rp4) OR
                  push_bit 3 (invp rp3) OR push_bit 2 (invp rp2) OR push_bit 1 (invp rp1) OR invp rp0;
          code0 = push_bit 7 (invp rp15) OR push_bit 6 (invp rp14) OR push_bit 5 (invp rp13) OR
                  push_bit 4 (invp rp12) OR push_bit 3 (invp rp11) OR push_bit 2 (invp rp10) OR
                  push_bit 1 (invp rp9) OR invp rp8;
          cols = push_bit 7 (invp (par AND 0xf0)) OR push_bit 6 (invp (par AND 0x0f)) OR
                 push_bit 5 (invp (par AND 0xcc)) OR push_bit 4 (invp (par AND 0x33)) OR
                 push_bit 3 (invp (par AND 0xaa)) OR push_bit 2 (invp (par AND 0x55));
          code2 = (if mult = 1 then cols OR 3
                   else cols OR push_bit 1 (invp rp17) OR push_bit 0 (invp rp16))
      in [code0, code1, code2])"


section \<open>XOR over lists\<close>

definition xorl :: "'a::len word list \<Rightarrow> 'a word" where
  "xorl xs = foldr (XOR) xs 0"

lemma xorl_simps [simp]: "xorl [] = 0" "xorl (x # xs) = x XOR xorl xs"
  by (simp_all add: xorl_def)

lemma xorl_append [simp]: "xorl (xs @ ys) = xorl xs XOR xorl ys"
  by (induction xs) (simp_all add: ac_simps)

text \<open>The XOR of \<open>f j\<close> over the \<open>j < n\<close> with \<open>P j\<close>.\<close>

definition xsum :: "(nat \<Rightarrow> 'a::len word) \<Rightarrow> (nat \<Rightarrow> bool) \<Rightarrow> nat \<Rightarrow> 'a word" where
  "xsum f P n = xorl (map f (filter P [0..<n]))"

lemma xsum_0 [simp]: "xsum f P 0 = 0"
  by (simp add: xsum_def)

lemma xsum_Suc: "xsum f P (Suc n) = xsum f P n XOR (if P n then f n else 0)"
  by (simp add: xsum_def)

lemma xsum_cong:
  "(\<And>j. j < n \<Longrightarrow> P j = Q j) \<Longrightarrow> (\<And>j. j < n \<Longrightarrow> P j \<Longrightarrow> f j = g j) \<Longrightarrow> xsum f P n = xsum g Q n"
  by (induction n) (simp_all add: xsum_Suc)

lemma xsum_split: "xsum f (\<lambda>j. \<not> P j) n XOR xsum f P n = xsum f (\<lambda>_. True) n"
  by (induction n) (auto simp: xsum_Suc ac_simps)

lemma xsum_compl: "xsum f (\<lambda>_. True) n XOR xsum f (\<lambda>j. \<not> P j) n = xsum f P n"
proof -
  have "xsum f (\<lambda>_. True) n XOR xsum f (\<lambda>j. \<not> P j) n =
      xsum f P n XOR (xsum f (\<lambda>j. \<not> P j) n XOR xsum f (\<lambda>j. \<not> P j) n)"
    unfolding xsum_split [of f P n, symmetric] by (simp only: ac_simps)
  then show ?thesis by simp
qed

lemma xsum_16: "xsum f P (16 * m + 16) = xsum f P (16 * m) XOR xorl (map f (filter P [16 * m..<16 * m + 16]))"
proof -
  have "[0..<16 * m + 16] = [0..<16 * m] @ [16 * m..<16 * m + 16]" by (rule upt_add_eq_append) simp
  then show ?thesis by (simp only: xsum_def filter_append map_append xorl_append)
qed

lemma xsum_4: "xsum f P (4 * m + 4) = xsum f P (4 * m) XOR xorl (map f (filter P [4 * m, 4 * m + 1, 4 * m + 2, 4 * m + 3]))"
proof -
  have "[0..<4 * m + 4] = [0..<4 * m] @ [4 * m, 4 * m + 1, 4 * m + 2, 4 * m + 3]"
  proof -
    have "[4 * m..<4 * m + 4] = map (\<lambda>k. k + 4 * m) [0..<4]" unfolding map_add_upt by (simp only: add_0 add.commute)
    also have "[0..<4] = [0, 1, 2, 3]" by (simp add: upt_rec)
    finally show ?thesis using upt_add_eq_append [of 0 "4 * m" 4] by (simp add: ac_simps)
  qed
  then show ?thesis unfolding xsum_def by (simp only: filter_append map_append xorl_append)
qed

section \<open>The invariant of the loop\<close>

lemma upt_16: "[16 * m..<16 * m + 16] = map (\<lambda>k. 16 * m + k) [0, 1, 2, 3, 4, 5, 6, 7, 8, 9, 10, 11, 12, 13, 14, 15]"
proof -
  have "[16 * m..<16 * m + 16] = map (\<lambda>k. k + 16 * m) [0..<16]" unfolding map_add_upt by (simp only: add_0 add.commute)
  also have "[0..<16] = [0, 1, 2, 3, 4, 5, 6, 7, 8, 9, 10, 11, 12, 13, 14, 15]" by (simp add: upt_rec)
  finally show ?thesis by (simp add: add.commute)
qed

lemma bit_16_low:
  assumes "b < 4" "k < 16"
  shows "bit (16 * m + k :: nat) b \<longleftrightarrow> bit k b"
proof -
  have "take_bit 4 (16 * m + k) = k" using assms(2) by (simp add: take_bit_eq_mod)
  then have "bit k b \<longleftrightarrow> bit (take_bit 4 (16 * m + k)) b" by simp
  then show ?thesis using assms(1) by (simp add: bit_take_bit_iff)
qed

lemma bit_16_high:
  assumes "k < 16"
  shows "bit (16 * m + k :: nat) (4 + b) \<longleftrightarrow> bit m b"
proof -
  have "drop_bit 4 (16 * m + k) = m" using assms by (simp add: drop_bit_eq_div)
  then show ?thesis by (metis bit_drop_bit_eq comp_apply)
qed

lemma bit_small: "bit (k :: nat) 0 = odd k" "bit k 1 = odd (k div 2)" "bit k 2 = odd (k div 4)" "bit k 3 = odd (k div 8)"
  by (simp_all add: bit_iff_odd)

lemma and_bit_0: "(i :: nat) AND 1 = 0 \<longleftrightarrow> \<not> bit i 0" "i AND 2 = 0 \<longleftrightarrow> \<not> bit i 1" "i AND 4 = 0 \<longleftrightarrow> \<not> bit i 2"
  using and_exp_eq_0_iff_not_bit [of i 0] and_exp_eq_0_iff_not_bit [of i 1] and_exp_eq_0_iff_not_bit [of i 2]
  by simp_all

definition row :: "nat \<Rightarrow> (nat \<Rightarrow> u32) \<Rightarrow> nat \<Rightarrow> u32" where
  "row b W n = xsum W (\<lambda>j. \<not> bit j b) n"

definition ecc_inv :: "(nat \<Rightarrow> u32) \<Rightarrow> nat \<Rightarrow> nat \<Rightarrow> ECC_STATE \<Rightarrow> bool" where
  "ecc_inv W mult i st \<longleftrightarrow> par st = xsum W (\<lambda>_. True) (16 * i) \<and>
     rp4 st = row 0 W (16 * i) \<and> rp6 st = row 1 W (16 * i) \<and> rp8 st = row 2 W (16 * i) \<and>
     rp10 st = row 3 W (16 * i) \<and> rp12 st = row 4 W (16 * i) \<and> rp14 st = row 5 W (16 * i) \<and>
     (mult = 2 \<longrightarrow> rp16 st = row 6 W (16 * i))"

lemma row_low:
  assumes "b < 4"
  shows "row b W (16 * m + 16) = row b W (16 * m) XOR
    xorl (map (\<lambda>k. W (16 * m + k)) (filter (\<lambda>k. \<not> bit k b) [0, 1, 2, 3, 4, 5, 6, 7, 8, 9, 10, 11, 12, 13, 14, 15]))"
proof -
  have "filter (\<lambda>j. \<not> bit j b) [16 * m..<16 * m + 16] =
      map (\<lambda>k. 16 * m + k) (filter (\<lambda>k. \<not> bit k b) [0, 1, 2, 3, 4, 5, 6, 7, 8, 9, 10, 11, 12, 13, 14, 15])"
    unfolding upt_16 filter_map
  proof (rule arg_cong [where f = "map _"], rule filter_cong [OF refl])
    fix k assume "k \<in> set [0 :: nat, 1, 2, 3, 4, 5, 6, 7, 8, 9, 10, 11, 12, 13, 14, 15]"
    then have "k < 16" by auto
    then show "((\<lambda>j. \<not> bit j b) \<circ> (\<lambda>k. 16 * m + k)) k \<longleftrightarrow> \<not> bit k b"
      using assms by (simp only: o_def bit_16_low)
  qed
  then show ?thesis by (simp only: row_def xsum_16 map_map o_def)
qed

lemma xsum_all_16:
  "xsum W (\<lambda>_. True) (16 * m + 16) = xsum W (\<lambda>_. True) (16 * m) XOR
    xorl (map (\<lambda>k. W (16 * m + k)) [0, 1, 2, 3, 4, 5, 6, 7, 8, 9, 10, 11, 12, 13, 14, 15])"
  unfolding xsum_16 upt_16 by (simp add: o_def)

lemma row_high:
  "row (4 + b) W (16 * m + 16) = row (4 + b) W (16 * m) XOR
    (if bit m b then 0 else xorl (map (\<lambda>k. W (16 * m + k)) [0, 1, 2, 3, 4, 5, 6, 7, 8, 9, 10, 11, 12, 13, 14, 15]))"
proof -
  have "filter (\<lambda>j. \<not> bit j (4 + b)) [16 * m..<16 * m + 16] = (if bit m b then [] else [16 * m..<16 * m + 16])"
  proof -
    have "filter ((\<lambda>j. \<not> bit j (4 + b)) \<circ> (\<lambda>k. 16 * m + k)) [0, 1, 2, 3, 4, 5, 6, 7, 8, 9, 10, 11, 12, 13, 14, 15] =
        filter (\<lambda>_. \<not> bit m b) [0, 1, 2, 3, 4, 5, 6, 7, 8, 9, 10, 11, 12, 13, 14, 15]"
    proof (rule filter_cong [OF refl])
      fix k assume "k \<in> set [0 :: nat, 1, 2, 3, 4, 5, 6, 7, 8, 9, 10, 11, 12, 13, 14, 15]"
      then have "k < 16" by auto
      then show "((\<lambda>j. \<not> bit j (4 + b)) \<circ> (\<lambda>k. 16 * m + k)) k \<longleftrightarrow> \<not> bit m b"
        by (simp only: o_def bit_16_high)
    qed
    then show ?thesis unfolding upt_16 filter_map by simp
  qed
  then show ?thesis by (simp only: row_def xsum_16) (simp add: upt_16 o_def del: upt_Suc)
qed

lemma ecc_iter_inv:
  assumes "ecc_inv W mult i st"
  shows "ecc_inv W mult (Suc i) (ecc_iter W mult i st)"
proof -
  have e: "16 * Suc i = 16 * i + 16" by simp
  have h: "row 4 W (16 * i + 16) = row 4 W (16 * i) XOR
      (if bit i 0 then 0 else xorl (map (\<lambda>k. W (16 * i + k)) [0, 1, 2, 3, 4, 5, 6, 7, 8, 9, 10, 11, 12, 13, 14, 15]))"
    "row 5 W (16 * i + 16) = row 5 W (16 * i) XOR
      (if bit i 1 then 0 else xorl (map (\<lambda>k. W (16 * i + k)) [0, 1, 2, 3, 4, 5, 6, 7, 8, 9, 10, 11, 12, 13, 14, 15]))"
    "row 6 W (16 * i + 16) = row 6 W (16 * i) XOR
      (if bit i 2 then 0 else xorl (map (\<lambda>k. W (16 * i + k)) [0, 1, 2, 3, 4, 5, 6, 7, 8, 9, 10, 11, 12, 13, 14, 15]))"
    using row_high [of 0] row_high [of 1] row_high [of 2] by simp_all
  have l: "row 0 W (16 * i + 16) = row 0 W (16 * i) XOR xorl (map (\<lambda>k. W (16 * i + k)) [0, 2, 4, 6, 8, 10, 12, 14])"
    "row 1 W (16 * i + 16) = row 1 W (16 * i) XOR xorl (map (\<lambda>k. W (16 * i + k)) [0, 1, 4, 5, 8, 9, 12, 13])"
    "row 2 W (16 * i + 16) = row 2 W (16 * i) XOR xorl (map (\<lambda>k. W (16 * i + k)) [0, 1, 2, 3, 8, 9, 10, 11])"
    "row 3 W (16 * i + 16) = row 3 W (16 * i) XOR xorl (map (\<lambda>k. W (16 * i + k)) [0, 1, 2, 3, 4, 5, 6, 7])"
    by (simp_all add: row_low bit_small del: xorl_simps)
  show ?thesis
    using assms unfolding ecc_inv_def e xsum_all_16 l h ecc_iter_def Let_def
    by (auto simp: and_bit_0 bit_0 xor.assoc xor.commute xor.left_commute)
qed

lemma ecc_loop_inv: "ecc_inv W mult n (ecc_loop W mult n)"
proof (induction n)
  case 0
  then show ?case by (simp add: ecc_inv_def ecc_init_def row_def)
next
  case (Suc n)
  then show ?case by (simp add: ecc_iter_inv)
qed


section \<open>From words to bytes\<close>

lemma linear_xsum:
  fixes f :: "u32 \<Rightarrow> u32" and B :: "nat \<Rightarrow> u8"
  assumes "\<And>x y. f (x XOR y) = f x XOR f y" "f 0 = 0"
    and "\<And>j. j < n \<Longrightarrow> (if P j then f (W j) else 0) =
      ucast (xorl (map B (filter Q [4 * j, 4 * j + 1, 4 * j + 2, 4 * j + 3])))"
  shows "f (xsum W P n) = ucast (xsum B Q (4 * n))"
  using assms(3)
proof (induction n)
  case 0
  then show ?case by (simp add: assms(2))
next
  case (Suc n)
  have "f (xsum W P (Suc n)) = f (xsum W P n) XOR (if P n then f (W n) else 0)"
    by (simp add: xsum_Suc assms(1,2))
  also have "f (xsum W P n) = ucast (xsum B Q (4 * n))" using Suc by simp
  also have "(if P n then f (W n) else 0) =
      ucast (xorl (map B (filter Q [4 * n, 4 * n + 1, 4 * n + 2, 4 * n + 3])))" using Suc.prems [of n] by simp
  finally show ?case by (simp only: mult_Suc_right add.commute [of 4] xsum_4 unsigned_xor_eq)
qed

lemma fold32_xor: "fold32 (x XOR y) = fold32 x XOR fold32 y"
  unfolding fold32_def Let_def by (rule bit_word_eqI) (auto simp: bit_simps)

lemma fold32_0: "fold32 0 = 0"
  by (simp add: fold32_def)

lemma bit_byte_ge: "8 \<le> n \<Longrightarrow> \<not> bit (x :: u8) n"
  using bit_imp_le_length by fastforce

lemma byte_eqI:
  fixes x y :: u32
  assumes "\<And>n. n < 8 \<Longrightarrow> bit x n = bit y n" "\<And>n. 8 \<le> n \<Longrightarrow> \<not> bit x n" "\<And>n. 8 \<le> n \<Longrightarrow> \<not> bit y n"
  shows "x = y"
proof (rule bit_word_eqI)
  fix n show "bit x n = bit y n" using assms [of n] by (cases "n < 8") auto
qed

lemma fold32_GET32: "fold32 (GET32 p i) = ucast (p ! i XOR p ! (i + 1) XOR p ! (i + 2) XOR p ! (i + 3))"
  unfolding fold32_def Let_def GET32_def
  by (rule byte_eqI) (simp_all add: bit_simps mask_bits bit_byte_ge, blast)

definition hi16 :: "u32 \<Rightarrow> u32" where
  "hi16 x = (drop_bit 16 x XOR drop_bit 8 (drop_bit 16 x)) AND 0xff"

definition lo16 :: "u32 \<Rightarrow> u32" where
  "lo16 x = ((x AND 0xffff) XOR drop_bit 8 (x AND 0xffff)) AND 0xff"

definition hi8 :: "u32 \<Rightarrow> u32" where
  "hi8 x = drop_bit 8 (x XOR drop_bit 16 x) AND 0xff"

definition lo8 :: "u32 \<Rightarrow> u32" where
  "lo8 x = (x XOR drop_bit 16 x) AND 0xff"

lemmas halves = hi16_def lo16_def hi8_def lo8_def

lemma halves_xor: "hi16 (x XOR y) = hi16 x XOR hi16 y" "lo16 (x XOR y) = lo16 x XOR lo16 y"
  "hi8 (x XOR y) = hi8 x XOR hi8 y" "lo8 (x XOR y) = lo8 x XOR lo8 y"
  unfolding halves by (rule bit_word_eqI, auto simp: bit_simps)+

lemma halves_0: "hi16 0 = 0" "lo16 0 = 0" "hi8 0 = 0" "lo8 0 = 0"
  by (simp_all add: halves)

lemma halves_GET32: "hi16 (GET32 p i) = ucast (p ! (i + 2) XOR p ! (i + 3))"
  "lo16 (GET32 p i) = ucast (p ! i XOR p ! (i + 1))"
  "hi8 (GET32 p i) = ucast (p ! (i + 1) XOR p ! (i + 3))"
  "lo8 (GET32 p i) = ucast (p ! i XOR p ! (i + 2))"
  unfolding halves GET32_def by (rule byte_eqI; simp add: bit_simps mask_bits bit_byte_ge)+

lemma bit_4_low:
  assumes "b < 2" "r < 4"
  shows "bit (4 * j + r :: nat) b \<longleftrightarrow> bit r b"
proof -
  have "take_bit 2 (4 * j + r) = r" using assms(2) by (simp add: take_bit_eq_mod)
  then have "bit r b \<longleftrightarrow> bit (take_bit 2 (4 * j + r)) b" by simp
  then show ?thesis using assms(1) by (simp add: bit_take_bit_iff)
qed

lemma bit_4_high:
  assumes "r < 4"
  shows "bit (4 * j + r :: nat) (b + 2) \<longleftrightarrow> bit j b"
proof -
  have "drop_bit 2 (4 * j + r) = j" using assms by (simp add: drop_bit_eq_div)
  then show ?thesis by (metis bit_drop_bit_eq comp_apply add.commute)
qed

lemma bit_4_cases:
  "bit (4 * j :: nat) 0 = False" "bit (4 * j + 1 :: nat) 0 = True" "bit (4 * j + 2 :: nat) 0 = False"
  "bit (4 * j + 3 :: nat) 0 = True" "bit (4 * j :: nat) 1 = False" "bit (4 * j + 1 :: nat) 1 = False"
  "bit (4 * j + 2 :: nat) 1 = True" "bit (4 * j + 3 :: nat) 1 = True"
  using bit_4_low [of _ 0 j] bit_4_low [of _ 1 j] bit_4_low [of _ 2 j] bit_4_low [of _ 3 j]
  by (simp_all add: bit_small)

lemma bit_4_highs: "bit (4 * j :: nat) (b + 2) = bit j b" "bit (4 * j + 1 :: nat) (b + 2) = bit j b"
  "bit (4 * j + 2 :: nat) (b + 2) = bit j b" "bit (4 * j + 3 :: nat) (b + 2) = bit j b"
  using bit_4_high [of 0 j b] bit_4_high [of 1 j b] bit_4_high [of 2 j b] bit_4_high [of 3 j b] by simp_all

lemmas sel_simps = filter.simps bit_4_cases bit_4_highs list.map xorl_simps if_True if_False not_True_eq_False
  not_False_eq_True

lemma fold32_rows:
  "fold32 (row b (\<lambda>j. GET32 p (off + 4 * j)) n) = ucast (xsum (\<lambda>a. p ! (off + a)) (\<lambda>a. \<not> bit a (b + 2)) (4 * n))"
  unfolding row_def by (rule linear_xsum [OF fold32_xor fold32_0])
    (simp only: sel_simps, simp add: fold32_GET32 add.assoc)

lemma fold32_par:
  "fold32 (xsum (\<lambda>j. GET32 p (off + 4 * j)) (\<lambda>_. True) n) = ucast (xsum (\<lambda>a. p ! (off + a)) (\<lambda>_. True) (4 * n))"
  by (rule linear_xsum [OF fold32_xor fold32_0]) (simp add: fold32_GET32 add.assoc)

lemma halves_par:
  fixes p off
  defines "W \<equiv> \<lambda>j. GET32 p (off + 4 * j)" and "B \<equiv> \<lambda>a. p ! (off + a)"
  shows "hi16 (xsum W (\<lambda>_. True) n) = ucast (xsum B (\<lambda>a. bit a 1) (4 * n))"
    "lo16 (xsum W (\<lambda>_. True) n) = ucast (xsum B (\<lambda>a. \<not> bit a 1) (4 * n))"
    "hi8 (xsum W (\<lambda>_. True) n) = ucast (xsum B (\<lambda>a. bit a 0) (4 * n))"
    "lo8 (xsum W (\<lambda>_. True) n) = ucast (xsum B (\<lambda>a. \<not> bit a 0) (4 * n))"
  unfolding W_def B_def
  by (rule linear_xsum [OF halves_xor(1) halves_0(1)], simp only: sel_simps, simp add: halves_GET32 add.assoc)
     (rule linear_xsum [OF halves_xor(2) halves_0(2)], simp only: sel_simps, simp add: halves_GET32 add.assoc,
      rule linear_xsum [OF halves_xor(3) halves_0(3)], simp only: sel_simps, simp add: halves_GET32 add.assoc,
      rule linear_xsum [OF halves_xor(4) halves_0(4)], simp only: sel_simps, simp add: halves_GET32 add.assoc)

lemma ucast_and_ff: "(ucast (x :: u8) :: u32) AND 0xff = ucast x"
  by (rule byte_eqI) (simp_all add: bit_simps mask_bits bit_byte_ge)

lemma complement_row:
  "(ucast (xsum B (\<lambda>_. True) n) XOR ucast (xsum B (\<lambda>a. \<not> P a) n)) AND (0xff :: u32) = ucast (xsum B P n :: u8)"
  unfolding unsigned_xor_eq [symmetric] xsum_compl by (rule ucast_and_ff)

section \<open>Parities\<close>

lemma invparity_used_bit: "invparity = map (\<lambda>n. (n + 1) mod 2) used_bit"
  by (simp add: invparity_def used_bit_def)

lemma invparity_nth: "k < 256 \<Longrightarrow> invparity ! k = (popcount 8 k + 1) mod 2"
  by (simp add: invparity_used_bit used_bit_table)

definition ones8 :: "(nat \<Rightarrow> bool) \<Rightarrow> u8 \<Rightarrow> nat" where
  "ones8 I x = length (filter (\<lambda>i. I i \<and> bit x i) [0..<8])"

lemma popcount_ones8: "popcount 8 (unat x) = ones8 (\<lambda>_. True) x"
proof -
  have "popcount 8 (unat x) = card {j. j < 8 \<and> bit x j}"
    by (simp add: popcount_card bit_unsigned_iff)
  also have "{j. j < 8 \<and> bit x j} = set (filter (bit x) [0..<8])" by auto
  also have "card \<dots> = length (filter (bit x) [0..<8])" by (rule distinct_card) simp
  finally show ?thesis by (simp add: ones8_def)
qed

lemma inv_ones8: "invp (ucast x) = (if odd (ones8 (\<lambda>_. True) x) then 0 else 1)"
  using u8_less_256 [of x] by (auto simp: invp_def invparity_nth odd_iff_mod_2_eq_one mod_Suc simp flip: popcount_ones8)

lemma inv_mask: "(\<And>i. i < 8 \<Longrightarrow> bit (m :: u8) i = I i) \<Longrightarrow> invp (ucast x AND ucast m) = (if odd (ones8 I x) then 0 else 1)"
proof -
  assume m: "\<And>i. i < 8 \<Longrightarrow> bit m i = I i"
  have "ones8 (\<lambda>_. True) (x AND m) = ones8 I x"
    unfolding ones8_def by (rule arg_cong [where f = length], rule filter_cong) (auto simp: bit_and_iff m)
  then show ?thesis using inv_ones8 [of "x AND m"] by (simp add: unsigned_and_eq)
qed

lemma odd_filter_xor:
  "odd (length (filter (\<lambda>i. P i \<noteq> Q i) xs)) \<longleftrightarrow> odd (length (filter P xs)) \<noteq> odd (length (filter Q xs))"
  by (induction xs) auto

lemma ones8_xor: "odd (ones8 I (x XOR y)) \<longleftrightarrow> odd (ones8 I x) \<noteq> odd (ones8 I y)"
proof -
  have "filter (\<lambda>i. I i \<and> bit (x XOR y) i) [0..<8] = filter (\<lambda>i. (I i \<and> bit x i) \<noteq> (I i \<and> bit y i)) [0..<8]"
    by (rule filter_cong) (auto simp: bit_xor_iff)
  then show ?thesis unfolding ones8_def by (simp only: odd_filter_xor)
qed

text \<open>
  The reference: the number of one bits of the block \<open>p ! off, p ! (off + 1), \<dots>\<close> whose byte address
  satisfies \<open>A\<close> and whose bit position satisfies \<open>I\<close>.
\<close>

definition ones_at :: "u8 list \<Rightarrow> nat \<Rightarrow> nat \<Rightarrow> (nat \<Rightarrow> bool) \<Rightarrow> (nat \<Rightarrow> bool) \<Rightarrow> nat" where
  "ones_at p off n A I = sum_list (map (\<lambda>a. ones8 I (p ! (off + a))) (filter A [0..<n]))"

lemma odd_xorl: "odd (ones8 I (xorl xs)) \<longleftrightarrow> odd (sum_list (map (ones8 I) xs))"
  by (induction xs) (simp_all add: ones8_xor, simp add: ones8_def)

lemma ones8_xsum: "odd (ones8 I (xsum (\<lambda>a. p ! (off + a)) A n)) \<longleftrightarrow> odd (ones_at p off n A I)"
  by (simp only: xsum_def odd_xorl ones_at_def map_map o_def)

definition even_bit :: "nat \<Rightarrow> u8" where
  "even_bit n = (if odd n then 0 else 1)"

lemma inv_xsum: "invp (ucast (xsum (\<lambda>a. p ! (off + a)) A n)) = even_bit (ones_at p off n A (\<lambda>_. True))"
  by (simp add: inv_ones8 ones8_xsum even_bit_def)

lemma inv_xsum_mask: "(\<And>i. i < 8 \<Longrightarrow> bit (m :: u8) i = I i) \<Longrightarrow>
    invp (ucast (xsum (\<lambda>a. p ! (off + a)) A n) AND ucast m) = even_bit (ones_at p off n A I)"
  unfolding even_bit_def ones8_xsum [symmetric] by (rule inv_mask)

section \<open>The code is made of parities\<close>

definition ecc_row :: "u8 list \<Rightarrow> nat \<Rightarrow> nat \<Rightarrow> nat \<Rightarrow> bool \<Rightarrow> nat" where
  "ecc_row p off n b v = ones_at p off n (\<lambda>a. bit a b = v) (\<lambda>_. True)"

definition ecc_col :: "u8 list \<Rightarrow> nat \<Rightarrow> nat \<Rightarrow> nat \<Rightarrow> bool \<Rightarrow> nat" where
  "ecc_col p off n b v = ones_at p off n (\<lambda>_. True) (\<lambda>i. bit i b = v)"

definition code_byte :: "nat \<Rightarrow> nat \<Rightarrow> nat \<Rightarrow> nat \<Rightarrow> nat \<Rightarrow> nat \<Rightarrow> nat \<Rightarrow> nat \<Rightarrow> u8" where
  "code_byte a7 a6 a5 a4 a3 a2 a1 a0 =
     push_bit 7 (even_bit a7) OR push_bit 6 (even_bit a6) OR push_bit 5 (even_bit a5) OR push_bit 4 (even_bit a4) OR
     push_bit 3 (even_bit a3) OR push_bit 2 (even_bit a2) OR push_bit 1 (even_bit a1) OR even_bit a0"

lemma bit_even_bit: "bit (even_bit n) i \<longleftrightarrow> i = 0 \<and> even n"
  by (simp add: even_bit_def bit_1_iff)

lemma bit_code_byte:
  "bit (code_byte a7 a6 a5 a4 a3 a2 a1 a0) 0 = even a0" "bit (code_byte a7 a6 a5 a4 a3 a2 a1 a0) (Suc 0) = even a1"
  "bit (code_byte a7 a6 a5 a4 a3 a2 a1 a0) 2 = even a2" "bit (code_byte a7 a6 a5 a4 a3 a2 a1 a0) 3 = even a3"
  "bit (code_byte a7 a6 a5 a4 a3 a2 a1 a0) 4 = even a4" "bit (code_byte a7 a6 a5 a4 a3 a2 a1 a0) 5 = even a5"
  "bit (code_byte a7 a6 a5 a4 a3 a2 a1 a0) 6 = even a6" "bit (code_byte a7 a6 a5 a4 a3 a2 a1 a0) 7 = even a7"
  by (simp_all only: code_byte_def bit_or_iff bit_push_bit_iff, simp_all add: bit_even_bit)

lemma col_masks:
  "i < 8 \<Longrightarrow> bit (0xf0 :: u8) i = (bit i 2 = True)" "i < 8 \<Longrightarrow> bit (0x0f :: u8) i = (bit i 2 = False)"
  "i < 8 \<Longrightarrow> bit (0xcc :: u8) i = (bit i 1 = True)" "i < 8 \<Longrightarrow> bit (0x33 :: u8) i = (bit i 1 = False)"
  "i < 8 \<Longrightarrow> bit (0xaa :: u8) i = (bit i 0 = True)" "i < 8 \<Longrightarrow> bit (0x55 :: u8) i = (bit i 0 = False)"
proof -
  have "\<forall>i \<in> {0,1,2,3,4,5,6,7}. bit (0xf0 :: u8) i = bit i 2 \<and> bit (0x0f :: u8) i = (\<not> bit i 2) \<and>
    bit (0xcc :: u8) i = bit i 1 \<and> bit (0x33 :: u8) i = (\<not> bit i 1) \<and>
    bit (0xaa :: u8) i = bit i 0 \<and> bit (0x55 :: u8) i = (\<not> bit i 0)"
    by (simp add: bit_small)
  moreover have "i < 8 \<longleftrightarrow> i \<in> {0,1,2,3,4,5,6,7}" for i :: nat by auto
  ultimately show "i < 8 \<Longrightarrow> bit (0xf0 :: u8) i = (bit i 2 = True)" "i < 8 \<Longrightarrow> bit (0x0f :: u8) i = (bit i 2 = False)"
  "i < 8 \<Longrightarrow> bit (0xcc :: u8) i = (bit i 1 = True)" "i < 8 \<Longrightarrow> bit (0x33 :: u8) i = (bit i 1 = False)"
  "i < 8 \<Longrightarrow> bit (0xaa :: u8) i = (bit i 0 = True)" "i < 8 \<Longrightarrow> bit (0x55 :: u8) i = (bit i 0 = False)"
    by blast+
qed

lemma nand_ecc_code:
  fixes p off mult
  assumes "mult = 1 \<or> mult = 2"
  defines "n \<equiv> 256 * mult"
  defines "R \<equiv> ecc_row p off n" and "C \<equiv> ecc_col p off n"
  shows "nand_calculate_ecc p off (256 * mult) =
    [code_byte (R 7 True) (R 7 False) (R 6 True) (R 6 False) (R 5 True) (R 5 False) (R 4 True) (R 4 False),
     code_byte (R 3 True) (R 3 False) (R 2 True) (R 2 False) (R 1 True) (R 1 False) (R 0 True) (R 0 False),
     if mult = 1 then code_byte (C 2 True) (C 2 False) (C 1 True) (C 1 False) (C 0 True) (C 0 False) 0 0
     else code_byte (C 2 True) (C 2 False) (C 1 True) (C 1 False) (C 0 True) (C 0 False) (R 8 True) (R 8 False)]"
proof -
  let ?W = "\<lambda>j. GET32 p (off + 4 * j)" and ?B = "\<lambda>a. p ! (off + a)"
  define st where "st = ecc_loop ?W mult (4 * mult)"
  have m: "256 * mult div 256 = mult" by simp
  have n: "4 * (16 * (4 * mult)) = n" by (simp add: n_def)
  have inv: "ecc_inv ?W mult (4 * mult) st" unfolding st_def by (rule ecc_loop_inv)
  have rows: "fold32 (row b ?W (16 * (4 * mult))) = ucast (xsum ?B (\<lambda>a. \<not> bit a c) n)" if "c = b + 2" for b c
    using fold32_rows [of b p off "16 * (4 * mult)"] that by (simp only: n)
  have r: "fold32 (rp4 st) = ucast (xsum ?B (\<lambda>a. \<not> bit a 2) n)"
    "fold32 (rp6 st) = ucast (xsum ?B (\<lambda>a. \<not> bit a 3) n)"
    "fold32 (rp8 st) = ucast (xsum ?B (\<lambda>a. \<not> bit a 4) n)"
    "fold32 (rp10 st) = ucast (xsum ?B (\<lambda>a. \<not> bit a 5) n)"
    "fold32 (rp12 st) = ucast (xsum ?B (\<lambda>a. \<not> bit a 6) n)"
    "fold32 (rp14 st) = ucast (xsum ?B (\<lambda>a. \<not> bit a 7) n)"
    "mult = 2 \<Longrightarrow> fold32 (rp16 st) = ucast (xsum ?B (\<lambda>a. \<not> bit a 8) n)"
    using inv rows [of 2 0] rows [of 3 1] rows [of 4 2] rows [of 5 3] rows [of 6 4] rows [of 7 5] rows [of 8 6]
    unfolding ecc_inv_def by simp_all
  have pr: "par st = xsum ?W (\<lambda>_. True) (16 * (4 * mult))" using inv by (simp add: ecc_inv_def)
  note hp = halves_par [of p off "16 * (4 * mult)", folded pr, unfolded n]
  note pp = fold32_par [of p off "16 * (4 * mult)", folded pr, unfolded n]
  note rr = r(1-6) hp [unfolded halves] pp [unfolded fold32_def Let_def]
  have rowT: "invp (ucast (xsum ?B (\<lambda>a. bit a b) n)) = even_bit (R b True)" for b
    by (simp add: inv_xsum R_def ecc_row_def)
  have rowF: "invp (ucast (xsum ?B (\<lambda>a. \<not> bit a b) n)) = even_bit (R b False)" for b
    by (simp add: inv_xsum R_def ecc_row_def)
  have "invp (ucast (xsum ?B (\<lambda>_. True) n) AND ucast (c :: u8)) = even_bit (C b v)"
    if "\<And>i. i < 8 \<Longrightarrow> bit c i = (bit i b = v)" for c b v
    unfolding C_def ecc_col_def by (rule inv_xsum_mask) (rule that)
  note col = this [OF col_masks(1)] this [OF col_masks(2)] this [OF col_masks(3)] this [OF col_masks(4)]
    this [OF col_masks(5)] this [OF col_masks(6)]
  have col: "invp (ucast (xsum ?B (\<lambda>_. True) n) AND 0xf0) = even_bit (C 2 True)"
    "invp (ucast (xsum ?B (\<lambda>_. True) n) AND 0x0f) = even_bit (C 2 False)"
    "invp (ucast (xsum ?B (\<lambda>_. True) n) AND 0xcc) = even_bit (C 1 True)"
    "invp (ucast (xsum ?B (\<lambda>_. True) n) AND 0x33) = even_bit (C 1 False)"
    "invp (ucast (xsum ?B (\<lambda>_. True) n) AND 0xaa) = even_bit (C 0 True)"
    "invp (ucast (xsum ?B (\<lambda>_. True) n) AND 0x55) = even_bit (C 0 False)"
    using col by simp_all
  have three: "x OR 3 = x OR push_bit 1 (even_bit 0) OR even_bit 0" for x :: u8
    by (simp add: even_bit_def)
  show ?thesis
  proof (cases "mult = 1")
    case True
    show ?thesis
      unfolding nand_calculate_ecc_def m Let_def st_def [symmetric] rr complement_row rowT rowF col code_byte_def
        if_P [OF True] three or.assoc ..
  next
    case False
    then have m2: "mult = 2" using assms(1) by simp
    show ?thesis
      unfolding nand_calculate_ecc_def m Let_def st_def [symmetric] rr r(7) [OF m2] complement_row rowT rowF col
        code_byte_def if_not_P [OF False] if_P [OF m2] or.assoc push_bit_0_id id_apply ..
  qed
qed


lemma bit_code_pair:
  assumes "b < 4"
  shows "bit (code_byte (f 3 True) (f 3 False) (f 2 True) (f 2 False) (f 1 True) (f 1 False) (f 0 True) (f 0 False))
      (2 * b + of_bool v) = even (f b v)"
proof -
  have "b = 0 \<or> b = 1 \<or> b = 2 \<or> b = 3" using assms by auto
  then show ?thesis by (elim disjE; cases v; simp add: bit_code_byte)
qed

lemma nand_ecc_bits:
  assumes "mult = 1 \<or> mult = 2"
  shows "b < 4 \<Longrightarrow> bit (nand_calculate_ecc p off (256 * mult) ! 1) (2 * b + of_bool v) =
      even (ecc_row p off (256 * mult) b v)"
    "b < 4 \<Longrightarrow> bit (nand_calculate_ecc p off (256 * mult) ! 0) (2 * b + of_bool v) =
      even (ecc_row p off (256 * mult) (b + 4) v)"
    "b < 3 \<Longrightarrow> bit (nand_calculate_ecc p off (256 * mult) ! 2) (2 * b + 2 + of_bool v) =
      even (ecc_col p off (256 * mult) b v)"
    "mult = 2 \<Longrightarrow> bit (nand_calculate_ecc p off (256 * mult) ! 2) (of_bool v) = even (ecc_row p off (256 * mult) 8 v)"
proof -
  show "b < 4 \<Longrightarrow> bit (nand_calculate_ecc p off (256 * mult) ! 1) (2 * b + of_bool v) =
      even (ecc_row p off (256 * mult) b v)"
    using bit_code_pair [of b "ecc_row p off (256 * mult)" v] by (simp add: nand_ecc_code [OF assms])
  show "b < 4 \<Longrightarrow> bit (nand_calculate_ecc p off (256 * mult) ! 0) (2 * b + of_bool v) =
      even (ecc_row p off (256 * mult) (b + 4) v)"
    using bit_code_pair [of b "\<lambda>b. ecc_row p off (256 * mult) (b + 4)" v] by (simp add: nand_ecc_code [OF assms])
  let ?f = "\<lambda>b. if b = 0 then (\<lambda>v. if mult = 1 then 0 else ecc_row p off (256 * mult) 8 v)
      else ecc_col p off (256 * mult) (b - 1)"
  have f: "bit (nand_calculate_ecc p off (256 * mult) ! 2) (2 * b + of_bool v) = even (?f b v)" if "b < 4" for b
  proof -
    have "nand_calculate_ecc p off (256 * mult) ! 2 = code_byte (?f 3 True) (?f 3 False) (?f 2 True) (?f 2 False)
        (?f 1 True) (?f 1 False) (?f 0 True) (?f 0 False)"
      by (simp add: nand_ecc_code [OF assms])
    then show ?thesis using bit_code_pair [of b ?f v, OF that] by (simp only:)
  qed
  show "b < 3 \<Longrightarrow> bit (nand_calculate_ecc p off (256 * mult) ! 2) (2 * b + 2 + of_bool v) =
      even (ecc_col p off (256 * mult) b v)"
    using f [of "b + 1"] by simp
  show "mult = 2 \<Longrightarrow> bit (nand_calculate_ecc p off (256 * mult) ! 2) (of_bool v) = even (ecc_row p off (256 * mult) 8 v)"
    using f [of 0] by simp
qed

text \<open>
  C12: The optimised routine \<^verbatim>\<open>__nand_calculate_ecc\<close> (word-wise accumulation, unrolled loop, folding) computes
  the code it stands for: every bit of the first two code bytes is the even parity of all the bits of the block
  whose byte address has a given bit set or clear, every bit of the upper three pairs of the third byte the even
  parity of all the bits at the bit positions with a given position bit set or clear.
\<close>

theorem nand_ecc_parities:
  fixes p off mult
  assumes "mult = 1 \<or> mult = 2"
  defines "code \<equiv> nand_calculate_ecc p off (256 * mult)"
  shows "(\<forall>b < 4. \<forall>v. bit (code ! 1) (2 * b + of_bool v) = even (ecc_row p off (256 * mult) b v) \<and>
      bit (code ! 0) (2 * b + of_bool v) = even (ecc_row p off (256 * mult) (b + 4) v)) \<and>
    (\<forall>b < 3. \<forall>v. bit (code ! 2) (2 * b + 2 + of_bool v) = even (ecc_col p off (256 * mult) b v))"
  unfolding code_def using nand_ecc_bits [OF assms(1)] by blast

theorem nand_ecc_parities_witness:
  "bit (nand_calculate_ecc (replicate 3 7 @ [0x11] @ replicate 255 0) 3 (256 * 1) ! 1) (2 * 0 + of_bool False) =
    even (ecc_row (replicate 3 7 @ [0x11] @ replicate 255 0) 3 (256 * 1) 0 False)"
  using nand_ecc_parities [of 1 "replicate 3 7 @ [0x11] @ replicate 255 0" 3]
  by (meson zero_less_numeral)

section \<open>A single flipped bit\<close>

lemma xsum_flip:
  fixes p :: "u8 list"
  assumes "off + n \<le> length p" "a < n"
  shows "m \<le> n \<Longrightarrow> xsum (\<lambda>j. p[off + a := p ! (off + a) XOR d] ! (off + j)) A m =
    xsum (\<lambda>j. p ! (off + j)) A m XOR (if A a \<and> a < m then d else 0)"
proof (induction m)
  case (Suc m)
  consider "m = a" | "m < a" | "a < m" by linarith
  then show ?case
    using Suc assms by cases (auto simp: xsum_Suc ac_simps)
qed simp

lemma ones8_0: "ones8 I 0 = 0"
  by (simp add: ones8_def)

lemma ones8_single: "i < 8 \<Longrightarrow> ones8 I (push_bit i 1) = (if I i then 1 else 0)"
proof -
  assume i: "i < 8"
  have "filter (\<lambda>k. I k \<and> bit (push_bit i 1 :: u8) k) [0..<8] = filter (\<lambda>k. k = i \<and> I i) [0..<8]"
    by (rule filter_cong) (use i in \<open>auto simp: bit_push_bit_iff bit_1_iff simp del: push_bit_of_1\<close>)
  moreover have "length (filter (\<lambda>k. k = i) [0..<8]) = 1"
  proof -
    have "length (filter (\<lambda>k. k = i) [0..<8]) = card (set (filter (\<lambda>k. k = i) [0..<8]))"
      by (rule distinct_card [symmetric]) simp
    also have "set (filter (\<lambda>k. k = i) [0..<8]) = {i}" using i by auto
    finally show ?thesis by simp
  qed
  ultimately show ?thesis by (simp add: ones8_def)
qed

lemma odd_ones_at_flip:
  assumes "off + n \<le> length p" "a < n" "i < 8"
  shows "odd (ones_at (p[off + a := p ! (off + a) XOR push_bit i 1]) off n A I) \<longleftrightarrow>
    odd (ones_at p off n A I) \<noteq> (A a \<and> I i)"
  unfolding ones8_xsum [symmetric] xsum_flip [OF assms(1,2) order_refl] ones8_xor
  using assms ones8_single [OF assms(3), of I] ones8_0 [of I] by (cases "A a"; cases "I i") (simp_all del: push_bit_of_1)

text \<open>
  C13: The code locates a single flipped bit: when bit \<open>i\<close> of byte \<open>a\<close> of the block is inverted, then of the two
  parities for address bit \<open>b\<close> exactly the one for the value that \<open>a\<close> has there changes, and of the two for
  position bit \<open>b\<close> exactly the one for the value that \<open>i\<close> has there.  So \<open>a\<close> and \<open>i\<close> can be read off the XOR of
  the two codes.
\<close>

theorem nand_ecc_locates:
  fixes p off mult a i
  assumes "mult = 1 \<or> mult = 2" "off + 256 * mult \<le> length p" "a < 256 * mult" "i < 8"
  defines "code \<equiv> nand_calculate_ecc p off (256 * mult)"
    and "code' \<equiv> nand_calculate_ecc (p[off + a := p ! (off + a) XOR push_bit i 1]) off (256 * mult)"
  shows "(\<forall>b < 4. \<forall>v. (bit (code' ! 1) (2 * b + of_bool v) \<noteq> bit (code ! 1) (2 * b + of_bool v)) = (bit a b = v) \<and>
      (bit (code' ! 0) (2 * b + of_bool v) \<noteq> bit (code ! 0) (2 * b + of_bool v)) = (bit a (b + 4) = v)) \<and>
    (\<forall>b < 3. \<forall>v. (bit (code' ! 2) (2 * b + 2 + of_bool v) \<noteq> bit (code ! 2) (2 * b + 2 + of_bool v)) = (bit i b = v)) \<and>
    (mult = 2 \<longrightarrow> (\<forall>v. (bit (code' ! 2) (of_bool v) \<noteq> bit (code ! 2) (of_bool v)) = (bit a 8 = v)))"
proof -
  note bits = nand_ecc_bits [OF assms(1)]
  note flip = odd_ones_at_flip [OF assms(2-4)]
  have r: "(even (ecc_row (p[off + a := p ! (off + a) XOR push_bit i 1]) off (256 * mult) b v) \<noteq>
      even (ecc_row p off (256 * mult) b v)) = (bit a b = v)" for b v
    unfolding ecc_row_def using flip [of "\<lambda>a. bit a b = v" "\<lambda>_. True"] by blast
  have c: "(even (ecc_col (p[off + a := p ! (off + a) XOR push_bit i 1]) off (256 * mult) b v) \<noteq>
      even (ecc_col p off (256 * mult) b v)) = (bit i b = v)" for b v
    unfolding ecc_col_def using flip [of "\<lambda>_. True" "\<lambda>i. bit i b = v"] by blast
  have "bit (code' ! 2) (of_bool v) \<noteq> bit (code ! 2) (of_bool v) \<longleftrightarrow> bit a 8 = v" if "mult = 2" for v
    unfolding code_def code'_def bits(4) [OF that] by (rule r)
  moreover have "bit (code' ! 1) (2 * b + of_bool v) \<noteq> bit (code ! 1) (2 * b + of_bool v) \<longleftrightarrow> bit a b = v"
    "bit (code' ! 0) (2 * b + of_bool v) \<noteq> bit (code ! 0) (2 * b + of_bool v) \<longleftrightarrow> bit a (b + 4) = v" if "b < 4" for b v
    unfolding code_def code'_def bits(1,2) [OF that] by (rule r)+
  moreover have "bit (code' ! 2) (2 * b + 2 + of_bool v) \<noteq> bit (code ! 2) (2 * b + 2 + of_bool v) \<longleftrightarrow> bit i b = v"
    if "b < 3" for b v
    unfolding code_def code'_def bits(3) [OF that] by (rule c)
  ultimately show ?thesis by blast
qed

theorem nand_ecc_locates_witness:
  "(bit (nand_calculate_ecc ((replicate 512 0)[0 + 300 := replicate 512 0 ! (0 + 300) XOR push_bit 5 1]) 0 (256 * 2) ! 2)
      (of_bool True) \<noteq> bit (nand_calculate_ecc (replicate 512 0) 0 (256 * 2) ! 2) (of_bool True)) = (bit (300 :: nat) 8 = True)"
proof -
  have "(2 :: nat) = 1 \<or> (2 :: nat) = 2" "0 + 256 * 2 \<le> length (replicate 512 (0 :: u8))" "(300 :: nat) < 256 * 2" "(5 :: nat) < 8"
    by simp_all
  from nand_ecc_locates [OF this] show ?thesis by blast
qed

end
