(* ===== verification/FlashImg.thy ===== *)
theory FlashImg
  imports NandEcc
begin

text \<open>
  The flash image tool \<^verbatim>\<open>flashimg-0.1/main.c\<close>.  The image in memory is a byte list, the host's files a map from
  names to contents.  An operation ends in an \<open>outcome\<close>: it returns, it calls \<^verbatim>\<open>exit\<close>, or it does something that C
  leaves undefined (an access outside the image or a table, a null pointer, a negative offset or length).  The successive results of
  \<^verbatim>\<open>fscanf(fp, "%s %li %li", ...)\<close> on a partition file are a parameter, \<open>scan\<close>.
\<close>

datatype flash = NOR | NAND

record image_part =
  pname :: string
  poff :: int
  plen :: int

datatype 'a outcome = Return 'a | Exit_failure 'a | Fault

fun out_bind :: "'a outcome \<Rightarrow> ('a \<Rightarrow> 'a outcome) \<Rightarrow> 'a outcome" where
  "out_bind (Return a) f = f a"
| "out_bind (Exit_failure a) f = Exit_failure a"
| "out_bind Fault f = Fault"

section \<open>Memory\<close>

text \<open>\<open>memcpy (img + off) bs\<close>; outside the allocation the behaviour is undefined.\<close>

definition store_bytes :: "u8 list \<Rightarrow> nat \<Rightarrow> u8 list \<Rightarrow> u8 list option" where
  "store_bytes img off bs =
     (if off + length bs \<le> length img then Some (take off img @ bs @ drop (off + length bs) img) else None)"

definition load_bytes :: "u8 list \<Rightarrow> nat \<Rightarrow> nat \<Rightarrow> u8 list option" where
  "load_bytes img off n = (if off + n \<le> length img then Some (take n (drop off img)) else None)"

section \<open>Spare area of a block\<close>

definition oob :: "u8 list \<Rightarrow> u8 list" where
  "oob buf =
     (let check = replicate 16 0xff;
          code = nand_calculate_ecc buf 0 256;
          check = check[0 := code ! 0, 1 := code ! 1, 2 := code ! 2];
          code = nand_calculate_ecc buf 256 256
      in check[3 := code ! 0, 6 := code ! 1, 7 := code ! 2])"

definition ENV0 :: "u8 list" where "ENV0 = [0x45, 0x4E, 0x56, 0x30]"

section \<open>Partitions\<close>

fun find_part :: "image_part list \<Rightarrow> string \<Rightarrow> image_part option" where
  "find_part [] name = None"
| "find_part (p # ps) name = (if pname p = name then Some p else find_part ps name)"

definition real_off :: "flash \<Rightarrow> image_part \<Rightarrow> nat" where
  "real_off ft p = (if ft = NAND then nat (poff p) + (nat (poff p) div 512) * 16 else nat (poff p))"

text \<open>C division rounds towards zero.\<close>

definition num_blocks :: "image_part \<Rightarrow> int" where
  "num_blocks p = (if 0 \<le> plen p + 511 then (plen p + 511) div 512 else - (- (plen p + 511) div 512))"

fun read_blocks :: "flash \<Rightarrow> u8 list \<Rightarrow> nat \<Rightarrow> nat \<Rightarrow> u8 list option" where
  "read_blocks ft img off 0 = Some []"
| "read_blocks ft img off (Suc nb) =
     (case load_bytes img off 512 of
        None \<Rightarrow> None
      | Some buf \<Rightarrow> map_option ((@) buf) (read_blocks ft img (if ft = NAND then off + 512 + 16 else off + 512) nb))"

text \<open>The files of the host; \<open>wr\<close> says which names can be opened for writing.\<close>

type_synonym files = "string \<Rightarrow> u8 list option"

definition partition_read ::
  "flash \<Rightarrow> image_part list \<Rightarrow> (string \<Rightarrow> bool) \<Rightarrow> string \<Rightarrow> string \<Rightarrow> u8 list \<times> files \<Rightarrow> (u8 list \<times> files) outcome" where
  "partition_read ft parts wr part_name filename st =
     (case st of (img, fs) \<Rightarrow>
      (case find_part parts part_name of
         None \<Rightarrow> Return (img, fs)
       | Some p \<Rightarrow>
           if poff p < 0 then Fault
           else if \<not> wr filename then Exit_failure (img, fs)
           else if num_blocks p < 0 then Fault
           else (case read_blocks ft img (real_off ft p) (nat (num_blocks p)) of
                   None \<Rightarrow> Fault
                 | Some d \<Rightarrow> Return (img, fs(filename \<mapsto> d)))))"

text \<open>
  The loop of \<^verbatim>\<open>partition_write\<close>: \<open>d\<close> is what is left of the input file, \<open>off\<close> the place in the image, \<open>nb\<close>
  the countdown (an \<^verbatim>\<open>int\<close>, compared with \<^verbatim>\<open>-1\<close>).
\<close>

function write_loop :: "flash \<Rightarrow> u8 list \<Rightarrow> nat \<Rightarrow> int \<Rightarrow> u8 list \<Rightarrow> u8 list outcome" where
  "write_loop ft d off nb img =
     (if d = [] then Return img
      else
        let chunk = take 512 d;
            buf = chunk @ replicate (512 - length chunk) 0
        in case store_bytes img off buf of
             None \<Rightarrow> Fault
           | Some img \<Rightarrow>
             (let off = off + 512 in
              case (if ft = NAND
                    then (case store_bytes img off (oob buf) of
                            None \<Rightarrow> None
                          | Some img \<Rightarrow> if off = 512 then store_bytes img (off + 12) ENV0 else Some img)
                    else Some img) of
                None \<Rightarrow> Fault
              | Some img \<Rightarrow>
                  if length chunk \<noteq> 512 then Return img
                  else if nb - 1 = -1 then Exit_failure img
                  else write_loop ft (drop 512 d) (if ft = NAND then off + 16 else off) (nb - 1) img))"
  by pat_completeness auto
termination by (relation "measure (\<lambda>(ft, d, off, nb, img). length d)") auto

declare write_loop.simps [simp del]

definition partition_write ::
  "flash \<Rightarrow> image_part list \<Rightarrow> string \<Rightarrow> string \<Rightarrow> u8 list \<times> files \<Rightarrow> (u8 list \<times> files) outcome" where
  "partition_write ft parts part_name filename st =
     (case st of (img, fs) \<Rightarrow>
      (case find_part parts part_name of
         None \<Rightarrow> Return (img, fs)
       | Some p \<Rightarrow>
           let off = real_off ft p in
           if poff p < 0 \<or> ft = NAND \<and> plen p < 0 then Fault
           else
           (case (if ft = NAND then store_bytes img off (replicate (nat (plen p)) 0xff) else Some img) of
              None \<Rightarrow> Fault
            | Some img \<Rightarrow>
                (case fs filename of
                   None \<Rightarrow> Exit_failure (img, fs)
                 | Some d \<Rightarrow>
                     (case write_loop ft d off (num_blocks p) img of
                        Fault \<Rightarrow> Fault
                      | Exit_failure img \<Rightarrow> Exit_failure (img, fs)
                      | Return img \<Rightarrow> Return (img, fs))))))"

section \<open>Options\<close>

fun atoi_digits :: "int \<Rightarrow> string \<Rightarrow> int" where
  "atoi_digits n [] = n"
| "atoi_digits n (c # cs) =
     (if of_char c \<in> {48..57 :: int} then atoi_digits (10 * n + (of_char c - 48)) cs else n)"

fun atoi :: "string \<Rightarrow> int" where
  "atoi [] = 0"
| "atoi (c # cs) =
     (if of_char c \<in> {9..13 :: int} \<or> c = CHR '' '' then atoi cs
      else if c = CHR ''-'' then - atoi_digits 0 cs
      else if c = CHR ''+'' then atoi_digits 0 cs
      else atoi_digits 0 (c # cs))"

text \<open>\<open>atoi\<close> of an argument that does not fit an \<^verbatim>\<open>int\<close> is undefined in C; the option handler gives \<open>Fault\<close>.\<close>

definition size_suffix :: "string \<Rightarrow> u64" where
  "size_suffix s =
     (if s = [] then 1
      else if last s = CHR ''K'' \<or> last s = CHR ''k'' then 1024
      else if last s = CHR ''M'' \<or> last s = CHR ''m'' then 1024 * 1024
      else if last s = CHR ''G'' \<or> last s = CHR ''g'' then 1024 * 1024 * 1024
      else 1)"

datatype action_kind = Write | Read

record action =
  act_kind :: action_kind
  act_part :: string
  act_file :: string

record opts =
  img_size :: u64
  img_name :: "string option"
  act_tab :: "action list"
  part_tab :: "image_part list"
  flash_type :: flash

definition opts_init :: opts where
  "opts_init = \<lparr>img_size = 0, img_name = None, act_tab = [], part_tab = [], flash_type = NOR\<rparr>"

definition partition_file :: "(string \<times> int \<times> int) list option \<Rightarrow> opts \<Rightarrow> opts outcome" where
  "partition_file rows o1 =
     (case rows of
        None \<Rightarrow> Exit_failure o1
      | Some rs \<Rightarrow>
          if length rs > 32 \<or> (\<exists>r \<in> set rs. length (fst r) \<ge> 64) then Fault
          else Return (o1\<lparr>part_tab :=
            map (\<lambda>(name, len, off). \<lparr>pname = name, poff = off, plen = len\<rparr>) rs\<rparr>))"

definition parse_opt ::
  "(string \<Rightarrow> (string \<times> int \<times> int) list option) \<Rightarrow> char \<Rightarrow> string \<Rightarrow> opts \<Rightarrow> opts outcome" where
  "parse_opt scan opt arg o1 =
     (if opt = CHR ''s'' then
        (let n = atoi arg in
         if n < - (2 ^ 31) \<or> 2 ^ 31 \<le> n then Fault
         else
           let sz = of_int n * size_suffix arg; o2 = o1\<lparr>img_size := sz\<rparr>
           in if flash_type o2 = NAND \<and> sz mod (512 + 16) \<noteq> 0 then Exit_failure o2 else Return o2)
      else if opt = CHR ''f'' then Return (o1\<lparr>img_name := Some arg\<rparr>)
      else if opt = CHR ''w'' \<or> opt = CHR ''r'' then
        (if CHR '','' \<notin> set arg \<or> length (act_tab o1) \<ge> 32 then Fault
         else Return (o1\<lparr>act_tab := act_tab o1 @
           [\<lparr>act_kind = (if opt = CHR ''w'' then Write else Read),
             act_part = takeWhile (\<lambda>c. c \<noteq> CHR '','') arg,
             act_file = tl (dropWhile (\<lambda>c. c \<noteq> CHR '','') arg)\<rparr>]\<rparr>))
      else if opt = CHR ''p'' then partition_file (scan arg) o1
      else if opt = CHR ''t'' then
        Return (if arg = ''nand'' then o1\<lparr>flash_type := NAND\<rparr>
                else if arg = ''nor'' then o1\<lparr>flash_type := NOR\<rparr> else o1)
      else Exit_failure o1)"

fun parse_opts ::
  "(string \<Rightarrow> (string \<times> int \<times> int) list option) \<Rightarrow> (char \<times> string) list \<Rightarrow> opts \<Rightarrow> opts outcome" where
  "parse_opts scan [] o1 = Return o1"
| "parse_opts scan ((c, a) # as) o1 = out_bind (parse_opt scan c a o1) (parse_opts scan as)"

section \<open>Main\<close>

fun run_actions ::
  "opts \<Rightarrow> (string \<Rightarrow> bool) \<Rightarrow> action list \<Rightarrow> u8 list \<times> files \<Rightarrow> (u8 list \<times> files) outcome" where
  "run_actions o1 wr [] st = Return st"
| "run_actions o1 wr (a # as) st =
     out_bind
       (if act_kind a = Write
        then partition_write (flash_type o1) (part_tab o1) (act_part a) (act_file a) st
        else partition_read (flash_type o1) (part_tab o1) wr (act_part a) (act_file a) st)
       (run_actions o1 wr as)"

text \<open>
  \<^verbatim>\<open>main\<close> after the options: the image file is created when missing and read, truncated, the actions are run
  on the copy in memory, and the copy is written back.  The result is the exit status with the files.
\<close>

definition flashimg_main ::
  "(string \<Rightarrow> (string \<times> int \<times> int) list option) \<Rightarrow> (string \<Rightarrow> bool) \<Rightarrow> (char \<times> string) list \<Rightarrow> files \<Rightarrow> files outcome" where
  "flashimg_main scan wr args fs =
     (case parse_opts scan args opts_init of
        Fault \<Rightarrow> Fault
      | Exit_failure _ \<Rightarrow> Exit_failure fs
      | Return o1 \<Rightarrow>
        (case img_name o1 of
           None \<Rightarrow> Exit_failure fs
         | Some filename \<Rightarrow>
           let old = (case fs filename of None \<Rightarrow> [] | Some d \<Rightarrow> d);
               fs = fs(filename \<mapsto> old);
               size = (if img_size o1 = 0 then length old else unat (img_size o1))
           in if size = 0 then Exit_failure fs
              else
                let img = take size old @ replicate (size - length old) 0xff;
                    fs = fs(filename \<mapsto> [])
                in (case run_actions o1 wr (act_tab o1) (img, fs) of
                      Fault \<Rightarrow> Fault
                    | Exit_failure (img, fs) \<Rightarrow> Exit_failure fs
                    | Return (img, fs) \<Rightarrow> Return (fs(filename \<mapsto> img)))))"

section \<open>What a write leaves in the image\<close>

definition stride :: "flash \<Rightarrow> nat" where
  "stride ft = (if ft = NAND then 528 else 512)"

definition blocks :: "'a list \<Rightarrow> nat" where
  "blocks d = (length d + 511) div 512"

text \<open>Where byte \<open>i\<close> of the data of a partition that starts at \<open>off\<close> is kept.\<close>

definition place :: "flash \<Rightarrow> nat \<Rightarrow> nat \<Rightarrow> nat" where
  "place ft off i = off + stride ft * (i div 512) + i mod 512"

lemma store_bytesD:
  assumes "store_bytes img off bs = Some img'"
  shows "length img' = length img" "off + length bs \<le> length img"
    "k < length bs \<Longrightarrow> img' ! (off + k) = bs ! k" "j < off \<or> off + length bs \<le> j \<Longrightarrow> img' ! j = img ! j"
proof -
  have l: "off + length bs \<le> length img" and e: "img' = take off img @ bs @ drop (off + length bs) img"
    using assms by (auto simp: store_bytes_def split: if_splits)
  show "length img' = length img" "off + length bs \<le> length img" using l by (simp_all add: e)
  show "k < length bs \<Longrightarrow> img' ! (off + k) = bs ! k" using l by (simp add: e nth_append)
  show "j < off \<or> off + length bs \<le> j \<Longrightarrow> img' ! j = img ! j"
  proof -
    assume j: "j < off \<or> off + length bs \<le> j"
    show ?thesis
    proof (cases "j < off")
      case False
      with j obtain k where "j = off + length bs + k" using le_Suc_ex by blast
      then show ?thesis using l by (simp add: e nth_append)
    qed (use l in \<open>simp add: e nth_append\<close>)
  qed
qed

lemma store_bytes_ok: "off + length bs \<le> length img \<Longrightarrow> \<exists>img'. store_bytes img off bs = Some img'"
  by (simp add: store_bytes_def)

lemma length_oob [simp]: "length (oob buf) = 16"
  by (simp add: oob_def Let_def)

lemma length_ENV0 [simp]: "length ENV0 = 4"
  by (simp add: ENV0_def)

text \<open>One turn of the loop.\<close>

definition write_block :: "flash \<Rightarrow> u8 list \<Rightarrow> nat \<Rightarrow> u8 list \<Rightarrow> u8 list option" where
  "write_block ft buf off img =
     (case store_bytes img off buf of None \<Rightarrow> None | Some img \<Rightarrow>
       if ft = NAND
       then (case store_bytes img (off + 512) (oob buf) of
               None \<Rightarrow> None
             | Some img \<Rightarrow> if off + 512 = 512 then store_bytes img (off + 512 + 12) ENV0 else Some img)
       else Some img)"

lemma write_loop_step:
  assumes "d \<noteq> []"
  defines "buf \<equiv> take 512 d @ replicate (512 - length (take 512 d)) 0"
  shows "write_loop ft d off nb img =
     (case write_block ft buf off img of
        None \<Rightarrow> Fault
      | Some img \<Rightarrow> if length d < 512 then Return img else if nb = 0 then Exit_failure img
          else write_loop ft (drop 512 d) (off + stride ft) (nb - 1) img)"
proof -
  have c: "length (take 512 d) \<noteq> 512 \<longleftrightarrow> length d < 512" by auto
  have n: "nb - 1 = -1 \<longleftrightarrow> nb = 0" by auto
  have e: "write_loop ft d off nb img =
     (case store_bytes img off buf of
        None \<Rightarrow> Fault
      | Some img \<Rightarrow>
         (case (if ft = NAND
                then (case store_bytes img (off + 512) (oob buf) of
                        None \<Rightarrow> None
                      | Some img \<Rightarrow> if off + 512 = 512 then store_bytes img (off + 512 + 12) ENV0 else Some img)
                else Some img) of
            None \<Rightarrow> Fault
          | Some img \<Rightarrow>
              if length d < 512 then Return img
              else if nb = 0 then Exit_failure img
              else write_loop ft (drop 512 d) (if ft = NAND then off + 512 + 16 else off + 512) (nb - 1) img))"
    unfolding buf_def by (subst write_loop.simps) (simp only: Let_def assms(1) if_False c n)
  have s: "off + 512 + 16 = off + 528" by simp
  show ?thesis
    unfolding e write_block_def stride_def
    by (cases "store_bytes img off buf"; cases "ft = NAND") (simp_all add: s split: option.split)
qed

lemma write_block_ok:
  assumes "length buf = 512" "off + stride ft \<le> length img"
  shows "\<exists>img'. write_block ft buf off img = Some img' \<and> length img' = length img \<and>
    (\<forall>k < 512. img' ! (off + k) = buf ! k) \<and> (\<forall>j. j < off \<or> off + stride ft \<le> j \<longrightarrow> img' ! j = img ! j)"
proof -
  obtain i1 where 1: "store_bytes img off buf = Some i1"
    using store_bytes_ok [of off buf img] assms by (auto simp: stride_def split: if_splits)
  note d1 = store_bytesD [OF 1]
  show ?thesis
  proof (cases "ft = NAND")
    case False
    then show ?thesis using 1 d1 assms by (auto simp: write_block_def stride_def)
  next
    case True
    then obtain i2 where 2: "store_bytes i1 (off + 512) (oob buf) = Some i2"
      using store_bytes_ok [of "off + 512" "oob buf" i1] assms d1 by (auto simp: stride_def)
    note d2 = store_bytesD [OF 2]
    obtain i3 where 3: "store_bytes i2 (off + 512 + 12) ENV0 = Some i3"
      using store_bytes_ok [of "off + 512 + 12" ENV0 i2] assms d1 d2 True by (auto simp: stride_def)
    note d3 = store_bytesD [OF 3]
    show ?thesis
    proof (cases "off + 512 = 512")
      case at: True
      then have "write_block ft buf off img = Some i3" using True 1 2 3 by (simp add: write_block_def)
      moreover have "\<forall>k < 512. i3 ! (off + k) = buf ! k" using d1 d2 d3 assms(1) by simp
      ultimately show ?thesis using d1 d2 d3 assms(1) True by (simp add: stride_def)
    next
      case False
      then have "write_block ft buf off img = Some i2" using True 1 2 by (simp add: write_block_def)
      moreover have "\<forall>k < 512. i2 ! (off + k) = buf ! k" using d1 d2 assms(1) by simp
      ultimately show ?thesis using d1 d2 assms(1) True by (simp add: stride_def)
    qed
  qed
qed

definition written :: "flash \<Rightarrow> u8 list \<Rightarrow> nat \<Rightarrow> u8 list \<Rightarrow> u8 list \<Rightarrow> bool" where
  "written ft d off img img' \<longleftrightarrow> length img' = length img \<and> (\<forall>i < length d. img' ! place ft off i = d ! i) \<and>
     (\<forall>j. j < off \<or> off + stride ft * blocks d \<le> j \<longrightarrow> img' ! j = img ! j)"

lemma blocks_step: "d \<noteq> [] \<Longrightarrow> blocks d = Suc (blocks (drop 512 d))"
  by (cases "length d \<le> 512") (auto simp: blocks_def neq_Nil_conv)

lemma place_step: "512 \<le> i \<Longrightarrow> place ft off i = place ft (off + stride ft) (i - 512)"
proof -
  assume "512 \<le> i"
  then obtain k where "i = k + 512" using le_Suc_ex add.commute by metis
  moreover have "(k + 512) div 512 = Suc (k div 512)" by simp
  ultimately show ?thesis by (simp only: place_def) simp
qed

lemma place_low: "i < 512 \<Longrightarrow> place ft off i = off + i"
  by (simp add: place_def)

lemma place_ge: "off \<le> place ft off i"
  by (simp add: place_def)

lemma stride_ge: "512 \<le> stride ft"
  by (simp add: stride_def)

lemma written_step:
  assumes "d \<noteq> []" "length img1 = length img" "\<forall>k < min 512 (length d). img1 ! (off + k) = d ! k"
    and "\<forall>j. j < off \<or> off + stride ft \<le> j \<longrightarrow> img1 ! j = img ! j"
    and "written ft (drop 512 d) (off + stride ft) img1 img'"
  shows "written ft d off img img'"
proof -
  have "img' ! place ft off i = d ! i" if i: "i < length d" for i
  proof (cases "i < 512")
    case True
    then have "img' ! (off + i) = img1 ! (off + i)"
      using assms(5) stride_ge [of ft] by (simp add: written_def)
    then show ?thesis using True i assms(3) by (simp add: place_low)
  next
    case False
    then have "img' ! place ft (off + stride ft) (i - 512) = drop 512 d ! (i - 512)"
      using assms(5) i by (simp add: written_def)
    then show ?thesis using False i by (simp add: place_step)
  qed
  moreover have "img' ! j = img ! j" if "j < off \<or> off + stride ft * blocks d \<le> j" for j
  proof -
    have "j < off \<or> off + stride ft \<le> j" "j < off + stride ft \<or> off + stride ft + stride ft * blocks (drop 512 d) \<le> j"
      using that by (auto simp: blocks_step [OF assms(1)])
    then have "img' ! j = img1 ! j" "img1 ! j = img ! j"
      using assms(4,5) unfolding written_def by blast+
    then show ?thesis by simp
  qed
  ultimately show ?thesis using assms(2,5) by (simp add: written_def)
qed

lemma write_loop_fits:
  assumes "off + stride ft * blocks d \<le> length img" "int (length d) < 512 * (nb + 1)"
  shows "\<exists>img'. write_loop ft d off nb img = Return img' \<and> written ft d off img img'"
  using assms
proof (induction "length d" arbitrary: d off nb img rule: less_induct)
  case less
  show ?case
  proof (cases "d = []")
    case True
    then show ?thesis by (auto simp: write_loop.simps written_def)
  next
    case False
    let ?buf = "take 512 d @ replicate (512 - length (take 512 d)) 0"
    have "off + stride ft \<le> length img" using less.prems(1) blocks_step [OF False] by simp
    then obtain i1 where i1: "write_block ft ?buf off img = Some i1" "length i1 = length img"
      "\<forall>k < 512. i1 ! (off + k) = ?buf ! k" "\<forall>j. j < off \<or> off + stride ft \<le> j \<longrightarrow> i1 ! j = img ! j"
      using write_block_ok [of ?buf off ft img] by auto
    have b: "\<forall>k < min 512 (length d). i1 ! (off + k) = d ! k" using i1(3) by (simp add: nth_append)
    show ?thesis
    proof (cases "length d < 512")
      case short: True
      then have "written ft (drop 512 d) (off + stride ft) i1 i1" by (simp add: written_def)
      from written_step [OF False i1(2) b i1(4) this] show ?thesis
        using False i1(1) short by (simp add: write_loop_step)
    next
      case long: False
      then have "nb \<noteq> 0" using less.prems(2) by auto
      have "off + stride ft + stride ft * blocks (drop 512 d) \<le> length i1"
        using less.prems(1) i1(2) by (simp add: blocks_step [OF False])
      moreover have "int (length (drop 512 d)) < 512 * (nb - 1 + 1)" using less.prems(2) long by (simp add: of_nat_diff)
      ultimately obtain img' where "write_loop ft (drop 512 d) (off + stride ft) (nb - 1) i1 = Return img'"
        "written ft (drop 512 d) (off + stride ft) i1 img'"
        using less.hyps [of "drop 512 d" "off + stride ft" i1 "nb - 1"] False by auto
      with written_step [OF False i1(2) b i1(4)] show ?thesis
        using False i1(1) long \<open>nb \<noteq> 0\<close> by (simp add: write_loop_step)
    qed
  qed
qed

lemma read_blocks_spec:
  assumes "off + stride ft * n \<le> length img"
  shows "\<exists>r. read_blocks ft img off n = Some r \<and> length r = 512 * n \<and> (\<forall>i < 512 * n. r ! i = img ! place ft off i)"
  using assms
proof (induction n arbitrary: off)
  case (Suc n)
  have "off + stride ft + stride ft * n \<le> length img" using Suc.prems by simp
  then obtain r where r: "read_blocks ft img (off + stride ft) n = Some r" "length r = 512 * n"
    "\<forall>i < 512 * n. r ! i = img ! place ft (off + stride ft) i"
    using Suc.IH by blast
  have l: "off + 512 \<le> length img" using Suc.prems stride_ge [of ft] by simp
  let ?r = "take 512 (drop off img) @ r"
  have "read_blocks ft img off (Suc n) = Some ?r"
    using r(1) l by (auto simp: load_bytes_def stride_def add.commute [of off] add.assoc split: if_splits)
  moreover have "length ?r = 512 * Suc n" using l r(2) by simp
  moreover have "?r ! i = img ! place ft off i" if "i < 512 * Suc n" for i
    using that l r(3) by (cases "i < 512") (auto simp: nth_append place_low place_step)
  ultimately show ?case by blast
qed simp


section \<open>Writing and reading a partition\<close>

lemma erase_ok:
  assumes "off + n \<le> length img"
  shows "\<exists>img'. store_bytes img off (replicate n x) = Some img' \<and> length img' = length img \<and>
    (\<forall>j. j < off \<or> off + n \<le> j \<longrightarrow> img' ! j = img ! j)"
  using store_bytes_ok [of off "replicate n x" img] store_bytesD [of img off "replicate n x"] assms by auto

lemma num_blocks_covers: "0 \<le> plen p \<Longrightarrow> plen p \<le> 512 * num_blocks p \<and> 0 \<le> num_blocks p"
proof -
  assume "0 \<le> plen p"
  moreover have "512 * ((plen p + 511) div 512) + (plen p + 511) mod 512 = plen p + 511" by (rule mult_div_mod_eq)
  moreover have "(plen p + 511) mod 512 < 512" by simp
  ultimately show ?thesis by (simp add: num_blocks_def pos_imp_zdiv_nonneg_iff)
qed

text \<open>A write whose data needs at most \<open>k\<close> blocks, where the image holds \<open>k\<close> blocks and the whole partition.\<close>

lemma partition_write_ok:
  assumes p: "find_part parts name = Some p" "0 \<le> poff p" "0 \<le> plen p"
    and d: "fs inp = Some d" "int (length d) < 512 * (num_blocks p + 1)"
    and m: "real_off ft p + stride ft * blocks d \<le> length img"
      "real_off ft p + nat (plen p) \<le> length img"
  shows "\<exists>img'. partition_write ft parts name inp (img, fs) = Return (img', fs) \<and> length img' = length img \<and>
    (\<forall>i < length d. img' ! place ft (real_off ft p) i = d ! i) \<and>
    (\<forall>j. (j < real_off ft p \<or> real_off ft p + stride ft * blocks d \<le> j) \<and>
         (j < real_off ft p \<or> real_off ft p + nat (plen p) \<le> j) \<longrightarrow> img' ! j = img ! j)"
proof -
  let ?off = "real_off ft p"
  obtain i0 where i0: "(if ft = NAND then store_bytes img ?off (replicate (nat (plen p)) 0xff) else Some img) = Some i0"
    "length i0 = length img" "\<forall>j. j < ?off \<or> ?off + nat (plen p) \<le> j \<longrightarrow> i0 ! j = img ! j"
    using erase_ok [OF m(2), of "0xff"] by (cases "ft = NAND") auto
  have "?off + stride ft * blocks d \<le> length i0" using m i0 by simp
  then obtain img' where w: "write_loop ft d ?off (num_blocks p) i0 = Return img'" "written ft d ?off i0 img'"
    using write_loop_fits d(2) by blast
  have "partition_write ft parts name inp (img, fs) = Return (img', fs)"
    using p d i0 w by (simp add: partition_write_def Let_def)
  then show ?thesis using w(2) i0 unfolding written_def by auto
qed

text \<open>
  C29: What \<^verbatim>\<open>partition_write\<close> puts into a partition, \<^verbatim>\<open>partition_read\<close> gets back: when the file fits into the
  blocks of the partition and the partition into the image, the write succeeds, and reading the partition from the
  resulting image produces a file of whole blocks that starts with the contents of the written one.  Both flash types.
\<close>

theorem write_read_roundtrip:
  assumes "find_part parts name = Some p" "0 \<le> poff p" "0 \<le> plen p"
    and "fs inp = Some d" "int (length d) \<le> 512 * num_blocks p"
    and "real_off ft p + stride ft * nat (num_blocks p) \<le> length img" "wr out"
  shows "\<exists>img' r. partition_write ft parts name inp (img, fs) = Return (img', fs) \<and>
    partition_read ft parts wr name out (img', fs) = Return (img', fs(out \<mapsto> r)) \<and>
    int (length r) = 512 * num_blocks p \<and> take (length d) r = d"
proof -
  note n = num_blocks_covers [OF assms(3)]
  have b: "blocks d \<le> nat (num_blocks p)" using assms(5) n by (simp add: blocks_def)
  have m1: "real_off ft p + stride ft * blocks d \<le> length img"
    using assms(6) mult_le_mono2 [OF b, of "stride ft"] by linarith
  have "nat (plen p) \<le> 512 * nat (num_blocks p)" using n by (simp add: nat_le_iff)
  also have "\<dots> \<le> stride ft * nat (num_blocks p)" using stride_ge by (rule mult_le_mono1)
  finally have m2: "real_off ft p + nat (plen p) \<le> length img" using assms(6) by linarith
  have d: "int (length d) < 512 * (num_blocks p + 1)" using assms(5) by simp
  obtain img' where w: "partition_write ft parts name inp (img, fs) = Return (img', fs)" "length img' = length img"
    "\<forall>i < length d. img' ! place ft (real_off ft p) i = d ! i"
    using partition_write_ok [where fs = fs and inp = inp, OF assms(1-4) d m1 m2] by blast
  obtain r where r: "read_blocks ft img' (real_off ft p) (nat (num_blocks p)) = Some r"
    "length r = 512 * nat (num_blocks p)" "\<forall>i < 512 * nat (num_blocks p). r ! i = img' ! place ft (real_off ft p) i"
    using read_blocks_spec [of "real_off ft p" ft "nat (num_blocks p)" img'] assms(6) w(2) by auto
  have "partition_read ft parts wr name out (img', fs) = Return (img', fs(out \<mapsto> r))"
    using assms(1,2,7) n r(1) by (simp add: partition_read_def)
  moreover have "take (length d) r = d"
    by (rule nth_equalityI) (use assms(5) n r w(3) in auto)
  ultimately show ?thesis using w(1) r(2) n by (intro exI [of _ img'] exI [of _ r]) simp
qed

abbreviation demo_part :: image_part where
  "demo_part \<equiv> \<lparr>pname = ''u'', poff = 512, plen = 1000\<rparr>"

theorem write_read_roundtrip_witness:
  "\<exists>img' r. partition_write NAND [demo_part] ''u'' ''f'' (replicate 2000 0, [''f'' \<mapsto> [1, 2, 3]]) =
      Return (img', [''f'' \<mapsto> [1, 2, 3]]) \<and>
    partition_read NAND [demo_part] (\<lambda>_. True) ''u'' ''g'' (img', [''f'' \<mapsto> [1, 2, 3]]) =
      Return (img', [''f'' \<mapsto> [1, 2, 3], ''g'' \<mapsto> r]) \<and>
    int (length r) = 512 * num_blocks demo_part \<and> take (length [1, 2, 3 :: u8]) r = [1, 2, 3]"
proof (rule write_read_roundtrip)
  show "find_part [demo_part] ''u'' = Some demo_part" by simp
qed (simp_all add: num_blocks_def real_off_def stride_def)

text \<open>
  C32: The check that a file is too big for its partition comes a block late: a file that is longer than the
  partition by less than a block is accepted, and its last, incomplete block is written behind the partition's
  blocks, where the next partition lies.
\<close>

theorem oversize_write_overruns:
  assumes "find_part parts name = Some p" "0 \<le> poff p" "0 \<le> plen p"
    and "fs inp = Some d" "512 * num_blocks p < int (length d)" "int (length d) < 512 * (num_blocks p + 1)"
    and "real_off ft p + stride ft * (nat (num_blocks p) + 1) \<le> length img"
  shows "\<exists>img'. partition_write ft parts name inp (img, fs) = Return (img', fs) \<and>
    img' ! (real_off ft p + stride ft * nat (num_blocks p)) = d ! (512 * nat (num_blocks p))"
proof -
  note n = num_blocks_covers [OF assms(3)]
  have b: "blocks d \<le> nat (num_blocks p) + 1" using assms(6) n by (simp add: blocks_def)
  have m1: "real_off ft p + stride ft * blocks d \<le> length img"
    using assms(7) mult_le_mono2 [OF b, of "stride ft"] by linarith
  have "nat (plen p) \<le> 512 * (nat (num_blocks p) + 1)" using n by (simp add: nat_le_iff)
  also have "\<dots> \<le> stride ft * (nat (num_blocks p) + 1)" using stride_ge by (rule mult_le_mono1)
  finally have m2: "real_off ft p + nat (plen p) \<le> length img" using assms(7) by linarith
  obtain img' where w: "partition_write ft parts name inp (img, fs) = Return (img', fs)"
    "\<forall>i < length d. img' ! place ft (real_off ft p) i = d ! i"
    using partition_write_ok [where fs = fs and inp = inp, OF assms(1-4,6) m1 m2] by blast
  have "512 * nat (num_blocks p) < length d" using assms(5) n by linarith
  then have "img' ! place ft (real_off ft p) (512 * nat (num_blocks p)) = d ! (512 * nat (num_blocks p))"
    using w(2) by blast
  then show ?thesis using w(1) by (auto simp: place_def)
qed

theorem oversize_write_overruns_witness:
  "\<exists>img'. partition_write NOR [\<lparr>pname = ''u'', poff = 0, plen = 512\<rparr>] ''u'' ''f''
      (replicate 1024 0, [''f'' \<mapsto> replicate 512 1 @ [7]]) = Return (img', [''f'' \<mapsto> replicate 512 1 @ [7]]) \<and>
    img' ! (real_off NOR \<lparr>pname = ''u'', poff = 0, plen = 512\<rparr> +
      stride NOR * nat (num_blocks \<lparr>pname = ''u'', poff = 0, plen = 512\<rparr>)) =
    (replicate 512 1 @ [7]) ! (512 * nat (num_blocks \<lparr>pname = ''u'', poff = 0, plen = 512\<rparr>))"
proof (rule oversize_write_overruns)
  show "find_part [\<lparr>pname = ''u'', poff = 0, plen = 512\<rparr>] ''u'' = Some \<lparr>pname = ''u'', poff = 0, plen = 512\<rparr>" by simp
qed (simp_all add: num_blocks_def real_off_def stride_def)

text \<open>
  An action that exits (a missing input file, a file that is too big, an output file that cannot be opened)
  leaves an empty image file behind: \<^verbatim>\<open>main\<close> truncates the image file before it runs the actions and writes it only
  after the last one.
\<close>

theorem exit_loses_image:
  assumes "parse_opts scan args opts_init = Return o1" "img_name o1 = Some filename"
    and "img_size o1 \<noteq> 0" "act_tab o1 = [\<lparr>act_kind = Write, act_part = pn, act_file = fn\<rparr>]"
    and "find_part (part_tab o1) pn = Some p" "0 \<le> poff p" "flash_type o1 = NOR" "fs fn = None" "fn \<noteq> filename"
  shows "\<exists>fs'. flashimg_main scan wr args fs = Exit_failure fs' \<and> fs' filename = Some []"
proof -
  have "unat (img_size o1) \<noteq> 0" using assms(3) by (simp add: unat_eq_zero)
  then show ?thesis
    using assms by (simp add: flashimg_main_def Let_def partition_write_def)
qed

abbreviation demo_scan :: "string \<Rightarrow> (string \<times> int \<times> int) list option" where
  "demo_scan \<equiv> \<lambda>f. if f = ''p'' then Some [(''u'', 512, 0)] else None"

theorem exit_loses_image_witness:
  "\<exists>fs'. flashimg_main demo_scan (\<lambda>_. True) [(CHR ''s'', ''1k''), (CHR ''f'', ''i''), (CHR ''p'', ''p''), (CHR ''w'', ''u,x'')]
    [''i'' \<mapsto> replicate 1024 5] = Exit_failure fs' \<and> fs' ''i'' = Some []"
  by (rule exit_loses_image [where ?o1.0 = "\<lparr>img_size = 1024, img_name = Some ''i'',
      act_tab = [\<lparr>act_kind = Write, act_part = ''u'', act_file = ''x''\<rparr>],
      part_tab = [\<lparr>pname = ''u'', poff = 0, plen = 512\<rparr>], flash_type = NOR\<rparr>" and pn = "''u''" and fn = "''x''" and p = "\<lparr>pname = ''u'', poff = 0, plen = 512\<rparr>"])
     (simp_all add: parse_opt_def partition_file_def opts_init_def size_suffix_def)

end
