(* ===== verification/Vercmp.thy ===== *)
theory Vercmp
  imports Main "HOL-Library.Char_ord"
begin

text \<open>
  The package-version comparison of \<^verbatim>\<open>opkg-utils/opkg-compare-versions.c\<close>.  A C string is a \<open>string\<close> without its
  terminating zero; the character under a pointer that stands on the terminator is \<open>0\<close>.  The loops of
  \<^verbatim>\<open>verrevcmp\<close> are recursive functions; the theorems relate it to a key, the sequence of non-digit orders and
  numbers of a version, compared lexicographically and padded with zeros.
\<close>

section \<open>Characters\<close>

definition code :: "char \<Rightarrow> int" where
  "code c = of_char c"

definition isdigit :: "char \<Rightarrow> bool" where
  "isdigit c \<longleftrightarrow> 48 \<le> code c \<and> code c \<le> 57"

definition isalpha :: "char \<Rightarrow> bool" where
  "isalpha c \<longleftrightarrow> 65 \<le> code c \<and> code c \<le> 90 \<or> 97 \<le> code c \<and> code c \<le> 122"

text \<open>
  The macro \<^verbatim>\<open>order\<close> on the character at the start of a string.  \<^verbatim>\<open>char\<close> is signed: a code from 128 on is
  \<^verbatim>\<open>code - 256\<close>, and adding 256 gives the code back.
\<close>

fun order :: "string \<Rightarrow> int" where
  "order [] = 0"
| "order (c # s) =
     (if c = CHR ''~'' then -1
      else if isdigit c then 0
      else if isalpha c then code c
      else if code c < 128 then code c + 256 else code c)"

text \<open>The string starts with a character that is no digit; the string starts with a digit.\<close>

fun at_nondigit :: "string \<Rightarrow> bool" where
  "at_nondigit [] = False"
| "at_nondigit (c # s) = (\<not> isdigit c)"

fun at_digit :: "string \<Rightarrow> bool" where
  "at_digit [] = False"
| "at_digit (c # s) = isdigit c"

section \<open>The loops\<close>

text \<open>The loop over the non-digits: either it returns a difference, or it leaves both pointers behind them.\<close>

function cmp_nondigits :: "string \<Rightarrow> string \<Rightarrow> int + string \<times> string" where
  "cmp_nondigits val ref =
     (if at_nondigit val \<or> at_nondigit ref then
        if order val \<noteq> order ref then Inl (order val - order ref)
        else cmp_nondigits (tl val) (tl ref)
      else Inr (val, ref))"
  by pat_completeness auto
termination
  by (relation "measure (\<lambda>(val, ref). length val + length ref)") (auto elim!: at_nondigit.elims)

declare cmp_nondigits.simps [simp del]

text \<open>The loop over the digits, with the flag \<^verbatim>\<open>first_diff\<close>.\<close>

fun cmp_digits :: "int \<Rightarrow> string \<Rightarrow> string \<Rightarrow> int \<times> string \<times> string" where
  "cmp_digits first_diff (a # val) (b # ref) =
     (if isdigit a \<and> isdigit b
      then cmp_digits (if first_diff = 0 then code a - code b else first_diff) val ref
      else (first_diff, a # val, b # ref))"
| "cmp_digits first_diff val ref = (first_diff, val, ref)"

definition skip_zeros :: "string \<Rightarrow> string" where
  "skip_zeros s = dropWhile (\<lambda>c. c = CHR ''0'') s"

lemma cmp_nondigits_shorter:
  "cmp_nondigits val ref = Inr (v, r) \<Longrightarrow> length v \<le> length val \<and> length r \<le> length ref \<and>
     \<not> at_nondigit v \<and> \<not> at_nondigit r \<and>
     (at_nondigit val \<or> at_nondigit ref \<longrightarrow> length v + length r < length val + length ref)"
proof (induction val ref rule: cmp_nondigits.induct)
  case (1 val ref)
  show ?case
  proof (cases "(at_nondigit val \<or> at_nondigit ref) \<and> order val = order ref")
    case True
    then have "cmp_nondigits (tl val) (tl ref) = Inr (v, r)"
      using "1.prems" by (simp add: cmp_nondigits.simps [of val ref])
    note ih = "1.IH" [OF conjunct1 [OF True] _ this]
    have "length (tl val) + length (tl ref) < length val + length ref"
      using True by (cases val; cases ref) auto
    then show ?thesis using ih True by (cases val; cases ref) auto
  next
    case False
    then show ?thesis using "1.prems" by (auto simp: cmp_nondigits.simps [of val ref] split: if_splits)
  qed
qed

lemma cmp_digits_shorter:
  "cmp_digits d val ref = (e, v, r) \<Longrightarrow> length v \<le> length val \<and> length r \<le> length ref \<and>
     (at_digit val \<and> \<not> at_digit v \<longrightarrow> length v < length val) \<and>
     (at_digit ref \<and> \<not> at_digit r \<longrightarrow> length r < length ref)"
proof (induction d val ref arbitrary: e v r rule: cmp_digits.induct)
  case (1 d a val b ref)
  then show ?case by (fastforce split: if_splits)
qed auto

lemma skip_zeros_length: "length (skip_zeros s) \<le> length s"
  unfolding skip_zeros_def by (rule length_dropWhile_le)

lemma skip_zeros_shorter: "skip_zeros s = s \<or> length (skip_zeros s) < length s"
  by (cases s) (auto simp: skip_zeros_def less_Suc_eq_le length_dropWhile_le)

lemma digits_round:
  assumes "\<not> at_nondigit v" "cmp_digits 0 (skip_zeros v) (skip_zeros r) = (e, v', r')" "\<not> at_digit v'" "\<not> at_digit r'"
    "\<not> at_nondigit r"
  shows "length v' \<le> length v" "length r' \<le> length r" "v \<noteq> [] \<Longrightarrow> length v' < length v"
    "r \<noteq> [] \<Longrightarrow> length r' < length r"
proof -
  note s = cmp_digits_shorter [OF assms(2)] skip_zeros_length [of v] skip_zeros_length [of r]
  show "length v' \<le> length v" "length r' \<le> length r" using s by auto
  show "length v' < length v" if "v \<noteq> []"
    using that assms(1,3) s skip_zeros_shorter [of v] by (cases v) auto
  show "length r' < length r" if "r \<noteq> []"
    using that assms(4,5) s skip_zeros_shorter [of r] by (cases r) auto
qed

function verrevcmp :: "string \<Rightarrow> string \<Rightarrow> int" where
  "verrevcmp val ref =
     (if val = [] \<and> ref = [] then 0
      else case cmp_nondigits val ref of
          Inl d \<Rightarrow> d
        | Inr (val, ref) \<Rightarrow>
            (case cmp_digits 0 (skip_zeros val) (skip_zeros ref) of (first_diff, val, ref) \<Rightarrow>
               if at_digit val then 1
               else if at_digit ref then -1
               else if first_diff \<noteq> 0 then first_diff
               else verrevcmp val ref))"
  by pat_completeness auto
termination
proof (relation "measure (\<lambda>(val, ref). length val + length ref)")
  fix val ref d v r e vr' v' r'
  assume a: "\<not> (val = [] \<and> ref = [])" "cmp_nondigits val ref = Inr d" "(v, r) = d"
    "(e, vr') = cmp_digits 0 (skip_zeros v) (skip_zeros r)" "(v', r') = vr'"
    "\<not> at_digit v'" "\<not> at_digit r'" "\<not> e \<noteq> 0"
  show "((v', r'), (val, ref)) \<in> measure (\<lambda>(val, ref). length val + length ref)"
  proof -
    have n: "length v \<le> length val" "length r \<le> length ref" "\<not> at_nondigit v" "\<not> at_nondigit r"
      "v = [] \<and> r = [] \<longrightarrow> length v + length r < length val + length ref"
      using cmp_nondigits_shorter [of val ref v r] a(1-3) by auto
    have "cmp_digits 0 (skip_zeros v) (skip_zeros r) = (e, v', r')" using a by simp
    note r = digits_round [OF n(3) this a(6,7) n(4)]
    show ?thesis
    proof (cases "v = [] \<and> r = []")
      case True
      then show ?thesis using n(5) r by auto
    next
      case False
      then show ?thesis using n(1,2) r by auto
    qed
  qed
qed simp

declare verrevcmp.simps [simp del]

section \<open>Comparing and testing versions\<close>

record versionrevision =
  epoch :: nat
  version :: string
  revision :: string

definition versioncompare :: "versionrevision \<Rightarrow> versionrevision \<Rightarrow> int" where
  "versioncompare v r =
     (if epoch v > epoch r then 1
      else if epoch v < epoch r then -1
      else
        let d = verrevcmp (version v) (version r) in
        if d \<noteq> 0 then d else verrevcmp (revision v) (revision r))"

text \<open>\<open>None\<close>: the operator is unknown and the program exits with status 1.\<close>

definition versionsatisfied3 :: "versionrevision \<Rightarrow> versionrevision \<Rightarrow> string \<Rightarrow> bool option" where
  "versionsatisfied3 it ref op =
     (let r = versioncompare it ref in
      if op = ''<='' \<or> op = ''<'' then Some (r \<le> 0)
      else if op = ''>='' \<or> op = ''>'' then Some (r \<ge> 0)
      else if op = ''<<'' then Some (r < 0)
      else if op = ''>>'' then Some (r > 0)
      else if op = ''='' then Some (r = 0)
      else None)"

text \<open>\<^verbatim>\<open>strtoul\<close> in base 10: optional blanks and sign, digits; the value is that of an \<^verbatim>\<open>unsigned long\<close> of 64 bits.\<close>

fun digits_val :: "nat \<Rightarrow> string \<Rightarrow> nat \<times> string" where
  "digits_val n [] = (n, [])"
| "digits_val n (c # s) = (if isdigit c then digits_val (10 * n + nat (code c - 48)) s else (n, c # s))"

definition strtoul :: "string \<Rightarrow> nat \<times> string" where
  "strtoul s =
     (let t = dropWhile (\<lambda>c. code c \<in> {9..13} \<or> c = CHR '' '') s;
          neg = (t \<noteq> [] \<and> hd t = CHR ''-'');
          u = (if t \<noteq> [] \<and> (hd t = CHR ''-'' \<or> hd t = CHR ''+'') then tl t else t)
      in if \<not> at_digit u then (0, s)
         else case digits_val 0 u of (n, rest) \<Rightarrow>
           (if n \<ge> 2 ^ 64 then 2 ^ 64 - 1 else if neg then (2 ^ 64 - n) mod 2 ^ 64 else n, rest))"

datatype parse_error = Empty_version | Epoch_not_number | Nothing_after_colon

definition parseversion :: "string \<Rightarrow> parse_error + versionrevision" where
  "parseversion s =
     (if s = [] then Inl Empty_version
      else if CHR '':'' \<in> set s then
        (let colon = dropWhile (\<lambda>c. c \<noteq> CHR '':'') s in
         case strtoul s of (e, endp) \<Rightarrow>
           if endp \<noteq> colon then Inl Epoch_not_number
           else if tl colon = [] then Inl Nothing_after_colon
           else Inr \<lparr>epoch = e, version = tl colon, revision = []\<rparr>)
      else Inr \<lparr>epoch = 0, version = s, revision = []\<rparr>)"

text \<open>The exit status of the program, for its arguments without the program name.\<close>

definition vercmp_main :: "string list \<Rightarrow> nat" where
  "vercmp_main args =
     (if length args < 3 then 2
      else case parseversion (args ! 0) of
          Inl _ \<Rightarrow> 2
        | Inr ver \<Rightarrow>
            (case parseversion (args ! 2) of
               Inl _ \<Rightarrow> 2
             | Inr ref \<Rightarrow>
                 (case versionsatisfied3 ver ref (args ! 1) of
                    None \<Rightarrow> 1
                  | Some b \<Rightarrow> if b then 0 else 1)))"

section \<open>The key of a version\<close>

text \<open>The value of a run of digits, read from the left.\<close>

definition num :: "string \<Rightarrow> nat" where
  "num s = fst (digits_val 0 s)"

function vkey :: "string \<Rightarrow> int list" where
  "vkey s =
     (if s = [] then []
      else let nd = takeWhile (\<lambda>c. \<not> isdigit c) s; t = drop (length nd) s; dg = takeWhile isdigit t
           in map (\<lambda>c. order [c]) nd @ [0, int (num dg)] @ vkey (drop (length dg) t))"
  by pat_completeness auto
termination
proof (relation "measure length")
  fix s nd t dg :: string
  assume "s \<noteq> []" "nd = takeWhile (\<lambda>c. \<not> isdigit c) s" "t = drop (length nd) s" "dg = takeWhile isdigit t"
  then show "(drop (length dg) t, s) \<in> measure length" by (cases s) auto
qed simp

declare vkey.simps [simp del]

text \<open>Lexicographic comparison, the shorter list padded with zeros.\<close>

fun lex0 :: "int list \<Rightarrow> int list \<Rightarrow> int" where
  "lex0 [] [] = 0"
| "lex0 (x # xs) [] = (if x \<noteq> 0 then sgn x else lex0 xs [])"
| "lex0 [] (y # ys) = (if y \<noteq> 0 then - sgn y else lex0 [] ys)"
| "lex0 (x # xs) (y # ys) = (if x \<noteq> y then sgn (x - y) else lex0 xs ys)"


section \<open>The comparison implements the key order\<close>

lemma lex0_pad: "lex0 [0, 0] ys = lex0 [] ys" "lex0 xs [0, 0] = lex0 xs []"
proof -
  show "lex0 [0, 0] ys = lex0 [] ys"
  proof (cases ys)
    case (Cons y ys')
    then show ?thesis by (cases ys') (auto simp: sgn_if)
  qed simp
  show "lex0 xs [0, 0] = lex0 xs []"
  proof (cases xs)
    case (Cons x xs')
    then show ?thesis by (cases xs') auto
  qed simp
qed

definition kpad :: "string \<Rightarrow> int list" where
  "kpad s = (if s = [] then [0, 0] else vkey s)"

lemma lex0_kpad: "lex0 (kpad v) (kpad r) = lex0 (vkey v) (vkey r)"
  by (simp add: kpad_def lex0_pad vkey.simps)

lemma kpad_nondigit: "\<not> isdigit c \<Longrightarrow> kpad (c # s) = order (c # s) # kpad s"
proof -
  assume c: "\<not> isdigit c"
  have "vkey (c # s) = order [c] # (let nd = takeWhile (\<lambda>c. \<not> isdigit c) s; t = drop (length nd) s;
      dg = takeWhile isdigit t in map (\<lambda>c. order [c]) nd @ [0, int (num dg)] @ vkey (drop (length dg) t))"
    using c by (subst vkey.simps) (simp add: Let_def)
  also have "\<dots> = order (c # s) # kpad s"
    by (cases "s = []") (simp_all add: kpad_def vkey.simps [of s] Let_def num_def, simp add: vkey.simps)
  finally show ?thesis by (simp add: kpad_def)
qed

definition ndrop :: "string \<Rightarrow> string" where
  "ndrop t = dropWhile isdigit t"

lemma kpad_digits: "\<not> at_nondigit t \<Longrightarrow> kpad t = 0 # int (num (takeWhile isdigit t)) # vkey (ndrop t)"
proof (cases t)
  case Nil
  then show ?thesis by (simp add: kpad_def ndrop_def num_def vkey.simps)
next
  case (Cons c s)
  assume "\<not> at_nondigit t"
  then have "takeWhile (\<lambda>c. \<not> isdigit c) t = []" using Cons by simp
  then show ?thesis using Cons
    by (simp only: kpad_def vkey.simps [of "c # s"] Let_def ndrop_def dropWhile_eq_drop) simp
qed

lemma code_nonneg: "0 \<le> code c"
proof -
  have "code c = int (of_char c)" by (simp only: code_def of_nat_of_char)
  then show ?thesis by simp
qed

lemma isdigit_0: "isdigit (CHR ''0'')"
  by (simp add: isdigit_def code_def)

lemma code_inj: "code c = code d \<longleftrightarrow> c = d"
  unfolding code_def by (rule of_char_eq_iff)

lemma order_nondigit: "at_nondigit s \<Longrightarrow> order s \<noteq> 0"
proof (cases s)
  case (Cons c t)
  assume "at_nondigit s"
  then show ?thesis using Cons code_nonneg [of c] by (simp add: isalpha_def)
qed simp

lemma order_else: "\<not> at_nondigit s \<Longrightarrow> order s = 0"
  by (cases s) (auto simp: isdigit_def code_def)

lemma kpad_head: "\<exists>k. kpad s = order s # k"
proof (cases "at_nondigit s")
  case True
  then show ?thesis by (cases s) (auto simp: kpad_nondigit)
next
  case False
  then show ?thesis by (simp add: kpad_digits order_else)
qed

lemma cmp_nondigits_key:
  "case cmp_nondigits val ref of
     Inl d \<Rightarrow> d \<noteq> 0 \<and> lex0 (kpad val) (kpad ref) = sgn d
   | Inr (v, r) \<Rightarrow> lex0 (kpad val) (kpad ref) = lex0 (kpad v) (kpad r) \<and> \<not> at_nondigit v \<and> \<not> at_nondigit r"
proof (induction val ref rule: cmp_nondigits.induct)
  case (1 val ref)
  show ?case
  proof (cases "at_nondigit val \<or> at_nondigit ref")
    case n: True
    show ?thesis
    proof (cases "order val = order ref")
      case False
      then show ?thesis
        using n kpad_head [of val] kpad_head [of ref] by (auto simp: cmp_nondigits.simps [of val ref])
    next
      case True
      have "at_nondigit val" "at_nondigit ref" using n True order_nondigit order_else by metis+
      then obtain a v b r where e: "val = a # v" "ref = b # r" "\<not> isdigit a" "\<not> isdigit b"
        by (cases val; cases ref) auto
      show ?thesis
      proof -
        have c: "cmp_nondigits val ref = cmp_nondigits v r"
          using n True unfolding e by (subst cmp_nondigits.simps) (simp del: order.simps)
        have l: "lex0 (kpad val) (kpad ref) = lex0 (kpad v) (kpad r)"
          using True unfolding e kpad_nondigit [OF e(3)] kpad_nondigit [OF e(4)] by (simp del: order.simps)
        have "\<not> order val \<noteq> order ref" using True by simp
        from "1.IH" [OF n this] show ?thesis unfolding c l unfolding e list.sel .
      qed
    qed
  next
    case False
    then show ?thesis by (simp add: cmp_nondigits.simps [of val ref])
  qed
qed

subsection \<open>Runs of digits\<close>

definition dval :: "char \<Rightarrow> nat" where
  "dval c = nat (code c - 48)"

lemma digits_val_app: "list_all isdigit a \<Longrightarrow> digits_val n a = (n * 10 ^ length a + num a, [])"
proof (induction a arbitrary: n)
  case Nil
  then show ?case by (simp add: num_def)
next
  case (Cons c a)
  have "num (c # a) = dval c * 10 ^ length a + num a"
    using Cons.prems Cons.IH [of "dval c"] by (simp add: num_def dval_def)
  then show ?case using Cons.prems Cons.IH [of "10 * n + dval c"] by (simp add: dval_def algebra_simps)
qed

lemma num_Cons: "list_all isdigit (c # a) \<Longrightarrow> num (c # a) = dval c * 10 ^ length a + num a"
  using digits_val_app [of a "dval c"] by (simp add: num_def dval_def)

lemma num_bound: "list_all isdigit a \<Longrightarrow> num a < 10 ^ length a"
proof (induction a)
  case Nil
  then show ?case by (simp add: num_def)
next
  case (Cons c a)
  have "dval c \<le> 9" using Cons.prems by (simp add: dval_def isdigit_def nat_le_iff)
  then have "dval c * 10 ^ length a \<le> 9 * 10 ^ length a" by (rule mult_le_mono1)
  moreover have "num a < 10 ^ length a" using Cons by simp
  ultimately have "dval c * 10 ^ length a + num a < 10 * 10 ^ length a" by linarith
  then show ?case by (simp add: num_Cons [OF Cons.prems])
qed

lemma num_lower:
  assumes "list_all isdigit a" "a \<noteq> []" "hd a \<noteq> CHR ''0''"
  shows "10 ^ (length a - 1) \<le> num a"
proof -
  obtain c b where a: "a = c # b" using assms(2) by (cases a) auto
  have "code c \<noteq> 48"
  proof
    assume "code c = 48"
    then have "code c = code (CHR ''0'')" by (simp add: code_def)
    then have "c = CHR ''0''" by (simp only: code_inj)
    then show False using assms(3) a by simp
  qed
  then have "1 \<le> dval c" using assms(1) a by (auto simp: dval_def isdigit_def)
  then have "1 * 10 ^ length b \<le> dval c * 10 ^ length b" by (rule mult_le_mono1)
  moreover have "num a = dval c * 10 ^ length b + num b" using num_Cons [of c b] assms(1) a by simp
  ultimately have "10 ^ length b \<le> num a" by linarith
  then show ?thesis by (simp add: a)
qed

lemma num_skip_zeros: "list_all isdigit a \<Longrightarrow> num (skip_zeros a) = num a"
proof (induction a)
  case (Cons c a)
  show ?case
  proof (cases "c = CHR ''0''")
    case True
    then have "dval c = 0" by (simp add: dval_def code_def)
    then have "num (c # a) = num a" using num_Cons [OF Cons.prems] by simp
    then show ?thesis using Cons True by (simp add: skip_zeros_def)
  next
    case False
    then show ?thesis by (simp add: skip_zeros_def)
  qed
qed (simp add: skip_zeros_def)

lemma skip_zeros_digits: "list_all isdigit a \<Longrightarrow> list_all isdigit (skip_zeros a)"
  unfolding skip_zeros_def list_all_iff by (auto dest: set_dropWhileD)

lemma skip_zeros_hd: "skip_zeros a \<noteq> [] \<Longrightarrow> hd (skip_zeros a) \<noteq> CHR ''0''"
  unfolding skip_zeros_def using hd_dropWhile [of "\<lambda>c. c = CHR ''0''" a] by simp

lemma skip_zeros_app:
  "\<not> at_digit v0 \<Longrightarrow> skip_zeros (a @ v0) = skip_zeros a @ v0"
proof -
  assume "\<not> at_digit v0"
  then have v: "skip_zeros v0 = v0" using isdigit_0 by (cases v0) (auto simp: skip_zeros_def)
  show ?thesis
  proof (induction a)
    case Nil
    then show ?case using v by (simp add: skip_zeros_def)
  next
    case (Cons c a)
    then show ?case by (cases "c = CHR ''0''") (simp_all add: skip_zeros_def)
  qed
qed

fun first_difference :: "string \<Rightarrow> string \<Rightarrow> int" where
  "first_difference (x # xs) (y # ys) = (if code x \<noteq> code y then code x - code y else first_difference xs ys)"
| "first_difference xs ys = 0"

lemma first_difference_num:
  "length a = length b \<Longrightarrow> list_all isdigit a \<Longrightarrow> list_all isdigit b \<Longrightarrow>
   sgn (first_difference a b) = sgn (int (num a) - int (num b))"
proof (induction a b rule: list_induct2)
  case Nil
  then show ?case by simp
next
  case (Cons x xs y ys)
  have d: "int (dval x) = code x - 48" "int (dval y) = code y - 48"
    using Cons.prems by (auto simp: dval_def isdigit_def)
  let ?p = "10 ^ length xs :: int"
  have b: "int (num xs) < ?p" "int (num ys) < ?p"
    using num_bound [of xs] num_bound [of ys] Cons.prems Cons.hyps by (auto simp flip: of_nat_less_iff)
  have n: "int (num (x # xs)) = (code x - 48) * ?p + int (num xs)" "int (num (y # ys)) = (code y - 48) * ?p + int (num ys)"
    using num_Cons [of x xs] num_Cons [of y ys] Cons.prems Cons.hyps d by auto
  have e: "int (num (x # xs)) - int (num (y # ys)) = (code x - code y) * ?p + (int (num xs) - int (num ys))"
    unfolding n by (simp add: algebra_simps)
  consider "code x = code y" | "code x > code y" | "code x < code y" by linarith
  then show ?case
  proof cases
    case 1
    then show ?thesis using Cons e by simp
  next
    case 2
    then have "1 * ?p \<le> (code x - code y) * ?p" by (intro mult_right_mono) auto
    then have "0 < int (num (x # xs)) - int (num (y # ys))" using b e by linarith
    then show ?thesis using 2 by simp
  next
    case 3
    then have "1 * ?p \<le> (code y - code x) * ?p" by (intro mult_right_mono) auto
    moreover have "(code x - code y) * ?p = - ((code y - code x) * ?p)" by (simp add: left_diff_distrib)
    ultimately have "int (num (x # xs)) - int (num (y # ys)) < 0" using b e by linarith
    then show ?thesis using 3 by simp
  qed
qed

lemma cmp_digits_runs:
  assumes "list_all isdigit a" "list_all isdigit b" "\<not> at_digit v0" "\<not> at_digit r0"
  shows "length a = length b \<Longrightarrow>
      cmp_digits d (a @ v0) (b @ r0) = (if d \<noteq> 0 then d else first_difference a b, v0, r0)"
    "length b < length a \<Longrightarrow> \<exists>e v r. cmp_digits d (a @ v0) (b @ r0) = (e, v, r) \<and> at_digit v"
    "length a < length b \<Longrightarrow> \<exists>e v r. cmp_digits d (a @ v0) (b @ r0) = (e, v, r) \<and> \<not> at_digit v \<and> at_digit r"
  using assms
proof (induction a b arbitrary: d rule: list_induct2')
  case 1
  {
    case 1
    then show ?case by (cases v0; cases r0) auto
  next
    case 2
    then show ?case by simp
  next
    case 3
    then show ?case by simp
  }
next
  case (2 x xs)
  {
    case 1
    then show ?case by simp
  next
    case 2
    then show ?case by (cases r0) auto
  next
    case 3
    then show ?case by simp
  }
next
  case (3 y ys)
  {
    case 1
    then show ?case by simp
  next
    case 2
    then show ?case by simp
  next
    case 3
    then show ?case by (cases v0) auto
  }
next
  case (4 x xs y ys)
  {
    case 1
    then show ?case using 4(1) by auto
  next
    case 2
    then show ?case using 4(2) by auto
  next
    case 3
    then show ?case using 4(3) by auto
  }
qed

lemma takeWhile_digits: "list_all isdigit (takeWhile isdigit s)"
  by (auto simp: list_all_iff dest: set_takeWhileD)

lemma at_digit_ndrop: "\<not> at_digit (ndrop s)"
proof (cases "ndrop s")
  case (Cons c t)
  then have "\<not> isdigit (hd (ndrop s))" unfolding ndrop_def by (metis hd_dropWhile list.distinct(1))
  then show ?thesis using Cons by simp
qed simp

text \<open>One round of \<^verbatim>\<open>verrevcmp\<close> after the non-digits.\<close>

lemma digits_key:
  assumes "\<not> at_nondigit v" "\<not> at_nondigit r"
    and "cmp_digits 0 (skip_zeros v) (skip_zeros r) = (e, v', r')"
  shows "lex0 (kpad v) (kpad r) =
    (if at_digit v' then 1 else if at_digit r' then -1 else if e \<noteq> 0 then sgn e else lex0 (vkey v') (vkey r'))"
proof -
  let ?a = "takeWhile isdigit v" and ?b = "takeWhile isdigit r"
  let ?a' = "skip_zeros ?a" and ?b' = "skip_zeros ?b"
  have d: "list_all isdigit ?a'" "list_all isdigit ?b'"
    using takeWhile_digits by (auto intro: skip_zeros_digits)
  have sv: "skip_zeros v = ?a' @ ndrop v" "skip_zeros r = ?b' @ ndrop r"
    using skip_zeros_app [OF at_digit_ndrop, of ?a v] skip_zeros_app [OF at_digit_ndrop, of ?b r]
    by (simp_all add: ndrop_def)
  have n: "num ?a' = num ?a" "num ?b' = num ?b" by (simp_all add: num_skip_zeros takeWhile_digits)
  have k: "lex0 (kpad v) (kpad r) = (if num ?a \<noteq> num ?b then sgn (int (num ?a) - int (num ?b))
      else lex0 (vkey (ndrop v)) (vkey (ndrop r)))"
    by (simp add: kpad_digits assms(1,2))
  note runs = cmp_digits_runs [OF d at_digit_ndrop at_digit_ndrop, of 0 v r, folded sv]
  consider (eq) "length ?a' = length ?b'" | (gt) "length ?b' < length ?a'" | (lt) "length ?a' < length ?b'"
    by linarith
  then show ?thesis
  proof cases
    case eq
    have e: "e = first_difference ?a' ?b'" "v' = ndrop v" "r' = ndrop r"
      using runs(1) [OF eq] assms(3) by simp_all
    have s: "sgn e = sgn (int (num ?a) - int (num ?b))"
      using first_difference_num [OF eq d] e n by simp
    then have "e = 0 \<longleftrightarrow> num ?a = num ?b" by (metis eq_iff_diff_eq_0 of_nat_eq_iff sgn_0_0)
    then show ?thesis using k s e at_digit_ndrop by simp
  next
    case gt
    then have "?a' \<noteq> []" by auto
    have "10 ^ (length ?a' - 1) \<le> num ?a'" using d(1) \<open>?a' \<noteq> []\<close> skip_zeros_hd by (intro num_lower)
    moreover have "num ?b' < 10 ^ length ?b'" using d(2) by (rule num_bound)
    moreover have "10 ^ length ?b' \<le> (10 :: nat) ^ (length ?a' - 1)" using gt by (intro power_increasing) auto
    ultimately have "num ?b < num ?a" unfolding n by linarith
    then show ?thesis using k runs(2) [OF gt] assms(3) by auto
  next
    case lt
    then have "?b' \<noteq> []" by auto
    have "10 ^ (length ?b' - 1) \<le> num ?b'" using d(2) \<open>?b' \<noteq> []\<close> skip_zeros_hd by (intro num_lower)
    moreover have "num ?a' < 10 ^ length ?a'" using d(1) by (rule num_bound)
    moreover have "10 ^ length ?a' \<le> (10 :: nat) ^ (length ?b' - 1)" using lt by (intro power_increasing) auto
    ultimately have "num ?a < num ?b" unfolding n by linarith
    then show ?thesis using k runs(3) [OF lt] assms(3) by auto
  qed
qed

lemma verrevcmp_key: "sgn (verrevcmp val ref) = lex0 (vkey val) (vkey ref)"
proof (induction val ref rule: verrevcmp.induct)
  case (1 val ref)
  show ?case
  proof (cases "val = [] \<and> ref = []")
    case True
    then show ?thesis by (simp add: verrevcmp.simps vkey.simps)
  next
    case False
    show ?thesis
    proof (cases "cmp_nondigits val ref")
      case (Inl d)
      then show ?thesis using False cmp_nondigits_key [of val ref]
        by (auto simp: verrevcmp.simps [of val ref] lex0_kpad)
    next
      case (Inr p)
      obtain v r where p: "p = (v, r)" by (cases p)
      obtain e v' r' where c: "cmp_digits 0 (skip_zeros v) (skip_zeros r) = (e, v', r')" by (metis prod_cases3)
      have n: "lex0 (vkey val) (vkey ref) = lex0 (kpad v) (kpad r)" "\<not> at_nondigit v" "\<not> at_nondigit r"
        using cmp_nondigits_key [of val ref] Inr p by (auto simp: lex0_kpad)
      have v: "verrevcmp val ref =
          (if at_digit v' then 1 else if at_digit r' then -1 else if e \<noteq> 0 then e else verrevcmp v' r')"
        using False Inr p c by (auto simp: verrevcmp.simps [of val ref])
      show ?thesis
      proof (cases "at_digit v' \<or> at_digit r' \<or> e \<noteq> 0")
        case True
        then show ?thesis unfolding v n(1) digits_key [OF n(2,3) c] by auto
      next
        case f: False
        then have "sgn (verrevcmp v' r') = lex0 (vkey v') (vkey r')"
          using "1.IH" [OF False Inr p [symmetric] c [symmetric] refl] by simp
        then show ?thesis unfolding v n(1) digits_key [OF n(2,3) c] using f by simp
      qed
    qed
  qed
qed

section \<open>The order on versions\<close>

lemma lex0_antisym: "lex0 ys xs = - lex0 xs ys"
  by (induction xs ys rule: lex0.induct) (auto simp: sgn_if)

lemma lex0_values: "lex0 xs ys \<in> {-1, 0, 1}"
  by (induction xs ys rule: lex0.induct) (auto simp: sgn_if)

text \<open>Padding lets every comparison go head by head.\<close>

definition head0 :: "int list \<Rightarrow> int" where
  "head0 xs = (if xs = [] then 0 else hd xs)"

lemma lex0_step: "xs \<noteq> [] \<or> ys \<noteq> [] \<Longrightarrow> lex0 xs ys =
    (if head0 xs \<noteq> head0 ys then sgn (head0 xs - head0 ys) else lex0 (tl xs) (tl ys))"
  by (cases xs; cases ys) (auto simp: head0_def sgn_if)

lemma lex0_trans: "lex0 xs ys \<le> 0 \<Longrightarrow> lex0 ys zs \<le> 0 \<Longrightarrow>
    lex0 xs zs \<le> 0 \<and> (lex0 xs zs = 0 \<longrightarrow> lex0 xs ys = 0 \<and> lex0 ys zs = 0)"
proof (induction "length xs + length ys + length zs" arbitrary: xs ys zs rule: less_induct)
  case less
  show ?case
  proof (cases "xs = [] \<and> ys = [] \<and> zs = []")
    case False
    then have m: "length (tl xs) + length (tl ys) + length (tl zs) < length xs + length ys + length zs"
      by (cases xs; cases ys; cases zs) auto
    have s: "lex0 as bs = (if head0 as \<noteq> head0 bs then sgn (head0 as - head0 bs) else lex0 (tl as) (tl bs))" for as bs
      using lex0_step [of as bs] by (cases "as = [] \<and> bs = []") auto
    show ?thesis
      using less.hyps [OF m] less.prems unfolding s [of xs ys] s [of ys zs] s [of xs zs]
      by (auto simp: sgn_if split: if_splits)
  qed simp
qed

text \<open>
  C14: \<^verbatim>\<open>verrevcmp\<close> compares versions by their keys: a version is cut into runs of non-digits and of digits, a run
  of non-digits counts character by character (\<^verbatim>\<open>~\<close> before the end of the run, letters before other characters),
  a run of digits by its value whatever its leading zeros, and the first difference decides.
\<close>

theorem verrevcmp_refines_key_order: "sgn (verrevcmp val ref) = lex0 (vkey val) (vkey ref)"
  by (rule verrevcmp_key)

lemma verrevcmp_sgn: "verrevcmp a b = 0 \<longleftrightarrow> lex0 (vkey a) (vkey b) = 0" "verrevcmp a b < 0 \<longleftrightarrow> lex0 (vkey a) (vkey b) < 0"
  "verrevcmp a b > 0 \<longleftrightarrow> lex0 (vkey a) (vkey b) > 0"
  unfolding verrevcmp_key [symmetric] by (auto simp: sgn_if)

text \<open>
  \<^verbatim>\<open>versioncompare\<close> is a total preorder: exchanging the versions turns the sign around, a version equals
  itself, and \<open>\<le>\<close> is transitive.
\<close>

theorem versioncompare_preorder:
  "sgn (versioncompare r v) = - sgn (versioncompare v r) \<and> versioncompare v v = 0 \<and>
   (versioncompare v r \<le> 0 \<longrightarrow> versioncompare r w \<le> 0 \<longrightarrow> versioncompare v w \<le> 0)"
proof -
  have a: "sgn (verrevcmp y x) = - sgn (verrevcmp x y)" for x y
    unfolding verrevcmp_key by (rule lex0_antisym)
  have a0: "verrevcmp y x = 0 \<longleftrightarrow> verrevcmp x y = 0" "verrevcmp y x < 0 \<longleftrightarrow> verrevcmp x y > 0" for x y
    using lex0_antisym [of "vkey y" "vkey x"] by (simp_all add: verrevcmp_sgn)
  have r: "verrevcmp x x = 0" for x using a0(2) [of x x] by linarith
  have t: "verrevcmp x y \<le> 0 \<Longrightarrow> verrevcmp y z \<le> 0 \<Longrightarrow>
      verrevcmp x z \<le> 0 \<and> (verrevcmp x z = 0 \<longrightarrow> verrevcmp x y = 0 \<and> verrevcmp y z = 0)" for x y z
    using lex0_trans [of "vkey x" "vkey y" "vkey z"] verrevcmp_sgn by (metis linorder_not_less)
  have "sgn (versioncompare r v) = - sgn (versioncompare v r)"
    using a [of "version r" "version v"] a [of "revision r" "revision v"] a0(1) [of "version r" "version v"]
    by (auto simp: versioncompare_def Let_def)
  moreover have "versioncompare v v = 0" by (simp add: versioncompare_def r Let_def)
  moreover have "versioncompare v w \<le> 0" if "versioncompare v r \<le> 0" "versioncompare r w \<le> 0"
  proof -
    have v: "versioncompare x y \<le> 0 \<longleftrightarrow> epoch x < epoch y \<or> epoch x = epoch y \<and>
        (verrevcmp (version x) (version y) < 0 \<or>
         verrevcmp (version x) (version y) = 0 \<and> verrevcmp (revision x) (revision y) \<le> 0)" for x y
      by (auto simp: versioncompare_def Let_def)
    show ?thesis
      using that t [of "version v" "version r" "version w"] t [of "revision v" "revision r" "revision w"]
      unfolding v by (elim disjE conjE) auto
  qed
  ultimately show ?thesis by blast
qed

abbreviation (input) ver :: "string \<Rightarrow> versionrevision" where
  "ver s \<equiv> \<lparr>epoch = 0, version = s, revision = []\<rparr>"

theorem versioncompare_preorder_witness:
  "versioncompare (ver ''1.0~rc1'') (ver ''1.10'') \<le> 0"
proof -
  have "versioncompare (ver ''1.0~rc1'') (ver ''1.0'') \<le> 0" by code_simp
  moreover have "versioncompare (ver ''1.0'') (ver ''1.10'') \<le> 0" by code_simp
  ultimately show ?thesis using versioncompare_preorder by blast
qed

text \<open>
  The exit status of the program: 2 for too few arguments or a version that does not parse, otherwise 0 exactly
  when the relation holds, where \<^verbatim>\<open><\<close> and \<^verbatim>\<open>>\<close> mean "not later" and "not earlier", as the packaging tools define
  them, and the strict relations are \<^verbatim>\<open><<\<close> and \<^verbatim>\<open>>>\<close>.
\<close>

theorem vercmp_exit_status:
  assumes "parseversion a = Inr v" "parseversion b = Inr r"
  shows "vercmp_main [a, ''<='', b] = (if versioncompare v r \<le> 0 then 0 else 1) \<and>
    vercmp_main [a, ''<'', b] = vercmp_main [a, ''<='', b] \<and>
    vercmp_main [a, ''>'', b] = vercmp_main [a, ''>='', b] \<and>
    vercmp_main [a, ''<<'', b] = 1 - vercmp_main [a, ''>='', b] \<and>
    vercmp_main [a, ''>>'', b] = 1 - vercmp_main [a, ''<='', b] \<and>
    (vercmp_main [a, ''='', b] = 0) = (vercmp_main [a, ''<='', b] = 0 \<and> vercmp_main [a, ''>='', b] = 0)"
  using assms by (auto simp: vercmp_main_def versionsatisfied3_def Let_def)

theorem vercmp_exit_status_witness:
  "vercmp_main [''1.0'', ''<'', ''2.0''] = vercmp_main [''1.0'', ''<='', ''2.0'']"
proof -
  have "parseversion ''1.0'' = Inr (ver ''1.0'')" "parseversion ''2.0'' = Inr (ver ''2.0'')"
    by (simp_all add: parseversion_def)
  then show ?thesis using vercmp_exit_status by blast
qed

end
