(* ===== verification/Clock.thy ===== *)
theory Clock
  imports Prelude
begin

text \<open>
  \<^verbatim>\<open>exfat_oal.c\<close>, \<^verbatim>\<open>tm_current\<close>: the broken-down timestamp (years since 1980) of the current time.  The clock
  (\<^verbatim>\<open>CURRENT_TIME_SEC\<close>) and the time-zone offset (\<^verbatim>\<open>sys_tz.tz_minuteswest\<close>) are arguments.  \<^verbatim>\<open>time_t\<close> is a
  64-bit \<^verbatim>\<open>long\<close> (\<^verbatim>\<open>BITS_PER_LONG == 64\<close>); all values stay far inside its range, so it is an \<open>int\<close>.
  Past the first two guards every dividend is non-negative, where C's division is \<open>div\<close>.
\<close>

record TIMESTAMP_T =
  tm_sec :: u16
  tm_min :: u16
  tm_hour :: u16
  tm_day :: u16
  tm_mon :: u16
  tm_year :: u16

definition UNIX_SECS_1980 :: int where "UNIX_SECS_1980 = 315532800"
definition UNIX_SECS_2108 :: int where "UNIX_SECS_2108 = 4354819200"
definition DAYS_DELTA_DECADE :: int where "DAYS_DELTA_DECADE = 365 * 10 + 2"
definition NO_LEAP_YEAR_2100 :: int where "NO_LEAP_YEAR_2100 = 120"
definition IS_LEAP_YEAR :: "int \<Rightarrow> bool" where
  "IS_LEAP_YEAR y = (y AND 3 = 0 \<and> y \<noteq> NO_LEAP_YEAR_2100)"
definition SECS_PER_MIN :: int where "SECS_PER_MIN = 60"
definition SECS_PER_HOUR :: int where "SECS_PER_HOUR = 60 * SECS_PER_MIN"
definition SECS_PER_DAY :: int where "SECS_PER_DAY = 24 * SECS_PER_HOUR"

definition MAKE_LEAP_YEAR :: "int \<Rightarrow> int" where
  "MAKE_LEAP_YEAR year =
     (if year > NO_LEAP_YEAR_2100 then ((year + 3) div 4) - 1 else (year + 3) div 4)"

lemmas clock_consts = UNIX_SECS_1980_def UNIX_SECS_2108_def DAYS_DELTA_DECADE_def NO_LEAP_YEAR_2100_def
  SECS_PER_MIN_def SECS_PER_HOUR_def SECS_PER_DAY_def

definition accum_days_in_year :: "int list" where
  "accum_days_in_year = [0, 0, 31, 59, 90, 120, 151, 181, 212, 243, 273, 304, 334, 0, 0, 0]"

text \<open>\<^verbatim>\<open>for (month = 1; month < 12; month++) if (accum_days_in_year[month + 1] > day) break;\<close>\<close>

function month_loop :: "nat \<Rightarrow> int \<Rightarrow> nat" where
  "month_loop month day =
     (if month < 12 then
        if accum_days_in_year ! (month + 1) > day then month else month_loop (month + 1) day
      else month)"
  by pat_completeness auto
termination
  by (relation "measure (\<lambda>(m, d). 12 - m)") auto

declare month_loop.simps [simp del]

definition tm_current :: "int \<Rightarrow> int \<Rightarrow> TIMESTAMP_T" where
  "tm_current tv_sec tz_minuteswest =
     (let second = tv_sec - tz_minuteswest * SECS_PER_MIN in
      if second < UNIX_SECS_1980 then
        \<lparr>tm_sec = 0, tm_min = 0, tm_hour = 0, tm_day = 1, tm_mon = 1, tm_year = 0\<rparr>
      else if second \<ge> UNIX_SECS_2108 then
        \<lparr>tm_sec = 59, tm_min = 59, tm_hour = 23, tm_day = 31, tm_mon = 12, tm_year = 127\<rparr>
      else
        let day = second div SECS_PER_DAY - DAYS_DELTA_DECADE;
            year = day div 365;
            leap_day = MAKE_LEAP_YEAR year;
            year = (if year * 365 + leap_day > day then year - 1 else year);
            leap_day = MAKE_LEAP_YEAR year;
            day = day - (year * 365 + leap_day);
            (month, day) =
              (if IS_LEAP_YEAR year \<and> day = accum_days_in_year ! 3 then (2, day)
               else let day = (if IS_LEAP_YEAR year \<and> day > accum_days_in_year ! 3 then day - 1 else day)
                    in (month_loop 1 day, day));
            day = day - accum_days_in_year ! month
        in \<lparr>tm_sec = word_of_int (second mod SECS_PER_MIN),
            tm_min = word_of_int ((second div SECS_PER_MIN) mod 60),
            tm_hour = word_of_int ((second div SECS_PER_HOUR) mod 24),
            tm_day = word_of_int (day + 1),
            tm_mon = of_nat month,
            tm_year = word_of_int year\<rparr>)"

section \<open>Reference calendar\<close>

text \<open>
  The proleptic Gregorian calendar, counted from 1 January 1980: which years are leap years, how long each month
  is, and the number of days before a date.
\<close>

definition leap :: "int \<Rightarrow> bool" where
  "leap y = ((1980 + y) mod 4 = 0 \<and> ((1980 + y) mod 100 = 0 \<longrightarrow> (1980 + y) mod 400 = 0))"

fun month_len :: "int \<Rightarrow> nat \<Rightarrow> int" where
  "month_len y m = (if m = 2 then if leap y then 29 else 28
                    else if m \<in> {4, 6, 9, 11} then 30 else 31)"

definition days_before_month :: "int \<Rightarrow> nat \<Rightarrow> int" where
  "days_before_month y m = (\<Sum>k\<in>{1..<m}. month_len y k)"

definition days_before_year :: "nat \<Rightarrow> int" where
  "days_before_year y = (\<Sum>k\<in>{0..<y}. if leap (int k) then 366 else 365)"

definition secs_since_1980 :: "TIMESTAMP_T \<Rightarrow> int" where
  "secs_since_1980 t =
     (days_before_year (unat (tm_year t)) + days_before_month (uint (tm_year t)) (unat (tm_mon t)) +
      (uint (tm_day t) - 1)) * 86400 +
     uint (tm_hour t) * 3600 + uint (tm_min t) * 60 + uint (tm_sec t)"

definition valid_timestamp :: "TIMESTAMP_T \<Rightarrow> bool" where
  "valid_timestamp t \<longleftrightarrow> uint (tm_sec t) < 60 \<and> uint (tm_min t) < 60 \<and> uint (tm_hour t) < 24 \<and>
     1 \<le> uint (tm_mon t) \<and> uint (tm_mon t) \<le> 12 \<and> 1 \<le> uint (tm_day t) \<and>
     uint (tm_day t) \<le> month_len (uint (tm_year t)) (unat (tm_mon t)) \<and> uint (tm_year t) \<le> 127"

section \<open>Leap years and day counts\<close>

lemma int_and_3: "(y::int) AND 3 = y mod 4"
proof -
  have "y AND 3 = y AND mask 2" by (simp add: mask_eq_exp_minus_1)
  also have "\<dots> = y mod 4" by (simp add: take_bit_eq_mask [symmetric] take_bit_eq_mod)
  finally show ?thesis .
qed

lemma IS_LEAP_YEAR_leap:
  assumes "0 \<le> y" "y \<le> 127"
  shows "IS_LEAP_YEAR y \<longleftrightarrow> leap y"
proof -
  have "(1980 + y) mod 4 = y mod 4" by presburger
  moreover have "(1980 + y) mod 100 = 0 \<longleftrightarrow> y = 20 \<or> y = 120"
  proof
    assume "(1980 + y) mod 100 = 0"
    then obtain k where k: "1980 + y = 100 * k" by (auto simp: mod_eq_0_iff_dvd)
    with assms have "k = 20 \<or> k = 21" by linarith
    with k show "y = 20 \<or> y = 120" by auto
  qed auto
  moreover have "(1980 + y) mod 400 = 0 \<longleftrightarrow> y = 20"
  proof
    assume "(1980 + y) mod 400 = 0"
    then obtain k where k: "1980 + y = 400 * k" by (auto simp: mod_eq_0_iff_dvd)
    with assms have "k = 5" by linarith
    with k show "y = 20" by auto
  qed auto
  ultimately show ?thesis
    by (auto simp: IS_LEAP_YEAR_def leap_def int_and_3 NO_LEAP_YEAR_2100_def)
qed

lemma MAKE_LEAP_YEAR_0: "MAKE_LEAP_YEAR 0 = 0"
  by (simp add: MAKE_LEAP_YEAR_def NO_LEAP_YEAR_2100_def)

lemma MAKE_LEAP_YEAR_Suc:
  assumes "0 \<le> y" "y \<le> 127"
  shows "MAKE_LEAP_YEAR (y + 1) = MAKE_LEAP_YEAR y + (if leap y then 1 else 0)"
proof -
  have "(y + 1 + 3) div 4 = (y + 3) div 4 + (if y mod 4 = 0 then 1 else 0)" by presburger
  then show ?thesis
    using assms IS_LEAP_YEAR_leap [OF assms]
    by (auto simp: MAKE_LEAP_YEAR_def IS_LEAP_YEAR_def int_and_3 NO_LEAP_YEAR_2100_def)
qed

lemma days_before_year_code: "y \<le> 128 \<Longrightarrow> days_before_year y = int y * 365 + MAKE_LEAP_YEAR (int y)"
proof (induction y)
  case 0
  then show ?case by (simp add: days_before_year_def MAKE_LEAP_YEAR_0)
next
  case (Suc y)
  have "days_before_year (Suc y) = days_before_year y + (if leap (int y) then 366 else 365)"
    by (simp add: days_before_year_def)
  with Suc MAKE_LEAP_YEAR_Suc [of "int y"] show ?case by (simp add: add.commute)
qed

text \<open>The year search: one correction by the guard is enough.\<close>

lemma year_search:
  fixes day :: int
  assumes "0 \<le> day" "day < 46751"
  defines "y0 \<equiv> day div 365"
  defines "y \<equiv> if y0 * 365 + MAKE_LEAP_YEAR y0 > day then y0 - 1 else y0"
  shows "0 \<le> y" "y \<le> 127" "y * 365 + MAKE_LEAP_YEAR y \<le> day"
    "day < (y + 1) * 365 + MAKE_LEAP_YEAR (y + 1)"
proof -
  have y0: "0 \<le> y0" "y0 * 365 \<le> day" "day < (y0 + 1) * 365" "y0 \<le> 128"
    using assms(1,2) by (auto simp: y0_def)
  have lp: "0 \<le> MAKE_LEAP_YEAR z" "MAKE_LEAP_YEAR z \<le> 33" if "0 \<le> z" "z \<le> 129" for z
    using that by (auto simp: MAKE_LEAP_YEAR_def NO_LEAP_YEAR_2100_def)
  show "0 \<le> y" using y0 assms(1) by (auto simp: y_def MAKE_LEAP_YEAR_0 split: if_splits)
      (cases "y0 = 0", auto simp: MAKE_LEAP_YEAR_0)
  have m128: "MAKE_LEAP_YEAR 128 = 31" by (simp add: MAKE_LEAP_YEAR_def NO_LEAP_YEAR_2100_def)
  show "y \<le> 127" using y0 m128 assms(2) by (cases "y0 = 128") (auto simp: y_def)
  show "y * 365 + MAKE_LEAP_YEAR y \<le> day"
    using y0 lp [of "y0 - 1"] lp [of y0] \<open>0 \<le> y\<close> by (auto simp: y_def algebra_simps split: if_splits)
  show "day < (y + 1) * 365 + MAKE_LEAP_YEAR (y + 1)"
    using y0 lp [of "y0 + 1"] by (auto simp: y_def algebra_simps split: if_splits)
qed

section \<open>The month search\<close>

text \<open>\<open>day\<close> counts from 0 within a non-leap year; the loop returns the month that holds it.\<close>

lemma month_loop_12: "month_loop 12 d = 12"
  by (simp add: month_loop.simps)

lemma month_loop_lt:
  "m < 12 \<Longrightarrow> month_loop m d = (if accum_days_in_year ! (m + 1) > d then m else month_loop (m + 1) d)"
  by (subst month_loop.simps) simp

lemma month_loop_unfold:
  "month_loop 1 d =
     (if d < 31 then 1 else if d < 59 then 2 else if d < 90 then 3 else if d < 120 then 4
      else if d < 151 then 5 else if d < 181 then 6 else if d < 212 then 7 else if d < 243 then 8
      else if d < 273 then 9 else if d < 304 then 10 else if d < 334 then 11 else 12)"
  using month_loop_lt [of 1 d] month_loop_lt [of 2 d] month_loop_lt [of 3 d] month_loop_lt [of 4 d]
    month_loop_lt [of 5 d] month_loop_lt [of 6 d] month_loop_lt [of 7 d] month_loop_lt [of 8 d]
    month_loop_lt [of 9 d] month_loop_lt [of 10 d] month_loop_lt [of 11 d] month_loop_12 [of d]
  by (simp add: accum_days_in_year_def del: One_nat_def)

lemma days_before_month_step:
  "1 \<le> m \<Longrightarrow> days_before_month y (m + 1) = days_before_month y m + month_len y m"
  by (simp add: days_before_month_def)

lemma days_before_month_table:
  "days_before_month y 1 = 0" "days_before_month y 2 = 31"
  "days_before_month y 3 = 59 + (if leap y then 1 else 0)"
  "days_before_month y 4 = 90 + (if leap y then 1 else 0)"
  "days_before_month y 5 = 120 + (if leap y then 1 else 0)"
  "days_before_month y 6 = 151 + (if leap y then 1 else 0)"
  "days_before_month y 7 = 181 + (if leap y then 1 else 0)"
  "days_before_month y 8 = 212 + (if leap y then 1 else 0)"
  "days_before_month y 9 = 243 + (if leap y then 1 else 0)"
  "days_before_month y 10 = 273 + (if leap y then 1 else 0)"
  "days_before_month y 11 = 304 + (if leap y then 1 else 0)"
  "days_before_month y 12 = 334 + (if leap y then 1 else 0)"
proof -
  show m1: "days_before_month y 1 = 0" by (simp add: days_before_month_def)
  show m2: "days_before_month y 2 = 31" using days_before_month_step [of 1 y] m1 by (simp add: numeral_2_eq_2)
  show m3: "days_before_month y 3 = 59 + (if leap y then 1 else 0)"
    using days_before_month_step [of 2 y] m2 by simp
  show m4: "days_before_month y 4 = 90 + (if leap y then 1 else 0)"
    using days_before_month_step [of 3 y] m3 by simp
  show m5: "days_before_month y 5 = 120 + (if leap y then 1 else 0)"
    using days_before_month_step [of 4 y] m4 by simp
  show m6: "days_before_month y 6 = 151 + (if leap y then 1 else 0)"
    using days_before_month_step [of 5 y] m5 by simp
  show m7: "days_before_month y 7 = 181 + (if leap y then 1 else 0)"
    using days_before_month_step [of 6 y] m6 by simp
  show m8: "days_before_month y 8 = 212 + (if leap y then 1 else 0)"
    using days_before_month_step [of 7 y] m7 by simp
  show m9: "days_before_month y 9 = 243 + (if leap y then 1 else 0)"
    using days_before_month_step [of 8 y] m8 by simp
  show m10: "days_before_month y 10 = 273 + (if leap y then 1 else 0)"
    using days_before_month_step [of 9 y] m9 by simp
  show m11: "days_before_month y 11 = 304 + (if leap y then 1 else 0)"
    using days_before_month_step [of 10 y] m10 by simp
  show "days_before_month y 12 = 334 + (if leap y then 1 else 0)"
    using days_before_month_step [of 11 y] m11 by simp
qed

text \<open>The month and day that the code computes from the day \<open>d\<close> of the year \<open>y\<close> (from 0).\<close>

definition month_day :: "int \<Rightarrow> int \<Rightarrow> nat \<times> int" where
  "month_day y d =
     (if IS_LEAP_YEAR y \<and> d = accum_days_in_year ! 3 then (2, d)
      else let d = (if IS_LEAP_YEAR y \<and> d > accum_days_in_year ! 3 then d - 1 else d)
           in (month_loop 1 d, d))"

lemma month_day_correct:
  assumes "0 \<le> y" "y \<le> 127" "0 \<le> d" "d < 365 + (if leap y then 1 else 0)"
    and "month_day y d = (m, d')"
  shows "1 \<le> m" "m \<le> 12" "0 \<le> d' - accum_days_in_year ! m" "d' - accum_days_in_year ! m < month_len y m"
    "days_before_month y m + (d' - accum_days_in_year ! m) = d"
  using assms
  by (auto simp: month_day_def IS_LEAP_YEAR_leap month_loop_unfold Let_def accum_days_in_year_def
        days_before_month_table simp del: One_nat_def split: if_splits)

section \<open>The clock is the calendar\<close>

lemma tm_current_range:
  assumes "UNIX_SECS_1980 \<le> t" "t < UNIX_SECS_2108"
  shows "tm_current t 0 =
    (let day = t div 86400 - 3652; y0 = day div 365;
         y = (if y0 * 365 + MAKE_LEAP_YEAR y0 > day then y0 - 1 else y0);
         (m, d) = month_day y (day - (y * 365 + MAKE_LEAP_YEAR y))
     in \<lparr>tm_sec = word_of_int (t mod 60), tm_min = word_of_int ((t div 60) mod 60),
         tm_hour = word_of_int ((t div 3600) mod 24), tm_day = word_of_int (d - accum_days_in_year ! m + 1),
         tm_mon = of_nat m, tm_year = word_of_int y\<rparr>)"
  using assms
  by (simp add: tm_current_def month_day_def Let_def clock_consts not_le not_less split: if_splits)

lemma uint_small_u16: "0 \<le> x \<Longrightarrow> x < 65536 \<Longrightarrow> uint (word_of_int x :: u16) = x"
  by (simp add: uint_word_of_int_eq take_bit_int_eq_self)

lemma tm_current_zone: "tm_current tv tz = tm_current (tv - tz * SECS_PER_MIN) 0"
  by (simp add: tm_current_def)

lemma secs_split: "(0::int) \<le> t \<Longrightarrow>
    (t div 86400) * 86400 + ((t div 3600) mod 24) * 3600 + ((t div 60) mod 60) * 60 + t mod 60 = t"
proof -
  have "t div 86400 = t div 60 div 60 div 24" "t div 3600 = t div 60 div 60"
    by (simp_all add: zdiv_zmult2_eq [symmetric])
  then show ?thesis by presburger
qed

lemma secs_shift:
  fixes a :: int
  shows "a * 86400 + b + c + e = t \<Longrightarrow> (a - 3652) * 86400 + b + c + e = t - 315532800"
  by simp

lemma tm_current_calendar:
  assumes "UNIX_SECS_1980 \<le> t" "t < UNIX_SECS_2108"
  shows "valid_timestamp (tm_current t 0) \<and> secs_since_1980 (tm_current t 0) = t - UNIX_SECS_1980"
proof -
  define day where "day = t div 86400 - 3652"
  define y where "y = (if (day div 365) * 365 + MAKE_LEAP_YEAR (day div 365) > day
                       then day div 365 - 1 else day div 365)"
  obtain m d where md: "month_day y (day - (y * 365 + MAKE_LEAP_YEAR y)) = (m, d)" by fastforce
  have t: "315532800 \<le> t" "t < 4354819200" using assms by (simp_all add: clock_consts)
  then have "0 \<le> day" "day < 46751" by (auto simp: day_def)
  note ys = year_search [OF this, folded y_def]
  have dr: "0 \<le> day - (y * 365 + MAKE_LEAP_YEAR y)"
      "day - (y * 365 + MAKE_LEAP_YEAR y) < 365 + (if leap y then 1 else 0)"
    using ys MAKE_LEAP_YEAR_Suc [of y] by (auto simp: algebra_simps)
  note mdc = month_day_correct [OF ys(1,2) dr md]
  have ml: "month_len y m \<le> 31" by simp
  define e where "e = d - accum_days_in_year ! m + 1"
  let ?T = "tm_current t 0"
  have T: "?T = \<lparr>tm_sec = word_of_int (t mod 60), tm_min = word_of_int ((t div 60) mod 60),
      tm_hour = word_of_int ((t div 3600) mod 24), tm_day = word_of_int e,
      tm_mon = of_nat m, tm_year = word_of_int y\<rparr>"
    unfolding tm_current_range [OF assms] Let_def day_def [symmetric] y_def [symmetric] md
    by (simp add: e_def)
  have e: "0 \<le> e" "e < 65536" using mdc(3,4) ml unfolding e_def by linarith+
  have f: "uint (tm_sec ?T) = t mod 60" "uint (tm_min ?T) = (t div 60) mod 60"
    "uint (tm_hour ?T) = (t div 3600) mod 24" "uint (tm_day ?T) = e"
    "uint (tm_year ?T) = y" "unat (tm_year ?T) = nat y" "uint (tm_mon ?T) = int m" "unat (tm_mon ?T) = m"
    using mdc e ml ys(1,2) by (simp_all add: T uint_small_u16 unat_eq_nat_uint take_bit_nat_eq_self
        unsigned_of_nat take_bit_int_eq_self del: month_len.simps)
  have "days_before_year (nat y) = y * 365 + MAKE_LEAP_YEAR y"
    using days_before_year_code [of "nat y"] ys(1,2) by simp
  then have "secs_since_1980 ?T = day * 86400 + ((t div 3600) mod 24) * 3600 + ((t div 60) mod 60) * 60 + t mod 60"
    unfolding secs_since_1980_def f using mdc(5) by (simp add: e_def)
  also have "\<dots> = t - UNIX_SECS_1980"
    unfolding day_def UNIX_SECS_1980_def by (rule secs_shift, rule secs_split) (use t in linarith)
  finally show ?thesis
    unfolding valid_timestamp_def f using mdc ys(1,2) by (simp add: e_def)
qed

text \<open>C30: Between 1980 and 2108 (local time) the computed timestamp is a valid calendar date, and counting the
  days of the Gregorian calendar back from it gives exactly the seconds the clock showed.\<close>

theorem tm_current_correct:
  assumes "UNIX_SECS_1980 \<le> tv_sec - tz * SECS_PER_MIN" "tv_sec - tz * SECS_PER_MIN < UNIX_SECS_2108"
  shows "valid_timestamp (tm_current tv_sec tz) \<and>
    secs_since_1980 (tm_current tv_sec tz) = tv_sec - tz * SECS_PER_MIN - UNIX_SECS_1980"
  using tm_current_calendar [OF assms] tm_current_zone [of tv_sec tz] by simp

theorem tm_current_correct_witness:
  "valid_timestamp (tm_current 951868800 60) \<and> secs_since_1980 (tm_current 951868800 60) = 636332400"
  using tm_current_correct [of 951868800 60] by (simp add: clock_consts)

end
