(* ===== verification/Dentry.thy ===== *)
theory Dentry
  imports Bytes Clock
begin

text \<open>
  Directory entries of \<^verbatim>\<open>exfat_core.c\<close>.  A \<^verbatim>\<open>DENTRY_T\<close> is 32 raw bytes that the code casts to one of the
  packed structs \<^verbatim>\<open>DOS_DENTRY_T\<close>, \<^verbatim>\<open>EXT_DENTRY_T\<close>, \<^verbatim>\<open>FILE_DENTRY_T\<close>, \<^verbatim>\<open>STRM_DENTRY_T\<close> and \<^verbatim>\<open>NAME_DENTRY_T\<close>; here it
  is a \<open>u8 list\<close> of length 32 and a struct member is its byte offset.  The accessor functions come in a
  \<^verbatim>\<open>fat_\<close> and an \<^verbatim>\<open>exfat_\<close> family, which the code puts in the function tables \<^verbatim>\<open>fat_fs_func\<close> and
  \<^verbatim>\<open>exfat_fs_func\<close>.  The locale \<open>entry_ops\<close> states what the callers expect of such a table; both families are
  instances.
\<close>

section \<open>Struct layouts (byte offsets)\<close>

text \<open>\<^verbatim>\<open>DOS_DENTRY_T\<close>\<close>

definition dos_name :: nat where "dos_name = 0"
definition dos_attr :: nat where "dos_attr = 11"
definition dos_lcase :: nat where "dos_lcase = 12"
definition dos_create_time_ms :: nat where "dos_create_time_ms = 13"
definition dos_create_time :: nat where "dos_create_time = 14"
definition dos_create_date :: nat where "dos_create_date = 16"
definition dos_access_date :: nat where "dos_access_date = 18"
definition dos_start_clu_hi :: nat where "dos_start_clu_hi = 20"
definition dos_modify_time :: nat where "dos_modify_time = 22"
definition dos_modify_date :: nat where "dos_modify_date = 24"
definition dos_start_clu_lo :: nat where "dos_start_clu_lo = 26"
definition dos_size :: nat where "dos_size = 28"

lemmas dos_layout = dos_name_def dos_attr_def dos_lcase_def dos_create_time_ms_def dos_create_time_def
  dos_create_date_def dos_access_date_def dos_start_clu_hi_def dos_modify_time_def dos_modify_date_def
  dos_start_clu_lo_def dos_size_def

text \<open>\<^verbatim>\<open>EXT_DENTRY_T\<close>\<close>

definition ext_order :: nat where "ext_order = 0"
definition ext_unicode_0_4 :: nat where "ext_unicode_0_4 = 1"
definition ext_attr :: nat where "ext_attr = 11"
definition ext_sysid :: nat where "ext_sysid = 12"
definition ext_checksum :: nat where "ext_checksum = 13"
definition ext_unicode_5_10 :: nat where "ext_unicode_5_10 = 14"
definition ext_start_clu :: nat where "ext_start_clu = 26"
definition ext_unicode_11_12 :: nat where "ext_unicode_11_12 = 28"

lemmas ext_layout = ext_order_def ext_unicode_0_4_def ext_attr_def ext_sysid_def ext_checksum_def
  ext_unicode_5_10_def ext_start_clu_def ext_unicode_11_12_def

text \<open>\<^verbatim>\<open>FILE_DENTRY_T\<close>\<close>

definition file_type :: nat where "file_type = 0"
definition file_num_ext :: nat where "file_num_ext = 1"
definition file_checksum :: nat where "file_checksum = 2"
definition file_attr :: nat where "file_attr = 4"
definition file_create_time :: nat where "file_create_time = 8"
definition file_create_date :: nat where "file_create_date = 10"
definition file_modify_time :: nat where "file_modify_time = 12"
definition file_modify_date :: nat where "file_modify_date = 14"
definition file_access_time :: nat where "file_access_time = 16"
definition file_access_date :: nat where "file_access_date = 18"
definition file_create_time_ms :: nat where "file_create_time_ms = 20"
definition file_modify_time_ms :: nat where "file_modify_time_ms = 21"
definition file_access_time_ms :: nat where "file_access_time_ms = 22"

lemmas file_layout = file_type_def file_num_ext_def file_checksum_def file_attr_def file_create_time_def
  file_create_date_def file_modify_time_def file_modify_date_def file_access_time_def file_access_date_def
  file_create_time_ms_def file_modify_time_ms_def file_access_time_ms_def

text \<open>\<^verbatim>\<open>STRM_DENTRY_T\<close> and \<^verbatim>\<open>NAME_DENTRY_T\<close>\<close>

definition strm_type :: nat where "strm_type = 0"
definition strm_flags :: nat where "strm_flags = 1"
definition strm_name_len :: nat where "strm_name_len = 3"
definition strm_name_hash :: nat where "strm_name_hash = 4"
definition strm_valid_size :: nat where "strm_valid_size = 8"
definition strm_start_clu :: nat where "strm_start_clu = 20"
definition strm_size :: nat where "strm_size = 24"
definition name_flags :: nat where "name_flags = 1"
definition name_unicode_0_14 :: nat where "name_unicode_0_14 = 2"

lemmas strm_layout = strm_type_def strm_flags_def strm_name_len_def strm_name_hash_def strm_valid_size_def
  strm_start_clu_def strm_size_def
lemmas name_layout = name_flags_def name_unicode_0_14_def

lemmas layouts = dos_layout ext_layout file_layout strm_layout name_layout

section \<open>Attributes, entry types, time modes\<close>

definition ATTR_READONLY :: u32 where "ATTR_READONLY = 0x0001"
definition ATTR_VOLUME :: u32 where "ATTR_VOLUME = 0x0008"
definition ATTR_SUBDIR :: u32 where "ATTR_SUBDIR = 0x0010"
definition ATTR_ARCHIVE :: u32 where "ATTR_ARCHIVE = 0x0020"
definition ATTR_SYMLINK :: u32 where "ATTR_SYMLINK = 0x0040"
definition ATTR_EXTEND :: u32 where "ATTR_EXTEND = 0x000F"

lemmas attr_defs = ATTR_READONLY_def ATTR_VOLUME_def ATTR_SUBDIR_def ATTR_ARCHIVE_def ATTR_SYMLINK_def
  ATTR_EXTEND_def

definition TYPE_UNUSED :: u32 where "TYPE_UNUSED = 0x0000"
definition TYPE_DELETED :: u32 where "TYPE_DELETED = 0x0001"
definition TYPE_INVALID :: u32 where "TYPE_INVALID = 0x0002"
definition TYPE_CRITICAL_PRI :: u32 where "TYPE_CRITICAL_PRI = 0x0100"
definition TYPE_BITMAP :: u32 where "TYPE_BITMAP = 0x0101"
definition TYPE_UPCASE :: u32 where "TYPE_UPCASE = 0x0102"
definition TYPE_VOLUME :: u32 where "TYPE_VOLUME = 0x0103"
definition TYPE_DIR :: u32 where "TYPE_DIR = 0x0104"
definition TYPE_FILE :: u32 where "TYPE_FILE = 0x011F"
definition TYPE_SYMLINK :: u32 where "TYPE_SYMLINK = 0x015F"
definition TYPE_CRITICAL_SEC :: u32 where "TYPE_CRITICAL_SEC = 0x0200"
definition TYPE_STREAM :: u32 where "TYPE_STREAM = 0x0201"
definition TYPE_EXTEND :: u32 where "TYPE_EXTEND = 0x0202"
definition TYPE_ACL :: u32 where "TYPE_ACL = 0x0203"
definition TYPE_BENIGN_PRI :: u32 where "TYPE_BENIGN_PRI = 0x0400"
definition TYPE_GUID :: u32 where "TYPE_GUID = 0x0401"
definition TYPE_PADDING :: u32 where "TYPE_PADDING = 0x0402"
definition TYPE_ACLTAB :: u32 where "TYPE_ACLTAB = 0x0403"
definition TYPE_BENIGN_SEC :: u32 where "TYPE_BENIGN_SEC = 0x0800"
definition TYPE_ALL :: u32 where "TYPE_ALL = 0x0FFF"

lemmas type_defs = TYPE_UNUSED_def TYPE_DELETED_def TYPE_INVALID_def TYPE_CRITICAL_PRI_def TYPE_BITMAP_def
  TYPE_UPCASE_def TYPE_VOLUME_def TYPE_DIR_def TYPE_FILE_def TYPE_SYMLINK_def TYPE_CRITICAL_SEC_def
  TYPE_STREAM_def TYPE_EXTEND_def TYPE_ACL_def TYPE_BENIGN_PRI_def TYPE_GUID_def TYPE_PADDING_def
  TYPE_ACLTAB_def TYPE_BENIGN_SEC_def TYPE_ALL_def

datatype time_mode = TM_CREATE | TM_MODIFY | TM_ACCESS

section \<open>Entry types\<close>

definition fat_get_entry_type :: "u8 list \<Rightarrow> u32" where
  "fat_get_entry_type ep =
     (if ep ! dos_name = 0x0 then TYPE_UNUSED
      else if ep ! dos_name = 0xE5 then TYPE_DELETED
      else if ucast (ep ! dos_attr) = ATTR_EXTEND then TYPE_EXTEND
      else if ucast (ep ! dos_attr) AND (ATTR_SUBDIR OR ATTR_VOLUME) = ATTR_VOLUME then TYPE_VOLUME
      else if ucast (ep ! dos_attr) AND (ATTR_SUBDIR OR ATTR_VOLUME) = ATTR_SUBDIR then TYPE_DIR
      else TYPE_FILE)"

definition exfat_get_entry_type :: "u8 list \<Rightarrow> u32" where
  "exfat_get_entry_type ep =
     (let t = ep ! file_type in
      if t = 0x0 then TYPE_UNUSED
      else if t < 0x80 then TYPE_DELETED
      else if t = 0x80 then TYPE_INVALID
      else if t < 0xA0 then
        (if t = 0x81 then TYPE_BITMAP
         else if t = 0x82 then TYPE_UPCASE
         else if t = 0x83 then TYPE_VOLUME
         else if t = 0x85 then
           (if ucast (GET16 ep file_attr) AND ATTR_SUBDIR \<noteq> 0 then TYPE_DIR else TYPE_FILE)
         else TYPE_CRITICAL_PRI)
      else if t < 0xC0 then
        (if t = 0xA0 then TYPE_GUID
         else if t = 0xA1 then TYPE_PADDING
         else if t = 0xA2 then TYPE_ACLTAB
         else TYPE_BENIGN_PRI)
      else if t < 0xE0 then
        (if t = 0xC0 then TYPE_STREAM
         else if t = 0xC1 then TYPE_EXTEND
         else if t = 0xC2 then TYPE_ACL
         else TYPE_CRITICAL_SEC)
      else TYPE_BENIGN_SEC)"

definition fat_set_entry_type :: "u8 list \<Rightarrow> u32 \<Rightarrow> u8 list" where
  "fat_set_entry_type ep type =
     (if type = TYPE_UNUSED then ep[dos_name := 0x0]
      else if type = TYPE_DELETED then ep[dos_name := 0xE5]
      else if type = TYPE_EXTEND then ep[dos_attr := ucast ATTR_EXTEND]
      else if type = TYPE_DIR then ep[dos_attr := ucast ATTR_SUBDIR]
      else if type = TYPE_FILE then ep[dos_attr := ucast ATTR_ARCHIVE]
      else if type = TYPE_SYMLINK then ep[dos_attr := ucast (ATTR_ARCHIVE OR ATTR_SYMLINK)]
      else ep)"

definition exfat_set_entry_type :: "u8 list \<Rightarrow> u32 \<Rightarrow> u8 list" where
  "exfat_set_entry_type ep type =
     (if type = TYPE_UNUSED then ep[file_type := 0x0]
      else if type = TYPE_DELETED then ep[file_type := (ep ! file_type) AND NOT 0x80]
      else if type = TYPE_STREAM then ep[file_type := 0xC0]
      else if type = TYPE_EXTEND then ep[file_type := 0xC1]
      else if type = TYPE_BITMAP then ep[file_type := 0x81]
      else if type = TYPE_UPCASE then ep[file_type := 0x82]
      else if type = TYPE_VOLUME then ep[file_type := 0x83]
      else if type = TYPE_DIR then SET16 (ep[file_type := 0x85]) file_attr (ucast ATTR_SUBDIR)
      else if type = TYPE_FILE then SET16 (ep[file_type := 0x85]) file_attr (ucast ATTR_ARCHIVE)
      else if type = TYPE_SYMLINK then
        SET16 (ep[file_type := 0x85]) file_attr (ucast (ATTR_ARCHIVE OR ATTR_SYMLINK))
      else ep)"

section \<open>Attribute, flag, first cluster, size\<close>

definition fat_get_entry_attr :: "u8 list \<Rightarrow> u32" where
  "fat_get_entry_attr ep = ucast (ep ! dos_attr)"

definition exfat_get_entry_attr :: "u8 list \<Rightarrow> u32" where
  "exfat_get_entry_attr ep = ucast (GET16 ep file_attr)"

definition fat_set_entry_attr :: "u8 list \<Rightarrow> u32 \<Rightarrow> u8 list" where
  "fat_set_entry_attr ep attr = ep[dos_attr := ucast attr]"

definition exfat_set_entry_attr :: "u8 list \<Rightarrow> u32 \<Rightarrow> u8 list" where
  "exfat_set_entry_attr ep attr = SET16 ep file_attr (ucast attr)"

definition fat_get_entry_flag :: "u8 list \<Rightarrow> u8" where
  "fat_get_entry_flag ep = 0x01"

definition exfat_get_entry_flag :: "u8 list \<Rightarrow> u8" where
  "exfat_get_entry_flag ep = ep ! strm_flags"

definition fat_set_entry_flag :: "u8 list \<Rightarrow> u8 \<Rightarrow> u8 list" where
  "fat_set_entry_flag ep flags = ep"

definition exfat_set_entry_flag :: "u8 list \<Rightarrow> u8 \<Rightarrow> u8 list" where
  "exfat_set_entry_flag ep flags = ep[strm_flags := flags]"

definition fat_get_entry_clu0 :: "u8 list \<Rightarrow> u32" where
  "fat_get_entry_clu0 ep =
     push_bit 16 (ucast (GET16 ep dos_start_clu_hi)) OR ucast (GET16 ep dos_start_clu_lo)"

definition exfat_get_entry_clu0 :: "u8 list \<Rightarrow> u32" where
  "exfat_get_entry_clu0 ep = GET32 ep strm_start_clu"

definition fat_set_entry_clu0 :: "u8 list \<Rightarrow> u32 \<Rightarrow> u8 list" where
  "fat_set_entry_clu0 ep start_clu =
     SET16 (SET16 ep dos_start_clu_lo (ucast start_clu)) dos_start_clu_hi (ucast (drop_bit 16 start_clu))"

definition exfat_set_entry_clu0 :: "u8 list \<Rightarrow> u32 \<Rightarrow> u8 list" where
  "exfat_set_entry_clu0 ep start_clu = SET32 ep strm_start_clu start_clu"

definition fat_get_entry_size :: "u8 list \<Rightarrow> u64" where
  "fat_get_entry_size ep = ucast (GET32 ep dos_size)"

definition exfat_get_entry_size :: "u8 list \<Rightarrow> u64" where
  "exfat_get_entry_size ep = GET64 ep strm_valid_size"

definition fat_set_entry_size :: "u8 list \<Rightarrow> u64 \<Rightarrow> u8 list" where
  "fat_set_entry_size ep sz = SET32 ep dos_size (ucast sz)"

definition exfat_set_entry_size :: "u8 list \<Rightarrow> u64 \<Rightarrow> u8 list" where
  "exfat_set_entry_size ep sz = SET64 (SET64 ep strm_valid_size sz) strm_size sz"

section \<open>Timestamps\<close>

text \<open>The unpacking and packing that the four time functions share.\<close>

definition unpack_time :: "u16 \<Rightarrow> u16 \<Rightarrow> TIMESTAMP_T" where
  "unpack_time t d = \<lparr>tm_sec = push_bit 1 (t AND 0x001F), tm_min = drop_bit 5 t AND 0x003F,
     tm_hour = drop_bit 11 t, tm_day = d AND 0x001F, tm_mon = drop_bit 5 d AND 0x000F,
     tm_year = drop_bit 9 d\<rparr>"

definition pack_time :: "TIMESTAMP_T \<Rightarrow> u16" where
  "pack_time tp = push_bit 11 (tm_hour tp) OR push_bit 5 (tm_min tp) OR drop_bit 1 (tm_sec tp)"

definition pack_date :: "TIMESTAMP_T \<Rightarrow> u16" where
  "pack_date tp = push_bit 9 (tm_year tp) OR push_bit 5 (tm_mon tp) OR tm_day tp"

definition fat_get_entry_time :: "u8 list \<Rightarrow> time_mode \<Rightarrow> TIMESTAMP_T" where
  "fat_get_entry_time ep mode =
     (let (t, d) = (case mode of
          TM_CREATE \<Rightarrow> (GET16 ep dos_create_time, GET16 ep dos_create_date)
        | TM_MODIFY \<Rightarrow> (GET16 ep dos_modify_time, GET16 ep dos_modify_date)
        | TM_ACCESS \<Rightarrow> (0x00, 0x21))
      in unpack_time t d)"

definition exfat_get_entry_time :: "u8 list \<Rightarrow> time_mode \<Rightarrow> TIMESTAMP_T" where
  "exfat_get_entry_time ep mode =
     (let (t, d) = (case mode of
          TM_CREATE \<Rightarrow> (GET16 ep file_create_time, GET16 ep file_create_date)
        | TM_MODIFY \<Rightarrow> (GET16 ep file_modify_time, GET16 ep file_modify_date)
        | TM_ACCESS \<Rightarrow> (GET16 ep file_access_time, GET16 ep file_access_date))
      in unpack_time t d)"

definition fat_set_entry_time :: "u8 list \<Rightarrow> TIMESTAMP_T \<Rightarrow> time_mode \<Rightarrow> u8 list" where
  "fat_set_entry_time ep tp mode =
     (let t = pack_time tp; d = pack_date tp in
      case mode of
        TM_CREATE \<Rightarrow> SET16 (SET16 ep dos_create_time t) dos_create_date d
      | TM_MODIFY \<Rightarrow> SET16 (SET16 ep dos_modify_time t) dos_modify_date d
      | TM_ACCESS \<Rightarrow> ep)"

definition exfat_set_entry_time :: "u8 list \<Rightarrow> TIMESTAMP_T \<Rightarrow> time_mode \<Rightarrow> u8 list" where
  "exfat_set_entry_time ep tp mode =
     (let t = pack_time tp; d = pack_date tp in
      case mode of
        TM_CREATE \<Rightarrow> SET16 (SET16 ep file_create_time t) file_create_date d
      | TM_MODIFY \<Rightarrow> SET16 (SET16 ep file_modify_time t) file_modify_date d
      | TM_ACCESS \<Rightarrow> SET16 (SET16 ep file_access_time t) file_access_date d)"

section \<open>The accessor part of the function tables\<close>

record FS_FUNC_T =
  get_entry_type :: "u8 list \<Rightarrow> u32"
  set_entry_type :: "u8 list \<Rightarrow> u32 \<Rightarrow> u8 list"
  get_entry_attr :: "u8 list \<Rightarrow> u32"
  set_entry_attr :: "u8 list \<Rightarrow> u32 \<Rightarrow> u8 list"
  get_entry_flag :: "u8 list \<Rightarrow> u8"
  set_entry_flag :: "u8 list \<Rightarrow> u8 \<Rightarrow> u8 list"
  get_entry_clu0 :: "u8 list \<Rightarrow> u32"
  set_entry_clu0 :: "u8 list \<Rightarrow> u32 \<Rightarrow> u8 list"
  get_entry_size :: "u8 list \<Rightarrow> u64"
  set_entry_size :: "u8 list \<Rightarrow> u64 \<Rightarrow> u8 list"
  get_entry_time :: "u8 list \<Rightarrow> time_mode \<Rightarrow> TIMESTAMP_T"
  set_entry_time :: "u8 list \<Rightarrow> TIMESTAMP_T \<Rightarrow> time_mode \<Rightarrow> u8 list"

definition fat_fs_func :: FS_FUNC_T where
  "fat_fs_func = \<lparr>
     get_entry_type = fat_get_entry_type, set_entry_type = fat_set_entry_type,
     get_entry_attr = fat_get_entry_attr, set_entry_attr = fat_set_entry_attr,
     get_entry_flag = fat_get_entry_flag, set_entry_flag = fat_set_entry_flag,
     get_entry_clu0 = fat_get_entry_clu0, set_entry_clu0 = fat_set_entry_clu0,
     get_entry_size = fat_get_entry_size, set_entry_size = fat_set_entry_size,
     get_entry_time = fat_get_entry_time, set_entry_time = fat_set_entry_time\<rparr>"

definition exfat_fs_func :: FS_FUNC_T where
  "exfat_fs_func = \<lparr>
     get_entry_type = exfat_get_entry_type, set_entry_type = exfat_set_entry_type,
     get_entry_attr = exfat_get_entry_attr, set_entry_attr = exfat_set_entry_attr,
     get_entry_flag = exfat_get_entry_flag, set_entry_flag = exfat_set_entry_flag,
     get_entry_clu0 = exfat_get_entry_clu0, set_entry_clu0 = exfat_set_entry_clu0,
     get_entry_size = exfat_get_entry_size, set_entry_size = exfat_set_entry_size,
     get_entry_time = exfat_get_entry_time, set_entry_time = exfat_set_entry_time\<rparr>"

section \<open>Initialising entries\<close>

text \<open>\<open>tp\<close> is the timestamp that \<^verbatim>\<open>tm_current\<close> returns at the call.\<close>

definition init_dos_entry :: "u8 list \<Rightarrow> u32 \<Rightarrow> u32 \<Rightarrow> TIMESTAMP_T \<Rightarrow> u8 list" where
  "init_dos_entry ep type start_clu tp =
     (let ep = fat_set_entry_type ep type;
          ep = SET16 ep dos_start_clu_lo (ucast start_clu);
          ep = SET16 ep dos_start_clu_hi (ucast (drop_bit 16 start_clu));
          ep = SET32 ep dos_size 0;
          ep = fat_set_entry_time ep tp TM_CREATE;
          ep = fat_set_entry_time ep tp TM_MODIFY;
          ep = SET16 ep dos_access_date 0
      in ep[dos_create_time_ms := 0])"

definition init_file_entry :: "u8 list \<Rightarrow> u32 \<Rightarrow> TIMESTAMP_T \<Rightarrow> u8 list" where
  "init_file_entry ep type tp =
     (let ep = exfat_set_entry_type ep type;
          ep = exfat_set_entry_time ep tp TM_CREATE;
          ep = exfat_set_entry_time ep tp TM_MODIFY;
          ep = exfat_set_entry_time ep tp TM_ACCESS
      in ep[file_create_time_ms := 0, file_modify_time_ms := 0, file_access_time_ms := 0])"

definition init_strm_entry :: "u8 list \<Rightarrow> u8 \<Rightarrow> u32 \<Rightarrow> u64 \<Rightarrow> u8 list" where
  "init_strm_entry ep flags start_clu sz =
     (let ep = exfat_set_entry_type ep TYPE_STREAM;
          ep = ep[strm_flags := flags];
          ep = SET32 ep strm_start_clu start_clu;
          ep = SET64 ep strm_valid_size sz
      in SET64 ep strm_size sz)"

text \<open>
  One loop of \<^verbatim>\<open>init_ext_entry\<close>: \<open>n\<close> code units are stored from offset \<open>off\<close> on; \<open>k\<close> is the distance the
  pointer \<^verbatim>\<open>uniname\<close> has moved and \<open>fin\<close> the flag \<^verbatim>\<open>end\<close>.
\<close>

fun put_units :: "nat \<Rightarrow> nat \<Rightarrow> u16 list \<Rightarrow> u8 list \<times> nat \<times> bool \<Rightarrow> u8 list \<times> nat \<times> bool" where
  "put_units 0 off uni st = st"
| "put_units (Suc n) off uni (ep, k, fin) =
     put_units n (off + 2) uni
       (if \<not> fin then
          (if uni ! k = 0x0 then (SET16 ep off (uni ! k), k, True)
           else (SET16 ep off (uni ! k), k + 1, False))
        else (SET16 ep off 0xFFFF, k, True))"

definition init_ext_entry :: "u8 list \<Rightarrow> s32 \<Rightarrow> u8 \<Rightarrow> u16 list \<Rightarrow> u8 list" where
  "init_ext_entry ep order chksum uniname =
     (let ep = fat_set_entry_type ep TYPE_EXTEND;
          ep = ep[ext_order := word_of_int order, ext_sysid := 0, ext_checksum := chksum];
          ep = SET16 ep ext_start_clu 0;
          st = put_units 5 ext_unicode_0_4 uniname (ep, 0, False);
          st = put_units 6 ext_unicode_5_10 uniname st;
          st = put_units 2 ext_unicode_11_12 uniname st
      in fst st)"

text \<open>The loop of \<^verbatim>\<open>init_name_entry\<close>: it stops after storing the terminating zero.\<close>

fun put_name_units :: "nat \<Rightarrow> nat \<Rightarrow> u16 list \<Rightarrow> nat \<Rightarrow> u8 list \<Rightarrow> u8 list" where
  "put_name_units 0 off uni k ep = ep"
| "put_name_units (Suc n) off uni k ep =
     (let ep = SET16 ep off (uni ! k)
      in if uni ! k = 0x0 then ep else put_name_units n (off + 2) uni (k + 1) ep)"

definition init_name_entry :: "u8 list \<Rightarrow> u16 list \<Rightarrow> u8 list" where
  "init_name_entry ep uniname =
     (let ep = exfat_set_entry_type ep TYPE_EXTEND;
          ep = ep[name_flags := 0x0]
      in put_name_units 15 name_unicode_0_14 uniname 0 ep)"

section \<open>Extracting names\<close>

text \<open>
  One loop of the extraction functions: \<open>n\<close> code units at \<open>off\<close> are copied to the array \<open>dst\<close> from index
  \<open>b\<close> on; \<open>len\<close> units have been copied so far and \<open>fin\<close> says that the function has returned.
\<close>

fun get_units :: "nat \<Rightarrow> nat \<Rightarrow> u8 list \<Rightarrow> nat \<Rightarrow> u16 list \<times> nat \<times> bool \<Rightarrow> u16 list \<times> nat \<times> bool" where
  "get_units 0 off ep b st = st"
| "get_units (Suc n) off ep b (dst, len, fin) =
     (if fin then (dst, len, fin)
      else let u = GET16 ep off; dst = dst[b + len := u]
           in if u = 0x0 then (dst, len, True)
              else get_units n (off + 2) ep b (dst, len + 1, False))"

definition extract_uni_name_from_ext_entry ::
  "u8 list \<Rightarrow> u16 list \<Rightarrow> nat \<Rightarrow> s32 \<Rightarrow> u16 list \<times> nat" where
  "extract_uni_name_from_ext_entry ep dst b order =
     (let st = get_units 5 ext_unicode_0_4 ep b (dst, 0, False);
          st = (if order < 20
                then get_units 2 ext_unicode_11_12 ep b (get_units 6 ext_unicode_5_10 ep b st)
                else get_units 4 ext_unicode_5_10 ep b st)
      in case st of (dst, len, fin) \<Rightarrow>
           (if fin then dst else dst[b + len := 0x0], len))"

definition extract_uni_name_from_name_entry ::
  "u8 list \<Rightarrow> u16 list \<Rightarrow> nat \<Rightarrow> s32 \<Rightarrow> u16 list \<times> nat" where
  "extract_uni_name_from_name_entry ep dst b order =
     (case get_units 15 name_unicode_0_14 ep b (dst, 0, False) of (dst, len, fin) \<Rightarrow>
        (if fin then dst else dst[b + len := 0x0], len))"

section \<open>Number of entries of a name\<close>

definition fat_calc_num_entries :: "u8 \<Rightarrow> s32" where
  "fat_calc_num_entries name_len =
     (let len = uint name_len in if len = 0 then 0 else (len - 1) div 13 + 2)"

definition exfat_calc_num_entries :: "u8 \<Rightarrow> s32" where
  "exfat_calc_num_entries name_len =
     (let len = uint name_len in if len = 0 then 0 else (len - 1) div 15 + 3)"

end
