(* ===== verification/Device.thy ===== *)
theory Device
  imports Dentry
begin

text \<open>
  The volume state and the sector layer: \<^verbatim>\<open>exfat_blkdev.c\<close> and the functions \<^verbatim>\<open>sector_read\<close>, \<^verbatim>\<open>sector_write\<close>,
  \<^verbatim>\<open>fs_error\<close>, \<^verbatim>\<open>fs_set_vol_flags\<close>, \<^verbatim>\<open>fs_sync\<close> and \<^verbatim>\<open>clear_cluster\<close> of \<^verbatim>\<open>exfat_core.c\<close>.

  The kernel's block layer is part of the state: the kernel keeps one buffer per block, so a \<^verbatim>\<open>buffer_head\<close>
  pointer is the number of its block, \<open>bufs\<close> holds the contents of all buffers (what was read from the medium and
  what was changed since), \<open>dirty\<close> the dirty marks.  Whether an operation that may fail (reading or writing a
  block, allocating memory) succeeds is read from an arbitrary sequence \<open>env_ok\<close> of answers.  Reference counts
  (\<^verbatim>\<open>brelse\<close>) have no effect on any of this and are left out.

  The ghost field \<open>ub\<close> is set where the C code would follow a null pointer, run outside an array or not terminate;
  \<open>panicked\<close> is set by \<^verbatim>\<open>panic\<close>.  After either nothing is claimed.
\<close>

section \<open>The state\<close>

datatype err_mode = ERRORS_CONT | ERRORS_PANIC | ERRORS_RO

text \<open>The two function tables \<^verbatim>\<open>&fat_fs_func\<close> and \<^verbatim>\<open>&exfat_fs_func\<close>.\<close>

datatype fs_kind = FatOps | ExfatOps

fun ops :: "fs_kind \<Rightarrow> FS_FUNC_T" where
  "ops FatOps = fat_fs_func"
| "ops ExfatOps = exfat_fs_func"

record CHAIN_T =
  chain_dir :: u32
  chain_size :: s32
  chain_flags :: u8

record UENTRY_T =
  ue_dir :: u32
  ue_entry :: s32
  ue_clu :: CHAIN_T

text \<open>
  \<^verbatim>\<open>BUF_CACHE_T\<close> without its list pointers, and the two cache structures of \<^verbatim>\<open>FS_INFO_T\<close>: a \<open>cref\<close> points to a
  cache slot, to a hash-list head or to the LRU list head; the list pointers are functions on \<open>cref\<close>.
\<close>

record BUF_CACHE_T =
  bc_drv :: u32
  bc_sec :: u32
  bc_flag :: u32
  buf_bh :: "u32 option"

datatype cref = CSlot nat | CHash nat | CLru

record CACHE =
  lru_next :: "cref \<Rightarrow> cref"
  lru_prev :: "cref \<Rightarrow> cref"
  hash_next :: "cref \<Rightarrow> cref"
  hash_prev :: "cref \<Rightarrow> cref"
  slot :: "cref \<Rightarrow> BUF_CACHE_T"

text \<open>The kernel's side.\<close>

record kernel =
  bufs :: "u32 \<Rightarrow> u8 list"
  dirty :: "u32 \<Rightarrow> bool"
  env_ok :: "nat \<Rightarrow> bool"
  env_pos :: nat
  dev_block_size :: u32
  dev_size :: u64
  s_blocksize :: u32
  rdonly :: bool
  sb_dirty :: bool
  panicked :: bool
  ub :: bool

text \<open>\<^verbatim>\<open>BD_INFO_T\<close>, the mount option \<^verbatim>\<open>errors\<close> and the debug flag \<^verbatim>\<open>EXFAT_DEBUGFLAGS_ERROR_RW\<close>.\<close>

record bd_info = kernel +
  opened :: bool
  sector_size :: u32
  sector_size_bits :: nat
  sector_size_mask :: u32
  bd_num_sectors :: u32
  errors_opt :: err_mode
  debug_error_rw :: bool

text \<open>\<^verbatim>\<open>FS_INFO_T\<close>.  The drive number is the zero of the allocation; no code ever sets it.\<close>

record vol = bd_info +
  fs_drv :: u32
  vol_type :: u32
  vol_id :: u32
  num_sectors :: u32
  num_clusters :: u32
  cluster_size :: u32
  cluster_size_bits :: nat
  sectors_per_clu :: u32
  sectors_per_clu_bits :: nat
  PBR_sector :: u32
  FAT1_start_sector :: u32
  FAT2_start_sector :: u32
  root_start_sector :: u32
  data_start_sector :: u32
  num_FAT_sectors :: u32
  root_dir :: u32
  dentries_in_root :: u32
  dentries_per_clu :: u32
  vol_flag :: u32
  pbr_bh :: "u32 option"
  map_clu :: u32
  map_sectors :: u32
  vol_amap :: "(nat \<Rightarrow> u32 option) option"
  vol_utbl :: "(nat \<Rightarrow> u16 list option) option"
  clu_srch_ptr :: u32
  used_clusters :: u32
  hint_uentry :: UENTRY_T
  dev_ejected :: bool
  fs_func :: fs_kind
  FAT_cache :: CACHE
  buf_cache :: CACHE

type_synonym 'a fsM = "(vol, 'a) state"

definition set_ub :: "unit fsM" where
  "set_ub = modify (\<lambda>s. s\<lparr>ub := True\<rparr>)"

section \<open>The block layer\<close>

definition next_env :: "bool fsM" where
  "next_env = do {
     s \<leftarrow> gets id;
     _ \<leftarrow> modify (\<lambda>s. s\<lparr>env_pos := env_pos s + 1\<rparr>);
     ret (env_ok s (env_pos s)) }"

text \<open>\<^verbatim>\<open>__bread\<close> and \<^verbatim>\<open>__getblk\<close> of one block.\<close>

definition bread :: "u32 \<Rightarrow> u32 option fsM" where
  "bread blk = do { ok \<leftarrow> next_env; ret (if ok then Some blk else None) }"

definition mark_buffer_dirty :: "u32 \<Rightarrow> unit fsM" where
  "mark_buffer_dirty b = modify (\<lambda>s. s\<lparr>dirty := (dirty s)(b := True)\<rparr>)"

definition sync_dirty_buffer :: "u32 \<Rightarrow> bool fsM" where
  "sync_dirty_buffer b = do {
     d \<leftarrow> gets (\<lambda>s. dirty s b);
     if d then do {
       ok \<leftarrow> next_env;
       _ \<leftarrow> whenM ok (modify (\<lambda>s. s\<lparr>dirty := (dirty s)(b := False)\<rparr>));
       ret ok }
     else ret True }"

section \<open>exfat\_blkdev.c\<close>

fun ilog2 :: "nat \<Rightarrow> nat" where
  "ilog2 n = (if n < 2 then 0 else Suc (ilog2 (n div 2)))"

declare ilog2.simps [simp del]

definition bdev_init :: "s32 fsM" where
  "bdev_init = ret FFS_SUCCESS"

definition bdev_shutdown :: "s32 fsM" where
  "bdev_shutdown = ret FFS_SUCCESS"

definition bdev_open :: "s32 fsM" where
  "bdev_open = do {
     o1 \<leftarrow> gets opened;
     if o1 then ret FFS_SUCCESS
     else do {
       _ \<leftarrow> modify (\<lambda>s. s\<lparr>sector_size := dev_block_size s\<rparr>);
       _ \<leftarrow> modify (\<lambda>s. s\<lparr>sector_size_bits := ilog2 (unat (sector_size s))\<rparr>);
       _ \<leftarrow> modify (\<lambda>s. s\<lparr>sector_size_mask := sector_size s - 1\<rparr>);
       _ \<leftarrow> modify (\<lambda>s. s\<lparr>bd_num_sectors := ucast (drop_bit (sector_size_bits s) (dev_size s))\<rparr>);
       _ \<leftarrow> modify (\<lambda>s. s\<lparr>opened := True\<rparr>);
       ret FFS_SUCCESS } }"

definition bdev_close :: "s32 fsM" where
  "bdev_close = do {
     o1 \<leftarrow> gets opened;
     if \<not> o1 then ret FFS_SUCCESS
     else do { _ \<leftarrow> modify (\<lambda>s. s\<lparr>opened := False\<rparr>); ret FFS_SUCCESS } }"

text \<open>
  One sector (\<^verbatim>\<open>num_secs\<close> is 1 at every call).  The pointer \<^verbatim>\<open>*bh\<close> is a parameter and a result; for the buffer
  contents of the model it makes no difference whether the block is read or only looked up.
\<close>

definition bdev_read :: "u32 \<Rightarrow> u32 option \<Rightarrow> bool \<Rightarrow> (s32 \<times> u32 option) fsM" where
  "bdev_read secno bh rd = do {
     s \<leftarrow> gets id;
     if debug_error_rw s then ret (FFS_MEDIAERR, bh)
     else if \<not> opened s then ret (FFS_MEDIAERR, bh)
     else do {
       bh \<leftarrow> bread secno;
       case bh of
         Some b \<Rightarrow> ret (FFS_SUCCESS, Some b)
       | None \<Rightarrow> ret (FFS_MEDIAERR, None) } }"

definition bdev_write :: "u32 \<Rightarrow> u32 \<Rightarrow> bool \<Rightarrow> s32 fsM" where
  "bdev_write secno bh sync = do {
     s \<leftarrow> gets id;
     if debug_error_rw s then ret FFS_MEDIAERR
     else if \<not> opened s then ret FFS_MEDIAERR
     else if secno = bh then do {
       _ \<leftarrow> mark_buffer_dirty bh;
       ok \<leftarrow> (if sync then sync_dirty_buffer bh else ret True);
       if \<not> ok then ret FFS_MEDIAERR else ret FFS_SUCCESS }
     else do {
       bh2 \<leftarrow> bread secno;
       case bh2 of
         None \<Rightarrow> ret FFS_MEDIAERR
       | Some b2 \<Rightarrow> do {
           _ \<leftarrow> modify (\<lambda>s. s\<lparr>bufs := (bufs s)(b2 := bufs s bh)\<rparr>);
           _ \<leftarrow> mark_buffer_dirty b2;
           ok \<leftarrow> (if sync then sync_dirty_buffer b2 else ret True);
           if \<not> ok then ret FFS_MEDIAERR else ret FFS_SUCCESS } } }"

text \<open>\<^verbatim>\<open>sync_blockdev\<close> writes every dirty buffer; with a failure some of them stay dirty.\<close>

definition bdev_sync :: "s32 fsM" where
  "bdev_sync = do {
     s \<leftarrow> gets id;
     if debug_error_rw s then ret FFS_MEDIAERR
     else if \<not> opened s then ret FFS_MEDIAERR
     else do {
       ok \<leftarrow> next_env;
       if ok then do { _ \<leftarrow> modify (\<lambda>s. s\<lparr>dirty := (\<lambda>_. False)\<rparr>); ret 0 } else ret (-5) } }"

section \<open>Sectors\<close>

definition fs_error :: "unit fsM" where
  "fs_error = do {
     s \<leftarrow> gets id;
     if errors_opt s = ERRORS_PANIC then modify (\<lambda>s. s\<lparr>panicked := True\<rparr>)
     else if errors_opt s = ERRORS_RO \<and> \<not> rdonly s then modify (\<lambda>s. s\<lparr>rdonly := True\<rparr>)
     else ret () }"

definition out_of_range :: "u32 \<Rightarrow> vol \<Rightarrow> bool" where
  "out_of_range sec s \<longleftrightarrow> sec \<ge> PBR_sector s + num_sectors s \<and> num_sectors s > 0"

definition sector_read :: "u32 \<Rightarrow> u32 option \<Rightarrow> bool \<Rightarrow> (s32 \<times> u32 option) fsM" where
  "sector_read sec bh rd = do {
     s \<leftarrow> gets id;
     if out_of_range sec s then do { _ \<leftarrow> fs_error; ret (FFS_MEDIAERR, bh) }
     else if \<not> dev_ejected s then do {
       (r, bh) \<leftarrow> bdev_read sec bh rd;
       _ \<leftarrow> whenM (r \<noteq> FFS_SUCCESS) (modify (\<lambda>s. s\<lparr>dev_ejected := True\<rparr>));
       ret (r, bh) }
     else ret (FFS_MEDIAERR, bh) }"

definition sector_write :: "u32 \<Rightarrow> u32 option \<Rightarrow> bool \<Rightarrow> s32 fsM" where
  "sector_write sec bh sync = do {
     s \<leftarrow> gets id;
     if out_of_range sec s then do { _ \<leftarrow> fs_error; ret FFS_MEDIAERR }
     else case bh of
       None \<Rightarrow> do { _ \<leftarrow> fs_error; ret FFS_MEDIAERR }
     | Some b \<Rightarrow>
         if \<not> dev_ejected s then do {
           r \<leftarrow> bdev_write sec b sync;
           _ \<leftarrow> whenM (r \<noteq> FFS_SUCCESS) (modify (\<lambda>s. s\<lparr>dev_ejected := True\<rparr>));
           ret r }
         else ret FFS_MEDIAERR }"

section \<open>Volume flags, sync, clearing a cluster\<close>

definition VOL_CLEAN :: u32 where "VOL_CLEAN = 0x0000"
definition VOL_DIRTY :: u32 where "VOL_DIRTY = 0x0002"

text \<open>\<^verbatim>\<open>PBR_SECTOR_T.bpb\<close> starts at byte 11, \<^verbatim>\<open>BPBEX_T.vol_flags\<close> at byte 95 of it.\<close>

definition bpb_off :: nat where "bpb_off = 11"
definition bpbex_vol_flags :: nat where "bpbex_vol_flags = 95"

definition set_buf :: "u32 \<Rightarrow> (u8 list \<Rightarrow> u8 list) \<Rightarrow> unit fsM" where
  "set_buf b f = modify (\<lambda>s. s\<lparr>bufs := (bufs s)(b := f (bufs s b))\<rparr>)"

definition fs_set_vol_flags :: "u32 \<Rightarrow> unit fsM" where
  "fs_set_vol_flags new_flag = do {
     s \<leftarrow> gets id;
     if vol_flag s = new_flag then ret ()
     else do {
       _ \<leftarrow> modify (\<lambda>s. s\<lparr>vol_flag := new_flag\<rparr>);
       if vol_type s = EXFAT then do {
         r \<leftarrow> (case pbr_bh s of
                 None \<Rightarrow> do {
                   (r, bh) \<leftarrow> sector_read (PBR_sector s) None True;
                   _ \<leftarrow> modify (\<lambda>s. s\<lparr>pbr_bh := bh\<rparr>);
                   ret r }
               | Some _ \<Rightarrow> ret FFS_SUCCESS);
         if r \<noteq> FFS_SUCCESS then ret ()
         else do {
           bh \<leftarrow> gets pbr_bh;
           case bh of
             None \<Rightarrow> set_ub
           | Some b \<Rightarrow> do {
               _ \<leftarrow> set_buf b (\<lambda>p. SET16 p (bpb_off + bpbex_vol_flags) (ucast new_flag));
               d \<leftarrow> gets (\<lambda>s. dirty s b);
               _ \<leftarrow> sector_write (PBR_sector s) (Some b) (new_flag = VOL_DIRTY \<and> \<not> d);
               ret () } } }
       else ret () } }"

definition fs_sync :: "bool \<Rightarrow> unit fsM" where
  "fs_sync do_sync = whenM do_sync (do { _ \<leftarrow> bdev_sync; ret () })"

definition set_sb_dirty :: "unit fsM" where
  "set_sb_dirty = modify (\<lambda>s. s\<lparr>sb_dirty := True\<rparr>)"

definition START_SECTOR :: "u32 \<Rightarrow> vol \<Rightarrow> u32" where
  "START_SECTOR x s = push_bit (sectors_per_clu_bits s) (x - 2) + data_start_sector s"

text \<open>The loop of \<^verbatim>\<open>clear_cluster\<close>, for the sectors \<open>s, s + 1, \<dots>\<close>; \<open>n\<close> of them are left.\<close>

fun clear_sectors :: "nat \<Rightarrow> u32 \<Rightarrow> u32 option \<Rightarrow> s32 fsM" where
  "clear_sectors 0 sct bh = ret FFS_SUCCESS"
| "clear_sectors (Suc n) sct bh = do {
     (r, bh) \<leftarrow> sector_read sct bh False;
     if r \<noteq> FFS_SUCCESS then ret r
     else case bh of
       None \<Rightarrow> do { _ \<leftarrow> set_ub; ret FFS_MEDIAERR }
     | Some b \<Rightarrow> do {
         sz \<leftarrow> gets sector_size;
         _ \<leftarrow> set_buf b (\<lambda>p. replicate (unat sz) 0 @ drop (unat sz) p);
         r \<leftarrow> sector_write sct (Some b) False;
         if r \<noteq> FFS_SUCCESS then ret r else clear_sectors n (sct + 1) (Some b) } }"

definition clear_cluster :: "u32 \<Rightarrow> s32 fsM" where
  "clear_cluster clu = do {
     s \<leftarrow> gets id;
     let (a, n) = (if clu = 0 then (root_start_sector s, data_start_sector s)
                   else (START_SECTOR clu s, START_SECTOR clu s + sectors_per_clu s));
     clear_sectors (if a < n then unat (n - a) else 0) a None }"

end
