(* ===== verification/Cache.thy ===== *)
theory Cache
  imports Device
begin

text \<open>
  The two sector caches of \<^verbatim>\<open>exfat_cache.c\<close>, the FAT cache and the buffer cache, with their intrusive doubly
  linked lists: one LRU list through all slots and a list per hash bucket.  The functions come in pairs that differ
  only in the cache they work on (and in the victim search, which respects \<^verbatim>\<open>LOCKBIT\<close> in the buffer cache); the
  argument \<open>w\<close> says which cache is meant.  Loops over a list carry a bound of one step more than there are
  slots; a walk that exceeds it has left the list, and sets \<open>ub\<close>.
\<close>

section \<open>The caches\<close>

definition FAT_CACHE_SIZE :: nat where "FAT_CACHE_SIZE = 128"
definition FAT_CACHE_HASH_SIZE :: nat where "FAT_CACHE_HASH_SIZE = 64"
definition BUF_CACHE_SIZE :: nat where "BUF_CACHE_SIZE = 256"
definition BUF_CACHE_HASH_SIZE :: nat where "BUF_CACHE_HASH_SIZE = 64"

definition LOCKBIT :: u32 where "LOCKBIT = 0x01"
definition DIRTYBIT :: u32 where "DIRTYBIT = 0x02"

lemmas cache_consts = FAT_CACHE_SIZE_def FAT_CACHE_HASH_SIZE_def BUF_CACHE_SIZE_def BUF_CACHE_HASH_SIZE_def
  LOCKBIT_def DIRTYBIT_def

datatype which = FATC | BUFC

fun cache :: "which \<Rightarrow> vol \<Rightarrow> CACHE" where
  "cache FATC s = FAT_cache s"
| "cache BUFC s = buf_cache s"

fun set_cache :: "which \<Rightarrow> CACHE \<Rightarrow> vol \<Rightarrow> vol" where
  "set_cache FATC c s = s\<lparr>FAT_cache := c\<rparr>"
| "set_cache BUFC c s = s\<lparr>buf_cache := c\<rparr>"

fun cache_size :: "which \<Rightarrow> nat" where
  "cache_size FATC = FAT_CACHE_SIZE"
| "cache_size BUFC = BUF_CACHE_SIZE"

fun hash_size :: "which \<Rightarrow> nat" where
  "hash_size FATC = FAT_CACHE_HASH_SIZE"
| "hash_size BUFC = BUF_CACHE_HASH_SIZE"

definition upd_cache :: "which \<Rightarrow> (CACHE \<Rightarrow> CACHE) \<Rightarrow> unit fsM" where
  "upd_cache w f = modify (\<lambda>s. set_cache w (f (cache w s)) s)"

definition upd_slot :: "which \<Rightarrow> cref \<Rightarrow> (BUF_CACHE_T \<Rightarrow> BUF_CACHE_T) \<Rightarrow> unit fsM" where
  "upd_slot w bp f = upd_cache w (\<lambda>c. c\<lparr>slot := (slot c)(bp := f (slot c bp))\<rparr>)"

section \<open>Link operations\<close>

text \<open>
  The assignments of \<^verbatim>\<open>push_to_mru\<close> (and of the hash insertion) for a pair of pointer fields \<open>n\<close>, \<open>p\<close>;
  \<^verbatim>\<open>push_to_lru\<close> is the same with the fields exchanged.
\<close>

definition ins_after :: "'a \<Rightarrow> 'a \<Rightarrow> ('a \<Rightarrow> 'a) \<times> ('a \<Rightarrow> 'a) \<Rightarrow> ('a \<Rightarrow> 'a) \<times> ('a \<Rightarrow> 'a)" where
  "ins_after x h = (\<lambda>(n, p).
     let n = n(x := n h); p = p(x := h); p = p(n h := x); n = n(h := x) in (n, p))"

definition unlink :: "'a \<Rightarrow> ('a \<Rightarrow> 'a) \<times> ('a \<Rightarrow> 'a) \<Rightarrow> ('a \<Rightarrow> 'a) \<times> ('a \<Rightarrow> 'a)" where
  "unlink x = (\<lambda>(n, p). let n = n(p x := n x); p = p(n x := p x) in (n, p))"

definition push_to_mru :: "cref \<Rightarrow> CACHE \<Rightarrow> CACHE" where
  "push_to_mru bp c = (case ins_after bp CLru (lru_next c, lru_prev c) of (n, p) \<Rightarrow> c\<lparr>lru_next := n, lru_prev := p\<rparr>)"

definition push_to_lru :: "cref \<Rightarrow> CACHE \<Rightarrow> CACHE" where
  "push_to_lru bp c = (case ins_after bp CLru (lru_prev c, lru_next c) of (p, n) \<Rightarrow> c\<lparr>lru_next := n, lru_prev := p\<rparr>)"

definition lru_unlink :: "cref \<Rightarrow> CACHE \<Rightarrow> CACHE" where
  "lru_unlink bp c = (case unlink bp (lru_next c, lru_prev c) of (n, p) \<Rightarrow> c\<lparr>lru_next := n, lru_prev := p\<rparr>)"

definition move_to_mru :: "cref \<Rightarrow> CACHE \<Rightarrow> CACHE" where
  "move_to_mru bp c = push_to_mru bp (lru_unlink bp c)"

definition move_to_lru :: "cref \<Rightarrow> CACHE \<Rightarrow> CACHE" where
  "move_to_lru bp c = push_to_lru bp (lru_unlink bp c)"

section \<open>Hash lists\<close>

definition hash_off :: "which \<Rightarrow> nat \<Rightarrow> u32 \<Rightarrow> nat" where
  "hash_off w bits sct = unat ((sct + drop_bit bits sct) AND (of_nat (hash_size w) - 1))"

definition insert_hash_at :: "nat \<Rightarrow> cref \<Rightarrow> CACHE \<Rightarrow> CACHE" where
  "insert_hash_at off bp c =
     (case ins_after bp (CHash off) (hash_next c, hash_prev c) of (n, p) \<Rightarrow> c\<lparr>hash_next := n, hash_prev := p\<rparr>)"

definition cache_insert_hash :: "which \<Rightarrow> cref \<Rightarrow> unit fsM" where
  "cache_insert_hash w bp = do {
     s \<leftarrow> gets id;
     upd_cache w (\<lambda>c. insert_hash_at (hash_off w (sectors_per_clu_bits s) (bc_sec (slot c bp))) bp c) }"

definition remove_hash :: "cref \<Rightarrow> CACHE \<Rightarrow> CACHE" where
  "remove_hash bp c =
     (case unlink bp (hash_next c, hash_prev c) of (n, p) \<Rightarrow> c\<lparr>hash_next := n, hash_prev := p\<rparr>)"

definition cache_remove_hash :: "which \<Rightarrow> cref \<Rightarrow> unit fsM" where
  "cache_remove_hash w bp = upd_cache w (remove_hash bp)"

text \<open>
  The search loop; \<open>None\<close>: more steps than there are slots; \<open>Some None\<close>: back at the head \<open>hp\<close>.
\<close>

fun hash_walk :: "nat \<Rightarrow> CACHE \<Rightarrow> u32 \<Rightarrow> u32 \<Rightarrow> cref \<Rightarrow> cref \<Rightarrow> cref option option" where
  "hash_walk 0 c d sct hp bp = None"
| "hash_walk (Suc k) c d sct hp bp =
     (if bp = hp then Some None
      else if bc_drv (slot c bp) = d \<and> bc_sec (slot c bp) = sct then Some (Some bp)
      else hash_walk k c d sct hp (hash_next c bp))"

definition cache_find :: "which \<Rightarrow> u32 \<Rightarrow> cref option fsM" where
  "cache_find w sct = do {
     s \<leftarrow> gets id;
     let c = cache w s;
     let hp = CHash (hash_off w (sectors_per_clu_bits s) sct);
     case hash_walk (cache_size w + 1) c (fs_drv s) sct hp (hash_next c hp) of
       None \<Rightarrow> do { _ \<leftarrow> set_ub; ret None }
     | Some None \<Rightarrow> ret None
     | Some (Some bp) \<Rightarrow> do {
         _ \<leftarrow> whenM (buf_bh (slot c bp) = None) set_ub;
         ret (Some bp) } }"

section \<open>Victims\<close>

definition FAT_cache_get :: "cref fsM" where
  "FAT_cache_get = do {
     bp \<leftarrow> gets (\<lambda>s. lru_prev (FAT_cache s) CLru);
     _ \<leftarrow> upd_cache FATC (move_to_mru bp);
     ret bp }"

fun unlocked_walk :: "nat \<Rightarrow> CACHE \<Rightarrow> cref \<Rightarrow> cref option" where
  "unlocked_walk 0 c bp = None"
| "unlocked_walk (Suc k) c bp =
     (if bc_flag (slot c bp) AND LOCKBIT \<noteq> 0 then unlocked_walk k c (lru_prev c bp) else Some bp)"

definition buf_cache_get :: "cref fsM" where
  "buf_cache_get = do {
     c \<leftarrow> gets buf_cache;
     case unlocked_walk (BUF_CACHE_SIZE + 2) c (lru_prev c CLru) of
       None \<Rightarrow> do { _ \<leftarrow> set_ub; ret CLru }
     | Some bp \<Rightarrow> do {
         _ \<leftarrow> upd_cache BUFC (move_to_mru bp);
         ret bp } }"

fun cache_get :: "which \<Rightarrow> cref fsM" where
  "cache_get FATC = FAT_cache_get"
| "cache_get BUFC = buf_cache_get"

section \<open>Getting a block\<close>

text \<open>\<^verbatim>\<open>FAT_getblk\<close> and \<^verbatim>\<open>__buf_getblk\<close>: the pointer to the data of a buffer is the number of its block.\<close>

definition cache_getblk :: "which \<Rightarrow> u32 \<Rightarrow> u32 option fsM" where
  "cache_getblk w sct = do {
     f \<leftarrow> cache_find w sct;
     case f of
       Some bp \<Rightarrow> do {
         _ \<leftarrow> upd_cache w (move_to_mru bp);
         gets (\<lambda>s. buf_bh (slot (cache w s) bp)) }
     | None \<Rightarrow> do {
         bp \<leftarrow> cache_get w;
         _ \<leftarrow> cache_remove_hash w bp;
         d \<leftarrow> gets fs_drv;
         _ \<leftarrow> upd_slot w bp (\<lambda>b. b\<lparr>bc_drv := d, bc_sec := sct, bc_flag := 0\<rparr>);
         _ \<leftarrow> cache_insert_hash w bp;
         bh \<leftarrow> gets (\<lambda>s. buf_bh (slot (cache w s) bp));
         (r, bh) \<leftarrow> sector_read sct bh True;
         _ \<leftarrow> upd_slot w bp (\<lambda>b. b\<lparr>buf_bh := bh\<rparr>);
         if r \<noteq> FFS_SUCCESS then do {
           _ \<leftarrow> cache_remove_hash w bp;
           _ \<leftarrow> upd_slot w bp (\<lambda>b. b\<lparr>bc_drv := -1, bc_sec := -1, bc_flag := 0, buf_bh := None\<rparr>);
           _ \<leftarrow> upd_cache w (move_to_lru bp);
           ret None }
         else ret bh } }"

definition FAT_getblk :: "u32 \<Rightarrow> u32 option fsM" where
  "FAT_getblk = cache_getblk FATC"

definition buf_getblk :: "u32 \<Rightarrow> u32 option fsM" where
  "buf_getblk = cache_getblk BUFC"

section \<open>Writing, locking, releasing\<close>

definition cache_modify :: "which \<Rightarrow> u32 \<Rightarrow> unit fsM" where
  "cache_modify w sct = do {
     f \<leftarrow> cache_find w sct;
     case f of
       None \<Rightarrow> ret ()
     | Some bp \<Rightarrow> do {
         bh \<leftarrow> gets (\<lambda>s. buf_bh (slot (cache w s) bp));
         _ \<leftarrow> sector_write sct bh False;
         ret () } }"

definition FAT_modify :: "u32 \<Rightarrow> unit fsM" where
  "FAT_modify = cache_modify FATC"

definition buf_modify :: "u32 \<Rightarrow> unit fsM" where
  "buf_modify = cache_modify BUFC"

definition buf_lock :: "u32 \<Rightarrow> unit fsM" where
  "buf_lock sct = do {
     f \<leftarrow> cache_find BUFC sct;
     case f of
       None \<Rightarrow> ret ()
     | Some bp \<Rightarrow> upd_slot BUFC bp (\<lambda>b. b\<lparr>bc_flag := bc_flag b OR LOCKBIT\<rparr>) }"

definition buf_unlock :: "u32 \<Rightarrow> unit fsM" where
  "buf_unlock sct = do {
     f \<leftarrow> cache_find BUFC sct;
     case f of
       None \<Rightarrow> ret ()
     | Some bp \<Rightarrow> upd_slot BUFC bp (\<lambda>b. b\<lparr>bc_flag := bc_flag b AND NOT LOCKBIT\<rparr>) }"

definition buf_release :: "u32 \<Rightarrow> unit fsM" where
  "buf_release sct = do {
     f \<leftarrow> cache_find BUFC sct;
     case f of
       None \<Rightarrow> ret ()
     | Some bp \<Rightarrow> do {
         _ \<leftarrow> upd_slot BUFC bp (\<lambda>b. b\<lparr>bc_drv := -1, bc_sec := -1, bc_flag := 0, buf_bh := None\<rparr>);
         upd_cache BUFC (move_to_lru bp) } }"

text \<open>The walks over the whole LRU list.\<close>

fun lru_walk :: "nat \<Rightarrow> which \<Rightarrow> (cref \<Rightarrow> unit fsM) \<Rightarrow> cref \<Rightarrow> unit fsM" where
  "lru_walk 0 w f bp = set_ub"
| "lru_walk (Suc k) w f bp =
     (if bp = CLru then ret ()
      else do {
        _ \<leftarrow> f bp;
        nxt \<leftarrow> gets (\<lambda>s. lru_next (cache w s) bp);
        lru_walk k w f nxt })"

definition cache_release_all :: "which \<Rightarrow> unit fsM" where
  "cache_release_all w = do {
     bp \<leftarrow> gets (\<lambda>s. lru_next (cache w s) CLru);
     lru_walk (cache_size w + 1) w
       (\<lambda>bp. do {
          s \<leftarrow> gets id;
          whenM (bc_drv (slot (cache w s) bp) = fs_drv s)
            (upd_slot w bp (\<lambda>b. b\<lparr>bc_drv := -1, bc_sec := -1, bc_flag := 0, buf_bh := None\<rparr>)) }) bp }"

definition cache_sync :: "which \<Rightarrow> unit fsM" where
  "cache_sync w = do {
     bp \<leftarrow> gets (\<lambda>s. lru_next (cache w s) CLru);
     lru_walk (cache_size w + 1) w
       (\<lambda>bp. do {
          s \<leftarrow> gets id;
          let b = slot (cache w s) bp;
          whenM (bc_drv b = fs_drv s \<and> bc_flag b AND DIRTYBIT \<noteq> 0)
            (case buf_bh b of
               None \<Rightarrow> set_ub
             | Some bh \<Rightarrow> do {
                 _ \<leftarrow> sync_dirty_buffer bh;
                 upd_slot w bp (\<lambda>b. b\<lparr>bc_flag := bc_flag b AND NOT DIRTYBIT\<rparr>) }) }) bp }"

definition FAT_release_all :: "unit fsM" where "FAT_release_all = cache_release_all FATC"
definition buf_release_all :: "unit fsM" where "buf_release_all = cache_release_all BUFC"
definition FAT_sync :: "unit fsM" where "FAT_sync = cache_sync FATC"
definition buf_sync :: "unit fsM" where "buf_sync = cache_sync BUFC"

section \<open>Initialisation\<close>

text \<open>One slot of the array loops of \<^verbatim>\<open>buf_init\<close>.\<close>

definition init_slot :: "nat \<Rightarrow> CACHE \<Rightarrow> CACHE" where
  "init_slot i c = push_to_mru (CSlot i)
     (c\<lparr>slot := (slot c)(CSlot i := \<lparr>bc_drv = -1, bc_sec = -1, bc_flag = 0, buf_bh = None\<rparr>)\<rparr>)"

definition init_head :: "nat \<Rightarrow> CACHE \<Rightarrow> CACHE" where
  "init_head k c = c\<lparr>slot := (slot c)(CHash k := (slot c (CHash k))\<lparr>bc_drv := -1, bc_sec := -1\<rparr>),
     hash_next := (hash_next c)(CHash k := CHash k), hash_prev := (hash_prev c)(CHash k := CHash k)\<rparr>"

definition init_cache :: "which \<Rightarrow> nat \<Rightarrow> CACHE \<Rightarrow> CACHE" where
  "init_cache w bits c =
     (let c = c\<lparr>lru_next := (lru_next c)(CLru := CLru), lru_prev := (lru_prev c)(CLru := CLru)\<rparr>;
          c = fold init_slot [0..<cache_size w] c;
          c = fold init_head [0..<hash_size w] c
      in fold (\<lambda>i c. insert_hash_at (hash_off w bits (bc_sec (slot c (CSlot i)))) (CSlot i) c) [0..<cache_size w] c)"

definition buf_init :: "s32 fsM" where
  "buf_init = do {
     bits \<leftarrow> gets sectors_per_clu_bits;
     _ \<leftarrow> upd_cache FATC (init_cache FATC bits);
     _ \<leftarrow> upd_cache BUFC (init_cache BUFC bits);
     ret FFS_SUCCESS }"

definition buf_shutdown :: "s32 fsM" where
  "buf_shutdown = ret FFS_SUCCESS"

end
