(* ===== verification/Fat.thy ===== *)
theory Fat
  imports Cache
begin

text \<open>
  The file allocation table: \<^verbatim>\<open>__FAT_read\<close> and \<^verbatim>\<open>__FAT_write\<close> of \<^verbatim>\<open>exfat_cache.c\<close> (and the public wrappers, which
  only add a semaphore) for the four FAT widths.  A result \<open>None\<close> stands for the return value \<open>-1\<close>.
\<close>

definition fat12_pos :: "u32 \<Rightarrow> u32" where
  "fat12_pos loc = loc + drop_bit 1 loc"

text \<open>Sector and byte offset of an entry; \<open>k\<close> is the logarithm of the entry's size.\<close>

definition fat_sec :: "nat \<Rightarrow> u32 \<Rightarrow> vol \<Rightarrow> u32" where
  "fat_sec k loc s = FAT1_start_sector s + drop_bit (sector_size_bits s - k) loc"

definition fat_off :: "nat \<Rightarrow> u32 \<Rightarrow> vol \<Rightarrow> nat" where
  "fat_off k loc s = unat (push_bit k loc AND sector_size_mask s)"

definition get_byte :: "u32 \<Rightarrow> nat \<Rightarrow> u8 fsM" where
  "get_byte b i = gets (\<lambda>s. bufs s b ! i)"

definition fat12_read :: "u32 \<Rightarrow> u32 option fsM" where
  "fat12_read loc = do {
     s \<leftarrow> gets id;
     let sct = FAT1_start_sector s + drop_bit (sector_size_bits s) (fat12_pos loc);
     let off = unat (fat12_pos loc AND sector_size_mask s);
     v \<leftarrow> (if off = unat (sector_size s) - 1 then do {
              fs1 \<leftarrow> FAT_getblk sct;
              case fs1 of None \<Rightarrow> ret None
              | Some b1 \<Rightarrow> do {
                  lo \<leftarrow> get_byte b1 off;
                  fs2 \<leftarrow> FAT_getblk (sct + 1);
                  case fs2 of None \<Rightarrow> ret None
                  | Some b2 \<Rightarrow> do {
                      hi \<leftarrow> get_byte b2 0;
                      ret (Some (ucast lo OR push_bit 8 (ucast hi))) } } }
            else do {
              fs1 \<leftarrow> FAT_getblk sct;
              case fs1 of None \<Rightarrow> ret None
              | Some b1 \<Rightarrow> gets (\<lambda>s. Some (ucast (GET16 (bufs s b1) off))) });
     case v of None \<Rightarrow> ret None
     | Some (c :: u32) \<Rightarrow> do {
         let c = (if loc AND 1 \<noteq> 0 then drop_bit 4 c else c) AND 0x00000FFF;
         ret (Some (if c \<ge> 0x0FF8 then CLU_EOF else c)) } }"

definition fat16_read :: "u32 \<Rightarrow> u32 option fsM" where
  "fat16_read loc = do {
     s \<leftarrow> gets id;
     fs1 \<leftarrow> FAT_getblk (fat_sec 1 loc s);
     case fs1 of None \<Rightarrow> ret None
     | Some b \<Rightarrow> do {
         v \<leftarrow> gets (\<lambda>s'. GET16 (bufs s' b) (fat_off 1 loc s));
         let c = ucast v AND 0x0000FFFF;
         ret (Some (if c \<ge> 0xFFF8 then CLU_EOF else c)) } }"

definition fat32_read :: "u32 \<Rightarrow> u32 option fsM" where
  "fat32_read loc = do {
     s \<leftarrow> gets id;
     fs1 \<leftarrow> FAT_getblk (fat_sec 2 loc s);
     case fs1 of None \<Rightarrow> ret None
     | Some b \<Rightarrow> do {
         v \<leftarrow> gets (\<lambda>s'. GET32 (bufs s' b) (fat_off 2 loc s));
         let c = v AND 0x0FFFFFFF;
         ret (Some (if c \<ge> 0x0FFFFFF8 then CLU_EOF else c)) } }"

definition exfat_FAT_read :: "u32 \<Rightarrow> u32 option fsM" where
  "exfat_FAT_read loc = do {
     s \<leftarrow> gets id;
     fs1 \<leftarrow> FAT_getblk (fat_sec 2 loc s);
     case fs1 of None \<Rightarrow> ret None
     | Some b \<Rightarrow> do {
         c \<leftarrow> gets (\<lambda>s'. GET32 (bufs s' b) (fat_off 2 loc s));
         ret (Some (if c \<ge> 0xFFFFFFF8 then CLU_EOF else c)) } }"

definition FAT_read :: "u32 \<Rightarrow> u32 option fsM" where
  "FAT_read loc = do {
     t \<leftarrow> gets vol_type;
     if t = FAT12 then fat12_read loc
     else if t = FAT16 then fat16_read loc
     else if t = FAT32 then fat32_read loc
     else exfat_FAT_read loc }"

text \<open>
  \<^verbatim>\<open>__FAT_write\<close> for FAT12.  In the even case on a sector boundary the second \<^verbatim>\<open>FAT_getblk\<close> is used without the
  test for a null pointer.
\<close>

definition fat12_write :: "u32 \<Rightarrow> u32 \<Rightarrow> unit option fsM" where
  "fat12_write loc content = do {
     s \<leftarrow> gets id;
     let c = content AND 0x00000FFF;
     let sct = FAT1_start_sector s + drop_bit (sector_size_bits s) (fat12_pos loc);
     let off = unat (fat12_pos loc AND sector_size_mask s);
     fs1 \<leftarrow> FAT_getblk sct;
     case fs1 of None \<Rightarrow> ret None
     | Some b1 \<Rightarrow>
         if loc AND 1 \<noteq> 0 then do {
           let c = push_bit 4 c;
           if off = unat (sector_size s) - 1 then do {
             _ \<leftarrow> set_buf b1 (\<lambda>p. p[off := ucast (c OR ucast ((p ! off) AND 0x0F))]);
             _ \<leftarrow> FAT_modify sct;
             fs2 \<leftarrow> FAT_getblk (sct + 1);
             case fs2 of None \<Rightarrow> ret None
             | Some b2 \<Rightarrow> do {
                 _ \<leftarrow> set_buf b2 (\<lambda>p. p[0 := ucast (drop_bit 8 c)]);
                 _ \<leftarrow> FAT_modify (sct + 1);
                 ret (Some ()) } }
           else do {
             _ \<leftarrow> set_buf b1 (\<lambda>p. SET16 p off (ucast (c OR ucast (GET16 p off AND 0x000F))));
             _ \<leftarrow> FAT_modify sct;
             ret (Some ()) } }
         else do {
           _ \<leftarrow> set_buf b1 (\<lambda>p. p[off := ucast c]);
           if off = unat (sector_size s) - 1 then do {
             _ \<leftarrow> set_buf b1 (\<lambda>p. p[off := ucast c]);
             _ \<leftarrow> FAT_modify sct;
             fs2 \<leftarrow> FAT_getblk (sct + 1);
             case fs2 of None \<Rightarrow> do { _ \<leftarrow> set_ub; ret None }
             | Some b2 \<Rightarrow> do {
                 _ \<leftarrow> set_buf b2 (\<lambda>p. p[0 := ucast (ucast ((p ! 0) AND 0xF0) OR drop_bit 8 c)]);
                 _ \<leftarrow> FAT_modify (sct + 1);
                 ret (Some ()) } }
           else do {
             _ \<leftarrow> set_buf b1 (\<lambda>p. SET16 p off (ucast (c OR ucast (GET16 p off AND 0xF000))));
             _ \<leftarrow> FAT_modify sct;
             ret (Some ()) } } }"

text \<open>The three other widths change one aligned entry of one sector.\<close>

definition fat_write_entry :: "nat \<Rightarrow> u32 \<Rightarrow> (u8 list \<Rightarrow> nat \<Rightarrow> u8 list) \<Rightarrow> unit option fsM" where
  "fat_write_entry k loc f = do {
     s \<leftarrow> gets id;
     fs1 \<leftarrow> FAT_getblk (fat_sec k loc s);
     case fs1 of None \<Rightarrow> ret None
     | Some b \<Rightarrow> do {
         _ \<leftarrow> set_buf b (\<lambda>p. f p (fat_off k loc s));
         _ \<leftarrow> FAT_modify (fat_sec k loc s);
         ret (Some ()) } }"

definition fat16_write :: "u32 \<Rightarrow> u32 \<Rightarrow> unit option fsM" where
  "fat16_write loc content =
     fat_write_entry 1 loc (\<lambda>p off. SET16 p off (ucast (content AND 0x0000FFFF)))"

definition fat32_write :: "u32 \<Rightarrow> u32 \<Rightarrow> unit option fsM" where
  "fat32_write loc content =
     fat_write_entry 2 loc (\<lambda>p off. SET32 p off ((content AND 0x0FFFFFFF) OR (GET32 p off AND 0xF0000000)))"

definition exfat_FAT_write :: "u32 \<Rightarrow> u32 \<Rightarrow> unit option fsM" where
  "exfat_FAT_write loc content = fat_write_entry 2 loc (\<lambda>p off. SET32 p off content)"

definition FAT_write :: "u32 \<Rightarrow> u32 \<Rightarrow> unit option fsM" where
  "FAT_write loc content = do {
     t \<leftarrow> gets vol_type;
     if t = FAT12 then fat12_write loc content
     else if t = FAT16 then fat16_write loc content
     else if t = FAT32 then fat32_write loc content
     else exfat_FAT_write loc content }"

end
