(* ===== verification/AllocMap.thy ===== *)
theory AllocMap
  imports Fat Bitmap
begin

text \<open>
  The allocation bitmap of an exFAT volume (\<^verbatim>\<open>exfat_core.c\<close>): one bit per cluster, kept in the buffers
  \<^verbatim>\<open>vol_amap[0..map_sectors)\<close>.  Bit \<open>c\<close> stands for cluster \<open>c + 2\<close>.
\<close>

text \<open>The buffer of map sector \<open>i\<close>; a null pointer is followed when there is none.\<close>

definition amap_buf :: "nat \<Rightarrow> u32 option fsM" where
  "amap_buf i = gets (\<lambda>s. case vol_amap s of None \<Rightarrow> None | Some m \<Rightarrow> m i)"

definition map_index :: "u32 \<Rightarrow> vol \<Rightarrow> nat" where
  "map_index clu s = unat (drop_bit (sector_size_bits s + 3) clu)"

definition map_bit :: "u32 \<Rightarrow> vol \<Rightarrow> nat" where
  "map_bit clu s = unat (clu AND (push_bit 3 (sector_size s) - 1))"

definition set_alloc_bitmap :: "u32 \<Rightarrow> s32 fsM" where
  "set_alloc_bitmap clu = do {
     s \<leftarrow> gets id;
     let i = map_index clu s;
     let sct = START_SECTOR (map_clu s) s + of_nat i;
     bh \<leftarrow> amap_buf i;
     case bh of
       None \<Rightarrow> do { _ \<leftarrow> set_ub; ret FFS_MEDIAERR }
     | Some b \<Rightarrow> do {
         _ \<leftarrow> set_buf b (\<lambda>p. exfat_bitmap_set p (map_bit clu s));
         sector_write sct (Some b) False } }"

text \<open>The statements after the \<^verbatim>\<open>return\<close> of \<^verbatim>\<open>clr_alloc_bitmap\<close> (the discard request) are never reached.\<close>

definition clr_alloc_bitmap :: "u32 \<Rightarrow> s32 fsM" where
  "clr_alloc_bitmap clu = do {
     s \<leftarrow> gets id;
     let i = map_index clu s;
     let sct = START_SECTOR (map_clu s) s + of_nat i;
     bh \<leftarrow> amap_buf i;
     case bh of
       None \<Rightarrow> do { _ \<leftarrow> set_ub; ret FFS_MEDIAERR }
     | Some b \<Rightarrow> do {
         _ \<leftarrow> set_buf b (\<lambda>p. exfat_bitmap_clear p (map_bit clu s));
         sector_write sct (Some b) False } }"

text \<open>
  The search loop of \<^verbatim>\<open>test_alloc_bitmap\<close>; it reads only.  \<open>n\<close> is the number of turns left, the turns being
  \<open>i = 2, 10, 18, \<dots>\<close> below \<^verbatim>\<open>num_clusters\<close>; \<open>None\<close> is a null pointer.
\<close>

fun test_loop :: "nat \<Rightarrow> vol \<Rightarrow> u32 \<Rightarrow> u8 \<Rightarrow> nat \<Rightarrow> nat \<Rightarrow> u32 option" where
  "test_loop 0 s clu_base clu_mask map_i map_b = Some CLU_EOF"
| "test_loop (Suc n) s clu_base clu_mask map_i map_b =
     (case (case vol_amap s of None \<Rightarrow> None | Some m \<Rightarrow> m map_i) of
        None \<Rightarrow> None
      | Some bh \<Rightarrow>
          let k = bufs s bh ! map_b;
              (k, clu_mask) = (if clu_mask > 0 then (k OR clu_mask, 0) else (k, clu_mask));
              clu_free = clu_base + of_nat (free_bit ! unat k)
          in if k < 0xFF \<and> clu_free < num_clusters s then Some clu_free
             else
               let clu_base = clu_base + 8; map_b = map_b + 1
               in if map_b \<ge> unat (sector_size s) \<or> clu_base \<ge> num_clusters s then
                    (if map_i + 1 \<ge> unat (map_sectors s) then test_loop n s 2 clu_mask 0 0
                     else test_loop n s clu_base clu_mask (map_i + 1) 0)
                  else test_loop n s clu_base clu_mask map_i map_b)"

definition test_turns :: "vol \<Rightarrow> nat" where
  "test_turns s = (unat (num_clusters s) - 2 + 7) div 8"

definition test_alloc_bitmap :: "u32 \<Rightarrow> u32 fsM" where
  "test_alloc_bitmap clu = do {
     s \<leftarrow> gets id;
     let clu_base = (clu AND NOT 0x7) + 2;
     let clu_mask = ucast (push_bit (unat (clu - clu_base + 2)) (1 :: u32) - 1);
     let map_i = unat (drop_bit (sector_size_bits s + 3) clu);
     let map_b = unat (drop_bit 3 clu AND sector_size_mask s);
     case test_loop (test_turns s) s clu_base clu_mask map_i map_b of
       None \<Rightarrow> do { _ \<leftarrow> set_ub; ret CLU_EOF }
     | Some c \<Rightarrow> ret c }"

fun sync_bufs :: "nat \<Rightarrow> nat \<Rightarrow> unit fsM" where
  "sync_bufs 0 i = ret ()"
| "sync_bufs (Suc n) i = do {
     bh \<leftarrow> amap_buf i;
     case bh of
       None \<Rightarrow> set_ub
     | Some b \<Rightarrow> do { _ \<leftarrow> sync_dirty_buffer b; sync_bufs n (i + 1) } }"

definition sync_alloc_bitmap :: "unit fsM" where
  "sync_alloc_bitmap = do {
     s \<leftarrow> gets id;
     if vol_amap s = None then ret () else sync_bufs (unat (map_sectors s)) 0 }"

text \<open>\<^verbatim>\<open>__brelse\<close> of each map buffer: the array is read for every map sector.\<close>

definition free_alloc_bitmap :: "unit fsM" where
  "free_alloc_bitmap = do {
     s \<leftarrow> gets id;
     _ \<leftarrow> whenM (map_sectors s \<noteq> 0 \<and>
            (case vol_amap s of None \<Rightarrow> True | Some m \<Rightarrow> \<exists>i \<in> {..<unat (map_sectors s)}. m i = None)) set_ub;
     modify (\<lambda>s. s\<lparr>vol_amap := None\<rparr>) }"

section \<open>Counting\<close>

fun count_loop :: "nat \<Rightarrow> vol \<Rightarrow> nat \<Rightarrow> nat \<Rightarrow> nat option" where
  "count_loop 0 s map_i map_b = Some 0"
| "count_loop (Suc n) s map_i map_b =
     (case (case vol_amap s of None \<Rightarrow> None | Some m \<Rightarrow> m map_i) of
        None \<Rightarrow> None
      | Some bh \<Rightarrow>
          map_option ((+) (used_bit ! unat (bufs s bh ! map_b)))
            (if map_b + 1 \<ge> unat (sector_size s) then count_loop n s (map_i + 1) 0
             else count_loop n s map_i (map_b + 1)))"

definition exfat_count_used_clusters :: "s32 fsM" where
  "exfat_count_used_clusters = do {
     s \<leftarrow> gets id;
     case count_loop (test_turns s) s 0 0 of
       None \<Rightarrow> do { _ \<leftarrow> set_ub; ret 0 }
     | Some n \<Rightarrow> ret (int n) }"

end
