(* ===== verification/Cluster.thy ===== *)
theory Cluster
  imports AllocMap
begin

text \<open>
  Cluster management of \<^verbatim>\<open>exfat_core.c\<close>: allocation, release and the walks over cluster chains.  A loop over a FAT
  chain ends only when the chain does.  Such a loop takes at most \<open>CHAIN_FUEL\<close> steps here; a walk that takes more
  has met one of the \<open>2 ^ 32\<close> cluster numbers twice and never ends in C, which sets \<open>ub\<close>.
\<close>

definition CHAIN_FUEL :: nat where "CHAIN_FUEL = 2 ^ 32 + 4"

type_synonym chain_result = "s32 \<times> CHAIN_T"

section \<open>FAT12, FAT16, FAT32\<close>

text \<open>
  The loop of \<^verbatim>\<open>fat_alloc_cluster\<close>: \<open>n\<close> turns are left (\<^verbatim>\<open>i = 2, \<dots>, num_clusters - 1\<close>), \<open>left\<close> clusters are still
  wanted, \<open>num\<close> have been found.
\<close>

fun fat_alloc_loop :: "nat \<Rightarrow> s32 \<Rightarrow> u32 \<Rightarrow> u32 \<Rightarrow> s32 \<Rightarrow> CHAIN_T \<Rightarrow> chain_result fsM" where
  "fat_alloc_loop 0 left new_clu last_clu num ch = do {
     _ \<leftarrow> modify (\<lambda>s. s\<lparr>clu_srch_ptr := new_clu\<rparr>);
     _ \<leftarrow> modify (\<lambda>s. if used_clusters s \<noteq> -1 then s\<lparr>used_clusters := used_clusters s + of_int num\<rparr> else s);
     ret (num, ch) }"
| "fat_alloc_loop (Suc n) left new_clu last_clu num ch = do {
     rd \<leftarrow> FAT_read new_clu;
     case rd of
       None \<Rightarrow> ret (-1, ch)
     | Some read_clu \<Rightarrow>
         if read_clu = 0 then do {
           w1 \<leftarrow> FAT_write new_clu CLU_EOF;
           case w1 of
             None \<Rightarrow> ret (-1, ch)
           | Some _ \<Rightarrow> do {
               w2 \<leftarrow> (if chain_dir ch = CLU_EOF then ret (Some (ch\<lparr>chain_dir := new_clu\<rparr>))
                      else do { r \<leftarrow> FAT_write last_clu new_clu; ret (map_option (\<lambda>_. ch) r) });
               case w2 of
                 None \<Rightarrow> ret (-1, ch)
               | Some ch \<Rightarrow>
                   if left - 1 = 0 then do {
                     _ \<leftarrow> modify (\<lambda>s. s\<lparr>clu_srch_ptr := new_clu\<rparr>);
                     _ \<leftarrow> modify (\<lambda>s. if used_clusters s \<noteq> -1
                            then s\<lparr>used_clusters := used_clusters s + of_int (num + 1)\<rparr> else s);
                     ret (num + 1, ch) }
                   else do {
                     nc \<leftarrow> gets num_clusters;
                     fat_alloc_loop n (left - 1) (if new_clu + 1 \<ge> nc then 2 else new_clu + 1) new_clu (num + 1) ch } } }
         else do {
           nc \<leftarrow> gets num_clusters;
           fat_alloc_loop n left (if new_clu + 1 \<ge> nc then 2 else new_clu + 1) last_clu num ch } }"

definition fat_alloc_cluster :: "s32 \<Rightarrow> CHAIN_T \<Rightarrow> chain_result fsM" where
  "fat_alloc_cluster num_alloc ch = do {
     s \<leftarrow> gets id;
     let new_clu = (if chain_dir ch = CLU_EOF then clu_srch_ptr s
                    else if chain_dir ch \<ge> num_clusters s then 2 else chain_dir ch);
     _ \<leftarrow> set_sb_dirty;
     fat_alloc_loop (unat (num_clusters s) - 2) num_alloc new_clu CLU_EOF 0 (ch\<lparr>chain_dir := CLU_EOF\<rparr>) }"

text \<open>\<^verbatim>\<open>buf_release\<close> of every sector of a cluster.\<close>

fun release_sectors :: "nat \<Rightarrow> u32 \<Rightarrow> unit fsM" where
  "release_sectors 0 sct = ret ()"
| "release_sectors (Suc n) sct = do { _ \<leftarrow> buf_release sct; release_sectors n (sct + 1) }"

definition release_cluster :: "u32 \<Rightarrow> unit fsM" where
  "release_cluster clu = do {
     s \<leftarrow> gets id;
     release_sectors (unat (sectors_per_clu s)) (START_SECTOR clu s) }"

fun fat_free_loop :: "nat \<Rightarrow> bool \<Rightarrow> u32 \<Rightarrow> s32 \<Rightarrow> s32 fsM" where
  "fat_free_loop 0 do_relse clu num = do { _ \<leftarrow> set_ub; ret num }"
| "fat_free_loop (Suc n) do_relse clu num = do {
     ej \<leftarrow> gets dev_ejected;
     if ej then ret num
     else do {
       _ \<leftarrow> whenM do_relse (release_cluster clu);
       rd \<leftarrow> FAT_read clu;
       case rd of
         None \<Rightarrow> ret num
       | Some nxt \<Rightarrow> do {
           w \<leftarrow> FAT_write clu 0;
           case w of
             None \<Rightarrow> ret num
           | Some _ \<Rightarrow> if nxt = CLU_EOF then ret (num + 1) else fat_free_loop n do_relse nxt (num + 1) } } }"

definition sub_used :: "s32 \<Rightarrow> unit fsM" where
  "sub_used num = modify (\<lambda>s. if used_clusters s \<noteq> -1 then s\<lparr>used_clusters := used_clusters s - of_int num\<rparr> else s)"

definition fat_free_cluster :: "CHAIN_T \<Rightarrow> bool \<Rightarrow> unit fsM" where
  "fat_free_cluster ch do_relse =
     (if chain_dir ch = 0 \<or> chain_dir ch = CLU_EOF then ret ()
      else do {
        _ \<leftarrow> set_sb_dirty;
        if chain_size ch \<le> 0 then ret ()
        else do {
          num \<leftarrow> fat_free_loop CHAIN_FUEL do_relse (chain_dir ch) 0;
          sub_used num } })"

fun fat_count_loop :: "nat \<Rightarrow> u32 \<Rightarrow> s32 \<Rightarrow> s32 fsM" where
  "fat_count_loop 0 i count = ret count"
| "fat_count_loop (Suc n) i count = do {
     rd \<leftarrow> FAT_read i;
     case rd of
       None \<Rightarrow> ret count
     | Some clu \<Rightarrow> fat_count_loop n (i + 1) (if clu \<noteq> 0 then count + 1 else count) }"

definition fat_count_used_clusters :: "s32 fsM" where
  "fat_count_used_clusters = do {
     s \<leftarrow> gets id;
     fat_count_loop (unat (num_clusters s) - 2) 2 0 }"

section \<open>exFAT\<close>

text \<open>\<^verbatim>\<open>exfat_chain_cont_cluster\<close>: \<open>len\<close> contiguous clusters become an explicit chain.\<close>

fun chain_cont_loop :: "nat \<Rightarrow> u32 \<Rightarrow> u32 fsM" where
  "chain_cont_loop 0 chain = ret chain"
| "chain_cont_loop (Suc n) chain = do {
     w \<leftarrow> FAT_write chain (chain + 1);
     case w of None \<Rightarrow> ret chain | Some _ \<Rightarrow> chain_cont_loop n (chain + 1) }"

definition exfat_chain_cont_cluster :: "u32 \<Rightarrow> s32 \<Rightarrow> unit fsM" where
  "exfat_chain_cont_cluster chain len =
     (if len = 0 then ret ()
      else do {
        c \<leftarrow> chain_cont_loop (nat (len - 1)) chain;
        _ \<leftarrow> FAT_write c CLU_EOF;
        ret () })"

text \<open>
  The loop of \<^verbatim>\<open>exfat_alloc_cluster\<close>.  Every turn but the last sets a clear bit of the map, so
  \<^verbatim>\<open>num_clusters\<close> turns are enough; running out of them sets \<open>ub\<close>.
\<close>

definition exfat_alloc_done :: "u32 \<Rightarrow> s32 \<Rightarrow> CHAIN_T \<Rightarrow> chain_result fsM" where
  "exfat_alloc_done hint num ch = do {
     _ \<leftarrow> modify (\<lambda>s. s\<lparr>clu_srch_ptr := hint\<rparr>);
     _ \<leftarrow> modify (\<lambda>s. if used_clusters s \<noteq> -1 then s\<lparr>used_clusters := used_clusters s + of_int num\<rparr> else s);
     ret (num, ch\<lparr>chain_size := chain_size ch + num\<rparr>) }"

fun exfat_alloc_loop :: "nat \<Rightarrow> s32 \<Rightarrow> u32 \<Rightarrow> u32 \<Rightarrow> s32 \<Rightarrow> CHAIN_T \<Rightarrow> chain_result fsM" where
  "exfat_alloc_loop 0 left hint last_clu num ch = do { _ \<leftarrow> set_ub; ret (-1, ch) }"
| "exfat_alloc_loop (Suc n) left hint last_clu num ch = do {
     new_clu \<leftarrow> test_alloc_bitmap (hint - 2);
     if new_clu = CLU_EOF then exfat_alloc_done hint num ch
     else do {
       ch \<leftarrow> (if new_clu \<noteq> hint \<and> chain_flags ch = 0x03
              then do { _ \<leftarrow> exfat_chain_cont_cluster (chain_dir ch) num; ret (ch\<lparr>chain_flags := 0x01\<rparr>) }
              else ret ch);
       r \<leftarrow> set_alloc_bitmap (new_clu - 2);
       if r \<noteq> FFS_SUCCESS then ret (-1, ch)
       else do {
         w1 \<leftarrow> (if chain_flags ch = 0x01 then FAT_write new_clu CLU_EOF else ret (Some ()));
         if w1 = None then ret (-1, ch)
         else do {
           w2 \<leftarrow> (if chain_dir ch = CLU_EOF then ret (Some (ch\<lparr>chain_dir := new_clu\<rparr>))
                  else if chain_flags ch = 0x01
                  then do { r \<leftarrow> FAT_write last_clu new_clu; ret (map_option (\<lambda>_. ch) r) }
                  else ret (Some ch));
           case w2 of
             None \<Rightarrow> ret (-1, ch)
           | Some ch \<Rightarrow>
               if left - 1 = 0 then exfat_alloc_done hint (num + 1) ch
               else do {
                 nc \<leftarrow> gets num_clusters;
                 if new_clu + 1 \<ge> nc then do {
                   ch \<leftarrow> (if chain_flags ch = 0x03
                          then do { _ \<leftarrow> exfat_chain_cont_cluster (chain_dir ch) (num + 1); ret (ch\<lparr>chain_flags := 0x01\<rparr>) }
                          else ret ch);
                   exfat_alloc_loop n (left - 1) 2 new_clu (num + 1) ch }
                 else exfat_alloc_loop n (left - 1) (new_clu + 1) new_clu (num + 1) ch } } } } }"

definition exfat_alloc_cluster :: "s32 \<Rightarrow> CHAIN_T \<Rightarrow> chain_result fsM" where
  "exfat_alloc_cluster num_alloc ch = do {
     s \<leftarrow> gets id;
     start \<leftarrow> (if chain_dir ch = CLU_EOF then do {
                 h \<leftarrow> test_alloc_bitmap (clu_srch_ptr s - 2);
                 ret (if h = CLU_EOF then None else Some (h, ch)) }
               else if chain_dir ch \<ge> num_clusters s then ret (Some (2, ch\<lparr>chain_flags := 0x01\<rparr>))
               else ret (Some (chain_dir ch, ch)));
     case start of
       None \<Rightarrow> ret (0, ch)
     | Some (hint, ch) \<Rightarrow> do {
         _ \<leftarrow> set_sb_dirty;
         exfat_alloc_loop (unat (num_clusters s) + 1) num_alloc hint CLU_EOF 0 (ch\<lparr>chain_dir := CLU_EOF\<rparr>) } }"

fun exfat_free_cont_loop :: "nat \<Rightarrow> bool \<Rightarrow> u32 \<Rightarrow> s32 \<Rightarrow> s32 fsM" where
  "exfat_free_cont_loop 0 do_relse clu num = ret num"
| "exfat_free_cont_loop (Suc n) do_relse clu num = do {
     _ \<leftarrow> whenM do_relse (release_cluster clu);
     r \<leftarrow> clr_alloc_bitmap (clu - 2);
     if r \<noteq> FFS_SUCCESS then ret num else exfat_free_cont_loop n do_relse (clu + 1) (num + 1) }"

fun exfat_free_loop :: "nat \<Rightarrow> bool \<Rightarrow> u32 \<Rightarrow> s32 \<Rightarrow> s32 fsM" where
  "exfat_free_loop 0 do_relse clu num = do { _ \<leftarrow> set_ub; ret num }"
| "exfat_free_loop (Suc n) do_relse clu num = do {
     ej \<leftarrow> gets dev_ejected;
     if ej then ret num
     else do {
       _ \<leftarrow> whenM do_relse (release_cluster clu);
       r \<leftarrow> clr_alloc_bitmap (clu - 2);
       if r \<noteq> FFS_SUCCESS then ret num
       else do {
         rd \<leftarrow> FAT_read clu;
         case rd of
           None \<Rightarrow> ret num
         | Some nxt \<Rightarrow>
             if nxt \<noteq> 0 \<and> nxt \<noteq> CLU_EOF then exfat_free_loop n do_relse nxt (num + 1) else ret (num + 1) } } }"

definition exfat_free_cluster :: "CHAIN_T \<Rightarrow> bool \<Rightarrow> unit fsM" where
  "exfat_free_cluster ch do_relse =
     (if chain_dir ch = 0 \<or> chain_dir ch = CLU_EOF then ret ()
      else if chain_size ch \<le> 0 then ret ()
      else do {
        _ \<leftarrow> set_sb_dirty;
        num \<leftarrow> (if chain_flags ch = 0x03 then exfat_free_cont_loop (nat (chain_size ch)) do_relse (chain_dir ch) 0
                else exfat_free_loop CHAIN_FUEL do_relse (chain_dir ch) 0);
        sub_used num })"

section \<open>Walks\<close>

fun last_loop :: "nat \<Rightarrow> u32 \<Rightarrow> u32 fsM" where
  "last_loop 0 clu = do { _ \<leftarrow> set_ub; ret clu }"
| "last_loop (Suc n) clu = do {
     rd \<leftarrow> FAT_read clu;
     case rd of
       None \<Rightarrow> ret clu
     | Some nxt \<Rightarrow>
         if nxt = CLU_EOF then ret clu
         else do {
           ej \<leftarrow> gets dev_ejected;
           if ej then ret clu else last_loop n nxt } }"

definition find_last_cluster :: "CHAIN_T \<Rightarrow> u32 fsM" where
  "find_last_cluster ch =
     (if chain_flags ch = 0x03 then ret (chain_dir ch + of_int (chain_size ch - 1))
      else last_loop CHAIN_FUEL (chain_dir ch))"

fun count_chain_loop :: "nat \<Rightarrow> u32 \<Rightarrow> s32 \<Rightarrow> s32 fsM" where
  "count_chain_loop 0 clu count = ret count"
| "count_chain_loop (Suc n) clu count = do {
     rd \<leftarrow> FAT_read clu;
     case rd of
       None \<Rightarrow> ret 0
     | Some nxt \<Rightarrow> if nxt = CLU_EOF then ret (count + 1) else count_chain_loop n nxt (count + 1) }"

definition count_num_clusters :: "CHAIN_T \<Rightarrow> s32 fsM" where
  "count_num_clusters ch =
     (if chain_dir ch = 0 \<or> chain_dir ch = CLU_EOF then ret 0
      else if chain_flags ch = 0x03 then ret (chain_size ch)
      else do {
        s \<leftarrow> gets id;
        count_chain_loop (unat (num_clusters s) - 2) (chain_dir ch) 0 })"

section \<open>The function table\<close>

fun alloc_cluster :: "fs_kind \<Rightarrow> s32 \<Rightarrow> CHAIN_T \<Rightarrow> chain_result fsM" where
  "alloc_cluster FatOps = fat_alloc_cluster"
| "alloc_cluster ExfatOps = exfat_alloc_cluster"

fun free_cluster :: "fs_kind \<Rightarrow> CHAIN_T \<Rightarrow> bool \<Rightarrow> unit fsM" where
  "free_cluster FatOps = fat_free_cluster"
| "free_cluster ExfatOps = exfat_free_cluster"

fun count_used_clusters :: "fs_kind \<Rightarrow> s32 fsM" where
  "count_used_clusters FatOps = fat_count_used_clusters"
| "count_used_clusters ExfatOps = exfat_count_used_clusters"

end
