(* ===== verification/Checksum.thy ===== *)
theory Checksum
  imports Bytes
begin

text \<open>
  The three rolling checksums of \<^verbatim>\<open>exfat_core.c\<close> (\<^verbatim>\<open>calc_checksum_1byte/2byte/4byte\<close>): rotate right by one
  bit, add the next byte.  The 2-byte checksum of a directory entry set skips bytes 2 and 3 (where the checksum
  itself is stored), the 4-byte checksum of a boot sector skips bytes 106, 107 and 112.
\<close>

definition CS_DIR_ENTRY :: s32 where "CS_DIR_ENTRY = 0"
definition CS_PBR_SECTOR :: s32 where "CS_PBR_SECTOR = 1"
definition CS_DEFAULT :: s32 where "CS_DEFAULT = 2"

lemmas cs_types = CS_DIR_ENTRY_def CS_PBR_SECTOR_def CS_DEFAULT_def

section \<open>One step\<close>

definition step1 :: "u8 \<Rightarrow> u8 \<Rightarrow> u8" where
  "step1 c b = (push_bit 7 (c AND 1) OR drop_bit 1 (c AND 0xFE)) + b"

definition step2 :: "u16 \<Rightarrow> u8 \<Rightarrow> u16" where
  "step2 c b = (push_bit 15 (c AND 1) OR drop_bit 1 (c AND 0xFFFE)) + ucast b"

definition step4 :: "u32 \<Rightarrow> u8 \<Rightarrow> u32" where
  "step4 c b = (push_bit 31 (c AND 1) OR drop_bit 1 (c AND 0xFFFFFFFE)) + ucast b"

section \<open>The loops\<close>

text \<open>
  \<^verbatim>\<open>for (i = 0; i < len; i++, c++)\<close> over the first \<open>len\<close> bytes at \<open>data\<close>; \<open>skip i\<close> is the \<^verbatim>\<open>continue\<close> of the
  loop body.
\<close>

fun sum_loop :: "('a \<Rightarrow> u8 \<Rightarrow> 'a) \<Rightarrow> (nat \<Rightarrow> bool) \<Rightarrow> nat \<Rightarrow> u8 list \<Rightarrow> 'a \<Rightarrow> 'a" where
  "sum_loop step skip i [] c = c"
| "sum_loop step skip i (b # bs) c =
     sum_loop step skip (Suc i) bs (if skip i then c else step c b)"

definition calc_checksum_1byte :: "u8 list \<Rightarrow> nat \<Rightarrow> u8 \<Rightarrow> u8" where
  "calc_checksum_1byte data len chksum = sum_loop step1 (\<lambda>i. False) 0 (take len data) chksum"

definition calc_checksum_2byte :: "u8 list \<Rightarrow> nat \<Rightarrow> u16 \<Rightarrow> s32 \<Rightarrow> u16" where
  "calc_checksum_2byte data len chksum type =
     (if type = CS_DIR_ENTRY
      then sum_loop step2 (\<lambda>i. i = 2 \<or> i = 3) 0 (take len data) chksum
      else sum_loop step2 (\<lambda>i. False) 0 (take len data) chksum)"

definition calc_checksum_4byte :: "u8 list \<Rightarrow> nat \<Rightarrow> u32 \<Rightarrow> s32 \<Rightarrow> u32" where
  "calc_checksum_4byte data len chksum type =
     (if type = CS_PBR_SECTOR
      then sum_loop step4 (\<lambda>i. i = 106 \<or> i = 107 \<or> i = 112) 0 (take len data) chksum
      else sum_loop step4 (\<lambda>i. False) 0 (take len data) chksum)"

lemma sum_loop_no_skip: "sum_loop step (\<lambda>i. False) i xs c = sum_loop step (\<lambda>i. False) 0 xs c"
  by (induction xs arbitrary: i c) (auto, metis)

section \<open>What a rolling checksum detects\<close>

text \<open>
  Any step that is injective in the accumulator and in the byte gives a checksum that changes whenever exactly
  one summed byte changes, and that can be computed in pieces.
\<close>

locale rolling_checksum =
  fixes step :: "'a \<Rightarrow> u8 \<Rightarrow> 'a"
  assumes step_acc: "step c b = step c' b \<Longrightarrow> c = c'"
    and step_byte: "step c b = step c b' \<Longrightarrow> b = b'"
begin

lemma loop_append:
  "sum_loop step skip i (xs @ ys) c = sum_loop step skip (i + length xs) ys (sum_loop step skip i xs c)"
  by (induction xs arbitrary: i c) auto

lemma loop_acc_inj: "sum_loop step skip i xs c = sum_loop step skip i xs c' \<Longrightarrow> c = c'"
proof (induction xs arbitrary: i c c')
  case Nil
  then show ?case by simp
next
  case (Cons x xs)
  from Cons.IH [OF Cons.prems [unfolded sum_loop.simps]] show ?case
    by (auto split: if_splits dest: step_acc)
qed

lemma loop_detects:
  assumes "\<not> skip (i + length xs)"
    and "sum_loop step skip i (xs @ x # ys) c = sum_loop step skip i (xs @ y # ys) c"
  shows "x = y"
  using assms by (auto simp: loop_append dest!: loop_acc_inj step_byte)

lemma loop_update_detects:
  assumes "k < length bs" "\<not> skip k" "b \<noteq> bs ! k"
  shows "sum_loop step skip 0 (bs[k := b]) c \<noteq> sum_loop step skip 0 bs c"
proof
  assume eq: "sum_loop step skip 0 (bs[k := b]) c = sum_loop step skip 0 bs c"
  have "bs[k := b] = take k bs @ b # drop (Suc k) bs" "bs = take k bs @ bs ! k # drop (Suc k) bs"
    using assms(1) by (auto simp: upd_conv_take_nth_drop id_take_nth_drop)
  with eq assms have "b = bs ! k"
    using loop_detects [of skip 0 "take k bs" b "drop (Suc k) bs" c "bs ! k"] by (simp add: min_def)
  with assms(3) show False by simp
qed

lemma loop_skip_irrelevant:
  assumes "skip (i + k)"
  shows "sum_loop step skip i (bs[k := b]) c = sum_loop step skip i bs c"
  using assms
proof (induction bs arbitrary: i k c)
  case Nil
  then show ?case by simp
next
  case (Cons x xs)
  then show ?case by (cases k) auto
qed

end

lemma rot_inj_bits:
  fixes c c' :: "'a::len word"
  assumes "\<And>n. n < LENGTH('a) \<Longrightarrow> bit (r c) n = bit c (if n = LENGTH('a) - 1 then 0 else Suc n)"
    and "\<And>n. n < LENGTH('a) \<Longrightarrow> bit (r c') n = bit c' (if n = LENGTH('a) - 1 then 0 else Suc n)"
    and "r c = r c'"
  shows "c = c'"
proof (rule bit_word_eqI)
  fix n assume n: "n < LENGTH('a)"
  show "bit c n = bit c' n"
  proof (cases n)
    case 0
    then show ?thesis using assms(1) [of "LENGTH('a) - 1"] assms(2) [of "LENGTH('a) - 1"] assms(3) by simp
  next
    case (Suc m)
    then show ?thesis using assms(1) [of m] assms(2) [of m] assms(3) n by (auto split: if_splits)
  qed
qed

lemma ucast_u8_inj:
  fixes b b' :: u8
  assumes "LENGTH('a::len) \<ge> 8"
  shows "(ucast b :: 'a word) = ucast b' \<longleftrightarrow> b = b'"
proof
  assume eq: "(ucast b :: 'a word) = ucast b'"
  show "b = b'"
  proof (rule bit_word_eqI)
    fix n assume "n < LENGTH(8)"
    then have "bit (ucast b :: 'a word) n = bit b n" "bit (ucast b' :: 'a word) n = bit b' n"
      using assms by (auto simp: bit_ucast_iff)
    with eq show "bit b n = bit b' n" by simp
  qed
qed simp

interpretation ck1: rolling_checksum step1
proof
  fix c c' b :: u8
  assume "step1 c b = step1 c' b"
  then have "push_bit 7 (c AND 1) OR drop_bit 1 (c AND 0xFE) = push_bit 7 (c' AND 1) OR drop_bit 1 (c' AND 0xFE)"
    by (simp add: step1_def)
  then show "c = c'"
    by (rule rot_inj_bits [where r = "\<lambda>c. push_bit 7 (c AND 1) OR drop_bit 1 (c AND 0xFE)", rotated 2])
       (auto simp: bit_simps mask_bits)
qed (simp add: step1_def)

interpretation ck2: rolling_checksum step2
proof
  fix c c' :: u16 and b :: u8
  assume "step2 c b = step2 c' b"
  then have "push_bit 15 (c AND 1) OR drop_bit 1 (c AND 0xFFFE) = push_bit 15 (c' AND 1) OR drop_bit 1 (c' AND 0xFFFE)"
    by (simp add: step2_def)
  then show "c = c'"
    by (rule rot_inj_bits [where r = "\<lambda>c. push_bit 15 (c AND 1) OR drop_bit 1 (c AND 0xFFFE)", rotated 2])
       (auto simp: bit_simps mask_bits)
qed (simp add: step2_def ucast_u8_inj)

interpretation ck4: rolling_checksum step4
proof
  fix c c' :: u32 and b :: u8
  assume "step4 c b = step4 c' b"
  then have "push_bit 31 (c AND 1) OR drop_bit 1 (c AND 0xFFFFFFFE) =
             push_bit 31 (c' AND 1) OR drop_bit 1 (c' AND 0xFFFFFFFE)"
    by (simp add: step4_def)
  then show "c = c'"
    by (rule rot_inj_bits [where r = "\<lambda>c. push_bit 31 (c AND 1) OR drop_bit 1 (c AND 0xFFFFFFFE)", rotated 2])
       (auto simp: bit_simps mask_bits)
qed (simp add: step4_def ucast_u8_inj)

section \<open>Properties of the driver's checksums\<close>

lemma checksum2_dir_stable:
  "calc_checksum_2byte (SET16 d 2 v) len chksum CS_DIR_ENTRY = calc_checksum_2byte d len chksum CS_DIR_ENTRY"
  by (simp add: calc_checksum_2byte_def SET16_def take_update_swap ck2.loop_skip_irrelevant)

lemma checksum2_append:
  "type \<noteq> CS_DIR_ENTRY \<Longrightarrow> length xs = n \<Longrightarrow>
     calc_checksum_2byte (xs @ ys) (n + m) chksum type =
     calc_checksum_2byte ys m (calc_checksum_2byte xs n chksum type) type"
  using sum_loop_no_skip [of step2] by (simp add: calc_checksum_2byte_def ck2.loop_append)

end
