(* ===== verification/Names.thy ===== *)
theory Names
  imports Device Bitmap Checksum
begin

text \<open>
  Name conversion of \<^verbatim>\<open>exfat_nls.c\<close> and the pure part of the name functions of \<^verbatim>\<open>exfat_core.c\<close>.  A code-unit array
  is a \<open>u16 list\<close>, a pointer into it an index.  The kernel's character-set tables (\<^verbatim>\<open>struct nls_table\<close>) and its
  UTF-8 decoder are parameters: a record \<open>nls\<close> whose functions return \<open>None\<close> where the kernel's return a negative
  length.
\<close>

record nls =
  uni2char :: "u16 \<Rightarrow> u8 list option"
  char2uni :: "u8 list \<Rightarrow> (nat \<times> u16) option"
  charset_utf8 :: bool

definition chr8 :: "char \<Rightarrow> u8" where "chr8 c = of_char c"
definition chr16 :: "char \<Rightarrow> u16" where "chr16 c = of_char c"

definition bad_dos_chars :: "u16 list" where
  "bad_dos_chars = [0x002B, 0x002C, 0x003B, 0x003D, 0x005B, 0x005D,
     0xFF0B, 0xFF0C, 0xFF1B, 0xFF1D, 0xFF3B, 0xFF3D, 0]"

definition bad_uni_chars :: "u16 list" where
  "bad_uni_chars = [0x0022, 0x002A, 0x002F, 0x003A, 0x003C, 0x003E, 0x003F, 0x005C, 0x007C, 0]"

text \<open>The literals are read as arrays of \<^verbatim>\<open>u16\<close>, with a zero unit behind the last character.\<close>

definition UNI_CUR_DIR_NAME :: "u16 list" where "UNI_CUR_DIR_NAME = [0x2E, 0]"
definition UNI_PAR_DIR_NAME :: "u16 list" where "UNI_PAR_DIR_NAME = [0x2E, 0x2E, 0]"

record DOS_NAME_T =
  dn_name :: "u8 list"
  dn_case :: u8

record UNI_NAME_T =
  un_name :: "u16 list"
  un_hash :: u16
  un_len :: u8

section \<open>Upper case\<close>

definition get_col_index :: "u16 \<Rightarrow> nat" where "get_col_index i = unat (drop_bit 8 i)"
definition get_row_index :: "u16 \<Rightarrow> nat" where "get_row_index i = unat (i AND NOT 0xFF00)"

definition nls_upper :: "bool \<Rightarrow> vol \<Rightarrow> u16 \<Rightarrow> u16" where
  "nls_upper casesensitive s a =
     (if casesensitive then a
      else case vol_utbl s of
        None \<Rightarrow> a
      | Some t \<Rightarrow> (case t (get_col_index a) of None \<Rightarrow> a | Some row \<Rightarrow> row ! get_row_index a))"

text \<open>The pointer behind the first occurrence; only whether it is null matters to the callers.\<close>

fun nls_wstrchr :: "u16 list \<Rightarrow> u16 \<Rightarrow> bool" where
  "nls_wstrchr [] w = False"
| "nls_wstrchr (c # str) w = (if c = 0 then False else if c = w then True else nls_wstrchr str w)"

section \<open>Comparing\<close>

text \<open>\<^verbatim>\<open>strncmp\<close> of at most \<open>n\<close> bytes.\<close>

fun strncmp8 :: "nat \<Rightarrow> u8 list \<Rightarrow> u8 list \<Rightarrow> nat \<Rightarrow> int" where
  "strncmp8 0 a b i = 0"
| "strncmp8 (Suc n) a b i =
     (if a ! i \<noteq> b ! i then uint (a ! i) - uint (b ! i) else if a ! i = 0 then 0 else strncmp8 n a b (i + 1))"

definition nls_dosname_cmp :: "u8 list \<Rightarrow> u8 list \<Rightarrow> int" where
  "nls_dosname_cmp a b = strncmp8 DOS_NAME_LENGTH a b 0"

text \<open>The names start at index \<open>i\<close> of \<open>a\<close> and at index \<open>j\<close> of \<open>b\<close>.\<close>

fun uniname_cmp_loop :: "nat \<Rightarrow> (u16 \<Rightarrow> u16) \<Rightarrow> u16 list \<Rightarrow> nat \<Rightarrow> u16 list \<Rightarrow> nat \<Rightarrow> s32" where
  "uniname_cmp_loop 0 up a i b j = 0"
| "uniname_cmp_loop (Suc n) up a i b j =
     (if up (a ! i) \<noteq> up (b ! j) then 1
      else if a ! i = 0 then 0
      else uniname_cmp_loop n up a (i + 1) b (j + 1))"

definition nls_uniname_cmp :: "(u16 \<Rightarrow> u16) \<Rightarrow> u16 list \<Rightarrow> nat \<Rightarrow> u16 list \<Rightarrow> nat \<Rightarrow> s32" where
  "nls_uniname_cmp up a i b j = uniname_cmp_loop MAX_NAME_LENGTH up a i b j"

section \<open>Single characters\<close>

text \<open>The bytes and the flag \<^verbatim>\<open>*lossy\<close> afterwards.\<close>

definition convert_uni_to_ch :: "nls \<Rightarrow> u16 \<Rightarrow> bool \<Rightarrow> u8 list \<times> bool" where
  "convert_uni_to_ch t uni lossy =
     (if uni < 0x0080 then ([ucast uni], lossy)
      else case uni2char t uni of
        None \<Rightarrow> ([chr8 CHR ''_''], True)
      | Some bs \<Rightarrow> (bs, lossy))"

definition convert_ch_to_uni :: "nls \<Rightarrow> u8 list \<Rightarrow> bool \<Rightarrow> nat \<times> u16 \<times> bool" where
  "convert_ch_to_uni t ch lossy =
     (if hd ch < 0x80 then (1, ucast (hd ch), lossy)
      else case char2uni t ch of
        None \<Rightarrow> (if charset_utf8 t then 1 else 2, chr16 CHR ''_'', True)
      | Some (len, u) \<Rightarrow> (len, u, lossy))"

section \<open>Long name to DOS name\<close>

fun last_period_from :: "u16 list \<Rightarrow> nat \<Rightarrow> nat option \<Rightarrow> nat option" where
  "last_period_from [] p l = l"
| "last_period_from (c # cs) p l =
     (if c = 0 then l else last_period_from cs (p + 1) (if c = chr16 CHR ''.'' then Some p else l))"

definition last_period :: "u16 list \<Rightarrow> nat option" where
  "last_period u = last_period_from u 0 None"

record dosconv =
  dc_name :: "u8 list"
  dc_i :: nat
  dc_u :: nat
  dc_lossy :: bool
  dc_lower :: u8
  dc_upper :: u8

fun store_many :: "u8 list \<Rightarrow> nat \<Rightarrow> u8 list \<Rightarrow> u8 list" where
  "store_many d i [] = d"
| "store_many d i (b # bs) = store_many (d[i := b]) (i + 1) bs"

text \<open>
  One turn of the conversion loop; the flag says whether the loop goes on.  \<open>lp\<close> is \<^verbatim>\<open>last_period\<close>; comparing
  it as a null pointer with \<^verbatim>\<open>uniname\<close> gives false.
\<close>

definition dos_step :: "nls \<Rightarrow> u16 list \<Rightarrow> nat option \<Rightarrow> dosconv \<Rightarrow> bool \<times> dosconv" where
  "dos_step t u lp st =
     (if dc_i st = 8 \<and> lp = None then (False, st)
      else
        let st = (case lp of
                    Some p \<Rightarrow> if dc_i st = 8 \<and> dc_u st \<le> p
                              then st\<lparr>dc_lossy := (dc_lossy st \<or> dc_u st < p), dc_u := p + 1\<rparr> else st
                  | None \<Rightarrow> st);
            c = u ! dc_u st
        in if c = 0 then (False, st)
           else if c = chr16 CHR '' '' then (True, st\<lparr>dc_lossy := True, dc_u := dc_u st + 1\<rparr>)
           else if c = chr16 CHR ''.'' then
             (True, (if (case lp of Some p \<Rightarrow> dc_u st < p | None \<Rightarrow> False) then st\<lparr>dc_lossy := True\<rparr> else st\<lparr>dc_i := 8\<rparr>)
                \<lparr>dc_u := dc_u st + 1\<rparr>)
           else if nls_wstrchr bad_dos_chars c then
             (True, st\<lparr>dc_lossy := True, dc_name := (dc_name st)[dc_i st := chr8 CHR ''_''],
                dc_i := dc_i st + 1, dc_u := dc_u st + 1\<rparr>)
           else
             (case convert_uni_to_ch t c (dc_lossy st) of (bs, l) \<Rightarrow>
                let st = st\<lparr>dc_lossy := l\<rparr> in
                if length bs > 1 then
                  (if dc_i st \<ge> 8 \<and> dc_i st + length bs > DOS_NAME_LENGTH then (False, st)
                   else if dc_i st < 8 \<and> dc_i st + length bs > 8 then (True, st\<lparr>dc_i := 8\<rparr>)
                   else (True, st\<lparr>dc_lower := 0xFF, dc_name := store_many (dc_name st) (dc_i st) bs,
                                  dc_i := dc_i st + length bs, dc_u := dc_u st + 1\<rparr>))
                else
                  (let b = hd bs;
                       m = (if dc_i st < 8 then 0x08 else 0x10 :: u8);
                       st = (if chr8 CHR ''a'' \<le> b \<and> b \<le> chr8 CHR ''z'' then
                               st\<lparr>dc_name := (dc_name st)[dc_i st := b - (chr8 CHR ''a'' - chr8 CHR ''A'')],
                                  dc_lower := dc_lower st OR m\<rparr>
                             else if chr8 CHR ''A'' \<le> b \<and> b \<le> chr8 CHR ''Z'' then
                               st\<lparr>dc_name := (dc_name st)[dc_i st := b], dc_upper := dc_upper st OR m\<rparr>
                             else st\<lparr>dc_name := (dc_name st)[dc_i st := b]\<rparr>)
                   in (True, st\<lparr>dc_i := dc_i st + 1, dc_u := dc_u st + 1\<rparr>))))"

text \<open>
  \<^verbatim>\<open>while (i < DOS_NAME_LENGTH)\<close>.  A turn either ends the loop, moves \<^verbatim>\<open>uniname\<close> forward or sets \<open>i\<close> to 8 once
  without moving, so that \<open>2 * length u + 2\<close> turns suffice.
\<close>

fun dos_loop :: "nat \<Rightarrow> nls \<Rightarrow> u16 list \<Rightarrow> nat option \<Rightarrow> dosconv \<Rightarrow> dosconv" where
  "dos_loop 0 t u lp st = st"
| "dos_loop (Suc n) t u lp st =
     (if dc_i st < DOS_NAME_LENGTH
      then (case dos_step t u lp st of (go, st) \<Rightarrow> if go then dos_loop n t u lp st else st)
      else st)"

definition nls_uniname_to_dosname :: "(u16 \<Rightarrow> u16) \<Rightarrow> nls \<Rightarrow> u16 list \<Rightarrow> DOS_NAME_T \<times> bool" where
  "nls_uniname_to_dosname up t u =
     (let blank = replicate DOS_NAME_LENGTH (chr8 CHR '' '') in
      if nls_uniname_cmp up u 0 UNI_CUR_DIR_NAME 0 = 0 then
        (\<lparr>dn_name = blank[0 := chr8 CHR ''.''], dn_case = 0\<rparr>, False)
      else if nls_uniname_cmp up u 0 UNI_PAR_DIR_NAME 0 = 0 then
        (\<lparr>dn_name = blank[0 := chr8 CHR ''.'', 1 := chr8 CHR ''.''], dn_case = 0\<rparr>, False)
      else
        let st = dos_loop (2 * length u + 2) t u (last_period u)
                   \<lparr>dc_name = blank, dc_i = 0, dc_u = 0, dc_lossy = False, dc_lower = 0, dc_upper = 0\<rparr>;
            d = (if dc_name st ! 0 = 0xE5 then (dc_name st)[0 := 0x05] else dc_name st);
            lossy = (dc_lossy st \<or> u ! dc_u st \<noteq> 0)
        in (\<lparr>dn_name = d, dn_case = (if dc_upper st AND dc_lower st \<noteq> 0 then 0xFF else dc_lower st)\<rparr>, lossy))"

section \<open>DOS name to long name\<close>

text \<open>The bytes from index \<open>i\<close> on up to a blank, at most \<open>n\<close>, lower case when the case bit \<open>m\<close> is set.\<close>

fun dos_part :: "nat \<Rightarrow> u8 list \<Rightarrow> nat \<Rightarrow> bool \<Rightarrow> u8 list" where
  "dos_part 0 d i low = []"
| "dos_part (Suc n) d i low =
     (if d ! i = chr8 CHR '' '' then []
      else (if chr8 CHR ''A'' \<le> d ! i \<and> d ! i \<le> chr8 CHR ''Z'' \<and> low
            then d ! i + (chr8 CHR ''a'' - chr8 CHR ''A'') else d ! i) # dos_part n d (i + 1) low)"

definition dosname_bytes :: "DOS_NAME_T \<Rightarrow> u8 list" where
  "dosname_bytes dn =
     (let d = dn_name dn;
          base = (if d ! 0 = 0x05 then 0xE5 # dos_part 7 d 1 (dn_case dn AND 0x08 \<noteq> 0)
                  else dos_part 8 d 0 (dn_case dn AND 0x08 \<noteq> 0));
          dot = (if d ! 8 \<noteq> chr8 CHR '' '' then [chr8 CHR ''.''] else [])
      in base @ dot @ dos_part 3 d 8 (dn_case dn AND 0x10 \<noteq> 0))"

text \<open>
  The conversion of a zero-terminated byte string, at most \<open>n\<close> units.  A multi-byte character may reach beyond
  the terminator; then the byte after the buffer would be read, here the conversion ends.
\<close>

fun bytes_to_units :: "nat \<Rightarrow> nls \<Rightarrow> u8 list \<Rightarrow> u16 list" where
  "bytes_to_units 0 t bs = []"
| "bytes_to_units (Suc n) t bs =
     (if bs = [] \<or> hd bs = 0 then []
      else case convert_ch_to_uni t bs False of (len, u, _) \<Rightarrow> u # bytes_to_units n t (drop len bs))"

definition nls_dosname_to_uniname :: "nls \<Rightarrow> DOS_NAME_T \<Rightarrow> u16 list" where
  "nls_dosname_to_uniname t dn = bytes_to_units (MAX_NAME_LENGTH - 1) t (dosname_bytes dn) @ [0]"

text \<open>\<^verbatim>\<open>nls_uniname_to_cstring\<close> with a character set (the \<^verbatim>\<open>utf8\<close> case calls the kernel's encoder).\<close>

fun units_to_bytes :: "nat \<Rightarrow> nls \<Rightarrow> u16 list \<Rightarrow> u8 list" where
  "units_to_bytes 0 t u = []"
| "units_to_bytes (Suc n) t [] = []"
| "units_to_bytes (Suc n) t (c # u) =
     (if c = 0 then [] else fst (convert_uni_to_ch t c False) @ units_to_bytes n t u)"

definition nls_uniname_to_cstring :: "(u16 list \<Rightarrow> u8 list) \<Rightarrow> nls option \<Rightarrow> UNI_NAME_T \<Rightarrow> u8 list" where
  "nls_uniname_to_cstring utf16s_to_utf8s t un =
     (case t of
        None \<Rightarrow> utf16s_to_utf8s (un_name un)
      | Some t \<Rightarrow> units_to_bytes (MAX_NAME_LENGTH - 1) t (un_name un))"

section \<open>C string to long name\<close>

definition strip_end :: "u8 \<Rightarrow> u8 list \<Rightarrow> u8 list" where
  "strip_end c bs = rev (dropWhile (\<lambda>b. b = c) (rev bs))"

text \<open>
  Stripping trailing blanks and periods.  On a string of blanks (or periods) only, the loops of the code run on to
  the byte before the string, which they read; the string is emptied whatever that byte is.
\<close>

definition strip_name :: "u8 list \<Rightarrow> u8 list" where
  "strip_name cs =
     (let cs = strip_end (chr8 CHR '' '') cs;
          dot = chr8 CHR ''.''
      in if cs \<noteq> [dot] \<and> cs \<noteq> [dot, dot] then strip_end dot cs else cs)"

fun cstring_units :: "nat \<Rightarrow> nls \<Rightarrow> u8 list \<Rightarrow> bool \<Rightarrow> u16 list \<times> bool" where
  "cstring_units 0 t bs lossy = ([], lossy \<or> bs \<noteq> [])"
| "cstring_units (Suc n) t bs lossy =
     (if bs = [] then ([], lossy)
      else case convert_ch_to_uni t bs lossy of (len, u, l) \<Rightarrow>
        (case cstring_units n t (drop len bs) (l \<or> u < 0x0020 \<or> nls_wstrchr bad_uni_chars u) of
           (us, l) \<Rightarrow> (u # us, l)))"

definition upname_bytes :: "(u16 \<Rightarrow> u16) \<Rightarrow> u16 list \<Rightarrow> u8 list" where
  "upname_bytes up us = concat (map (\<lambda>u. [ucast (up u), ucast (drop_bit 8 (up u))]) us)"

text \<open>\<open>decode\<close> is \<^verbatim>\<open>utf8s_to_utf16s\<close>; with \<^verbatim>\<open>nls == NULL\<close> no bad character makes the name lossy.\<close>

definition nls_cstring_to_uniname ::
  "(u16 \<Rightarrow> u16) \<Rightarrow> (u8 list \<Rightarrow> u16 list) \<Rightarrow> nls option \<Rightarrow> u8 list \<Rightarrow> UNI_NAME_T \<times> bool" where
  "nls_cstring_to_uniname up decode t cs =
     (let cs = strip_name cs;
          lossy = (cs = []);
          (us, lossy) = (case t of
              None \<Rightarrow> (decode cs, lossy)
            | Some t \<Rightarrow> cstring_units (MAX_NAME_LENGTH - 1) t cs lossy)
      in (\<lparr>un_name = us @ [0],
           un_hash = calc_checksum_2byte (upname_bytes up us) (2 * length us) 0 CS_DEFAULT,
           un_len = of_nat (length us)\<rparr>, lossy))"

section \<open>Numbered DOS names\<close>

text \<open>The decimal digits of a count below 10000 (\<^verbatim>\<open>"~%d"\<close>).\<close>

fun dec_digits :: "nat \<Rightarrow> nat \<Rightarrow> u8 list" where
  "dec_digits 0 n = []"
| "dec_digits (Suc k) n = (if n < 10 then [0x30 + of_nat n] else dec_digits k (n div 10) @ [0x30 + of_nat (n mod 10)])"

definition str_count :: "nat \<Rightarrow> u8 list" where
  "str_count n = chr8 CHR ''~'' # dec_digits 4 n"

text \<open>The position search: \<open>i\<close> and \<open>j\<close> as in the loop, \<open>k\<close> is the bound \<^verbatim>\<open>8 - length\<close>.\<close>

fun attach_pos :: "nat \<Rightarrow> u8 list \<Rightarrow> nat \<Rightarrow> nat \<Rightarrow> nat \<Rightarrow> nat" where
  "attach_pos 0 d k i j = i"
| "attach_pos (Suc n) d k i j =
     (if j \<le> k then
        (if d ! j = chr8 CHR '' '' then j
         else attach_pos n d k j (if d ! j AND 0x80 \<noteq> 0 then j + 2 else j + 1))
      else i)"

definition fat_attach_count_to_dos_name :: "u8 list \<Rightarrow> nat \<Rightarrow> u8 list" where
  "fat_attach_count_to_dos_name d count =
     (let str = str_count count;
          i = attach_pos 9 d (8 - length str) 0 0;
          d = store_many d i str
      in if i + length str = 7 then d[7 := chr8 CHR '' ''] else d)"

text \<open>The number behind the last \<^verbatim>\<open>~\<close> of a short name (\<^verbatim>\<open>fat_generate_dos_name\<close>), zero when there is none.\<close>

fun name_count :: "nat \<Rightarrow> u8 list \<Rightarrow> nat \<Rightarrow> bool \<Rightarrow> nat \<Rightarrow> nat" where
  "name_count 0 d j begun count = count"
| "name_count (Suc n) d j begun count =
     (if d ! j = chr8 CHR '' '' then count
      else if d ! j = chr8 CHR ''~'' then name_count n d (j + 1) True count
      else if begun then
        (if 0x30 \<le> d ! j \<and> d ! j \<le> 0x39 then name_count n d (j + 1) True (count * 10 + unat (d ! j - 0x30))
         else name_count n d (j + 1) False 0)
      else name_count n d (j + 1) begun count)"

text \<open>The search for a free count in the 1024-bit map.\<close>

definition free_count :: "u8 list \<Rightarrow> nat" where
  "free_count bmap =
     (case filter (\<lambda>c. exfat_bitmap_test bmap c = 0) [0..<1024] of [] \<Rightarrow> 0 | c # _ \<Rightarrow> c)"

definition reserved_names :: "u8 list list" where
  "reserved_names = map (map chr8)
     [''AUX     '', ''CON     '', ''NUL     '', ''PRN     '',
      ''COM1    '', ''COM2    '', ''COM3    '', ''COM4    '', ''COM5    '', ''COM6    '', ''COM7    '',
      ''COM8    '', ''COM9    '', ''LPT1    '', ''LPT2    '', ''LPT3    '', ''LPT4    '', ''LPT5    '',
      ''LPT6    '', ''LPT7    '', ''LPT8    '', ''LPT9    '']"

end
