(* ===== verification/Dir.thy ===== *)
theory Dir
  imports Cluster Names
begin

text \<open>
  Directories of \<^verbatim>\<open>exfat_core.c\<close>: finding an entry, entry sets, searching for room, looking a name up, counting.
  A pointer to a directory entry is the block of its buffer and a byte offset.  The walks over a directory have one
  loop over the clusters of the chain (bounded by \<open>CHAIN_FUEL\<close>, see theory \<open>Cluster\<close>) and one over the entries of
  a cluster.
\<close>

type_synonym eptr = "u32 \<times> nat"

definition read_ep :: "eptr \<Rightarrow> u8 list fsM" where
  "read_ep p = gets (\<lambda>s. take 32 (drop (snd p) (bufs s (fst p))))"

definition write_ep :: "eptr \<Rightarrow> u8 list \<Rightarrow> unit fsM" where
  "write_ep p e = set_buf (fst p) (\<lambda>b. take (snd p) b @ e @ drop (snd p + 32) b)"

definition upd_ep :: "eptr \<Rightarrow> (u8 list \<Rightarrow> u8 list) \<Rightarrow> unit fsM" where
  "upd_ep p f = do { e \<leftarrow> read_ep p; write_ep p (f e) }"

definition IS_LAST_SECTOR_IN_CLUSTER :: "u32 \<Rightarrow> vol \<Rightarrow> bool" where
  "IS_LAST_SECTOR_IN_CLUSTER sct s \<longleftrightarrow>
     (sct - data_start_sector s + 1) AND (push_bit (sectors_per_clu_bits s) 1 - 1) = 0"

definition GET_CLUSTER_FROM_SECTOR :: "u32 \<Rightarrow> vol \<Rightarrow> u32" where
  "GET_CLUSTER_FROM_SECTOR sct s = drop_bit (sectors_per_clu_bits s) (sct - data_start_sector s) + 2"

section \<open>Locating entries\<close>

fun walk_chain_loop :: "nat \<Rightarrow> u32 \<Rightarrow> u32 option fsM" where
  "walk_chain_loop 0 clu = ret (Some clu)"
| "walk_chain_loop (Suc n) clu = do {
     rd \<leftarrow> FAT_read clu;
     case rd of None \<Rightarrow> ret None | Some nxt \<Rightarrow> walk_chain_loop n nxt }"

definition walk_fat_chain :: "CHAIN_T \<Rightarrow> s32 \<Rightarrow> u32 option fsM" where
  "walk_fat_chain ch byte_offset = do {
     s \<leftarrow> gets id;
     let clu_offset = drop_bit (cluster_size_bits s) byte_offset;
     if chain_flags ch = 0x03 then ret (Some (chain_dir ch + of_int clu_offset))
     else walk_chain_loop (nat clu_offset) (chain_dir ch) }"

text \<open>Sector and offset in the sector; \<open>None\<close> is an error of the chain walk.\<close>

definition find_location :: "CHAIN_T \<Rightarrow> s32 \<Rightarrow> (u32 \<times> nat) option fsM" where
  "find_location ch entry = do {
     s \<leftarrow> gets id;
     let off = push_bit 5 entry;
     if chain_dir ch = 0 then
       ret (Some (of_int (drop_bit (sector_size_bits s) off) + root_start_sector s,
                  unat ((of_int off :: u32) AND sector_size_mask s)))
     else do {
       w \<leftarrow> walk_fat_chain ch off;
       case w of
         None \<Rightarrow> ret None
       | Some clu \<Rightarrow> do {
           let off = (of_int off :: u32) AND (cluster_size s - 1);
           ret (Some (drop_bit (sector_size_bits s) off + START_SECTOR clu s,
                      unat (off AND sector_size_mask s))) } } }"

definition get_entry_with_sector :: "u32 \<Rightarrow> nat \<Rightarrow> eptr option fsM" where
  "get_entry_with_sector sct off = do {
     b \<leftarrow> buf_getblk sct;
     ret (map_option (\<lambda>b. (b, off)) b) }"

text \<open>The entry and the sector it is in.\<close>

definition get_entry_in_dir :: "CHAIN_T \<Rightarrow> s32 \<Rightarrow> (eptr \<times> u32) option fsM" where
  "get_entry_in_dir ch entry = do {
     l \<leftarrow> find_location ch entry;
     case l of
       None \<Rightarrow> ret None
     | Some (sct, off) \<Rightarrow> do {
         b \<leftarrow> buf_getblk sct;
         ret (map_option (\<lambda>b. ((b, off), sct)) b) } }"

section \<open>Initialising and deleting entries\<close>

text \<open>\<open>tp\<close> stands for the timestamp of the call of \<^verbatim>\<open>tm_current\<close>.\<close>

definition fat_init_dir_entry :: "TIMESTAMP_T \<Rightarrow> CHAIN_T \<Rightarrow> s32 \<Rightarrow> u32 \<Rightarrow> u32 \<Rightarrow> s32 fsM" where
  "fat_init_dir_entry tp ch entry type start_clu = do {
     r \<leftarrow> get_entry_in_dir ch entry;
     case r of
       None \<Rightarrow> ret FFS_MEDIAERR
     | Some (ep, sct) \<Rightarrow> do {
         _ \<leftarrow> upd_ep ep (\<lambda>e. init_dos_entry e type start_clu tp);
         _ \<leftarrow> buf_modify sct;
         ret FFS_SUCCESS } }"

text \<open>Both entries are marked modified under the sector of the second one.\<close>

definition exfat_init_dir_entry :: "TIMESTAMP_T \<Rightarrow> CHAIN_T \<Rightarrow> s32 \<Rightarrow> u32 \<Rightarrow> u32 \<Rightarrow> u64 \<Rightarrow> s32 fsM" where
  "exfat_init_dir_entry tp ch entry type start_clu sz = do {
     let flags = (if type = TYPE_FILE then 0x01 else 0x03);
     r1 \<leftarrow> get_entry_in_dir ch entry;
     case r1 of
       None \<Rightarrow> ret FFS_MEDIAERR
     | Some (file_ep, _) \<Rightarrow> do {
         r2 \<leftarrow> get_entry_in_dir ch (entry + 1);
         case r2 of
           None \<Rightarrow> ret FFS_MEDIAERR
         | Some (strm_ep, sct) \<Rightarrow> do {
             _ \<leftarrow> upd_ep file_ep (\<lambda>e. init_file_entry e type tp);
             _ \<leftarrow> buf_modify sct;
             _ \<leftarrow> upd_ep strm_ep (\<lambda>e. init_strm_entry e flags start_clu sz);
             _ \<leftarrow> buf_modify sct;
             ret FFS_SUCCESS } } }"

fun init_dir_entry :: "fs_kind \<Rightarrow> TIMESTAMP_T \<Rightarrow> CHAIN_T \<Rightarrow> s32 \<Rightarrow> u32 \<Rightarrow> u32 \<Rightarrow> u64 \<Rightarrow> s32 fsM" where
  "init_dir_entry FatOps tp ch entry type clu sz = fat_init_dir_entry tp ch entry type clu"
| "init_dir_entry ExfatOps tp ch entry type clu sz = exfat_init_dir_entry tp ch entry type clu sz"

text \<open>
  The loop over the long-name entries of \<^verbatim>\<open>fat_init_ext_entry\<close>: entry \<open>i\<close> of \<open>i, \<dots>\<close>; \<open>n\<close> entries before the
  last one are left, \<open>k\<close> is the position in the name.
\<close>

fun fat_ext_loop :: "nat \<Rightarrow> CHAIN_T \<Rightarrow> s32 \<Rightarrow> s32 \<Rightarrow> u8 \<Rightarrow> u16 list \<Rightarrow> nat \<Rightarrow> s32 fsM" where
  "fat_ext_loop 0 ch entry i chksum name k = do {
     r \<leftarrow> get_entry_in_dir ch (entry - i);
     case r of
       None \<Rightarrow> ret FFS_MEDIAERR
     | Some (ep, sct) \<Rightarrow> do {
         _ \<leftarrow> upd_ep ep (\<lambda>e. init_ext_entry e (i + 0x40) chksum (drop k name));
         _ \<leftarrow> buf_modify sct;
         ret FFS_SUCCESS } }"
| "fat_ext_loop (Suc n) ch entry i chksum name k = do {
     r \<leftarrow> get_entry_in_dir ch (entry - i);
     case r of
       None \<Rightarrow> ret FFS_MEDIAERR
     | Some (ep, sct) \<Rightarrow> do {
         _ \<leftarrow> upd_ep ep (\<lambda>e. init_ext_entry e i chksum (drop k name));
         _ \<leftarrow> buf_modify sct;
         fat_ext_loop n ch entry (i + 1) chksum name (k + 13) } }"

definition fat_init_ext_entry :: "CHAIN_T \<Rightarrow> s32 \<Rightarrow> s32 \<Rightarrow> UNI_NAME_T \<Rightarrow> DOS_NAME_T \<Rightarrow> s32 fsM" where
  "fat_init_ext_entry ch entry num_entries un dn = do {
     r \<leftarrow> get_entry_in_dir ch entry;
     case r of
       None \<Rightarrow> ret FFS_MEDIAERR
     | Some (ep, sct) \<Rightarrow> do {
         _ \<leftarrow> upd_ep ep (\<lambda>e. dn_name dn @ drop 11 (e[dos_lcase := dn_case dn]));
         _ \<leftarrow> buf_modify sct;
         if num_entries - 1 > 0 then do {
           e \<leftarrow> read_ep ep;
           let chksum = calc_checksum_1byte e DOS_NAME_LENGTH 0;
           fat_ext_loop (nat (num_entries - 2)) ch entry 1 chksum (un_name un) 0 }
         else ret FFS_SUCCESS } }"

text \<open>\<^verbatim>\<open>update_dir_checksum\<close>: \<open>n\<close> entries are left; the sector of the file entry stays locked meanwhile.\<close>

fun checksum_loop :: "nat \<Rightarrow> CHAIN_T \<Rightarrow> s32 \<Rightarrow> u16 \<Rightarrow> u16 option fsM" where
  "checksum_loop 0 ch entry chksum = ret (Some chksum)"
| "checksum_loop (Suc n) ch entry chksum = do {
     r \<leftarrow> get_entry_in_dir ch entry;
     case r of
       None \<Rightarrow> ret None
     | Some (ep, _) \<Rightarrow> do {
         e \<leftarrow> read_ep ep;
         checksum_loop n ch (entry + 1) (calc_checksum_2byte e DENTRY_SIZE chksum CS_DEFAULT) } }"

definition update_dir_checksum :: "CHAIN_T \<Rightarrow> s32 \<Rightarrow> unit fsM" where
  "update_dir_checksum ch entry = do {
     r \<leftarrow> get_entry_in_dir ch entry;
     case r of
       None \<Rightarrow> ret ()
     | Some (file_ep, sct) \<Rightarrow> do {
         _ \<leftarrow> buf_lock sct;
         e \<leftarrow> read_ep file_ep;
         c \<leftarrow> checksum_loop (unat (e ! file_num_ext)) ch (entry + 1)
                (calc_checksum_2byte e DENTRY_SIZE 0 CS_DIR_ENTRY);
         case c of
           None \<Rightarrow> buf_unlock sct
         | Some chksum \<Rightarrow> do {
             _ \<leftarrow> upd_ep file_ep (\<lambda>e. SET16 e file_checksum chksum);
             _ \<leftarrow> buf_modify sct;
             buf_unlock sct } } }"

fun exfat_name_loop :: "nat \<Rightarrow> CHAIN_T \<Rightarrow> s32 \<Rightarrow> u16 list \<Rightarrow> nat \<Rightarrow> s32 fsM" where
  "exfat_name_loop 0 ch entry name k = ret FFS_SUCCESS"
| "exfat_name_loop (Suc n) ch entry name k = do {
     r \<leftarrow> get_entry_in_dir ch entry;
     case r of
       None \<Rightarrow> ret FFS_MEDIAERR
     | Some (ep, sct) \<Rightarrow> do {
         _ \<leftarrow> upd_ep ep (\<lambda>e. init_name_entry e (drop k name));
         _ \<leftarrow> buf_modify sct;
         exfat_name_loop n ch (entry + 1) name (k + 15) } }"

definition exfat_init_ext_entry :: "CHAIN_T \<Rightarrow> s32 \<Rightarrow> s32 \<Rightarrow> UNI_NAME_T \<Rightarrow> s32 fsM" where
  "exfat_init_ext_entry ch entry num_entries un = do {
     r1 \<leftarrow> get_entry_in_dir ch entry;
     case r1 of
       None \<Rightarrow> ret FFS_MEDIAERR
     | Some (file_ep, sct1) \<Rightarrow> do {
         _ \<leftarrow> upd_ep file_ep (\<lambda>e. e[file_num_ext := of_int (num_entries - 1)]);
         _ \<leftarrow> buf_modify sct1;
         r2 \<leftarrow> get_entry_in_dir ch (entry + 1);
         case r2 of
           None \<Rightarrow> ret FFS_MEDIAERR
         | Some (strm_ep, sct2) \<Rightarrow> do {
             _ \<leftarrow> upd_ep strm_ep (\<lambda>e. SET16 (e[strm_name_len := un_len un]) strm_name_hash (un_hash un));
             _ \<leftarrow> buf_modify sct2;
             r \<leftarrow> exfat_name_loop (nat (num_entries - 2)) ch (entry + 2) (un_name un) 0;
             if r \<noteq> FFS_SUCCESS then ret r
             else do {
               _ \<leftarrow> update_dir_checksum ch entry;
               ret FFS_SUCCESS } } } }"

fun init_ext_entries :: "fs_kind \<Rightarrow> CHAIN_T \<Rightarrow> s32 \<Rightarrow> s32 \<Rightarrow> UNI_NAME_T \<Rightarrow> DOS_NAME_T \<Rightarrow> s32 fsM" where
  "init_ext_entries FatOps ch entry n un dn = fat_init_ext_entry ch entry n un dn"
| "init_ext_entries ExfatOps ch entry n un dn = exfat_init_ext_entry ch entry n un"

text \<open>Deleting \<open>n\<close> entries, the next one at \<open>entry\<close>, going on by \<open>d\<close>.\<close>

fun delete_loop :: "nat \<Rightarrow> CHAIN_T \<Rightarrow> s32 \<Rightarrow> s32 \<Rightarrow> unit fsM" where
  "delete_loop 0 ch entry d = ret ()"
| "delete_loop (Suc n) ch entry d = do {
     r \<leftarrow> get_entry_in_dir ch entry;
     case r of
       None \<Rightarrow> ret ()
     | Some (ep, sct) \<Rightarrow> do {
         k \<leftarrow> gets fs_func;
         _ \<leftarrow> upd_ep ep (\<lambda>e. set_entry_type (ops k) e TYPE_DELETED);
         _ \<leftarrow> buf_modify sct;
         delete_loop n ch (entry + d) d } }"

definition fat_delete_dir_entry :: "CHAIN_T \<Rightarrow> s32 \<Rightarrow> s32 \<Rightarrow> s32 \<Rightarrow> unit fsM" where
  "fat_delete_dir_entry ch entry order num_entries =
     delete_loop (nat (num_entries - order)) ch (entry - (num_entries - 1)) 1"

definition exfat_delete_dir_entry :: "CHAIN_T \<Rightarrow> s32 \<Rightarrow> s32 \<Rightarrow> s32 \<Rightarrow> unit fsM" where
  "exfat_delete_dir_entry ch entry order num_entries =
     delete_loop (nat (num_entries - order)) ch (entry + order) 1"

fun delete_dir_entry :: "fs_kind \<Rightarrow> CHAIN_T \<Rightarrow> s32 \<Rightarrow> s32 \<Rightarrow> s32 \<Rightarrow> unit fsM" where
  "delete_dir_entry FatOps = fat_delete_dir_entry"
| "delete_dir_entry ExfatOps = exfat_delete_dir_entry"

end
