(* ===== verification/EntrySet.thy ===== *)
theory EntrySet
  imports Dir
begin

text \<open>
  Entry sets of \<^verbatim>\<open>exfat_core.c\<close>: the copy of a file's directory entries that \<^verbatim>\<open>get_entry_set_in_dir\<close> makes while it
  checks their order, and writing such a copy back, sector by sector.
\<close>

record ENTRY_SET_CACHE_T =
  es_sector :: u32
  es_offset :: s32
  es_alloc_flag :: s32
  es_num_entries :: nat
  es_buf :: "u8 list"

definition ES_2_ENTRIES :: u32 where "ES_2_ENTRIES = 2"
definition ES_3_ENTRIES :: u32 where "ES_3_ENTRIES = 3"
definition ES_ALL_ENTRIES :: u32 where "ES_ALL_ENTRIES = 0"

text \<open>Entry \<open>i\<close> of the copy, and changing it.\<close>

definition es_get :: "ENTRY_SET_CACHE_T \<Rightarrow> nat \<Rightarrow> u8 list" where
  "es_get es i = take 32 (drop (32 * i) (es_buf es))"

definition es_upd :: "nat \<Rightarrow> (u8 list \<Rightarrow> u8 list) \<Rightarrow> ENTRY_SET_CACHE_T \<Rightarrow> ENTRY_SET_CACHE_T" where
  "es_upd i f es = es\<lparr>es_buf := take (32 * i) (es_buf es) @ f (es_get es i) @ drop (32 * i + 32) (es_buf es)\<rparr>"

text \<open>Using entry \<open>i\<close> of a copy that does not have it.\<close>

definition es_touch :: "nat \<Rightarrow> ENTRY_SET_CACHE_T \<Rightarrow> unit fsM" where
  "es_touch i es = whenM (es_num_entries es \<le> i) set_ub"

section \<open>Reading an entry set\<close>

datatype es_mode = ES_MODE_STARTED | ES_MODE_GET_FILE_ENTRY | ES_MODE_GET_STRM_ENTRY | ES_MODE_GET_NAME_ENTRY
  | ES_MODE_GET_CRITICAL_SEC_ENTRY

text \<open>The \<^verbatim>\<open>switch\<close> on the mode; \<open>None\<close> is \<^verbatim>\<open>goto err_out\<close>.\<close>

fun es_next_mode :: "es_mode \<Rightarrow> u32 \<Rightarrow> es_mode option" where
  "es_next_mode ES_MODE_STARTED t =
     (if t = TYPE_FILE \<or> t = TYPE_DIR then Some ES_MODE_GET_FILE_ENTRY else None)"
| "es_next_mode ES_MODE_GET_FILE_ENTRY t = (if t = TYPE_STREAM then Some ES_MODE_GET_STRM_ENTRY else None)"
| "es_next_mode ES_MODE_GET_STRM_ENTRY t = (if t = TYPE_EXTEND then Some ES_MODE_GET_NAME_ENTRY else None)"
| "es_next_mode ES_MODE_GET_NAME_ENTRY t =
     (if t = TYPE_EXTEND then Some ES_MODE_GET_NAME_ENTRY
      else if t = TYPE_STREAM then None
      else if t AND TYPE_CRITICAL_SEC \<noteq> 0 then Some ES_MODE_GET_CRITICAL_SEC_ENTRY
      else None)"
| "es_next_mode ES_MODE_GET_CRITICAL_SEC_ENTRY t =
     (if t = TYPE_EXTEND \<or> t = TYPE_STREAM then None
      else if t AND TYPE_CRITICAL_SEC \<noteq> TYPE_CRITICAL_SEC then None
      else Some ES_MODE_GET_CRITICAL_SEC_ENTRY)"

text \<open>
  Where the entry behind the one at offset \<open>off\<close> of sector \<open>sct\<close> (of cluster \<open>clu\<close>) is.  \<open>None\<close> is an error of
  the FAT.
\<close>

definition next_sector :: "bool \<Rightarrow> u32 \<Rightarrow> u32 \<Rightarrow> (u32 \<times> u32) option fsM" where
  "next_sector contiguous clu sct = do {
     s \<leftarrow> gets id;
     if IS_LAST_SECTOR_IN_CLUSTER sct s then do {
       r \<leftarrow> (if contiguous then ret (Some (clu + 1)) else FAT_read clu);
       ret (map_option (\<lambda>clu. (clu, START_SECTOR clu s)) r) }
     else ret (Some (clu, sct + 1)) }"

text \<open>The loop: \<open>n\<close> entries are left, the next one is at offset \<open>off\<close> of buffer \<open>b\<close>; \<open>acc\<close> is what has been copied.\<close>

fun entry_set_loop :: "nat \<Rightarrow> bool \<Rightarrow> es_mode \<Rightarrow> u32 \<Rightarrow> u32 \<Rightarrow> u32 \<Rightarrow> nat \<Rightarrow> u8 list \<Rightarrow> u8 list option fsM" where
  "entry_set_loop 0 cont mode clu sct b off acc = ret (Some acc)"
| "entry_set_loop (Suc n) cont mode clu sct b off acc = do {
     e \<leftarrow> read_ep (b, off);
     k \<leftarrow> gets fs_func;
     let t = get_entry_type (ops k) e;
     if t = TYPE_UNUSED \<or> t = TYPE_DELETED then ret None
     else case es_next_mode mode t of
       None \<Rightarrow> ret None
     | Some mode \<Rightarrow>
         if n = 0 then ret (Some (acc @ e))
         else do {
           mask \<leftarrow> gets (\<lambda>s. unat (sector_size_mask s));
           if (off + 32) AND mask < off AND mask then do {
             nx \<leftarrow> next_sector cont clu sct;
             case nx of
               None \<Rightarrow> ret None
             | Some (clu, sct) \<Rightarrow> do {
                 nb \<leftarrow> buf_getblk sct;
                 case nb of
                   None \<Rightarrow> ret None
                 | Some b \<Rightarrow> entry_set_loop n cont mode clu sct b 0 (acc @ e) } }
           else entry_set_loop n cont mode clu sct b (off + 32) (acc @ e) } }"

text \<open>
  \<^verbatim>\<open>get_entry_set_in_dir\<close>.  The number of entries is an \<^verbatim>\<open>u8\<close>: a file entry with 255 secondary entries gives
  zero, and an empty copy.
\<close>

definition get_entry_set_in_dir :: "CHAIN_T \<Rightarrow> s32 \<Rightarrow> u32 \<Rightarrow> ENTRY_SET_CACHE_T option fsM" where
  "get_entry_set_in_dir ch entry type = do {
     s \<leftarrow> gets id;
     let byte_offset = push_bit 5 entry;
     w \<leftarrow> walk_fat_chain ch byte_offset;
     case w of
       None \<Rightarrow> ret None
     | Some clu \<Rightarrow> do {
         let byte_offset = (of_int byte_offset :: u32) AND (cluster_size s - 1);
         let off = unat (byte_offset AND sector_size_mask s);
         let sct = drop_bit (sector_size_bits s) byte_offset + START_SECTOR clu s;
         nb \<leftarrow> buf_getblk sct;
         case nb of
           None \<Rightarrow> ret None
         | Some b \<Rightarrow> do {
             e \<leftarrow> read_ep (b, off);
             let t = get_entry_type (ops (fs_func s)) e;
             if t \<noteq> TYPE_FILE \<and> t \<noteq> TYPE_DIR then ret None
             else do {
               let num_entries = (if type = ES_ALL_ENTRIES then e ! file_num_ext + 1 else ucast type);
               ok \<leftarrow> next_env;
               if \<not> ok then ret None
               else do {
                 r \<leftarrow> entry_set_loop (unat num_entries) (chain_flags ch = 0x03) ES_MODE_STARTED clu sct b off [];
                 ret (map_option (\<lambda>bs. \<lparr>es_sector = sct, es_offset = int off, es_alloc_flag = uint (chain_flags ch),
                        es_num_entries = unat num_entries, es_buf = bs\<rparr>) r) } } } } }"

section \<open>Writing an entry set\<close>

text \<open>
  The loop of \<^verbatim>\<open>__write_partial_entries_in_entry_set\<close>; \<open>num\<close> entries are left.  Each turn after the first fills a
  sector from its start or finishes, so that \<open>num + 1\<close> turns suffice.  Reading outside of the copy sets \<open>ub\<close>.
\<close>

fun write_set_loop :: "nat \<Rightarrow> ENTRY_SET_CACHE_T \<Rightarrow> u32 \<Rightarrow> nat \<Rightarrow> s32 \<Rightarrow> nat \<Rightarrow> s32 fsM" where
  "write_set_loop 0 es sct off buf_off num =
     (if num = 0 then ret FFS_SUCCESS else do { _ \<leftarrow> set_ub; ret FFS_ERROR })"
| "write_set_loop (Suc n) es sct off buf_off num =
     (if num = 0 then ret FFS_SUCCESS
      else do {
        bits \<leftarrow> gets sector_size_bits;
        let copy_entries = min ((2 ^ bits - off) div 32) num;
        nb \<leftarrow> buf_getblk sct;
        case nb of
          None \<Rightarrow> ret FFS_ERROR
        | Some b \<Rightarrow>
            if buf_off < 0 \<or> nat buf_off + 32 * copy_entries > length (es_buf es)
            then do { _ \<leftarrow> set_ub; ret FFS_ERROR }
            else do {
              _ \<leftarrow> set_buf b (\<lambda>p. take off p @ take (32 * copy_entries) (drop (nat buf_off) (es_buf es))
                                   @ drop (off + 32 * copy_entries) p);
              _ \<leftarrow> buf_modify sct;
              if num - copy_entries \<noteq> 0 then do {
                clu \<leftarrow> gets (GET_CLUSTER_FROM_SECTOR sct);
                nx \<leftarrow> next_sector (es_alloc_flag es = 0x03) clu sct;
                case nx of
                  None \<Rightarrow> ret FFS_ERROR
                | Some (_, sct) \<Rightarrow>
                    write_set_loop n es sct 0 (buf_off + int (32 * copy_entries)) (num - copy_entries) }
              else ret FFS_SUCCESS } })"

definition write_partial_set :: "ENTRY_SET_CACHE_T \<Rightarrow> u32 \<Rightarrow> s32 \<Rightarrow> nat \<Rightarrow> s32 fsM" where
  "write_partial_set es sct off count = write_set_loop (count + 1) es sct (nat off) (off - es_offset es) count"

definition write_whole_entry_set :: "ENTRY_SET_CACHE_T \<Rightarrow> s32 fsM" where
  "write_whole_entry_set es = write_partial_set es (es_sector es) (es_offset es) (es_num_entries es)"

text \<open>
  Entry \<open>i\<close> and the \<open>count - 1\<close> after it.  The distance of the pointers is taken in units of \<^verbatim>\<open>sizeof(void *)\<close>,
  of 8 bytes, where bytes are meant.
\<close>

definition write_partial_entries_in_entry_set :: "ENTRY_SET_CACHE_T \<Rightarrow> nat \<Rightarrow> nat \<Rightarrow> s32 fsM" where
  "write_partial_entries_in_entry_set es i count =
     (if i + count > es_num_entries es then ret FFS_ERROR
      else do {
        s \<leftarrow> gets id;
        let dir = GET_CLUSTER_FROM_SECTOR (es_sector es) s;
        let byte_offset = push_bit (sector_size_bits s) (uint (es_sector es - START_SECTOR dir s));
        let byte_offset = byte_offset + int (32 * i div 8) + es_offset es;
        w \<leftarrow> walk_fat_chain \<lparr>chain_dir = dir, chain_size = -1, chain_flags = of_int (es_alloc_flag es)\<rparr> byte_offset;
        case w of
          None \<Rightarrow> ret FFS_MEDIAERR
        | Some clu \<Rightarrow> do {
            let byte_offset = (of_int byte_offset :: u32) AND (cluster_size s - 1);
            let off = byte_offset AND sector_size_mask s;
            let sct = drop_bit (sector_size_bits s) byte_offset + START_SECTOR clu s;
            write_partial_set es sct (uint off) count } })"

section \<open>The checksum of a set\<close>

fun set_checksum :: "nat \<Rightarrow> ENTRY_SET_CACHE_T \<Rightarrow> nat \<Rightarrow> s32 \<Rightarrow> u16 \<Rightarrow> u16" where
  "set_checksum 0 es i type chksum = chksum"
| "set_checksum (Suc n) es i type chksum =
     set_checksum n es (i + 1) CS_DEFAULT (calc_checksum_2byte (es_get es i) DENTRY_SIZE chksum type)"

definition es_checksum :: "ENTRY_SET_CACHE_T \<Rightarrow> u16" where
  "es_checksum es = set_checksum (es_num_entries es) es 0 CS_DIR_ENTRY 0"

definition update_dir_checksum_with_entry_set :: "ENTRY_SET_CACHE_T \<Rightarrow> unit fsM" where
  "update_dir_checksum_with_entry_set es = do {
     _ \<leftarrow> es_touch 0 es;
     _ \<leftarrow> write_whole_entry_set (es_upd 0 (\<lambda>e. SET16 e file_checksum (es_checksum es)) es);
     ret () }"

end
