(* ===== verification/DirSearch.thy ===== *)
theory DirSearch
  imports EntrySet "HOL-Library.Signed_Division"
begin

text \<open>
  Searching directories (\<^verbatim>\<open>exfat_core.c\<close>): for a name, for room, for the numbers of DOS names; counting entries.
  The functions that go through a whole directory share one shape, a loop over the clusters of the directory around
  a loop over the entries of a cluster; it is written once (\<open>scan_dir\<close>) and given the body of the inner loop, what
  happens when an entry cannot be read and what is returned at the end.
\<close>

section \<open>Going through a directory\<close>

text \<open>How a body of the inner loop ends: the function returns, \<^verbatim>\<open>break\<close>, or the loop goes on.\<close>

datatype ('r, 'a) ctl = Ret 'r | Brk 'a | Cont 'a

fun entries_loop :: "nat \<Rightarrow> CHAIN_T \<Rightarrow> s32 \<Rightarrow> ('a \<Rightarrow> ('r, 'a) ctl) \<Rightarrow>
    (CHAIN_T \<Rightarrow> u8 list \<Rightarrow> 'a \<Rightarrow> ('r, 'a) ctl fsM) \<Rightarrow> 'a \<Rightarrow> ('r, 'a) ctl fsM" where
  "entries_loop 0 clu i fail body a = ret (Cont a)"
| "entries_loop (Suc n) clu i fail body a = do {
     r \<leftarrow> get_entry_in_dir clu i;
     case r of
       None \<Rightarrow> ret (fail a)
     | Some (ep, _) \<Rightarrow> do {
         e \<leftarrow> read_ep ep;
         x \<leftarrow> body clu e a;
         case x of
           Cont a \<Rightarrow> entries_loop n clu (i + 1) fail body a
         | _ \<Rightarrow> ret x } }"

text \<open>The two ways to the next cluster; \<open>None\<close> when the FAT cannot be read.\<close>

definition fat_next :: "CHAIN_T \<Rightarrow> CHAIN_T option fsM" where
  "fat_next clu = do {
     rd \<leftarrow> FAT_read (chain_dir clu);
     ret (map_option (\<lambda>c. clu\<lparr>chain_dir := c\<rparr>) rd) }"

definition chain_next :: "CHAIN_T \<Rightarrow> CHAIN_T option fsM" where
  "chain_next clu =
     (if chain_flags clu = 0x03 then
        ret (Some (if chain_size clu - 1 > 0
                   then clu\<lparr>chain_size := chain_size clu - 1, chain_dir := chain_dir clu + 1\<rparr>
                   else clu\<lparr>chain_size := chain_size clu - 1, chain_dir := CLU_EOF\<rparr>))
      else fat_next clu)"

text \<open>
  \<open>root\<close>: the directory is the root of a FAT12/16 volume; \<open>start\<close> gives the first entry in the cluster.
\<close>

fun clusters_loop :: "nat \<Rightarrow> bool \<Rightarrow> s32 \<Rightarrow> ('a \<Rightarrow> s32) \<Rightarrow> (CHAIN_T \<Rightarrow> CHAIN_T option fsM) \<Rightarrow> ('a \<Rightarrow> ('r, 'a) ctl) \<Rightarrow>
    (CHAIN_T \<Rightarrow> u8 list \<Rightarrow> 'a \<Rightarrow> ('r, 'a) ctl fsM) \<Rightarrow> ('a \<Rightarrow> 'r) \<Rightarrow> ('a \<Rightarrow> 'r) \<Rightarrow> CHAIN_T \<Rightarrow> 'a \<Rightarrow> 'r fsM" where
  "clusters_loop 0 root dpc start next fail body broken done clu a = do { _ \<leftarrow> set_ub; ret (done a) }"
| "clusters_loop (Suc n) root dpc start next fail body broken done clu a =
     (if chain_dir clu = CLU_EOF then ret (done a)
      else do {
        ej \<leftarrow> gets dev_ejected;
        if ej then ret (done a)
        else do {
          x \<leftarrow> entries_loop (nat (dpc - start a)) clu (start a) fail body a;
          case x of
            Ret r \<Rightarrow> ret r
          | Brk a \<Rightarrow> if root then ret (done a) else do {
              nx \<leftarrow> next clu;
              case nx of None \<Rightarrow> ret (broken a)
              | Some clu \<Rightarrow> clusters_loop n root dpc start next fail body broken done clu a }
          | Cont a \<Rightarrow> if root then ret (done a) else do {
              nx \<leftarrow> next clu;
              case nx of None \<Rightarrow> ret (broken a)
              | Some clu \<Rightarrow> clusters_loop n root dpc start next fail body broken done clu a } } })"

definition dir_dentries :: "CHAIN_T \<Rightarrow> vol \<Rightarrow> s32" where
  "dir_dentries p_dir s = (if chain_dir p_dir = 0 then sint (dentries_in_root s) else sint (dentries_per_clu s))"

definition scan_dir :: "CHAIN_T \<Rightarrow> (CHAIN_T \<Rightarrow> CHAIN_T option fsM) \<Rightarrow> ('a \<Rightarrow> ('r, 'a) ctl) \<Rightarrow>
    (CHAIN_T \<Rightarrow> u8 list \<Rightarrow> 'a \<Rightarrow> ('r, 'a) ctl fsM) \<Rightarrow> ('a \<Rightarrow> 'r) \<Rightarrow> ('a \<Rightarrow> 'r) \<Rightarrow> 'a \<Rightarrow> 'r fsM" where
  "scan_dir p_dir next fail body broken done a = do {
     s \<leftarrow> gets id;
     clusters_loop CHAIN_FUEL (chain_dir p_dir = 0) (dir_dentries p_dir s) (\<lambda>_. 0) next fail body broken done p_dir a }"

section \<open>Room for new entries\<close>

text \<open>The state is \<^verbatim>\<open>dentry\<close> and \<^verbatim>\<open>num_empty\<close>.\<close>

definition empty_body :: "CHAIN_T \<Rightarrow> s32 \<Rightarrow> CHAIN_T \<Rightarrow> u8 list \<Rightarrow> s32 \<times> s32 \<Rightarrow> (s32, s32 \<times> s32) ctl fsM" where
  "empty_body p_dir num_entries clu e a = (case a of (dentry, num_empty) \<Rightarrow> do {
     s \<leftarrow> gets id;
     let t = get_entry_type (ops (fs_func s)) e;
     _ \<leftarrow> whenM (t = TYPE_UNUSED \<and> ue_entry (hint_uentry s) = -1)
            (modify (\<lambda>s. s\<lparr>hint_uentry := \<lparr>ue_dir = chain_dir p_dir, ue_entry = dentry, ue_clu = clu\<rparr>\<rparr>));
     let num_empty = (if t = TYPE_UNUSED \<or> t = TYPE_DELETED then num_empty + 1 else 0);
     if num_empty \<ge> num_entries then do {
       _ \<leftarrow> modify (\<lambda>s. s\<lparr>hint_uentry := (hint_uentry s)\<lparr>ue_dir := CLU_EOF, ue_entry := -1\<rparr>\<rparr>);
       ret (Ret (if vol_type s = EXFAT then dentry - (num_entries - 1) else dentry)) }
     else ret (Cont (dentry + 1, num_empty)) })"

definition search_deleted_or_unused_entry :: "CHAIN_T \<Rightarrow> s32 \<Rightarrow> s32 fsM" where
  "search_deleted_or_unused_entry p_dir num_entries = do {
     s \<leftarrow> gets id;
     let dpc = dir_dentries p_dir s;
     let root = (chain_dir p_dir = 0);
     let h = hint_uentry s;
     if ue_dir h = chain_dir p_dir \<and> ue_entry h = -1 then ret (-1)
     else do {
       let (clu, dentry) = (if ue_dir h = chain_dir p_dir then (ue_clu h, ue_entry h) else (p_dir, 0));
       _ \<leftarrow> whenM (ue_dir h \<noteq> chain_dir p_dir) (modify (\<lambda>s. s\<lparr>hint_uentry := (hint_uentry s)\<lparr>ue_entry := -1\<rparr>\<rparr>));
       if root \<and> dpc = 0 then do { _ \<leftarrow> whenM (chain_dir clu \<noteq> CLU_EOF \<and> \<not> dev_ejected s) set_ub; ret (-1) }
       else clusters_loop CHAIN_FUEL root dpc (\<lambda>(d, _). if root then d smod dpc else d AND (dpc - 1)) chain_next
              (\<lambda>_. Ret (-1)) (empty_body p_dir num_entries) (\<lambda>_. -1) (\<lambda>_. -1) clu (dentry, 0) } }"

section \<open>Finding a name\<close>

text \<open>
  \<open>up\<close> is the case mapping.  The array of the searched name is \<open>un_name\<close> with \<^verbatim>\<open>MAX_NAME_LENGTH\<close> units; a pointer
  into it is an index, \<open>None\<close> the null pointer; using it outside of the array sets \<open>ub\<close>.  Both functions put
  a zero behind the units they compare and take it back afterwards.
\<close>

definition compare_part :: "(u16 \<Rightarrow> u16) \<Rightarrow> u16 list \<Rightarrow> s32 option \<Rightarrow> u16 list \<Rightarrow> nat \<Rightarrow> bool option" where
  "compare_part up un ptr part len =
     (case ptr of
        None \<Rightarrow> None
      | Some p \<Rightarrow>
          if p < 0 \<or> nat p + len \<ge> MAX_NAME_LENGTH then None
          else Some (nls_uniname_cmp up (un[nat p + len := 0]) (nat p) part 0 = 0))"

definition is_root_dot :: "(u16 \<Rightarrow> u16) \<Rightarrow> CHAIN_T \<Rightarrow> UNI_NAME_T \<Rightarrow> vol \<Rightarrow> bool" where
  "is_root_dot up p_dir un s \<longleftrightarrow> chain_dir p_dir = root_dir s \<and>
     (nls_uniname_cmp up (un_name un) 0 UNI_CUR_DIR_NAME 0 = 0 \<or> nls_uniname_cmp up (un_name un) 0 UNI_PAR_DIR_NAME 0 = 0)"

record fat_find =
  ff_dentry :: s32
  ff_feasible :: bool
  ff_has_ext :: bool
  ff_uniname :: "s32 option"

definition fat_find_body :: "(u16 \<Rightarrow> u16) \<Rightarrow> UNI_NAME_T \<Rightarrow> DOS_NAME_T \<Rightarrow> u32 \<Rightarrow> CHAIN_T \<Rightarrow> u8 list \<Rightarrow> fat_find \<Rightarrow>
    (s32, fat_find) ctl fsM" where
  "fat_find_body up un dn type clu e a = do {
     s \<leftarrow> gets id;
     let t = get_entry_type (ops (fs_func s)) e;
     let a1 = a\<lparr>ff_dentry := ff_dentry a + 1\<rparr>;
     if t = TYPE_FILE \<or> t = TYPE_DIR then
       (if (type = TYPE_ALL \<or> type = t) \<and>
           ((ff_feasible a \<and> ff_has_ext a) \<or> nls_dosname_cmp (dn_name dn) (take 11 e) = 0)
        then ret (Ret (ff_dentry a))
        else ret (Cont (a1\<lparr>ff_feasible := True, ff_has_ext := False\<rparr>)))
     else if t = TYPE_EXTEND then
       (if ff_feasible a then
          (let o1 = e ! ext_order;
               order = (if o1 > 0x40 then uint o1 - 0x40 else uint o1);
               ptr = (if o1 > 0x40 then Some (13 * (order - 1)) else map_option (\<lambda>p. p - 13) (ff_uniname a))
           in case extract_uni_name_from_ext_entry e (replicate 14 0) 0 order of (part, len) \<Rightarrow>
             (case compare_part up (un_name un) ptr part len of
                None \<Rightarrow> do { _ \<leftarrow> set_ub; ret (Ret (-2)) }
              | Some eq \<Rightarrow> ret (Cont (a1\<lparr>ff_feasible := eq, ff_has_ext := True, ff_uniname := ptr\<rparr>))))
        else ret (Cont (a1\<lparr>ff_has_ext := True\<rparr>)))
     else if t = TYPE_UNUSED then ret (Ret (-2))
     else ret (Cont (a1\<lparr>ff_feasible := True, ff_has_ext := False\<rparr>)) }"

definition fat_find_dir_entry :: "(u16 \<Rightarrow> u16) \<Rightarrow> CHAIN_T \<Rightarrow> UNI_NAME_T \<Rightarrow> s32 \<Rightarrow> DOS_NAME_T \<Rightarrow> u32 \<Rightarrow> s32 fsM" where
  "fat_find_dir_entry up p_dir un num_entries dn type = do {
     s \<leftarrow> gets id;
     if is_root_dot up p_dir un s then ret (-1)
     else scan_dir p_dir fat_next (\<lambda>_. Ret (-2)) (fat_find_body up un dn type) (\<lambda>_. -2) (\<lambda>_. -2)
            \<lparr>ff_dentry = 0, ff_feasible = True, ff_has_ext = False, ff_uniname = None\<rparr> }"

record exfat_find =
  ef_dentry :: s32
  ef_num_ext :: s32
  ef_order :: s32
  ef_feasible :: bool
  ef_num_empty :: s32
  ef_uniname :: "s32 option"

definition set_hint :: "(UENTRY_T \<Rightarrow> UENTRY_T) \<Rightarrow> unit fsM" where
  "set_hint f = modify (\<lambda>s. s\<lparr>hint_uentry := f (hint_uentry s)\<rparr>)"

text \<open>An unused or deleted entry: counting the run and the hint for the next search for room.\<close>

definition exfat_find_free :: "s32 \<Rightarrow> CHAIN_T \<Rightarrow> u32 \<Rightarrow> exfat_find \<Rightarrow> (s32, exfat_find) ctl fsM" where
  "exfat_find_free num_entries clu t a = do {
     h \<leftarrow> gets hint_uentry;
     let a = a\<lparr>ef_feasible := False\<rparr>;
     a \<leftarrow> (if ue_entry h = -1 then do {
              let n = ef_num_empty a + 1;
              _ \<leftarrow> whenM (n = 1) (set_hint (\<lambda>h. h\<lparr>ue_clu := clu\<rparr>));
              _ \<leftarrow> whenM (n \<ge> num_entries \<or> t = TYPE_UNUSED) (set_hint (\<lambda>h. h\<lparr>ue_entry := ef_dentry a - (n - 1)\<rparr>));
              ret (a\<lparr>ef_num_empty := n\<rparr>) }
            else ret a);
     ret (if t = TYPE_UNUSED then Ret (-2) else Cont (a\<lparr>ef_dentry := ef_dentry a + 1\<rparr>)) }"

definition exfat_find_body :: "(u16 \<Rightarrow> u16) \<Rightarrow> UNI_NAME_T \<Rightarrow> s32 \<Rightarrow> u32 \<Rightarrow> CHAIN_T \<Rightarrow> u8 list \<Rightarrow> exfat_find \<Rightarrow>
    (s32, exfat_find) ctl fsM" where
  "exfat_find_body up un num_entries type clu e a = do {
     s \<leftarrow> gets id;
     let t = get_entry_type (ops (fs_func s)) e;
     if t = TYPE_UNUSED \<or> t = TYPE_DELETED then exfat_find_free num_entries clu t a
     else do {
       let a1 = a\<lparr>ef_num_empty := 0, ef_dentry := ef_dentry a + 1\<rparr>;
       if t = TYPE_FILE \<or> t = TYPE_DIR then
         ret (Cont (if type = TYPE_ALL \<or> type = t
                    then a1\<lparr>ef_num_ext := uint (e ! file_num_ext), ef_feasible := True\<rparr>
                    else a1\<lparr>ef_feasible := False\<rparr>))
       else if t = TYPE_STREAM then
         ret (Cont (if ef_feasible a then
                      (if un_len un = e ! strm_name_len then a1\<lparr>ef_order := 1\<rparr> else a1\<lparr>ef_feasible := False\<rparr>)
                    else a1))
       else if t = TYPE_EXTEND then
         (if ef_feasible a then
            (let order = ef_order a + 1;
                 ptr = (if order = 2 then Some 0 else map_option (\<lambda>p. p + 15) (ef_uniname a))
             in case extract_uni_name_from_name_entry e (replicate 16 0) 0 order of (part, len) \<Rightarrow>
               (case compare_part up (un_name un) ptr part len of
                  None \<Rightarrow> do { _ \<leftarrow> set_ub; ret (Ret (-2)) }
                | Some eq \<Rightarrow>
                    if \<not> eq then ret (Cont (a1\<lparr>ef_order := order, ef_uniname := ptr, ef_feasible := False\<rparr>))
                    else if order = ef_num_ext a then do {
                      _ \<leftarrow> set_hint (\<lambda>h. h\<lparr>ue_dir := CLU_EOF, ue_entry := -1\<rparr>);
                      ret (Ret (ef_dentry a - ef_num_ext a)) }
                    else ret (Cont (a1\<lparr>ef_order := order, ef_uniname := ptr\<rparr>))))
          else ret (Cont a1))
       else ret (Cont (a1\<lparr>ef_feasible := False\<rparr>)) } }"

definition exfat_find_dir_entry :: "(u16 \<Rightarrow> u16) \<Rightarrow> CHAIN_T \<Rightarrow> UNI_NAME_T \<Rightarrow> s32 \<Rightarrow> DOS_NAME_T \<Rightarrow> u32 \<Rightarrow> s32 fsM" where
  "exfat_find_dir_entry up p_dir un num_entries dn type = do {
     s \<leftarrow> gets id;
     if is_root_dot up p_dir un s then ret (-1)
     else do {
       _ \<leftarrow> set_hint (\<lambda>h. h\<lparr>ue_dir := chain_dir p_dir, ue_entry := -1\<rparr>);
       scan_dir p_dir chain_next (\<lambda>_. Ret (-2)) (exfat_find_body up un num_entries type) (\<lambda>_. -2) (\<lambda>_. -2)
         \<lparr>ef_dentry = 0, ef_num_ext = 0, ef_order = 0, ef_feasible = False, ef_num_empty = 0, ef_uniname = None\<rparr> } }"

fun find_dir_entry :: "fs_kind \<Rightarrow> (u16 \<Rightarrow> u16) \<Rightarrow> CHAIN_T \<Rightarrow> UNI_NAME_T \<Rightarrow> s32 \<Rightarrow> DOS_NAME_T \<Rightarrow> u32 \<Rightarrow> s32 fsM" where
  "find_dir_entry FatOps = fat_find_dir_entry"
| "find_dir_entry ExfatOps = exfat_find_dir_entry"

section \<open>Counting\<close>

fun fat_count_ext_loop :: "nat \<Rightarrow> CHAIN_T \<Rightarrow> s32 \<Rightarrow> u8 \<Rightarrow> s32 \<Rightarrow> s32 fsM" where
  "fat_count_ext_loop 0 ch entry chksum count = ret count"
| "fat_count_ext_loop (Suc n) ch entry chksum count = do {
     r \<leftarrow> get_entry_in_dir ch entry;
     case r of
       None \<Rightarrow> ret (-1)
     | Some (ep, _) \<Rightarrow> do {
         e \<leftarrow> read_ep ep;
         k \<leftarrow> gets fs_func;
         if get_entry_type (ops k) e = TYPE_EXTEND \<and> e ! ext_checksum = chksum then
           (if e ! ext_order > 0x40 then ret (count + 1)
            else fat_count_ext_loop n ch (entry - 1) chksum (count + 1))
         else ret count } }"

definition fat_count_ext_entries :: "CHAIN_T \<Rightarrow> s32 \<Rightarrow> u8 list \<Rightarrow> s32 fsM" where
  "fat_count_ext_entries ch entry p_entry =
     fat_count_ext_loop (nat entry) ch (entry - 1) (calc_checksum_1byte p_entry DOS_NAME_LENGTH 0) 0"

fun exfat_count_ext_loop :: "nat \<Rightarrow> CHAIN_T \<Rightarrow> s32 \<Rightarrow> s32 \<Rightarrow> s32 fsM" where
  "exfat_count_ext_loop 0 ch entry count = ret count"
| "exfat_count_ext_loop (Suc n) ch entry count = do {
     r \<leftarrow> get_entry_in_dir ch entry;
     case r of
       None \<Rightarrow> ret (-1)
     | Some (ep, _) \<Rightarrow> do {
         e \<leftarrow> read_ep ep;
         k \<leftarrow> gets fs_func;
         let t = get_entry_type (ops k) e;
         if t = TYPE_EXTEND \<or> t = TYPE_STREAM then exfat_count_ext_loop n ch (entry + 1) (count + 1) else ret count } }"

definition exfat_count_ext_entries :: "CHAIN_T \<Rightarrow> s32 \<Rightarrow> u8 list \<Rightarrow> s32 fsM" where
  "exfat_count_ext_entries ch entry p_entry = exfat_count_ext_loop (unat (p_entry ! file_num_ext)) ch (entry + 1) 0"

fun count_ext_entries :: "fs_kind \<Rightarrow> CHAIN_T \<Rightarrow> s32 \<Rightarrow> u8 list \<Rightarrow> s32 fsM" where
  "count_ext_entries FatOps = fat_count_ext_entries"
| "count_ext_entries ExfatOps = exfat_count_ext_entries"

definition count_body :: "u32 \<Rightarrow> CHAIN_T \<Rightarrow> u8 list \<Rightarrow> s32 \<Rightarrow> (s32, s32) ctl fsM" where
  "count_body type clu e count = do {
     k \<leftarrow> gets fs_func;
     let t = get_entry_type (ops k) e;
     if t = TYPE_UNUSED then ret (Ret count)
     else if type AND TYPE_CRITICAL_PRI = 0 \<and> type AND TYPE_BENIGN_PRI = 0 then ret (Cont count)
     else ret (Cont (if type = TYPE_ALL \<or> type = t then count + 1 else count)) }"

definition count_dos_name_entries :: "CHAIN_T \<Rightarrow> u32 \<Rightarrow> s32 fsM" where
  "count_dos_name_entries p_dir type =
     scan_dir p_dir chain_next (\<lambda>_. Ret (-1)) (count_body type) (\<lambda>_. -1) id 0"

definition dir_empty_body :: "CHAIN_T \<Rightarrow> CHAIN_T \<Rightarrow> u8 list \<Rightarrow> s32 \<Rightarrow> (bool, s32) ctl fsM" where
  "dir_empty_body p_dir clu e count = do {
     s \<leftarrow> gets id;
     let t = get_entry_type (ops (fs_func s)) e;
     if t = TYPE_UNUSED then ret (Ret True)
     else if t \<noteq> TYPE_FILE \<and> t \<noteq> TYPE_DIR then ret (Cont count)
     else if chain_dir p_dir = 0 then ret (Ret False)
     else if vol_type s = EXFAT then ret (Ret False)
     else if chain_dir p_dir = root_dir s \<or> count + 1 > 2 then ret (Ret False)
     else ret (Cont (count + 1)) }"

definition is_dir_empty :: "CHAIN_T \<Rightarrow> bool fsM" where
  "is_dir_empty p_dir = scan_dir p_dir chain_next Brk (dir_empty_body p_dir) (\<lambda>_. True) (\<lambda>_. True) 0"

section \<open>DOS names\<close>

definition dos_names_body :: "CHAIN_T \<Rightarrow> u8 list \<Rightarrow> u8 list \<Rightarrow> (u8 list option, u8 list) ctl fsM" where
  "dos_names_body clu e bmap = do {
     k \<leftarrow> gets fs_func;
     let t = get_entry_type (ops k) e;
     if t = TYPE_UNUSED then ret (Brk bmap)
     else if t \<noteq> TYPE_FILE \<and> t \<noteq> TYPE_DIR then ret (Cont bmap)
     else do {
       let count = name_count 8 e 0 False 0;
       ret (Cont (if 0 < count \<and> count < 1024 then exfat_bitmap_set bmap count else bmap)) } }"

definition fat_generate_dos_name :: "CHAIN_T \<Rightarrow> DOS_NAME_T \<Rightarrow> (s32 \<times> DOS_NAME_T) fsM" where
  "fat_generate_dos_name p_dir dn = do {
     bm \<leftarrow> scan_dir p_dir fat_next (\<lambda>_. Ret None) dos_names_body (\<lambda>_. None) Some (exfat_bitmap_set (replicate 128 0) 0);
     case bm of
       None \<Rightarrow> ret (FFS_MEDIAERR, dn)
     | Some bmap \<Rightarrow> do {
         let count = free_count bmap;
         if count = 0 \<or> count \<ge> 1024 then ret (FFS_FILEEXIST, dn)
         else ret (FFS_SUCCESS, dn\<lparr>dn_name := fat_attach_count_to_dos_name (dn_name dn) count\<rparr>) } }"

fun calc_num_entries :: "fs_kind \<Rightarrow> UNI_NAME_T \<Rightarrow> s32" where
  "calc_num_entries FatOps un = fat_calc_num_entries (un_len un)"
| "calc_num_entries ExfatOps un = exfat_calc_num_entries (un_len un)"

text \<open>Result: the code, \<^verbatim>\<open>*entries\<close> and the DOS name.  \<open>dn\<close> is the content of the name before.\<close>

definition get_num_entries_and_dos_name ::
    "(u16 \<Rightarrow> u16) \<Rightarrow> nls \<Rightarrow> CHAIN_T \<Rightarrow> UNI_NAME_T \<Rightarrow> DOS_NAME_T \<Rightarrow> (s32 \<times> s32 \<times> DOS_NAME_T) fsM" where
  "get_num_entries_and_dos_name up t p_dir un dn = do {
     s \<leftarrow> gets id;
     let n = calc_num_entries (fs_func s) un;
     if n = 0 then ret (FFS_INVALIDPATH, 0, dn)
     else if vol_type s = EXFAT then ret (FFS_SUCCESS, n, dn)
     else
       (case nls_uniname_to_dosname up t (un_name un) of (dn, lossy) \<Rightarrow>
          if lossy then do {
            (r, dn) \<leftarrow> fat_generate_dos_name p_dir dn;
            if r \<noteq> 0 then ret (r, 0, dn)
            else ret (FFS_SUCCESS, n, if n > 1 then dn\<lparr>dn_case := 0\<rparr> else dn) }
          else if \<exists>r \<in> set reserved_names. strncmp8 8 (dn_name dn) r 0 = 0 then ret (FFS_INVALIDPATH, 0, dn)
          else do {
            let n = (if dn_case dn \<noteq> 0xFF then 1 else n);
            ret (FFS_SUCCESS, n, if n > 1 then dn\<lparr>dn_case := 0\<rparr> else dn) }) }"

section \<open>Names of entries\<close>

definition get_uni_name_from_dos_entry :: "nls \<Rightarrow> u8 list \<Rightarrow> u8 \<Rightarrow> u16 list" where
  "get_uni_name_from_dos_entry t e mode =
     nls_dosname_to_uniname t \<lparr>dn_name = take DOS_NAME_LENGTH e, dn_case = (if mode = 0x0 then 0x0 else e ! dos_lcase)\<rparr>"

text \<open>The array \<open>u\<close> and the position \<open>k\<close> of the pointer into it.\<close>

fun fat_name_loop :: "nat \<Rightarrow> CHAIN_T \<Rightarrow> s32 \<Rightarrow> s32 \<Rightarrow> u16 list \<Rightarrow> nat \<Rightarrow> u16 list fsM" where
  "fat_name_loop 0 ch entry i u k = ret u"
| "fat_name_loop (Suc n) ch entry i u k = do {
     r \<leftarrow> get_entry_in_dir ch entry;
     case r of
       None \<Rightarrow> ret u
     | Some (ep, _) \<Rightarrow> do {
         e \<leftarrow> read_ep ep;
         fk \<leftarrow> gets fs_func;
         if get_entry_type (ops fk) e = TYPE_EXTEND then
           (case extract_uni_name_from_ext_entry e u k i of (u', len) \<Rightarrow> do {
              _ \<leftarrow> whenM (k + len \<ge> MAX_NAME_LENGTH) set_ub;
              if e ! ext_order > 0x40 then ret u'
              else fat_name_loop n ch (entry - 1) (i + 1) u' (k + 13) })
         else ret u } }"

definition fat_get_uni_name_from_ext_entry :: "CHAIN_T \<Rightarrow> s32 \<Rightarrow> u16 list \<Rightarrow> u16 list fsM" where
  "fat_get_uni_name_from_ext_entry ch entry u = fat_name_loop (nat entry) ch (entry - 1) 1 u 0"

fun exfat_names_loop :: "nat \<Rightarrow> fs_kind \<Rightarrow> ENTRY_SET_CACHE_T \<Rightarrow> nat \<Rightarrow> u16 list \<Rightarrow> nat \<Rightarrow> u16 list fsM" where
  "exfat_names_loop 0 fk es i u k = ret u"
| "exfat_names_loop (Suc n) fk es i u k =
     (if get_entry_type (ops fk) (es_get es i) = TYPE_EXTEND then
        (case extract_uni_name_from_name_entry (es_get es i) u k (int i) of (u', len) \<Rightarrow> do {
           _ \<leftarrow> whenM (k + len \<ge> MAX_NAME_LENGTH) set_ub;
           exfat_names_loop n fk es (i + 1) u' (k + 15) })
      else ret u)"

definition exfat_get_uni_name_from_ext_entry :: "CHAIN_T \<Rightarrow> s32 \<Rightarrow> u16 list \<Rightarrow> u16 list fsM" where
  "exfat_get_uni_name_from_ext_entry ch entry u = do {
     r \<leftarrow> get_entry_set_in_dir ch entry ES_ALL_ENTRIES;
     case r of
       None \<Rightarrow> ret u
     | Some es \<Rightarrow>
         if es_num_entries es < 3 then ret u
         else do {
           fk \<leftarrow> gets fs_func;
           exfat_names_loop (es_num_entries es - 2) fk es 2 u 0 } }"

fun get_uni_name_from_ext_entry :: "fs_kind \<Rightarrow> CHAIN_T \<Rightarrow> s32 \<Rightarrow> u16 list \<Rightarrow> u16 list fsM" where
  "get_uni_name_from_ext_entry FatOps = fat_get_uni_name_from_ext_entry"
| "get_uni_name_from_ext_entry ExfatOps = exfat_get_uni_name_from_ext_entry"

end
