(* ===== verification/Upcase.thy ===== *)
theory Upcase
  imports DirSearch UpcaseTable
begin

text \<open>
  The up-case table of an exFAT volume (\<^verbatim>\<open>exfat_core.c\<close>): decoding the compressed table of the volume or the
  built-in one into \<^verbatim>\<open>vol_utbl\<close>, 256 rows of 256 code units of which only those are allocated that differ from the
  identity.
\<close>

section \<open>Decoding\<close>

text \<open>
  Storing the image of \<open>index\<close>, the row being allocated when it is not there; false when there is no memory.
\<close>

definition upcase_row :: "nat \<Rightarrow> u16 list" where
  "upcase_row col = map (\<lambda>j. push_bit 8 (of_nat col) OR of_nat j) [0..<256]"

definition upcase_put :: "u32 \<Rightarrow> u16 \<Rightarrow> bool fsM" where
  "upcase_put index uni = do {
     let col = get_col_index (ucast index);
     let row = get_row_index (ucast index);
     t \<leftarrow> gets vol_utbl;
     case t of
       None \<Rightarrow> do { _ \<leftarrow> set_ub; ret False }
     | Some t \<Rightarrow> do {
         r \<leftarrow> (case t col of
                 Some r \<Rightarrow> ret (Some r)
               | None \<Rightarrow> do { ok \<leftarrow> next_env; ret (if ok then Some (upcase_row col) else None) });
         case r of
           None \<Rightarrow> ret False
         | Some r \<Rightarrow> do {
             _ \<leftarrow> modify (\<lambda>s. s\<lparr>vol_utbl := Some (t(col := Some (r[row := uni])))\<rparr>);
             ret True } } }"

text \<open>One code unit: \<^verbatim>\<open>index\<close> and \<^verbatim>\<open>skip\<close> afterwards, \<open>None\<close> when there is no memory.\<close>

definition upcase_unit :: "u16 \<Rightarrow> u32 \<times> bool \<Rightarrow> (u32 \<times> bool) option fsM" where
  "upcase_unit uni st = (case st of (index, skip) \<Rightarrow>
     (if skip then ret (Some (index + ucast uni, False))
      else if ucast uni = index then ret (Some (index + 1, False))
      else if uni = 0xFFFF then ret (Some (index, True))
      else do {
        ok \<leftarrow> upcase_put index uni;
        ret (if ok then Some (index + 1, False) else None) }))"

definition new_upcase_table :: "bool fsM" where
  "new_upcase_table = do {
     ok \<leftarrow> next_env;
     _ \<leftarrow> modify (\<lambda>s. s\<lparr>vol_utbl := if ok then Some (\<lambda>_. None) else None\<rparr>);
     ret ok }"

definition free_upcase_table :: "unit fsM" where
  "free_upcase_table = do {
     s \<leftarrow> gets id;
     _ \<leftarrow> whenM (vol_utbl s = None) set_ub;
     modify (\<lambda>s. s\<lparr>vol_utbl := None\<rparr>) }"

section \<open>The table of the volume\<close>

definition utbl_checksum :: "u32 \<Rightarrow> u8 \<Rightarrow> u32" where
  "utbl_checksum c b = (if c AND 1 \<noteq> 0 then 0x80000000 else 0) + drop_bit 1 c + ucast b"

text \<open>The loop over the code units of a sector; \<open>n\<close> of them are left, the next one is at offset \<open>i\<close> of \<open>p\<close>.\<close>

fun utbl_units :: "nat \<Rightarrow> u8 list \<Rightarrow> nat \<Rightarrow> u32 \<Rightarrow> u32 \<times> bool \<Rightarrow> (u32 \<times> u32 \<times> bool) option fsM" where
  "utbl_units 0 p i chk st = ret (Some (chk, st))"
| "utbl_units (Suc n) p i chk st =
     (if fst st > 0xFFFF then ret (Some (chk, st))
      else do {
        r \<leftarrow> upcase_unit (GET16 p i) st;
        case r of
          None \<Rightarrow> ret None
        | Some st \<Rightarrow> utbl_units n p (i + 2) (utbl_checksum (utbl_checksum chk (p ! i)) (p ! (i + 1))) st })"

text \<open>The loop over the sectors; the result is an error code or the checksum and the index reached.\<close>

fun utbl_sectors :: "nat \<Rightarrow> u32 \<Rightarrow> u32 option \<Rightarrow> u32 \<Rightarrow> u32 \<times> bool \<Rightarrow> (s32 + (u32 \<times> u32)) fsM" where
  "utbl_sectors 0 sct bh chk st = ret (Inr (chk, fst st))"
| "utbl_sectors (Suc n) sct bh chk st = do {
     (r, bh) \<leftarrow> sector_read sct bh True;
     if r \<noteq> FFS_SUCCESS then ret (Inl r)
     else case bh of
       None \<Rightarrow> do { _ \<leftarrow> set_ub; ret (Inl FFS_MEDIAERR) }
     | Some b \<Rightarrow> do {
         s \<leftarrow> gets id;
         x \<leftarrow> utbl_units ((unat (sector_size s) + 1) div 2) (bufs s b) 0 chk st;
         case x of
           None \<Rightarrow> ret (Inl FFS_MEMORYERR)
         | Some (chk, st) \<Rightarrow> utbl_sectors n (sct + 1) (Some b) chk st } }"

definition load_volume_upcase_table :: "u32 \<Rightarrow> u32 \<Rightarrow> u32 \<Rightarrow> s32 fsM" where
  "load_volume_upcase_table sct num_secs checksum = do {
     ok \<leftarrow> new_upcase_table;
     if \<not> ok then ret FFS_MEMORYERR
     else do {
       let lim = num_secs + sct;
       x \<leftarrow> utbl_sectors (if sct < lim then unat (lim - sct) else 0) sct None 0 (0, False);
       case x of
         Inl r \<Rightarrow> do { _ \<leftarrow> free_upcase_table; ret r }
       | Inr (chk, index) \<Rightarrow>
           if index \<ge> 0xFFFF \<and> checksum = chk then ret FFS_SUCCESS
           else do { _ \<leftarrow> free_upcase_table; ret FFS_ERROR } } }"

section \<open>The built-in table\<close>

fun default_units :: "nat \<Rightarrow> nat \<Rightarrow> u32 \<times> bool \<Rightarrow> (u32 \<times> bool) option fsM" where
  "default_units 0 i st = ret (Some st)"
| "default_units (Suc n) i st =
     (if fst st > 0xFFFF then ret (Some st)
      else do {
        r \<leftarrow> upcase_unit (GET16 uni_upcase i) st;
        case r of None \<Rightarrow> ret None | Some st \<Rightarrow> default_units n (i + 2) st })"

definition load_default_upcase_table :: "s32 fsM" where
  "load_default_upcase_table = do {
     ok \<leftarrow> new_upcase_table;
     if \<not> ok then ret FFS_MEMORYERR
     else do {
       x \<leftarrow> default_units NUM_UPCASE 0 (0, False);
       case x of
         None \<Rightarrow> do { _ \<leftarrow> free_upcase_table; ret FFS_MEMORYERR }
       | Some (index, _) \<Rightarrow>
           if index \<ge> 0xFFFF then ret FFS_SUCCESS else do { _ \<leftarrow> free_upcase_table; ret FFS_ERROR } } }"

section \<open>Finding the table\<close>

text \<open>\<^verbatim>\<open>BMAP_DENTRY_T\<close> and \<^verbatim>\<open>CASE_DENTRY_T\<close>\<close>

definition bmap_flags :: nat where "bmap_flags = 1"
definition bmap_start_clu :: nat where "bmap_start_clu = 20"
definition bmap_size :: nat where "bmap_size = 24"
definition case_checksum :: nat where "case_checksum = 4"
definition case_start_clu :: nat where "case_start_clu = 20"
definition case_size :: nat where "case_size = 24"

definition upcase_body :: "CHAIN_T \<Rightarrow> u8 list \<Rightarrow> unit \<Rightarrow> (s32, unit) ctl fsM" where
  "upcase_body clu e _ = do {
     s \<leftarrow> gets id;
     let t = get_entry_type (ops (fs_func s)) e;
     if t = TYPE_UNUSED then ret (Brk ())
     else if t \<noteq> TYPE_UPCASE then ret (Cont ())
     else do {
       let tbl_clu = GET32 e case_start_clu;
       let tbl_size = (ucast (GET64 e case_size) :: u32);
       r \<leftarrow> load_volume_upcase_table (START_SECTOR tbl_clu s) (drop_bit (sector_size_bits s) (tbl_size - 1) + 1)
              (GET32 e case_checksum);
       ret (if r \<noteq> FFS_SUCCESS then Brk () else Ret FFS_SUCCESS) } }"

text \<open>Unlike the other searches this one looks at \<^verbatim>\<open>dev_ejected\<close> only once, before the loop.\<close>

fun upcase_clusters :: "nat \<Rightarrow> CHAIN_T \<Rightarrow> s32 fsM" where
  "upcase_clusters 0 clu = do { _ \<leftarrow> set_ub; ret FFS_ERROR }"
| "upcase_clusters (Suc n) clu =
     (if chain_dir clu = CLU_EOF then load_default_upcase_table
      else do {
        dpc \<leftarrow> gets (\<lambda>s. sint (dentries_per_clu s));
        x \<leftarrow> entries_loop (nat dpc) clu 0 (\<lambda>_. Ret FFS_MEDIAERR) upcase_body ();
        case x of
          Ret r \<Rightarrow> ret r
        | _ \<Rightarrow> do {
            nx \<leftarrow> fat_next clu;
            case nx of None \<Rightarrow> ret FFS_MEDIAERR | Some clu \<Rightarrow> upcase_clusters n clu } })"

definition load_upcase_table :: "s32 fsM" where
  "load_upcase_table = do {
     s \<leftarrow> gets id;
     if dev_ejected s then ret FFS_MEDIAERR
     else upcase_clusters CHAIN_FUEL \<lparr>chain_dir = root_dir s, chain_size = 0, chain_flags = 0x01\<rparr> }"

end
