(* ===== verification/Mount.thy ===== *)
theory Mount
  imports Upcase
begin

text \<open>
  Mounting and unmounting (\<^verbatim>\<open>exfat_core.c\<close>, \<^verbatim>\<open>exfat_api.c\<close>): decoding the boot sector of the four volume types,
  loading the allocation bitmap, the volume operations.
\<close>

section \<open>The boot sector\<close>

text \<open>\<^verbatim>\<open>PBR_SECTOR_T\<close>, and offsets in its \<^verbatim>\<open>bpb\<close>: the common part of \<^verbatim>\<open>BPB16_T\<close> and \<^verbatim>\<open>BPB32_T\<close>, their own, \<^verbatim>\<open>BPBEX_T\<close>.\<close>

definition pbr_signature :: nat where "pbr_signature = 510"

definition bpb_sectors_per_clu :: nat where "bpb_sectors_per_clu = 2"
definition bpb_num_reserved :: nat where "bpb_num_reserved = 3"
definition bpb_num_fats :: nat where "bpb_num_fats = 5"
definition bpb_num_root_entries :: nat where "bpb_num_root_entries = 6"
definition bpb_num_sectors :: nat where "bpb_num_sectors = 8"
definition bpb_num_fat_sectors :: nat where "bpb_num_fat_sectors = 11"
definition bpb_num_huge_sectors :: nat where "bpb_num_huge_sectors = 21"
definition bpb16_vol_serial :: nat where "bpb16_vol_serial = 28"
definition bpb32_num_fat32_sectors :: nat where "bpb32_num_fat32_sectors = 25"
definition bpb32_root_cluster :: nat where "bpb32_root_cluster = 33"
definition bpb32_vol_serial :: nat where "bpb32_vol_serial = 56"
definition bpbex_vol_length :: nat where "bpbex_vol_length = 61"
definition bpbex_fat_offset :: nat where "bpbex_fat_offset = 69"
definition bpbex_fat_length :: nat where "bpbex_fat_length = 73"
definition bpbex_clu_offset :: nat where "bpbex_clu_offset = 77"
definition bpbex_clu_count :: nat where "bpbex_clu_count = 81"
definition bpbex_root_cluster :: nat where "bpbex_root_cluster = 85"
definition bpbex_vol_serial :: nat where "bpbex_vol_serial = 89"
definition bpbex_sectors_per_clu_bits :: nat where "bpbex_sectors_per_clu_bits = 98"
definition bpbex_num_fats :: nat where "bpbex_num_fats = 99"

lemmas bpb_layout = bpb_sectors_per_clu_def bpb_num_reserved_def bpb_num_fats_def bpb_num_root_entries_def
  bpb_num_sectors_def bpb_num_fat_sectors_def bpb_num_huge_sectors_def bpb16_vol_serial_def
  bpb32_num_fat32_sectors_def bpb32_root_cluster_def bpb32_vol_serial_def
lemmas bpbex_layout = bpbex_vol_length_def bpbex_fat_offset_def bpbex_fat_length_def bpbex_clu_offset_def
  bpbex_clu_count_def bpbex_root_cluster_def bpbex_vol_serial_def bpbex_vol_flags_def
  bpbex_sectors_per_clu_bits_def bpbex_num_fats_def

definition PBR_SIGNATURE :: u16 where "PBR_SIGNATURE = 0xAA55"
definition FAT12_THRESHOLD :: u32 where "FAT12_THRESHOLD = 4087"

section \<open>The three mount functions\<close>

text \<open>
  The functions only read the boot sector \<open>bpb\<close> and fill in \<^verbatim>\<open>FS_INFO_T\<close>.  A shift by 32 bits or more, or by the
  logarithm of zero, is undefined in C and sets \<open>ub\<close>.
\<close>

definition cluster_geometry :: "u32 \<Rightarrow> nat \<Rightarrow> vol \<Rightarrow> vol" where
  "cluster_geometry spc bits s =
     (let s = s\<lparr>sectors_per_clu := spc, sectors_per_clu_bits := bits\<rparr>;
          s = s\<lparr>cluster_size_bits := sectors_per_clu_bits s + sector_size_bits s\<rparr>
      in s\<lparr>cluster_size := push_bit (cluster_size_bits s) 1, ub := ub s \<or> cluster_size_bits s \<ge> 32\<rparr>)"

definition fat_starts :: "u32 \<Rightarrow> u32 \<Rightarrow> u8 \<Rightarrow> vol \<Rightarrow> vol" where
  "fat_starts fat_sectors fat_start num_fats s =
     (let s = s\<lparr>num_FAT_sectors := fat_sectors\<rparr>;
          s = s\<lparr>FAT1_start_sector := PBR_sector s + fat_start\<rparr>
      in s\<lparr>FAT2_start_sector := if num_fats = 1 then FAT1_start_sector s
                                 else FAT1_start_sector s + num_FAT_sectors s\<rparr>)"

definition mount_rest :: "fs_kind \<Rightarrow> u32 \<Rightarrow> u32 \<Rightarrow> u32 \<Rightarrow> u32 \<Rightarrow> vol \<Rightarrow> vol" where
  "mount_rest kind serial root root_entries flag s =
     s\<lparr>vol_id := serial, root_dir := root, dentries_in_root := root_entries,
       dentries_per_clu := push_bit (cluster_size_bits s - 5) 1,
       vol_flag := flag, clu_srch_ptr := 2, used_clusters := -1, fs_func := kind\<rparr>"

definition fat16_mount :: "u8 list \<Rightarrow> s32 fsM" where
  "fat16_mount bpb =
     (if bpb ! bpb_num_fats = 0 then ret FFS_FORMATERR
      else do {
        sbits \<leftarrow> gets sector_size_bits;
        let root_entries = GET16 bpb bpb_num_root_entries;
        let num_root_sectors = drop_bit sbits (push_bit 5 (uint root_entries) - 1) + 1;
        let spc = bpb ! bpb_sectors_per_clu;
        _ \<leftarrow> whenM (spc = 0) set_ub;
        _ \<leftarrow> modify (cluster_geometry (ucast spc) (ilog2 (unat spc)));
        _ \<leftarrow> modify (fat_starts (ucast (GET16 bpb bpb_num_fat_sectors)) (ucast (GET16 bpb bpb_num_reserved))
                      (bpb ! bpb_num_fats));
        _ \<leftarrow> modify (\<lambda>s. s\<lparr>root_start_sector := FAT2_start_sector s + num_FAT_sectors s\<rparr>);
        _ \<leftarrow> modify (\<lambda>s. s\<lparr>data_start_sector := root_start_sector s + of_int num_root_sectors\<rparr>);
        _ \<leftarrow> modify (\<lambda>s. s\<lparr>num_sectors := ucast (GET16 bpb bpb_num_sectors)\<rparr>);
        _ \<leftarrow> modify (\<lambda>s. if num_sectors s = 0 then s\<lparr>num_sectors := GET32 bpb bpb_num_huge_sectors\<rparr> else s);
        _ \<leftarrow> modify (\<lambda>s. s\<lparr>num_clusters :=
               drop_bit (sectors_per_clu_bits s) (num_sectors s - (data_start_sector s - PBR_sector s)) + 2\<rparr>);
        _ \<leftarrow> modify (\<lambda>s. s\<lparr>vol_type := if num_clusters s < FAT12_THRESHOLD then FAT12 else FAT16\<rparr>);
        _ \<leftarrow> modify (mount_rest FatOps (GET32 bpb bpb16_vol_serial) 0 (ucast root_entries) VOL_CLEAN);
        ret FFS_SUCCESS })"

definition fat32_mount :: "u8 list \<Rightarrow> s32 fsM" where
  "fat32_mount bpb =
     (if bpb ! bpb_num_fats = 0 then ret FFS_FORMATERR
      else do {
        let spc = bpb ! bpb_sectors_per_clu;
        _ \<leftarrow> whenM (spc = 0) set_ub;
        _ \<leftarrow> modify (cluster_geometry (ucast spc) (ilog2 (unat spc)));
        _ \<leftarrow> modify (fat_starts (GET32 bpb bpb32_num_fat32_sectors) (ucast (GET16 bpb bpb_num_reserved))
                      (bpb ! bpb_num_fats));
        _ \<leftarrow> modify (\<lambda>s. s\<lparr>root_start_sector := FAT2_start_sector s + num_FAT_sectors s\<rparr>);
        _ \<leftarrow> modify (\<lambda>s. s\<lparr>data_start_sector := root_start_sector s\<rparr>);
        _ \<leftarrow> modify (\<lambda>s. s\<lparr>num_sectors := GET32 bpb bpb_num_huge_sectors\<rparr>);
        _ \<leftarrow> modify (\<lambda>s. s\<lparr>num_clusters :=
               drop_bit (sectors_per_clu_bits s) (num_sectors s - (data_start_sector s - PBR_sector s)) + 2\<rparr>);
        _ \<leftarrow> modify (\<lambda>s. s\<lparr>vol_type := FAT32\<rparr>);
        _ \<leftarrow> modify (mount_rest FatOps (GET32 bpb bpb32_vol_serial) (GET32 bpb bpb32_root_cluster) 0 VOL_CLEAN);
        ret FFS_SUCCESS })"

definition exfat_mount :: "u8 list \<Rightarrow> s32 fsM" where
  "exfat_mount bpb =
     (if bpb ! bpbex_num_fats = 0 then ret FFS_FORMATERR
      else do {
        let bits = unat (bpb ! bpbex_sectors_per_clu_bits);
        _ \<leftarrow> whenM (bits \<ge> 32) set_ub;
        _ \<leftarrow> modify (cluster_geometry (push_bit bits 1) bits);
        _ \<leftarrow> modify (fat_starts (GET32 bpb bpbex_fat_length) (GET32 bpb bpbex_fat_offset) (bpb ! bpbex_num_fats));
        _ \<leftarrow> modify (\<lambda>s. s\<lparr>root_start_sector := PBR_sector s + GET32 bpb bpbex_clu_offset\<rparr>);
        _ \<leftarrow> modify (\<lambda>s. s\<lparr>data_start_sector := root_start_sector s\<rparr>);
        _ \<leftarrow> modify (\<lambda>s. s\<lparr>num_sectors := ucast (GET64 bpb bpbex_vol_length)\<rparr>);
        _ \<leftarrow> modify (\<lambda>s. s\<lparr>num_clusters := GET32 bpb bpbex_clu_count + 2\<rparr>);
        _ \<leftarrow> modify (\<lambda>s. s\<lparr>vol_type := EXFAT\<rparr>);
        _ \<leftarrow> modify (mount_rest ExfatOps (GET32 bpb bpbex_vol_serial) (GET32 bpb bpbex_root_cluster) 0
                      (ucast (GET16 bpb bpbex_vol_flags)));
        ret FFS_SUCCESS })"

section \<open>The allocation bitmap\<close>

text \<open>Reading the sectors of the map; \<open>n\<close> of them are left, the next one is \<open>j\<close>.\<close>

fun read_map :: "nat \<Rightarrow> u32 \<Rightarrow> nat \<Rightarrow> s32 fsM" where
  "read_map 0 sct j = ret FFS_SUCCESS"
| "read_map (Suc n) sct j = do {
     (r, bh) \<leftarrow> sector_read (sct + of_nat j) None True;
     _ \<leftarrow> modify (\<lambda>s. s\<lparr>vol_amap := map_option (\<lambda>m. m(j := bh)) (vol_amap s)\<rparr>);
     if r \<noteq> FFS_SUCCESS then do {
       _ \<leftarrow> modify (\<lambda>s. s\<lparr>vol_amap := None\<rparr>);
       ret r }
     else read_map n sct (j + 1) }"

definition bitmap_body :: "CHAIN_T \<Rightarrow> u8 list \<Rightarrow> unit \<Rightarrow> (s32, unit) ctl fsM" where
  "bitmap_body clu e _ = do {
     s \<leftarrow> gets id;
     let t = get_entry_type (ops (fs_func s)) e;
     if t = TYPE_UNUSED then ret (Brk ())
     else if t \<noteq> TYPE_BITMAP then ret (Cont ())
     else if e ! bmap_flags \<noteq> 0x0 then ret (Cont ())
     else do {
       let map_size = (ucast (GET64 e bmap_size) :: u32);
       _ \<leftarrow> modify (\<lambda>s. s\<lparr>map_clu := GET32 e bmap_start_clu,
              map_sectors := drop_bit (sector_size_bits s) (map_size - 1) + 1\<rparr>);
       ok \<leftarrow> next_env;
       _ \<leftarrow> modify (\<lambda>s. s\<lparr>vol_amap := if ok then Some (\<lambda>_. None) else None\<rparr>);
       if \<not> ok then ret (Ret FFS_MEMORYERR)
       else do {
         s \<leftarrow> gets id;
         r \<leftarrow> read_map (unat (map_sectors s)) (START_SECTOR (map_clu s) s) 0;
         if r \<noteq> FFS_SUCCESS then ret (Ret r)
         else do {
           _ \<leftarrow> modify (\<lambda>s. s\<lparr>pbr_bh := None\<rparr>);
           ret (Ret FFS_SUCCESS) } } } }"

definition load_alloc_bitmap :: "s32 fsM" where
  "load_alloc_bitmap = do {
     s \<leftarrow> gets id;
     clusters_loop CHAIN_FUEL False (sint (dentries_per_clu s)) (\<lambda>_. 0) fat_next (\<lambda>_. Ret FFS_MEDIAERR) bitmap_body
       (\<lambda>_. FFS_MEDIAERR) (\<lambda>_. FFS_FORMATERR)
       \<lparr>chain_dir = root_dir s, chain_size = 0, chain_flags = 0x01\<rparr> () }"

section \<open>Volume operations\<close>

definition mount_by_bpb :: "u8 list \<Rightarrow> s32 fsM" where
  "mount_by_bpb bpb =
     (if \<exists>i \<in> {..<53}. bpb ! i \<noteq> 0 then
        (if GET16 bpb bpb_num_fat_sectors \<noteq> 0 then fat16_mount bpb else fat32_mount bpb)
      else exfat_mount bpb)"

definition fail_close :: "s32 \<Rightarrow> s32 fsM" where
  "fail_close r = do { _ \<leftarrow> bdev_close; ret r }"

text \<open>\<^verbatim>\<open>sb_set_blocksize\<close> is taken to succeed, as the code takes it.\<close>

definition ffsMountVol :: "s32 fsM" where
  "ffsMountVol = do {
     _ \<leftarrow> modify (\<lambda>s. s\<lparr>dev_ejected := False\<rparr>);
     r \<leftarrow> bdev_open;
     if r \<noteq> 0 then ret FFS_MEDIAERR
     else do {
       s \<leftarrow> gets id;
       if sector_size s < s_blocksize s then ret FFS_MEDIAERR
       else do {
         _ \<leftarrow> whenM (sector_size s > s_blocksize s) (modify (\<lambda>s. s\<lparr>s_blocksize := sector_size s\<rparr>));
         (r, bh) \<leftarrow> sector_read 0 None True;
         if r \<noteq> FFS_SUCCESS then ret FFS_MEDIAERR
         else do {
           _ \<leftarrow> modify (\<lambda>s. s\<lparr>PBR_sector := 0\<rparr>);
           case bh of
             None \<Rightarrow> do { _ \<leftarrow> set_ub; ret FFS_MEDIAERR }
           | Some b \<Rightarrow> do {
               p_pbr \<leftarrow> gets (\<lambda>s. bufs s b);
               if GET16 p_pbr pbr_signature \<noteq> PBR_SIGNATURE then fail_close FFS_FORMATERR
               else do {
                 r \<leftarrow> mount_by_bpb (drop bpb_off p_pbr);
                 if r \<noteq> 0 then fail_close r
                 else do {
                   t \<leftarrow> gets vol_type;
                   r \<leftarrow> (if t = EXFAT then load_alloc_bitmap else ret FFS_SUCCESS);
                   if r \<noteq> 0 then fail_close r
                   else do {
                     r \<leftarrow> (if t = EXFAT then load_upcase_table else ret FFS_SUCCESS);
                     if r \<noteq> 0 then do { _ \<leftarrow> free_alloc_bitmap; fail_close r }
                     else do {
                       ej \<leftarrow> gets dev_ejected;
                       if ej then do {
                         _ \<leftarrow> whenM (t = EXFAT) (do { _ \<leftarrow> free_upcase_table; free_alloc_bitmap });
                         fail_close FFS_MEDIAERR }
                       else ret FFS_SUCCESS } } } } } } } } }"

definition ffsUmountVol :: "s32 fsM" where
  "ffsUmountVol = do {
     _ \<leftarrow> fs_sync False;
     _ \<leftarrow> fs_set_vol_flags VOL_CLEAN;
     t \<leftarrow> gets vol_type;
     _ \<leftarrow> whenM (t = EXFAT) (do { _ \<leftarrow> free_upcase_table; free_alloc_bitmap });
     _ \<leftarrow> FAT_release_all;
     _ \<leftarrow> buf_release_all;
     _ \<leftarrow> bdev_close;
     ej \<leftarrow> gets dev_ejected;
     ret (if ej then FFS_MEDIAERR else FFS_SUCCESS) }"

record VOL_INFO_T =
  FatType :: u32
  ClusterSize :: u32
  NumClusters :: u32
  FreeClusters :: u32
  UsedClusters :: u32

definition ffsGetVolInfo :: "(s32 \<times> VOL_INFO_T) fsM" where
  "ffsGetVolInfo = do {
     s \<leftarrow> gets id;
     _ \<leftarrow> whenM (used_clusters s = -1) (do {
            n \<leftarrow> count_used_clusters (fs_func s);
            modify (\<lambda>s. s\<lparr>used_clusters := of_int n\<rparr>) });
     s \<leftarrow> gets id;
     let info = \<lparr>FatType = vol_type s, ClusterSize = cluster_size s, NumClusters = num_clusters s - 2,
                 FreeClusters = num_clusters s - 2 - used_clusters s, UsedClusters = used_clusters s\<rparr>;
     ret (if dev_ejected s then FFS_MEDIAERR else FFS_SUCCESS, info) }"

definition ffsSyncVol :: "bool \<Rightarrow> s32 fsM" where
  "ffsSyncVol do_sync = do {
     _ \<leftarrow> fs_sync do_sync;
     _ \<leftarrow> fs_set_vol_flags VOL_CLEAN;
     ej \<leftarrow> gets dev_ejected;
     ret (if ej then FFS_MEDIAERR else FFS_SUCCESS) }"

text \<open>The wrappers of \<^verbatim>\<open>exfat_api.c\<close> add the semaphores and \<^verbatim>\<open>buf_init\<close>.\<close>

definition FsMountVol :: "s32 fsM" where
  "FsMountVol = do {
     err \<leftarrow> buf_init;
     if err = 0 then ffsMountVol
     else do { _ \<leftarrow> buf_shutdown; ret err } }"

definition FsUmountVol :: "s32 fsM" where
  "FsUmountVol = do {
     err \<leftarrow> ffsUmountVol;
     _ \<leftarrow> buf_shutdown;
     ret err }"

end
