(* ===== verification/FileOps.thy ===== *)
theory FileOps
  imports Mount
begin

text \<open>
  Creating, removing, renaming and moving files and directories: \<^verbatim>\<open>find_empty_entry\<close>, \<^verbatim>\<open>resolve_path\<close> and the section
  ``File Operation Functions'' of \<^verbatim>\<open>exfat_core.c\<close>.  The state of a file is a \<^verbatim>\<open>FILE_ID_T\<close>, that of a directory the
  part of its inode that the driver uses; a function that changes them through a pointer returns them.
\<close>

section \<open>Files and inodes\<close>

record FILE_ID_T =
  fid_dir :: CHAIN_T
  fid_entry :: s32
  fid_type :: u32
  fid_attr :: u32
  start_clu :: u32
  fid_size :: u64
  fid_flags :: u8
  rwoffset :: int
  hint_last_off :: s32
  hint_last_clu :: u32

record inode =
  i_fid :: FILE_ID_T
  i_size :: u64
  i_blocks :: u64
  mmu_private :: u64

text \<open>
  What the operations take from outside: the character tables and the kernel's UTF codecs, the mount option
  \<^verbatim>\<open>casesensitive\<close>, the timestamp that \<^verbatim>\<open>tm_current\<close> returns and what the stack holds where the array of a name is put.
\<close>

record fs_env =
  nls_disk :: nls
  nls_io :: "nls option"
  utf8_decode :: "u8 list \<Rightarrow> u16 list"
  utf8_encode :: "u16 list \<Rightarrow> u8 list"
  casesensitive :: bool
  now :: TIMESTAMP_T
  stack_junk :: "u16 list"

definition upper :: "fs_env \<Rightarrow> (u16 \<Rightarrow> u16) fsM" where
  "upper ev = gets (\<lambda>s. nls_upper (casesensitive ev) s)"

text \<open>Conversions to and shifts of \<^verbatim>\<open>s32\<close>.\<close>

definition to_s32 :: "u64 \<Rightarrow> s32" where "to_s32 x = sint (ucast x :: u32)"
definition shl32 :: "s32 \<Rightarrow> nat \<Rightarrow> s32" where "shl32 x n = sint (push_bit n (of_int x :: u32))"

text \<open>\<^verbatim>\<open>(s32)((size-1) >> cluster_size_bits) + 1\<close>\<close>

definition clusters_of :: "u64 \<Rightarrow> vol \<Rightarrow> s32" where
  "clusters_of sz s = to_s32 (drop_bit (cluster_size_bits s) (sz - 1)) + 1"

definition first_flags :: "vol \<Rightarrow> u8" where
  "first_flags s = (if vol_type s = EXFAT then 0x03 else 0x01)"

section \<open>Room in a directory\<close>

text \<open>Writing the new size and flags of a directory to its stream entry (step 3 of \<^verbatim>\<open>find_empty_entry\<close>).\<close>

definition update_dir_entry :: "FILE_ID_T \<Rightarrow> CHAIN_T \<Rightarrow> u64 \<Rightarrow> bool fsM" where
  "update_dir_entry fid p_dir sz = do {
     s \<leftarrow> gets id;
     if vol_type s = EXFAT \<and> chain_dir p_dir \<noteq> root_dir s then do {
       r \<leftarrow> get_entry_in_dir (fid_dir fid) (fid_entry fid + 1);
       case r of
         None \<Rightarrow> ret False
       | Some (ep, sct) \<Rightarrow> do {
           _ \<leftarrow> upd_ep ep (\<lambda>e. set_entry_flag (ops (fs_func s)) (set_entry_size (ops (fs_func s)) e sz) (chain_flags p_dir));
           _ \<leftarrow> buf_modify sct;
           _ \<leftarrow> update_dir_checksum (fid_dir fid) (fid_entry fid);
           ret True } }
     else ret True }"

text \<open>One turn of \<^verbatim>\<open>find_empty_entry\<close>: the directory grows by a cluster; false is \<^verbatim>\<open>return -1\<close>.\<close>

definition grow_dir :: "inode \<Rightarrow> CHAIN_T \<Rightarrow> (bool \<times> inode \<times> CHAIN_T) fsM" where
  "grow_dir ino p_dir = do {
     s \<leftarrow> gets id;
     last_clu \<leftarrow> find_last_cluster p_dir;
     (r, clu) \<leftarrow> alloc_cluster (fs_func s) 1 \<lparr>chain_dir = last_clu + 1, chain_size = 0, chain_flags = chain_flags p_dir\<rparr>;
     if r < 1 then ret (False, ino, p_dir)
     else do {
       c \<leftarrow> clear_cluster (chain_dir clu);
       if c \<noteq> FFS_SUCCESS then ret (False, ino, p_dir)
       else do {
         p_dir \<leftarrow> (if chain_flags clu \<noteq> chain_flags p_dir then do {
                      _ \<leftarrow> exfat_chain_cont_cluster (chain_dir p_dir) (chain_size p_dir);
                      _ \<leftarrow> set_hint (\<lambda>h. h\<lparr>ue_clu := (ue_clu h)\<lparr>chain_flags := 0x01\<rparr>\<rparr>);
                      ret (p_dir\<lparr>chain_flags := 0x01\<rparr>) }
                    else ret p_dir);
         w \<leftarrow> (if chain_flags clu = 0x01 then FAT_write last_clu (chain_dir clu) else ret (Some ()));
         if w = None then ret (False, ino, p_dir)
         else do {
           _ \<leftarrow> set_hint (\<lambda>h. if ue_entry h = -1
                  then \<lparr>ue_dir = chain_dir p_dir, ue_entry = shl32 (chain_size p_dir) (cluster_size_bits s - 5),
                        ue_clu = \<lparr>chain_dir = chain_dir clu, chain_size = 0, chain_flags = chain_flags clu\<rparr>\<rparr>
                  else h);
           _ \<leftarrow> set_hint (\<lambda>h. h\<lparr>ue_clu := (ue_clu h)\<lparr>chain_size := chain_size (ue_clu h) + 1\<rparr>\<rparr>);
           let p_dir = p_dir\<lparr>chain_size := chain_size p_dir + 1\<rparr>;
           ok \<leftarrow> update_dir_entry (i_fid ino) p_dir (i_size ino + ucast (cluster_size s));
           if \<not> ok then ret (False, ino, p_dir)
           else do {
             let csz = (ucast (cluster_size s) :: u64);
             ret (True,
               ino\<lparr>i_size := i_size ino + csz, mmu_private := mmu_private ino + csz,
                   i_fid := (i_fid ino)\<lparr>fid_size := fid_size (i_fid ino) + csz, fid_flags := chain_flags p_dir\<rparr>,
                   i_blocks := i_blocks ino + push_bit (cluster_size_bits s - 9) 1\<rparr>,
               p_dir) } } } } }"

text \<open>Every turn takes a free cluster, so that the loop ends before \<open>CHAIN_FUEL\<close> turns.\<close>

fun find_empty_loop :: "nat \<Rightarrow> inode \<Rightarrow> CHAIN_T \<Rightarrow> s32 \<Rightarrow> (s32 \<times> inode \<times> CHAIN_T) fsM" where
  "find_empty_loop 0 ino p_dir num = do { _ \<leftarrow> set_ub; ret (-1, ino, p_dir) }"
| "find_empty_loop (Suc n) ino p_dir num = do {
     d \<leftarrow> search_deleted_or_unused_entry p_dir num;
     if d \<ge> 0 then ret (d, ino, p_dir)
     else do {
       ej \<leftarrow> gets dev_ejected;
       if ej then ret (d, ino, p_dir)
       else do {
         (ok, ino, p_dir) \<leftarrow> grow_dir ino p_dir;
         if \<not> ok then ret (-1, ino, p_dir) else find_empty_loop n ino p_dir num } } }"

definition find_empty_entry :: "inode \<Rightarrow> CHAIN_T \<Rightarrow> s32 \<Rightarrow> (s32 \<times> inode \<times> CHAIN_T) fsM" where
  "find_empty_entry ino p_dir num =
     (if chain_dir p_dir = 0 then do {
        d \<leftarrow> search_deleted_or_unused_entry p_dir num;
        ret (d, ino, p_dir) }
      else find_empty_loop CHAIN_FUEL ino p_dir num)"

section \<open>Paths\<close>

text \<open>
  The name is converted in an array of \<^verbatim>\<open>MAX_NAME_LENGTH\<close> units on the stack; a longer result of the UTF-8 decoder
  would be stored behind it.
\<close>

definition resolve_path :: "fs_env \<Rightarrow> inode \<Rightarrow> u8 list \<Rightarrow> (s32 + inode \<times> CHAIN_T \<times> UNI_NAME_T) fsM" where
  "resolve_path ev ino path = do {
     up \<leftarrow> upper ev;
     s \<leftarrow> gets id;
     if length path \<ge> MAX_NAME_LENGTH * 3 then ret (Inl FFS_INVALIDPATH)
     else (case nls_cstring_to_uniname up (utf8_decode ev) (nls_io ev) path of (un, lossy) \<Rightarrow> do {
       _ \<leftarrow> whenM (length (un_name un) > MAX_NAME_LENGTH) set_ub;
       if lossy then ret (Inl FFS_INVALIDPATH)
       else do {
         let un = un\<lparr>un_name := take MAX_NAME_LENGTH (un_name un @ drop (length (un_name un)) (stack_junk ev))\<rparr>;
         let fid = (i_fid ino)\<lparr>fid_size := i_size ino\<rparr>;
         ret (Inr (ino\<lparr>i_fid := fid\<rparr>,
                   \<lparr>chain_dir = start_clu fid, chain_size = to_s32 (drop_bit (cluster_size_bits s) (fid_size fid)),
                    chain_flags = fid_flags fid\<rparr>, un)) } }) }"

definition DOS_CUR_DIR_NAME :: "u8 list" where "DOS_CUR_DIR_NAME = map chr8 ''.          ''"
definition DOS_PAR_DIR_NAME :: "u8 list" where "DOS_PAR_DIR_NAME = map chr8 ''..         ''"

text \<open>A DOS name whose array has not been written.\<close>

definition no_dos_name :: DOS_NAME_T where "no_dos_name = \<lparr>dn_name = replicate 11 0, dn_case = 0\<rparr>"

section \<open>Creating\<close>

type_synonym create_result = "s32 \<times> inode \<times> FILE_ID_T"

text \<open>The entries \<^verbatim>\<open>.\<close> and \<^verbatim>\<open>..\<close> of a new FAT directory.\<close>

definition dot_entry :: "fs_env \<Rightarrow> CHAIN_T \<Rightarrow> s32 \<Rightarrow> u32 \<Rightarrow> u8 list \<Rightarrow> s32 fsM" where
  "dot_entry ev clu i target name = do {
     k \<leftarrow> gets fs_func;
     r \<leftarrow> init_dir_entry k (now ev) clu i TYPE_DIR target 0;
     if r \<noteq> FFS_SUCCESS then ret r
     else init_ext_entries k clu i 1 \<lparr>un_name = [], un_hash = 0, un_len = 0\<rparr> \<lparr>dn_name = name, dn_case = 0\<rparr> }"

definition dot_entries :: "fs_env \<Rightarrow> CHAIN_T \<Rightarrow> CHAIN_T \<Rightarrow> s32 fsM" where
  "dot_entries ev p_dir clu = do {
     s \<leftarrow> gets id;
     if vol_type s = EXFAT then ret FFS_SUCCESS
     else do {
       r \<leftarrow> dot_entry ev clu 0 (chain_dir clu) DOS_CUR_DIR_NAME;
       if r \<noteq> FFS_SUCCESS then ret r
       else dot_entry ev clu 1 (if chain_dir p_dir = root_dir s then 0 else chain_dir p_dir) DOS_PAR_DIR_NAME } }"

definition create_dir :: "fs_env \<Rightarrow> inode \<Rightarrow> CHAIN_T \<Rightarrow> UNI_NAME_T \<Rightarrow> FILE_ID_T \<Rightarrow> create_result fsM" where
  "create_dir ev ino p_dir un fid = do {
     up \<leftarrow> upper ev;
     (r, num_entries, dn) \<leftarrow> get_num_entries_and_dos_name up (nls_disk ev) p_dir un no_dos_name;
     if r \<noteq> 0 then ret (r, ino, fid)
     else do {
       (dentry, ino, p_dir) \<leftarrow> find_empty_entry ino p_dir num_entries;
       if dentry < 0 then ret (FFS_FULL, ino, fid)
       else do {
         s \<leftarrow> gets id;
         (n, clu) \<leftarrow> alloc_cluster (fs_func s) 1 \<lparr>chain_dir = CLU_EOF, chain_size = 0, chain_flags = first_flags s\<rparr>;
         if n < 0 then ret (FFS_MEDIAERR, ino, fid)
         else if n = 0 then ret (FFS_FULL, ino, fid)
         else do {
           r \<leftarrow> clear_cluster (chain_dir clu);
           if r \<noteq> FFS_SUCCESS then ret (r, ino, fid)
           else do {
             let sz = (if vol_type s = EXFAT then ucast (cluster_size s) else 0);
             r \<leftarrow> dot_entries ev p_dir clu;
             if r \<noteq> FFS_SUCCESS then ret (r, ino, fid)
             else do {
               r \<leftarrow> init_dir_entry (fs_func s) (now ev) p_dir dentry TYPE_DIR (chain_dir clu) sz;
               if r \<noteq> FFS_SUCCESS then ret (r, ino, fid)
               else do {
                 r \<leftarrow> init_ext_entries (fs_func s) p_dir dentry num_entries un dn;
                 if r \<noteq> FFS_SUCCESS then ret (r, ino, fid)
                 else ret (FFS_SUCCESS, ino,
                   fid\<lparr>fid_dir := p_dir, fid_entry := dentry, fid_attr := ATTR_SUBDIR, fid_flags := first_flags s,
                       fid_size := sz, start_clu := chain_dir clu, fid_type := TYPE_DIR, rwoffset := 0,
                       hint_last_off := -1\<rparr>) } } } } } } }"

definition create_file :: "fs_env \<Rightarrow> inode \<Rightarrow> CHAIN_T \<Rightarrow> UNI_NAME_T \<Rightarrow> u8 \<Rightarrow> FILE_ID_T \<Rightarrow> create_result fsM" where
  "create_file ev ino p_dir un mode fid = do {
     up \<leftarrow> upper ev;
     (r, num_entries, dn) \<leftarrow> get_num_entries_and_dos_name up (nls_disk ev) p_dir un no_dos_name;
     if r \<noteq> 0 then ret (r, ino, fid)
     else do {
       (dentry, ino, p_dir) \<leftarrow> find_empty_entry ino p_dir num_entries;
       if dentry < 0 then ret (FFS_FULL, ino, fid)
       else do {
         s \<leftarrow> gets id;
         r \<leftarrow> init_dir_entry (fs_func s) (now ev) p_dir dentry (TYPE_FILE OR ucast mode) 0 0;
         if r \<noteq> FFS_SUCCESS then ret (r, ino, fid)
         else do {
           r \<leftarrow> init_ext_entries (fs_func s) p_dir dentry num_entries un dn;
           if r \<noteq> FFS_SUCCESS then ret (r, ino, fid)
           else ret (FFS_SUCCESS, ino,
             fid\<lparr>fid_dir := p_dir, fid_entry := dentry, fid_attr := ATTR_ARCHIVE OR ucast mode,
                 fid_flags := first_flags s, fid_size := 0, start_clu := CLU_EOF, fid_type := TYPE_FILE,
                 rwoffset := 0, hint_last_off := -1\<rparr>) } } } }"

section \<open>Removing, renaming, moving\<close>

definition remove_file :: "CHAIN_T \<Rightarrow> s32 \<Rightarrow> unit fsM" where
  "remove_file p_dir entry = do {
     k \<leftarrow> gets fs_func;
     r \<leftarrow> get_entry_in_dir p_dir entry;
     case r of
       None \<Rightarrow> ret ()
     | Some (ep, sct) \<Rightarrow> do {
         _ \<leftarrow> buf_lock sct;
         e \<leftarrow> read_ep ep;
         n \<leftarrow> count_ext_entries k p_dir entry e;
         _ \<leftarrow> buf_unlock sct;
         if n < 0 then ret ()
         else delete_dir_entry k p_dir entry 0 (n + 1) } }"

text \<open>Copying the first entry to its new place, with the archive attribute for a file.\<close>

definition copy_entry :: "eptr \<Rightarrow> eptr \<Rightarrow> unit fsM" where
  "copy_entry epnew epold = do { e \<leftarrow> read_ep epold; write_ep epnew e }"

definition archive_entry :: "eptr \<Rightarrow> FILE_ID_T \<Rightarrow> FILE_ID_T fsM" where
  "archive_entry ep fid = do {
     k \<leftarrow> gets fs_func;
     e \<leftarrow> read_ep ep;
     if get_entry_type (ops k) e = TYPE_FILE then do {
       _ \<leftarrow> write_ep ep (set_entry_attr (ops k) e (get_entry_attr (ops k) e OR ATTR_ARCHIVE));
       ret (fid\<lparr>fid_attr := fid_attr fid OR ATTR_ARCHIVE\<rparr>) }
     else ret fid }"

text \<open>
  The stream entry of an exFAT file.  The sector of the old entry is locked even when there is none; then the
  variable still holds the sector of the first one.
\<close>

definition copy_stream_entry :: "CHAIN_T \<Rightarrow> s32 \<Rightarrow> CHAIN_T \<Rightarrow> s32 \<Rightarrow> u32 \<Rightarrow> bool fsM" where
  "copy_stream_entry olddir oldentry newdir newentry sct_old = do {
     ro \<leftarrow> get_entry_in_dir olddir (oldentry + 1);
     let sct_old = (case ro of None \<Rightarrow> sct_old | Some (_, sct) \<Rightarrow> sct);
     _ \<leftarrow> buf_lock sct_old;
     rn \<leftarrow> get_entry_in_dir newdir (newentry + 1);
     ok \<leftarrow> (case ro of
               None \<Rightarrow> ret False
             | Some (epold, _) \<Rightarrow> (case rn of
                 None \<Rightarrow> ret False
               | Some (epnew, sct_new) \<Rightarrow> do {
                   _ \<leftarrow> copy_entry epnew epold;
                   _ \<leftarrow> buf_modify sct_new;
                   ret True }));
     _ \<leftarrow> buf_unlock sct_old;
     ret ok }"

definition unlock_ret :: "u32 \<Rightarrow> 'a \<Rightarrow> 'a fsM" where
  "unlock_ret sct x = do { _ \<leftarrow> buf_unlock sct; ret x }"

text \<open>The two branches of \<^verbatim>\<open>rename_file\<close>: the new name needs more entries than the old one has, or not.\<close>

definition rename_moving :: "inode \<Rightarrow> CHAIN_T \<Rightarrow> s32 \<Rightarrow> UNI_NAME_T \<Rightarrow> DOS_NAME_T \<Rightarrow> s32 \<Rightarrow> s32 \<Rightarrow> eptr \<Rightarrow> u32 \<Rightarrow>
    FILE_ID_T \<Rightarrow> create_result fsM" where
  "rename_moving ino p_dir oldentry un dn num_old num_new epold sct_old fid = do {
     (newentry, ino, p_dir) \<leftarrow> find_empty_entry ino p_dir num_new;
     if newentry < 0 then unlock_ret sct_old (FFS_FULL, ino, fid)
     else do {
       r \<leftarrow> get_entry_in_dir p_dir newentry;
       case r of
         None \<Rightarrow> unlock_ret sct_old (FFS_MEDIAERR, ino, fid)
       | Some (epnew, sct_new) \<Rightarrow> do {
           _ \<leftarrow> copy_entry epnew epold;
           fid \<leftarrow> archive_entry epnew fid;
           _ \<leftarrow> buf_modify sct_new;
           _ \<leftarrow> buf_unlock sct_old;
           s \<leftarrow> gets id;
           ok \<leftarrow> (if vol_type s = EXFAT then copy_stream_entry p_dir oldentry p_dir newentry sct_old else ret True);
           if \<not> ok then ret (FFS_MEDIAERR, ino, fid)
           else do {
             r \<leftarrow> init_ext_entries (fs_func s) p_dir newentry num_new un dn;
             if r \<noteq> FFS_SUCCESS then ret (r, ino, fid)
             else do {
               _ \<leftarrow> delete_dir_entry (fs_func s) p_dir oldentry 0 num_old;
               ret (FFS_SUCCESS, ino, fid\<lparr>fid_entry := newentry\<rparr>) } } } } }"

definition rename_in_place :: "inode \<Rightarrow> CHAIN_T \<Rightarrow> s32 \<Rightarrow> UNI_NAME_T \<Rightarrow> DOS_NAME_T \<Rightarrow> s32 \<Rightarrow> s32 \<Rightarrow> eptr \<Rightarrow> u32 \<Rightarrow>
    FILE_ID_T \<Rightarrow> create_result fsM" where
  "rename_in_place ino p_dir oldentry un dn num_old num_new epold sct_old fid = do {
     k \<leftarrow> gets fs_func;
     fid \<leftarrow> archive_entry epold fid;
     _ \<leftarrow> buf_modify sct_old;
     _ \<leftarrow> buf_unlock sct_old;
     r \<leftarrow> init_ext_entries k p_dir oldentry num_new un dn;
     if r \<noteq> FFS_SUCCESS then ret (r, ino, fid)
     else do {
       _ \<leftarrow> delete_dir_entry k p_dir oldentry num_new num_old;
       ret (FFS_SUCCESS, ino, fid) } }"

definition rename_file :: "fs_env \<Rightarrow> inode \<Rightarrow> CHAIN_T \<Rightarrow> s32 \<Rightarrow> UNI_NAME_T \<Rightarrow> FILE_ID_T \<Rightarrow> create_result fsM" where
  "rename_file ev ino p_dir oldentry un fid = do {
     k \<leftarrow> gets fs_func;
     r \<leftarrow> get_entry_in_dir p_dir oldentry;
     case r of
       None \<Rightarrow> ret (FFS_MEDIAERR, ino, fid)
     | Some (epold, sct_old) \<Rightarrow> do {
         _ \<leftarrow> buf_lock sct_old;
         e \<leftarrow> read_ep epold;
         n \<leftarrow> count_ext_entries k p_dir oldentry e;
         if n < 0 then unlock_ret sct_old (FFS_MEDIAERR, ino, fid)
         else do {
           up \<leftarrow> upper ev;
           (r, num_new, dn) \<leftarrow> get_num_entries_and_dos_name up (nls_disk ev) p_dir un no_dos_name;
           if r \<noteq> 0 then unlock_ret sct_old (r, ino, fid)
           else if n + 1 < num_new
                then rename_moving ino p_dir oldentry un dn (n + 1) num_new epold sct_old fid
                else rename_in_place ino p_dir oldentry un dn (n + 1) num_new epold sct_old fid } } }"

text \<open>A moved FAT directory gets a new parent in its entry \<^verbatim>\<open>..\<close>.\<close>

definition update_dotdot :: "CHAIN_T \<Rightarrow> eptr \<Rightarrow> bool fsM" where
  "update_dotdot newdir epnew = do {
     s \<leftarrow> gets id;
     e \<leftarrow> read_ep epnew;
     if get_entry_type (ops (fs_func s)) e = TYPE_DIR then do {
       r \<leftarrow> get_entry_in_dir
              \<lparr>chain_dir = get_entry_clu0 (ops (fs_func s)) e, chain_size = 0, chain_flags = 0x01\<rparr> 1;
       case r of
         None \<Rightarrow> ret False
       | Some (ep, sct) \<Rightarrow> do {
           _ \<leftarrow> upd_ep ep (\<lambda>e. set_entry_clu0 (ops (fs_func s)) e
                  (if chain_dir newdir = root_dir s then 0 else chain_dir newdir));
           _ \<leftarrow> buf_modify sct;
           ret True } }
     else ret True }"

text \<open>\<^verbatim>\<open>move_file\<close> once the number of entries is known.\<close>

definition move_entries :: "inode \<Rightarrow> CHAIN_T \<Rightarrow> s32 \<Rightarrow> CHAIN_T \<Rightarrow> UNI_NAME_T \<Rightarrow> DOS_NAME_T \<Rightarrow> s32 \<Rightarrow> s32 \<Rightarrow> eptr \<Rightarrow> u32 \<Rightarrow>
    FILE_ID_T \<Rightarrow> create_result fsM" where
  "move_entries ino olddir oldentry newdir un dn num_old num_new epmov sct_mov fid = do {
     (newentry, ino, newdir) \<leftarrow> find_empty_entry ino newdir num_new;
     if newentry < 0 then unlock_ret sct_mov (FFS_FULL, ino, fid)
     else do {
       r \<leftarrow> get_entry_in_dir newdir newentry;
       case r of
         None \<Rightarrow> unlock_ret sct_mov (FFS_MEDIAERR, ino, fid)
       | Some (epnew, sct_new) \<Rightarrow> do {
           _ \<leftarrow> copy_entry epnew epmov;
           fid \<leftarrow> archive_entry epnew fid;
           _ \<leftarrow> buf_modify sct_new;
           _ \<leftarrow> buf_unlock sct_mov;
           s \<leftarrow> gets id;
           ok \<leftarrow> (if vol_type s = EXFAT then copy_stream_entry olddir oldentry newdir newentry sct_mov
                  else update_dotdot newdir epnew);
           if \<not> ok then ret (FFS_MEDIAERR, ino, fid)
           else do {
             r \<leftarrow> init_ext_entries (fs_func s) newdir newentry num_new un dn;
             if r \<noteq> FFS_SUCCESS then ret (r, ino, fid)
             else do {
               _ \<leftarrow> delete_dir_entry (fs_func s) olddir oldentry 0 num_old;
               ret (FFS_SUCCESS, ino, fid\<lparr>fid_dir := newdir, fid_entry := newentry\<rparr>) } } } } }"

definition move_file :: "fs_env \<Rightarrow> inode \<Rightarrow> CHAIN_T \<Rightarrow> s32 \<Rightarrow> CHAIN_T \<Rightarrow> UNI_NAME_T \<Rightarrow> FILE_ID_T \<Rightarrow> create_result fsM" where
  "move_file ev ino olddir oldentry newdir un fid = do {
     k \<leftarrow> gets fs_func;
     r \<leftarrow> get_entry_in_dir olddir oldentry;
     case r of
       None \<Rightarrow> ret (FFS_MEDIAERR, ino, fid)
     | Some (epmov, sct_mov) \<Rightarrow> do {
         e \<leftarrow> read_ep epmov;
         if get_entry_type (ops k) e = TYPE_DIR \<and> get_entry_clu0 (ops k) e = chain_dir newdir
         then ret (FFS_INVALIDPATH, ino, fid)
         else do {
           _ \<leftarrow> buf_lock sct_mov;
           n \<leftarrow> count_ext_entries k olddir oldentry e;
           if n < 0 then unlock_ret sct_mov (FFS_MEDIAERR, ino, fid)
           else do {
             up \<leftarrow> upper ev;
             (r, num_new, dn) \<leftarrow> get_num_entries_and_dos_name up (nls_disk ev) newdir un no_dos_name;
             if r \<noteq> 0 then unlock_ret sct_mov (r, ino, fid)
             else move_entries ino olddir oldentry newdir un dn (n + 1) num_new epmov sct_mov fid } } } }"

end
