(* ===== verification/FileApi.thy ===== *)
theory FileApi
  imports FileOps
begin

text \<open>
  The operations on files and directories that the VFS calls (\<^verbatim>\<open>ffsLookupFile\<close> \<dots> \<^verbatim>\<open>ffsRemoveDir\<close> of
  \<^verbatim>\<open>exfat_core.c\<close>; the functions of \<^verbatim>\<open>exfat_api.c\<close> around them only check their pointers and take a semaphore).
  \<^verbatim>\<open>CONFIG_EXFAT_DELAYED_SYNC\<close> is defined (as zero), so that the code under its \<^verbatim>\<open>#ifdef\<close> is always there.
\<close>

definition media :: "s32 \<Rightarrow> s32 fsM" where
  "media r = do { ej \<leftarrow> gets dev_ejected; ret (if ej then FFS_MEDIAERR else r) }"

definition sync_clean :: "unit fsM" where
  "sync_clean = do { _ \<leftarrow> fs_sync False; fs_set_vol_flags VOL_CLEAN }"

definition finish :: "s32 \<Rightarrow> s32 fsM" where
  "finish r = do { _ \<leftarrow> sync_clean; media r }"

section \<open>The directory entry of a file\<close>

text \<open>
  On exFAT the operations work on a copy of the entries, \<^verbatim>\<open>ep\<close> and \<^verbatim>\<open>ep2\<close> being its first two; otherwise on the one
  entry in the buffer, \<^verbatim>\<open>ep\<close> and \<^verbatim>\<open>ep2\<close> being the same.
\<close>

datatype entry_ref = InSet ENTRY_SET_CACHE_T | InBuf eptr u32

definition open_entry :: "FILE_ID_T \<Rightarrow> u32 \<Rightarrow> entry_ref option fsM" where
  "open_entry fid type = do {
     t \<leftarrow> gets vol_type;
     if t = EXFAT then do {
       r \<leftarrow> get_entry_set_in_dir (fid_dir fid) (fid_entry fid) type;
       ret (map_option InSet r) }
     else do {
       r \<leftarrow> get_entry_in_dir (fid_dir fid) (fid_entry fid);
       ret (map_option (\<lambda>(ep, sct). InBuf ep sct) r) } }"

text \<open>Reading and changing \<^verbatim>\<open>ep\<close> (\<open>i = 0\<close>) and \<^verbatim>\<open>ep2\<close> (\<open>i = 1\<close>).\<close>

fun read_entry :: "nat \<Rightarrow> entry_ref \<Rightarrow> u8 list fsM" where
  "read_entry i (InSet es) = do { _ \<leftarrow> es_touch i es; ret (es_get es i) }"
| "read_entry i (InBuf ep sct) = read_ep ep"

fun change_entry :: "nat \<Rightarrow> (u8 list \<Rightarrow> u8 list) \<Rightarrow> entry_ref \<Rightarrow> entry_ref fsM" where
  "change_entry i f (InSet es) = do { _ \<leftarrow> es_touch i es; ret (InSet (es_upd i f es)) }"
| "change_entry i f (InBuf ep sct) = do { _ \<leftarrow> upd_ep ep f; ret (InBuf ep sct) }"

fun close_entry :: "entry_ref \<Rightarrow> unit fsM" where
  "close_entry (InSet es) = update_dir_checksum_with_entry_set es"
| "close_entry (InBuf ep sct) = buf_modify sct"

section \<open>Looking up and creating\<close>

type_synonym file_result = "s32 \<times> inode \<times> FILE_ID_T"

definition lookup_entry :: "FILE_ID_T \<Rightarrow> FILE_ID_T option fsM" where
  "lookup_entry fid = do {
     s \<leftarrow> gets id;
     let k = ops (fs_func s);
     r \<leftarrow> open_entry fid ES_2_ENTRIES;
     case r of
       None \<Rightarrow> ret None
     | Some er \<Rightarrow> do {
         e \<leftarrow> read_entry 0 er;
         e2 \<leftarrow> read_entry 1 er;
         let fid = fid\<lparr>fid_type := get_entry_type k e, rwoffset := 0, hint_last_off := -1,
                       fid_attr := get_entry_attr k e, fid_size := get_entry_size k e2\<rparr>;
         ret (Some (if fid_type fid = TYPE_FILE \<and> fid_size fid = 0
                    then fid\<lparr>fid_flags := first_flags s, start_clu := CLU_EOF\<rparr>
                    else fid\<lparr>fid_flags := get_entry_flag k e2, start_clu := get_entry_clu0 k e2\<rparr>)) } }"

definition ffsLookupFile :: "fs_env \<Rightarrow> inode \<Rightarrow> u8 list \<Rightarrow> FILE_ID_T \<Rightarrow> file_result fsM" where
  "ffsLookupFile ev ino path fid = do {
     rp \<leftarrow> resolve_path ev ino path;
     case rp of
       Inl r \<Rightarrow> ret (r, ino, fid)
     | Inr (ino, dir, un) \<Rightarrow> do {
         up \<leftarrow> upper ev;
         (r, num_entries, dn) \<leftarrow> get_num_entries_and_dos_name up (nls_disk ev) dir un no_dos_name;
         if r \<noteq> 0 then ret (r, ino, fid)
         else do {
           k \<leftarrow> gets fs_func;
           dentry \<leftarrow> find_dir_entry k up dir un num_entries dn TYPE_ALL;
           if dentry < -1 then ret (FFS_NOTFOUND, ino, fid)
           else do {
             s \<leftarrow> gets id;
             let fid = fid\<lparr>fid_dir := dir, fid_entry := dentry\<rparr>;
             if dentry = -1 then do {
               r \<leftarrow> media FFS_SUCCESS;
               ret (r, ino, fid\<lparr>fid_type := TYPE_DIR, rwoffset := 0, hint_last_off := -1, fid_attr := ATTR_SUBDIR,
                                fid_flags := 0x01, fid_size := 0, start_clu := root_dir s\<rparr>) }
             else do {
               f \<leftarrow> lookup_entry fid;
               case f of
                 None \<Rightarrow> ret (FFS_MEDIAERR, ino, fid)
               | Some fid \<Rightarrow> do { r \<leftarrow> media FFS_SUCCESS; ret (r, ino, fid) } } } } } }"

definition ffsCreateFile :: "fs_env \<Rightarrow> inode \<Rightarrow> u8 list \<Rightarrow> u8 \<Rightarrow> FILE_ID_T \<Rightarrow> file_result fsM" where
  "ffsCreateFile ev ino path mode fid = do {
     rp \<leftarrow> resolve_path ev ino path;
     case rp of
       Inl r \<Rightarrow> ret (r, ino, fid)
     | Inr (ino, dir, un) \<Rightarrow> do {
         _ \<leftarrow> fs_set_vol_flags VOL_DIRTY;
         (r, ino, fid) \<leftarrow> create_file ev ino dir un mode fid;
         r \<leftarrow> finish r;
         ret (r, ino, fid) } }"

definition ffsCreateDir :: "fs_env \<Rightarrow> inode \<Rightarrow> u8 list \<Rightarrow> FILE_ID_T \<Rightarrow> file_result fsM" where
  "ffsCreateDir ev ino path fid = do {
     rp \<leftarrow> resolve_path ev ino path;
     case rp of
       Inl r \<Rightarrow> ret (r, ino, fid)
     | Inr (ino, dir, un) \<Rightarrow> do {
         _ \<leftarrow> fs_set_vol_flags VOL_DIRTY;
         (r, ino, fid) \<leftarrow> create_dir ev ino dir un fid;
         r \<leftarrow> finish r;
         ret (r, ino, fid) } }"

section \<open>Reading\<close>

text \<open>\<^verbatim>\<open>(s32)(rwoffset >> cluster_size_bits)\<close> and the first cluster of a walk, with the hint of the last one.\<close>

definition rw_cluster :: "FILE_ID_T \<Rightarrow> vol \<Rightarrow> s32" where
  "rw_cluster fid s = sint (of_int (drop_bit (cluster_size_bits s) (rwoffset fid)) :: u32)"

definition walk_start :: "FILE_ID_T \<Rightarrow> s32 \<Rightarrow> s32 \<times> u32" where
  "walk_start fid clu_offset =
     (if clu_offset > 0 \<and> hint_last_off fid > 0 \<and> clu_offset \<ge> hint_last_off fid
      then (clu_offset - hint_last_off fid, hint_last_clu fid)
      else (clu_offset, start_clu fid))"

definition read_cluster :: "FILE_ID_T \<Rightarrow> u32 option fsM" where
  "read_cluster fid = do {
     s \<leftarrow> gets id;
     let clu_offset = rw_cluster fid s;
     if fid_flags fid = 0x03 then ret (Some (start_clu fid + of_int clu_offset))
     else (case walk_start fid clu_offset of (n, clu) \<Rightarrow> walk_chain_loop (nat n) clu) }"

text \<open>Sector and offset in the sector of the current position in cluster \<open>clu\<close>.\<close>

definition rw_sector :: "FILE_ID_T \<Rightarrow> u32 \<Rightarrow> vol \<Rightarrow> u32 \<times> nat" where
  "rw_sector fid clu s =
     (let o1 = (of_int (rwoffset fid) :: u32) AND (cluster_size s - 1)
      in (START_SECTOR clu s + drop_bit (sector_size_bits s) o1, unat (o1 AND sector_size_mask s)))"

definition set_rw_hint :: "u32 \<Rightarrow> vol \<Rightarrow> FILE_ID_T \<Rightarrow> FILE_ID_T" where
  "set_rw_hint clu s fid = fid\<lparr>hint_last_off := rw_cluster fid s, hint_last_clu := clu\<rparr>"

text \<open>
  The loop of \<^verbatim>\<open>ffsReadFile\<close>: \<open>count\<close> bytes are still wanted, \<open>acc\<close> has been read, \<open>bh\<close> is \<^verbatim>\<open>tmp_bh\<close>.  Every turn reads
  at least a byte, so that \<open>count\<close> turns are enough.  The flag tells whether the function returns at once.
\<close>

fun read_loop :: "nat \<Rightarrow> FILE_ID_T \<Rightarrow> nat \<Rightarrow> u8 list \<Rightarrow> u32 option \<Rightarrow> (bool \<times> FILE_ID_T \<times> u8 list) fsM" where
  "read_loop n fid 0 acc bh = ret (False, fid, acc)"
| "read_loop 0 fid (Suc count) acc bh = do { _ \<leftarrow> set_ub; ret (False, fid, acc) }"
| "read_loop (Suc n) fid (Suc count) acc bh = do {
     c \<leftarrow> read_cluster fid;
     case c of
       None \<Rightarrow> ret (True, fid, acc)
     | Some clu \<Rightarrow> do {
         s \<leftarrow> gets id;
         let fid = set_rw_hint clu s fid;
         let (sct, off) = rw_sector fid clu s;
         let len = min (unat (sector_size s) - off) (Suc count);
         (r, bh) \<leftarrow> sector_read sct bh True;
         if r \<noteq> FFS_SUCCESS then ret (False, fid, acc)
         else case bh of
           None \<Rightarrow> do { _ \<leftarrow> set_ub; ret (False, fid, acc) }
         | Some b \<Rightarrow> do {
             p \<leftarrow> gets (\<lambda>s. bufs s b);
             read_loop n (fid\<lparr>rwoffset := rwoffset fid + int len\<rparr>) (Suc count - len)
               (acc @ take len (drop off p)) (Some b) } } }"

text \<open>
  The result: the code, the bytes read (\<^verbatim>\<open>*rcount\<close> is their number unless the FAT could not be read) and the file.
\<close>

definition ffsReadFile :: "FILE_ID_T \<Rightarrow> u64 \<Rightarrow> (s32 \<times> u8 list \<times> FILE_ID_T) fsM" where
  "ffsReadFile fid count =
     (if fid_type fid \<noteq> TYPE_FILE then ret (FFS_PERMISSIONERR, [], fid)
      else
        let fid = (if (of_int (rwoffset fid) :: u64) > fid_size fid then fid\<lparr>rwoffset := sint (fid_size fid)\<rparr> else fid);
            count = min count (fid_size fid - of_int (rwoffset fid))
        in if count = 0 then ret (FFS_EOF, [], fid)
           else do {
             (stop, fid, bs) \<leftarrow> read_loop (unat count) fid (unat count) [] None;
             if stop then ret (FFS_MEDIAERR, bs, fid)
             else do { r \<leftarrow> media FFS_SUCCESS; ret (r, bs, fid) } })"

section \<open>Writing\<close>

text \<open>The walk that stops at the end of the chain: \<^verbatim>\<open>last_clu\<close> and \<^verbatim>\<open>clu\<close>.\<close>

fun walk_to_end :: "nat \<Rightarrow> u32 \<Rightarrow> u32 \<Rightarrow> (u32 \<times> u32) option fsM" where
  "walk_to_end 0 last_clu clu = ret (Some (last_clu, clu))"
| "walk_to_end (Suc n) last_clu clu =
     (if clu = CLU_EOF then ret (Some (last_clu, clu))
      else do {
        rd \<leftarrow> FAT_read clu;
        case rd of None \<Rightarrow> ret None | Some nxt \<Rightarrow> walk_to_end n clu nxt })"

definition write_cluster :: "FILE_ID_T \<Rightarrow> s32 \<Rightarrow> s32 \<Rightarrow> (u32 \<times> u32) option fsM" where
  "write_cluster fid clu_offset num_clus =
     (if fid_flags fid = 0x03 then
        ret (Some (if clu_offset > 0 \<and> start_clu fid \<noteq> CLU_EOF
                   then (start_clu fid + of_int (clu_offset - 1),
                         if clu_offset = num_clus then CLU_EOF else start_clu fid + of_int clu_offset)
                   else (start_clu fid, start_clu fid)))
      else (case walk_start fid clu_offset of (n, clu) \<Rightarrow> walk_to_end (nat n) (start_clu fid) clu))"

text \<open>
  Allocating \<open>num_alloc\<close> clusters behind \<open>last_clu\<close> and appending them (steps 1 and 2): the number of clusters, the
  file, the flag \<^verbatim>\<open>modified\<close> and the first new cluster.
\<close>

definition append_clusters :: "FILE_ID_T \<Rightarrow> u32 \<Rightarrow> s32 \<Rightarrow> s32 \<Rightarrow> bool \<Rightarrow> (s32 \<times> FILE_ID_T \<times> bool \<times> u32) fsM" where
  "append_clusters fid last_clu num_alloc num_clus modified = do {
     k \<leftarrow> gets fs_func;
     (n, clu) \<leftarrow> alloc_cluster k num_alloc
        \<lparr>chain_dir = (if last_clu = CLU_EOF then CLU_EOF else last_clu + 1), chain_size = 0, chain_flags = fid_flags fid\<rparr>;
     if n \<le> 0 then ret (n, fid, modified, chain_dir clu)
     else if last_clu = CLU_EOF then
       ret (n, (if chain_flags clu = 0x01 then fid\<lparr>fid_flags := 0x01\<rparr> else fid)\<lparr>start_clu := chain_dir clu\<rparr>,
            True, chain_dir clu)
     else do {
       (fid, modified) \<leftarrow> (if chain_flags clu \<noteq> fid_flags fid then do {
                              _ \<leftarrow> exfat_chain_cont_cluster (start_clu fid) num_clus;
                              ret (fid\<lparr>fid_flags := 0x01\<rparr>, True) }
                            else ret (fid, modified));
       _ \<leftarrow> (if chain_flags clu = 0x01 then do { _ \<leftarrow> FAT_write last_clu (chain_dir clu); ret () } else ret ());
       ret (n, fid, modified, chain_dir clu) } }"

text \<open>How the loop of \<^verbatim>\<open>ffsWriteFile\<close> is left: regularly or by \<^verbatim>\<open>break\<close>, by \<^verbatim>\<open>goto err_out\<close>, by \<^verbatim>\<open>return\<close>.\<close>

datatype write_exit = Done | Err_out | Return_media

record write_state =
  ws_fid :: FILE_ID_T
  ws_modified :: bool
  ws_num_clus :: s32
  ws_alloced :: s32
  ws_written :: nat

text \<open>Writing the next part of a sector: \<open>data\<close> is what is left to write; the number of bytes, \<open>None\<close> on an error.\<close>

definition write_sector_part :: "FILE_ID_T \<Rightarrow> u32 \<Rightarrow> u8 list \<Rightarrow> u32 option \<Rightarrow> (nat \<times> u32) option fsM" where
  "write_sector_part fid clu data bh = do {
     s \<leftarrow> gets id;
     let (sct, off) = rw_sector fid clu s;
     let len = min (unat (sector_size s) - off) (length data);
     let rd = (\<not> (off = 0 \<and> len = unat (sector_size s)) \<and>
               (off > 0 \<or> (of_int (rwoffset fid + int len) :: u64) < fid_size fid));
     (r, bh) \<leftarrow> sector_read sct bh rd;
     if r \<noteq> FFS_SUCCESS then ret None
     else case bh of
       None \<Rightarrow> do { _ \<leftarrow> set_ub; ret None }
     | Some b \<Rightarrow> do {
         _ \<leftarrow> set_buf b (\<lambda>p. take off p @ take len data @ drop (off + len) p);
         r \<leftarrow> sector_write sct (Some b) False;
         ret (if r \<noteq> FFS_SUCCESS then None else Some (len, b)) } }"

definition advance :: "nat \<Rightarrow> write_state \<Rightarrow> write_state" where
  "advance len ws =
     (let fid = (ws_fid ws)\<lparr>rwoffset := rwoffset (ws_fid ws) + int len, fid_attr := fid_attr (ws_fid ws) OR ATTR_ARCHIVE\<rparr>;
          ws = ws\<lparr>ws_written := ws_written ws + len\<rparr>
      in if fid_size fid < of_int (rwoffset fid)
         then ws\<lparr>ws_fid := fid\<lparr>fid_size := of_int (rwoffset fid)\<rparr>, ws_modified := True\<rparr>
         else ws\<lparr>ws_fid := fid\<rparr>)"

text \<open>Every turn writes at least a byte of \<open>data\<close>.\<close>

fun write_file_loop :: "nat \<Rightarrow> u8 list \<Rightarrow> write_state \<Rightarrow> u32 option \<Rightarrow> (write_exit \<times> write_state) fsM" where
  "write_file_loop 0 data ws bh =
     (if data = [] then ret (Done, ws) else do { _ \<leftarrow> set_ub; ret (Err_out, ws) })"
| "write_file_loop (Suc n) data ws bh =
     (if data = [] then ret (Done, ws)
      else do {
        s \<leftarrow> gets id;
        w \<leftarrow> write_cluster (ws_fid ws) (rw_cluster (ws_fid ws) s) (ws_num_clus ws);
        case w of
          None \<Rightarrow> ret (Return_media, ws)
        | Some (last_clu, old_clu) \<Rightarrow> do {
            let at_end = (old_clu = CLU_EOF);
            (alloced, fid, modified, clu) \<leftarrow>
              (if at_end
               then append_clusters (ws_fid ws) last_clu
                      (to_s32 (drop_bit (cluster_size_bits s) (of_nat (length data) - 1)) + 1)
                      (ws_num_clus ws) (ws_modified ws)
               else ret (ws_alloced ws, ws_fid ws, ws_modified ws, old_clu));
            let ws = ws\<lparr>ws_alloced := alloced, ws_fid := fid, ws_modified := modified,
                        ws_num_clus := (if at_end then ws_num_clus ws + alloced else ws_num_clus ws)\<rparr>;
            if at_end \<and> alloced = 0 then ret (Done, ws)
            else if at_end \<and> alloced < 0 then ret (Return_media, ws)
            else do {
              s \<leftarrow> gets id;
              let ws = ws\<lparr>ws_fid := set_rw_hint clu s (ws_fid ws)\<rparr>;
              p \<leftarrow> write_sector_part (ws_fid ws) clu data bh;
              case p of
                None \<Rightarrow> ret (Err_out, ws)
              | Some (len, b) \<Rightarrow> write_file_loop n (drop len data) (advance len ws) (Some b) } } })"

text \<open>Step 3: the directory entry.  False is \<^verbatim>\<open>goto err_out\<close>.\<close>

definition write_entry :: "fs_env \<Rightarrow> FILE_ID_T \<Rightarrow> bool \<Rightarrow> bool fsM" where
  "write_entry ev fid modified = do {
     s \<leftarrow> gets id;
     let k = ops (fs_func s);
     r \<leftarrow> open_entry fid ES_ALL_ENTRIES;
     case r of
       None \<Rightarrow> ret False
     | Some er \<Rightarrow> do {
         er \<leftarrow> change_entry 0 (\<lambda>e. set_entry_attr k (set_entry_time k e (now ev) TM_MODIFY) (fid_attr fid)) er;
         _ \<leftarrow> (case er of InSet _ \<Rightarrow> ret () | InBuf _ sct \<Rightarrow> buf_modify sct);
         if modified then do {
           e \<leftarrow> read_entry 1 er;
           er \<leftarrow> (if get_entry_flag k e \<noteq> fid_flags fid
                  then change_entry 1 (\<lambda>e. set_entry_flag k e (fid_flags fid)) er else ret er);
           er \<leftarrow> (if get_entry_size k e \<noteq> fid_size fid
                  then change_entry 1 (\<lambda>e. set_entry_size k e (fid_size fid)) er else ret er);
           er \<leftarrow> (if get_entry_clu0 k e \<noteq> start_clu fid
                  then change_entry 1 (\<lambda>e. set_entry_clu0 k e (start_clu fid)) er else ret er);
           _ \<leftarrow> close_entry er;
           ret True }
         else do {
           _ \<leftarrow> (case er of InSet es \<Rightarrow> update_dir_checksum_with_entry_set es | InBuf _ _ \<Rightarrow> ret ());
           ret True } } }"

text \<open>The code, the number of bytes written and the file.\<close>

definition ffsWriteFile :: "fs_env \<Rightarrow> FILE_ID_T \<Rightarrow> u8 list \<Rightarrow> (s32 \<times> nat \<times> FILE_ID_T) fsM" where
  "ffsWriteFile ev fid data =
     (if fid_type fid \<noteq> TYPE_FILE then ret (FFS_PERMISSIONERR, 0, fid)
      else
        let fid = (if (of_int (rwoffset fid) :: u64) > fid_size fid then fid\<lparr>rwoffset := sint (fid_size fid)\<rparr> else fid)
        in if data = [] then ret (FFS_SUCCESS, 0, fid)
           else do {
             _ \<leftarrow> fs_set_vol_flags VOL_DIRTY;
             s \<leftarrow> gets id;
             (x, ws) \<leftarrow> write_file_loop (length data) data
                \<lparr>ws_fid = fid, ws_modified = False,
                 ws_num_clus = (if fid_size fid = 0 then 0 else clusters_of (fid_size fid) s),
                 ws_alloced = -1, ws_written = 0\<rparr> None;
             if x = Return_media then ret (FFS_MEDIAERR, ws_written ws, ws_fid ws)
             else do {
               ok \<leftarrow> (if x = Done then write_entry ev (ws_fid ws) (ws_modified ws) else ret False);
               _ \<leftarrow> (if ok then sync_clean else ret ());
               if ws_alloced ws = 0 then ret (FFS_FULL, ws_written ws, ws_fid ws)
               else do { r \<leftarrow> media FFS_SUCCESS; ret (r, ws_written ws, ws_fid ws) } } })"

end
