(* ===== verification/FileAttr.thy ===== *)
theory FileAttr
  imports FileApi
begin

text \<open>
  Truncating, moving and removing files, attributes and status, mapping clusters, reading and removing directories
  (\<^verbatim>\<open>exfat_core.c\<close>).
\<close>

section \<open>Truncating\<close>

text \<open>
  The chain to be cut off, for a new size greater than zero: its first cluster, its size and the last cluster that
  stays (zero for a contiguous file).  The walk uses up \<^verbatim>\<open>num_clusters\<close>, so that nothing is subtracted from the size.
\<close>

fun cut_walk :: "nat \<Rightarrow> u32 \<Rightarrow> u32 \<Rightarrow> (u32 \<times> u32) option fsM" where
  "cut_walk 0 last_clu clu = ret (Some (last_clu, clu))"
| "cut_walk (Suc n) last_clu clu = do {
     rd \<leftarrow> FAT_read clu;
     case rd of None \<Rightarrow> ret None | Some nxt \<Rightarrow> cut_walk n clu nxt }"

definition cut_chain :: "FILE_ID_T \<Rightarrow> u64 \<Rightarrow> u64 \<Rightarrow> (CHAIN_T \<times> u32) option fsM" where
  "cut_chain fid old_size new_size = do {
     s \<leftarrow> gets id;
     let ch = \<lparr>chain_dir = start_clu fid, chain_size = clusters_of old_size s, chain_flags = fid_flags fid\<rparr>;
     if new_size = 0 then ret (Some (ch, 0))
     else do {
       let n = clusters_of new_size s;
       if fid_flags fid = 0x03
       then ret (Some (ch\<lparr>chain_dir := chain_dir ch + of_int n, chain_size := chain_size ch - n\<rparr>, 0))
       else do {
         w \<leftarrow> cut_walk (nat n) 0 (chain_dir ch);
         ret (map_option (\<lambda>(last_clu, clu). (ch\<lparr>chain_dir := clu, chain_size := chain_size ch - min n 0\<rparr>, last_clu)) w) } } }"

definition ffsTruncateFile :: "fs_env \<Rightarrow> inode \<Rightarrow> u64 \<Rightarrow> u64 \<Rightarrow> (s32 \<times> inode) fsM" where
  "ffsTruncateFile ev ino old_size new_size =
     (let fid = i_fid ino in
      if fid_type fid \<noteq> TYPE_FILE then ret (FFS_PERMISSIONERR, ino)
      else if old_size \<le> new_size then ret (FFS_SUCCESS, ino)
      else do {
        _ \<leftarrow> fs_set_vol_flags VOL_DIRTY;
        c \<leftarrow> cut_chain fid old_size new_size;
        case c of
          None \<Rightarrow> ret (FFS_MEDIAERR, ino)
        | Some (clu, last_clu) \<Rightarrow> do {
            s \<leftarrow> gets id;
            let k = ops (fs_func s);
            let fid = fid\<lparr>fid_size := new_size, fid_attr := fid_attr fid OR ATTR_ARCHIVE\<rparr>;
            let fid = (if new_size = 0 then fid\<lparr>fid_flags := first_flags s, start_clu := CLU_EOF\<rparr> else fid);
            r \<leftarrow> open_entry fid ES_ALL_ENTRIES;
            case r of
              None \<Rightarrow> ret (FFS_MEDIAERR, ino\<lparr>i_fid := fid\<rparr>)
            | Some er \<Rightarrow> do {
                er \<leftarrow> change_entry 0 (\<lambda>e. set_entry_attr k (set_entry_time k e (now ev) TM_MODIFY) (fid_attr fid)) er;
                er \<leftarrow> change_entry 1 (\<lambda>e. set_entry_size k e new_size) er;
                er \<leftarrow> (if new_size = 0
                       then change_entry 1 (\<lambda>e. set_entry_clu0 k (set_entry_flag k e 0x01) 0) er else ret er);
                _ \<leftarrow> close_entry er;
                _ \<leftarrow> (if last_clu \<noteq> 0 \<and> fid_flags fid = 0x01
                     then do { _ \<leftarrow> FAT_write last_clu CLU_EOF; ret () } else ret ());
                _ \<leftarrow> free_cluster (fs_func s) clu False;
                let fid = fid\<lparr>hint_last_off := -1,
                              rwoffset := (if of_int (rwoffset fid) > fid_size fid then sint (fid_size fid) else rwoffset fid)\<rparr>;
                r \<leftarrow> finish FFS_SUCCESS;
                ret (r, ino\<lparr>i_fid := fid\<rparr>) } } })"

section \<open>Moving\<close>

definition update_parent_info :: "FILE_ID_T \<Rightarrow> inode \<Rightarrow> FILE_ID_T fsM" where
  "update_parent_info fid parent = do {
     s \<leftarrow> gets id;
     let p = i_fid parent;
     ret (if fid_flags p \<noteq> chain_flags (fid_dir fid)
             \<or> fid_size p \<noteq> of_int (shl32 (chain_size (fid_dir fid)) (cluster_size_bits s))
             \<or> start_clu p \<noteq> chain_dir (fid_dir fid)
          then fid\<lparr>fid_dir := \<lparr>chain_dir = start_clu p,
                               chain_size = to_s32 (drop_bit (cluster_size_bits s) (fid_size p + ucast (cluster_size s - 1))),
                               chain_flags = fid_flags p\<rparr>\<rparr>
          else fid) }"

text \<open>The check of an existing target; a code to return, with the flag for \<^verbatim>\<open>goto out\<close>.\<close>

definition check_target :: "FILE_ID_T \<Rightarrow> (bool \<times> s32) option fsM" where
  "check_target new_fid = do {
     s \<leftarrow> gets id;
     r \<leftarrow> get_entry_in_dir (fid_dir new_fid) (fid_entry new_fid);
     case r of
       None \<Rightarrow> ret (Some (True, FFS_MEDIAERR))
     | Some (ep, _) \<Rightarrow> do {
         e \<leftarrow> read_ep ep;
         if get_entry_type (ops (fs_func s)) e = TYPE_DIR then do {
           empty \<leftarrow> is_dir_empty \<lparr>chain_dir = start_clu new_fid, chain_size = clusters_of (fid_size new_fid) s,
                                   chain_flags = fid_flags new_fid\<rparr>;
           ret (if empty then None else Some (False, FFS_FILEEXIST)) }
         else ret None } }"

text \<open>Deleting the entries of the replaced target.\<close>

definition delete_target :: "FILE_ID_T \<Rightarrow> unit fsM" where
  "delete_target new_fid = do {
     k \<leftarrow> gets fs_func;
     r \<leftarrow> get_entry_in_dir (fid_dir new_fid) (fid_entry new_fid);
     case r of
       None \<Rightarrow> ret ()
     | Some (ep, _) \<Rightarrow> do {
         e \<leftarrow> read_ep ep;
         n \<leftarrow> count_ext_entries k (fid_dir new_fid) (fid_entry new_fid) e;
         if n < 0 then ret () else delete_dir_entry k (fid_dir new_fid) (fid_entry new_fid) 0 (n + 1) } }"

text \<open>Result: the code, the file, the new parent and the replaced file.\<close>

type_synonym move_result = "s32 \<times> FILE_ID_T \<times> inode \<times> FILE_ID_T option"

definition do_move :: "fs_env \<Rightarrow> FILE_ID_T \<Rightarrow> inode \<Rightarrow> u8 list \<Rightarrow> FILE_ID_T option \<Rightarrow> move_result fsM" where
  "do_move ev fid new_parent new_path new_fid = do {
     rp \<leftarrow> resolve_path ev new_parent new_path;
     case rp of
       Inl r \<Rightarrow> ret (r, fid, new_parent, new_fid)
     | Inr (new_parent, newdir, un) \<Rightarrow> do {
         let olddir = fid_dir fid;
         _ \<leftarrow> fs_set_vol_flags VOL_DIRTY;
         (r, new_parent, fid) \<leftarrow>
           (if chain_dir olddir = chain_dir newdir
            then rename_file ev new_parent olddir (fid_entry fid) un fid
            else move_file ev new_parent olddir (fid_entry fid) newdir un fid);
         _ \<leftarrow> (case new_fid of
                Some nf \<Rightarrow> whenM (r = FFS_SUCCESS) (delete_target nf)
              | None \<Rightarrow> ret ());
         r \<leftarrow> finish r;
         ret (r, fid, new_parent, new_fid) } }"

definition ffsMoveFile :: "fs_env \<Rightarrow> inode \<Rightarrow> FILE_ID_T \<Rightarrow> inode \<Rightarrow> u8 list \<Rightarrow> FILE_ID_T option \<Rightarrow> move_result fsM" where
  "ffsMoveFile ev old_parent fid new_parent new_path new_fid =
     (if new_path = [] then ret (FFS_ERROR, fid, new_parent, new_fid)
      else do {
        fid \<leftarrow> update_parent_info fid old_parent;
        s \<leftarrow> gets id;
        if vol_type s \<noteq> EXFAT \<and> chain_dir (fid_dir fid) \<noteq> root_dir s \<and> fid_entry fid < 2
        then ret (FFS_PERMISSIONERR, fid, new_parent, new_fid)
        else do {
          r \<leftarrow> get_entry_in_dir (fid_dir fid) (fid_entry fid);
          case r of
            None \<Rightarrow> ret (FFS_MEDIAERR, fid, new_parent, new_fid)
          | Some (ep, _) \<Rightarrow> do {
              e \<leftarrow> read_ep ep;
              if get_entry_attr (ops (fs_func s)) e AND ATTR_READONLY \<noteq> 0
              then ret (FFS_PERMISSIONERR, fid, new_parent, new_fid)
              else case new_fid of
                None \<Rightarrow> do_move ev fid new_parent new_path None
              | Some nf \<Rightarrow> do {
                  nf \<leftarrow> update_parent_info nf new_parent;
                  c \<leftarrow> check_target nf;
                  case c of
                    None \<Rightarrow> do_move ev fid new_parent new_path (Some nf)
                  | Some (out, r) \<Rightarrow> do {
                      r \<leftarrow> (if out then finish r else ret r);
                      ret (r, fid, new_parent, Some nf) } } } } })"

section \<open>Removing\<close>

definition free_file :: "FILE_ID_T \<Rightarrow> bool \<Rightarrow> FILE_ID_T fsM" where
  "free_file fid do_relse = do {
     s \<leftarrow> gets id;
     _ \<leftarrow> free_cluster (fs_func s)
       \<lparr>chain_dir = start_clu fid, chain_size = clusters_of (fid_size fid) s, chain_flags = fid_flags fid\<rparr> do_relse;
     ret (fid\<lparr>fid_size := 0, start_clu := CLU_EOF, fid_flags := first_flags s\<rparr>) }"

definition ffsRemoveFile :: "FILE_ID_T \<Rightarrow> (s32 \<times> FILE_ID_T) fsM" where
  "ffsRemoveFile fid = do {
     s \<leftarrow> gets id;
     r \<leftarrow> get_entry_in_dir (fid_dir fid) (fid_entry fid);
     case r of
       None \<Rightarrow> ret (FFS_MEDIAERR, fid)
     | Some (ep, _) \<Rightarrow> do {
         e \<leftarrow> read_ep ep;
         if get_entry_attr (ops (fs_func s)) e AND ATTR_READONLY \<noteq> 0 then ret (FFS_PERMISSIONERR, fid)
         else do {
           _ \<leftarrow> fs_set_vol_flags VOL_DIRTY;
           _ \<leftarrow> remove_file (fid_dir fid) (fid_entry fid);
           fid \<leftarrow> free_file fid False;
           r \<leftarrow> finish FFS_SUCCESS;
           ret (r, fid) } } }"

definition ffsRemoveDir :: "FILE_ID_T \<Rightarrow> (s32 \<times> FILE_ID_T) fsM" where
  "ffsRemoveDir fid = do {
     s \<leftarrow> gets id;
     if vol_type s \<noteq> EXFAT \<and> chain_dir (fid_dir fid) \<noteq> root_dir s \<and> fid_entry fid < 2
     then ret (FFS_PERMISSIONERR, fid)
     else do {
       empty \<leftarrow> is_dir_empty \<lparr>chain_dir = start_clu fid, chain_size = clusters_of (fid_size fid) s,
                               chain_flags = fid_flags fid\<rparr>;
       if \<not> empty then ret (FFS_FILEEXIST, fid)
       else do {
         _ \<leftarrow> fs_set_vol_flags VOL_DIRTY;
         _ \<leftarrow> remove_file (fid_dir fid) (fid_entry fid);
         fid \<leftarrow> free_file fid True;
         r \<leftarrow> finish FFS_SUCCESS;
         ret (r, fid) } } }"

section \<open>Attributes and status\<close>

definition is_root_fid :: "FILE_ID_T \<Rightarrow> vol \<Rightarrow> bool" where
  "is_root_fid fid s \<longleftrightarrow> fid_type fid = TYPE_DIR \<and> chain_dir (fid_dir fid) = root_dir s \<and> fid_entry fid = -1"

definition ffsSetAttr :: "inode \<Rightarrow> u32 \<Rightarrow> (s32 \<times> inode) fsM" where
  "ffsSetAttr ino attr = do {
     s \<leftarrow> gets id;
     let fid = i_fid ino;
     let k = ops (fs_func s);
     if fid_attr fid = attr \<or> is_root_fid fid s then do { r \<leftarrow> media FFS_SUCCESS; ret (r, ino) }
     else do {
       r \<leftarrow> open_entry fid ES_ALL_ENTRIES;
       case r of
         None \<Rightarrow> ret (FFS_MEDIAERR, ino)
       | Some er \<Rightarrow> do {
           e \<leftarrow> read_entry 0 er;
           let t = get_entry_type k e;
           if (t = TYPE_FILE \<and> attr AND ATTR_SUBDIR \<noteq> 0) \<or> (t = TYPE_DIR \<and> attr AND ATTR_SUBDIR = 0)
           then do { r \<leftarrow> media FFS_ERROR; ret (r, ino) }
           else do {
             _ \<leftarrow> fs_set_vol_flags VOL_DIRTY;
             er \<leftarrow> change_entry 0 (\<lambda>e. set_entry_attr k e attr) er;
             _ \<leftarrow> close_entry er;
             r \<leftarrow> finish FFS_SUCCESS;
             ret (r, ino\<lparr>i_fid := fid\<lparr>fid_attr := attr\<rparr>\<rparr>) } } } }"

record DATE_TIME_T =
  Year :: u16
  Month :: u16
  Day :: u16
  Hour :: u16
  Minute :: u16
  Second :: u16
  MilliSecond :: u16

record DIR_ENTRY_T =
  de_Name :: "u8 list"
  de_ShortName :: "u8 list"
  de_Attr :: u32
  de_Size :: u64
  de_NumSubdirs :: u32
  de_Create :: DATE_TIME_T
  de_Modify :: DATE_TIME_T
  de_Access :: DATE_TIME_T

definition no_date :: DATE_TIME_T where
  "no_date = \<lparr>Year = 0, Month = 0, Day = 0, Hour = 0, Minute = 0, Second = 0, MilliSecond = 0\<rparr>"

definition to_date :: "TIMESTAMP_T \<Rightarrow> DATE_TIME_T" where
  "to_date tm = \<lparr>Year = tm_year tm, Month = tm_mon tm, Day = tm_day tm, Hour = tm_hour tm, Minute = tm_min tm,
     Second = tm_sec tm, MilliSecond = 0\<rparr>"

definition to_tm :: "DATE_TIME_T \<Rightarrow> TIMESTAMP_T" where
  "to_tm d = \<lparr>tm_sec = Second d, tm_min = Minute d, tm_hour = Hour d, tm_day = Day d, tm_mon = Month d, tm_year = Year d\<rparr>"

definition cstring :: "fs_env \<Rightarrow> u16 list \<Rightarrow> u8 list" where
  "cstring ev u = nls_uniname_to_cstring (utf8_encode ev) (nls_io ev) \<lparr>un_name = u, un_hash = 0, un_len = 0\<rparr>"

text \<open>
  The names of an entry \<open>e\<close>: the long one from the entries around it, else from the DOS entry; the short one only
  without exFAT.  The array has a zero in front.
\<close>

definition long_name :: "fs_env \<Rightarrow> CHAIN_T \<Rightarrow> s32 \<Rightarrow> u8 list \<Rightarrow> u8 list fsM" where
  "long_name ev ch entry e = do {
     s \<leftarrow> gets id;
     u \<leftarrow> get_uni_name_from_ext_entry (fs_func s) ch entry ((take MAX_NAME_LENGTH (stack_junk ev))[0 := 0]);
     ret (cstring ev (if u ! 0 = 0 \<and> vol_type s \<noteq> EXFAT then get_uni_name_from_dos_entry (nls_disk ev) e 0x1 else u)) }"

definition short_name :: "fs_env \<Rightarrow> u8 list \<Rightarrow> u8 list" where
  "short_name ev e = cstring ev (get_uni_name_from_dos_entry (nls_disk ev) e 0x0)"

definition fill_times :: "FS_FUNC_T \<Rightarrow> u8 list \<Rightarrow> DIR_ENTRY_T \<Rightarrow> DIR_ENTRY_T" where
  "fill_times k e info = info\<lparr>de_Attr := get_entry_attr k e, de_Create := to_date (get_entry_time k e TM_CREATE),
     de_Modify := to_date (get_entry_time k e TM_MODIFY), de_Access := no_date\<rparr>"

definition dir_bytes :: "CHAIN_T \<Rightarrow> u64 fsM" where
  "dir_bytes ch = do {
     n \<leftarrow> count_num_clusters ch;
     bits \<leftarrow> gets cluster_size_bits;
     ret (of_int (shl32 n bits)) }"

definition stat_root :: "DIR_ENTRY_T \<Rightarrow> (s32 \<times> DIR_ENTRY_T) fsM" where
  "stat_root info = do {
     s \<leftarrow> gets id;
     let info = info\<lparr>de_Attr := ATTR_SUBDIR, de_Create := no_date, de_Modify := no_date, de_Access := no_date,
                     de_ShortName := [chr8 CHR ''.''], de_Name := [chr8 CHR ''.'']\<rparr>;
     let dir = \<lparr>chain_dir = root_dir s, chain_size = 0, chain_flags = 0x01\<rparr>;
     sz \<leftarrow> (if root_dir s = 0 then ret (ucast (push_bit 5 (dentries_in_root s))) else dir_bytes dir);
     count \<leftarrow> count_dos_name_entries dir TYPE_DIR;
     let info = info\<lparr>de_Size := sz\<rparr>;
     if count < 0 then ret (FFS_MEDIAERR, info)
     else do { r \<leftarrow> media FFS_SUCCESS; ret (r, info\<lparr>de_NumSubdirs := of_int count\<rparr>) } }"

text \<open>The part of \<^verbatim>\<open>ffsGetStat\<close> for a directory, after its entry has been read.\<close>

definition stat_dir :: "FILE_ID_T \<Rightarrow> DIR_ENTRY_T \<Rightarrow> (s32 \<times> DIR_ENTRY_T) fsM" where
  "stat_dir fid info = do {
     let dir = \<lparr>chain_dir = start_clu fid, chain_size = 0, chain_flags = 0x01\<rparr>;
     sz \<leftarrow> (if de_Size info = 0 then do {
               n \<leftarrow> count_num_clusters dir;
               bits \<leftarrow> gets cluster_size_bits;
               ret (push_bit bits (of_int n)) }
            else ret (de_Size info));
     let info = info\<lparr>de_Size := sz\<rparr>;
     count \<leftarrow> count_dos_name_entries dir TYPE_DIR;
     if count < 0 then ret (FFS_MEDIAERR, info)
     else do { r \<leftarrow> media FFS_SUCCESS; ret (r, info\<lparr>de_NumSubdirs := de_NumSubdirs info + of_int count\<rparr>) } }"

definition ffsGetStat :: "fs_env \<Rightarrow> inode \<Rightarrow> DIR_ENTRY_T \<Rightarrow> (s32 \<times> DIR_ENTRY_T) fsM" where
  "ffsGetStat ev ino info = do {
     s \<leftarrow> gets id;
     let fid = i_fid ino;
     let k = ops (fs_func s);
     if is_root_fid fid s then stat_root info
     else do {
       r \<leftarrow> open_entry fid ES_2_ENTRIES;
       case r of
         None \<Rightarrow> ret (FFS_MEDIAERR, info)
       | Some er \<Rightarrow> do {
           _ \<leftarrow> (case er of InSet _ \<Rightarrow> ret () | InBuf _ sct \<Rightarrow> buf_lock sct);
           e \<leftarrow> read_entry 0 er;
           let info = fill_times k e info;
           name \<leftarrow> long_name ev (fid_dir fid) (fid_entry fid) e;
           _ \<leftarrow> (case er of InSet _ \<Rightarrow> ret () | InBuf _ sct \<Rightarrow> buf_unlock sct);
           let info = (if vol_type s = EXFAT then info\<lparr>de_Name := name, de_NumSubdirs := 2\<rparr>
                       else info\<lparr>de_Name := name, de_ShortName := short_name ev e, de_NumSubdirs := 0\<rparr>);
           e2 \<leftarrow> read_entry 1 er;
           let info = info\<lparr>de_Size := get_entry_size k e2\<rparr>;
           if fid_type fid = TYPE_DIR then stat_dir fid info
           else do { r \<leftarrow> media FFS_SUCCESS; ret (r, info) } } } }"

definition ffsSetStat :: "inode \<Rightarrow> DIR_ENTRY_T \<Rightarrow> s32 fsM" where
  "ffsSetStat ino info = do {
     s \<leftarrow> gets id;
     let fid = i_fid ino;
     let k = ops (fs_func s);
     if is_root_fid fid s then media FFS_SUCCESS
     else do {
       _ \<leftarrow> fs_set_vol_flags VOL_DIRTY;
       r \<leftarrow> open_entry fid ES_ALL_ENTRIES;
       case r of
         None \<Rightarrow> ret FFS_MEDIAERR
       | Some er \<Rightarrow> do {
           er \<leftarrow> change_entry 0 (\<lambda>e. set_entry_time k (set_entry_time k (set_entry_attr k e (de_Attr info))
                   (to_tm (de_Create info)) TM_CREATE) (to_tm (de_Modify info)) TM_MODIFY) er;
           er \<leftarrow> change_entry 1 (\<lambda>e. set_entry_size k e (de_Size info)) er;
           _ \<leftarrow> close_entry er;
           media FFS_SUCCESS } } }"

section \<open>Mapping clusters\<close>

text \<open>Writing the flags and the first cluster to the directory entry; false is an error.\<close>

definition map_entry :: "FILE_ID_T \<Rightarrow> bool \<Rightarrow> bool fsM" where
  "map_entry fid modified = do {
     s \<leftarrow> gets id;
     let k = ops (fs_func s);
     if vol_type s \<noteq> EXFAT \<and> \<not> modified then ret True
     else do {
       r \<leftarrow> open_entry fid ES_ALL_ENTRIES;
       case r of
         None \<Rightarrow> ret False
       | Some er \<Rightarrow> do {
           er \<leftarrow> (if modified then do {
                     e \<leftarrow> read_entry 1 er;
                     er \<leftarrow> (if get_entry_flag k e \<noteq> fid_flags fid
                            then change_entry 1 (\<lambda>e. set_entry_flag k e (fid_flags fid)) er else ret er);
                     if get_entry_clu0 k e \<noteq> start_clu fid
                     then change_entry 1 (\<lambda>e. set_entry_clu0 k e (start_clu fid)) er else ret er }
                   else ret er);
           _ \<leftarrow> close_entry er;
           ret True } } }"

text \<open>
  The code, \<^verbatim>\<open>*clu\<close> and the inode; what \<^verbatim>\<open>*clu\<close> holds when the FAT could not be read is not modelled, the caller does
  not look at it.
\<close>

definition ffsMapCluster :: "inode \<Rightarrow> s32 \<Rightarrow> (s32 \<times> u32 \<times> inode) fsM" where
  "ffsMapCluster ino clu_offset = do {
     s \<leftarrow> gets id;
     let fid = (i_fid ino)\<lparr>rwoffset := push_bit (cluster_size_bits s) clu_offset\<rparr>;
     let num_clus = (if mmu_private ino = 0 then 0 else clusters_of (mmu_private ino) s);
     w \<leftarrow> write_cluster fid clu_offset num_clus;
     case w of
       None \<Rightarrow> ret (FFS_MEDIAERR, start_clu fid, ino\<lparr>i_fid := fid\<rparr>)
     | Some (last_clu, clu) \<Rightarrow>
         if clu \<noteq> CLU_EOF then do {
           r \<leftarrow> media FFS_SUCCESS;
           ret (r, clu, ino\<lparr>i_fid := set_rw_hint clu s fid\<rparr>) }
         else do {
           _ \<leftarrow> fs_set_vol_flags VOL_DIRTY;
           (n, fid, modified, clu) \<leftarrow> append_clusters fid last_clu 1 num_clus False;
           if n < 0 then ret (FFS_MEDIAERR, CLU_EOF, ino\<lparr>i_fid := fid\<rparr>)
           else if n = 0 then ret (FFS_FULL, CLU_EOF, ino\<lparr>i_fid := fid\<rparr>)
           else do {
             ok \<leftarrow> map_entry fid modified;
             if \<not> ok then ret (FFS_MEDIAERR, clu, ino\<lparr>i_fid := fid\<rparr>)
             else do {
               r \<leftarrow> media FFS_SUCCESS;
               ret (r, clu, ino\<lparr>i_fid := set_rw_hint clu s fid,
                               i_blocks := i_blocks ino + of_int (shl32 n (cluster_size_bits s - 9))\<rparr>) } } } }"

section \<open>Reading a directory\<close>

text \<open>The state of the search is \<^verbatim>\<open>dentry\<close>; \<open>dir\<close> is the whole directory, \<open>bits\<close> the number of \<^verbatim>\<open>dentries_per_clu_bits\<close>.\<close>

definition read_dir_body :: "fs_env \<Rightarrow> CHAIN_T \<Rightarrow> s32 \<Rightarrow> nat \<Rightarrow> FILE_ID_T \<Rightarrow> DIR_ENTRY_T \<Rightarrow> CHAIN_T \<Rightarrow> s32 \<Rightarrow> eptr \<Rightarrow> u32 \<Rightarrow> s32 \<Rightarrow>
    (s32 \<times> FILE_ID_T \<times> DIR_ENTRY_T) option fsM" where
  "read_dir_body ev dir dpc bits fid de clu i ep sct dentry = do {
     s \<leftarrow> gets id;
     let k = ops (fs_func s);
     _ \<leftarrow> buf_lock sct;
     e \<leftarrow> read_ep ep;
     let de = fill_times k e de;
     name \<leftarrow> long_name ev dir dentry e;
     _ \<leftarrow> buf_unlock sct;
     let de = de\<lparr>de_Name := name\<rparr>;
     r \<leftarrow> (if vol_type s = EXFAT then get_entry_in_dir clu (i + 1) else ret (Some (ep, sct)));
     case r of
       None \<Rightarrow> ret None
     | Some (ep2, _) \<Rightarrow> do {
         e2 \<leftarrow> read_ep ep2;
         let de = (if vol_type s = EXFAT then de else de\<lparr>de_ShortName := short_name ev e2\<rparr>);
         let fid = (if chain_dir dir = 0 then fid
                    else fid\<lparr>hint_last_off := drop_bit bits dentry, hint_last_clu := chain_dir clu\<rparr>);
         r \<leftarrow> media FFS_SUCCESS;
         ret (Some (r, fid\<lparr>rwoffset := dentry + 1\<rparr>, de\<lparr>de_Size := get_entry_size k e2\<rparr>)) } }"

fun read_dir_entries :: "nat \<Rightarrow> fs_env \<Rightarrow> CHAIN_T \<Rightarrow> s32 \<Rightarrow> nat \<Rightarrow> FILE_ID_T \<Rightarrow> DIR_ENTRY_T \<Rightarrow> CHAIN_T \<Rightarrow> s32 \<Rightarrow> s32 \<Rightarrow>
    ((s32 \<times> FILE_ID_T \<times> DIR_ENTRY_T), s32) ctl fsM" where
  "read_dir_entries 0 ev dir dpc bits fid de clu i dentry = ret (Cont dentry)"
| "read_dir_entries (Suc n) ev dir dpc bits fid de clu i dentry = do {
     r \<leftarrow> get_entry_in_dir clu i;
     case r of
       None \<Rightarrow> ret (Ret (FFS_MEDIAERR, fid, de))
     | Some (ep, sct) \<Rightarrow> do {
         k \<leftarrow> gets fs_func;
         e \<leftarrow> read_ep ep;
         let t = get_entry_type (ops k) e;
         if t = TYPE_UNUSED then ret (Brk dentry)
         else if t \<noteq> TYPE_FILE \<and> t \<noteq> TYPE_DIR
         then read_dir_entries n ev dir dpc bits fid de clu (i + 1) (dentry + 1)
         else do {
           x \<leftarrow> read_dir_body ev dir dpc bits fid de clu i ep sct dentry;
           ret (Ret (case x of None \<Rightarrow> (FFS_MEDIAERR, fid, de) | Some y \<Rightarrow> y)) } } }"

definition dir_end :: "FILE_ID_T \<Rightarrow> DIR_ENTRY_T \<Rightarrow> s32 \<Rightarrow> (s32 \<times> FILE_ID_T \<times> DIR_ENTRY_T) fsM" where
  "dir_end fid de dentry = do {
     r \<leftarrow> media FFS_SUCCESS;
     ret (r, fid\<lparr>rwoffset := dentry + 1\<rparr>, de\<lparr>de_Name := []\<rparr>) }"

fun read_dir_loop :: "nat \<Rightarrow> fs_env \<Rightarrow> CHAIN_T \<Rightarrow> s32 \<Rightarrow> nat \<Rightarrow> FILE_ID_T \<Rightarrow> DIR_ENTRY_T \<Rightarrow> CHAIN_T \<Rightarrow> s32 \<Rightarrow>
    (s32 \<times> FILE_ID_T \<times> DIR_ENTRY_T) fsM" where
  "read_dir_loop 0 ev dir dpc bits fid de clu dentry = do { _ \<leftarrow> set_ub; dir_end fid de dentry }"
| "read_dir_loop (Suc n) ev dir dpc bits fid de clu dentry =
     (if chain_dir clu = CLU_EOF then dir_end fid de dentry
      else do {
        ej \<leftarrow> gets dev_ejected;
        if ej then dir_end fid de dentry
        else if chain_dir dir = 0 \<and> dpc = 0 then do { _ \<leftarrow> set_ub; dir_end fid de dentry }
        else do {
          let i = (if chain_dir dir = 0 then dentry smod dpc else dentry AND (dpc - 1));
          x \<leftarrow> read_dir_entries (nat (dpc - i)) ev dir dpc bits fid de clu i dentry;
          case x of
            Ret y \<Rightarrow> ret y
          | Brk dentry \<Rightarrow> if chain_dir dir = 0 then dir_end fid de dentry else do {
              nx \<leftarrow> chain_next clu;
              case nx of None \<Rightarrow> ret (FFS_MEDIAERR, fid, de)
              | Some clu \<Rightarrow> read_dir_loop n ev dir dpc bits fid de clu dentry }
          | Cont dentry \<Rightarrow> if chain_dir dir = 0 then dir_end fid de dentry else do {
              nx \<leftarrow> chain_next clu;
              case nx of None \<Rightarrow> ret (FFS_MEDIAERR, fid, de)
              | Some clu \<Rightarrow> read_dir_loop n ev dir dpc bits fid de clu dentry } } })"

text \<open>The cluster to start at; \<open>None\<close> when the FAT cannot be read.\<close>

definition read_dir_start :: "FILE_ID_T \<Rightarrow> CHAIN_T \<Rightarrow> s32 \<Rightarrow> nat \<Rightarrow> s32 \<Rightarrow> CHAIN_T option fsM" where
  "read_dir_start fid dir dpc bits dentry =
     (if chain_dir dir = 0 then ret (Some (if dentry = dpc then dir\<lparr>chain_dir := CLU_EOF\<rparr> else dir))
      else let clu_offset = drop_bit bits dentry in
        if chain_flags dir = 0x03
        then ret (Some (dir\<lparr>chain_dir := chain_dir dir + of_int clu_offset, chain_size := chain_size dir - clu_offset\<rparr>))
        else do {
          let (n, c) = (if clu_offset > 0 \<and> hint_last_off fid > 0 \<and> clu_offset \<ge> hint_last_off fid
                        then (clu_offset - hint_last_off fid, hint_last_clu fid) else (clu_offset, chain_dir dir));
          w \<leftarrow> walk_chain_loop (nat n) c;
          ret (map_option (\<lambda>c. dir\<lparr>chain_dir := c\<rparr>) w) })"

definition ffsReadDir :: "fs_env \<Rightarrow> inode \<Rightarrow> DIR_ENTRY_T \<Rightarrow> (s32 \<times> inode \<times> DIR_ENTRY_T) fsM" where
  "ffsReadDir ev ino de = do {
     s \<leftarrow> gets id;
     let fid = i_fid ino;
     if fid_type fid \<noteq> TYPE_DIR then ret (FFS_PERMISSIONERR, ino, de)
     else do {
       let dir = (if fid_entry fid = -1 then \<lparr>chain_dir = root_dir s, chain_size = 0, chain_flags = 0x01\<rparr>
                  else \<lparr>chain_dir = start_clu fid, chain_size = to_s32 (drop_bit (cluster_size_bits s) (fid_size fid)),
                        chain_flags = fid_flags fid\<rparr>);
       let dpc = dir_dentries dir s;
       let bits = ilog2 (nat dpc);
       let dentry = sint (of_int (rwoffset fid) :: u32);
       c \<leftarrow> read_dir_start fid dir dpc bits dentry;
       case c of
         None \<Rightarrow> ret (FFS_MEDIAERR, ino, de)
       | Some clu \<Rightarrow> do {
           (r, fid, de) \<leftarrow> read_dir_loop CHAIN_FUEL ev dir dpc bits fid de clu dentry;
           ret (r, ino\<lparr>i_fid := fid\<rparr>, de) } } }"

end
