(* ===== verification/LinkRings.thy ===== *)
theory LinkRings
  imports Cache
begin

text \<open>
  Circular doubly linked lists as lists: \<open>ring np h xs\<close> says that the pointer functions \<open>np = (next, prev)\<close>
  lead from the head \<open>h\<close> through \<open>xs\<close> back to \<open>h\<close>.  The link operations of \<open>Cache\<close> are the list operations,
  and leave every other ring alone.  The locale \<open>recency_list\<close> is the contract of a list kept in order of use, which
  the LRU lists of the caches meet.
\<close>

section \<open>Rings\<close>

fun links :: "('a \<Rightarrow> 'a) \<times> ('a \<Rightarrow> 'a) \<Rightarrow> 'a list \<Rightarrow> bool" where
  "links np [] \<longleftrightarrow> True"
| "links np [x] \<longleftrightarrow> True"
| "links np (x # y # xs) \<longleftrightarrow> fst np x = y \<and> snd np y = x \<and> links np (y # xs)"

definition ring :: "('a \<Rightarrow> 'a) \<times> ('a \<Rightarrow> 'a) \<Rightarrow> 'a \<Rightarrow> 'a list \<Rightarrow> bool" where
  "ring np h xs \<longleftrightarrow> distinct (h # xs) \<and> links np (h # xs @ [h])"

lemma links_append: "links np (xs @ y # ys) \<longleftrightarrow> links np (xs @ [y]) \<and> links np (y # ys)"
proof (induction xs)
  case Nil
  then show ?case by simp
next
  case (Cons x xs)
  then show ?case by (cases xs) auto
qed

lemma links_cong:
  "(\<And>x. x \<in> set (butlast xs) \<Longrightarrow> fst np' x = fst np x) \<Longrightarrow> (\<And>x. x \<in> set (tl xs) \<Longrightarrow> snd np' x = snd np x) \<Longrightarrow>
   links np' xs = links np xs"
proof (induction np xs rule: links.induct)
  case (3 np x y xs)
  have "links np' (y # xs) = links np (y # xs)"
    by (rule "3.IH") (use 3(2,3) in \<open>auto simp: list.set_sel(2)\<close>)
  with 3(2) [of x] 3(3) [of y] show ?case by auto
qed auto

lemma links_rev: "links (n, p) xs \<longleftrightarrow> links (p, n) (rev xs)"
proof (induction "(n, p)" xs rule: links.induct)
  case (3 x y xs)
  have "links (p, n) (rev (x # y # xs)) = (links (p, n) (rev xs @ [y]) \<and> links (p, n) [y, x])"
    using links_append [of "(p, n)" "rev xs" y "[x]"] by simp
  with 3 show ?case by auto
qed auto

lemma ring_rev: "ring (n, p) h xs \<longleftrightarrow> ring (p, n) h (rev xs)"
  using links_rev [of n p "h # xs @ [h]"] by (simp add: ring_def)

lemma ring_next: "ring np h xs \<Longrightarrow> fst np h = hd (xs @ [h])"
  by (cases xs) (auto simp: ring_def)

lemma ring_prev: "ring np h xs \<Longrightarrow> snd np h = last (h # xs)"
  using ring_next [of "(snd np, fst np)" h "rev xs"] ring_rev [of "fst np" "snd np" h xs]
  by (cases xs rule: rev_cases) auto

text \<open>A ring around one of its elements.\<close>

lemma ring_at:
  assumes "ring np h (xs @ x # ys)"
  obtains as a b bs where "h # xs = as @ [a]" "ys @ [h] = b # bs" "links np (as @ a # x # b # bs)"
proof -
  obtain as a where a: "h # xs = as @ [a]" by (cases "h # xs" rule: rev_cases) auto
  obtain b bs where b: "ys @ [h] = b # bs" by (cases "ys @ [h]") auto
  have "links np ((h # xs) @ x # (ys @ [h]))" using assms by (simp add: ring_def)
  then have "links np (as @ a # x # b # bs)" by (simp only: a b) simp
  with a b show ?thesis by (rule that)
qed

lemma ring_prev_next:
  assumes "ring np h (xs @ x # ys)"
  shows "snd np x = last (h # xs)" "fst np x = hd (ys @ [h])"
proof -
  obtain as a b bs where ab: "h # xs = as @ [a]" "ys @ [h] = b # bs" and l: "links np (as @ a # x # b # bs)"
    using assms by (rule ring_at)
  from l have "links np (a # x # b # bs)" by (rule links_append [THEN iffD1, THEN conjunct2])
  then show "snd np x = last (h # xs)" "fst np x = hd (ys @ [h])" by (simp_all only: ab) simp_all
qed

section \<open>Insertion and removal\<close>

lemma ins_after_simp:
  "x \<noteq> h \<Longrightarrow> ins_after x h np = ((fst np)(x := fst np h, h := x), (snd np)(x := h, fst np h := x))"
  by (cases np) (simp add: ins_after_def Let_def)

lemma unlink_simp: "snd np x \<noteq> x \<Longrightarrow> unlink x np = ((fst np)(snd np x := fst np x), (snd np)(fst np x := snd np x))"
  by (cases np) (simp add: unlink_def Let_def)

lemma links_unlink:
  assumes "links np (as @ a # x # b # bs)" "a \<noteq> x" "a \<notin> set as" "b \<notin> set (tl (as @ [a]))"
    "a \<notin> set (butlast (b # bs))" "b \<notin> set bs"
  shows "links (unlink x np) (as @ a # b # bs)"
proof -
  have l: "links np (as @ [a])" "links np (a # x # b # bs)" using links_append [THEN iffD1, OF assms(1)] by (rule conjunct1, rule conjunct2)
  have u: "unlink x np = ((fst np)(a := b), (snd np)(b := a))" using l(2) assms(2) by (simp add: unlink_simp)
  have lb: "links np (b # bs)" using l(2) by simp
  have "links (unlink x np) (as @ [a]) = links np (as @ [a])"
    by (rule links_cong) (use assms(3,4) in \<open>auto simp: u\<close>)
  then have m: "links (unlink x np) (as @ [a])" using l(1) by (rule iffD2)
  have "links (unlink x np) (b # bs) = links np (b # bs)"
    by (rule links_cong) (use assms(5,6) in \<open>auto simp: u\<close>)
  then have "links (unlink x np) (b # bs)" using lb by (rule iffD2)
  then have "links (unlink x np) (a # b # bs)" by (simp add: u)
  with m show ?thesis by (rule links_append [THEN iffD2, OF conjI])
qed

lemma ring_ins:
  assumes "ring np h xs" "x \<notin> set (h # xs)"
  shows "ring (ins_after x h np) h (x # xs)"
proof -
  let ?np = "ins_after x h np"
  have n: "fst np h = hd (xs @ [h])" using assms(1) by (rule ring_next)
  have d: "distinct (h # xs)" "links np (h # xs @ [h])" using assms(1) by (auto simp: ring_def)
  have s: "set (tl xs) \<subseteq> set xs" by (cases xs) auto
  have "links ?np (xs @ [h]) = links np (xs @ [h])"
  proof (rule links_cong)
    show "fst ?np y = fst np y" if "y \<in> set (butlast (xs @ [h]))" for y
      using that assms(2) d(1) by (auto simp: ins_after_simp)
    show "snd ?np y = snd np y" if "y \<in> set (tl (xs @ [h]))" for y
      using that assms(2) d(1) n by (cases xs) (auto simp: ins_after_simp)
  qed
  with d(2) have l: "links ?np (xs @ [h])" by (cases xs) auto
  have "links ?np (h # x # xs @ [h])"
    using l n assms(2) by (cases xs) (auto simp: ins_after_simp)
  with assms(2) d(1) show ?thesis by (auto simp: ring_def)
qed

lemma ring_unlink:
  assumes "ring np h (xs @ x # ys)"
  shows "ring (unlink x np) h (xs @ ys)"
proof -
  obtain as a b bs where ab: "h # xs = as @ [a]" "ys @ [h] = b # bs" and l: "links np (as @ a # x # b # bs)"
    using assms by (rule ring_at)
  have d: "distinct (h # xs @ x # ys)" using assms by (simp add: ring_def)
  have a: "a \<in> set (h # xs)" and b: "b \<in> set (ys @ [h])" by (simp_all only: ab) simp_all
  have das: "distinct (as @ [a])" using d by (simp only: ab(1) [symmetric]) auto
  have dbs: "distinct (b # bs)" using d by (simp only: ab(2) [symmetric]) auto
  have "butlast (b # bs) = ys" by (simp only: ab(2) [symmetric]) simp
  moreover have "tl (as @ [a]) = xs" by (simp only: ab(1) [symmetric]) simp
  ultimately have "links (unlink x np) (as @ a # b # bs)"
    using l das dbs a b d by (intro links_unlink) auto
  then have "links (unlink x np) ((as @ [a]) @ b # bs)" by simp
  then have "links (unlink x np) ((h # xs) @ ys @ [h])" by (simp only: ab)
  with d show ?thesis by (simp add: ring_def)
qed

text \<open>Other rings are left alone.\<close>

lemma ring_cong:
  assumes "\<And>y. y \<in> set (h # xs) \<Longrightarrow> fst np' y = fst np y \<and> snd np' y = snd np y"
  shows "ring np' h xs = ring np h xs"
proof -
  have "links np' (h # xs @ [h]) = links np (h # xs @ [h])"
    by (rule links_cong) (use assms in \<open>auto dest: in_set_butlastD\<close>)
  then show ?thesis by (simp add: ring_def)
qed

lemma ring_ins_other:
  assumes "ring np h xs" "x \<notin> set (h # xs)" "x \<notin> set (h' # ys)" "set (h # xs) \<inter> set (h' # ys) = {}"
  shows "ring (ins_after x h np) h' ys = ring np h' ys"
proof (rule ring_cong)
  fix y assume y: "y \<in> set (h' # ys)"
  have "fst np h \<in> set (h # xs)" using ring_next [OF assms(1)] by (cases xs) auto
  with assms(2-4) y show "fst (ins_after x h np) y = fst np y \<and> snd (ins_after x h np) y = snd np y"
    by (auto simp: ins_after_simp)
qed

lemma ring_unlink_other:
  assumes "ring np h (xs @ x # zs)" "set (h # xs @ x # zs) \<inter> set (h' # ys) = {}"
  shows "ring (unlink x np) h' ys = ring np h' ys"
proof (rule ring_cong)
  fix y assume y: "y \<in> set (h' # ys)"
  have d: "distinct (h # xs @ x # zs)" using assms(1) by (simp add: ring_def)
  have p: "snd np x \<in> set (h # xs)" unfolding ring_prev_next(1) [OF assms(1)] by (rule last_in_set) simp
  moreover have n: "fst np x \<in> set (h # zs)" unfolding ring_prev_next(2) [OF assms(1)] by (cases zs) auto
  moreover have "snd np x \<noteq> x" using p d by auto
  ultimately show "fst (unlink x np) y = fst np y \<and> snd (unlink x np) y = snd np y"
    using y assms(2) by (auto simp: unlink_simp)
qed

end
