(* ===== verification/CacheProps.thy ===== *)
theory CacheProps
  imports LinkRings
begin

text \<open>
  The caches: their LRU lists are lists kept in order of use, their hash lists are rings that hold every slot once, and
  a block is found where its sector number says.  On this invariant getting a block never goes wrong.
\<close>

section \<open>Lists kept in order of use\<close>

lemma remdups_snoc: "remdups (ys @ [y]) = filter (\<lambda>x. x \<noteq> y) (remdups ys) @ [y]"
  by (induction ys) auto

locale recency_list =
  fixes lst :: "'c \<Rightarrow> 'k list \<Rightarrow> bool"
    and front :: "'k \<Rightarrow> 'c \<Rightarrow> 'c"
    and rear :: "'k \<Rightarrow> 'c \<Rightarrow> 'c"
  assumes lst_distinct: "lst c xs \<Longrightarrow> distinct xs"
    and lst_front: "lst c xs \<Longrightarrow> x \<in> set xs \<Longrightarrow> lst (front x c) (x # remove1 x xs)"
    and lst_rear: "lst c xs \<Longrightarrow> x \<in> set xs \<Longrightarrow> lst (rear x c) (remove1 x xs @ [x])"
begin

lemma set_front: "lst c xs \<Longrightarrow> x \<in> set xs \<Longrightarrow> set (x # remove1 x xs) = set xs"
  using lst_distinct [of c xs] by (auto simp: set_remove1_eq)

text \<open>After a sequence of uses the list holds the used elements by last use, then the others in their old order.\<close>

lemma fold_front:
  assumes "lst c xs" "set ys \<subseteq> set xs"
  shows "lst (fold front ys c) (rev (remdups ys) @ filter (\<lambda>x. x \<notin> set ys) xs)"
  using assms(2)
proof (induction ys rule: rev_induct)
  case Nil
  then show ?case using assms(1) by simp
next
  case (snoc y ys)
  let ?zs = "rev (remdups ys) @ filter (\<lambda>x. x \<notin> set ys) xs"
  have l: "lst (fold front ys c) ?zs" using snoc by simp
  have y: "y \<in> set ?zs" using snoc.prems by auto
  have d: "distinct xs" "distinct ?zs" using lst_distinct [OF assms(1)] lst_distinct [OF l] .
  have "remove1 y ?zs = filter (\<lambda>x. x \<noteq> y) ?zs" using d(2) by (simp only: distinct_remove1_removeAll removeAll_filter_not_eq) (simp add: eq_commute)
  also have "\<dots> = rev (filter (\<lambda>x. x \<noteq> y) (remdups ys)) @ filter (\<lambda>x. x \<notin> set (ys @ [y])) xs"
    by (simp add: rev_filter conj_commute)
  finally have r: "y # remove1 y ?zs = rev (remdups (ys @ [y])) @ filter (\<lambda>x. x \<notin> set (ys @ [y])) xs"
    by (simp add: remdups_snoc)
  show ?case using lst_front [OF l y] by (simp only: r fold_append) simp
qed

end

section \<open>The LRU lists\<close>

definition lru :: "CACHE \<Rightarrow> cref list \<Rightarrow> bool" where
  "lru c xs \<longleftrightarrow> ring (lru_next c, lru_prev c) CLru xs"

lemma lru_push_to_mru: "lru c xs \<Longrightarrow> x \<notin> set (CLru # xs) \<Longrightarrow> lru (push_to_mru x c) (x # xs)"
  using ring_ins [of "(lru_next c, lru_prev c)" CLru xs x]
  by (simp add: lru_def push_to_mru_def case_prod_unfold)

lemma lru_push_to_lru:
  assumes "lru c xs" "x \<notin> set (CLru # xs)"
  shows "lru (push_to_lru x c) (xs @ [x])"
proof -
  let ?i = "ins_after x CLru (lru_prev c, lru_next c)"
  have "ring (lru_prev c, lru_next c) CLru (rev xs)" using assms(1) ring_rev [THEN iffD1] by (auto simp: lru_def)
  then have "ring ?i CLru (x # rev xs)" using assms(2) by (intro ring_ins) auto
  then have "ring (fst ?i, snd ?i) CLru (rev (xs @ [x]))" by simp
  then have "ring (snd ?i, fst ?i) CLru (xs @ [x])" by (simp only: ring_rev [of "snd ?i"])
  then show ?thesis by (simp add: lru_def push_to_lru_def case_prod_unfold)
qed

lemma lru_unlinked:
  assumes "lru c xs" "x \<in> set xs"
  shows "lru (lru_unlink x c) (remove1 x xs)"
proof -
  obtain as bs where xs: "xs = as @ x # bs" "x \<notin> set as" using assms(2) by (meson split_list_first)
  then show ?thesis using assms(1) ring_unlink [of "(lru_next c, lru_prev c)" CLru as x bs]
    by (simp add: lru_def lru_unlink_def remove1_append case_prod_unfold)
qed

lemma lru_distinct: "lru c xs \<Longrightarrow> distinct (CLru # xs)"
  by (simp add: lru_def ring_def)

interpretation lru: recency_list lru move_to_mru move_to_lru
proof
  fix c xs x
  assume l: "lru c xs"
  show "distinct xs" using lru_distinct [OF l] by simp
  assume x: "x \<in> set xs"
  have n: "x \<notin> set (CLru # remove1 x xs)" using lru_distinct [OF l] x by auto
  show "lru (move_to_mru x c) (x # remove1 x xs)"
    unfolding move_to_mru_def by (rule lru_push_to_mru [OF lru_unlinked [OF l x] n])
  show "lru (move_to_lru x c) (remove1 x xs @ [x])"
    unfolding move_to_lru_def by (rule lru_push_to_lru [OF lru_unlinked [OF l x] n])
qed

lemma lru_prev_head: "lru c xs \<Longrightarrow> lru_prev c CLru = last (CLru # xs)"
  using ring_prev [of "(lru_next c, lru_prev c)" CLru xs] by (simp add: lru_def)

text \<open>The LRU operations do not touch the rest of a cache.\<close>

lemma move_to_mru_rest [simp]:
  "hash_next (move_to_mru x c) = hash_next c" "hash_prev (move_to_mru x c) = hash_prev c" "slot (move_to_mru x c) = slot c"
  by (simp_all add: move_to_mru_def push_to_mru_def lru_unlink_def split: prod.split)

lemma move_to_lru_rest [simp]:
  "hash_next (move_to_lru x c) = hash_next c" "hash_prev (move_to_lru x c) = hash_prev c" "slot (move_to_lru x c) = slot c"
  by (simp_all add: move_to_lru_def push_to_lru_def lru_unlink_def split: prod.split)

text \<open>
  C28: the caches throw out the least recently used block.  After any sequence of uses (\<^verbatim>\<open>move_to_mru\<close>) of
  slots of the list \<open>xs\<close>, the pointer \<^verbatim>\<open>prev\<close> of the list head, where the search for a victim starts, is the slot whose last use
  is longest ago; slots not used keep their old order behind the used ones.
\<close>

theorem lru_victim_refines:
  assumes "lru c xs" "set ys \<subseteq> set xs" "xs \<noteq> []"
  shows "lru_prev (fold move_to_mru ys c) CLru = last (rev (remdups ys) @ filter (\<lambda>x. x \<notin> set ys) xs)"
proof -
  have "rev (remdups ys) @ filter (\<lambda>x. x \<notin> set ys) xs \<noteq> []"
    (is "?zs \<noteq> []") using assms(3) by (cases xs; cases ys) (auto simp: filter_empty_conv)
  then have "last (CLru # ?zs) = last ?zs" by (rule last_ConsR)
  then show ?thesis using lru_prev_head [OF lru.fold_front [OF assms(1,2)]] by simp
qed

section \<open>The invariant\<close>

definition slots :: "which \<Rightarrow> cref set" where "slots w = CSlot ` {..<cache_size w}"

text \<open>The hash lists \<open>B\<close>: every slot is in one of them, a slot in use in the one of its sector.\<close>

definition hashed :: "which \<Rightarrow> nat \<Rightarrow> u32 \<Rightarrow> CACHE \<Rightarrow> (nat \<Rightarrow> cref list) \<Rightarrow> bool" where
  "hashed w bits d c B \<longleftrightarrow>
     (\<forall>k<hash_size w. ring (hash_next c, hash_prev c) (CHash k) (B k)) \<and>
     (\<forall>j<hash_size w. \<forall>k<hash_size w. j \<noteq> k \<longrightarrow> set (B j) \<inter> set (B k) = {}) \<and>
     (\<Union>k<hash_size w. set (B k)) = slots w \<and>
     (\<forall>k<hash_size w. \<forall>x\<in>set (B k). bc_drv (slot c x) = d \<longrightarrow> hash_off w bits (bc_sec (slot c x)) = k)"

definition coherent :: "which \<Rightarrow> u32 \<Rightarrow> CACHE \<Rightarrow> bool" where
  "coherent w d c \<longleftrightarrow>
     (\<forall>x\<in>slots w. bc_drv (slot c x) = d \<longrightarrow> buf_bh (slot c x) = Some (bc_sec (slot c x))) \<and>
     inj_on (\<lambda>x. bc_sec (slot c x)) {x \<in> slots w. bc_drv (slot c x) = d}"

definition cache_inv :: "which \<Rightarrow> nat \<Rightarrow> u32 \<Rightarrow> CACHE \<Rightarrow> bool" where
  "cache_inv w bits d c \<longleftrightarrow> (\<exists>xs. lru c xs \<and> set xs = slots w) \<and> (\<exists>B. hashed w bits d c B) \<and> coherent w d c"

definition cache_ok :: "which \<Rightarrow> vol \<Rightarrow> bool" where
  "cache_ok w s \<longleftrightarrow> fs_drv s \<noteq> -1 \<and> cache_inv w (sectors_per_clu_bits s) (fs_drv s) (cache w s)"

lemma slots_nonempty: "slots w \<noteq> {}"
  by (cases w) (auto simp: slots_def cache_consts lessThan_empty_iff)

lemma finite_slots [simp]: "finite (slots w)"
  by (simp add: slots_def)

lemma card_slots: "card (slots w) = cache_size w"
  unfolding slots_def by (subst card_image) (auto simp: inj_on_def)

lemma heads_not_slots [simp]: "CLru \<notin> slots w" "CHash k \<notin> slots w"
  by (auto simp: slots_def)

lemma hash_off_less: "hash_off w bits sct < hash_size w"
proof -
  have "unat (x AND 63) < 64" for x :: u32
    using word_and_le1 [of x 63] by (simp add: word_le_nat_alt)
  then show ?thesis by (cases w) (simp_all add: hash_off_def cache_consts)
qed

text \<open>Only the keys and the buffers of the slots matter, not their flags.\<close>

lemma cache_inv_cong:
  assumes "lru_next c' = lru_next c" "lru_prev c' = lru_prev c" "hash_next c' = hash_next c" "hash_prev c' = hash_prev c"
    and "\<And>x. bc_drv (slot c' x) = bc_drv (slot c x) \<and> bc_sec (slot c' x) = bc_sec (slot c x) \<and> buf_bh (slot c' x) = buf_bh (slot c x)"
  shows "cache_inv w bits d c' = cache_inv w bits d c"
  using assms by (simp add: cache_inv_def lru_def hashed_def coherent_def)

lemma cache_inv_move:
  assumes "cache_inv w bits d c" "x \<in> slots w"
  shows "cache_inv w bits d (move_to_mru x c)" "cache_inv w bits d (move_to_lru x c)"
proof -
  obtain xs where xs: "lru c xs" "set xs = slots w" using assms(1) by (auto simp: cache_inv_def)
  have m: "lru (move_to_mru x c) (x # remove1 x xs)" "lru (move_to_lru x c) (remove1 x xs @ [x])"
    using lru.lst_front [OF xs(1)] lru.lst_rear [OF xs(1)] xs(2) assms(2) by simp_all
  have s: "set (x # remove1 x xs) = slots w" "set (remove1 x xs @ [x]) = slots w"
    using lru.set_front [OF xs(1)] xs(2) assms(2) by auto
  have "hashed w bits d (move_to_mru x c) = hashed w bits d c" "hashed w bits d (move_to_lru x c) = hashed w bits d c"
    by (simp_all add: hashed_def fun_eq_iff)
  with m s assms(1) show "cache_inv w bits d (move_to_mru x c)" "cache_inv w bits d (move_to_lru x c)"
    unfolding cache_inv_def coherent_def by auto
qed

section \<open>Finding a block\<close>

declare hash_walk.simps [simp del] unlocked_walk.simps [simp del] lru_walk.simps [simp del]

text \<open>A walk over a ring meets its elements in order, until one matches.\<close>

lemma hash_walk_find:
  "links (hash_next c, hash_prev c) (ys @ [hp]) \<Longrightarrow> hp \<notin> set ys \<Longrightarrow> length ys < n \<Longrightarrow>
   hash_walk n c d sct hp (hd (ys @ [hp])) = Some (find (\<lambda>x. bc_drv (slot c x) = d \<and> bc_sec (slot c x) = sct) ys)"
proof (induction ys arbitrary: n)
  case Nil
  then show ?case by (cases n) (auto simp: hash_walk.simps)
next
  case (Cons y ys)
  then obtain m where n: "n = Suc m" by (cases n) auto
  have "hash_next c y = hd (ys @ [hp])" "links (hash_next c, hash_prev c) (ys @ [hp])"
    using Cons.prems(1) by (cases ys; simp)+
  then show ?case using Cons n by (auto simp: hash_walk.simps)
qed

lemma hash_walk_ring:
  assumes "hashed w bits d c B" "k < hash_size w"
  shows "hash_walk (cache_size w + 1) c d sct (CHash k) (hash_next c (CHash k)) =
    Some (find (\<lambda>x. bc_drv (slot c x) = d \<and> bc_sec (slot c x) = sct) (B k))"
proof -
  have r: "ring (hash_next c, hash_prev c) (CHash k) (B k)" and s: "set (B k) \<subseteq> slots w"
    using assms by (auto simp: hashed_def)
  have "distinct (B k)" using r by (simp add: ring_def)
  then have "length (B k) \<le> cache_size w" using card_mono [OF _ s] by (simp add: distinct_card card_slots)
  moreover have "links (hash_next c, hash_prev c) (B k @ [CHash k])" "CHash k \<notin> set (B k)"
    using r by (cases "B k"; simp add: ring_def)+
  ultimately show ?thesis
    using hash_walk_find [of c "B k" "CHash k" "cache_size w + 1" d sct] ring_next [OF r] by simp
qed

text \<open>The slot \<open>x\<close> holds sector \<open>sct\<close>.\<close>

definition holds :: "which \<Rightarrow> vol \<Rightarrow> u32 \<Rightarrow> cref \<Rightarrow> bool" where
  "holds w s sct x \<longleftrightarrow> x \<in> slots w \<and> bc_drv (slot (cache w s) x) = fs_drv s \<and> bc_sec (slot (cache w s) x) = sct"

lemma cache_walk_spec:
  fixes sct :: u32
  assumes "cache_ok w s"
  defines "k \<equiv> hash_off w (sectors_per_clu_bits s) sct"
  shows "\<exists>r. hash_walk (cache_size w + 1) (cache w s) (fs_drv s) sct (CHash k) (hash_next (cache w s) (CHash k)) = Some r \<and>
    (\<forall>x. r = Some x \<longleftrightarrow> holds w s sct x)"
proof -
  let ?P = "\<lambda>x. bc_drv (slot (cache w s) x) = fs_drv s \<and> bc_sec (slot (cache w s) x) = sct"
  obtain B where B: "hashed w (sectors_per_clu_bits s) (fs_drv s) (cache w s) B"
    and co: "coherent w (fs_drv s) (cache w s)"
    using assms(1) by (auto simp: cache_ok_def cache_inv_def)
  have k: "k < hash_size w" unfolding k_def by (rule hash_off_less)
  have at: "holds w s sct x \<longleftrightarrow> x \<in> set (B k) \<and> ?P x" for x
  proof
    assume h: "holds w s sct x"
    then obtain j where j: "j < hash_size w" "x \<in> set (B j)" using B unfolding hashed_def holds_def by blast
    have P: "?P x" using h by (simp add: holds_def)
    then have "hash_off w (sectors_per_clu_bits s) (bc_sec (slot (cache w s) x)) = j" using B j unfolding hashed_def by blast
    with P j show "x \<in> set (B k) \<and> ?P x" by (simp add: k_def)
  next
    assume "x \<in> set (B k) \<and> ?P x"
    then show "holds w s sct x" using B k unfolding hashed_def holds_def by blast
  qed
  have "find ?P (B k) = Some x \<longleftrightarrow> holds w s sct x" for x
  proof
    assume "find ?P (B k) = Some x"
    then show "holds w s sct x" unfolding at by (auto simp: find_Some_iff)
  next
    assume h: "holds w s sct x"
    then have "find ?P (B k) \<noteq> None" unfolding at find_None_iff by blast
    then obtain y where y: "find ?P (B k) = Some y" by auto
    then have "holds w s sct y" unfolding at by (auto simp: find_Some_iff)
    with h co have "y = x" by (auto simp: holds_def coherent_def inj_on_def)
    with y show "find ?P (B k) = Some x" by simp
  qed
  with hash_walk_ring [OF B k] show ?thesis by (intro exI conjI allI) assumption+
qed

lemma run_cache_find:
  assumes "hash_walk (cache_size w + 1) (cache w s) (fs_drv s) sct (CHash (hash_off w (sectors_per_clu_bits s) sct))
    (hash_next (cache w s) (CHash (hash_off w (sectors_per_clu_bits s) sct))) = Some r"
  shows "run_state (cache_find w sct) s = (case r of None \<Rightarrow> (None, s)
    | Some x \<Rightarrow> (Some x, if buf_bh (slot (cache w s) x) = None then s\<lparr>ub := True\<rparr> else s))"
  unfolding cache_find_def using assms by (cases r) (simp_all add: Let_def set_ub_def)

lemma cache_find_Some:
  assumes "cache_ok w s" "holds w s sct x"
  shows "run_state (cache_find w sct) s = (Some x, s)"
proof -
  obtain r where r: "hash_walk (cache_size w + 1) (cache w s) (fs_drv s) sct (CHash (hash_off w (sectors_per_clu_bits s) sct))
    (hash_next (cache w s) (CHash (hash_off w (sectors_per_clu_bits s) sct))) = Some r" "\<forall>x. (r = Some x) = holds w s sct x"
    using cache_walk_spec [OF assms(1), of sct] by (elim exE conjE)
  have "r = Some x" using r(2) assms(2) by simp
  moreover have "buf_bh (slot (cache w s) x) = Some sct"
    using assms by (auto simp: cache_ok_def cache_inv_def coherent_def holds_def)
  ultimately show ?thesis using run_cache_find [OF r(1)] by simp
qed

lemma cache_find_None:
  assumes "cache_ok w s" "\<nexists>x. holds w s sct x"
  shows "run_state (cache_find w sct) s = (None, s)"
proof -
  obtain r where r: "hash_walk (cache_size w + 1) (cache w s) (fs_drv s) sct (CHash (hash_off w (sectors_per_clu_bits s) sct))
    (hash_next (cache w s) (CHash (hash_off w (sectors_per_clu_bits s) sct))) = Some r" "\<forall>x. (r = Some x) = holds w s sct x"
    using cache_walk_spec [OF assms(1), of sct] by (elim exE conjE)
  have "r = None" using r(2) assms(2) by (cases r) simp_all
  then show ?thesis using run_cache_find [OF r(1)] by simp
qed

section \<open>Loading a block into a slot\<close>

text \<open>What getting a block that is not there does to the cache, once a victim is chosen and the read has succeeded.\<close>

definition load_slot :: "which \<Rightarrow> nat \<Rightarrow> u32 \<Rightarrow> u32 \<Rightarrow> cref \<Rightarrow> CACHE \<Rightarrow> CACHE" where
  "load_slot w bits d sct x c =
     (let c = remove_hash x c;
          c = c\<lparr>slot := (slot c)(x := (slot c x)\<lparr>bc_drv := d, bc_sec := sct, bc_flag := 0\<rparr>)\<rparr>;
          c = insert_hash_at (hash_off w bits sct) x c
      in c\<lparr>slot := (slot c)(x := (slot c x)\<lparr>buf_bh := Some sct\<rparr>)\<rparr>)"

lemma load_slot_fields:
  "lru_next (load_slot w bits d sct x c) = lru_next c" "lru_prev (load_slot w bits d sct x c) = lru_prev c"
  "slot (load_slot w bits d sct x c) = (slot c)(x := \<lparr>bc_drv = d, bc_sec = sct, bc_flag = 0, buf_bh = Some sct\<rparr>)"
  "(hash_next (load_slot w bits d sct x c), hash_prev (load_slot w bits d sct x c)) =
     ins_after x (CHash (hash_off w bits sct)) (unlink x (hash_next c, hash_prev c))"
  by (simp_all add: load_slot_def remove_hash_def insert_hash_at_def case_prod_unfold Let_def fun_eq_iff)

lemma rings_unlink:
  assumes "\<And>k. k < n \<Longrightarrow> ring np (CHash k) (B k)" "\<And>k. k < n \<Longrightarrow> set (B k) \<subseteq> slots w"
    "\<And>j k. j < n \<Longrightarrow> k < n \<Longrightarrow> j \<noteq> k \<Longrightarrow> set (B j) \<inter> set (B k) = {}" "j < n" "x \<in> set (B j)" "k < n"
  shows "ring (unlink x np) (CHash k) (remove1 x (B k))"
proof -
  obtain as bs where j: "B j = as @ x # bs" "x \<notin> set as" using assms(5) by (meson split_list_first)
  have r: "ring np (CHash j) (as @ x # bs)" using assms(1) [OF assms(4)] j by simp
  show ?thesis
  proof (cases "k = j")
    case True
    then show ?thesis using ring_unlink [OF r] j by (simp add: remove1_append)
  next
    case False
    have d: "set (B j) \<inter> set (B k) = {}" using assms(3) [OF assms(4,6)] False by auto
    have h: "CHash i \<notin> set (B l)" if "l < n" for i l using assms(2) [OF that] by auto
    have "set (CHash j # as @ x # bs) \<inter> set (CHash k # B k) = {}"
      using d False h [of j k] h [of k j] assms(4,6) by (auto simp: j)
    then have "ring (unlink x np) (CHash k) (B k)" using ring_unlink_other [OF r] assms(1) [OF assms(6)] by blast
    moreover have "x \<notin> set (B k)" using d assms(5) by auto
    ultimately show ?thesis by (simp add: remove1_idem)
  qed
qed

lemma rings_ins:
  assumes "\<And>k. k < n \<Longrightarrow> ring np (CHash k) (B k)" "\<And>k. k < n \<Longrightarrow> set (B k) \<subseteq> slots w - {x}"
    "\<And>j k. j < n \<Longrightarrow> k < n \<Longrightarrow> j \<noteq> k \<Longrightarrow> set (B j) \<inter> set (B k) = {}" "x \<in> slots w" "j < n" "k < n"
  shows "ring (ins_after x (CHash j) np) (CHash k) (if k = j then x # B k else B k)"
proof -
  have h: "CHash i \<notin> set (B l)" if "l < n" for i l using assms(2) [OF that] by auto
  have xh: "x \<noteq> CHash i" for i using assms(4) by auto
  show ?thesis
  proof (cases "k = j")
    case True
    then show ?thesis using ring_ins [OF assms(1) [OF assms(5)], of x] assms(2) [OF assms(5)] xh by auto
  next
    case False
    have "set (CHash j # B j) \<inter> set (CHash k # B k) = {}"
      using assms(3) [OF assms(5,6)] False h [of j k] h [of k j] assms(5,6) by auto
    then show ?thesis
      using ring_ins_other [OF assms(1) [OF assms(5)], of x "CHash k" "B k"] assms(1) [OF assms(6)] assms(2) [OF assms(5)]
        assms(2) [OF assms(6)] xh False by auto
  qed
qed

lemma hashed_load:
  fixes sct :: u32
  assumes h: "hashed w bits d c B" and x: "x \<in> slots w"
  defines "off \<equiv> hash_off w bits sct"
  shows "hashed w bits d (load_slot w bits d sct x c) (\<lambda>k. if k = off then x # remove1 x (B k) else remove1 x (B k))"
proof -
  let ?n = "hash_size w"
  have r: "ring (hash_next c, hash_prev c) (CHash k) (B k)" if "k < ?n" for k using h that by (simp add: hashed_def)
  have sub: "set (B k) \<subseteq> slots w" if "k < ?n" for k using h that by (auto simp: hashed_def)
  have dj: "set (B j) \<inter> set (B k) = {}" if "j < ?n" "k < ?n" "j \<noteq> k" for j k using h that by (simp add: hashed_def)
  have c: "(\<Union>k<?n. set (B k)) = slots w" using h by (simp add: hashed_def)
  obtain j where j: "j < ?n" "x \<in> set (B j)" using c x by blast
  have off: "off < ?n" unfolding off_def by (rule hash_off_less)
  have di: "distinct (B k)" if "k < ?n" for k using r [OF that] by (simp add: ring_def)
  have s1: "set (remove1 x (B k)) = set (B k) - {x}" if "k < ?n" for k using di [OF that] by (rule set_remove1_eq)
  have r1: "ring (unlink x (hash_next c, hash_prev c)) (CHash k) (remove1 x (B k))" if "k < ?n" for k
    using rings_unlink [OF r sub dj j that] .
  have r2: "ring (ins_after x (CHash off) (unlink x (hash_next c, hash_prev c))) (CHash k)
      (if k = off then x # remove1 x (B k) else remove1 x (B k))" if "k < ?n" for k
    by (rule rings_ins [OF r1 _ _ x off that]) (use sub dj s1 in blast)+
  have loc: "hash_off w bits (bc_sec (slot c y)) = k" if "k < ?n" "y \<in> set (B k)" "bc_drv (slot c y) = d" for k y
    using h that by (simp add: hashed_def)
  show ?thesis
    unfolding hashed_def load_slot_fields
  proof (intro conjI allI impI ballI)
    fix k assume k: "k < ?n"
    show "ring (ins_after x (CHash (hash_off w bits sct)) (unlink x (hash_next c, hash_prev c))) (CHash k)
        (if k = off then x # remove1 x (B k) else remove1 x (B k))"
      using r2 [OF k] by (simp only: off_def)
    show "hash_off w bits (bc_sec (((slot c)(x := \<lparr>bc_drv = d, bc_sec = sct, bc_flag = 0, buf_bh = Some sct\<rparr>)) y)) = k"
      if "y \<in> set (if k = off then x # remove1 x (B k) else remove1 x (B k))"
        "bc_drv (((slot c)(x := \<lparr>bc_drv = d, bc_sec = sct, bc_flag = 0, buf_bh = Some sct\<rparr>)) y) = d" for y
      using that loc [OF k, of y] s1 [OF k] by (auto simp: off_def split: if_splits)
  next
    fix i k assume "i < ?n" "k < ?n" "i \<noteq> k"
    then show "set (if i = off then x # remove1 x (B i) else remove1 x (B i)) \<inter>
        set (if k = off then x # remove1 x (B k) else remove1 x (B k)) = {}"
      using dj [of i k] s1 by auto
  next
    have e: "set (if k = off then x # remove1 x (B k) else remove1 x (B k)) =
        (if k = off then {x} else {}) \<union> (set (B k) - {x})" if "k < ?n" for k
      using s1 [OF that] by auto
    have "(\<Union>k<?n. set (if k = off then x # remove1 x (B k) else remove1 x (B k))) =
        (\<Union>k<?n. (if k = off then {x} else {}) \<union> (set (B k) - {x}))"
      by (rule SUP_cong) (auto simp only: e lessThan_iff)
    also have "\<dots> = (\<Union>k<?n. if k = off then {x} else {}) \<union> (\<Union>k<?n. set (B k) - {x})" by (rule UN_Un_distrib)
    also have "(\<Union>k<?n. if k = off then {x} else {}) = {x}" using off by auto
    also have "{x} \<union> (\<Union>k<?n. set (B k) - {x}) = insert x (\<Union>k<?n. set (B k) - {x})" by simp
    also have "\<dots> = insert x ((\<Union>k<?n. set (B k)) - {x})" by auto
    finally show "(\<Union>k<?n. set (if k = off then x # remove1 x (B k) else remove1 x (B k))) = slots w"
      using c x by auto
  qed
qed

lemma cache_inv_load:
  assumes "cache_inv w bits d c" "x \<in> slots w" "\<forall>y\<in>slots w. bc_drv (slot c y) = d \<longrightarrow> bc_sec (slot c y) \<noteq> sct"
  shows "cache_inv w bits d (load_slot w bits d sct x c)"
proof -
  let ?c = "load_slot w bits d sct x c"
  have "\<exists>xs. lru ?c xs \<and> set xs = slots w" using assms(1) by (simp add: cache_inv_def lru_def load_slot_fields)
  moreover have "\<exists>B. hashed w bits d ?c B" using assms(1) hashed_load [OF _ assms(2)] unfolding cache_inv_def by blast
  moreover have "coherent w d ?c"
  proof -
    have c: "coherent w d c" using assms(1) by (simp add: cache_inv_def)
    then have i: "inj_on (\<lambda>y. bc_sec (slot c y)) {y \<in> slots w. bc_drv (slot c y) = d}" by (simp add: coherent_def)
    have "inj_on (\<lambda>y. bc_sec (slot ?c y)) {y \<in> slots w. bc_drv (slot ?c y) = d}"
    proof (rule inj_onI)
      fix y z
      assume "y \<in> {y \<in> slots w. bc_drv (slot ?c y) = d}" "z \<in> {y \<in> slots w. bc_drv (slot ?c y) = d}"
        "bc_sec (slot ?c y) = bc_sec (slot ?c z)"
      then show "y = z" using assms(3) inj_onD [OF i, of y z] by (auto simp: load_slot_fields split: if_splits)
    qed
    then show ?thesis using c by (auto simp: coherent_def load_slot_fields)
  qed
  ultimately show ?thesis by (simp add: cache_inv_def)
qed

section \<open>Getting a block\<close>

lemma cache_set_cache [simp]:
  "cache w (set_cache w c s) = c" "set_cache w c (set_cache w c' s) = set_cache w c s" "set_cache w (cache w s) s = s"
  "cache w (s\<lparr>env_pos := e\<rparr>) = cache w s" "set_cache w c (s\<lparr>env_pos := e\<rparr>) = (set_cache w c s)\<lparr>env_pos := e\<rparr>"
  by (cases w; simp)+

lemma set_cache_fields [simp]:
  "fs_drv (set_cache w c s) = fs_drv s" "sectors_per_clu_bits (set_cache w c s) = sectors_per_clu_bits s"
  "env_ok (set_cache w c s) = env_ok s" "env_pos (set_cache w c s) = env_pos s" "opened (set_cache w c s) = opened s"
  "debug_error_rw (set_cache w c s) = debug_error_rw s" "dev_ejected (set_cache w c s) = dev_ejected s"
  "bufs (set_cache w c s) = bufs s" "dirty (set_cache w c s) = dirty s" "ub (set_cache w c s) = ub s"
  "PBR_sector (set_cache w c s) = PBR_sector s" "num_sectors (set_cache w c s) = num_sectors s"
  by (cases w; simp)+

lemma run_upd_cache [simp]: "run_state (upd_cache w f) s = ((), set_cache w (f (cache w s)) s)"
  by (simp add: upd_cache_def)

text \<open>The device works: it is open, every block can be read and written.\<close>

definition device_ok :: "vol \<Rightarrow> bool" where
  "device_ok s \<longleftrightarrow> opened s \<and> \<not> debug_error_rw s \<and> \<not> dev_ejected s \<and> env_ok s = (\<lambda>_. True)"

lemma run_sector_read:
  "device_ok s \<Longrightarrow> \<not> out_of_range sct s \<Longrightarrow>
   run_state (sector_read sct bh rd) s = ((FFS_SUCCESS, Some sct), s\<lparr>env_pos := env_pos s + 1\<rparr>)"
  by (simp add: sector_read_def bdev_read_def bread_def next_env_def device_ok_def)

lemma find_SomeD: "find P ys = Some x \<Longrightarrow> x \<in> set ys \<and> P x"
  by (induction ys) (auto split: if_splits)

text \<open>There is a slot to throw out: always in the FAT cache, an unlocked one in the buffer cache.\<close>

definition unlocked :: "CACHE \<Rightarrow> cref \<Rightarrow> bool" where
  "unlocked c x \<longleftrightarrow> bc_flag (slot c x) AND LOCKBIT = 0"

definition spare :: "which \<Rightarrow> CACHE \<Rightarrow> bool" where
  "spare w c \<longleftrightarrow> w = BUFC \<longrightarrow> (\<exists>x\<in>slots w. unlocked c x)"

lemma unlocked_walk_find:
  "links (lru_prev c, lru_next c) (ys @ [CLru]) \<Longrightarrow> length ys < n \<Longrightarrow> find (unlocked c) ys = Some x \<Longrightarrow>
   unlocked_walk n c (hd (ys @ [CLru])) = Some x"
proof (induction ys arbitrary: n)
  case Nil
  then show ?case by simp
next
  case (Cons y ys)
  then obtain m where n: "n = Suc m" by (cases n) auto
  have "lru_prev c y = hd (ys @ [CLru])" "links (lru_prev c, lru_next c) (ys @ [CLru])"
    using Cons.prems(1) by (cases ys; simp)+
  then show ?case using Cons n by (auto simp: unlocked_walk.simps unlocked_def split: if_splits)
qed

lemma unlocked_walk_lru:
  assumes "lru c xs" "length xs < n" "find (unlocked c) (rev xs) = Some x"
  shows "unlocked_walk n c (lru_prev c CLru) = Some x"
proof -
  have r: "ring (lru_prev c, lru_next c) CLru (rev xs)" using assms(1) ring_rev [THEN iffD1] by (auto simp: lru_def)
  then have l: "links (lru_prev c, lru_next c) (rev xs @ [CLru])" by (cases "rev xs") (auto simp: ring_def)
  show ?thesis using unlocked_walk_find [OF l _ assms(3), of n] ring_next [OF r] assms(2) by simp
qed

lemma lru_length: "lru c xs \<Longrightarrow> set xs = slots w \<Longrightarrow> length xs = cache_size w"
  using distinct_card [of xs] card_slots [of w] lru_distinct [of c xs] by simp

text \<open>
  the victim of the buffer cache.  Of the slots that are not locked \<^verbatim>\<open>buf_cache_get\<close> takes the one used longest ago and
  makes it the most recently used one; of the FAT cache it is the last of all slots.
\<close>

theorem buf_cache_get_victim:
  assumes "lru (buf_cache s) xs" "set xs = slots BUFC" "find (unlocked (buf_cache s)) (rev xs) = Some x"
  shows "run_state buf_cache_get s = (x, s\<lparr>buf_cache := move_to_mru x (buf_cache s)\<rparr>) \<and>
    lru (move_to_mru x (buf_cache s)) (x # remove1 x xs)"
proof -
  have "unlocked_walk (BUF_CACHE_SIZE + 2) (buf_cache s) (lru_prev (buf_cache s) CLru) = Some x"
    by (rule unlocked_walk_lru [OF assms(1) _ assms(3)]) (simp add: lru_length [OF assms(1,2)])
  then have "run_state buf_cache_get s = (x, s\<lparr>buf_cache := move_to_mru x (buf_cache s)\<rparr>)"
    by (simp add: buf_cache_get_def)
  moreover have "x \<in> set xs" using find_SomeD [OF assms(3)] by simp
  then have "lru (move_to_mru x (buf_cache s)) (x # remove1 x xs)" by (rule lru.lst_front [OF assms(1)])
  ultimately show ?thesis by simp
qed

lemma cache_get_run:
  assumes "cache_ok w s" "spare w (cache w s)"
  obtains x where "x \<in> slots w" "run_state (cache_get w) s = (x, set_cache w (move_to_mru x (cache w s)) s)"
    "w = BUFC \<longrightarrow> unlocked (cache w s) x"
proof -
  obtain xs where xs: "lru (cache w s) xs" "set xs = slots w" using assms(1) by (auto simp: cache_ok_def cache_inv_def)
  show ?thesis
  proof (cases w)
    case FATC
    have n: "xs \<noteq> []" using xs(2) slots_nonempty [of w] by auto
    then have "lru_prev (cache w s) CLru = last xs" using lru_prev_head [OF xs(1)] by simp
    then have "run_state (cache_get w) s = (last xs, set_cache w (move_to_mru (last xs) (cache w s)) s)"
      using FATC by (simp add: FAT_cache_get_def)
    moreover have "last xs \<in> slots w" using last_in_set [OF n] by (simp only: xs(2))
    ultimately show ?thesis using that FATC by blast
  next
    case BUFC
    then obtain y where "y \<in> slots w" "unlocked (cache w s) y" using assms(2) by (auto simp: spare_def)
    then have "find (unlocked (cache w s)) (rev xs) \<noteq> None" using xs(2) by (auto simp: find_None_iff)
    then obtain x where f: "find (unlocked (cache w s)) (rev xs) = Some x" by auto
    have x: "x \<in> slots w" "unlocked (cache w s) x" using find_SomeD [OF f] xs(2) by simp_all
    moreover have "unlocked_walk (BUF_CACHE_SIZE + 2) (cache w s) (lru_prev (cache w s) CLru) = Some x"
      by (rule unlocked_walk_lru [OF xs(1) _ f]) (simp add: lru_length [OF xs] BUFC)
    ultimately show ?thesis using that [of x] BUFC by (simp add: buf_cache_get_def)
  qed
qed

lemma holds_iff: "holds w s sct x \<longleftrightarrow> x \<in> slots w \<and> bc_drv (slot (cache w s) x) = fs_drv s \<and> bc_sec (slot (cache w s) x) = sct"
  by (simp add: holds_def)

lemma cache_getblk_hit:
  assumes "cache_ok w s" "holds w s sct x"
  shows "run_state (cache_getblk w sct) s = (Some sct, set_cache w (move_to_mru x (cache w s)) s)"
proof -
  have "buf_bh (slot (cache w s) x) = Some sct"
    using assms by (auto simp: cache_ok_def cache_inv_def coherent_def holds_def)
  then show ?thesis using cache_find_Some [OF assms] by (simp add: cache_getblk_def)
qed

lemma cache_getblk_miss:
  assumes "cache_ok w s" "\<nexists>x. holds w s sct x" "device_ok s" "\<not> out_of_range sct s" "spare w (cache w s)"
  obtains x where "x \<in> slots w" "run_state (cache_getblk w sct) s = (Some sct,
    (set_cache w (load_slot w (sectors_per_clu_bits s) (fs_drv s) sct x (move_to_mru x (cache w s))) s)\<lparr>env_pos := env_pos s + 1\<rparr>)"
    "w = BUFC \<longrightarrow> unlocked (cache w s) x"
proof -
  obtain x where x: "x \<in> slots w" "run_state (cache_get w) s = (x, set_cache w (move_to_mru x (cache w s)) s)"
    "w = BUFC \<longrightarrow> unlocked (cache w s) x" using cache_get_run [OF assms(1,5)] .
  have rd: "run_state (sector_read sct bh rd) (set_cache w c s) = ((FFS_SUCCESS, Some sct), (set_cache w c s)\<lparr>env_pos := env_pos s + 1\<rparr>)"
    for bh rd c
    using run_sector_read [of "set_cache w c s" sct bh rd] assms(3,4) by (simp add: device_ok_def out_of_range_def)
  show ?thesis
    by (rule that [OF x(1) _ x(3)])
       (simp_all add: cache_getblk_def cache_find_None [OF assms(1,2)] x(2) cache_remove_hash_def upd_slot_def cache_insert_hash_def
         rd load_slot_def Let_def insert_hash_at_def remove_hash_def case_prod_unfold)
qed

text \<open>A step that changes one cache and reads blocks, and nothing else.\<close>

definition only_cache :: "which \<Rightarrow> vol \<Rightarrow> vol \<Rightarrow> bool" where
  "only_cache w s s' \<longleftrightarrow> (\<exists>c e. s' = (set_cache w c s)\<lparr>env_pos := e\<rparr>)"

lemma only_cacheI [intro]: "only_cache w s ((set_cache w c s)\<lparr>env_pos := e\<rparr>)"
  by (auto simp: only_cache_def)

lemma only_cacheI' [intro]: "only_cache w s (set_cache w c s)"
  unfolding only_cache_def by (intro exI [of _ c] exI [of _ "env_pos s"]) (cases w; simp)

lemma only_cache_trans: "only_cache w s t \<Longrightarrow> only_cache w t u \<Longrightarrow> only_cache w s u"
  unfolding only_cache_def by clarsimp blast

lemma only_cache_device: "only_cache w s s' \<Longrightarrow> device_ok s' = device_ok s"
  by (auto simp: only_cache_def device_ok_def)

lemma holds_fresh: "(\<nexists>x. holds w s sct x) \<Longrightarrow> \<forall>y\<in>slots w. bc_drv (slot (cache w s) y) = fs_drv s \<longrightarrow> bc_sec (slot (cache w s) y) \<noteq> sct"
  by (auto simp: holds_def)

text \<open>Locked slots stay as they are, unlocked ones stay unlocked.\<close>

definition locks_kept :: "CACHE \<Rightarrow> CACHE \<Rightarrow> bool" where
  "locks_kept c c' \<longleftrightarrow> (\<forall>y. if unlocked c y then unlocked c' y else slot c' y = slot c y)"

lemma locks_kept_refl: "locks_kept c c"
  by (simp add: locks_kept_def)

lemma locks_kept_trans: "locks_kept c c' \<Longrightarrow> locks_kept c' c'' \<Longrightarrow> locks_kept c c''"
  unfolding locks_kept_def unlocked_def by metis

lemma locks_kept_move: "locks_kept c (move_to_mru x c)"
  by (simp add: locks_kept_def unlocked_def)

lemma getblk_locks:
  assumes "cache_ok w s" "device_ok s" "\<not> out_of_range sct s" "spare w (cache w s)"
  shows "\<exists>s'. run_state (cache_getblk w sct) s = (Some sct, s') \<and> cache_ok w s' \<and> spare w (cache w s') \<and>
    (\<exists>x. holds w s' sct x) \<and> only_cache w s s' \<and> (w = BUFC \<longrightarrow> locks_kept (cache w s) (cache w s'))"
proof (cases "\<exists>x. holds w s sct x")
  case True
  then obtain x where x: "holds w s sct x" by blast
  let ?s = "set_cache w (move_to_mru x (cache w s)) s"
  have xs: "x \<in> slots w" using x by (simp add: holds_def)
  have "cache_ok w ?s" using assms(1) cache_inv_move(1) [OF _ xs] by (auto simp: cache_ok_def)
  moreover have "spare w (cache w ?s)" using assms(4) by (simp add: spare_def unlocked_def)
  moreover have "holds w ?s sct x" using x by (simp add: holds_def)
  moreover have "locks_kept (cache w s) (cache w ?s)" by (simp add: locks_kept_move)
  ultimately show ?thesis using cache_getblk_hit [OF assms(1) x] by blast
next
  case False
  obtain x where x: "x \<in> slots w" "run_state (cache_getblk w sct) s = (Some sct,
    (set_cache w (load_slot w (sectors_per_clu_bits s) (fs_drv s) sct x (move_to_mru x (cache w s))) s)\<lparr>env_pos := env_pos s + 1\<rparr>)"
    (is "_ = (_, ?s)") "w = BUFC \<longrightarrow> unlocked (cache w s) x"
    using cache_getblk_miss [OF assms(1) False assms(2-4)] .
  have i: "cache_inv w (sectors_per_clu_bits s) (fs_drv s) (move_to_mru x (cache w s))"
    using assms(1) cache_inv_move(1) [OF _ x(1)] by (auto simp: cache_ok_def)
  have "cache_ok w ?s"
    using assms(1) cache_inv_load [OF i x(1)] holds_fresh [OF False] by (simp add: cache_ok_def)
  moreover have "spare w (cache w ?s)" using x(1) by (auto simp: spare_def unlocked_def load_slot_fields)
  moreover have "holds w ?s sct x" using x(1) by (simp add: holds_def load_slot_fields)
  moreover have "w = BUFC \<longrightarrow> locks_kept (cache w s) (cache w ?s)"
    using x(3) by (auto simp: locks_kept_def unlocked_def load_slot_fields)
  ultimately show ?thesis using x(2) by blast
qed

lemma getblk_total:
  assumes "cache_ok w s" "device_ok s" "\<not> out_of_range sct s" "spare w (cache w s)"
  shows "\<exists>s'. run_state (cache_getblk w sct) s = (Some sct, s') \<and> cache_ok w s' \<and> spare w (cache w s') \<and>
    (\<exists>x. holds w s' sct x) \<and> only_cache w s s'"
  using getblk_locks [OF assms] by blast

text \<open>
  C27: getting a block.  On a cache that satisfies the invariant, with a working device and a slot to spare, getting a sector
  of the volume always ends with the block of just that sector; the sector is in the cache afterwards, the invariant holds
  again and nothing but the cache has changed.
\<close>

theorem cache_getblk_total:
  assumes "cache_ok w s" "device_ok s" "\<not> out_of_range sct s" "spare w (cache w s)"
  shows "\<exists>s'. run_state (cache_getblk w sct) s = (Some sct, s') \<and> cache_ok w s' \<and> spare w (cache w s') \<and>
    (\<exists>x. holds w s' sct x) \<and> only_cache w s s'"
  using assms by (rule getblk_total)

section \<open>The operations keep the invariant\<close>

subsection \<open>Initialisation\<close>

lemma init_slots_lru:
  "lru_next c CLru = CLru \<Longrightarrow> lru_prev c CLru = CLru \<Longrightarrow>
   lru (fold init_slot [0..<n] c) (map CSlot (rev [0..<n]))"
proof (induction n)
  case 0
  then show ?case by (simp add: lru_def ring_def)
next
  case (Suc n)
  let ?c = "fold init_slot [0..<n] c"
  have "lru (?c\<lparr>slot := f\<rparr>) (map CSlot (rev [0..<n]))" for f using Suc by (simp add: lru_def)
  then have "lru (init_slot n ?c) (CSlot n # map CSlot (rev [0..<n]))"
    unfolding init_slot_def [of n ?c] by (intro lru_push_to_mru) auto
  then show ?case by simp
qed

lemma init_slots_slot:
  "slot (fold init_slot [0..<n] c) (CSlot i) =
     (if i < n then \<lparr>bc_drv = -1, bc_sec = -1, bc_flag = 0, buf_bh = None\<rparr> else slot c (CSlot i))"
  by (induction n) (auto simp: init_slot_def push_to_mru_def case_prod_unfold less_Suc_eq)

lemma init_heads_fields:
  "lru_next (fold init_head [0..<n] c) = lru_next c" "lru_prev (fold init_head [0..<n] c) = lru_prev c"
  "slot (fold init_head [0..<n] c) (CSlot i) = slot c (CSlot i)"
  "k < n \<Longrightarrow> hash_next (fold init_head [0..<n] c) (CHash k) = CHash k"
  "k < n \<Longrightarrow> hash_prev (fold init_head [0..<n] c) (CHash k) = CHash k"
  by (induction n) (auto simp: init_head_def less_Suc_eq)

definition insert_slots :: "which \<Rightarrow> nat \<Rightarrow> nat \<Rightarrow> CACHE \<Rightarrow> CACHE" where
  "insert_slots w bits n c =
     fold (\<lambda>i c. insert_hash_at (hash_off w bits (bc_sec (slot c (CSlot i)))) (CSlot i) c) [0..<n] c"

lemma insert_slots_fields:
  "lru_next (insert_slots w bits n c) = lru_next c" "lru_prev (insert_slots w bits n c) = lru_prev c"
  "slot (insert_slots w bits n c) = slot c"
  by (induction n) (auto simp: insert_slots_def insert_hash_at_def case_prod_unfold)

lemma insert_slots_rings:
  assumes "\<And>k. k < hash_size w \<Longrightarrow> hash_next c (CHash k) = CHash k \<and> hash_prev c (CHash k) = CHash k"
    and "\<And>i. i < cache_size w \<Longrightarrow> bc_sec (slot c (CSlot i)) = -1" and "n \<le> cache_size w" and "k < hash_size w"
  shows "ring (hash_next (insert_slots w bits n c), hash_prev (insert_slots w bits n c)) (CHash k)
    (if k = hash_off w bits (-1) then map CSlot (rev [0..<n]) else [])"
  using assms(3,4)
proof (induction n arbitrary: k)
  case 0
  then show ?case using assms(1) by (simp add: insert_slots_def ring_def)
next
  case (Suc n)
  let ?off = "hash_off w bits (-1)" and ?c = "insert_slots w bits n c" and ?x = "CSlot n"
  let ?B = "\<lambda>k. if k = ?off then map CSlot (rev [0..<n]) else []"
  have c: "(hash_next (insert_slots w bits (Suc n) c), hash_prev (insert_slots w bits (Suc n) c)) =
      ins_after ?x (CHash ?off) (hash_next ?c, hash_prev ?c)"
    using assms(2) [of n] insert_slots_fields(3) [of w bits n c] Suc.prems(1)
    by (simp add: insert_slots_def insert_hash_at_def case_prod_unfold)
  have "ring (ins_after ?x (CHash ?off) (hash_next ?c, hash_prev ?c)) (CHash k) (if k = ?off then ?x # ?B k else ?B k)"
  proof (rule rings_ins [where n = "hash_size w" and w = w])
    show "ring (hash_next ?c, hash_prev ?c) (CHash k) (?B k)" if "k < hash_size w" for k
      using Suc.IH [OF _ that] Suc.prems(1) by simp
  qed (use Suc.prems in \<open>auto simp: slots_def hash_off_less\<close>)
  then show ?case by (simp add: c split: if_splits)
qed

lemma cache_inv_init:
  assumes "d \<noteq> -1"
  shows "cache_inv w bits d (init_cache w bits c)"
proof -
  let ?n = "cache_size w"
  define a where "a = c\<lparr>lru_next := (lru_next c)(CLru := CLru), lru_prev := (lru_prev c)(CLru := CLru)\<rparr>"
  define b where "b = fold init_slot [0..<?n] a"
  define h where "h = fold init_head [0..<hash_size w] b"
  have e: "init_cache w bits c = insert_slots w bits ?n h"
    by (simp add: init_cache_def insert_slots_def a_def b_def h_def Let_def)
  have "lru b (map CSlot (rev [0..<?n]))" unfolding b_def by (rule init_slots_lru) (simp_all add: a_def)
  then have l: "lru (init_cache w bits c) (map CSlot (rev [0..<?n]))"
    by (simp add: e lru_def insert_slots_fields h_def init_heads_fields)
  have s: "slot h (CSlot i) = \<lparr>bc_drv = -1, bc_sec = -1, bc_flag = 0, buf_bh = None\<rparr>" if "i < ?n" for i
    using that by (simp add: h_def b_def init_heads_fields init_slots_slot)
  have r: "ring (hash_next (init_cache w bits c), hash_prev (init_cache w bits c)) (CHash k)
      (if k = hash_off w bits (-1) then map CSlot (rev [0..<?n]) else [])" if "k < hash_size w" for k
    unfolding e by (rule insert_slots_rings) (use s that in \<open>auto simp: h_def init_heads_fields\<close>)
  have sl: "slot (init_cache w bits c) = slot h" by (simp add: e insert_slots_fields)
  have "hashed w bits d (init_cache w bits c) (\<lambda>k. if k = hash_off w bits (-1) then map CSlot (rev [0..<?n]) else [])"
    unfolding hashed_def sl using r hash_off_less [of w bits "-1"] s assms by (auto simp: slots_def)
  moreover have "coherent w d (init_cache w bits c)"
  proof -
    have "bc_drv (slot h x) \<noteq> d" if "x \<in> slots w" for x using that s assms by (auto simp: slots_def)
    then have "{x \<in> slots w. bc_drv (slot h x) = d} = {}" by blast
    then show ?thesis by (auto simp: coherent_def sl inj_on_def)
  qed
  moreover have "set (map CSlot (rev [0..<?n])) = slots w" by (auto simp: slots_def)
  ultimately show ?thesis using l unfolding cache_inv_def by blast
qed

subsection \<open>Flags, releasing\<close>

definition drop_block :: "cref \<Rightarrow> CACHE \<Rightarrow> CACHE" where
  "drop_block x c = c\<lparr>slot := (slot c)(x := \<lparr>bc_drv = -1, bc_sec = -1, bc_flag = 0, buf_bh = None\<rparr>)\<rparr>"

lemma cache_inv_drop:
  assumes "cache_inv w bits d c" "d \<noteq> -1"
  shows "cache_inv w bits d (drop_block x c)"
proof -
  have sl: "slot (drop_block x c) = (slot c)(x := \<lparr>bc_drv = -1, bc_sec = -1, bc_flag = 0, buf_bh = None\<rparr>)"
    by (simp add: drop_block_def)
  obtain B where B: "hashed w bits d c B" using assms(1) by (auto simp: cache_inv_def)
  have "hashed w bits d (drop_block x c) B"
    using B assms(2) unfolding hashed_def by (simp add: drop_block_def)
  moreover have "coherent w d (drop_block x c)"
    using assms unfolding cache_inv_def coherent_def sl inj_on_def by auto
  moreover have "lru (drop_block x c) xs = lru c xs" for xs by (simp add: lru_def drop_block_def)
  ultimately show ?thesis using assms(1) unfolding cache_inv_def by auto
qed

lemma upd_slot_drop:
  "run_state (upd_slot w x (\<lambda>b. b\<lparr>bc_drv := -1, bc_sec := -1, bc_flag := 0, buf_bh := None\<rparr>)) s =
     ((), set_cache w (drop_block x (cache w s)) s)"
  by (cases "slot (cache w s) x") (simp add: upd_slot_def drop_block_def)

lemma cache_ok_upd_flag:
  assumes "cache_ok w s"
  shows "cache_ok w (set_cache w ((cache w s)\<lparr>slot := (slot (cache w s))(x := (slot (cache w s) x)\<lparr>bc_flag := f\<rparr>)\<rparr>) s)"
proof -
  have "cache_inv w b d ((cache w s)\<lparr>slot := (slot (cache w s))(x := (slot (cache w s) x)\<lparr>bc_flag := f\<rparr>)\<rparr>) =
      cache_inv w b d (cache w s)" for b d
    by (rule cache_inv_cong) auto
  then show ?thesis using assms by (simp add: cache_ok_def)
qed

text \<open>A search, then a change of the slot that was found.\<close>

lemma find_then:
  assumes "\<And>s x. cache_ok w s \<Longrightarrow> x \<in> slots w \<Longrightarrow> \<exists>s'. run_state (f x) s = ((), s') \<and> cache_ok w s'"
  shows "keeps (cache_ok w) (State_Monad.bind (cache_find w sct) (\<lambda>r. case r of None \<Rightarrow> ret () | Some x \<Rightarrow> f x))"
proof (rule keepsI)
  fix s a s'
  assume s: "cache_ok w s" and r: "run_state (State_Monad.bind (cache_find w sct) (\<lambda>r. case r of None \<Rightarrow> ret () | Some x \<Rightarrow> f x)) s = (a, s')"
  show "cache_ok w s'"
  proof (cases "\<exists>x. holds w s sct x")
    case True
    then obtain x where x: "holds w s sct x" by blast
    then have "x \<in> slots w" by (simp add: holds_def)
    with assms [OF s] obtain t where "run_state (f x) s = ((), t)" "cache_ok w t" by blast
    with r show ?thesis using cache_find_Some [OF s x] by simp
  next
    case False
    with r s show ?thesis using cache_find_None [OF s] by simp
  qed
qed

lemma cache_ok_set: "cache_ok w s \<Longrightarrow> cache_inv w (sectors_per_clu_bits s) (fs_drv s) c \<Longrightarrow> cache_ok w (set_cache w c s)"
  by (simp add: cache_ok_def)

lemma buf_lock_keeps: "keeps (cache_ok BUFC) (buf_lock sct)"
  unfolding buf_lock_def
  by (rule find_then) (auto simp: upd_slot_def simp del: cache.simps set_cache.simps intro: cache_ok_upd_flag)

lemma buf_unlock_keeps: "keeps (cache_ok BUFC) (buf_unlock sct)"
  unfolding buf_unlock_def
  by (rule find_then) (auto simp: upd_slot_def simp del: cache.simps set_cache.simps intro: cache_ok_upd_flag)

lemma buf_release_keeps: "keeps (cache_ok BUFC) (buf_release sct)"
  unfolding buf_release_def
proof (rule find_then)
  fix s x
  assume "cache_ok BUFC s" "x \<in> slots BUFC"
  then show "\<exists>s'. run_state (do { _ \<leftarrow> upd_slot BUFC x (\<lambda>b. b\<lparr>bc_drv := -1, bc_sec := -1, bc_flag := 0, buf_bh := None\<rparr>);
      upd_cache BUFC (move_to_lru x) }) s = ((), s') \<and> cache_ok BUFC s'"
    by (simp add: upd_slot_drop cache_ok_def cache_inv_drop cache_inv_move del: cache.simps set_cache.simps)
qed

lemma cache_frame [simp]:
  "cache w (s\<lparr>bufs := b\<rparr>) = cache w s" "cache w (s\<lparr>dirty := d\<rparr>) = cache w s" "cache w (s\<lparr>rdonly := r\<rparr>) = cache w s"
  "cache w (s\<lparr>panicked := p\<rparr>) = cache w s" "cache w (s\<lparr>dev_ejected := e\<rparr>) = cache w s" "cache w (s\<lparr>ub := u\<rparr>) = cache w s"
  "cache w (s\<lparr>sb_dirty := u\<rparr>) = cache w s"
  by (cases w; simp)+

lemma cache_ok_frame [simp]:
  "cache_ok w (s\<lparr>bufs := b\<rparr>) = cache_ok w s" "cache_ok w (s\<lparr>dirty := d\<rparr>) = cache_ok w s" "cache_ok w (s\<lparr>rdonly := r\<rparr>) = cache_ok w s"
  "cache_ok w (s\<lparr>panicked := p\<rparr>) = cache_ok w s" "cache_ok w (s\<lparr>dev_ejected := e\<rparr>) = cache_ok w s"
  "cache_ok w (s\<lparr>ub := u\<rparr>) = cache_ok w s" "cache_ok w (s\<lparr>env_pos := n\<rparr>) = cache_ok w s" "cache_ok w (s\<lparr>sb_dirty := b'\<rparr>) = cache_ok w s"
  by (simp_all add: cache_ok_def)

lemma sync_dirty_buffer_keeps: "keeps (cache_ok w) (sync_dirty_buffer b)"
  unfolding sync_dirty_buffer_def next_env_def by (intro hoare_rules) simp_all

lemma sector_write_keeps: "keeps (cache_ok w) (sector_write sct bh sync)"
  unfolding sector_write_def bdev_write_def fs_error_def mark_buffer_dirty_def bread_def next_env_def
  by (intro hoare_rules sync_dirty_buffer_keeps) simp_all

lemma cache_modify_keeps: "keeps (cache_ok w) (cache_modify w sct)"
  unfolding cache_modify_def
proof (rule find_then)
  fix s x assume s: "cache_ok w s"
  obtain r s' where r: "run_state (sector_write sct (buf_bh (slot (cache w s) x)) False) s = (r, s')" by fastforce
  then have "cache_ok w s'" using keepsD [OF sector_write_keeps s] by blast
  with r show "\<exists>s'. run_state (do { bh \<leftarrow> gets (\<lambda>s. buf_bh (slot (cache w s) x));
      _ \<leftarrow> sector_write sct bh False; ret () }) s = ((), s') \<and> cache_ok w s'" by simp
qed

lemma lru_walk_keeps: "(\<And>x. keeps I (f x)) \<Longrightarrow> (\<And>s. I s \<Longrightarrow> I (s\<lparr>ub := True\<rparr>)) \<Longrightarrow> keeps I (lru_walk n w f x)"
  by (induction n arbitrary: x) (auto simp: lru_walk.simps set_ub_def intro!: hoare_rules)

lemma upd_slot_drop_keeps:
  "keeps (cache_ok w) (upd_slot w x (\<lambda>b. b\<lparr>bc_drv := -1, bc_sec := -1, bc_flag := 0, buf_bh := None\<rparr>))"
  by (rule keepsI) (auto simp: upd_slot_drop cache_ok_def intro: cache_inv_drop)

lemma upd_slot_flag_keeps: "keeps (cache_ok w) (upd_slot w x (\<lambda>b. b\<lparr>bc_flag := f (bc_flag b)\<rparr>))"
  by (rule keepsI) (auto simp: upd_slot_def intro: cache_ok_upd_flag)

lemma cache_release_all_keeps: "keeps (cache_ok w) (cache_release_all w)"
  unfolding cache_release_all_def by (intro hoare_rules lru_walk_keeps upd_slot_drop_keeps) simp

lemma cache_sync_keeps: "keeps (cache_ok w) (cache_sync w)"
  unfolding cache_sync_def set_ub_def
  by (intro hoare_rules lru_walk_keeps sync_dirty_buffer_keeps upd_slot_flag_keeps) simp_all


section \<open>After a failed read\<close>

text \<open>A walk inside a set of cells closed under \<^verbatim>\<open>hash_next\<close> that does not contain the head never ends.\<close>

lemma hash_walk_closed:
  "x \<in> S \<Longrightarrow> hp \<notin> S \<Longrightarrow> (\<And>y. y \<in> S \<Longrightarrow> hash_next c y \<in> S) \<Longrightarrow>
   (\<And>y. y \<in> S \<Longrightarrow> \<not> (bc_drv (slot c y) = d \<and> bc_sec (slot c y) = sct)) \<Longrightarrow> hash_walk n c d sct hp x = None"
  by (induction n arbitrary: x) (auto simp: hash_walk.simps)

lemma remove_hash_pair: "(hash_next (remove_hash x c), hash_prev (remove_hash x c)) = unlink x (hash_next c, hash_prev c)"
  by (simp add: remove_hash_def case_prod_unfold)

lemma insert_hash_pair:
  "(hash_next (insert_hash_at k x c), hash_prev (insert_hash_at k x c)) = ins_after x (CHash k) (hash_next c, hash_prev c)"
  by (simp add: insert_hash_at_def case_prod_unfold)

lemma hash_op_slots [simp]: "slot (remove_hash x c) = slot c" "slot (insert_hash_at k x c) = slot c"
  by (simp_all add: remove_hash_def insert_hash_at_def case_prod_unfold)

lemma links_next_in: "links np xs \<Longrightarrow> y \<in> set (butlast xs) \<Longrightarrow> fst np y \<in> set (tl xs)"
  by (induction np xs rule: links.induct) auto

lemma ring_next_in: "ring np h xs \<Longrightarrow> y \<in> set (h # xs) \<Longrightarrow> fst np y \<in> set (h # xs)"
  using links_next_in [of np "h # xs @ [h]" y] by (auto simp: ring_def butlast_append)


end
