(* ===== verification/Sample.thy ===== *)
theory Sample
  imports CacheProps
begin

text \<open>
  A small concrete volume, on which the hypotheses of the theorems about volumes are shown to hold: 1000 sectors of
  512 bytes, 100 clusters of two sectors, an allocation map of one sector, all bytes zero unless given.
\<close>

definition blank_slot :: BUF_CACHE_T where
  "blank_slot = \<lparr>bc_drv = -1, bc_sec = -1, bc_flag = 0, buf_bh = None\<rparr>"

definition blank_cache :: CACHE where
  "blank_cache = \<lparr>lru_next = (\<lambda>_. CLru), lru_prev = (\<lambda>_. CLru), hash_next = id, hash_prev = id, slot = (\<lambda>_. blank_slot)\<rparr>"

definition sample :: "u32 \<Rightarrow> (u32 \<Rightarrow> u8 list) \<Rightarrow> vol" where
  "sample t b = \<lparr>bufs = b, dirty = (\<lambda>_. False), env_ok = (\<lambda>_. True), env_pos = 0,
     dev_block_size = 512, dev_size = 512000, s_blocksize = 512, rdonly = False, sb_dirty = False, panicked = False, ub = False,
     opened = True, sector_size = 512, sector_size_bits = 9, sector_size_mask = 511, bd_num_sectors = 1000,
     errors_opt = ERRORS_CONT, debug_error_rw = False,
     fs_drv = 0, vol_type = t, vol_id = 0, num_sectors = 1000, num_clusters = 102, cluster_size = 1024, cluster_size_bits = 10,
     sectors_per_clu = 2, sectors_per_clu_bits = 1, PBR_sector = 0, FAT1_start_sector = 1, FAT2_start_sector = 3,
     root_start_sector = 5, data_start_sector = 12, num_FAT_sectors = 2, root_dir = (if t = FAT12 \<or> t = FAT16 then 0 else 5),
     dentries_in_root = 112, dentries_per_clu = 32, vol_flag = 0, pbr_bh = None,
     map_clu = 2, map_sectors = 1, vol_amap = Some [0 \<mapsto> 12], vol_utbl = None, clu_srch_ptr = 2, used_clusters = 0,
     hint_uentry = \<lparr>ue_dir = 0, ue_entry = -1, ue_clu = \<lparr>chain_dir = 0, chain_size = 0, chain_flags = 0\<rparr>\<rparr>,
     dev_ejected = False, fs_func = (if t = EXFAT then ExfatOps else FatOps),
     FAT_cache = blank_cache, buf_cache = blank_cache\<rparr>"

abbreviation zeros :: "u32 \<Rightarrow> u8 list" where
  "zeros \<equiv> (\<lambda>_. replicate 512 0)"

text \<open>The same with its caches initialised.\<close>

definition ready :: "u32 \<Rightarrow> (u32 \<Rightarrow> u8 list) \<Rightarrow> vol" where
  "ready t b = snd (run_state buf_init (sample t b))"

lemma ready_eq: "ready t b = (sample t b)\<lparr>FAT_cache := init_cache FATC 1 blank_cache, buf_cache := init_cache BUFC 1 blank_cache\<rparr>"
  by (simp add: ready_def buf_init_def sample_def)

lemma ready_fields [simp]:
  "PBR_sector (ready t b) = 0" "num_sectors (ready t b) = 1000" "num_clusters (ready t b) = 102" "vol_type (ready t b) = t"
  "bufs (ready t b) = b" "sector_size (ready t b) = 512" "sector_size_bits (ready t b) = 9" "sector_size_mask (ready t b) = 511"
  "cluster_size (ready t b) = 1024" "cluster_size_bits (ready t b) = 10" "sectors_per_clu (ready t b) = 2"
  "sectors_per_clu_bits (ready t b) = 1" "FAT1_start_sector (ready t b) = 1" "root_start_sector (ready t b) = 5"
  "data_start_sector (ready t b) = 12" "num_FAT_sectors (ready t b) = 2" "clu_srch_ptr (ready t b) = 2" "used_clusters (ready t b) = 0"
  "map_clu (ready t b) = 2" "map_sectors (ready t b) = 1" "vol_amap (ready t b) = Some [0 \<mapsto> 12]" "dev_ejected (ready t b) = False"
  "dentries_per_clu (ready t b) = 32" "dentries_in_root (ready t b) = 112" "ub (ready t b) = False" "vol_flag (ready t b) = 0"
  "dirty (ready t b) = (\<lambda>_. False)" "fs_drv (ready t b) = 0"
  "fs_func (ready t b) = (if t = EXFAT then ExfatOps else FatOps)"
  "root_dir (ready t b) = (if t = FAT12 \<or> t = FAT16 then 0 else 5)"
  by (simp_all add: ready_eq sample_def)

lemma ready_ok: "cache_ok FATC (ready t b)" "cache_ok BUFC (ready t b)"
  using cache_inv_init [of 0 FATC 1 blank_cache] cache_inv_init [of 0 BUFC 1 blank_cache]
  by (simp_all add: ready_eq cache_ok_def sample_def)

lemma ready_device: "device_ok (ready t b)"
  by (simp add: ready_eq device_ok_def sample_def)

lemma init_cache_unlocked: "i < cache_size w \<Longrightarrow> unlocked (init_cache w bits c) (CSlot i)"
  using insert_slots_fields(3) [of w bits "cache_size w"]
  by (simp add: init_cache_def insert_slots_def [symmetric] init_heads_fields init_slots_slot unlocked_def Let_def)

lemma ready_spare: "spare w (cache w (ready t b))"
proof -
  have "unlocked (cache BUFC (ready t b)) (CSlot 0)" using init_cache_unlocked [of 0 BUFC] by (simp add: ready_eq cache_consts)
  moreover have "CSlot 0 \<in> slots BUFC" by (simp add: slots_def cache_consts)
  ultimately show ?thesis by (auto simp: spare_def)
qed

section \<open>The theorems on the caches\<close>

lemma lru_victim_refines_witness:
  "lru_prev (fold move_to_mru [CSlot 2, CSlot 0, CSlot 2] (fold init_slot [0..<3] blank_cache)) CLru = CSlot 1"
  using lru_victim_refines [OF init_slots_lru [of blank_cache 3], of "[CSlot 2, CSlot 0, CSlot 2]"]
  by (simp add: blank_cache_def upt_rec numeral_3_eq_3)

lemma cache_getblk_total_witness:
  "\<exists>s'. run_state (cache_getblk BUFC 12) (ready EXFAT zeros) = (Some 12, s') \<and> cache_ok BUFC s'"
  using cache_getblk_total [OF ready_ok(2) ready_device _ ready_spare, of 12 EXFAT zeros]
  by (auto simp: out_of_range_def)


lemma buf_cache_get_victim_witness:
  "fst (run_state buf_cache_get ((ready EXFAT zeros)\<lparr>buf_cache := fold init_slot [0..<256] blank_cache\<rparr>)) = CSlot 0"
proof -
  let ?c = "fold init_slot [0..<256] blank_cache" and ?xs = "map CSlot (rev [0..<256])"
  have "lru ?c ?xs" by (rule init_slots_lru) (simp_all add: blank_cache_def)
  moreover have "set ?xs = slots BUFC" by (auto simp: slots_def cache_consts)
  moreover have "find (unlocked ?c) (rev ?xs) = Some (CSlot 0)"
  proof -
    have "rev ?xs = map CSlot (0 # [1..<256])" by (simp add: rev_map upt_conv_Cons [of 0 256])
    moreover have "unlocked ?c (CSlot 0)" by (simp add: unlocked_def init_slots_slot)
    ultimately show ?thesis by simp
  qed
  ultimately show ?thesis
    using buf_cache_get_victim [of "(ready EXFAT zeros)\<lparr>buf_cache := ?c\<rparr>" ?xs "CSlot 0"] by simp
qed


end
