(* ===== verification/FatProps.thy ===== *)
theory FatProps
  imports Fat Bitmap Sample
begin

text \<open>
  The file allocation table is a map from clusters to values.  The sectors of the table, one behind the other, are an array of
  bytes; \<open>fat_val\<close> decodes an entry from it, for each of the four widths.  Reading an entry gives this value, writing one
  changes this value and no other, also where a FAT12 entry lies across two sectors and shares a byte with its neighbour.
\<close>

section \<open>The table as an array of bytes\<close>

definition geometry_ok :: "vol \<Rightarrow> bool" where
  "geometry_ok s \<longleftrightarrow> 9 \<le> sector_size_bits s \<and> sector_size_bits s \<le> 12 \<and> sector_size s = 2 ^ sector_size_bits s \<and>
     sector_size_mask s = sector_size s - 1 \<and> (\<forall>b. length (bufs s b) = 2 ^ sector_size_bits s)"

definition fat_sector :: "vol \<Rightarrow> nat \<Rightarrow> u32" where
  "fat_sector s q = FAT1_start_sector s + of_nat (q div 2 ^ sector_size_bits s)"

definition fat_byte :: "vol \<Rightarrow> nat \<Rightarrow> u8" where
  "fat_byte s q = bufs s (fat_sector s q) ! (q mod 2 ^ sector_size_bits s)"

definition fat_len :: "vol \<Rightarrow> nat" where
  "fat_len s = unat (num_FAT_sectors s) * 2 ^ sector_size_bits s"

definition fat_ok :: "vol \<Rightarrow> bool" where
  "fat_ok s \<longleftrightarrow> cache_ok FATC s \<and> device_ok s \<and> geometry_ok s \<and>
     (\<forall>i<unat (num_FAT_sectors s). \<not> out_of_range (FAT1_start_sector s + of_nat i) s)"

lemma fat_q_sector: "q < fat_len s \<Longrightarrow> q div 2 ^ sector_size_bits s < unat (num_FAT_sectors s)"
  by (simp add: fat_len_def less_mult_imp_div_less)

lemma unat_u32: "unat (x :: u32) < 2 ^ 32"
  by (rule order.strict_trans2 [OF unsigned_less]) simp

lemma fat_sector_inj:
  assumes "q < fat_len s" "r < fat_len s" "fat_sector s q = fat_sector s r"
  shows "q div 2 ^ sector_size_bits s = r div 2 ^ sector_size_bits s"
proof -
  have "q div 2 ^ sector_size_bits s < 2 ^ 32" "r div 2 ^ sector_size_bits s < 2 ^ 32"
    using fat_q_sector [OF assms(1)] fat_q_sector [OF assms(2)] unat_u32 [of "num_FAT_sectors s"]
    by simp_all
  then show ?thesis using assms(3)
    by (simp add: fat_sector_def word_of_nat_eq_iff take_bit_nat_eq_self)
qed

text \<open>The state after operations on the table: only the FAT cache, the dirty marks and the buffers \<open>b\<close> have changed.\<close>

definition fat_step :: "(u32 \<Rightarrow> u8 list) \<Rightarrow> vol \<Rightarrow> vol \<Rightarrow> bool" where
  "fat_step b s t \<longleftrightarrow> fat_ok t \<and> (\<exists>c e d. t = s\<lparr>FAT_cache := c, env_pos := e, dirty := d, bufs := b\<rparr>)"

lemma fat_step_refl: "fat_ok s \<Longrightarrow> fat_step (bufs s) s s"
  by (auto simp: fat_step_def intro!: exI [of _ "FAT_cache s"] exI [of _ "env_pos s"] exI [of _ "dirty s"])

lemma fat_step_trans: "fat_step b s t \<Longrightarrow> fat_step b' t u \<Longrightarrow> fat_step b' s u"
  by (clarsimp simp: fat_step_def) (intro exI, rule refl)

lemma fat_step_ok: "fat_step b s t \<Longrightarrow> fat_ok t"
  by (simp add: fat_step_def)

lemma fat_step_fields:
  assumes "fat_step b s t"
  shows "bufs t = b" "vol_type t = vol_type s" "sector_size t = sector_size s" "sector_size_bits t = sector_size_bits s"
    "sector_size_mask t = sector_size_mask s" "FAT1_start_sector t = FAT1_start_sector s" "num_FAT_sectors t = num_FAT_sectors s"
    "num_clusters t = num_clusters s" "dev_ejected t = dev_ejected s" "fat_sector t = fat_sector s" "fat_len t = fat_len s"
    "ub t = ub s" "clu_srch_ptr t = clu_srch_ptr s" "used_clusters t = used_clusters s"
  using assms by (auto simp: fat_step_def fat_sector_def fat_len_def fun_eq_iff)

lemma fat_ok_cong:
  assumes "fat_ok s" "cache_ok FATC t" "t = s\<lparr>FAT_cache := c, env_pos := e, dirty := d, bufs := b\<rparr>"
    "\<And>x. length (b x) = length (bufs s x)"
  shows "fat_ok t"
  using assms by (simp add: fat_ok_def geometry_ok_def device_ok_def out_of_range_def)

section \<open>Access to a sector of the table\<close>

lemma fat_in_range: "fat_ok s \<Longrightarrow> q < fat_len s \<Longrightarrow> \<not> out_of_range (fat_sector s q) s"
  using fat_q_sector [of q s] by (simp add: fat_ok_def fat_sector_def)

lemma FAT_getblk_run:
  assumes "fat_ok s" "q < fat_len s"
  obtains t x where "run_state (FAT_getblk (fat_sector s q)) s = (Some (fat_sector s q), t)" "fat_step (bufs s) s t"
    "holds FATC t (fat_sector s q) x"
proof -
  have s: "cache_ok FATC s" "device_ok s" using assms(1) by (simp_all add: fat_ok_def)
  have "spare FATC (cache FATC s)" by (simp add: spare_def)
  with getblk_total [OF s fat_in_range [OF assms]]
  obtain t x where t: "run_state (cache_getblk FATC (fat_sector s q)) s = (Some (fat_sector s q), t)" "cache_ok FATC t"
    "holds FATC t (fat_sector s q) x" "only_cache FATC s t" by blast
  then obtain c e where e: "t = (set_cache FATC c s)\<lparr>env_pos := e\<rparr>" by (auto simp: only_cache_def)
  have "t = s\<lparr>FAT_cache := c, env_pos := e, dirty := dirty s, bufs := bufs s\<rparr>" by (simp add: e)
  then have "fat_step (bufs s) s t" using fat_ok_cong [OF assms(1) t(2)] unfolding fat_step_def by blast
  with t show ?thesis using that by (simp add: FAT_getblk_def)
qed

lemma holds_bufs [simp]: "holds w (s\<lparr>bufs := b\<rparr>) sct x = holds w s sct x"
  by (cases w) (simp_all add: holds_def)

lemma run_sector_write:
  "device_ok s \<Longrightarrow> \<not> out_of_range sct s \<Longrightarrow>
   run_state (sector_write sct (Some sct) False) s = (FFS_SUCCESS, s\<lparr>dirty := (dirty s)(sct := True)\<rparr>)"
  by (simp add: sector_write_def bdev_write_def mark_buffer_dirty_def device_ok_def FFS_SUCCESS_def)

lemma cache_modify_run:
  assumes "cache_ok w s" "device_ok s" "\<not> out_of_range sct s" "holds w s sct x"
  shows "run_state (cache_modify w sct) s = ((), s\<lparr>dirty := (dirty s)(sct := True)\<rparr>)"
proof -
  have "buf_bh (slot (cache w s) x) = Some sct"
    using assms(1,4) by (auto simp: cache_ok_def cache_inv_def coherent_def holds_def)
  then show ?thesis
    by (simp add: cache_modify_def cache_find_Some [OF assms(1,4)] run_sector_write [OF assms(2,3)])
qed

text \<open>Changing a buffer of the table that is in the cache, and marking it.\<close>

lemma fat_update_run:
  assumes "fat_ok s" "q < fat_len s" "holds FATC s (fat_sector s q) x" "\<And>p. length (f p) = length p"
  obtains t where "run_state (do { _ \<leftarrow> set_buf (fat_sector s q) f; FAT_modify (fat_sector s q) }) s = ((), t)"
    "fat_step ((bufs s)(fat_sector s q := f (bufs s (fat_sector s q)))) s t"
proof -
  let ?sct = "fat_sector s q"
  define b where "b = (bufs s)(?sct := f (bufs s ?sct))"
  let ?s = "s\<lparr>bufs := b\<rparr>"
  have s: "cache_ok FATC ?s" "device_ok ?s" "\<not> out_of_range ?sct ?s" "holds FATC ?s ?sct x"
    using assms fat_in_range [OF assms(1,2)] by (simp_all add: fat_ok_def device_ok_def out_of_range_def)
  have l: "length (b y) = length (bufs s y)" for y using assms(4) by (simp add: b_def)
  have "?s\<lparr>dirty := (dirty s)(?sct := True)\<rparr> = s\<lparr>FAT_cache := FAT_cache s, env_pos := env_pos s, dirty := (dirty s)(?sct := True), bufs := b\<rparr>"
    by simp
  moreover have "cache_ok FATC (?s\<lparr>dirty := (dirty s)(?sct := True)\<rparr>)" using s(1) by simp
  ultimately have "fat_step b s (?s\<lparr>dirty := (dirty s)(?sct := True)\<rparr>)"
    using fat_ok_cong [OF assms(1)] l unfolding fat_step_def by blast
  moreover have "run_state (do { _ \<leftarrow> set_buf ?sct f; FAT_modify ?sct }) s = ((), ?s\<lparr>dirty := (dirty s)(?sct := True)\<rparr>)"
    using cache_modify_run [OF s] by (simp add: set_buf_def FAT_modify_def b_def)
  ultimately show ?thesis using that by (simp add: b_def)
qed

section \<open>Where the entries are and what they say\<close>

definition fat_pos :: "u32 \<Rightarrow> u32 \<Rightarrow> nat" where
  "fat_pos t loc = (if t = FAT12 then unat loc + unat loc div 2 else if t = FAT16 then 2 * unat loc else 4 * unat loc)"

definition loc_ok :: "vol \<Rightarrow> u32 \<Rightarrow> bool" where
  "loc_ok s loc \<longleftrightarrow> fat_pos (vol_type s) loc + (if vol_type s = FAT12 \<or> vol_type s = FAT16 then 2 else 4) \<le> fat_len s \<and>
     (vol_type s = FAT12 \<longrightarrow> fat_pos FAT12 loc < 2 ^ 32)"

text \<open>The bits of an entry and the value from which on an entry ends a chain.\<close>

definition fat_norm :: "u32 \<Rightarrow> u32 \<Rightarrow> u32" where
  "fat_norm t x =
     (if t = FAT12 then (let c = x AND 0x0FFF in if c \<ge> 0x0FF8 then CLU_EOF else c)
      else if t = FAT16 then (let c = x AND 0xFFFF in if c \<ge> 0xFFF8 then CLU_EOF else c)
      else if t = FAT32 then (let c = x AND 0x0FFFFFFF in if c \<ge> 0x0FFFFFF8 then CLU_EOF else c)
      else if x \<ge> 0xFFFFFFF8 then CLU_EOF else x)"

definition fat12_raw :: "bool \<Rightarrow> u8 \<Rightarrow> u8 \<Rightarrow> u32" where
  "fat12_raw od lo hi = (let c = (ucast lo OR push_bit 8 (ucast hi) :: u32) in if od then drop_bit 4 c else c)"

definition fat_raw :: "u32 \<Rightarrow> u32 \<Rightarrow> (nat \<Rightarrow> u8) \<Rightarrow> u32" where
  "fat_raw t loc f = (let p = fat_pos t loc in
     if t = FAT12 then fat12_raw (loc AND 1 \<noteq> 0) (f p) (f (p + 1))
     else if t = FAT16 then ucast (GET16 [f p, f (p + 1)] 0)
     else GET32 [f p, f (p + 1), f (p + 2), f (p + 3)] 0)"

definition fat_val :: "vol \<Rightarrow> u32 \<Rightarrow> u32" where
  "fat_val s loc = fat_norm (vol_type s) (fat_raw (vol_type s) loc (fat_byte s))"

section \<open>Addresses\<close>

lemma drop_bit_of_nat: "drop_bit n (x :: u32) = of_nat (unat x div 2 ^ n)"
proof -
  have "unat (drop_bit n x) = unat x div 2 ^ n" unfolding unat_drop_bit_eq by (rule drop_bit_eq_div)
  then show ?thesis by (metis of_nat_unat ucast_id)
qed

lemma and_size_mask:
  assumes "geometry_ok s"
  shows "unat (x AND sector_size_mask s) = unat x mod 2 ^ sector_size_bits s"
proof -
  have "sector_size_mask s = mask (sector_size_bits s)" using assms by (simp add: geometry_ok_def mask_eq_exp_minus_1)
  then have "unat (x AND sector_size_mask s) = take_bit (sector_size_bits s) (unat x)"
    by (simp only: take_bit_eq_mask [symmetric] unsigned_take_bit_eq)
  then show ?thesis by (simp only: take_bit_eq_mod)
qed

lemma aligned:
  fixes n i k b :: nat
  assumes "i < 2 ^ k" "k \<le> b"
  shows "(2 ^ k * n + i) div 2 ^ b = n div 2 ^ (b - k)" "(2 ^ k * n + i) mod 2 ^ b = 2 ^ k * (n mod 2 ^ (b - k)) + i"
proof -
  have b: "(2 :: nat) ^ b = 2 ^ k * 2 ^ (b - k)" using assms(2) by (simp add: power_add [symmetric])
  show d: "(2 ^ k * n + i) div 2 ^ b = n div 2 ^ (b - k)"
  proof -
    have "(2 ^ k * n + i) div 2 ^ b = (2 ^ k * n + i) div 2 ^ k div 2 ^ (b - k)" by (simp only: b div_mult2_eq)
    also have "(2 ^ k * n + i) div 2 ^ k = n" using assms(1) by simp
    finally show ?thesis .
  qed
  have "2 ^ k * n + i = (2 ^ k * n + i) div 2 ^ b * 2 ^ b + (2 ^ k * n + i) mod 2 ^ b"
    by (rule div_mult_mod_eq [symmetric])
  also have "(2 ^ k * n + i) div 2 ^ b * 2 ^ b = 2 ^ k * (n div 2 ^ (b - k) * 2 ^ (b - k))"
    unfolding d by (simp add: b mult.left_commute)
  finally have "2 ^ k * n + i = 2 ^ k * (n div 2 ^ (b - k) * 2 ^ (b - k)) + (2 ^ k * n + i) mod 2 ^ b" .
  moreover have "2 ^ k * n = 2 ^ k * (n div 2 ^ (b - k) * 2 ^ (b - k)) + 2 ^ k * (n mod 2 ^ (b - k))"
    by (simp only: distrib_left [symmetric] div_mult_mod_eq)
  ultimately show "(2 ^ k * n + i) mod 2 ^ b = 2 ^ k * (n mod 2 ^ (b - k)) + i" by linarith
qed

lemma aligned_room:
  fixes n k b :: nat
  assumes "k \<le> b"
  shows "2 ^ k * (n mod 2 ^ (b - k)) + 2 ^ k \<le> 2 ^ b"
proof -
  have "n mod 2 ^ (b - k) + 1 \<le> 2 ^ (b - k)" by (simp add: Suc_leI)
  then have "2 ^ k * (n mod 2 ^ (b - k) + 1) \<le> 2 ^ k * 2 ^ (b - k)" by (rule mult_le_mono2)
  then show ?thesis using assms by (simp add: power_add [symmetric] distrib_left)
qed

lemma fat_addr:
  assumes "geometry_ok s" "k \<le> 9" "i < 2 ^ k"
  shows "fat_sector s (2 ^ k * unat loc + i) = fat_sec k loc s"
    "(2 ^ k * unat loc + i) mod 2 ^ sector_size_bits s = fat_off k loc s + i"
    "fat_off k loc s + 2 ^ k \<le> 2 ^ sector_size_bits s"
proof -
  let ?b = "sector_size_bits s"
  have b: "9 \<le> ?b" "?b \<le> 12" using assms(1) by (auto simp: geometry_ok_def)
  then have kb: "k \<le> ?b" using assms(2) by simp
  show "fat_sector s (2 ^ k * unat loc + i) = fat_sec k loc s"
    by (simp add: fat_sector_def fat_sec_def drop_bit_of_nat aligned(1) [OF assms(3) kb])
  have "unat (push_bit k loc) = (2 ^ k * unat loc) mod 2 ^ 32"
    unfolding unsigned_push_bit_eq by (simp only: take_bit_eq_mod push_bit_eq_mult) (simp add: mult.commute)
  moreover have "(2 ^ k * unat loc) mod 2 ^ 32 mod 2 ^ ?b = (2 ^ k * unat loc) mod 2 ^ ?b"
    by (rule mod_mod_cancel) (use le_imp_power_dvd [of ?b 32 "2 :: nat"] b in simp)
  ultimately have o: "fat_off k loc s = (2 ^ k * unat loc) mod 2 ^ ?b" by (simp add: fat_off_def and_size_mask [OF assms(1)])
  then have o': "fat_off k loc s = 2 ^ k * (unat loc mod 2 ^ (?b - k))" using aligned(2) [of 0 k ?b "unat loc"] kb by simp
  show "(2 ^ k * unat loc + i) mod 2 ^ ?b = fat_off k loc s + i" by (simp add: o' aligned(2) [OF assms(3) kb])
  show "fat_off k loc s + 2 ^ k \<le> 2 ^ ?b" using aligned_room [OF kb] by (simp add: o')
qed

lemma fat12_addr:
  assumes "geometry_ok s" "fat_pos FAT12 loc < 2 ^ 32"
  shows "FAT1_start_sector s + drop_bit (sector_size_bits s) (fat12_pos loc) = fat_sector s (fat_pos FAT12 loc)"
    "unat (fat12_pos loc AND sector_size_mask s) = fat_pos FAT12 loc mod 2 ^ sector_size_bits s"
proof -
  have "fat12_pos loc = of_nat (fat_pos FAT12 loc)"
    by (simp add: fat12_pos_def fat_pos_def drop_bit_of_nat)
  then have "unat (fat12_pos loc) = fat_pos FAT12 loc" using assms(2) by (simp add: unsigned_of_nat take_bit_nat_eq_self)
  then show "FAT1_start_sector s + drop_bit (sector_size_bits s) (fat12_pos loc) = fat_sector s (fat_pos FAT12 loc)"
    "unat (fat12_pos loc AND sector_size_mask s) = fat_pos FAT12 loc mod 2 ^ sector_size_bits s"
    by (simp_all add: fat_sector_def drop_bit_of_nat and_size_mask [OF assms(1)])
qed

text \<open>The byte behind position \<open>q\<close>: in the same sector, or the first one of the next.\<close>

lemma next_pos:
  fixes q b :: nat
  shows "q mod 2 ^ b \<noteq> 2 ^ b - 1 \<Longrightarrow> Suc q div 2 ^ b = q div 2 ^ b \<and> Suc q mod 2 ^ b = Suc (q mod 2 ^ b)"
    "q mod 2 ^ b = 2 ^ b - 1 \<Longrightarrow> Suc q div 2 ^ b = Suc (q div 2 ^ b) \<and> Suc q mod 2 ^ b = 0"
  using div_Suc [of q "2 ^ b"] mod_Suc [of q "2 ^ b"] by (auto simp: Suc_diff_Suc)

section \<open>Reading\<close>

lemma fat_byte_at:
  assumes "geometry_ok s" "k \<le> 9" "i < 2 ^ k"
  shows "fat_byte s (2 ^ k * unat loc + i) = bufs s (fat_sec k loc s) ! (fat_off k loc s + i)"
  by (simp add: fat_byte_def fat_addr [OF assms])

lemma unat_of_nat_u32: "n < 2 ^ 32 \<Longrightarrow> unat (of_nat n :: u32) = n"
  by (simp add: unsigned_of_nat take_bit_nat_eq_self)

lemma unat_sector_size: "geometry_ok s \<Longrightarrow> unat (sector_size s) = 2 ^ sector_size_bits s"
proof -
  assume g: "geometry_ok s"
  then have "(2 :: nat) ^ sector_size_bits s < 2 ^ 32" by (intro power_strict_increasing) (auto simp: geometry_ok_def)
  from unat_of_nat_u32 [OF this] g show ?thesis by (simp add: geometry_ok_def)
qed

lemma GET16_bytes: "GET16 p i = GET16 [p ! i, p ! Suc i] 0"
  by (simp add: GET16_def)

lemma ucast_GET16: "ucast (GET16 p i) = (ucast (p ! i) OR push_bit 8 (ucast (p ! Suc i)) :: u32)"
  by (rule bit_word_eqI) (auto simp: GET16_def bit_ucast_iff bit_or_iff bit_push_bit_iff dest: bit_imp_le_length)

lemma GET32_bytes: "GET32 p i = GET32 [p ! i, p ! (i + 1), p ! (i + 2), p ! (i + 3)] 0"
  by (simp add: GET32_def numeral_2_eq_2 numeral_3_eq_3)

lemma fat_type_cases:
  obtains "vol_type s = FAT12" | "vol_type s = FAT16" | "vol_type s = FAT32" | "vol_type s \<noteq> FAT12" "vol_type s \<noteq> FAT16" "vol_type s \<noteq> FAT32"
  by blast

lemma vol_types_distinct [simp]:
  "FAT12 \<noteq> FAT16" "FAT12 \<noteq> FAT32" "FAT12 \<noteq> EXFAT" "FAT16 \<noteq> FAT12" "FAT16 \<noteq> FAT32" "FAT16 \<noteq> EXFAT"
  "FAT32 \<noteq> FAT12" "FAT32 \<noteq> FAT16" "FAT32 \<noteq> EXFAT" "EXFAT \<noteq> FAT12" "EXFAT \<noteq> FAT16" "EXFAT \<noteq> FAT32"
  by (simp_all add: vol_types)

text \<open>The block of the entry, for the three widths that fill whole bytes.\<close>

lemma fat_entry_block:
  assumes "fat_ok s" "k \<le> 9" "2 ^ k * unat loc < fat_len s"
  obtains t x where "run_state (FAT_getblk (fat_sec k loc s)) s = (Some (fat_sec k loc s), t)" "fat_step (bufs s) s t"
    "holds FATC t (fat_sec k loc s) x"
proof -
  have "fat_sector s (2 ^ k * unat loc) = fat_sec k loc s"
    using fat_addr(1) [of s k 0 loc] assms by (simp add: fat_ok_def)
  then show ?thesis using FAT_getblk_run [OF assms(1,3)] that by metis
qed

lemma FAT_read_run:
  assumes "fat_ok s" "loc_ok s loc"
  obtains t where "run_state (FAT_read loc) s = (Some (fat_val s loc), t)" "fat_step (bufs s) s t"
proof (cases rule: fat_type_cases [of s])
  case 1
  have g: "geometry_ok s" using assms(1) by (simp add: fat_ok_def)
  let ?p = "fat_pos FAT12 loc" and ?b = "sector_size_bits s"
  have p: "?p + 2 \<le> fat_len s" "?p < 2 ^ 32" using assms(2) 1 by (simp_all add: loc_ok_def)
  note a = fat12_addr [OF g p(2)]
  note sz = unat_sector_size [OF g]
  obtain t x where t: "run_state (FAT_getblk (fat_sector s ?p)) s = (Some (fat_sector s ?p), t)" "fat_step (bufs s) s t"
    using FAT_getblk_run [OF assms(1), of ?p] p(1) by auto
  have tf: "fat_ok t" "fat_sector t = fat_sector s" "fat_len t = fat_len s" "bufs t = bufs s"
    using t(2) fat_step_fields [OF t(2)] by (simp_all add: fat_step_ok)
  have fv: "fat_val s loc = fat_norm FAT12 (fat12_raw (loc AND 1 \<noteq> 0) (fat_byte s ?p) (fat_byte s (Suc ?p)))"
    by (simp add: fat_val_def fat_raw_def 1 Let_def)
  show ?thesis
  proof (cases "?p mod 2 ^ ?b = 2 ^ ?b - 1")
    case True
    note n = next_pos(2) [OF True]
    obtain u y where u: "run_state (FAT_getblk (fat_sector t (Suc ?p))) t = (Some (fat_sector t (Suc ?p)), u)" "fat_step (bufs t) t u"
      using FAT_getblk_run [OF tf(1), of "Suc ?p"] p(1) tf(3) by auto
    have s2: "fat_sector s (Suc ?p) = fat_sector s ?p + 1" using n by (simp add: fat_sector_def)
    have "run_state (fat12_read loc) s = (Some (fat_val s loc), u)"
      using True n t(1) u(1) s2 tf(4) fat_step_fields(1) [OF u(2)]
      by (simp add: fat12_read_def Let_def a sz get_byte_def tf(2) fv fat_norm_def fat12_raw_def fat_byte_def)
    moreover have "fat_step (bufs s) s u" using fat_step_trans [OF t(2) u(2)] tf(4) by simp
    ultimately show ?thesis using that 1 by (simp add: FAT_read_def)
  next
    case False
    note n = next_pos(1) [OF False]
    have "run_state (fat12_read loc) s = (Some (fat_val s loc), t)"
      using False n t(1) tf(4)
      by (simp add: fat12_read_def Let_def a sz fv fat_norm_def fat12_raw_def fat_byte_def fat_sector_def ucast_GET16)
    then show ?thesis using that t(2) 1 by (simp add: FAT_read_def)
  qed
next
  case 2
  have g: "geometry_ok s" using assms(1) by (simp add: fat_ok_def)
  obtain t x where t: "run_state (FAT_getblk (fat_sec 1 loc s)) s = (Some (fat_sec 1 loc s), t)" "fat_step (bufs s) s t"
    using fat_entry_block [of s 1 loc] assms 2 by (auto simp: loc_ok_def fat_pos_def)
  have "fat_byte s (2 * unat loc) = bufs s (fat_sec 1 loc s) ! fat_off 1 loc s"
    "fat_byte s (Suc (2 * unat loc)) = bufs s (fat_sec 1 loc s) ! Suc (fat_off 1 loc s)"
    using fat_byte_at [OF g, of 1 0 loc] fat_byte_at [OF g, of 1 1 loc] by simp_all
  then have "run_state (fat16_read loc) s = (Some (fat_val s loc), t)"
    using t(1) fat_step_fields(1) [OF t(2)] 2
    by (simp add: fat16_read_def fat_val_def fat_norm_def fat_raw_def fat_pos_def Let_def
        GET16_bytes [of "bufs s (fat_sec (Suc 0) loc s)"])
  then show ?thesis using that t(2) 2 by (simp add: FAT_read_def)
next
  case 3
  have g: "geometry_ok s" using assms(1) by (simp add: fat_ok_def)
  obtain t x where t: "run_state (FAT_getblk (fat_sec 2 loc s)) s = (Some (fat_sec 2 loc s), t)" "fat_step (bufs s) s t"
    using fat_entry_block [of s 2 loc] assms 3 by (auto simp: loc_ok_def fat_pos_def)
  have "fat_byte s (4 * unat loc + i) = bufs s (fat_sec 2 loc s) ! (fat_off 2 loc s + i)" if "i < 4" for i
    using fat_byte_at [OF g, of 2 i loc] that by simp
  from this [of 0] this [of 1] this [of 2] this [of 3] have "run_state (fat32_read loc) s = (Some (fat_val s loc), t)"
    using t(1) fat_step_fields(1) [OF t(2)] 3
    by (simp add: fat32_read_def fat_val_def fat_norm_def fat_raw_def fat_pos_def Let_def
        GET32_bytes [of "bufs s (fat_sec 2 loc s)"])
  then show ?thesis using that t(2) 3 by (simp add: FAT_read_def)
next
  case 4
  have g: "geometry_ok s" using assms(1) by (simp add: fat_ok_def)
  obtain t x where t: "run_state (FAT_getblk (fat_sec 2 loc s)) s = (Some (fat_sec 2 loc s), t)" "fat_step (bufs s) s t"
    using fat_entry_block [of s 2 loc] assms 4 by (auto simp: loc_ok_def fat_pos_def)
  have "fat_byte s (4 * unat loc + i) = bufs s (fat_sec 2 loc s) ! (fat_off 2 loc s + i)" if "i < 4" for i
    using fat_byte_at [OF g, of 2 i loc] that by simp
  from this [of 0] this [of 1] this [of 2] this [of 3] have "run_state (exfat_FAT_read loc) s = (Some (fat_val s loc), t)"
    using t(1) fat_step_fields(1) [OF t(2)] 4
    by (simp add: exfat_FAT_read_def fat_val_def fat_norm_def fat_raw_def fat_pos_def Let_def
        GET32_bytes [of "bufs s (fat_sec 2 loc s)"])
  then show ?thesis using that t(2) 4 by (simp add: FAT_read_def)
qed

section \<open>Writing\<close>

text \<open>A change of \<open>w\<close> bytes of a sector of the table, in the array of bytes.\<close>

lemma fat_byte_field:
  assumes "fat_step b s t" "b = (bufs s)(fat_sector s q := P)" "q + w \<le> fat_len s" "0 < w"
    and "q mod 2 ^ sector_size_bits s + w \<le> 2 ^ sector_size_bits s"
    and "\<And>j. j < 2 ^ sector_size_bits s \<Longrightarrow> P ! j =
      (if q mod 2 ^ sector_size_bits s \<le> j \<and> j < q mod 2 ^ sector_size_bits s + w
       then g (j - q mod 2 ^ sector_size_bits s) else bufs s (fat_sector s q) ! j)"
    and "r < fat_len s"
  shows "fat_byte t r = (if q \<le> r \<and> r < q + w then g (r - q) else fat_byte s r)"
proof -
  let ?m = "2 ^ sector_size_bits s :: nat"
  have q: "q < fat_len s" using assms(3,4) by simp
  have fb: "fat_byte t r = b (fat_sector s r) ! (r mod ?m)" by (simp add: fat_byte_def fat_step_fields [OF assms(1)])
  show ?thesis
  proof (cases "r div ?m = q div ?m")
    case True
    then have sec: "fat_sector s r = fat_sector s q" by (simp add: fat_sector_def)
    have r: "r = q div ?m * ?m + r mod ?m" using True div_mult_mod_eq [of r ?m] by simp
    have q': "q = q div ?m * ?m + q mod ?m" by (rule div_mult_mod_eq [symmetric])
    have "q \<le> r \<longleftrightarrow> q mod ?m \<le> r mod ?m" "r < q + w \<longleftrightarrow> r mod ?m < q mod ?m + w" "r - q = r mod ?m - q mod ?m"
      using r q' by linarith+
    then show ?thesis using assms(6) [of "r mod ?m"] by (simp add: fb sec assms(2) fat_byte_def [of s])
  next
    case False
    then have "fat_sector s r \<noteq> fat_sector s q" using fat_sector_inj [OF assms(7) q] by auto
    moreover have "\<not> (q \<le> r \<and> r < q + w)"
    proof
      assume "q \<le> r \<and> r < q + w"
      moreover have "q = q div ?m * ?m + q mod ?m" by (rule div_mult_mod_eq [symmetric])
      ultimately have "q div ?m * ?m \<le> r" "r < q div ?m * ?m + ?m" using assms(5) by linarith+
      then have "r div ?m = q div ?m" by (intro div_nat_eqI) (simp_all add: mult.commute)
      with False show False by simp
    qed
    ultimately show ?thesis by (auto simp: fb assms(2) fat_byte_def [of s])
  qed
qed

text \<open>A block of the table that is not in it.\<close>

definition fat_outside :: "vol \<Rightarrow> u32 \<Rightarrow> bool" where
  "fat_outside s x \<longleftrightarrow> (\<forall>q<fat_len s. x \<noteq> fat_sector s q)"

lemma get_update_run:
  assumes "fat_ok s" "q < fat_len s" "\<And>p. length (f p) = length p"
  obtains t u where "run_state (FAT_getblk (fat_sector s q)) s = (Some (fat_sector s q), t)" "fat_step (bufs s) s t"
    "run_state (do { _ \<leftarrow> set_buf (fat_sector s q) f; FAT_modify (fat_sector s q) }) t = ((), u)"
    "fat_step ((bufs s)(fat_sector s q := f (bufs s (fat_sector s q)))) s u"
proof -
  obtain t x where t: "run_state (FAT_getblk (fat_sector s q)) s = (Some (fat_sector s q), t)" "fat_step (bufs s) s t"
    "holds FATC t (fat_sector s q) x" using FAT_getblk_run [OF assms(1,2)] .
  note ts = fat_step_fields [OF t(2)]
  have t': "fat_ok t" "q < fat_len t" "holds FATC t (fat_sector t q) x" using t fat_step_ok ts assms(2) by auto
  obtain u where u: "run_state (do { _ \<leftarrow> set_buf (fat_sector t q) f; FAT_modify (fat_sector t q) }) t = ((), u)"
    "fat_step ((bufs t)(fat_sector t q := f (bufs t (fat_sector t q)))) t u"
    using fat_update_run [OF t' assms(3)] .
  show ?thesis using that [OF t(1,2)] u fat_step_trans [OF t(2) u(2)] by (simp add: ts)
qed

lemma fat_write_entry_run:
  assumes "fat_ok s" "k \<le> 9" "2 ^ k * unat loc < fat_len s" "\<And>p i. length (f p i) = length p"
  obtains t where "run_state (fat_write_entry k loc f) s = (Some (), t)"
    "fat_step ((bufs s)(fat_sec k loc s := f (bufs s (fat_sec k loc s)) (fat_off k loc s))) s t"
proof -
  have g: "geometry_ok s" using assms(1) by (simp add: fat_ok_def)
  have e: "fat_sector s (2 ^ k * unat loc) = fat_sec k loc s" using fat_addr(1) [OF g assms(2), of 0] by simp
  obtain t u where t: "run_state (FAT_getblk (fat_sec k loc s)) s = (Some (fat_sec k loc s), t)"
    "run_state (do { _ \<leftarrow> set_buf (fat_sec k loc s) (\<lambda>p. f p (fat_off k loc s)); FAT_modify (fat_sec k loc s) }) t = ((), u)"
    "fat_step ((bufs s)(fat_sec k loc s := f (bufs s (fat_sec k loc s)) (fat_off k loc s))) s u"
    using get_update_run [OF assms(1,3), of "\<lambda>p. f p (fat_off k loc s)"] assms(4) unfolding e by metis
  from t(2) have "run_state (FAT_modify (fat_sec k loc s)) (snd (run_state (set_buf (fat_sec k loc s) (\<lambda>p. f p (fat_off k loc s))) t)) = ((), u)"
    by (simp add: set_buf_def)
  then have "run_state (fat_write_entry k loc f) s = (Some (), u)"
    using t(1) by (simp add: fat_write_entry_def set_buf_def)
  then show ?thesis using that t(3) by blast
qed

text \<open>The bytes of the new table, for an entry of two or four whole bytes.\<close>

lemma fat_write_16_bytes:
  assumes "fat_ok s" "2 * unat loc + 2 \<le> fat_len s"
  obtains t b where "run_state (fat_write_entry 1 loc (\<lambda>p off. SET16 p off (v p off))) s = (Some (), t)" "fat_step b s t"
    "\<And>x. fat_outside s x \<Longrightarrow> b x = bufs s x"
    "\<And>r. r < fat_len s \<Longrightarrow> fat_byte t r = (if 2 * unat loc \<le> r \<and> r < 2 * unat loc + 2
       then le_put 2 (v (bufs s (fat_sec 1 loc s)) (fat_off 1 loc s)) ! (r - 2 * unat loc) else fat_byte s r)"
proof -
  let ?sec = "fat_sec 1 loc s" and ?off = "fat_off 1 loc s" and ?q = "2 * unat loc"
  let ?v = "v (bufs s ?sec) ?off"
  have g: "geometry_ok s" using assms(1) by (simp add: fat_ok_def)
  have a: "fat_sector s ?q = ?sec" "?q mod 2 ^ sector_size_bits s = ?off" "?off + 2 \<le> 2 ^ sector_size_bits s"
    using fat_addr [OF g, of 1 0 loc] by simp_all
  obtain t where t: "run_state (fat_write_entry 1 loc (\<lambda>p off. SET16 p off (v p off))) s = (Some (), t)"
    "fat_step ((bufs s)(?sec := SET16 (bufs s ?sec) ?off ?v)) s t"
    using fat_write_entry_run [of s 1 loc "\<lambda>p off. SET16 p off (v p off)"] assms by auto
  have l: "length (bufs s ?sec) = 2 ^ sector_size_bits s" using g by (simp add: geometry_ok_def)
  show ?thesis
  proof (rule that [OF t])
    show "((bufs s)(?sec := SET16 (bufs s ?sec) ?off ?v)) x = bufs s x" if "fat_outside s x" for x
      using that a(1) assms(2) unfolding fat_outside_def by (auto dest!: spec [of _ ?q])
    show "fat_byte t r = (if ?q \<le> r \<and> r < ?q + 2 then le_put 2 ?v ! (r - ?q) else fat_byte s r)" if "r < fat_len s" for r
      by (rule fat_byte_field [OF t(2)]) (use a assms(2) l that nth_SET16 [of ?off "bufs s ?sec" ?v] in auto)
  qed
qed

lemma fat_write_32_bytes:
  assumes "fat_ok s" "4 * unat loc + 4 \<le> fat_len s"
  obtains t b where "run_state (fat_write_entry 2 loc (\<lambda>p off. SET32 p off (v p off))) s = (Some (), t)" "fat_step b s t"
    "\<And>x. fat_outside s x \<Longrightarrow> b x = bufs s x"
    "\<And>r. r < fat_len s \<Longrightarrow> fat_byte t r = (if 4 * unat loc \<le> r \<and> r < 4 * unat loc + 4
       then le_put 4 (v (bufs s (fat_sec 2 loc s)) (fat_off 2 loc s)) ! (r - 4 * unat loc) else fat_byte s r)"
proof -
  let ?sec = "fat_sec 2 loc s" and ?off = "fat_off 2 loc s" and ?q = "4 * unat loc"
  let ?v = "v (bufs s ?sec) ?off"
  have g: "geometry_ok s" using assms(1) by (simp add: fat_ok_def)
  have a: "fat_sector s ?q = ?sec" "?q mod 2 ^ sector_size_bits s = ?off" "?off + 4 \<le> 2 ^ sector_size_bits s"
    using fat_addr [OF g, of 2 0 loc] by simp_all
  obtain t where t: "run_state (fat_write_entry 2 loc (\<lambda>p off. SET32 p off (v p off))) s = (Some (), t)"
    "fat_step ((bufs s)(?sec := SET32 (bufs s ?sec) ?off ?v)) s t"
    using fat_write_entry_run [of s 2 loc "\<lambda>p off. SET32 p off (v p off)"] assms by auto
  have l: "length (bufs s ?sec) = 2 ^ sector_size_bits s" using g by (simp add: geometry_ok_def)
  show ?thesis
  proof (rule that [OF t])
    show "((bufs s)(?sec := SET32 (bufs s ?sec) ?off ?v)) x = bufs s x" if "fat_outside s x" for x
      using that a(1) assms(2) unfolding fat_outside_def by (auto dest!: spec [of _ ?q])
    show "fat_byte t r = (if ?q \<le> r \<and> r < ?q + 4 then le_put 4 ?v ! (r - ?q) else fat_byte s r)" if "r < fat_len s" for r
      by (rule fat_byte_field [OF t(2)]) (use a assms(2) l that nth_SET32 [of ?off "bufs s ?sec" ?v] in auto)
  qed
qed

subsection \<open>FAT12\<close>

text \<open>The two bytes of a FAT12 entry after \<open>c\<close> has been stored in it; the neighbour keeps its half of the shared byte.\<close>

definition fat12_bytes :: "bool \<Rightarrow> u32 \<Rightarrow> u8 \<Rightarrow> u8 \<Rightarrow> u8 \<times> u8" where
  "fat12_bytes od c lo hi =
     (if od then (ucast (push_bit 4 c OR ucast (lo AND 0x0F)), ucast (drop_bit 8 (push_bit 4 c)))
      else (ucast c, ucast (ucast (hi AND 0xF0) OR drop_bit 8 c)))"

lemma and_F0: "(x :: u8) AND 0xF0 = push_bit 4 (drop_bit 4 x)"
proof -
  have e: "(0xF0 :: u8) = push_bit 4 (mask 4)" by (simp add: mask_eq_exp_minus_1)
  show ?thesis
    unfolding e by (rule bit_word_eqI) (auto simp: bit_and_iff bit_push_bit_iff bit_drop_bit_eq bit_mask_iff)
qed

lemma and_F000: "(x :: u16) AND 0xF000 = push_bit 12 (drop_bit 12 x)"
proof -
  have e: "(0xF000 :: u16) = push_bit 12 (mask 4)" by (simp add: mask_eq_exp_minus_1)
  show ?thesis
    unfolding e by (rule bit_word_eqI) (auto simp: bit_and_iff bit_push_bit_iff bit_drop_bit_eq bit_mask_iff)
qed

lemmas bit_defs = bit_ucast_iff bit_or_iff bit_and_iff bit_push_bit_iff bit_drop_bit_eq bit_take_bit_iff

text \<open>The half-words of the code are these bytes.\<close>

lemma fat12_odd_bytes:
  fixes c :: u32
  shows "ucast (ucast (push_bit 4 c OR ucast (GET16 p i AND 0x000F)) :: u16) = fst (fat12_bytes True c (p ! i) hi)"
    "ucast (drop_bit 8 (ucast (push_bit 4 c OR ucast (GET16 p i AND 0x000F)) :: u16)) = snd (fat12_bytes True c (p ! i) hi)"
  unfolding fat12_bytes_def GET16_def and_ones
  by (rule bit_word_eqI; auto simp: bit_defs dest: bit_imp_le_length)+

lemma fat12_even_bytes:
  fixes c :: u32
  shows "ucast (ucast (take_bit 12 c OR ucast (GET16 p i AND 0xF000)) :: u16) = fst (fat12_bytes False (take_bit 12 c) lo (p ! Suc i))"
    "ucast (drop_bit 8 (ucast (take_bit 12 c OR ucast (GET16 p i AND 0xF000)) :: u16)) = snd (fat12_bytes False (take_bit 12 c) lo (p ! Suc i))"
  unfolding fat12_bytes_def GET16_def and_F0 and_F000
  by (rule bit_word_eqI; auto simp: bit_defs dest: bit_imp_le_length)+

text \<open>What the new bytes mean: the stored value, and the old values of the neighbours.\<close>

lemma fat12_raw_new:
  "fat12_raw od (fst (fat12_bytes od (take_bit 12 c) lo hi)) (snd (fat12_bytes od (take_bit 12 c) lo hi)) AND 0x0FFF = take_bit 12 c"
  unfolding fat12_raw_def fat12_bytes_def and_ones and_F0
  by (cases od; rule bit_word_eqI) (auto simp: bit_defs dest: bit_imp_le_length)

lemma fat12_raw_before: "fat12_raw False x (fst (fat12_bytes True c lo hi)) AND 0x0FFF = fat12_raw False x lo AND 0x0FFF"
  unfolding fat12_raw_def fat12_bytes_def and_ones
  by (rule bit_word_eqI) (auto simp: bit_defs dest: bit_imp_le_length)

lemma fat12_raw_behind: "fat12_raw True (snd (fat12_bytes False (take_bit 12 c) lo hi)) x AND 0x0FFF = fat12_raw True hi x AND 0x0FFF"
  unfolding fat12_raw_def fat12_bytes_def and_ones and_F0
  by (rule bit_word_eqI) (auto simp: bit_defs dest: bit_imp_le_length)

lemma fat_outside_same: "fat_step b s t \<Longrightarrow> fat_outside t = fat_outside s"
  by (simp add: fat_outside_def fun_eq_iff fat_step_fields)

lemma set_modify_run:
  "run_state (do { _ \<leftarrow> set_buf sct f; FAT_modify sct }) t = ((), u) \<Longrightarrow>
   run_state (FAT_modify sct) (t\<lparr>bufs := (bufs t)(sct := f (bufs t sct))\<rparr>) = ((), u)"
  by (simp add: set_buf_def)

text \<open>Changing one byte of the table.\<close>

lemma fat_byte_single:
  assumes "fat_step b s t" "b = (bufs s)(fat_sector s q := P)" "q < fat_len s" "geometry_ok s"
    "P = (bufs s (fat_sector s q))[q mod 2 ^ sector_size_bits s := v]" "r < fat_len s"
  shows "fat_byte t r = (if r = q then v else fat_byte s r)"
proof -
  have l: "length (bufs s (fat_sector s q)) = 2 ^ sector_size_bits s" using assms(4) by (simp add: geometry_ok_def)
  have "fat_byte t r = (if q \<le> r \<and> r < q + 1 then v else fat_byte s r)"
    by (rule fat_byte_field [OF assms(1,2), of 1 "\<lambda>_. v"])
       (use assms(3,5,6) l in \<open>auto simp: nth_list_update Suc_leI\<close>)
  then show ?thesis by auto
qed

lemma fat12_write_across:
  fixes v :: u32
  assumes "fat_ok s" "fat_pos FAT12 loc + 2 \<le> fat_len s" "fat_pos FAT12 loc < 2 ^ 32"
    and "fat_pos FAT12 loc mod 2 ^ sector_size_bits s = 2 ^ sector_size_bits s - 1"
  defines "p \<equiv> fat_pos FAT12 loc" and "c \<equiv> take_bit 12 v" and "od \<equiv> loc AND 1 \<noteq> 0"
  obtains t b where "run_state (fat12_write loc v) s = (Some (), t)" "fat_step b s t"
    "\<And>x. fat_outside s x \<Longrightarrow> b x = bufs s x"
    "\<And>r. r < fat_len s \<Longrightarrow> fat_byte t r =
       (if r = p then fst (fat12_bytes od c (fat_byte s p) (fat_byte s (Suc p)))
        else if r = Suc p then snd (fat12_bytes od c (fat_byte s p) (fat_byte s (Suc p))) else fat_byte s r)"
proof -
  let ?b = "sector_size_bits s" and ?sct = "fat_sector s p"
  let ?off = "p mod 2 ^ ?b" and ?v0 = "fst (fat12_bytes od c (fat_byte s p) (fat_byte s (Suc p)))"
  let ?v1 = "snd (fat12_bytes od c (fat_byte s p) (fat_byte s (Suc p)))"
  have g: "geometry_ok s" using assms(1) by (simp add: fat_ok_def)
  have p: "Suc p < fat_len s" "p < fat_len s" using assms(2) by (simp_all add: p_def)
  have l: "length (bufs s x) = 2 ^ ?b" for x using g by (simp add: geometry_ok_def)
  note a = fat12_addr [OF g assms(3), folded p_def] and sz = unat_sector_size [OF g]
  have cv: "v AND 0xFFF = c" by (simp add: c_def and_ones)
  have out: "x \<noteq> fat_sector s q" if "fat_outside s x" "q < fat_len s" for x q using that by (auto simp: fat_outside_def)
  note n = next_pos(2) [OF assms(4) [folded p_def]]
  have s2: "fat_sector s (Suc p) = ?sct + 1" "Suc p mod 2 ^ ?b = 0" using n by (simp_all add: fat_sector_def)
  obtain t u where t: "run_state (FAT_getblk ?sct) s = (Some ?sct, t)" "fat_step (bufs s) s t"
    "run_state (do { _ \<leftarrow> set_buf ?sct (\<lambda>q. q[?off := ?v0]); FAT_modify ?sct }) t = ((), u)"
    "fat_step ((bufs s)(?sct := (bufs s ?sct)[?off := ?v0])) s u"
    using get_update_run [OF assms(1) p(2), of "\<lambda>q. q[?off := ?v0]"] by auto
  note ts = fat_step_fields [OF t(2)] and us = fat_step_fields [OF t(4)]
  have bu: "fat_byte u r = (if r = p then ?v0 else fat_byte s r)" if "r < fat_len s" for r
    by (rule fat_byte_single [OF t(4) refl p(2) g refl that])
  have u: "fat_ok u" "Suc p < fat_len u" "geometry_ok u" using fat_step_ok [OF t(4)] p(1) us by (simp_all add: fat_ok_def)
  obtain x y where x: "run_state (FAT_getblk (fat_sector u (Suc p))) u = (Some (fat_sector u (Suc p)), x)" "fat_step (bufs u) u x"
    "run_state (do { _ \<leftarrow> set_buf (fat_sector u (Suc p)) (\<lambda>q. q[0 := ?v1]); FAT_modify (fat_sector u (Suc p)) }) x = ((), y)"
    "fat_step ((bufs u)(fat_sector u (Suc p) := (bufs u (fat_sector u (Suc p)))[0 := ?v1])) u y"
    using get_update_run [OF u(1,2), of "\<lambda>q. q[0 := ?v1]"] by auto
  have by': "fat_byte y r = (if r = Suc p then ?v1 else fat_byte u r)" if "r < fat_len s" for r
    by (rule fat_byte_single [OF x(4) refl u(2,3)]) (use s2 us that in simp_all)
  have hi: "bufs x (?sct + 1) ! 0 = fat_byte s (Suc p)"
    using bu [OF p(1)] fat_step_fields(1) [OF x(2)] s2 us by (simp add: fat_byte_def [of u])
  have lo: "bufs t ?sct ! ?off = fat_byte s p" by (simp add: ts fat_byte_def)
  have w: "run_state (FAT_modify ?sct) (t\<lparr>bufs := (bufs t)(?sct := (bufs t ?sct)[?off := ?v0])\<rparr>) = ((), u)"
    "run_state (FAT_modify (?sct + 1)) (x\<lparr>bufs := (bufs x)(?sct + 1 := (bufs x (?sct + 1))[0 := ?v1])\<rparr>) = ((), y)"
    using set_modify_run [OF t(3)] set_modify_run [OF x(3)] s2 us by simp_all
  have r: "run_state (fat12_write loc v) s = (Some (), y)"
  proof (cases "loc AND 1 = 0")
    case True
    then have v: "?v0 = ucast c" "?v1 = ucast (ucast (fat_byte s (Suc p) AND 0xF0) OR drop_bit 8 c)"
      by (simp_all add: od_def fat12_bytes_def)
    show ?thesis
      using t(1) x(1) w assms(4) [folded p_def] s2 us hi True
      by (simp add: fat12_write_def Let_def a sz cv set_buf_def v)
  next
    case False
    then have v: "?v0 = ucast (push_bit 4 c OR ucast (fat_byte s p AND 0x0F))" "?v1 = ucast (drop_bit 8 (push_bit 4 c))"
      by (simp_all add: od_def fat12_bytes_def)
    show ?thesis
      using t(1) x(1) w assms(4) [folded p_def] s2 us lo False
      by (simp add: fat12_write_def Let_def a sz cv set_buf_def v)
  qed
  show ?thesis
  proof (rule that [OF r fat_step_trans [OF t(4) x(4)]])
    show "((bufs u)(fat_sector u (Suc p) := (bufs u (fat_sector u (Suc p)))[0 := ?v1])) z = bufs s z" if "fat_outside s z" for z
      using out [OF that p(1)] out [OF that p(2)] us by simp
    show "fat_byte y r = (if r = p then ?v0 else if r = Suc p then ?v1 else fat_byte s r)" if "r < fat_len s" for r
      using by' [OF that] bu [OF that] by (auto split: if_splits)
  qed
qed

lemma fat12_write_inside:
  fixes v :: u32
  assumes "fat_ok s" "fat_pos FAT12 loc + 2 \<le> fat_len s" "fat_pos FAT12 loc < 2 ^ 32"
    and "fat_pos FAT12 loc mod 2 ^ sector_size_bits s \<noteq> 2 ^ sector_size_bits s - 1"
  defines "p \<equiv> fat_pos FAT12 loc" and "c \<equiv> take_bit 12 v" and "od \<equiv> loc AND 1 \<noteq> 0"
  obtains t b where "run_state (fat12_write loc v) s = (Some (), t)" "fat_step b s t"
    "\<And>x. fat_outside s x \<Longrightarrow> b x = bufs s x"
    "\<And>r. r < fat_len s \<Longrightarrow> fat_byte t r =
       (if r = p then fst (fat12_bytes od c (fat_byte s p) (fat_byte s (Suc p)))
        else if r = Suc p then snd (fat12_bytes od c (fat_byte s p) (fat_byte s (Suc p))) else fat_byte s r)"
proof -
  let ?b = "sector_size_bits s" and ?sct = "fat_sector s p"
  let ?off = "p mod 2 ^ ?b" and ?v0 = "fst (fat12_bytes od c (fat_byte s p) (fat_byte s (Suc p)))"
  let ?v1 = "snd (fat12_bytes od c (fat_byte s p) (fat_byte s (Suc p)))"
  have g: "geometry_ok s" using assms(1) by (simp add: fat_ok_def)
  have p: "Suc p < fat_len s" "p < fat_len s" using assms(2) by (simp_all add: p_def)
  have l: "length (bufs s x) = 2 ^ ?b" for x using g by (simp add: geometry_ok_def)
  note a = fat12_addr [OF g assms(3), folded p_def] and sz = unat_sector_size [OF g]
  have cv: "v AND 0xFFF = c" by (simp add: c_def and_ones)
  have out: "x \<noteq> fat_sector s q" if "fat_outside s x" "q < fat_len s" for x q using that by (auto simp: fat_outside_def)
  note n = next_pos(1) [OF assms(4) [folded p_def]]
  have room: "?off + 2 \<le> 2 ^ ?b" proof -
    have "?off < 2 ^ ?b" by simp
    with assms(4) [folded p_def] show ?thesis by linarith
  qed
  have s2: "fat_byte s (Suc p) = bufs s ?sct ! Suc ?off" "fat_byte s p = bufs s ?sct ! ?off"
    using n by (simp_all add: fat_sector_def fat_byte_def)
  define f where "f = (\<lambda>q :: u8 list. if od
     then SET16 q ?off (ucast (push_bit 4 c OR ucast (GET16 q ?off AND 0x000F)))
     else SET16 (q[?off := ucast c]) ?off (ucast (c OR ucast (GET16 (q[?off := ucast c]) ?off AND 0xF000))))"
  have fl: "length (f q) = length q" for q by (simp add: f_def)
  obtain t u where t: "run_state (FAT_getblk ?sct) s = (Some ?sct, t)" "fat_step (bufs s) s t"
    "run_state (do { _ \<leftarrow> set_buf ?sct f; FAT_modify ?sct }) t = ((), u)"
    "fat_step ((bufs s)(?sct := f (bufs s ?sct))) s u"
    using get_update_run [OF assms(1) p(2) fl] .
  have fn: "f (bufs s ?sct) ! j = (if ?off \<le> j \<and> j < ?off + 2 then [?v0, ?v1] ! (j - ?off) else bufs s ?sct ! j)"
    if "j < 2 ^ ?b" for j
  proof (cases od)
    case True
    have "le_put 2 (ucast (push_bit 4 c OR ucast (GET16 (bufs s ?sct) ?off AND 0x000F)) :: u16) = [?v0, ?v1]"
      using fat12_odd_bytes [of c "bufs s ?sct" ?off "fat_byte s (Suc p)"] True s2 by (simp add: numeral_2_eq_2)
    then show ?thesis using True nth_SET16 [of ?off "bufs s ?sct"] room l by (simp add: f_def)
  next
    case False
    let ?q = "(bufs s ?sct)[?off := ucast c]"
    have "le_put 2 (ucast (c OR ucast (GET16 ?q ?off AND 0xF000)) :: u16) = [?v0, ?v1]"
      using fat12_even_bytes [of v ?q ?off "fat_byte s p"] False s2 by (simp add: numeral_2_eq_2 c_def)
    then show ?thesis using False nth_SET16 [of ?off ?q] room l by (simp add: f_def nth_list_update)
  qed
  have r: "run_state (fat12_write loc v) s = (Some (), u)"
    using t(1) set_modify_run [OF t(3)] assms(4) [folded p_def]
    by (cases "loc AND 1 = 0") (simp_all add: fat12_write_def Let_def a sz cv set_buf_def f_def od_def)
  show ?thesis
  proof (rule that [OF r t(4)])
    show "((bufs s)(?sct := f (bufs s ?sct))) z = bufs s z" if "fat_outside s z" for z
      using out [OF that p(2)] by simp
    show "fat_byte u r = (if r = p then ?v0 else if r = Suc p then ?v1 else fat_byte s r)" if "r < fat_len s" for r
    proof -
      have "fat_byte u r = (if p \<le> r \<and> r < p + 2 then [?v0, ?v1] ! (r - p) else fat_byte s r)"
        by (rule fat_byte_field [OF t(4) refl]) (use p room fn that in auto)
      then show ?thesis by (cases "r = p"; cases "r = Suc p"; simp; arith?)
    qed
  qed
qed

lemma fat12_write_bytes:
  fixes v :: u32
  assumes "fat_ok s" "fat_pos FAT12 loc + 2 \<le> fat_len s" "fat_pos FAT12 loc < 2 ^ 32"
  defines "p \<equiv> fat_pos FAT12 loc" and "c \<equiv> take_bit 12 v" and "od \<equiv> loc AND 1 \<noteq> 0"
  obtains t b where "run_state (fat12_write loc v) s = (Some (), t)" "fat_step b s t"
    "\<And>x. fat_outside s x \<Longrightarrow> b x = bufs s x"
    "\<And>r. r < fat_len s \<Longrightarrow> fat_byte t r =
       (if r = p then fst (fat12_bytes od c (fat_byte s p) (fat_byte s (Suc p)))
        else if r = Suc p then snd (fat12_bytes od c (fat_byte s p) (fat_byte s (Suc p))) else fat_byte s r)"
  unfolding p_def c_def od_def
proof (cases "fat_pos FAT12 loc mod 2 ^ sector_size_bits s = 2 ^ sector_size_bits s - 1")
  case True
  show ?thesis using that unfolding p_def c_def od_def by (rule fat12_write_across [OF assms(1-3) True])
next
  case False
  show ?thesis using that unfolding p_def c_def od_def by (rule fat12_write_inside [OF assms(1-3) False])
qed

lemma fat12_positions:
  fixes m n :: nat
  assumes "m \<noteq> n"
  shows "(m + m div 2 = Suc (n + n div 2) \<and> even n \<and> odd m) \<or> (Suc (m + m div 2) = n + n div 2 \<and> odd n \<and> even m) \<or>
    (m + m div 2 \<noteq> Suc (n + n div 2) \<and> Suc (m + m div 2) \<noteq> n + n div 2 \<and> m + m div 2 \<noteq> n + n div 2)"
proof -
  obtain a where a: "n = 2 * a \<or> n = Suc (2 * a)" by (metis evenE oddE Suc_eq_plus1)
  obtain b where b: "m = 2 * b \<or> m = Suc (2 * b)" by (metis evenE oddE Suc_eq_plus1)
  from a b assms show ?thesis by (elim disjE) (simp; linarith)+
qed

lemma fat12_val_new:
  assumes "vol_type s = FAT12" "fat_step b s t" "loc_ok s loc" "loc_ok s j"
    and "\<And>r. r < fat_len s \<Longrightarrow> fat_byte t r =
       (if r = fat_pos FAT12 loc then fst (fat12_bytes (loc AND 1 \<noteq> 0) (take_bit 12 v) (fat_byte s (fat_pos FAT12 loc)) (fat_byte s (Suc (fat_pos FAT12 loc))))
        else if r = Suc (fat_pos FAT12 loc) then snd (fat12_bytes (loc AND 1 \<noteq> 0) (take_bit 12 v) (fat_byte s (fat_pos FAT12 loc)) (fat_byte s (Suc (fat_pos FAT12 loc))))
        else fat_byte s r)"
  shows "fat_val t j = (if j = loc then fat_norm FAT12 v else fat_val s j)"
proof -
  let ?p = "fat_pos FAT12 loc" and ?q = "fat_pos FAT12 j"
  let ?raw = "\<lambda>s. fat12_raw (j AND 1 \<noteq> 0) (fat_byte s ?q) (fat_byte s (Suc ?q))"
  have fv: "fat_val x j = fat_norm FAT12 (?raw x AND 0x0FFF)" if "vol_type x = FAT12" for x
    using that by (simp add: fat_val_def fat_raw_def fat_norm_def Let_def and.assoc)
  have len: "?q < fat_len s" "Suc ?q < fat_len s" using assms(1,4) by (auto simp: loc_ok_def)
  have odd: "(x AND 1 \<noteq> 0) = odd (unat x)" for x :: u32 unfolding and_1_nonzero by (simp flip: bit_0 add: bit_unsigned_iff)
  have "?raw t AND 0x0FFF = (if j = loc then take_bit 12 v else ?raw s AND 0x0FFF)"
  proof (cases "j = loc")
    case True
    then show ?thesis using assms(5) [OF len(1)] assms(5) [OF len(2)] by (simp add: fat12_raw_new)
  next
    case False
    then have n: "unat j \<noteq> unat loc" by (simp add: word_unat_eq_iff)
    have pq: "?p = unat loc + unat loc div 2" "?q = unat j + unat j div 2" by (simp_all add: fat_pos_def)
    consider "?q = Suc ?p" "even (unat loc)" "odd (unat j)" | "Suc ?q = ?p" "odd (unat loc)" "even (unat j)"
      | "?q \<noteq> Suc ?p" "Suc ?q \<noteq> ?p" "?q \<noteq> ?p"
      unfolding pq using fat12_positions [OF n] by blast
    then show ?thesis
    proof cases
      case 1
      then show ?thesis using assms(5) [OF len(1)] assms(5) [OF len(2)] False odd by (simp add: fat12_raw_behind)
    next
      case 2
      then show ?thesis using assms(5) [OF len(1)] assms(5) [OF len(2)] False odd by (simp add: fat12_raw_before)
    next
      case 3
      then show ?thesis using assms(5) [OF len(1)] assms(5) [OF len(2)] False by simp
    qed
  qed
  then show ?thesis using fv [of t] fv [of s] assms(1) fat_step_fields(2) [OF assms(2)]
    by (simp add: fat_norm_def Let_def and_ones)
qed

text \<open>The same for the entries of two and of four bytes, before the normalisation.\<close>

lemma fat_raw_16_new:
  fixes w :: u16
  assumes "\<And>r. r < n \<Longrightarrow> f r = (if 2 * unat loc \<le> r \<and> r < 2 * unat loc + 2 then le_put 2 w ! (r - 2 * unat loc) else g r)"
    and "2 * unat j + 2 \<le> n"
  shows "fat_raw FAT16 j f = (if j = loc then ucast w else fat_raw FAT16 j g)"
proof -
  have l: "2 * unat j < n" "Suc (2 * unat j) < n" using assms(2) by auto
  show ?thesis
  proof (cases "j = loc")
    case True
    have "GET16 (le_put 2 w) 0 = w" using le_get_put [where 'a = 16, of 2 w] by (simp add: GET16_le numeral_2_eq_2)
    then show ?thesis using True assms(1) [OF l(1)] assms(1) [OF l(2)]
      by (simp add: fat_raw_def fat_pos_def Let_def numeral_2_eq_2)
  next
    case False
    then have "unat j \<noteq> unat loc" by (simp add: word_unat_eq_iff)
    then have c: "\<not> (2 * unat loc \<le> 2 * unat j \<and> 2 * unat j < 2 * unat loc + 2)"
      "\<not> (2 * unat loc \<le> Suc (2 * unat j) \<and> Suc (2 * unat j) < 2 * unat loc + 2)" by arith+
    have "f (2 * unat j) = g (2 * unat j)" "f (Suc (2 * unat j)) = g (Suc (2 * unat j))"
      using assms(1) [OF l(1)] assms(1) [OF l(2)] unfolding if_not_P [OF c(1)] if_not_P [OF c(2)] .
    then show ?thesis using False by (simp add: fat_raw_def fat_pos_def Let_def)
  qed
qed

lemma fat_raw_32_new:
  fixes w :: u32
  assumes "\<And>r. r < n \<Longrightarrow> f r = (if 4 * unat loc \<le> r \<and> r < 4 * unat loc + 4 then le_put 4 w ! (r - 4 * unat loc) else g r)"
    and "4 * unat j + 4 \<le> n" "ty \<noteq> FAT12" "ty \<noteq> FAT16"
  shows "fat_raw ty j f = (if j = loc then w else fat_raw ty j g)"
proof -
  have b: "f (4 * unat j + i) = (if j = loc then le_put 4 w ! i else g (4 * unat j + i))" if "i < 4" for i
  proof (cases "j = loc")
    case False
    then have "unat j \<noteq> unat loc" by (simp add: word_unat_eq_iff)
    then have "\<not> (4 * unat loc \<le> 4 * unat j + i \<and> 4 * unat j + i < 4 * unat loc + 4)" using that by arith
    then show ?thesis using assms(1) [of "4 * unat j + i"] assms(2) that False by auto
  qed (use assms(1) [of "4 * unat j + i"] assms(2) that in auto)
  have "GET32 (le_put 4 w) 0 = w" using le_get_put [where 'a = 32, of 4 w] by (simp add: GET32_le eval_nat_numeral)
  then have e: "GET32 [le_put 4 w ! 0, le_put 4 w ! 1, le_put 4 w ! 2, le_put 4 w ! 3] 0 = w"
    by (simp add: GET32_def numeral_2_eq_2)
  show ?thesis using b [of 0] b [of 1] b [of 2] b [of 3] e assms(3,4) by (simp add: fat_raw_def fat_pos_def Let_def)
qed

text \<open>Writing an entry always succeeds, and changes just this entry of the table.\<close>

lemma FAT_write_run:
  assumes "fat_ok s" "loc_ok s loc"
  obtains t b where "run_state (FAT_write loc v) s = (Some (), t)" "fat_step b s t"
    "\<And>x. fat_outside s x \<Longrightarrow> b x = bufs s x"
    "\<And>j. loc_ok s j \<Longrightarrow> fat_val t j = (if j = loc then fat_norm (vol_type s) v else fat_val s j)"
proof (cases rule: fat_type_cases [of s])
  case 1
  have p: "fat_pos FAT12 loc + 2 \<le> fat_len s" "fat_pos FAT12 loc < 2 ^ 32" using assms(2) 1 by (simp_all add: loc_ok_def)
  show ?thesis
  proof (rule fat12_write_bytes [OF assms(1) p, where v = v])
    fix t b
    assume t: "run_state (fat12_write loc v) s = (Some (), t)" "fat_step b s t" "\<And>x. fat_outside s x \<Longrightarrow> b x = bufs s x"
      and n: "\<And>r. r < fat_len s \<Longrightarrow> fat_byte t r =
       (if r = fat_pos FAT12 loc then fst (fat12_bytes (loc AND 1 \<noteq> 0) (take_bit 12 v) (fat_byte s (fat_pos FAT12 loc)) (fat_byte s (Suc (fat_pos FAT12 loc))))
        else if r = Suc (fat_pos FAT12 loc) then snd (fat12_bytes (loc AND 1 \<noteq> 0) (take_bit 12 v) (fat_byte s (fat_pos FAT12 loc)) (fat_byte s (Suc (fat_pos FAT12 loc))))
        else fat_byte s r)"
    show thesis
      by (rule that [OF _ t(2,3)]) (use t(1) 1 fat12_val_new [OF 1 t(2) assms(2) _ n] in \<open>simp_all add: FAT_write_def\<close>)
  qed
next
  case 2
  obtain t b where t: "run_state (fat_write_entry 1 loc (\<lambda>p off. SET16 p off (ucast (v AND 0x0000FFFF)))) s = (Some (), t)" "fat_step b s t"
    "\<And>x. fat_outside s x \<Longrightarrow> b x = bufs s x"
    "\<And>r. r < fat_len s \<Longrightarrow> fat_byte t r = (if 2 * unat loc \<le> r \<and> r < 2 * unat loc + 2
       then le_put 2 (ucast (v AND 0x0000FFFF) :: u16) ! (r - 2 * unat loc) else fat_byte s r)"
    using fat_write_16_bytes [OF assms(1), of loc "\<lambda>_ _. ucast (v AND 0x0000FFFF)"] assms(2) 2
    by (auto simp: loc_ok_def fat_pos_def)
  show ?thesis
  proof (rule that [OF _ t(2,3)])
    show "run_state (FAT_write loc v) s = (Some (), t)" using t(1) 2 by (simp add: FAT_write_def fat16_write_def)
    fix j assume j: "loc_ok s j"
    have "fat_raw FAT16 j (fat_byte t) = (if j = loc then ucast (ucast (v AND 0xFFFF) :: u16) else fat_raw FAT16 j (fat_byte s))"
      by (rule fat_raw_16_new [OF t(4)]) (use j 2 in \<open>auto simp: loc_ok_def fat_pos_def\<close>)
    moreover have "ucast (ucast (v AND 0xFFFF) :: u16) AND 0xFFFF = v AND 0xFFFF"
      unfolding and_ones by (rule bit_word_eqI) (auto simp: bit_defs)
    ultimately show "fat_val t j = (if j = loc then fat_norm (vol_type s) v else fat_val s j)"
      using 2 fat_step_fields(2) [OF t(2)] by (simp add: fat_val_def fat_norm_def Let_def)
  qed
next
  case 3
  let ?v = "\<lambda>p off. (v AND 0x0FFFFFFF) OR (GET32 p off AND 0xF0000000)"
  let ?w = "?v (bufs s (fat_sec 2 loc s)) (fat_off 2 loc s)"
  obtain t b where t: "run_state (fat_write_entry 2 loc (\<lambda>p off. SET32 p off (?v p off))) s = (Some (), t)" "fat_step b s t"
    "\<And>x. fat_outside s x \<Longrightarrow> b x = bufs s x"
    "\<And>r. r < fat_len s \<Longrightarrow> fat_byte t r = (if 4 * unat loc \<le> r \<and> r < 4 * unat loc + 4
       then le_put 4 ?w ! (r - 4 * unat loc) else fat_byte s r)"
    using fat_write_32_bytes [OF assms(1), of loc ?v] assms(2) 3 by (auto simp: loc_ok_def fat_pos_def)
  show ?thesis
  proof (rule that [OF _ t(2,3)])
    show "run_state (FAT_write loc v) s = (Some (), t)" using t(1) 3 by (simp add: FAT_write_def fat32_write_def)
    fix j assume j: "loc_ok s j"
    have "fat_raw FAT32 j (fat_byte t) = (if j = loc then ?w else fat_raw FAT32 j (fat_byte s))"
      by (rule fat_raw_32_new [OF t(4)]) (use j 3 in \<open>auto simp: loc_ok_def fat_pos_def\<close>)
    moreover have "?w AND 0x0FFFFFFF = v AND 0x0FFFFFFF"
    proof -
      have e: "(0xF0000000 :: u32) = push_bit 28 (mask 4)" by (simp add: mask_eq_exp_minus_1)
      show ?thesis unfolding e and_ones by (rule bit_word_eqI) (auto simp: bit_defs bit_mask_iff)
    qed
    ultimately show "fat_val t j = (if j = loc then fat_norm (vol_type s) v else fat_val s j)"
      using 3 fat_step_fields(2) [OF t(2)] by (simp add: fat_val_def fat_norm_def Let_def)
  qed
next
  case 4
  obtain t b where t: "run_state (fat_write_entry 2 loc (\<lambda>p off. SET32 p off v)) s = (Some (), t)" "fat_step b s t"
    "\<And>x. fat_outside s x \<Longrightarrow> b x = bufs s x"
    "\<And>r. r < fat_len s \<Longrightarrow> fat_byte t r = (if 4 * unat loc \<le> r \<and> r < 4 * unat loc + 4
       then le_put 4 v ! (r - 4 * unat loc) else fat_byte s r)"
    using fat_write_32_bytes [OF assms(1), of loc "\<lambda>_ _. v"] assms(2) 4 by (auto simp: loc_ok_def fat_pos_def)
  show ?thesis
  proof (rule that [OF _ t(2,3)])
    show "run_state (FAT_write loc v) s = (Some (), t)" using t(1) 4 by (simp add: FAT_write_def exfat_FAT_write_def)
    fix j assume j: "loc_ok s j"
    have "fat_raw (vol_type s) j (fat_byte t) = (if j = loc then v else fat_raw (vol_type s) j (fat_byte s))"
      by (rule fat_raw_32_new [OF t(4)]) (use j 4 in \<open>auto simp: loc_ok_def fat_pos_def\<close>)
    then show "fat_val t j = (if j = loc then fat_norm (vol_type s) v else fat_val s j)"
      using fat_step_fields(2) [OF t(2)] by (simp add: fat_val_def)
  qed
qed

section \<open>The table as a map\<close>

text \<open>
  The contract the cluster code relies on: a map from clusters to values that is read and written one entry at a time.
  \<open>norm\<close> says which value is found after \<open>v\<close> has been stored, \<open>keep\<close> relates the states before and after.
\<close>

locale cluster_map =
  fixes good :: "'s \<Rightarrow> bool"
    and valid :: "'s \<Rightarrow> u32 \<Rightarrow> bool"
    and val :: "'s \<Rightarrow> u32 \<Rightarrow> u32"
    and norm :: "'s \<Rightarrow> u32 \<Rightarrow> u32"
    and keep :: "'s \<Rightarrow> 's \<Rightarrow> bool"
    and rd :: "u32 \<Rightarrow> ('s, u32 option) state"
    and wr :: "u32 \<Rightarrow> u32 \<Rightarrow> ('s, unit option) state"
  assumes rd_spec: "good s \<Longrightarrow> valid s c \<Longrightarrow> \<exists>t. run_state (rd c) s = (Some (val s c), t) \<and> keep s t \<and> val t = val s"
    and wr_spec: "good s \<Longrightarrow> valid s c \<Longrightarrow> \<exists>t. run_state (wr c v) s = (Some (), t) \<and> keep s t \<and>
      (\<forall>d. valid s d \<longrightarrow> val t d = (if d = c then norm s v else val s d))"
    and keep_good: "keep s t \<Longrightarrow> good t \<and> valid t = valid s \<and> norm t = norm s"
begin

lemma write_read:
  assumes "good s" "valid s c" "valid s d"
  shows "fst (run_state (do { _ \<leftarrow> wr c v; rd d }) s) = Some (if d = c then norm s v else val s d)"
proof -
  obtain t where t: "run_state (wr c v) s = (Some (), t)" "keep s t"
    "\<forall>d. valid s d \<longrightarrow> val t d = (if d = c then norm s v else val s d)" using wr_spec [OF assms(1,2)] by blast
  note k = keep_good [OF t(2)]
  obtain u where "run_state (rd d) t = (Some (val t d), u)" using rd_spec [of t d] k assms(3) by auto
  then show ?thesis using t(1,3) assms(3) by simp
qed

lemma read_twice: "good s \<Longrightarrow> valid s c \<Longrightarrow> fst (run_state (do { x \<leftarrow> rd c; y \<leftarrow> rd c; ret (x, y) }) s) = (Some (val s c), Some (val s c))"
proof -
  assume s: "good s" "valid s c"
  obtain t where t: "run_state (rd c) s = (Some (val s c), t)" "keep s t" "val t = val s" using rd_spec [OF s] by blast
  obtain u where "run_state (rd c) t = (Some (val t c), u)" using rd_spec [of t c] keep_good [OF t(2)] s(2) by auto
  with t show ?thesis by simp
qed

end

interpretation fm: cluster_map fat_ok loc_ok fat_val "\<lambda>s. fat_norm (vol_type s)" "\<lambda>s t. \<exists>b. fat_step b s t" FAT_read FAT_write
proof
  fix s c assume s: "fat_ok s" "loc_ok s c"
  obtain t where t: "run_state (FAT_read c) s = (Some (fat_val s c), t)" "fat_step (bufs s) s t"
    using FAT_read_run [OF s] .
  have "fat_byte t = fat_byte s" by (rule ext) (simp add: fat_byte_def fat_step_fields [OF t(2)])
  then have "fat_val t = fat_val s" by (intro ext) (simp add: fat_val_def fat_step_fields [OF t(2)])
  with t show "\<exists>t. run_state (FAT_read c) s = (Some (fat_val s c), t) \<and> (\<exists>b. fat_step b s t) \<and> fat_val t = fat_val s" by blast
next
  fix s c v assume s: "fat_ok s" "loc_ok s c"
  show "\<exists>t. run_state (FAT_write c v) s = (Some (), t) \<and> (\<exists>b. fat_step b s t) \<and>
      (\<forall>d. loc_ok s d \<longrightarrow> fat_val t d = (if d = c then fat_norm (vol_type s) v else fat_val s d))"
    by (rule FAT_write_run [OF s, of v]) blast
next
  fix s t :: vol assume "\<exists>b. fat_step b s t"
  then obtain b where "fat_step b s t" by blast
  then show "fat_ok t \<and> loc_ok t = loc_ok s \<and> fat_norm (vol_type t) = fat_norm (vol_type s)"
    by (simp add: fat_step_ok fat_step_fields loc_ok_def fun_eq_iff)
qed
text \<open>
  C2: the FAT is a map.  With a working device, for each of the four widths and every entry that lies in the table,
  \<^verbatim>\<open>FAT_read\<close> gives the value of the entry and changes no value; \<^verbatim>\<open>FAT_write\<close> succeeds, changes the value of this entry to what it is
  given (in the bits of the entry, end-of-chain values as \<^verbatim>\<open>CLUSTER_32(~0)\<close>) and of no other entry, and changes no block outside
  of the table.
\<close>

theorem FAT_refines_map:
  assumes "fat_ok s" "loc_ok s loc"
  shows "(\<exists>t. run_state (FAT_read loc) s = (Some (fat_val s loc), t) \<and> fat_ok t \<and> fat_val t = fat_val s) \<and>
    (\<exists>t. run_state (FAT_write loc v) s = (Some (), t) \<and> fat_ok t \<and>
      (\<forall>j. loc_ok s j \<longrightarrow> fat_val t j = (if j = loc then fat_norm (vol_type s) v else fat_val s j)) \<and>
      (\<forall>x. fat_outside s x \<longrightarrow> bufs t x = bufs s x))"
proof
  show "\<exists>t. run_state (FAT_read loc) s = (Some (fat_val s loc), t) \<and> fat_ok t \<and> fat_val t = fat_val s"
    using fm.rd_spec [OF assms] by (auto dest: fat_step_ok)
  show "\<exists>t. run_state (FAT_write loc v) s = (Some (), t) \<and> fat_ok t \<and>
      (\<forall>j. loc_ok s j \<longrightarrow> fat_val t j = (if j = loc then fat_norm (vol_type s) v else fat_val s j)) \<and>
      (\<forall>x. fat_outside s x \<longrightarrow> bufs t x = bufs s x)"
  proof (rule FAT_write_run [OF assms, of v])
    fix t b assume t: "run_state (FAT_write loc v) s = (Some (), t)" "fat_step b s t" "\<And>x. fat_outside s x \<Longrightarrow> b x = bufs s x"
      "\<And>j. loc_ok s j \<Longrightarrow> fat_val t j = (if j = loc then fat_norm (vol_type s) v else fat_val s j)"
    then show ?thesis using fat_step_ok [OF t(2)] fat_step_fields(1) [OF t(2)] by blast
  qed
qed

text \<open>The largest cluster number of a width, plus one.\<close>

definition fat_limit :: "u32 \<Rightarrow> u32" where
  "fat_limit t = (if t = FAT12 then 0x0FF8 else if t = FAT16 then 0xFFF8 else if t = FAT32 then 0x0FFFFFF8 else 0xFFFFFFF8)"

lemma fat_norm_small:
  assumes "v < fat_limit t \<or> v = CLU_EOF"
  shows "fat_norm t v = v"
proof -
  have m: "(0xFFF :: u32) = mask 12" "(0xFFFF :: u32) = mask 16" "(0x0FFFFFFF :: u32) = mask 28"
    by (simp_all add: mask_eq_exp_minus_1)
  have lt: "v < 0x0FF8 \<Longrightarrow> v < 2 ^ 12" "v < 0xFFF8 \<Longrightarrow> v < 2 ^ 16" "v < 0x0FFFFFF8 \<Longrightarrow> v < 2 ^ 28"
    by (erule order.strict_trans; simp)+
  have "v < 0x0FF8 \<Longrightarrow> v AND 0xFFF = v" "v < 0xFFF8 \<Longrightarrow> v AND 0xFFFF = v" "v < 0x0FFFFFF8 \<Longrightarrow> v AND 0x0FFFFFFF = v"
    unfolding m using lt less_mask_eq by blast+
  then show ?thesis using assms by (auto simp: fat_norm_def fat_limit_def Let_def CLU_EOF_def not_le [symmetric] split: if_splits)
qed

text \<open>
  what is written is read.  For a value that the width can hold, a cluster number below the reserved ones or the
  end-of-chain marker, \<^verbatim>\<open>FAT_read\<close> after \<^verbatim>\<open>FAT_write\<close> returns just this value, and any other entry as it was before.
\<close>

theorem FAT_write_read:
  assumes "fat_ok s" "loc_ok s c" "loc_ok s d" "v < fat_limit (vol_type s) \<or> v = CLU_EOF"
  shows "fst (run_state (do { _ \<leftarrow> FAT_write c v; FAT_read d }) s) = Some (if d = c then v else fat_val s d)"
  using fm.write_read [OF assms(1-3), of v] fat_norm_small [OF assms(4)] by simp

lemma fat_ok_ready: "(\<And>b. length (bs b) = 512) \<Longrightarrow> fat_ok (ready t bs)"
  by (auto simp: fat_ok_def ready_ok ready_device geometry_ok_def out_of_range_def word_le_nat_alt dest!: less_2_cases)

lemma loc_ok_ready: "unat loc < 200 \<Longrightarrow> loc_ok (ready t bs) loc"
  by (auto simp: loc_ok_def fat_pos_def fat_len_def)

text \<open>On the sample volume; entry 341 of a FAT12 lies across the border of the two sectors of the table.\<close>

lemma FAT_refines_map_witness:
  "\<exists>t. run_state (FAT_write 341 0x123) (ready FAT12 zeros) = (Some (), t) \<and> fat_val t 341 = 0x123 \<and> fat_val t 340 = 0"
proof -
  have "loc_ok (ready FAT12 zeros) 341" "loc_ok (ready FAT12 zeros) 340"
    by (simp_all add: loc_ok_def fat_pos_def fat_len_def)
  moreover have "fat_val (ready FAT12 zeros) 340 = 0"
    by (simp add: fat_val_def fat_raw_def fat12_raw_def fat_norm_def fat_byte_def Let_def)
  ultimately show ?thesis
    using FAT_refines_map [OF fat_ok_ready [of zeros FAT12], of 341 "0x123"] by (auto simp: fat_norm_def)
qed

lemma FAT_write_read_witness:
  "fst (run_state (do { _ \<leftarrow> FAT_write 5 17; FAT_read 5 }) (ready FAT16 zeros)) = Some 17"
  using FAT_write_read [OF fat_ok_ready [of zeros FAT16] loc_ok_ready [of 5] loc_ok_ready [of 5], of 17] by (simp add: fat_limit_def)

end
