(* ===== verification/ClusterProps.thy ===== *)
theory ClusterProps
  imports Dir FatProps
begin

text \<open>
  Cluster chains.  A chain of a table \<open>f\<close> is a list of clusters, each the value of the one before, the last with the end mark.
  On a volume with a sound table the walks over a chain end and find what they should, \<^verbatim>\<open>fat_alloc_cluster\<close> makes a chain of
  free clusters and \<^verbatim>\<open>fat_free_cluster\<close> frees just those of a chain.
\<close>

section \<open>Chains\<close>

fun chain :: "(u32 \<Rightarrow> u32) \<Rightarrow> u32 \<Rightarrow> u32 list \<Rightarrow> bool" where
  "chain f c [] \<longleftrightarrow> c = CLU_EOF"
| "chain f c (x # xs) \<longleftrightarrow> c = x \<and> x \<noteq> CLU_EOF \<and> chain f (f x) xs"

lemma chain_unique: "chain f c xs \<Longrightarrow> chain f c ys \<Longrightarrow> xs = ys"
proof (induction xs arbitrary: c ys)
  case Nil
  then show ?case by (cases ys) auto
next
  case (Cons x xs)
  then show ?case by (cases ys) auto
qed

lemma chain_drop: "chain f c (as @ x # bs) \<Longrightarrow> chain f x (x # bs)"
  by (induction as arbitrary: c) auto

lemma chain_distinct: "chain f c xs \<Longrightarrow> distinct xs"
proof (rule ccontr)
  assume c: "chain f c xs" and d: "\<not> distinct xs"
  from not_distinct_decomp [OF d] obtain as x bs cs where xs: "xs = as @ [x] @ bs @ [x] @ cs" by blast
  have "chain f x (x # bs @ x # cs)" using chain_drop [of f c as x "bs @ x # cs"] c xs by simp
  moreover have "chain f x (x # cs)" using chain_drop [of f c "as @ x # bs" x cs] c xs by simp
  ultimately have "x # bs @ x # cs = x # cs" by (rule chain_unique)
  then have "length (x # bs @ x # cs) = length (x # cs)" by (rule arg_cong)
  then show False by simp
qed

lemma chain_cong: "(\<And>x. x \<in> set xs \<Longrightarrow> g x = f x) \<Longrightarrow> chain g c xs = chain f c xs"
  by (induction xs arbitrary: c) auto

lemma chain_not_EOF: "chain f c xs \<Longrightarrow> x \<in> set xs \<Longrightarrow> x \<noteq> CLU_EOF"
  by (induction xs arbitrary: c) auto

lemma chain_single: "x \<noteq> CLU_EOF \<Longrightarrow> f x = CLU_EOF \<Longrightarrow> chain f x [x]"
  by simp

lemma chain_last: "chain f c xs \<Longrightarrow> xs \<noteq> [] \<Longrightarrow> f (last xs) = CLU_EOF"
proof (induction xs arbitrary: c)
  case (Cons x xs)
  then show ?case by (cases xs) auto
qed simp

lemma chain_snoc:
  "chain f c xs \<Longrightarrow> xs \<noteq> [] \<Longrightarrow> x \<notin> set xs \<Longrightarrow> x \<noteq> CLU_EOF \<Longrightarrow> chain (f(x := CLU_EOF, last xs := x)) c (xs @ [x])"
proof (induction xs arbitrary: c)
  case Nil
  then show ?case by simp
next
  case (Cons y ys)
  show ?case
  proof (cases "ys = []")
    case True
    then show ?thesis using Cons.prems by auto
  next
    case False
    have "chain f (f y) ys" using Cons.prems(1) by simp
    then have "chain (f(x := CLU_EOF, last ys := x)) (f y) (ys @ [x])" by (rule Cons.IH) (use Cons.prems False in auto)
    moreover have "y \<noteq> last ys" using chain_distinct [OF Cons.prems(1)] False last_in_set [OF False] by auto
    moreover have "(f(x := CLU_EOF, last ys := x)) y = f y" using Cons.prems(3) \<open>y \<noteq> last ys\<close> by auto
    ultimately show ?thesis using Cons.prems False by (simp del: fun_upd_apply)
  qed
qed

section \<open>The volume\<close>

text \<open>Every cluster of the volume has its entry in the table, and the table can hold its number.\<close>

definition is_cluster :: "vol \<Rightarrow> u32 \<Rightarrow> bool" where
  "is_cluster s c \<longleftrightarrow> 2 \<le> c \<and> c < num_clusters s"

definition clusters_ok :: "vol \<Rightarrow> bool" where
  "clusters_ok s \<longleftrightarrow> fat_ok s \<and> 2 < num_clusters s \<and> num_clusters s \<le> fat_limit (vol_type s) \<and> (\<forall>c. is_cluster s c \<longrightarrow> loc_ok s c)"

lemma is_cluster_not_EOF: "is_cluster s c \<Longrightarrow> c \<noteq> CLU_EOF"
  by (auto simp: is_cluster_def CLU_EOF_def dest: less_le_trans [OF _ word_order.extremum])

lemma is_cluster_loc: "clusters_ok s \<Longrightarrow> is_cluster s c \<Longrightarrow> loc_ok s c"
  by (simp add: clusters_ok_def)

lemma is_cluster_norm: "clusters_ok s \<Longrightarrow> is_cluster s c \<Longrightarrow> fat_norm (vol_type s) c = c"
  by (rule fat_norm_small) (auto simp: clusters_ok_def is_cluster_def)

lemma fat_norm_EOF: "fat_norm t CLU_EOF = CLU_EOF" "fat_norm t 0 = 0"
  by (rule fat_norm_small; simp add: fat_limit_def)+

text \<open>What the cluster operations may change.\<close>

definition clu_step :: "vol \<Rightarrow> vol \<Rightarrow> bool" where
  "clu_step s t \<longleftrightarrow> fat_ok t \<and> t = s\<lparr>FAT_cache := FAT_cache t, env_pos := env_pos t, dirty := dirty t, bufs := bufs t,
     clu_srch_ptr := clu_srch_ptr t, used_clusters := used_clusters t, sb_dirty := sb_dirty t\<rparr> \<and> (\<forall>x. fat_outside s x \<longrightarrow> bufs t x = bufs s x)"

lemma clu_step_eq:
  assumes "clu_step s t"
  obtains c e d b p u y where "t = s\<lparr>FAT_cache := c, env_pos := e, dirty := d, bufs := b, clu_srch_ptr := p, used_clusters := u, sb_dirty := y\<rparr>"
  using assms unfolding clu_step_def by blast

lemma clu_step_fields:
  assumes "clu_step s t"
  shows "vol_type t = vol_type s" "num_clusters t = num_clusters s" "fat_outside t = fat_outside s" "loc_ok t = loc_ok s"
    "is_cluster t = is_cluster s" "dev_ejected t = dev_ejected s" "ub t = ub s"
  by (rule clu_step_eq [OF assms], simp add: fat_outside_def loc_ok_def fat_len_def fat_sector_def is_cluster_def fun_eq_iff)+

lemma clu_step_ok: "clusters_ok s \<Longrightarrow> clu_step s t \<Longrightarrow> clusters_ok t"
  using clu_step_fields [of s t] by (simp add: clusters_ok_def clu_step_def)

lemma clu_step_trans:
  assumes "clu_step s t" "clu_step t u"
  shows "clu_step s u"
proof -
  have "u = s\<lparr>FAT_cache := FAT_cache u, env_pos := env_pos u, dirty := dirty u, bufs := bufs u,
     clu_srch_ptr := clu_srch_ptr u, used_clusters := used_clusters u, sb_dirty := sb_dirty u\<rparr>"
    by (rule clu_step_eq [OF assms(1)], rule clu_step_eq [OF assms(2)]) simp
  with assms clu_step_fields(3) [OF assms(1)] show ?thesis by (simp add: clu_step_def)
qed

lemma clu_step_refl: "fat_ok s \<Longrightarrow> clu_step s s"
  by (simp add: clu_step_def)

lemma fat_step_clu:
  assumes "fat_step b s t" "\<And>x. fat_outside s x \<Longrightarrow> b x = bufs s x"
  shows "clu_step s t"
proof -
  obtain c e d where "t = s\<lparr>FAT_cache := c, env_pos := e, dirty := d, bufs := b\<rparr>" using assms(1) by (auto simp: fat_step_def)
  with assms show ?thesis by (simp add: clu_step_def fat_step_def)
qed

lemma fat_step_upd:
  "fat_ok s \<Longrightarrow> fat_ok (s\<lparr>clu_srch_ptr := p\<rparr>)" "fat_ok s \<Longrightarrow> fat_ok (s\<lparr>used_clusters := u\<rparr>)" "fat_ok s \<Longrightarrow> fat_ok (s\<lparr>sb_dirty := y\<rparr>)"
  by (simp_all add: fat_ok_def cache_ok_def geometry_ok_def device_ok_def out_of_range_def)

lemma fat_val_upd:
  "fat_val (s\<lparr>clu_srch_ptr := p\<rparr>) = fat_val s" "fat_val (s\<lparr>used_clusters := u\<rparr>) = fat_val s"
  "fat_val (s\<lparr>sb_dirty := y\<rparr>) = fat_val s"
proof -
  have "fat_byte (s\<lparr>clu_srch_ptr := p\<rparr>) = fat_byte s" "fat_byte (s\<lparr>used_clusters := u\<rparr>) = fat_byte s"
    "fat_byte (s\<lparr>sb_dirty := y\<rparr>) = fat_byte s" by (intro ext; simp add: fat_byte_def fat_sector_def)+
  then show "fat_val (s\<lparr>clu_srch_ptr := p\<rparr>) = fat_val s" "fat_val (s\<lparr>used_clusters := u\<rparr>) = fat_val s"
    "fat_val (s\<lparr>sb_dirty := y\<rparr>) = fat_val s" by (intro ext; simp add: fat_val_def)+
qed

text \<open>Reading and writing the entry of a cluster.\<close>

lemma clu_read_run:
  assumes "clusters_ok s" "is_cluster s c"
  obtains t where "run_state (FAT_read c) s = (Some (fat_val s c), t)" "clu_step s t" "fat_val t = fat_val s"
    "clu_srch_ptr t = clu_srch_ptr s" "used_clusters t = used_clusters s"
proof -
  have f: "fat_ok s" using assms(1) by (simp add: clusters_ok_def)
  obtain t where t: "run_state (FAT_read c) s = (Some (fat_val s c), t)" "fat_step (bufs s) s t"
    using FAT_read_run [OF f is_cluster_loc [OF assms]] .
  have "fat_byte t = fat_byte s" by (rule ext) (simp add: fat_byte_def fat_step_fields [OF t(2)])
  then have "fat_val t = fat_val s" by (intro ext) (simp add: fat_val_def fat_step_fields [OF t(2)])
  with t that fat_step_clu [OF t(2)] fat_step_fields [OF t(2)] show ?thesis by blast
qed

lemma clu_write_run:
  assumes "clusters_ok s" "is_cluster s c"
  obtains t where "run_state (FAT_write c v) s = (Some (), t)" "clu_step s t"
    "\<And>d. is_cluster s d \<Longrightarrow> fat_val t d = (if d = c then fat_norm (vol_type s) v else fat_val s d)"
    "clu_srch_ptr t = clu_srch_ptr s" "used_clusters t = used_clusters s"
proof -
  have f: "fat_ok s" using assms(1) by (simp add: clusters_ok_def)
  show thesis
  proof (rule FAT_write_run [OF f is_cluster_loc [OF assms], of v])
    fix t b assume t: "run_state (FAT_write c v) s = (Some (), t)" "fat_step b s t"
      "\<And>x. fat_outside s x \<Longrightarrow> b x = bufs s x"
      "\<And>j. loc_ok s j \<Longrightarrow> fat_val t j = (if j = c then fat_norm (vol_type s) v else fat_val s j)"
    show thesis
      by (rule that [OF t(1) fat_step_clu [OF t(2,3)]])
        (use t(4) is_cluster_loc [OF assms(1)] fat_step_fields [OF t(2)] in simp_all)
  qed
qed

section \<open>Allocation\<close>

text \<open>The clusters \<^verbatim>\<open>fat_alloc_cluster\<close> looks at, in their order.\<close>

fun orbit :: "u32 \<Rightarrow> nat \<Rightarrow> u32 \<Rightarrow> u32 list" where
  "orbit nc 0 c = []"
| "orbit nc (Suc n) c = c # orbit nc n (if c + 1 \<ge> nc then 2 else c + 1)"

lemma orbit_step:
  assumes "is_cluster s c" "2 < num_clusters s"
  shows "is_cluster s (if c + 1 \<ge> num_clusters s then 2 else c + 1)"
proof -
  have "unat c + 1 < 2 ^ 32"
    using assms(1) unat_u32 [of "num_clusters s"] by (simp add: is_cluster_def word_less_nat_alt)
  then have "unat (c + 1) = unat c + 1" by (simp add: unat_word_ariths)
  with assms show ?thesis by (simp add: is_cluster_def word_less_nat_alt word_le_nat_alt)
qed

lemma orbit_cluster: "is_cluster s c \<Longrightarrow> 2 < num_clusters s \<Longrightarrow> d \<in> set (orbit (num_clusters s) n c) \<Longrightarrow> is_cluster s d"
  by (induction n arbitrary: c) (use orbit_step in \<open>auto simp del: if_split\<close>)

lemma chain_nonzero:
  assumes "chain f a xs" "\<forall>x\<in>set xs. is_cluster s x" "x \<in> set xs"
  shows "f x \<noteq> 0"
proof
  assume z: "f x = 0"
  obtain as bs where xs: "xs = as @ x # bs" using assms(3) by (auto simp: in_set_conv_decomp)
  then have "chain f 0 bs" using chain_drop [of f a as x bs] assms(1) z by simp
  then show False using xs assms(2) by (cases bs) (auto simp: CLU_EOF_def is_cluster_def)
qed

text \<open>One turn on a free cluster: it becomes the new last cluster of the chain.\<close>

lemma link_free:
  assumes s: "clusters_ok s" "is_cluster s c" "fat_val s c = 0"
    and ch: "chain (fat_val s) (chain_dir ch) xs" "\<forall>x\<in>set xs. is_cluster s x" "xs = [] \<or> l = last xs"
  obtains t u ch' where "run_state (FAT_write c CLU_EOF) s = (Some (), t)"
    "run_state (if chain_dir ch = CLU_EOF then ret (Some (ch\<lparr>chain_dir := c\<rparr>))
                else do { r \<leftarrow> FAT_write l c; ret (map_option (\<lambda>_. ch) r) }) t = (Some ch', u)"
    "clu_step s u" "chain (fat_val u) (chain_dir ch') (xs @ [c])" "c \<notin> set xs"
    "\<And>d. is_cluster s d \<Longrightarrow> d \<notin> set (xs @ [c]) \<Longrightarrow> fat_val u d = fat_val s d"
    "clu_srch_ptr u = clu_srch_ptr s" "used_clusters u = used_clusters s" "chain_size ch' = chain_size ch" "chain_flags ch' = chain_flags ch"
proof -
  obtain t where t: "run_state (FAT_write c CLU_EOF) s = (Some (), t)" "clu_step s t"
    "\<And>d. is_cluster s d \<Longrightarrow> fat_val t d = (if d = c then CLU_EOF else fat_val s d)"
    "clu_srch_ptr t = clu_srch_ptr s" "used_clusters t = used_clusters s"
    using clu_write_run [OF s(1,2), of CLU_EOF] unfolding fat_norm_EOF by blast
  note tf = clu_step_fields [OF t(2)] clu_step_ok [OF s(1) t(2)]
  have c: "c \<noteq> CLU_EOF" using is_cluster_not_EOF [OF s(2)] .
  have nc: "c \<notin> set xs" using chain_nonzero [OF ch(1,2)] s(3) by blast
  show thesis
  proof (cases "xs = []")
    case True
    then have "chain_dir ch = CLU_EOF" using ch(1) by simp
    then show ?thesis
      using that [of t "ch\<lparr>chain_dir := c\<rparr>" t] True t c s(2) by simp
  next
    case False
    then have d: "chain_dir ch \<noteq> CLU_EOF" using ch(1) by (cases xs) auto
    have l: "l \<in> set xs" "is_cluster s l" using False ch(2,3) by auto
    obtain u where u: "run_state (FAT_write l c) t = (Some (), u)" "clu_step t u"
      "\<And>d. is_cluster s d \<Longrightarrow> fat_val u d = (if d = l then c else fat_val t d)"
      "clu_srch_ptr u = clu_srch_ptr t" "used_clusters u = used_clusters t"
      using clu_write_run [of t l c] tf l(2) is_cluster_norm [OF s(1,2)] by metis
    have "chain ((fat_val s)(c := CLU_EOF, last xs := c)) (chain_dir ch) (xs @ [c])"
      by (rule chain_snoc [OF ch(1) False nc c])
    moreover have "chain (fat_val u) (chain_dir ch) (xs @ [c]) = chain ((fat_val s)(c := CLU_EOF, last xs := c)) (chain_dir ch) (xs @ [c])"
      by (rule chain_cong) (use u(3) t(3) s(2) ch(2,3) False in auto)
    moreover have "fat_val u d = fat_val s d" if "is_cluster s d" "d \<notin> set (xs @ [c])" for d
      using that u(3) t(3) l by auto
    ultimately show ?thesis
      using that [of t ch u] d t u clu_step_trans [OF t(2) u(2)] nc by simp
  qed
qed

lemma fat_alloc_loop_run:
  assumes "clusters_ok s" "is_cluster s c" "chain (fat_val s) (chain_dir ch) xs" "\<forall>x\<in>set xs. is_cluster s x"
    "xs = [] \<or> l = last xs" "0 < left"
  shows "\<exists>ys t ch'. run_state (fat_alloc_loop n left c l num ch) s = ((num + int (length ys), ch'), t) \<and> clu_step s t \<and>
    (\<forall>y\<in>set ys. y \<in> set (orbit (num_clusters s) n c) \<and> fat_val s y = 0) \<and> chain (fat_val t) (chain_dir ch') (xs @ ys) \<and>
    (\<forall>d. is_cluster s d \<and> d \<notin> set (xs @ ys) \<longrightarrow> fat_val t d = fat_val s d) \<and> int (length ys) \<le> left \<and>
    (int (length ys) < left \<longrightarrow> (\<forall>d\<in>set (orbit (num_clusters s) n c). fat_val s d = 0 \<longrightarrow> d \<in> set ys)) \<and>
    used_clusters t = (if used_clusters s = -1 then -1 else used_clusters s + of_int (num + int (length ys))) \<and>
    is_cluster s (clu_srch_ptr t)"
  using assms
proof (induction n arbitrary: left c l num ch s xs)
  case 0
  let ?t = "s\<lparr>clu_srch_ptr := c, used_clusters := (if used_clusters s = -1 then -1 else used_clusters s + of_int num)\<rparr>"
  have f: "fat_ok s" using 0(1) by (simp add: clusters_ok_def)
  have "run_state (fat_alloc_loop 0 left c l num ch) s = ((num + int (length []), ch), ?t)" by simp
  moreover have "clu_step s ?t" using f by (simp add: clu_step_def fat_step_upd fat_outside_def)
  moreover have "fat_val ?t = fat_val s" by (simp add: fat_val_upd)
  ultimately show ?case using 0 by (intro exI [of _ "[]"] exI [of _ ?t] exI [of _ ch]) simp
next
  case (Suc n)
  let ?nx = "if c + 1 \<ge> num_clusters s then 2 else c + 1"
  have nx: "is_cluster s ?nx" using orbit_step [OF Suc.prems(2)] Suc.prems(1) by (simp add: clusters_ok_def)
  obtain t0 where t0: "run_state (FAT_read c) s = (Some (fat_val s c), t0)" "clu_step s t0" "fat_val t0 = fat_val s"
    "clu_srch_ptr t0 = clu_srch_ptr s" "used_clusters t0 = used_clusters s"
    using clu_read_run [OF Suc.prems(1,2)] .
  note f0 = clu_step_fields [OF t0(2)] clu_step_ok [OF Suc.prems(1) t0(2)]
  show ?case
  proof (cases "fat_val s c = 0")
    case False
    obtain ys t ch' where r: "run_state (fat_alloc_loop n left ?nx l num ch) t0 = ((num + int (length ys), ch'), t)" "clu_step t0 t"
      "\<forall>y\<in>set ys. y \<in> set (orbit (num_clusters s) n ?nx) \<and> fat_val s y = 0" "chain (fat_val t) (chain_dir ch') (xs @ ys)"
      "\<forall>d. is_cluster s d \<and> d \<notin> set (xs @ ys) \<longrightarrow> fat_val t d = fat_val s d" "int (length ys) \<le> left"
      "int (length ys) < left \<longrightarrow> (\<forall>d\<in>set (orbit (num_clusters s) n ?nx). fat_val s d = 0 \<longrightarrow> d \<in> set ys)"
      "used_clusters t = (if used_clusters s = -1 then -1 else used_clusters s + of_int (num + int (length ys)))"
      "is_cluster s (clu_srch_ptr t)"
      using Suc.IH [of t0 ?nx ch xs l left num, unfolded f0(1-7) t0(3-5), OF f0(8) nx Suc.prems(3-6)]
      by (elim exE conjE) (rule that)
    show ?thesis
      by (intro exI [of _ ys] exI [of _ t] exI [of _ ch'])
        (use r t0 False f0 clu_step_trans [OF t0(2) r(2)] in \<open>simp del: if_split\<close>)
  next
    case True
    obtain t1 t2 ch2 where l: "run_state (FAT_write c CLU_EOF) t0 = (Some (), t1)"
      "run_state (if chain_dir ch = CLU_EOF then ret (Some (ch\<lparr>chain_dir := c\<rparr>))
                else do { r \<leftarrow> FAT_write l c; ret (map_option (\<lambda>_. ch) r) }) t1 = (Some ch2, t2)"
      "clu_step t0 t2" "chain (fat_val t2) (chain_dir ch2) (xs @ [c])" "c \<notin> set xs"
      "\<And>d. is_cluster s d \<Longrightarrow> d \<notin> set (xs @ [c]) \<Longrightarrow> fat_val t2 d = fat_val s d"
      "clu_srch_ptr t2 = clu_srch_ptr t0" "used_clusters t2 = used_clusters t0"
      by (rule link_free [of t0 c ch xs l, unfolded f0 t0(3), OF f0(8) Suc.prems(2) True Suc.prems(3-5)]) (rule that, assumption+)
    note st = clu_step_trans [OF t0(2) l(3)]
    note f2 = clu_step_fields [OF st] clu_step_ok [OF Suc.prems(1) st]
    show ?thesis
    proof (cases "left = 1")
      case l1: True
      let ?t = "t2\<lparr>clu_srch_ptr := c, used_clusters := (if used_clusters s = -1 then -1 else used_clusters s + of_int (num + 1))\<rparr>"
      have run: "run_state (fat_alloc_loop (Suc n) left c l num ch) s = ((num + int (length [c]), ch2), ?t)"
        using t0 True l l1 by simp
      have "fat_ok t2" using f2 by (simp add: clusters_ok_def)
      then have "clu_step t2 ?t" by (simp add: clu_step_def fat_step_upd fat_outside_def)
      from clu_step_trans [OF st this] have st': "clu_step s ?t" .
      have v: "fat_val ?t = fat_val t2" by (simp add: fat_val_upd)
      show ?thesis
        by (intro exI [of _ "[c]"] exI [of _ ?t] exI [of _ ch2] conjI)
          (use run st' v l f0 t0 True l1 Suc.prems(2) in \<open>simp_all del: fat_alloc_loop.simps\<close>)
    next
      case False
      have xc: "\<forall>x\<in>set (xs @ [c]). is_cluster s x" using Suc.prems(2,4) by simp
      obtain ys t ch' where r: "run_state (fat_alloc_loop n (left - 1) ?nx c (num + 1) ch2) t2 = ((num + 1 + int (length ys), ch'), t)"
        "clu_step t2 t" "\<forall>y\<in>set ys. y \<in> set (orbit (num_clusters s) n ?nx) \<and> fat_val t2 y = 0"
        "chain (fat_val t) (chain_dir ch') ((xs @ [c]) @ ys)"
        "\<forall>d. is_cluster s d \<and> d \<notin> set ((xs @ [c]) @ ys) \<longrightarrow> fat_val t d = fat_val t2 d" "int (length ys) \<le> left - 1"
        "int (length ys) < left - 1 \<longrightarrow> (\<forall>d\<in>set (orbit (num_clusters s) n ?nx). fat_val t2 d = 0 \<longrightarrow> d \<in> set ys)"
        "used_clusters t = (if used_clusters s = -1 then -1 else used_clusters s + of_int (num + 1 + int (length ys)))"
        "is_cluster s (clu_srch_ptr t)"
        using Suc.IH [of t2 ?nx ch2 "xs @ [c]" c "left - 1" "num + 1", unfolded f2(1-7) l(7,8) t0(4,5), OF f2(8) nx l(4) xc]
          False Suc.prems(6) by (elim meta_impE exE conjE) (simp, simp, rule that)
      have nz: "fat_val t2 x \<noteq> 0" if "x \<in> set (xs @ [c])" for x by (rule chain_nonzero [OF l(4) xc that])
      have cl: "is_cluster s y" if "y \<in> set (orbit (num_clusters s) n ?nx)" for y
        by (rule orbit_cluster [OF nx _ that]) (use Suc.prems(1) in \<open>simp add: clusters_ok_def\<close>)
      have o: "orbit (num_clusters s) (Suc n) c = c # orbit (num_clusters s) n ?nx" by simp
      have run: "run_state (fat_alloc_loop (Suc n) left c l num ch) s = ((num + int (length (c # ys)), ch'), t)"
        using t0 True l r False f2 by (simp del: if_split)
      have same: "fat_val t2 d = fat_val s d" if "is_cluster s d" "d \<notin> set (xs @ [c])" for d using that l(6) f0 t0(3) by simp
      have new: "\<forall>y\<in>set (c # ys). y \<in> set (orbit (num_clusters s) (Suc n) c) \<and> fat_val s y = 0"
        unfolding o using r(3) True cl nz same by (metis list.set_intros set_ConsD)
      have all: "\<forall>d\<in>set (orbit (num_clusters s) (Suc n) c). fat_val s d = 0 \<longrightarrow> d \<in> set (c # ys)" if "int (length (c # ys)) < left"
      proof (intro ballI impI)
        fix d assume d: "d \<in> set (orbit (num_clusters s) (Suc n) c)" "fat_val s d = 0"
        show "d \<in> set (c # ys)"
        proof (cases "d = c")
          case dc: False
          have "d \<notin> set xs" using chain_nonzero [OF Suc.prems(3,4)] d(2) by blast
          then show ?thesis using dc d cl same r(7) that unfolding o by auto
        qed simp
      qed
      show ?thesis
        by (intro exI [of _ "c # ys"] exI [of _ t] exI [of _ ch'] conjI impI)
          (use run new all r same clu_step_trans [OF st r(2)] in \<open>simp_all del: fat_alloc_loop.simps orbit.simps if_split add: algebra_simps\<close>)
    qed
  qed
qed

lemma set_orbit_low: "n \<le> unat nc - unat c \<Longrightarrow> d \<in> set (orbit nc n c) \<longleftrightarrow> unat c \<le> unat d \<and> unat d < unat c + n"
proof (induction n arbitrary: c)
  case 0
  then show ?case by simp
next
  case (Suc n)
  show ?case
  proof (cases n)
    case 0
    then show ?thesis by (auto simp: word_unat_eq_iff)
  next
    case (Suc m)
    have "unat c + 1 < 2 ^ 32" using Suc.prems Suc unat_u32 [of nc] by simp
    then have u: "unat (c + 1) = unat c + 1" by (simp add: unat_word_ariths)
    then have "\<not> c + 1 \<ge> nc" using Suc.prems Suc by (simp add: word_le_nat_alt)
    then have "d \<in> set (orbit nc (Suc n) c) \<longleftrightarrow> d = c \<or> d \<in> set (orbit nc n (c + 1))" by simp
    also have "\<dots> \<longleftrightarrow> d = c \<or> unat c + 1 \<le> unat d \<and> unat d < unat c + 1 + n"
      using Suc.IH [of "c + 1"] Suc.prems u by simp
    finally show ?thesis by (auto simp: word_unat_eq_iff)
  qed
qed

lemma orbit_append:
  "unat c < unat nc \<Longrightarrow> orbit nc (unat nc - unat c + m) c = orbit nc (unat nc - unat c) c @ orbit nc m 2"
proof (induction "unat nc - unat c" arbitrary: c)
  case 0
  then show ?case by simp
next
  case (Suc n)
  have lt: "unat c + 1 < 2 ^ 32" using Suc.prems unat_u32 [of nc] by simp
  then have u: "unat (c + 1) = unat c + 1" by (simp add: unat_word_ariths)
  show ?case
  proof (cases "c + 1 \<ge> nc")
    case True
    then have "unat nc - unat c = 1" using Suc.prems u by (simp add: word_le_nat_alt)
    then show ?thesis using True by simp
  next
    case False
    then have l: "unat (c + 1) < unat nc" by (simp add: word_le_nat_alt)
    have n: "unat nc - unat c = Suc (unat nc - unat (c + 1))" using u l by simp
    have "n = unat nc - unat (c + 1)" using Suc.hyps(2) n by simp
    from Suc.hyps(1) [OF this l] show ?thesis unfolding n using False by simp
  qed
qed

text \<open>All clusters are looked at.\<close>

lemma set_orbit:
  assumes "is_cluster s c" "2 < num_clusters s" "is_cluster s d"
  shows "d \<in> set (orbit (num_clusters s) (unat (num_clusters s) - 2) c)"
proof -
  let ?nc = "num_clusters s"
  have c: "2 \<le> unat c" "unat c < unat ?nc" and d: "2 \<le> unat d" "unat d < unat ?nc"
    using assms by (simp_all add: is_cluster_def word_le_nat_alt word_less_nat_alt)
  have "unat ?nc - 2 = unat ?nc - unat c + (unat c - 2)" using c by simp
  then have "set (orbit ?nc (unat ?nc - 2) c) = set (orbit ?nc (unat ?nc - unat c) c) \<union> set (orbit ?nc (unat c - 2) 2)"
    by (simp only: orbit_append [OF c(2)] set_append)
  then show ?thesis using set_orbit_low [of "unat ?nc - unat c" ?nc c d] set_orbit_low [of "unat c - 2" ?nc 2 d] c d by auto
qed

lemma clu_step_bufs: "clu_step s t \<Longrightarrow> fat_outside s x \<Longrightarrow> bufs t x = bufs s x"
  by (simp add: clu_step_def)

text \<open>
  C10: allocation on a FAT volume.  \<^verbatim>\<open>fat_alloc_cluster\<close> makes a chain of clusters that were free, none twice, returns their number, and
  leaves the chains of all other clusters and every block outside of the table alone; it gives fewer clusters than it is asked
  for only when no free cluster is left.  The counter of used clusters, when known, grows by the number of clusters.
\<close>

theorem fat_alloc_cluster_correct:
  assumes "clusters_ok s" "is_cluster s (clu_srch_ptr s)" "chain_dir ch = CLU_EOF \<or> 2 \<le> chain_dir ch" "0 < n"
  shows "\<exists>xs t ch'. run_state (fat_alloc_cluster n ch) s = ((int (length xs), ch'), t) \<and> clusters_ok t \<and> is_cluster t (clu_srch_ptr t) \<and>
    chain (fat_val t) (chain_dir ch') xs \<and> distinct xs \<and> (\<forall>x\<in>set xs. is_cluster s x \<and> fat_val s x = 0) \<and>
    (\<forall>d. is_cluster s d \<and> d \<notin> set xs \<longrightarrow> fat_val t d = fat_val s d) \<and> (\<forall>x. fat_outside s x \<longrightarrow> bufs t x = bufs s x) \<and>
    int (length xs) \<le> n \<and> (int (length xs) < n \<longrightarrow> (\<forall>d. is_cluster s d \<longrightarrow> fat_val t d \<noteq> 0)) \<and>
    used_clusters t = (if used_clusters s = -1 then -1 else used_clusters s + of_nat (length xs))"
proof -
  let ?s = "s\<lparr>sb_dirty := True\<rparr>" and ?nc = "num_clusters s"
  define c where "c = (if chain_dir ch = CLU_EOF then clu_srch_ptr s else if chain_dir ch \<ge> ?nc then 2 else chain_dir ch)"
  have nc: "2 < ?nc" and f: "fat_ok s" using assms(1) by (simp_all add: clusters_ok_def)
  have st: "clu_step s ?s" using f by (simp add: clu_step_def fat_step_upd fat_outside_def)
  have c: "is_cluster s c" using assms(2,3) nc by (auto simp: c_def is_cluster_def)
  obtain ys t ch' where r: "run_state (fat_alloc_loop (unat ?nc - 2) n c CLU_EOF 0 (ch\<lparr>chain_dir := CLU_EOF\<rparr>)) ?s = ((0 + int (length ys), ch'), t)"
    "clu_step ?s t" "\<forall>y\<in>set ys. y \<in> set (orbit ?nc (unat ?nc - 2) c) \<and> fat_val s y = 0" "chain (fat_val t) (chain_dir ch') ([] @ ys)"
    "\<forall>d. is_cluster s d \<and> d \<notin> set ([] @ ys) \<longrightarrow> fat_val t d = fat_val s d" "int (length ys) \<le> n"
    "int (length ys) < n \<longrightarrow> (\<forall>d\<in>set (orbit ?nc (unat ?nc - 2) c). fat_val s d = 0 \<longrightarrow> d \<in> set ys)"
    "used_clusters t = (if used_clusters ?s = -1 then -1 else used_clusters ?s + of_int (0 + int (length ys)))" "is_cluster s (clu_srch_ptr t)"
    using fat_alloc_loop_run [of ?s c "ch\<lparr>chain_dir := CLU_EOF\<rparr>" "[]" CLU_EOF n "unat ?nc - 2" 0,
      unfolded clu_step_fields [OF st] fat_val_upd, OF clu_step_ok [OF assms(1) st] c _ _ _ assms(4)]
    by (elim meta_impE exE conjE) (simp, simp, simp, rule that)
  note s' = clu_step_trans [OF st r(2)]
  have new: "\<forall>x\<in>set ys. is_cluster s x \<and> fat_val s x = 0" using r(3) orbit_cluster [OF c nc] by blast
  have "\<forall>d. is_cluster s d \<longrightarrow> fat_val t d \<noteq> 0" if "int (length ys) < n"
  proof (intro allI impI)
    fix d assume d: "is_cluster s d"
    show "fat_val t d \<noteq> 0"
    proof (cases "d \<in> set ys")
      case True
      with r(4) new show ?thesis using chain_nonzero [of "fat_val t" _ ys s d] by auto
    next
      case False
      then have "fat_val s d \<noteq> 0" using r(7) that set_orbit [OF c nc d] by blast
      with False r(5) d show ?thesis by simp
    qed
  qed
  moreover have "run_state (fat_alloc_cluster n ch) s = ((int (length ys), ch'), t)"
    using r(1) by (simp add: fat_alloc_cluster_def set_sb_dirty_def c_def)
  ultimately show ?thesis
    using clu_step_ok [OF assms(1) s'] clu_step_fields(5) [OF s'] r new clu_step_bufs [OF s'] chain_distinct [of "fat_val t" _ ys]
    by (intro exI [of _ ys] exI [of _ t] exI [of _ ch']) auto
qed

section \<open>Release\<close>

lemma cluster_list_length:
  assumes "distinct xs" "\<forall>x\<in>set xs. is_cluster s x"
  shows "length xs \<le> unat (num_clusters s) - 2"
proof -
  have "unat ` set xs \<subseteq> {2..<unat (num_clusters s)}"
    using assms(2) by (auto simp: is_cluster_def word_le_nat_alt word_less_nat_alt)
  then have "card (unat ` set xs) \<le> unat (num_clusters s) - 2"
    using card_mono [of "{2..<unat (num_clusters s)}"] by simp
  moreover have "card (unat ` set xs) = length xs"
    using distinct_card [OF assms(1)] card_image [of unat "set xs"] by (simp add: inj_on_def word_unat_eq_iff)
  ultimately show ?thesis by simp
qed

lemma fat_free_loop_run:
  assumes "clusters_ok s" "\<not> dev_ejected s" "chain (fat_val s) c xs" "xs \<noteq> []" "\<forall>x\<in>set xs. is_cluster s x" "length xs \<le> n"
  obtains t where "run_state (fat_free_loop n False c num) s = (num + int (length xs), t)" "clu_step s t"
    "\<And>d. is_cluster s d \<Longrightarrow> fat_val t d = (if d \<in> set xs then 0 else fat_val s d)"
    "clu_srch_ptr t = clu_srch_ptr s" "used_clusters t = used_clusters s"
  using assms
proof (induction xs arbitrary: c n num s thesis)
  case Nil
  then show ?case by simp
next
  case (Cons x xs)
  obtain m where n: "n = Suc m" using Cons.prems(7) by (cases n) auto
  have c: "c = x" "is_cluster s c" and tl: "chain (fat_val s) (fat_val s c) xs" using Cons.prems(4,6) by auto
  have nx: "c \<notin> set xs" using chain_distinct [OF Cons.prems(4)] c(1) by simp
  obtain t1 where t1: "run_state (FAT_read c) s = (Some (fat_val s c), t1)" "clu_step s t1" "fat_val t1 = fat_val s"
    "clu_srch_ptr t1 = clu_srch_ptr s" "used_clusters t1 = used_clusters s"
    using clu_read_run [OF Cons.prems(2) c(2)] .
  note f1 = clu_step_fields [OF t1(2)] clu_step_ok [OF Cons.prems(2) t1(2)]
  obtain t2 where t2: "run_state (FAT_write c 0) t1 = (Some (), t2)" "clu_step t1 t2"
    "\<And>d. is_cluster s d \<Longrightarrow> fat_val t2 d = (if d = c then 0 else fat_val s d)"
    "clu_srch_ptr t2 = clu_srch_ptr s" "used_clusters t2 = used_clusters s"
    by (rule clu_write_run [of t1 c 0, unfolded f1 t1(3-5) fat_norm_EOF, OF f1(8) c(2)]) (rule that)
  note st = clu_step_trans [OF t1(2) t2(2)]
  note f2 = clu_step_fields [OF st] clu_step_ok [OF Cons.prems(2) st]
  show ?case
  proof (cases "fat_val s c = CLU_EOF")
    case True
    then have xs: "xs = []" using tl by (cases xs) auto
    show ?thesis
      by (rule Cons.prems(1) [OF _ st _ t2(4,5)]) (use t1 t2 xs c True Cons.prems(3) n in simp_all)
  next
    case False
    have xs: "xs \<noteq> []" using tl False by auto
    have tl2: "chain (fat_val t2) (fat_val s c) xs"
      by (subst chain_cong [of xs "fat_val t2" "fat_val s"]) (use tl t2(3) Cons.prems(6) nx in auto)
    show ?thesis
    proof (rule Cons.IH [of m "fat_val s c" "num + 1" t2])
      show "clusters_ok t2" "\<not> dev_ejected t2" "chain (fat_val t2) (fat_val s c) xs" "xs \<noteq> []" "\<forall>x\<in>set xs. is_cluster t2 x" "length xs \<le> m"
        using f2 Cons.prems tl2 xs n by simp_all
      fix t assume t: "run_state (fat_free_loop m False (fat_val s c) (num + 1)) t2 = (num + 1 + int (length xs), t)" "clu_step t2 t"
        "\<And>d. is_cluster t2 d \<Longrightarrow> fat_val t d = (if d \<in> set xs then 0 else fat_val t2 d)"
        "clu_srch_ptr t = clu_srch_ptr t2" "used_clusters t = used_clusters t2"
      show thesis
        by (rule Cons.prems(1) [of t]) (use t t1 t2 False n c f2 Cons.prems(3) clu_step_trans [OF st t(2)] in simp_all)
    qed
  qed
qed

text \<open>
  C17: release on a FAT volume.  \<^verbatim>\<open>fat_free_cluster\<close> of a chain ends, frees just the clusters of the chain, leaves every
  other entry and every block outside of the table alone, and takes their number off the counter of used clusters.
\<close>

theorem fat_free_cluster_correct:
  assumes "clusters_ok s" "\<not> dev_ejected s" "chain (fat_val s) (chain_dir ch) xs" "xs \<noteq> []" "\<forall>x\<in>set xs. is_cluster s x" "0 < chain_size ch"
  shows "\<exists>t. run_state (fat_free_cluster ch False) s = ((), t) \<and> clusters_ok t \<and>
    (\<forall>d. is_cluster s d \<longrightarrow> fat_val t d = (if d \<in> set xs then 0 else fat_val s d)) \<and> (\<forall>x. fat_outside s x \<longrightarrow> bufs t x = bufs s x) \<and>
    used_clusters t = (if used_clusters s = -1 then -1 else used_clusters s - of_nat (length xs)) \<and> ub t = ub s"
proof -
  let ?s = "s\<lparr>sb_dirty := True\<rparr>"
  have f: "fat_ok s" using assms(1) by (simp add: clusters_ok_def)
  have st: "clu_step s ?s" using f by (simp add: clu_step_def fat_step_upd fat_outside_def)
  have d: "chain_dir ch = hd xs" "is_cluster s (chain_dir ch)" using assms(3-5) by (cases xs; simp)+
  then have nz: "chain_dir ch \<noteq> 0" "chain_dir ch \<noteq> CLU_EOF" using is_cluster_not_EOF [OF d(2)] by (auto simp: is_cluster_def)
  have "length xs \<le> CHAIN_FUEL"
    using cluster_list_length [OF chain_distinct [OF assms(3)] assms(5)] unat_u32 [of "num_clusters s"] by (simp add: CHAIN_FUEL_def)
  note free = fat_free_loop_run [of ?s "chain_dir ch" xs CHAIN_FUEL 0, unfolded clu_step_fields [OF st] fat_val_upd,
      OF clu_step_ok [OF assms(1) st] assms(2-5) this]
  obtain t where t: "run_state (fat_free_loop CHAIN_FUEL False (chain_dir ch) 0) ?s = (0 + int (length xs), t)" "clu_step ?s t"
    "\<And>d. is_cluster s d \<Longrightarrow> fat_val t d = (if d \<in> set xs then 0 else fat_val s d)" "used_clusters t = used_clusters s"
    by (rule free) (rule that, assumption+, simp)
  let ?t = "t\<lparr>used_clusters := (if used_clusters t = -1 then -1 else used_clusters t - of_int (int (length xs)))\<rparr>"
  have "fat_ok t" using t(2) by (simp add: clu_step_def)
  then have "clu_step t ?t" by (simp add: clu_step_def fat_step_upd fat_outside_def)
  note s' = clu_step_trans [OF clu_step_trans [OF st t(2)] this]
  have run: "run_state (fat_free_cluster ch False) s = ((), ?t)"
    using t(1) nz assms(6) by (cases "used_clusters t = -1") (simp_all add: fat_free_cluster_def set_sb_dirty_def sub_used_def)
  have v: "fat_val ?t d = (if d \<in> set xs then 0 else fat_val s d)" if "is_cluster s d" for d
    using t(3) [OF that] by (simp add: fat_val_upd)
  have u: "used_clusters ?t = (if used_clusters s = -1 then -1 else used_clusters s - of_nat (length xs))" using t(4) by simp
  show ?thesis
    by (rule exI [of _ ?t], intro conjI allI impI run v u clu_step_bufs [OF s'] clu_step_ok [OF assms(1) s'] clu_step_fields(7) [OF s'])
qed

section \<open>Walks\<close>

lemma count_chain_loop_run:
  assumes "clusters_ok s" "chain (fat_val s) c xs" "xs \<noteq> []" "\<forall>x\<in>set xs. is_cluster s x" "length xs \<le> n"
  obtains t where "run_state (count_chain_loop n c k) s = (k + int (length xs), t)" "clu_step s t" "fat_val t = fat_val s"
  using assms
proof (induction xs arbitrary: c n k s thesis)
  case Nil
  then show ?case by simp
next
  case (Cons x xs)
  obtain m where n: "n = Suc m" using Cons.prems(6) by (cases n) auto
  have c: "c = x" "is_cluster s c" and tl: "chain (fat_val s) (fat_val s c) xs" using Cons.prems(3,5) by auto
  obtain t1 where t1: "run_state (FAT_read c) s = (Some (fat_val s c), t1)" "clu_step s t1" "fat_val t1 = fat_val s"
    using clu_read_run [OF Cons.prems(2) c(2)] .
  note f1 = clu_step_fields [OF t1(2)] clu_step_ok [OF Cons.prems(2) t1(2)]
  show ?case
  proof (cases "fat_val s c = CLU_EOF")
    case True
    then have "xs = []" using tl by (cases xs) auto
    with True t1 n show ?thesis using Cons.prems(1) [of t1] by simp
  next
    case False
    then have "xs \<noteq> []" using tl by auto
    then show ?thesis
      using Cons.IH [of m "fat_val s c" "k + 1" t1] Cons.prems f1 t1 tl False n clu_step_trans [OF t1(2)]
      by (simp add: algebra_simps) metis
  qed
qed

lemma last_loop_run:
  assumes "clusters_ok s" "\<not> dev_ejected s" "chain (fat_val s) c xs" "xs \<noteq> []" "\<forall>x\<in>set xs. is_cluster s x" "length xs \<le> n"
  obtains t where "run_state (last_loop n c) s = (last xs, t)" "clu_step s t" "fat_val t = fat_val s"
  using assms
proof (induction xs arbitrary: c n s thesis)
  case Nil
  then show ?case by simp
next
  case (Cons x xs)
  obtain m where n: "n = Suc m" using Cons.prems(7) by (cases n) auto
  have c: "c = x" "is_cluster s c" and tl: "chain (fat_val s) (fat_val s c) xs" using Cons.prems(4,6) by auto
  obtain t1 where t1: "run_state (FAT_read c) s = (Some (fat_val s c), t1)" "clu_step s t1" "fat_val t1 = fat_val s"
    using clu_read_run [OF Cons.prems(2) c(2)] .
  note f1 = clu_step_fields [OF t1(2)] clu_step_ok [OF Cons.prems(2) t1(2)]
  show ?case
  proof (cases "fat_val s c = CLU_EOF")
    case True
    then have "xs = []" using tl by (cases xs) auto
    with True t1 n c show ?thesis using Cons.prems(1) [of t1] by simp
  next
    case False
    then have "xs \<noteq> []" using tl by auto
    then show ?thesis
      using Cons.IH [of m "fat_val s c" t1] Cons.prems f1 t1 tl False n clu_step_trans [OF t1(2)] by simp metis
  qed
qed

lemma clu_read_step:
  assumes "clusters_ok s" "is_cluster s c"
  obtains t where "run_state (FAT_read c) s = (Some (fat_val s c), t)" "fat_step (bufs s) s t"
  using FAT_read_run [OF _ is_cluster_loc [OF assms]] assms(1) by (auto simp: clusters_ok_def)

lemma fat_step_bufs:
  assumes "clusters_ok s" "fat_step (bufs s) s t"
  shows "fat_val t = fat_val s" "is_cluster t = is_cluster s" "clusters_ok t"
proof -
  have "fat_byte t = fat_byte s" by (rule ext) (simp add: fat_byte_def fat_step_fields [OF assms(2)])
  then show "fat_val t = fat_val s" by (intro ext) (simp add: fat_val_def fat_step_fields [OF assms(2)])
  have c: "clu_step s t" by (rule fat_step_clu [OF assms(2)]) simp
  show "is_cluster t = is_cluster s" "clusters_ok t" by (rule clu_step_fields [OF c], rule clu_step_ok [OF assms(1) c])
qed

lemma walk_chain_loop_run:
  assumes "clusters_ok s" "chain (fat_val s) c xs" "k < length xs" "\<forall>x\<in>set xs. is_cluster s x"
  obtains t where "run_state (walk_chain_loop k c) s = (Some (xs ! k), t)" "fat_step (bufs s) s t"
  using assms
proof (induction k arbitrary: c xs s thesis)
  case 0
  then have "c = xs ! 0" by (cases xs) auto
  moreover have "fat_step (bufs s) s s" using 0(2) by (simp add: clusters_ok_def fat_step_refl)
  ultimately show ?case using 0(1) [of s] by simp
next
  case (Suc k)
  from Suc.prems(4) obtain x xs' where xs: "xs = x # xs'" by (cases xs) auto
  have c: "c = x" "is_cluster s c" and tl: "chain (fat_val s) (fat_val s c) xs'" using Suc.prems xs by auto
  obtain t1 where t1: "run_state (FAT_read c) s = (Some (fat_val s c), t1)" "fat_step (bufs s) s t1"
    using clu_read_step [OF Suc.prems(2) c(2)] .
  note f1 = fat_step_bufs [OF Suc.prems(2) t1(2)]
  show ?case
  proof (rule Suc.IH [where c = "fat_val s c" and s = t1 and xs = xs'])
    fix t assume "run_state (walk_chain_loop k (fat_val s c)) t1 = (Some (xs' ! k), t)" "fat_step (bufs t1) t1 t"
    then show thesis using Suc.prems(1) [of t] t1 xs fat_step_trans [OF t1(2)] fat_step_fields(1) [OF t1(2)] by simp
  qed (use f1 tl xs Suc.prems in simp_all)
qed

text \<open>
  C19: the walks over a chain end and find what they are for.  On a FAT chain, \<^verbatim>\<open>count_num_clusters\<close> returns its length,
  \<^verbatim>\<open>find_last_cluster\<close> its last cluster, and \<^verbatim>\<open>walk_fat_chain\<close> the cluster that holds a byte offset; none of them changes a value
  of the table.
\<close>

theorem chain_walks_correct:
  assumes "clusters_ok s" "\<not> dev_ejected s" "chain (fat_val s) (chain_dir ch) xs" "\<forall>x\<in>set xs. is_cluster s x" "chain_flags ch \<noteq> 3"
    "0 \<le> off" "nat off < length xs * 2 ^ cluster_size_bits s"
  shows "(\<exists>t. run_state (count_num_clusters ch) s = (int (length xs), t) \<and> fat_val t = fat_val s) \<and>
    (\<exists>t. run_state (find_last_cluster ch) s = (last xs, t) \<and> fat_val t = fat_val s) \<and>
    (\<exists>t. run_state (walk_fat_chain ch off) s = (Some (xs ! (nat off div 2 ^ cluster_size_bits s)), t) \<and> fat_val t = fat_val s)"
proof (intro conjI)
  have xs: "xs \<noteq> []" using assms(7) by auto
  then have d: "is_cluster s (chain_dir ch)" using assms(3,4) by (cases xs) auto
  then have nz: "chain_dir ch \<noteq> 0" "chain_dir ch \<noteq> CLU_EOF" using is_cluster_not_EOF [OF d] by (auto simp: is_cluster_def)
  have len: "length xs \<le> unat (num_clusters s) - 2" by (rule cluster_list_length [OF chain_distinct [OF assms(3)] assms(4)])
  then have len2: "length xs \<le> CHAIN_FUEL" using unat_u32 [of "num_clusters s"] by (simp add: CHAIN_FUEL_def)
  show "\<exists>t. run_state (count_num_clusters ch) s = (int (length xs), t) \<and> fat_val t = fat_val s"
    using count_chain_loop_run [OF assms(1,3) xs assms(4) len, of 0] nz assms(5) by (simp add: count_num_clusters_def) metis
  show "\<exists>t. run_state (find_last_cluster ch) s = (last xs, t) \<and> fat_val t = fat_val s"
    using last_loop_run [OF assms(1-3) xs assms(4) len2] assms(5) by (simp add: find_last_cluster_def) metis
  have "nat off div 2 ^ cluster_size_bits s < length xs" using assms(7) by (simp add: less_mult_imp_div_less)
  moreover have "nat (drop_bit (cluster_size_bits s) off) = nat off div 2 ^ cluster_size_bits s"
    using assms(6) by (simp add: drop_bit_eq_div nat_div_distrib nat_power_eq)
  ultimately show "\<exists>t. run_state (walk_fat_chain ch off) s = (Some (xs ! (nat off div 2 ^ cluster_size_bits s)), t) \<and> fat_val t = fat_val s"
    using walk_chain_loop_run [OF assms(1,3) _ assms(4)] fat_step_bufs(1) [OF assms(1)] assms(5) by (simp add: walk_fat_chain_def) metis
qed

section \<open>On the sample volume\<close>

lemma clusters_ok_ready: "(\<And>b. length (bs b) = 512) \<Longrightarrow> clusters_ok (ready FAT16 bs)"
  by (auto simp: clusters_ok_def fat_ok_ready is_cluster_def fat_limit_def vol_types word_less_nat_alt intro!: loc_ok_ready)

text \<open>A FAT16 with the chain of the clusters 5 and 6.\<close>

definition two_chain :: "u32 \<Rightarrow> u8 list" where
  "two_chain = zeros(1 := (replicate 512 0)[10 := 6, 12 := 0xFF, 13 := 0xFF])"

lemma two_chain_chain: "chain (fat_val (ready FAT16 two_chain)) 5 [5, 6]"
  by (simp add: fat_val_def fat_raw_def fat_pos_def fat_byte_def fat_sector_def two_chain_def fat_norm_def vol_types GET16_def
      CLU_EOF_def Let_def)

lemma two_chain_ok: "clusters_ok (ready FAT16 two_chain)"
  by (rule clusters_ok_ready) (simp add: two_chain_def)

lemma two_chain_clusters: "\<forall>x\<in>set [5, 6]. is_cluster (ready FAT16 two_chain) x"
  by (simp add: is_cluster_def)

lemma fat_alloc_cluster_correct_witness:
  "\<exists>r ch t. run_state (fat_alloc_cluster 3 \<lparr>chain_dir = CLU_EOF, chain_size = 0, chain_flags = 1\<rparr>) (ready FAT16 two_chain) = ((r, ch), t) \<and>
     r \<le> 3 \<and> fat_val t 5 = 6"
proof -
  let ?s = "ready FAT16 two_chain"
  have f: "fat_val ?s 5 = 6" using two_chain_chain by simp
  have c: "is_cluster ?s (clu_srch_ptr ?s)" "is_cluster ?s 5" by (simp_all add: is_cluster_def)
  obtain xs t ch' where r: "run_state (fat_alloc_cluster 3 \<lparr>chain_dir = CLU_EOF, chain_size = 0, chain_flags = 1\<rparr>) ?s = ((int (length xs), ch'), t)"
    "\<forall>x\<in>set xs. is_cluster ?s x \<and> fat_val ?s x = 0" "\<forall>d. is_cluster ?s d \<and> d \<notin> set xs \<longrightarrow> fat_val t d = fat_val ?s d" "int (length xs) \<le> 3"
    using fat_alloc_cluster_correct [OF two_chain_ok c(1), of "\<lparr>chain_dir = CLU_EOF, chain_size = 0, chain_flags = 1\<rparr>" 3] by auto
  have "5 \<notin> set xs" using r(2) f by auto
  then have "fat_val t 5 = 6" using r(3) c(2) f by simp
  with r show ?thesis by blast
qed

lemma fat_free_cluster_correct_witness:
  "\<exists>t. run_state (fat_free_cluster \<lparr>chain_dir = 5, chain_size = 2, chain_flags = 1\<rparr> False) (ready FAT16 two_chain) = ((), t) \<and>
     fat_val t 5 = 0 \<and> fat_val t 6 = 0"
  using fat_free_cluster_correct [OF two_chain_ok, of "\<lparr>chain_dir = 5, chain_size = 2, chain_flags = 1\<rparr>" "[5, 6]"]
    two_chain_chain two_chain_clusters by auto

lemma chain_walks_correct_witness:
  "(\<exists>t. run_state (count_num_clusters \<lparr>chain_dir = 5, chain_size = 2, chain_flags = 1\<rparr>) (ready FAT16 two_chain) = (2, t)) \<and>
   (\<exists>t. run_state (walk_fat_chain \<lparr>chain_dir = 5, chain_size = 2, chain_flags = 1\<rparr> 1500) (ready FAT16 two_chain) = (Some 6, t))"
  using chain_walks_correct [OF two_chain_ok _ _ two_chain_clusters, of "\<lparr>chain_dir = 5, chain_size = 2, chain_flags = 1\<rparr>" 1500]
    two_chain_chain by auto

end
