(* ===== verification/DentryProps.thy ===== *)
theory DentryProps
  imports Dentry Checksum
begin

text \<open>
  What the directory-entry accessors promise: the locale \<open>entry_ops\<close> (the contract of a function table), its
  extension for tables whose file and stream entries are the same 32 bytes, the interpretations for the FAT and
  the exFAT family, and the round trips of the name units.
\<close>

section \<open>The contract of an accessor table\<close>

text \<open>
  The operations come in two groups, those on the file entry (type, attribute, time) and those on the stream
  entry (flag, first cluster, size).  Within a group a stored value is read back and the other values stay.
\<close>

locale entry_ops =
  fixes F :: FS_FUNC_T
    and attr_ok :: "u32 \<Rightarrow> bool" and flag_ok :: "u8 \<Rightarrow> bool" and size_ok :: "u64 \<Rightarrow> bool"
    and mode_ok :: "time_mode \<Rightarrow> bool"
  assumes len_type: "length (set_entry_type F e t) = length e"
    and len_attr: "length (set_entry_attr F e a) = length e"
    and len_flag: "length (set_entry_flag F e f) = length e"
    and len_clu0: "length (set_entry_clu0 F e c) = length e"
    and len_size: "length (set_entry_size F e z) = length e"
    and len_time: "length (set_entry_time F e tp m) = length e"
    and attr: "length e = 32 \<Longrightarrow> attr_ok a \<Longrightarrow> get_entry_attr F (set_entry_attr F e a) = a"
    and flag: "length e = 32 \<Longrightarrow> flag_ok f \<Longrightarrow> get_entry_flag F (set_entry_flag F e f) = f"
    and clu0: "length e = 32 \<Longrightarrow> get_entry_clu0 F (set_entry_clu0 F e c) = c"
    and size: "length e = 32 \<Longrightarrow> size_ok z \<Longrightarrow> get_entry_size F (set_entry_size F e z) = z"
    and time: "length e = 32 \<Longrightarrow> mode_ok m \<Longrightarrow> valid_timestamp tp \<Longrightarrow>
        get_entry_time F (set_entry_time F e tp m) m = tp\<lparr>tm_sec := tm_sec tp AND NOT 1\<rparr>"
    and time_other: "length e = 32 \<Longrightarrow> m \<noteq> m' \<Longrightarrow>
        get_entry_time F (set_entry_time F e tp m) m' = get_entry_time F e m'"
    and time_attr: "length e = 32 \<Longrightarrow> get_entry_attr F (set_entry_time F e tp m) = get_entry_attr F e"
    and time_type: "length e = 32 \<Longrightarrow> get_entry_type F (set_entry_time F e tp m) = get_entry_type F e"
    and attr_time: "length e = 32 \<Longrightarrow> get_entry_time F (set_entry_attr F e a) m = get_entry_time F e m"
    and attr_kind: "length e = 32 \<Longrightarrow> attr_ok a \<Longrightarrow> get_entry_type F e \<in> {TYPE_FILE, TYPE_DIR} \<Longrightarrow>
        get_entry_type F (set_entry_attr F e a) = (if a AND ATTR_SUBDIR \<noteq> 0 then TYPE_DIR else TYPE_FILE)"
    and delete: "length e = 32 \<Longrightarrow> get_entry_type F e \<in> {TYPE_FILE, TYPE_DIR, TYPE_EXTEND} \<Longrightarrow>
        get_entry_type F (set_entry_type F e TYPE_DELETED) = TYPE_DELETED"
    and flag_clu0: "length e = 32 \<Longrightarrow> get_entry_clu0 F (set_entry_flag F e f) = get_entry_clu0 F e"
    and flag_size: "length e = 32 \<Longrightarrow> get_entry_size F (set_entry_flag F e f) = get_entry_size F e"
    and clu0_flag: "length e = 32 \<Longrightarrow> get_entry_flag F (set_entry_clu0 F e c) = get_entry_flag F e"
    and clu0_size: "length e = 32 \<Longrightarrow> get_entry_size F (set_entry_clu0 F e c) = get_entry_size F e"
    and size_flag: "length e = 32 \<Longrightarrow> get_entry_flag F (set_entry_size F e z) = get_entry_flag F e"
    and size_clu0: "length e = 32 \<Longrightarrow> get_entry_clu0 F (set_entry_size F e z) = get_entry_clu0 F e"
begin

lemmas lens = len_type len_attr len_flag len_clu0 len_size len_time

text \<open>The update of the stream entry after a write: flag, size, first cluster, in this order.\<close>

lemma stream_update:
  fixes c :: u32
  assumes "length g = 32" "flag_ok f" "size_ok z"
  defines "g' \<equiv> set_entry_clu0 F (set_entry_size F (set_entry_flag F g f) z) c"
  shows "length g' = 32" "get_entry_flag F g' = f" "get_entry_size F g' = z" "get_entry_clu0 F g' = c"
  using assms(1-3) unfolding g'_def
  by (simp_all add: lens flag size clu0 clu0_flag clu0_size size_flag)

text \<open>The update of the file entry after a write: modification time, then attribute.\<close>

lemma file_update:
  assumes "length e = 32" "attr_ok a" "mode_ok TM_MODIFY" "valid_timestamp tp"
    and "get_entry_type F e \<in> {TYPE_FILE, TYPE_DIR}"
  defines "e' \<equiv> set_entry_attr F (set_entry_time F e tp TM_MODIFY) a"
  shows "length e' = 32" "get_entry_attr F e' = a"
    "get_entry_type F e' = (if a AND ATTR_SUBDIR \<noteq> 0 then TYPE_DIR else TYPE_FILE)"
    "get_entry_time F e' TM_MODIFY = tp\<lparr>tm_sec := tm_sec tp AND NOT 1\<rparr>"
    "get_entry_time F e' TM_CREATE = get_entry_time F e TM_CREATE"
  using assms(1-5) unfolding e'_def
  by (simp_all add: lens attr attr_time time time_other attr_kind time_type)

end

text \<open>A table (FAT) whose file and stream entry are one entry: the groups do not disturb each other either.\<close>

locale single_entry_ops = entry_ops +
  assumes size_attr: "length e = 32 \<Longrightarrow> get_entry_attr F (set_entry_size F e z) = get_entry_attr F e"
    and size_type: "length e = 32 \<Longrightarrow> get_entry_type F (set_entry_size F e z) = get_entry_type F e"
    and size_time: "length e = 32 \<Longrightarrow> get_entry_time F (set_entry_size F e z) m = get_entry_time F e m"
    and clu0_attr: "length e = 32 \<Longrightarrow> get_entry_attr F (set_entry_clu0 F e c) = get_entry_attr F e"
    and clu0_type: "length e = 32 \<Longrightarrow> get_entry_type F (set_entry_clu0 F e c) = get_entry_type F e"
    and clu0_time: "length e = 32 \<Longrightarrow> get_entry_time F (set_entry_clu0 F e c) m = get_entry_time F e m"
    and flag_id: "set_entry_flag F e f = e"
begin

lemma single_update:
  fixes c :: u32
  assumes "length e = 32" "attr_ok a" "flag_ok f" "size_ok z" "mode_ok TM_MODIFY" "valid_timestamp tp"
  defines "e' \<equiv> set_entry_clu0 F (set_entry_size F (set_entry_flag F
      (set_entry_attr F (set_entry_time F e tp TM_MODIFY) a) f) z) c"
  shows "get_entry_attr F e' = a" "get_entry_size F e' = z" "get_entry_clu0 F e' = c"
    "get_entry_time F e' TM_MODIFY = tp\<lparr>tm_sec := tm_sec tp AND NOT 1\<rparr>"
  using assms(1-6) unfolding e'_def
  by (simp_all add: lens flag_id clu0_attr size_attr attr size clu0 clu0_size clu0_time size_time attr_time time)

end

section \<open>Timestamps\<close>

lemma uint_less_bits: "uint (x :: u16) < 2 ^ k \<Longrightarrow> bit x n \<Longrightarrow> n < k"
proof (rule ccontr)
  assume "uint x < 2 ^ k" "bit x n" "\<not> n < k"
  then have "take_bit k (uint x) = uint x" by (simp add: take_bit_int_eq_self)
  moreover have "bit (uint x) n" using \<open>bit x n\<close> bit_imp_le_length [of x n] by (simp add: bit_uint_iff)
  ultimately have "bit (take_bit k (uint x)) n" by simp
  with \<open>\<not> n < k\<close> show False by (simp add: bit_take_bit_iff)
qed

lemma unpack_pack_time:
  assumes "valid_timestamp tp"
  shows "unpack_time (pack_time tp) (pack_date tp) = tp\<lparr>tm_sec := tm_sec tp AND NOT 1\<rparr>"
proof -
  have ml: "month_len (uint (tm_year tp)) (unat (tm_mon tp)) \<le> 31" by simp
  have r: "uint (tm_sec tp) < 2 ^ 6" "uint (tm_min tp) < 2 ^ 6" "uint (tm_hour tp) < 2 ^ 5"
    "uint (tm_day tp) < 2 ^ 5" "uint (tm_mon tp) < 2 ^ 4" "uint (tm_year tp) < 2 ^ 7"
    using assms ml unfolding valid_timestamp_def by auto
  note b = r [THEN uint_less_bits]
  have t: "take_bit 5 (pack_time tp) = drop_bit 1 (tm_sec tp)"
    "take_bit 6 (drop_bit 5 (pack_time tp)) = tm_min tp" "drop_bit 11 (pack_time tp) = tm_hour tp"
    unfolding pack_time_def by (rule bit_word_eqI, auto simp: bit_simps dest: b)+
  have d: "take_bit 5 (pack_date tp) = tm_day tp"
    "take_bit 4 (drop_bit 5 (pack_date tp)) = tm_mon tp" "drop_bit 9 (pack_date tp) = tm_year tp"
    unfolding pack_date_def by (rule bit_word_eqI, auto simp: bit_simps dest: b)+
  show ?thesis
    unfolding unpack_time_def and_ones t d shift_out_low_bit by (cases tp) simp
qed

section \<open>The FAT family\<close>

definition fat_attr_ok :: "u32 \<Rightarrow> bool" where
  "fat_attr_ok a \<longleftrightarrow> a < 0x100 \<and> a AND ATTR_VOLUME = 0"

lemma nth_SET16_other: "i + 2 \<le> length p \<Longrightarrow> j < i \<or> i + 2 \<le> j \<Longrightarrow> SET16 p i v ! j = p ! j"
  by (rule f16.put_frame)

lemmas frame_simps = f16.get_put f32.get_put f64.get_put f16.get_put_disjoint f32.get_put_disjoint
  f64.get_put_disjoint f16.put_frame f32.put_frame f64.put_frame

lemma GET16_update: "k < i \<or> i + 2 \<le> k \<Longrightarrow> GET16 (p[k := x]) i = GET16 p i"
  by (rule f16.get_cong) auto

lemma GET32_update: "k < i \<or> i + 4 \<le> k \<Longrightarrow> GET32 (p[k := x]) i = GET32 p i"
  by (rule f32.get_cong) auto

lemma GET64_update: "k < i \<or> i + 8 \<le> k \<Longrightarrow> GET64 (p[k := x]) i = GET64 p i"
  by (rule f64.get_cong) auto

lemma GET16_SET32: "i + 4 \<le> length p \<Longrightarrow> j + 2 \<le> i \<or> i + 4 \<le> j \<Longrightarrow> GET16 (SET32 p i v) j = GET16 p j"
  by (rule f16.get_cong) (auto simp: f32.put_frame)

lemma GET32_SET16: "i + 2 \<le> length p \<Longrightarrow> j + 4 \<le> i \<or> i + 2 \<le> j \<Longrightarrow> GET32 (SET16 p i v) j = GET32 p j"
  by (rule f32.get_cong) (auto simp: f16.put_frame)

lemma GET16_SET64: "i + 8 \<le> length p \<Longrightarrow> j + 2 \<le> i \<or> i + 8 \<le> j \<Longrightarrow> GET16 (SET64 p i v) j = GET16 p j"
  by (rule f16.get_cong) (auto simp: f64.put_frame)

lemma GET32_SET64: "i + 8 \<le> length p \<Longrightarrow> j + 4 \<le> i \<or> i + 8 \<le> j \<Longrightarrow> GET32 (SET64 p i v) j = GET32 p j"
  by (rule f32.get_cong) (auto simp: f64.put_frame)

lemma GET64_SET32: "i + 4 \<le> length p \<Longrightarrow> j + 8 \<le> i \<or> i + 4 \<le> j \<Longrightarrow> GET64 (SET32 p i v) j = GET64 p j"
  by (rule f64.get_cong) (auto simp: f32.put_frame)

lemmas cross_simps = GET16_update GET32_update GET64_update GET16_SET32 GET32_SET16 GET16_SET64
  GET32_SET64 GET64_SET32

lemma hi_lo_u32: "push_bit 16 (ucast (ucast (drop_bit 16 c) :: u16)) OR ucast (ucast c :: u16) = (c :: u32)"
  by (rule bit_word_eqI) (auto simp: bit_simps)

lemmas fat_entry_defs = fat_get_entry_type_def fat_set_entry_type_def fat_get_entry_attr_def
  fat_set_entry_attr_def fat_get_entry_flag_def fat_set_entry_flag_def fat_get_entry_clu0_def
  fat_set_entry_clu0_def fat_get_entry_size_def fat_set_entry_size_def fat_get_entry_time_def
  fat_set_entry_time_def

lemma bit_16: "bit (16 :: u32) n \<longleftrightarrow> n = 4"
  using bit_exp_iff [of 4 n, where 'a = "32 word"] bit_imp_le_length [of "16 :: u32" n] by auto

lemma and_16_cases: "(a :: u32) AND 16 = 0 \<or> a AND 16 = 16"
proof (cases "bit a 4")
  case True
  then have "a AND 16 = 16"
    by (intro bit_word_eqI) (simp only: bit_and_iff bit_16, blast)
  then show ?thesis ..
next
  case False
  then show ?thesis using and_exp_eq_0_iff_not_bit [of a 4] by simp
qed

lemma fat_type_kind:
  assumes "a < 0x100" "a AND ATTR_VOLUME = 0" "ep ! 0 \<noteq> 0" "ep ! 0 \<noteq> 0xE5" "length ep = 32"
  shows "fat_get_entry_type (ep[11 := ucast a]) = (if a AND ATTR_SUBDIR \<noteq> 0 then TYPE_DIR else TYPE_FILE)"
proof -
  have id: "ucast (ucast a :: u8) = a" by (rule ucast_ucast_small [where k = 8]) (use assms(1) in simp_all)
  have v: "\<not> bit a 3"
  proof
    assume "bit a 3"
    then have "bit (a AND ATTR_VOLUME) 3" by (simp add: ATTR_VOLUME_def bit_simps)
    with assms(2) show False by simp
  qed
  have "a \<noteq> ATTR_EXTEND" using v by (auto simp: ATTR_EXTEND_def bit_simps)
  moreover have "a AND (ATTR_SUBDIR OR ATTR_VOLUME) = a AND ATTR_SUBDIR"
    using assms(2) by (simp add: bit.conj_disj_distrib)
  moreover have "a AND ATTR_SUBDIR \<noteq> 0 \<longleftrightarrow> a AND ATTR_SUBDIR = ATTR_SUBDIR"
    using and_16_cases [of a] by (auto simp: ATTR_SUBDIR_def)
  ultimately show ?thesis
    using assms(3-5) and_16_cases [of a]
    by (auto simp: fat_get_entry_type_def dos_layout id ATTR_SUBDIR_def ATTR_VOLUME_def)
qed

interpretation fat: entry_ops fat_fs_func fat_attr_ok "\<lambda>f. f = 1" "\<lambda>z. z < 2 ^ 32" "\<lambda>m. m \<noteq> TM_ACCESS"
proof (unfold_locales, goal_cases)
  case (7 e a)
  then show ?case by (simp add: fat_fs_func_def fat_entry_defs layouts fat_attr_ok_def ucast_ucast_small [where k = 8])
next
  case (9 e c)
  then show ?case by (simp add: fat_fs_func_def fat_entry_defs layouts frame_simps hi_lo_u32)
next
  case (10 e z)
  then show ?case by (simp add: fat_fs_func_def fat_entry_defs layouts frame_simps ucast_ucast_small [where k = 32])
next
  case (11 e m tp)
  then show ?case
    by (cases m) (simp_all add: fat_fs_func_def fat_entry_defs layouts frame_simps Let_def unpack_pack_time)
next
  case (12 e m m' tp)
  then show ?case
    by (cases m; cases m') (simp_all add: fat_fs_func_def fat_entry_defs layouts frame_simps Let_def)
next
  case (13 e tp m)
  then show ?case
    by (cases m) (simp_all add: fat_fs_func_def fat_entry_defs layouts frame_simps Let_def)
next
  case (14 e tp m)
  then show ?case
    by (cases m) (simp_all add: fat_fs_func_def fat_entry_defs layouts frame_simps Let_def)
next
  case (15 e a m)
  then show ?case
    by (cases m) (simp_all add: fat_fs_func_def fat_entry_defs layouts cross_simps Let_def)
next
  case (16 e a)
  then have "e ! 0 \<noteq> 0" "e ! 0 \<noteq> 0xE5"
    by (auto simp: fat_fs_func_def fat_get_entry_type_def dos_layout type_defs split: if_splits)
  with 16 show ?case
    by (simp add: fat_fs_func_def fat_set_entry_attr_def dos_layout fat_attr_ok_def fat_type_kind)
next
  case (17 e)
  then show ?case by (simp add: fat_fs_func_def fat_entry_defs layouts type_defs)
qed (simp_all add: fat_fs_func_def fat_entry_defs layouts type_defs cross_simps frame_simps Let_def split: time_mode.splits)

interpretation fat1: single_entry_ops fat_fs_func fat_attr_ok "\<lambda>f. f = 1" "\<lambda>z. z < 2 ^ 32" "\<lambda>m. m \<noteq> TM_ACCESS"
  by unfold_locales
     (simp_all add: fat_fs_func_def fat_entry_defs layouts type_defs cross_simps frame_simps Let_def split: time_mode.splits)

section \<open>The exFAT family\<close>

lemmas exfat_entry_defs = exfat_get_entry_type_def exfat_set_entry_type_def exfat_get_entry_attr_def
  exfat_set_entry_attr_def exfat_get_entry_flag_def exfat_set_entry_flag_def exfat_get_entry_clu0_def
  exfat_set_entry_clu0_def exfat_get_entry_size_def exfat_set_entry_size_def exfat_get_entry_time_def
  exfat_set_entry_time_def

lemma exfat_type_0x85: "exfat_get_entry_type ep \<in> {TYPE_FILE, TYPE_DIR} \<longleftrightarrow> ep ! 0 = 0x85"
  by (simp add: exfat_get_entry_type_def file_layout type_defs Let_def)

interpretation exfat: entry_ops exfat_fs_func "\<lambda>a. a < 0x10000" "\<lambda>f. True" "\<lambda>z. True" "\<lambda>m. True"
proof (unfold_locales, goal_cases)
  case (7 e a)
  then show ?case by (simp add: exfat_fs_func_def exfat_entry_defs layouts frame_simps ucast_ucast_small [where k = 16])
next
  case (11 e m tp)
  then show ?case
    by (cases m) (simp_all add: exfat_fs_func_def exfat_entry_defs layouts frame_simps Let_def unpack_pack_time)
next
  case (12 e m m' tp)
  then show ?case
    by (cases m; cases m') (simp_all add: exfat_fs_func_def exfat_entry_defs layouts frame_simps Let_def)
next
  case (16 e a)
  then have "e ! 0 = 0x85" by (simp add: exfat_fs_func_def flip: exfat_type_0x85)
  with 16 show ?case
    by (simp add: exfat_fs_func_def exfat_entry_defs layouts frame_simps Let_def ucast_ucast_small [where k = 16])
next
  case (17 e)
  then have "e ! 0 = 0x85 \<or> e ! 0 = 0xC1"
    by (auto simp: exfat_fs_func_def exfat_get_entry_type_def file_layout type_defs Let_def split: if_splits)
  with 17 show ?case
    by (auto simp: exfat_fs_func_def exfat_entry_defs layouts type_defs)
next
  case (13 e tp m)
  then show ?case
    by (cases m) (simp_all add: exfat_fs_func_def exfat_entry_defs layouts frame_simps Let_def)
next
  case (14 e tp m)
  then show ?case
    by (cases m) (simp_all add: exfat_fs_func_def exfat_entry_defs layouts frame_simps)
next
  case (15 e a m)
  then show ?case
    by (cases m) (simp_all add: exfat_fs_func_def exfat_entry_defs layouts frame_simps)
next
  case (1 e t)
  then show ?case
    by (simp add: exfat_fs_func_def exfat_set_entry_type_def)
qed (simp_all add: exfat_fs_func_def exfat_entry_defs layouts cross_simps frame_simps Let_def split: time_mode.splits)


section \<open>Name units\<close>

definition units :: "nat \<Rightarrow> nat \<Rightarrow> u8 list \<Rightarrow> u16 list" where
  "units off n ep = map (\<lambda>i. GET16 ep (off + 2 * i)) [0..<n]"

definition write_at :: "'a list \<Rightarrow> nat \<Rightarrow> 'a list \<Rightarrow> 'a list" where
  "write_at dst i xs = take i dst @ xs @ drop (i + length xs) dst"

lemma units_0 [simp]: "units off 0 ep = []"
  by (simp add: units_def)

lemma units_Suc: "units off (Suc n) ep = GET16 ep off # units (off + 2) n ep"
proof -
  have "[0..<Suc n] = 0 # map Suc [0..<n]" by (simp add: map_Suc_upt upt_conv_Cons)
  then show ?thesis by (simp add: units_def del: upt_Suc)
qed

lemma length_units [simp]: "length (units off n ep) = n"
  by (simp add: units_def)

lemma units_cong: "(\<And>j. off \<le> j \<Longrightarrow> j < off + 2 * n \<Longrightarrow> p ! j = q ! j) \<Longrightarrow> units off n p = units off n q"
  unfolding units_def by (rule map_cong [OF refl], rule f16.get_cong) auto

lemma write_at_Cons:
  "i < length dst \<Longrightarrow> write_at (dst[i := x]) (Suc i) xs = write_at dst i (x # xs)"
  by (simp add: write_at_def take_Suc_conv_app_nth drop_update_cancel nth_list_update take_update_cancel
      flip: upd_conv_take_nth_drop)

lemma write_at_Nil [simp]: "write_at dst i [] = dst"
  by (simp add: write_at_def)

lemma write_at_single: "i < length dst \<Longrightarrow> write_at dst i [x] = dst[i := x]"
  by (simp add: write_at_def upd_conv_take_nth_drop)

subsection \<open>Copying out\<close>

text \<open>The copying loop over a list of units, independent of where they are stored.\<close>

fun copy_units :: "u16 list \<Rightarrow> nat \<Rightarrow> u16 list \<times> nat \<times> bool \<Rightarrow> u16 list \<times> nat \<times> bool" where
  "copy_units [] b st = st"
| "copy_units (u # us) b (dst, len, fin) =
     (if fin then (dst, len, fin)
      else if u = 0 then (dst[b + len := u], len, True)
      else copy_units us b (dst[b + len := u], len + 1, False))"

lemma copy_units_fin [simp]: "copy_units us b (dst, len, True) = (dst, len, True)"
  by (cases us) auto

lemma get_units_copy: "get_units n off ep b st = copy_units (units off n ep) b st"
proof (induction n arbitrary: off st)
  case (Suc n)
  obtain dst len fin where st: "st = (dst, len, fin)" by (cases st)
  show ?case using Suc.IH by (simp add: st units_Suc Let_def)
qed simp

lemma copy_units_append: "copy_units (us @ vs) b st = copy_units vs b (copy_units us b st)"
proof (induction us arbitrary: st)
  case (Cons u us)
  obtain dst len fin where st: "st = (dst, len, fin)" by (cases st)
  show ?case using Cons by (simp add: st)
qed simp

text \<open>Copying stops at the first zero unit, which is copied too; the final terminator completes the other case.\<close>

lemma copy_units_result:
  assumes "b + len + length us < length dst"
  shows "(case copy_units us b (dst, len, False) of (d, l, fin) \<Rightarrow> (if fin then d else d[b + l := 0], l)) =
    (write_at dst (b + len) (takeWhile (\<lambda>u. u \<noteq> 0) us @ [0]), len + length (takeWhile (\<lambda>u. u \<noteq> 0) us))"
  using assms
proof (induction us arbitrary: dst len)
  case Nil
  then show ?case by (simp add: write_at_single)
next
  case (Cons u us)
  show ?case
  proof (cases "u = 0")
    case True
    then show ?thesis using Cons.prems by (simp add: write_at_single)
  next
    case False
    have "b + Suc len + length us < length (dst[b + len := u])" using Cons.prems by simp
    from Cons.IH [OF this] False Cons.prems show ?thesis
      by (simp add: write_at_Cons)
  qed
qed

subsection \<open>Storing\<close>

lemma length_put_name_units [simp]: "length (put_name_units n off uni k ep) = length ep"
  by (induction n arbitrary: off k ep) (auto simp: Let_def)

lemma put_name_units_frame:
  "off + 2 * n \<le> length ep \<Longrightarrow> j < off \<or> off + 2 * n \<le> j \<Longrightarrow> put_name_units n off uni k ep ! j = ep ! j"
proof (induction n arbitrary: off k ep)
  case (Suc n)
  then show ?case by (auto simp: Let_def f16.put_frame)
qed simp

lemma put_name_units_units:
  assumes "off + 2 * n \<le> length ep" "k + n \<le> length uni"
  shows "takeWhile (\<lambda>u. u \<noteq> 0) (units off n (put_name_units n off uni k ep)) =
    takeWhile (\<lambda>u. u \<noteq> 0) (take n (drop k uni))"
  using assms
proof (induction n arbitrary: off k ep)
  case (Suc n)
  let ?e = "SET16 ep off (uni ! k)"
  let ?r = "put_name_units n (off + 2) uni (k + 1) ?e"
  have d: "take (Suc n) (drop k uni) = uni ! k # take n (drop (k + 1) uni)"
    using Suc.prems by (simp add: Cons_nth_drop_Suc [symmetric])
  have g: "GET16 ?r off = uni ! k"
  proof -
    have "GET16 ?r off = GET16 ?e off"
      by (rule f16.get_cong) (use Suc.prems in \<open>auto intro!: put_name_units_frame\<close>)
    then show ?thesis using Suc.prems by (simp add: f16.get_put)
  qed
  show ?case
  proof (cases "uni ! k = 0")
    case True
    then show ?thesis using Suc.prems by (simp add: d units_Suc f16.get_put Let_def)
  next
    case False
    then show ?thesis using Suc.prems Suc.IH [of "off + 2" ?e "k + 1"]
      using g by (simp add: d units_Suc Let_def)
  qed
qed simp

lemma length_init_name_entry [simp]: "length (init_name_entry ep uni) = length ep"
  by (simp add: init_name_entry_def exfat_set_entry_type_def Let_def)

lemma init_name_entry_type: "length ep = 32 \<Longrightarrow> exfat_get_entry_type (init_name_entry ep uni) = TYPE_EXTEND"
  by (simp add: init_name_entry_def exfat_get_entry_type_def exfat_set_entry_type_def put_name_units_frame
      layouts Let_def type_defs)

lemma name_roundtrip:
  assumes "length ep = 32" "15 \<le> length uni" "b + 15 < length dst"
  shows "extract_uni_name_from_name_entry (init_name_entry ep uni) dst b order =
    (write_at dst b (takeWhile (\<lambda>u. u \<noteq> 0) (take 15 uni) @ [0]),
     length (takeWhile (\<lambda>u. u \<noteq> 0) (take 15 uni)))"
proof -
  let ?e = "init_name_entry ep uni"
  have u: "takeWhile (\<lambda>u. u \<noteq> 0) (units 2 15 ?e) = takeWhile (\<lambda>u. u \<noteq> 0) (take 15 uni)"
    using assms by (simp add: init_name_entry_def exfat_set_entry_type_def layouts type_defs Let_def
        put_name_units_units [where k = 0, simplified])
  show ?thesis
    using copy_units_result [of b 0 "units 2 15 ?e" dst] assms(3)
    by (simp add: extract_uni_name_from_name_entry_def name_unicode_0_14_def get_units_copy u)
qed

text \<open>
  Storing a name part in an exFAT name entry (\<^verbatim>\<open>init_name_entry\<close>) and extracting it again
  (\<^verbatim>\<open>extract_uni_name_from_name_entry\<close>) gives back the first 15 code units up to the terminating zero, at
  position \<open>b\<close> of the destination, followed by a zero; nothing else of the destination changes.
\<close>

theorem name_entry_roundtrip:
  assumes "length ep = 32" "15 \<le> length uni" "b + 15 < length dst"
  shows "extract_uni_name_from_name_entry (init_name_entry ep uni) dst b order =
    (write_at dst b (takeWhile (\<lambda>u. u \<noteq> 0) (take 15 uni) @ [0]),
     length (takeWhile (\<lambda>u. u \<noteq> 0) (take 15 uni)))"
  by (rule name_roundtrip [OF assms])

theorem name_entry_roundtrip_witness:
  "extract_uni_name_from_name_entry (init_name_entry (replicate 32 0) ([65, 66, 67] @ replicate 12 0))
     (replicate 20 7) 2 2 = (write_at (replicate 20 7) 2 [65, 66, 67, 0], 3)"
  using name_entry_roundtrip [of "replicate 32 0" "[65, 66, 67] @ replicate 12 0" 2 "replicate 20 7" 2]
  by simp

text \<open>The list of units that a loop of \<^verbatim>\<open>init_ext_entry\<close> stores, with the flag and the distance after it.\<close>

fun pad_units :: "nat \<Rightarrow> u16 list \<Rightarrow> nat \<times> bool \<Rightarrow> u16 list \<times> nat \<times> bool" where
  "pad_units 0 uni (k, fin) = ([], k, fin)"
| "pad_units (Suc n) uni (k, fin) =
     (if fin then case pad_units n uni (k, True) of (us, st) \<Rightarrow> (0xFFFF # us, st)
      else if uni ! k = 0 then case pad_units n uni (k, True) of (us, st) \<Rightarrow> (0 # us, st)
      else case pad_units n uni (k + 1, False) of (us, st) \<Rightarrow> (uni ! k # us, st))"

lemma length_pad_units: "length (fst (pad_units n uni st)) = n"
  by (induction n uni st rule: pad_units.induct) (auto simp: case_prod_beta)

lemma pad_units_app:
  "pad_units (m + n) uni st = (case pad_units m uni st of (us, st') \<Rightarrow>
     case pad_units n uni st' of (vs, st'') \<Rightarrow> (us @ vs, st''))"
proof (induction m uni st rule: pad_units.induct)
  case (1 uni k fin)
  then show ?case by (cases "pad_units n uni (k, fin)") simp
next
  case (2 m uni k fin)
  then show ?case by (auto split: prod.splits)
qed

lemma pad_units_name:
  "k + n \<le> length uni \<Longrightarrow>
   takeWhile (\<lambda>u. u \<noteq> 0) (fst (pad_units n uni (k, False))) = takeWhile (\<lambda>u. u \<noteq> 0) (take n (drop k uni))"
proof (induction n arbitrary: k)
  case (Suc n)
  have d: "take (Suc n) (drop k uni) = uni ! k # take n (drop (k + 1) uni)"
    using Suc.prems by (simp add: Cons_nth_drop_Suc [symmetric])
  have h: "k + 1 + n \<le> length uni" using Suc.prems by simp
  from Suc.IH [OF h] show ?case by (simp add: d case_prod_beta)
qed simp

lemma put_units_pad:
  assumes "off + 2 * n \<le> length ep"
  shows "length (fst (put_units n off uni (ep, st))) = length ep"
    "snd (put_units n off uni (ep, st)) = snd (pad_units n uni st)"
    "units off n (fst (put_units n off uni (ep, st))) = fst (pad_units n uni st)"
    "\<And>j. j < off \<or> off + 2 * n \<le> j \<Longrightarrow> fst (put_units n off uni (ep, st)) ! j = ep ! j"
proof -
  have "length (fst (put_units n off uni (ep, st))) = length ep \<and>
    snd (put_units n off uni (ep, st)) = snd (pad_units n uni st) \<and>
    units off n (fst (put_units n off uni (ep, st))) = fst (pad_units n uni st) \<and>
    (\<forall>j. j < off \<or> off + 2 * n \<le> j \<longrightarrow> fst (put_units n off uni (ep, st)) ! j = ep ! j)"
    using assms
  proof (induction n arbitrary: off ep st)
    case 0
    then show ?case by (cases st) simp
  next
    case (Suc n)
    obtain k fin where st: "st = (k, fin)" by (cases st)
    define u where "u = (if fin then 0xFFFF else uni ! k)"
    define st' where "st' = (if fin then (k, True) else if uni ! k = 0 then (k, True) else (k + 1, False))"
    let ?e = "SET16 ep off u"
    have p: "put_units (Suc n) off uni (ep, st) = put_units n (off + 2) uni (?e, st')"
      by (simp add: st u_def st'_def)
    have q: "pad_units (Suc n) uni st = (u # fst (pad_units n uni st'), snd (pad_units n uni st'))"
      by (simp add: st u_def st'_def split: prod.splits)
    have "off + 2 + 2 * n \<le> length ?e" using Suc.prems by simp
    note ih = Suc.IH [OF this, of st']
    have "GET16 (fst (put_units n (off + 2) uni (?e, st'))) off = GET16 ?e off"
      by (rule f16.get_cong) (use ih in auto)
    then have "GET16 (fst (put_units n (off + 2) uni (?e, st'))) off = u"
      using Suc.prems by (simp add: f16.get_put)
    with ih Suc.prems show ?case
      by (simp only: p q units_Suc) (auto simp: f16.put_frame)
  qed
  then show "length (fst (put_units n off uni (ep, st))) = length ep"
    "snd (put_units n off uni (ep, st)) = snd (pad_units n uni st)"
    "units off n (fst (put_units n off uni (ep, st))) = fst (pad_units n uni st)"
    "\<And>j. j < off \<or> off + 2 * n \<le> j \<Longrightarrow> fst (put_units n off uni (ep, st)) ! j = ep ! j"
    by auto
qed

text \<open>The three groups of units of a long-name entry, in order.\<close>

definition ext_units :: "u8 list \<Rightarrow> u16 list" where
  "ext_units ep = units ext_unicode_0_4 5 ep @ units ext_unicode_5_10 6 ep @ units ext_unicode_11_12 2 ep"

lemma init_ext_entry_units:
  assumes "length ep = 32"
  shows "ext_units (init_ext_entry ep order chk uni) = fst (pad_units 13 uni (0, False))"
    "length (init_ext_entry ep order chk uni) = 32"
    "init_ext_entry ep order chk uni ! 0 = word_of_int order"
    "init_ext_entry ep order chk uni ! 11 = ucast ATTR_EXTEND"
    "init_ext_entry ep order chk uni ! 13 = chk"
proof -
  define e0 where "e0 = SET16 ((fat_set_entry_type ep TYPE_EXTEND)
      [ext_order := word_of_int order, ext_sysid := 0, ext_checksum := chk]) ext_start_clu 0"
  define s1 where "s1 = put_units 5 ext_unicode_0_4 uni (e0, 0, False)"
  define s2 where "s2 = put_units 6 ext_unicode_5_10 uni s1"
  define s3 where "s3 = put_units 2 ext_unicode_11_12 uni s2"
  have e: "init_ext_entry ep order chk uni = fst s3"
    unfolding init_ext_entry_def s3_def s2_def s1_def e0_def Let_def ..
  have l0: "length e0 = 32" "e0 ! 0 = word_of_int order" "e0 ! 11 = ucast ATTR_EXTEND" "e0 ! 13 = chk"
    using assms by (simp_all add: e0_def fat_set_entry_type_def layouts type_defs f16.put_frame)
  have b1: "ext_unicode_0_4 + 2 * 5 \<le> length e0" using l0 by (simp add: layouts)
  note p1 = put_units_pad [OF b1, where uni = uni and st = "(0, False)", folded s1_def]
  have b2: "ext_unicode_5_10 + 2 * 6 \<le> length (fst s1)" using p1 l0 by (simp add: layouts)
  note p2 = put_units_pad [OF b2, where uni = uni and st = "snd s1", simplified prod.collapse, folded s2_def]
  have b3: "ext_unicode_11_12 + 2 * 2 \<le> length (fst s2)" using p1 p2 l0 by (simp add: layouts)
  note p3 = put_units_pad [OF b3, where uni = uni and st = "snd s2", simplified prod.collapse, folded s3_def]
  have u1: "units ext_unicode_0_4 5 (fst s3) = units ext_unicode_0_4 5 (fst s1)"
    by (rule units_cong) (simp add: p2(4) p3(4) layouts)
  have u2: "units ext_unicode_5_10 6 (fst s3) = units ext_unicode_5_10 6 (fst s2)"
    by (rule units_cong) (simp add: p3(4) layouts)
  have "pad_units 13 uni (0, False) = pad_units (5 + (6 + 2)) uni (0, False)" by simp
  also have "\<dots> = (fst (pad_units 5 uni (0, False)) @ fst (pad_units 6 uni (snd s1)) @ fst (pad_units 2 uni (snd s2)),
      snd (pad_units 2 uni (snd s2)))"
    unfolding pad_units_app p1(2) p2(2) by (simp split: prod.splits)
  finally show "ext_units (init_ext_entry ep order chk uni) = fst (pad_units 13 uni (0, False))"
    by (simp add: ext_units_def e u1 u2 p1(3) p2(3) p3(3))
  show "length (init_ext_entry ep order chk uni) = 32" using p1(1) p2(1) p3(1) l0 by (simp add: e)
  show "init_ext_entry ep order chk uni ! 0 = word_of_int order"
    "init_ext_entry ep order chk uni ! 11 = ucast ATTR_EXTEND"
    "init_ext_entry ep order chk uni ! 13 = chk"
    using l0 by (simp_all add: e p3(4) p2(4) p1(4) layouts)
qed

text \<open>
  Storing a name part in a FAT long-name entry (\<^verbatim>\<open>init_ext_entry\<close>, three separate groups of code units,
  padded with \<^verbatim>\<open>0xFFFF\<close>) and extracting it again (\<^verbatim>\<open>extract_uni_name_from_ext_entry\<close>) gives back the first
  13 code units up to the terminating zero, followed by a zero; nothing else of the destination changes.
\<close>

theorem ext_entry_roundtrip:
  assumes "length ep = 32" "13 \<le> length uni" "b + 13 < length dst" "order < 20"
  shows "extract_uni_name_from_ext_entry (init_ext_entry ep ord chk uni) dst b order =
    (write_at dst b (takeWhile (\<lambda>u. u \<noteq> 0) (take 13 uni) @ [0]),
     length (takeWhile (\<lambda>u. u \<noteq> 0) (take 13 uni)))"
proof -
  let ?e = "init_ext_entry ep ord chk uni"
  have u: "takeWhile (\<lambda>u. u \<noteq> 0) (ext_units ?e) = takeWhile (\<lambda>u. u \<noteq> 0) (take 13 uni)"
    using assms pad_units_name [of 0 13 uni] by (simp only: init_ext_entry_units) simp
  have l: "length (ext_units ?e) = 13" by (simp add: ext_units_def)
  have "extract_uni_name_from_ext_entry ?e dst b order =
    (case copy_units (ext_units ?e) b (dst, 0, False) of (d, l, fin) \<Rightarrow> (if fin then d else d[b + l := 0], l))"
    using assms(4) by (simp add: extract_uni_name_from_ext_entry_def get_units_copy ext_units_def
        copy_units_append Let_def)
  then show ?thesis
    using copy_units_result [of b 0 "ext_units ?e" dst] assms(3) by (simp add: u l)
qed

theorem ext_entry_roundtrip_witness:
  "extract_uni_name_from_ext_entry (init_ext_entry (replicate 32 0) 1 0x5A ([65, 66, 67] @ replicate 12 0))
     (replicate 20 7) 2 1 = (write_at (replicate 20 7) 2 [65, 66, 67, 0], 3)"
  using ext_entry_roundtrip [of "replicate 32 0" "[65, 66, 67] @ replicate 12 0" 2 "replicate 20 7" 1 1 "0x5A"]
  by simp

section \<open>Number of entries\<close>

text \<open>
  C31: The entry counts leave room for the whole name and no entry is wasted: a name of \<open>n > 0\<close> units takes a DOS
  entry and \<open>\<lceil>n / 13\<rceil>\<close> long-name entries on FAT, a file entry, a stream entry and \<open>\<lceil>n / 15\<rceil>\<close> name
  entries on exFAT, at most 21 and 19 in all.
\<close>

theorem calc_num_entries_capacity:
  assumes "n \<noteq> 0"
  shows "uint n \<le> 13 * (fat_calc_num_entries n - 1) \<and> 13 * (fat_calc_num_entries n - 2) < uint n \<and>
    uint n \<le> 15 * (exfat_calc_num_entries n - 2) \<and> 15 * (exfat_calc_num_entries n - 3) < uint n \<and>
    fat_calc_num_entries n \<le> 21 \<and> exfat_calc_num_entries n \<le> 19"
proof -
  define k where "k = uint n"
  have k: "k \<noteq> 0" "0 \<le> k" "k < 256" using assms uint_lt2p [of n] by (auto simp: uint_0_iff k_def)
  define q where "q = (k - 1) div 13"
  define r where "r = (k - 1) div 15"
  have "13 * q + (k - 1) mod 13 = k - 1" "15 * r + (k - 1) mod 15 = k - 1"
    by (simp_all only: q_def r_def mult_div_mod_eq)
  moreover have "0 \<le> (k - 1) mod 13" "(k - 1) mod 13 < 13" "0 \<le> (k - 1) mod 15" "(k - 1) mod 15 < 15"
    by simp_all
  ultimately have b: "13 * q \<le> k - 1" "k - 1 < 13 * q + 13" "15 * r \<le> k - 1" "k - 1 < 15 * r + 15"
    by linarith+
  have "fat_calc_num_entries n = q + 2" "exfat_calc_num_entries n = r + 3"
    using k by (simp_all add: fat_calc_num_entries_def exfat_calc_num_entries_def q_def r_def k_def)
  with b k show ?thesis by (simp add: k_def [symmetric])
qed

theorem calc_num_entries_capacity_witness:
  "fat_calc_num_entries 255 = 21 \<and> exfat_calc_num_entries 255 = 19 \<and>
    uint (255 :: u8) \<le> 13 * (fat_calc_num_entries 255 - 1)"
  using calc_num_entries_capacity [of 255] by (simp add: fat_calc_num_entries_def exfat_calc_num_entries_def)

end
