(* ===== verification/DirProps.thy ===== *)
theory DirProps
  imports ClusterProps EntrySet DentryProps
begin

text \<open>
  Directories as arrays of entries.  On a mounted volume the clusters lie one behind the other in the data region, behind the
  tables; the entries of a directory lie one behind the other in the sectors of its clusters (or of the fixed root
  directory of FAT12 and FAT16).  Reading an entry finds this entry, changing one changes no other entry and no table.
\<close>

section \<open>The layout of a volume\<close>

definition layout_ok :: "vol \<Rightarrow> bool" where
  "layout_ok s \<longleftrightarrow> sectors_per_clu s = 2 ^ sectors_per_clu_bits s \<and> sector_size_bits s + sectors_per_clu_bits s < 32 \<and>
     cluster_size_bits s = sector_size_bits s + sectors_per_clu_bits s \<and> cluster_size s = 2 ^ cluster_size_bits s \<and>
     unat (FAT1_start_sector s) + unat (num_FAT_sectors s) \<le> unat (root_start_sector s) \<and>
     root_start_sector s \<le> data_start_sector s \<and>
     unat (data_start_sector s) + (unat (num_clusters s) - 2) * 2 ^ sectors_per_clu_bits s < 2 ^ 32 \<and>
     (\<forall>x. root_start_sector s \<le> x \<and> unat x < unat (data_start_sector s) + (unat (num_clusters s) - 2) * 2 ^ sectors_per_clu_bits s \<longrightarrow>
        \<not> out_of_range x s)"

definition vol_ok :: "vol \<Rightarrow> bool" where
  "vol_ok s \<longleftrightarrow> clusters_ok s \<and> cache_ok BUFC s \<and> spare BUFC (buf_cache s) \<and> layout_ok s"

text \<open>Sector \<open>i\<close> of a cluster.\<close>

definition clu_sector :: "vol \<Rightarrow> u32 \<Rightarrow> nat \<Rightarrow> u32" where
  "clu_sector s c i = of_nat i + START_SECTOR c s"

lemma cluster_end:
  assumes "vol_ok s" "is_cluster s c" "i < 2 ^ sectors_per_clu_bits s"
  shows "(unat c - 2) * 2 ^ sectors_per_clu_bits s + i < (unat (num_clusters s) - 2) * 2 ^ sectors_per_clu_bits s"
proof -
  let ?p = "2 ^ sectors_per_clu_bits s :: nat"
  have c: "unat c - 2 < unat (num_clusters s) - 2" using assms(2) by (auto simp: is_cluster_def word_less_nat_alt word_le_nat_alt)
  have "(unat c - 2) * ?p + i < (unat c - 2 + 1) * ?p" using assms(3) by simp
  also have "\<dots> \<le> (unat (num_clusters s) - 2) * ?p" using c by (intro mult_le_mono1) simp
  finally show ?thesis .
qed

lemma clu_sector_unat:
  assumes "vol_ok s" "is_cluster s c" "i < 2 ^ sectors_per_clu_bits s"
  shows "unat (clu_sector s c i) = unat (data_start_sector s) + (unat c - 2) * 2 ^ sectors_per_clu_bits s + i"
proof -
  let ?p = "2 ^ sectors_per_clu_bits s :: nat"
  have l: "layout_ok s" using assms(1) by (simp add: vol_ok_def)
  have c: "c = of_nat (unat c - 2) + 2" using assms(2) by (simp add: is_cluster_def word_le_nat_alt of_nat_diff)
  have "push_bit (sectors_per_clu_bits s) (c - 2) = of_nat ((unat c - 2) * ?p)"
    by (subst c) (simp add: push_bit_eq_mult)
  then have "clu_sector s c i = of_nat (unat (data_start_sector s) + (unat c - 2) * ?p + i)"
    by (simp add: clu_sector_def START_SECTOR_def)
  moreover have "unat (data_start_sector s) + (unat c - 2) * ?p + i < 2 ^ 32"
    using cluster_end [OF assms] l unfolding layout_ok_def by linarith
  ultimately show ?thesis by (simp only: unat_of_nat_u32)
qed

lemma clu_sector_inj:
  assumes "vol_ok s" "is_cluster s c" "is_cluster s d" "i < 2 ^ sectors_per_clu_bits s" "j < 2 ^ sectors_per_clu_bits s"
    "clu_sector s c i = clu_sector s d j"
  shows "c = d \<and> i = j"
proof -
  let ?p = "2 ^ sectors_per_clu_bits s :: nat"
  have e: "(unat c - 2) * ?p + i = (unat d - 2) * ?p + j"
    using arg_cong [OF assms(6), of unat] clu_sector_unat [OF assms(1,2,4)] clu_sector_unat [OF assms(1,3,5)] by simp
  have "((unat c - 2) * ?p + i) div ?p = unat c - 2" "((unat d - 2) * ?p + j) div ?p = unat d - 2" using assms(4,5) by simp_all
  then have "unat c - 2 = unat d - 2" using e by simp
  moreover have "2 \<le> unat c" "2 \<le> unat d" using assms(2,3) by (simp_all add: is_cluster_def word_le_nat_alt)
  ultimately have "unat c = unat d" by linarith
  then show ?thesis using e by (simp add: word_unat_eq_iff)
qed

text \<open>The sectors behind the tables: those of the fixed root directory and of the clusters.\<close>

definition data_sector :: "vol \<Rightarrow> u32 \<Rightarrow> bool" where
  "data_sector s x \<longleftrightarrow> root_start_sector s \<le> x \<and>
     unat x < unat (data_start_sector s) + (unat (num_clusters s) - 2) * 2 ^ sectors_per_clu_bits s"

lemma clu_sector_data: "vol_ok s \<Longrightarrow> is_cluster s c \<Longrightarrow> i < 2 ^ sectors_per_clu_bits s \<Longrightarrow> data_sector s (clu_sector s c i)"
  using clu_sector_unat [of s c i] cluster_end [of s c i] by (auto simp: data_sector_def vol_ok_def layout_ok_def word_le_nat_alt)

lemma data_sector_range: "vol_ok s \<Longrightarrow> data_sector s x \<Longrightarrow> \<not> out_of_range x s"
  by (auto simp: vol_ok_def layout_ok_def data_sector_def)

lemma data_sector_outside:
  assumes "vol_ok s" "data_sector s x"
  shows "fat_outside s x"
  unfolding fat_outside_def
proof (intro allI impI notI)
  fix q assume q: "q < fat_len s" "x = fat_sector s q"
  let ?i = "q div 2 ^ sector_size_bits s"
  have i: "?i < unat (num_FAT_sectors s)" by (rule fat_q_sector [OF q(1)])
  have l: "unat (FAT1_start_sector s) + unat (num_FAT_sectors s) \<le> unat (root_start_sector s)" "root_start_sector s \<le> x"
    using assms by (auto simp: vol_ok_def layout_ok_def data_sector_def)
  have "unat (FAT1_start_sector s) + ?i < 2 ^ 32" using i l(1) unat_u32 [of "root_start_sector s"] by linarith
  then have "unat (of_nat (unat (FAT1_start_sector s) + ?i) :: u32) = unat (FAT1_start_sector s) + ?i" by (rule unat_of_nat_u32)
  moreover have "x = of_nat (unat (FAT1_start_sector s) + ?i)" using q(2) by (simp add: fat_sector_def)
  ultimately show False using i l by (simp add: word_le_nat_alt)
qed

section \<open>Steps that change buffers and caches only\<close>

definition vol_step :: "vol \<Rightarrow> vol \<Rightarrow> bool" where
  "vol_step s t \<longleftrightarrow> vol_ok t \<and> t = s\<lparr>FAT_cache := FAT_cache t, buf_cache := buf_cache t, env_pos := env_pos t,
     dirty := dirty t, bufs := bufs t\<rparr> \<and> locks_kept (buf_cache s) (buf_cache t)"

lemma vol_step_eq:
  assumes "vol_step s t"
  obtains c c' e d b where "t = s\<lparr>FAT_cache := c, buf_cache := c', env_pos := e, dirty := d, bufs := b\<rparr>"
  using assms unfolding vol_step_def by blast

lemma vol_step_fields:
  assumes "vol_step s t"
  shows "vol_type t = vol_type s" "num_clusters t = num_clusters s" "fat_outside t = fat_outside s" "is_cluster t = is_cluster s"
    "sector_size t = sector_size s" "sector_size_bits t = sector_size_bits s" "sector_size_mask t = sector_size_mask s"
    "cluster_size t = cluster_size s" "cluster_size_bits t = cluster_size_bits s" "sectors_per_clu_bits t = sectors_per_clu_bits s"
    "root_start_sector t = root_start_sector s" "data_start_sector t = data_start_sector s" "fs_func t = fs_func s" "ub t = ub s"
    "dev_ejected t = dev_ejected s" "clu_sector t = clu_sector s" "data_sector t = data_sector s" "fat_len t = fat_len s"
    "fat_sector t = fat_sector s" "START_SECTOR c t = START_SECTOR c s" "sectors_per_clu t = sectors_per_clu s"
  by (rule vol_step_eq [OF assms], simp add: fat_outside_def fat_len_def fat_sector_def is_cluster_def clu_sector_def START_SECTOR_def
        data_sector_def fun_eq_iff)+

lemma vol_step_ok: "vol_step s t \<Longrightarrow> vol_ok t"
  by (simp add: vol_step_def)

lemma vol_step_refl: "vol_ok s \<Longrightarrow> vol_step s s"
  by (simp add: vol_step_def locks_kept_refl)

lemma vol_step_trans:
  assumes "vol_step s t" "vol_step t u"
  shows "vol_step s u"
proof -
  have "u = s\<lparr>FAT_cache := FAT_cache u, buf_cache := buf_cache u, env_pos := env_pos u, dirty := dirty u, bufs := bufs u\<rparr>"
    by (rule vol_step_eq [OF assms(1)], rule vol_step_eq [OF assms(2)]) simp
  with assms locks_kept_trans [of "buf_cache s" "buf_cache t" "buf_cache u"] show ?thesis by (simp add: vol_step_def)
qed

lemma fat_raw_cong:
  assumes "loc_ok s c" "\<And>q. q < fat_len s \<Longrightarrow> f q = g q"
  shows "fat_raw (vol_type s) c f = fat_raw (vol_type s) c g"
  using assms by (auto simp: fat_raw_def fat12_raw_def loc_ok_def fat_pos_def Let_def split: if_splits)

text \<open>A step that leaves the sectors of the table alone leaves its values alone.\<close>

lemma fat_val_outside:
  assumes "vol_ok s" "vol_step s t" "\<And>x. \<not> fat_outside s x \<Longrightarrow> bufs t x = bufs s x" "is_cluster s c"
  shows "fat_val t c = fat_val s c"
proof -
  have "loc_ok s c" using assms(1,4) by (simp add: vol_ok_def clusters_ok_def)
  moreover have "fat_byte t q = fat_byte s q" if "q < fat_len s" for q
  proof -
    have "\<not> fat_outside s (fat_sector s q)" using that by (auto simp: fat_outside_def)
    then show ?thesis using assms(3) by (simp add: fat_byte_def vol_step_fields [OF assms(2)])
  qed
  ultimately show ?thesis using fat_raw_cong [of s c "fat_byte t" "fat_byte s"] vol_step_fields [OF assms(2)] by (simp add: fat_val_def)
qed

lemma layout_ok_upd:
  "layout_ok (s\<lparr>FAT_cache := c, env_pos := e, dirty := d, bufs := b\<rparr>) = layout_ok s"
  "layout_ok (s\<lparr>buf_cache := c, env_pos := e\<rparr>) = layout_ok s" "layout_ok (s\<lparr>dirty := d, bufs := b\<rparr>) = layout_ok s"
  by (simp_all add: layout_ok_def out_of_range_def)

text \<open>Reading the table.\<close>

lemma fat_step_vol:
  assumes "vol_ok s" "fat_step (bufs s) s t"
  shows "vol_step s t" "fat_val t = fat_val s" "bufs t = bufs s"
proof -
  have c: "clusters_ok s" using assms(1) by (simp add: vol_ok_def)
  obtain x e d where t: "t = s\<lparr>FAT_cache := x, env_pos := e, dirty := d, bufs := bufs s\<rparr>" using assms(2) by (auto simp: fat_step_def)
  have "cache_ok BUFC t = cache_ok BUFC s" by (simp add: t cache_ok_def)
  moreover have "layout_ok t = layout_ok s" "buf_cache t = buf_cache s" by (simp_all add: t layout_ok_def out_of_range_def)
  ultimately have "vol_ok t" using assms(1) fat_step_bufs(3) [OF c assms(2)] by (simp add: vol_ok_def)
  then show "vol_step s t" by (simp add: vol_step_def t locks_kept_refl)
  show "fat_val t = fat_val s" by (rule fat_step_bufs(1) [OF c assms(2)])
  show "bufs t = bufs s" by (rule fat_step_fields(1) [OF assms(2)])
qed

text \<open>Getting the buffer of a sector, and changing a buffer and marking it.\<close>

lemma buf_getblk_vol:
  assumes "vol_ok s" "data_sector s x"
  obtains t y where "run_state (buf_getblk x) s = (Some x, t)" "vol_step s t" "fat_val t = fat_val s" "bufs t = bufs s" "holds BUFC t x y"
    "dirty t = dirty s"
proof -
  have d: "device_ok s" using assms(1) by (simp add: vol_ok_def clusters_ok_def fat_ok_def)
  have b: "cache_ok BUFC s" "spare BUFC (cache BUFC s)" using assms(1) by (simp_all add: vol_ok_def)
  obtain t y where t: "run_state (cache_getblk BUFC x) s = (Some x, t)" "cache_ok BUFC t" "spare BUFC (cache BUFC t)"
    "holds BUFC t x y" "only_cache BUFC s t" "locks_kept (cache BUFC s) (cache BUFC t)"
    using getblk_locks [OF b(1) d data_sector_range [OF assms] b(2)] by blast
  then obtain c e where e: "t = s\<lparr>buf_cache := c, env_pos := e\<rparr>" by (auto simp: only_cache_def)
  have "fat_ok t = fat_ok s" by (simp add: e fat_ok_def cache_ok_def device_ok_def geometry_ok_def out_of_range_def)
  moreover have "is_cluster t = is_cluster s" "loc_ok t = loc_ok s" by (simp_all add: e is_cluster_def loc_ok_def fat_len_def fun_eq_iff)
  ultimately have "clusters_ok t = clusters_ok s" by (simp add: clusters_ok_def e)
  then have "vol_ok t" using assms(1) t by (simp add: vol_ok_def e layout_ok_upd)
  then have st: "vol_step s t" using t(6) by (simp add: vol_step_def e)
  have bt: "bufs t = bufs s" by (simp add: e)
  have "fat_byte t = fat_byte s" by (rule ext) (simp add: fat_byte_def vol_step_fields [OF st] bt)
  then have "fat_val t = fat_val s" by (intro ext) (simp add: fat_val_def vol_step_fields [OF st])
  then show ?thesis using that t st by (simp add: buf_getblk_def e)
qed

lemma vol_step_put:
  assumes "vol_ok s" "data_sector s x" "length p = length (bufs s x)"
  shows "vol_step s (s\<lparr>dirty := (dirty s)(x := True), bufs := (bufs s)(x := p)\<rparr>)" (is "vol_step s ?t")
    "is_cluster s c \<Longrightarrow> fat_val (s\<lparr>dirty := (dirty s)(x := True), bufs := (bufs s)(x := p)\<rparr>) c = fat_val s c"
proof -
  have l: "length (((bufs s)(x := p)) z) = length (bufs s z)" for z using assms(3) by simp
  have "fat_ok ?t = fat_ok s"
    by (simp add: fat_ok_def cache_ok_def device_ok_def geometry_ok_def out_of_range_def l del: fun_upd_apply)
  moreover have "is_cluster ?t = is_cluster s" "loc_ok ?t = loc_ok s" by (simp_all add: is_cluster_def loc_ok_def fat_len_def fun_eq_iff)
  ultimately have "clusters_ok ?t = clusters_ok s" by (simp add: clusters_ok_def)
  then have "vol_ok ?t" using assms(1) by (simp add: vol_ok_def layout_ok_upd cache_ok_def)
  then show st: "vol_step s ?t" by (simp add: vol_step_def locks_kept_refl)
  show "fat_val ?t c = fat_val s c" if "is_cluster s c"
    by (rule fat_val_outside [OF assms(1) st _ that]) (use data_sector_outside [OF assms(1,2)] in auto)
qed

lemma buf_update_vol:
  assumes "vol_ok s" "data_sector s x" "holds BUFC s x y" "length p = length (bufs s x)"
  obtains t where "run_state (do { _ \<leftarrow> set_buf x (\<lambda>_. p); buf_modify x }) s = ((), t)" "vol_step s t"
    "\<And>c. is_cluster s c \<Longrightarrow> fat_val t c = fat_val s c" "bufs t = (bufs s)(x := p)" "dirty t = (dirty s)(x := True)"
    "holds BUFC t x y"
proof -
  let ?s = "s\<lparr>bufs := (bufs s)(x := p)\<rparr>" and ?t = "s\<lparr>dirty := (dirty s)(x := True), bufs := (bufs s)(x := p)\<rparr>"
  have d: "device_ok s" using assms(1) by (simp add: vol_ok_def clusters_ok_def fat_ok_def)
  have b: "cache_ok BUFC s" using assms(1) by (simp add: vol_ok_def)
  have "run_state (cache_modify BUFC x) ?s = ((), ?s\<lparr>dirty := (dirty ?s)(x := True)\<rparr>)"
    by (rule cache_modify_run [of BUFC ?s x y])
      (use b d assms(3) data_sector_range [OF assms(1,2)] in \<open>simp_all add: device_ok_def out_of_range_def\<close>)
  then have run: "run_state (do { _ \<leftarrow> set_buf x (\<lambda>_. p); buf_modify x }) s = ((), ?t)"
    by (simp add: set_buf_def buf_modify_def)
  have "holds BUFC ?t x y" using assms(3) by (simp add: holds_def)
  then show ?thesis using that [OF run] vol_step_put [OF assms(1,2,4)] by simp
qed

section \<open>The bytes of a directory or file\<close>

text \<open>
  \<open>xs\<close> are the clusters of \<open>ch\<close>: consecutive ones when the flags say so, else those of the chain in the table; none for
  the fixed root directory.
\<close>

definition chain_clusters :: "vol \<Rightarrow> CHAIN_T \<Rightarrow> u32 list \<Rightarrow> bool" where
  "chain_clusters s ch xs \<longleftrightarrow> (if xs = [] then chain_dir ch = 0
     else distinct xs \<and> (\<forall>x\<in>set xs. is_cluster s x) \<and> chain_dir ch = hd xs \<and>
       (if chain_flags ch = 3 then \<forall>i<length xs. xs ! i = chain_dir ch + of_nat i else chain (fat_val s) (chain_dir ch) xs))"

text \<open>The sector of byte \<open>p\<close>, and the number of bytes.\<close>

definition byte_sector :: "vol \<Rightarrow> u32 list \<Rightarrow> nat \<Rightarrow> u32" where
  "byte_sector s xs p = (if xs = [] then of_nat (p div 2 ^ sector_size_bits s) + root_start_sector s
     else clu_sector s (xs ! (p div 2 ^ cluster_size_bits s)) (p mod 2 ^ cluster_size_bits s div 2 ^ sector_size_bits s))"

definition byte_room :: "vol \<Rightarrow> u32 list \<Rightarrow> nat" where
  "byte_room s xs = (if xs = [] then (unat (data_start_sector s) - unat (root_start_sector s)) * 2 ^ sector_size_bits s
     else length xs * 2 ^ cluster_size_bits s)"

lemma vol_sizes:
  assumes "vol_ok s"
  shows "geometry_ok s" "cluster_size_bits s = sector_size_bits s + sectors_per_clu_bits s" "cluster_size s = 2 ^ cluster_size_bits s"
    "9 \<le> sector_size_bits s" "cluster_size_bits s < 32" "unat (sector_size s) = 2 ^ sector_size_bits s"
    "unat (cluster_size s) = 2 ^ cluster_size_bits s"
proof -
  show g: "geometry_ok s" "cluster_size_bits s = sector_size_bits s + sectors_per_clu_bits s" "cluster_size s = 2 ^ cluster_size_bits s"
    "9 \<le> sector_size_bits s" "cluster_size_bits s < 32"
    using assms by (auto simp: vol_ok_def clusters_ok_def fat_ok_def geometry_ok_def layout_ok_def)
  show "unat (sector_size s) = 2 ^ sector_size_bits s" by (rule unat_sector_size [OF g(1)])
  have "(2 :: nat) ^ cluster_size_bits s < 2 ^ 32" using g(5) by (rule power_strict_increasing) simp
  from unat_of_nat_u32 [OF this] show "unat (cluster_size s) = 2 ^ cluster_size_bits s" by (simp add: g(3))
qed

lemma sector_in_cluster:
  fixes p :: nat
  assumes "vol_ok s"
  shows "p mod 2 ^ cluster_size_bits s div 2 ^ sector_size_bits s < 2 ^ sectors_per_clu_bits s"
    "p div 2 ^ sector_size_bits s = p div 2 ^ cluster_size_bits s * 2 ^ sectors_per_clu_bits s + p mod 2 ^ cluster_size_bits s div 2 ^ sector_size_bits s"
    "p mod 2 ^ cluster_size_bits s mod 2 ^ sector_size_bits s = p mod 2 ^ sector_size_bits s"
proof -
  let ?b = "sector_size_bits s" and ?k = "sectors_per_clu_bits s"
  have e: "(2 :: nat) ^ cluster_size_bits s = 2 ^ ?b * 2 ^ ?k" using vol_sizes(2) [OF assms] by (simp add: power_add)
  have m: "p mod (2 ^ ?b * 2 ^ ?k) = 2 ^ ?b * (p div 2 ^ ?b mod 2 ^ ?k) + p mod 2 ^ ?b" by (rule mod_mult2_eq)
  then have d: "p mod (2 ^ ?b * 2 ^ ?k) div 2 ^ ?b = p div 2 ^ ?b mod 2 ^ ?k" by simp
  show "p mod 2 ^ cluster_size_bits s div 2 ^ ?b < 2 ^ ?k" unfolding e d by simp
  show "p div 2 ^ ?b = p div 2 ^ cluster_size_bits s * 2 ^ ?k + p mod 2 ^ cluster_size_bits s div 2 ^ ?b"
    unfolding e d div_mult2_eq by (rule div_mult_mod_eq [symmetric])
  show "p mod 2 ^ cluster_size_bits s mod 2 ^ ?b = p mod 2 ^ ?b" unfolding e m by simp
qed

lemma byte_cluster: "p < byte_room s xs \<Longrightarrow> xs \<noteq> [] \<Longrightarrow> p div 2 ^ cluster_size_bits s < length xs"
  by (simp add: byte_room_def less_mult_imp_div_less)

lemma byte_root: "p < byte_room s [] \<Longrightarrow> unat (root_start_sector s) + p div 2 ^ sector_size_bits s < unat (data_start_sector s)"
  using less_mult_imp_div_less [of p "unat (data_start_sector s) - unat (root_start_sector s)" "2 ^ sector_size_bits s"]
  by (simp add: byte_room_def)

lemma byte_sector_data:
  assumes "vol_ok s" "chain_clusters s ch xs" "p < byte_room s xs"
  shows "data_sector s (byte_sector s xs p)"
proof (cases "xs = []")
  case True
  let ?i = "p div 2 ^ sector_size_bits s"
  have i: "unat (root_start_sector s) + ?i < unat (data_start_sector s)"
    using byte_root assms(3) True by simp
  then have "unat (of_nat (unat (root_start_sector s) + ?i) :: u32) = unat (root_start_sector s) + ?i"
    by (intro unat_of_nat_u32) (use unat_u32 [of "data_start_sector s"] in linarith)
  then have "unat (byte_sector s xs p) = unat (root_start_sector s) + ?i" using True by (simp add: byte_sector_def add.commute)
  with i show ?thesis by (simp add: data_sector_def word_le_nat_alt)
next
  case False
  have "is_cluster s (xs ! (p div 2 ^ cluster_size_bits s))"
    using assms(2) byte_cluster [OF assms(3) False] False by (simp add: chain_clusters_def)
  then show ?thesis using clu_sector_data [OF assms(1) _ sector_in_cluster(1) [OF assms(1)]] False by (simp add: byte_sector_def)
qed

lemma byte_sector_inj:
  assumes "vol_ok s" "chain_clusters s ch xs" "p < byte_room s xs" "q < byte_room s xs" "byte_sector s xs p = byte_sector s xs q"
  shows "p div 2 ^ sector_size_bits s = q div 2 ^ sector_size_bits s"
proof (cases "xs = []")
  case True
  have "r div 2 ^ sector_size_bits s < 2 ^ 32" if "r < byte_room s xs" for r
    using byte_root [of r s] that True unat_u32 [of "data_start_sector s"] by simp
  note lt = this [OF assms(3)] this [OF assms(4)]
  have "(of_nat (p div 2 ^ sector_size_bits s) :: u32) = of_nat (q div 2 ^ sector_size_bits s)"
    using assms(5) True by (simp add: byte_sector_def)
  then have "unat (of_nat (p div 2 ^ sector_size_bits s) :: u32) = unat (of_nat (q div 2 ^ sector_size_bits s) :: u32)" by (rule arg_cong)
  then show ?thesis by (simp only: unat_of_nat_u32 [OF lt(1)] unat_of_nat_u32 [OF lt(2)])
next
  case False
  note c = byte_cluster [OF assms(3) False] byte_cluster [OF assms(4) False]
  have x: "distinct xs" "\<forall>x\<in>set xs. is_cluster s x" using assms(2) False by (simp_all add: chain_clusters_def)
  have "xs ! (p div 2 ^ cluster_size_bits s) = xs ! (q div 2 ^ cluster_size_bits s) \<and>
      p mod 2 ^ cluster_size_bits s div 2 ^ sector_size_bits s = q mod 2 ^ cluster_size_bits s div 2 ^ sector_size_bits s"
    by (rule clu_sector_inj [OF assms(1) _ _ sector_in_cluster(1) [OF assms(1)] sector_in_cluster(1) [OF assms(1)]])
      (use assms(5) False c x in \<open>simp_all add: byte_sector_def\<close>)
  then have "p div 2 ^ cluster_size_bits s = q div 2 ^ cluster_size_bits s"
    "p mod 2 ^ cluster_size_bits s div 2 ^ sector_size_bits s = q mod 2 ^ cluster_size_bits s div 2 ^ sector_size_bits s"
    using nth_eq_iff_index_eq [OF x(1) c] by simp_all
  then show ?thesis using sector_in_cluster(2) [OF assms(1), of p] sector_in_cluster(2) [OF assms(1), of q] by simp
qed

text \<open>The walk to the cluster of an offset.\<close>

lemma walk_fat_chain_run:
  assumes "vol_ok s" "chain_clusters s ch xs" "xs \<noteq> []" "p < byte_room s xs"
  obtains t where "run_state (walk_fat_chain ch (int p)) s = (Some (xs ! (p div 2 ^ cluster_size_bits s)), t)" "fat_step (bufs s) s t"
proof -
  let ?k = "p div 2 ^ cluster_size_bits s"
  have k: "?k < length xs" by (rule byte_cluster [OF assms(4,3)])
  have off: "drop_bit (cluster_size_bits s) (int p) = int ?k" by (simp add: drop_bit_eq_div zdiv_int)
  have c: "clusters_ok s" using assms(1) by (simp add: vol_ok_def)
  show thesis
  proof (cases "chain_flags ch = 3")
    case True
    then have "xs ! ?k = chain_dir ch + of_nat ?k" using assms(2,3) k by (simp add: chain_clusters_def)
    then have "run_state (walk_fat_chain ch (int p)) s = (Some (xs ! ?k), s)" using True by (simp add: walk_fat_chain_def off)
    then show ?thesis using that fat_step_refl c by (simp add: clusters_ok_def)
  next
    case False
    have x: "chain (fat_val s) (chain_dir ch) xs" "\<forall>x\<in>set xs. is_cluster s x"
      using assms(2) unfolding chain_clusters_def using assms(3) False by (auto simp only: if_False)
    then obtain t where "run_state (walk_chain_loop ?k (chain_dir ch)) s = (Some (xs ! ?k), t)" "fat_step (bufs s) s t"
      using walk_chain_loop_run [OF c _ k] by blast
    then show ?thesis using that False by (simp add: walk_fat_chain_def off)
  qed
qed

section \<open>Entries\<close>

definition entry_sector :: "vol \<Rightarrow> u32 list \<Rightarrow> nat \<Rightarrow> u32" where
  "entry_sector s xs i = byte_sector s xs (32 * i)"

definition entry_off :: "vol \<Rightarrow> nat \<Rightarrow> nat" where
  "entry_off s i = 32 * i mod 2 ^ sector_size_bits s"

text \<open>Entry \<open>i\<close>, and the number of entries there is room for.\<close>

definition entry_at :: "vol \<Rightarrow> u32 list \<Rightarrow> nat \<Rightarrow> u8 list" where
  "entry_at s xs i = take 32 (drop (entry_off s i) (bufs s (entry_sector s xs i)))"

definition entry_room :: "vol \<Rightarrow> u32 list \<Rightarrow> nat" where
  "entry_room s xs = byte_room s xs div 32"

lemma entry_byte: "i < entry_room s xs \<Longrightarrow> 32 * i < byte_room s xs"
  by (simp add: entry_room_def)

lemma entry_off_eq:
  assumes "vol_ok s"
  shows "entry_off s i = 32 * (i mod 2 ^ (sector_size_bits s - 5))" "entry_off s i + 32 \<le> 2 ^ sector_size_bits s"
proof -
  let ?m = "2 ^ (sector_size_bits s - 5) :: nat"
  have "(2 :: nat) ^ sector_size_bits s = 2 ^ (5 + (sector_size_bits s - 5))" using vol_sizes(4) [OF assms] by simp
  then have e: "(2 :: nat) ^ sector_size_bits s = 32 * ?m" by (simp add: power_add)
  show o: "entry_off s i = 32 * (i mod ?m)" unfolding entry_off_def e by (rule mult_mod_right [symmetric])
  have "i mod ?m < ?m" by simp
  then show "entry_off s i + 32 \<le> 2 ^ sector_size_bits s" unfolding o e by linarith
qed

lemma length_entry_at: "vol_ok s \<Longrightarrow> length (entry_at s xs i) = 32"
  using entry_off_eq(2) [of s i] vol_sizes(1) [of s] by (simp add: entry_at_def geometry_ok_def)

lemma of_int_push: "(of_int (push_bit 5 (int i)) :: u32) = of_nat (32 * i)"
  by (simp add: push_bit_eq_mult mult.commute)

lemma unat_of_nat_mod: "k \<le> 32 \<Longrightarrow> unat (of_nat n :: u32) mod 2 ^ k = n mod 2 ^ k"
proof -
  assume "k \<le> 32"
  then have "(2 :: nat) ^ k dvd 2 ^ 32" by (rule le_imp_power_dvd)
  moreover have "unat (of_nat n :: u32) = n mod 2 ^ 32" by (simp add: unat_of_nat take_bit_eq_mod)
  ultimately show ?thesis by (simp only: mod_mod_cancel)
qed

lemma drop_bit_int: "drop_bit k (int n) = int (n div 2 ^ k)"
  by (simp add: drop_bit_eq_div zdiv_int)

text \<open>The sector and the offset that the code computes from the cluster of a byte.\<close>

lemma byte_location:
  fixes p :: nat
  assumes "vol_ok s" "xs \<noteq> []"
  defines "w \<equiv> (of_int (int p) :: u32) AND (cluster_size s - 1)"
  shows "drop_bit (sector_size_bits s) w + START_SECTOR (xs ! (p div 2 ^ cluster_size_bits s)) s = byte_sector s xs p"
    "unat (w AND sector_size_mask s) = p mod 2 ^ sector_size_bits s"
proof -
  let ?b = "sector_size_bits s" and ?c = "cluster_size_bits s"
  note z = vol_sizes [OF assms(1)]
  have "cluster_size s - 1 = mask ?c" by (simp add: z(3) mask_eq_exp_minus_1)
  then have "unat w = take_bit ?c (unat (of_nat p :: u32))"
    by (simp only: w_def take_bit_eq_mask [symmetric] unsigned_take_bit_eq of_int_of_nat_eq)
  then have w: "unat w = p mod 2 ^ ?c"
    using unat_of_nat_mod [of ?c p] z(5) by (simp only: take_bit_eq_mod less_imp_le)
  have "drop_bit ?b w = of_nat (p mod 2 ^ ?c div 2 ^ ?b)"
  proof -
    have "p mod 2 ^ ?c div 2 ^ ?b < 2 ^ 32"
      using sector_in_cluster(1) [OF assms(1), of p] z(2,5) power_strict_increasing [of "sectors_per_clu_bits s" 32 "2::nat"] by simp
    from unat_of_nat_u32 [OF this] show ?thesis unfolding word_unat_eq_iff unat_drop_bit_eq w by (simp add: drop_bit_eq_div)
  qed
  then show "drop_bit ?b w + START_SECTOR (xs ! (p div 2 ^ ?c)) s = byte_sector s xs p"
    using assms(2) by (simp add: byte_sector_def clu_sector_def)
  show "unat (w AND sector_size_mask s) = p mod 2 ^ sector_size_bits s"
    unfolding and_size_mask [OF z(1)] w by (simp add: sector_in_cluster(3) [OF assms(1)])
qed

lemmas cluster_location = byte_location [where p = "32 * i" for i, folded entry_sector_def entry_off_def]

lemma find_location_run:
  assumes "vol_ok s" "chain_clusters s ch xs" "i < entry_room s xs"
  obtains t where "run_state (find_location ch (int i)) s = (Some (entry_sector s xs i, entry_off s i), t)" "fat_step (bufs s) s t"
proof -
  let ?b = "sector_size_bits s" and ?c = "cluster_size_bits s"
  note z = vol_sizes [OF assms(1)]
  have b32: "?b \<le> 32" "?c \<le> 32" using z(2,5) by simp_all
  have off: "push_bit 5 (int i) = int (32 * i)" by (simp add: push_bit_eq_mult mult.commute)
  show thesis
  proof (cases "xs = []")
    case True
    then have d: "chain_dir ch = 0" using assms(2) by (simp add: chain_clusters_def)
    have s: "(of_int (drop_bit ?b (int (32 * i))) :: u32) + root_start_sector s = entry_sector s xs i"
      unfolding drop_bit_int of_int_of_nat_eq using True by (simp add: entry_sector_def byte_sector_def)
    have o: "unat ((of_int (int (32 * i)) :: u32) AND sector_size_mask s) = entry_off s i"
      using unat_of_nat_mod [OF b32(1), of "32 * i"] by (simp add: and_size_mask [OF z(1)] entry_off_def)
    have "run_state (find_location ch (int i)) s = (Some (entry_sector s xs i, entry_off s i), s)"
      unfolding find_location_def by (simp only: run_state_bind run_gets prod.case id_apply Let_def d simp_thms if_True run_state_return off s o)
    moreover have "fat_ok s" using assms(1) by (simp add: vol_ok_def clusters_ok_def)
    ultimately show ?thesis using that fat_step_refl by blast
  next
    case False
    obtain t where t: "run_state (walk_fat_chain ch (int (32 * i))) s = (Some (xs ! (32 * i div 2 ^ ?c)), t)" "fat_step (bufs s) s t"
      using walk_fat_chain_run [OF assms(1,2) False entry_byte [OF assms(3)]] .
    have "is_cluster s (hd xs)" "chain_dir ch = hd xs" using assms(2) False by (simp_all add: chain_clusters_def)
    then have d: "chain_dir ch \<noteq> 0" by (auto simp: is_cluster_def)
    note s = cluster_location [OF assms(1) False, of i]
    have "run_state (find_location ch (int i)) s = (Some (entry_sector s xs i, entry_off s i), t)"
      unfolding find_location_def
      by (simp only: run_state_bind run_gets prod.case id_apply Let_def d if_False off t option.case run_state_return s)
    then show ?thesis using that t(2) by blast
  qed
qed

lemma get_entry_in_dir_run:
  assumes "vol_ok s" "chain_clusters s ch xs" "i < entry_room s xs"
  obtains t y where "run_state (get_entry_in_dir ch (int i)) s = (Some ((entry_sector s xs i, entry_off s i), entry_sector s xs i), t)"
    "vol_step s t" "fat_val t = fat_val s" "bufs t = bufs s" "holds BUFC t (entry_sector s xs i) y"
proof -
  obtain u where u: "run_state (find_location ch (int i)) s = (Some (entry_sector s xs i, entry_off s i), u)" "fat_step (bufs s) s u"
    using find_location_run [OF assms] .
  note fu = fat_step_vol [OF assms(1) u(2)]
  have "data_sector u (entry_sector s xs i)"
    using byte_sector_data [OF assms(1,2) entry_byte [OF assms(3)]] by (simp add: vol_step_fields [OF fu(1)] entry_sector_def)
  then obtain t y where t: "run_state (buf_getblk (entry_sector s xs i)) u = (Some (entry_sector s xs i), t)" "vol_step u t"
    "fat_val t = fat_val u" "bufs t = bufs u" "holds BUFC t (entry_sector s xs i) y"
    using buf_getblk_vol [OF vol_step_ok [OF fu(1)]] by blast
  then show ?thesis using that u(1) vol_step_trans [OF fu(1) t(2)] fu by (simp add: get_entry_in_dir_def)
qed

text \<open>Steps that change entries of a directory only.\<close>

definition dir_step :: "u32 list \<Rightarrow> vol \<Rightarrow> vol \<Rightarrow> bool" where
  "dir_step xs s t \<longleftrightarrow> vol_step s t \<and> (\<forall>c. is_cluster s c \<longrightarrow> fat_val t c = fat_val s c) \<and>
     (\<forall>x. (\<forall>i<entry_room s xs. x \<noteq> entry_sector s xs i) \<longrightarrow> bufs t x = bufs s x)"

lemma vol_step_dir:
  assumes "vol_step s t"
  shows "byte_sector t xs = byte_sector s xs" "byte_room t xs = byte_room s xs" "entry_sector t xs = entry_sector s xs"
    "entry_off t = entry_off s" "entry_room t xs = entry_room s xs"
  by (simp_all add: byte_sector_def byte_room_def entry_sector_def entry_off_def entry_room_def vol_step_fields [OF assms] fun_eq_iff)

lemma chain_clusters_vals:
  assumes "vol_step s t" "\<forall>c. is_cluster s c \<longrightarrow> fat_val t c = fat_val s c"
  shows "chain_clusters t ch xs = chain_clusters s ch xs"
proof -
  have "chain (fat_val t) (chain_dir ch) xs = chain (fat_val s) (chain_dir ch) xs" if "\<forall>x\<in>set xs. is_cluster s x"
    by (rule chain_cong) (use assms(2) that in blast)
  then show ?thesis by (auto simp: chain_clusters_def vol_step_fields [OF assms(1)])
qed

lemma chain_clusters_step: "dir_step ys s t \<Longrightarrow> chain_clusters t ch xs = chain_clusters s ch xs"
  by (rule chain_clusters_vals) (simp_all add: dir_step_def)

lemma dir_step_refl: "vol_ok s \<Longrightarrow> dir_step xs s s"
  by (simp add: dir_step_def vol_step_refl)

lemma dir_step_trans: "dir_step xs s t \<Longrightarrow> dir_step xs t u \<Longrightarrow> dir_step xs s u"
  using vol_step_trans [of s t u] vol_step_dir [of s t] vol_step_fields(4) [of s t] by (auto simp: dir_step_def)

lemma dir_step_same: "vol_step s t \<Longrightarrow> fat_val t = fat_val s \<Longrightarrow> bufs t = bufs s \<Longrightarrow> dir_step xs s t"
  by (simp add: dir_step_def)

lemma entry_at_same: "vol_step s t \<Longrightarrow> bufs t = bufs s \<Longrightarrow> entry_at t xs = entry_at s xs"
  using vol_step_dir [of s t] by (simp add: entry_at_def fun_eq_iff)

text \<open>Changing an entry through its pointer, and marking its sector.\<close>

lemma take_drop_put:
  assumes "length e = 32" "off + 32 \<le> length p"
  shows "take 32 (drop off (take off p @ e @ drop (off + 32) p)) = e"
    "off' + 32 \<le> off \<or> off + 32 \<le> off' \<Longrightarrow> take 32 (drop off' (take off p @ e @ drop (off + 32) p)) = take 32 (drop off' p)"
proof -
  have l: "length (take off p @ e @ drop (off + 32) p) = length p" using assms by simp
  show "take 32 (drop off (take off p @ e @ drop (off + 32) p)) = e" using assms by simp
  show "take 32 (drop off' (take off p @ e @ drop (off + 32) p)) = take 32 (drop off' p)" if "off' + 32 \<le> off \<or> off + 32 \<le> off'"
  proof (rule nth_equalityI)
    show "length (take 32 (drop off' (take off p @ e @ drop (off + 32) p))) = length (take 32 (drop off' p))"
      unfolding length_take length_drop l ..
    fix i assume "i < length (take 32 (drop off' (take off p @ e @ drop (off + 32) p)))"
    then show "take 32 (drop off' (take off p @ e @ drop (off + 32) p)) ! i = take 32 (drop off' p) ! i"
      using assms that by (auto simp: nth_append)
  qed
qed

lemma apart32: "32 * a \<noteq> 32 * (b :: nat) \<Longrightarrow> 32 * a + 32 \<le> 32 * b \<or> 32 * b + 32 \<le> 32 * a"
  by arith

lemma upd_entry_run:
  assumes "vol_ok s" "chain_clusters s ch xs" "i < entry_room s xs" "holds BUFC s (entry_sector s xs i) y"
    "length (f (entry_at s xs i)) = 32"
  obtains u t where "run_state (upd_ep (entry_sector s xs i, entry_off s i) f) s = ((), u)"
    "run_state (buf_modify (entry_sector s xs i)) u = ((), t)" "dir_step xs s t"
    "\<And>j. j < entry_room s xs \<Longrightarrow> entry_at t xs j = (if j = i then f (entry_at s xs i) else entry_at s xs j)"
    "dirty t = (dirty s)(entry_sector s xs i := True)" "holds BUFC t (entry_sector s xs i) y"
    "\<And>x. x \<noteq> entry_sector s xs i \<Longrightarrow> bufs t x = bufs s x"
proof -
  let ?x = "entry_sector s xs i" and ?o = "entry_off s i"
  define p where "p = take ?o (bufs s ?x) @ f (entry_at s xs i) @ drop (?o + 32) (bufs s ?x)"
  have l: "length (bufs s z) = 2 ^ sector_size_bits s" for z using vol_sizes(1) [OF assms(1)] by (simp add: geometry_ok_def)
  note o = entry_off_eq(2) [OF assms(1), of i]
  have lp: "length p = length (bufs s ?x)" using o assms(5) l by (simp add: p_def)
  have d: "data_sector s ?x" using byte_sector_data [OF assms(1,2) entry_byte [OF assms(3)]] by (simp add: entry_sector_def)
  obtain t where t: "run_state (do { _ \<leftarrow> set_buf ?x (\<lambda>_. p); buf_modify ?x }) s = ((), t)" "vol_step s t"
    "\<And>c. is_cluster s c \<Longrightarrow> fat_val t c = fat_val s c" "bufs t = (bufs s)(?x := p)" "dirty t = (dirty s)(?x := True)" "holds BUFC t ?x y"
    by (rule buf_update_vol [OF assms(1) d assms(4) lp]) (rule that)
  have u: "run_state (upd_ep (?x, ?o) f) s = ((), s\<lparr>bufs := (bufs s)(?x := p)\<rparr>)"
    by (simp add: upd_ep_def read_ep_def write_ep_def set_buf_def p_def entry_at_def)
  have m: "run_state (buf_modify ?x) (s\<lparr>bufs := (bufs s)(?x := p)\<rparr>) = ((), t)" using t(1) by (simp add: set_buf_def)
  have e: "entry_at t xs j = (if j = i then f (entry_at s xs i) else entry_at s xs j)" if j: "j < entry_room s xs" for j
  proof (cases "entry_sector s xs j = ?x")
    case False
    then show ?thesis by (auto simp: entry_at_def vol_step_dir [OF t(2)] t(4))
  next
    case True
    show ?thesis
    proof (cases "j = i")
      case eq: True
      show ?thesis
        using take_drop_put(1) [of "f (entry_at s xs i)" ?o "bufs s ?x"] o l assms(5) eq
        by (simp add: entry_at_def vol_step_dir [OF t(2)] t(4) p_def)
    next
      case ne: False
      have q: "32 * j div 2 ^ sector_size_bits s = 32 * i div 2 ^ sector_size_bits s"
        using byte_sector_inj [OF assms(1,2) entry_byte [OF j] entry_byte [OF assms(3)]] True by (simp add: entry_sector_def)
      have "32 * j = 32 * j div 2 ^ sector_size_bits s * 2 ^ sector_size_bits s + entry_off s j"
        "32 * i = 32 * i div 2 ^ sector_size_bits s * 2 ^ sector_size_bits s + ?o"
        unfolding entry_off_def by (rule div_mult_mod_eq [symmetric])+
      then have "entry_off s j \<noteq> ?o" using q ne by simp
      then have "entry_off s j + 32 \<le> ?o \<or> ?o + 32 \<le> entry_off s j"
        unfolding entry_off_eq(1) [OF assms(1)] by (rule apart32)
      then show ?thesis
        using take_drop_put(2) [of "f (entry_at s xs i)" ?o "bufs s ?x" "entry_off s j"] o l assms(5) ne True
        by (simp add: entry_at_def vol_step_dir [OF t(2)] t(4) p_def)
    qed
  qed
  have "dir_step xs s t" using t(2,3,4) assms(3) by (auto simp: dir_step_def)
  then show ?thesis using that [OF u m] e t(4,5,6) by simp
qed

section \<open>The contract of an array of entries\<close>

text \<open>
  What the code that works on the entries of a directory relies on: an entry in range can be fetched and changed,
  and changing it changes no other one.
\<close>

locale entry_array =
  fixes good :: "'s \<Rightarrow> bool"
    and room :: "'s \<Rightarrow> nat"
    and entry :: "'s \<Rightarrow> nat \<Rightarrow> u8 list"
    and keep :: "'s \<Rightarrow> 's \<Rightarrow> bool"
    and fetch :: "s32 \<Rightarrow> ('s, u8 list option) state"
    and change :: "s32 \<Rightarrow> (u8 list \<Rightarrow> u8 list) \<Rightarrow> ('s, bool) state"
  assumes len: "good s \<Longrightarrow> length (entry s i) = 32"
    and fetch_spec: "good s \<Longrightarrow> i < room s \<Longrightarrow>
      \<exists>t. run_state (fetch (int i)) s = (Some (entry s i), t) \<and> keep s t \<and> (\<forall>j<room s. entry t j = entry s j)"
    and change_spec: "good s \<Longrightarrow> i < room s \<Longrightarrow> length (f (entry s i)) = 32 \<Longrightarrow>
      \<exists>t. run_state (change (int i) f) s = (True, t) \<and> keep s t \<and>
        (\<forall>j<room s. entry t j = (if j = i then f (entry s i) else entry s j))"
    and keep_good: "keep s t \<Longrightarrow> good s \<Longrightarrow> good t \<and> room t = room s"
    and keep_refl: "good s \<Longrightarrow> keep s s"
    and keep_trans: "keep s t \<Longrightarrow> keep t u \<Longrightarrow> keep s u"
begin

text \<open>Changing several entries one after the other.\<close>

fun change_all :: "(s32 \<times> (u8 list \<Rightarrow> u8 list)) list \<Rightarrow> ('s, bool) state" where
  "change_all [] = ret True"
| "change_all ((i, f) # us) = do { ok \<leftarrow> change i f; if ok then change_all us else ret False }"

lemma change_all_run:
  assumes "good s" "distinct (map fst us)" "\<forall>(i, f)\<in>set us. 0 \<le> i \<and> nat i < room s \<and> (\<forall>e. length e = 32 \<longrightarrow> length (f e) = 32)"
  shows "\<exists>t. run_state (change_all us) s = (True, t) \<and> keep s t \<and>
    (\<forall>j<room s. entry t j = (case map_of us (int j) of None \<Rightarrow> entry s j | Some f \<Rightarrow> f (entry s j)))"
  using assms
proof (induction us arbitrary: s)
  case Nil
  then show ?case using keep_refl by simp
next
  case (Cons u us)
  obtain i' f where u': "u = (i', f)" by (cases u)
  define i where "i = nat i'"
  have u: "u = (int i, f)" using Cons.prems(3) u' by (simp add: i_def)
  have i: "i < room s" "length (f (entry s i)) = 32" using Cons.prems(1,3) len u by auto
  obtain t where t: "run_state (change (int i) f) s = (True, t)" "keep s t"
    "\<forall>j<room s. entry t j = (if j = i then f (entry s i) else entry s j)" using change_spec [where f = f and i = i, OF Cons.prems(1) i] by blast
  note k = keep_good [OF t(2) Cons.prems(1)]
  obtain v where v: "run_state (change_all us) t = (True, v)" "keep t v"
    "\<forall>j<room s. entry v j = (case map_of us (int j) of None \<Rightarrow> entry t j | Some f \<Rightarrow> f (entry t j))"
    using Cons.IH [of t] k Cons.prems(2,3) u by auto
  have "map_of us (int i) = None" using Cons.prems(2) u by (simp add: map_of_eq_None_iff)
  then have "\<forall>j<room s. entry v j = (case map_of (u # us) (int j) of None \<Rightarrow> entry s j | Some f \<Rightarrow> f (entry s j))"
    using v(3) t(3) u by (auto split: option.splits)
  then show ?case using t(1) v(1) keep_trans [OF t(2) v(2)] u by auto
qed

text \<open>Fetching several entries one after the other.\<close>

fun fetch_all :: "s32 list \<Rightarrow> ('s, u8 list list option) state" where
  "fetch_all [] = ret (Some [])"
| "fetch_all (i # is) = do {
     r \<leftarrow> fetch i;
     case r of None \<Rightarrow> ret None
     | Some e \<Rightarrow> do { es \<leftarrow> fetch_all is; ret (map_option ((#) e) es) } }"

lemma fetch_all_run:
  assumes "good s" "\<forall>i\<in>set is. i < room s"
  shows "\<exists>t. run_state (fetch_all (map int is)) s = (Some (map (entry s) is), t) \<and> keep s t \<and> (\<forall>j<room s. entry t j = entry s j)"
  using assms
proof (induction "is" arbitrary: s)
  case Nil
  then show ?case using keep_refl by simp
next
  case (Cons i "is")
  obtain t where t: "run_state (fetch (int i)) s = (Some (entry s i), t)" "keep s t" "\<forall>j<room s. entry t j = entry s j"
    using fetch_spec [OF Cons.prems(1), of i] Cons.prems(2) by auto
  note k = keep_good [OF t(2) Cons.prems(1)]
  obtain v where v: "run_state (fetch_all (map int is)) t = (Some (map (entry t) is), v)" "keep t v" "\<forall>j<room s. entry v j = entry t j"
    using Cons.IH [of t] k Cons.prems(2) by auto
  have "map (entry t) is = map (entry s) is" using t(3) Cons.prems(2) by simp
  then show ?case using t v keep_trans [OF t(2) v(2)] by auto
qed

end

text \<open>The two operations on a directory.\<close>

definition fetch_entry :: "CHAIN_T \<Rightarrow> s32 \<Rightarrow> u8 list option fsM" where
  "fetch_entry ch i = do {
     r \<leftarrow> get_entry_in_dir ch i;
     case r of None \<Rightarrow> ret None | Some (ep, _) \<Rightarrow> do { e \<leftarrow> read_ep ep; ret (Some e) } }"

definition edit_entry :: "CHAIN_T \<Rightarrow> s32 \<Rightarrow> (u8 list \<Rightarrow> u8 list) \<Rightarrow> bool fsM" where
  "edit_entry ch i f = do {
     r \<leftarrow> get_entry_in_dir ch i;
     case r of None \<Rightarrow> ret False | Some (ep, sct) \<Rightarrow> do { _ \<leftarrow> upd_ep ep f; _ \<leftarrow> buf_modify sct; ret True } }"

definition is_dir :: "CHAIN_T \<Rightarrow> u32 list \<Rightarrow> vol \<Rightarrow> bool" where
  "is_dir ch xs s \<longleftrightarrow> vol_ok s \<and> chain_clusters s ch xs"

lemma fetch_entry_run:
  assumes "is_dir ch xs s" "i < entry_room s xs"
  shows "\<exists>t. run_state (fetch_entry ch (int i)) s = (Some (entry_at s xs i), t) \<and> dir_step xs s t \<and> entry_at t xs = entry_at s xs"
proof -
  obtain t y where t: "run_state (get_entry_in_dir ch (int i)) s = (Some ((entry_sector s xs i, entry_off s i), entry_sector s xs i), t)"
    "vol_step s t" "fat_val t = fat_val s" "bufs t = bufs s"
    using get_entry_in_dir_run [of s ch xs i] assms unfolding is_dir_def by metis
  then show ?thesis
    using dir_step_same [OF t(2-4)] entry_at_same [OF t(2,4)] by (simp add: fetch_entry_def read_ep_def entry_at_def)
qed

lemma edit_entry_run:
  assumes "is_dir ch xs s" "i < entry_room s xs" "length (f (entry_at s xs i)) = 32"
  shows "\<exists>t. run_state (edit_entry ch (int i) f) s = (True, t) \<and> dir_step xs s t \<and>
    (\<forall>j<entry_room s xs. entry_at t xs j = (if j = i then f (entry_at s xs i) else entry_at s xs j)) \<and> dirty t (entry_sector s xs i)"
proof -
  obtain t y where t: "run_state (get_entry_in_dir ch (int i)) s = (Some ((entry_sector s xs i, entry_off s i), entry_sector s xs i), t)"
    "vol_step s t" "fat_val t = fat_val s" "bufs t = bufs s" "holds BUFC t (entry_sector s xs i) y"
    using get_entry_in_dir_run [of s ch xs i] assms(1,2) unfolding is_dir_def by metis
  have st: "dir_step xs s t" by (rule dir_step_same [OF t(2-4)])
  note e = entry_at_same [OF t(2,4), of xs] and v = vol_step_dir [OF t(2)]
  have c: "chain_clusters t ch xs" using chain_clusters_step [OF st] assms(1) by (simp add: is_dir_def)
  have "i < entry_room t xs" "holds BUFC t (entry_sector t xs i) y" "length (f (entry_at t xs i)) = 32" using assms(2,3) t(5) e v by simp_all
  note upd = upd_entry_run [where f = f and i = i, OF vol_step_ok [OF t(2)] c this, unfolded v e]
  obtain u w where "run_state (upd_ep (entry_sector s xs i, entry_off s i) f) t = ((), u)"
    "run_state (buf_modify (entry_sector s xs i)) u = ((), w)" "dir_step xs t w"
    "\<forall>j<entry_room s xs. entry_at w xs j = (if j = i then f (entry_at s xs i) else entry_at s xs j)" "dirty w (entry_sector s xs i)"
    by (rule upd) (rule that, assumption+, simp_all)
  then show ?thesis using t(1) dir_step_trans [OF st] by (auto simp: edit_entry_def)
qed

interpretation ea: entry_array "is_dir ch xs" "\<lambda>s. entry_room s xs" "\<lambda>s. entry_at s xs" "dir_step xs" "fetch_entry ch" "edit_entry ch"
  for ch xs
proof
  fix s t u :: vol and i :: nat and f
  show "is_dir ch xs s \<Longrightarrow> length (entry_at s xs i) = 32" by (simp add: is_dir_def length_entry_at)
  show "is_dir ch xs s \<Longrightarrow> i < entry_room s xs \<Longrightarrow> \<exists>t. run_state (fetch_entry ch (int i)) s = (Some (entry_at s xs i), t) \<and>
      dir_step xs s t \<and> (\<forall>j<entry_room s xs. entry_at t xs j = entry_at s xs j)"
    using fetch_entry_run [of ch xs s i] by auto
  show "is_dir ch xs s \<Longrightarrow> i < entry_room s xs \<Longrightarrow> length (f (entry_at s xs i)) = 32 \<Longrightarrow>
      \<exists>t. run_state (edit_entry ch (int i) f) s = (True, t) \<and> dir_step xs s t \<and>
        (\<forall>j<entry_room s xs. entry_at t xs j = (if j = i then f (entry_at s xs i) else entry_at s xs j))"
    using edit_entry_run [of ch xs s i f] by auto
  show "dir_step xs s t \<Longrightarrow> is_dir ch xs s \<Longrightarrow> is_dir ch xs t \<and> entry_room t xs = entry_room s xs"
    using chain_clusters_step [of xs s t ch xs] vol_step_ok [of s t] vol_step_dir [of s t] by (auto simp: is_dir_def dir_step_def)
  show "is_dir ch xs s \<Longrightarrow> dir_step xs s s" by (simp add: is_dir_def dir_step_refl)
  show "dir_step xs s t \<Longrightarrow> dir_step xs t u \<Longrightarrow> dir_step xs s u" by (rule dir_step_trans)
qed

section \<open>Locking a buffer\<close>

definition all_unlocked :: "vol \<Rightarrow> bool" where
  "all_unlocked s \<longleftrightarrow> (\<forall>x. unlocked (buf_cache s) x)"

definition flag_slot :: "cref \<Rightarrow> (u32 \<Rightarrow> u32) \<Rightarrow> CACHE \<Rightarrow> CACHE" where
  "flag_slot y g c = c\<lparr>slot := (slot c)(y := (slot c y)\<lparr>bc_flag := g (bc_flag (slot c y))\<rparr>)\<rparr>"

lemma vol_step_unlocked: "vol_step s t \<Longrightarrow> all_unlocked s \<Longrightarrow> all_unlocked t"
  by (simp add: vol_step_def all_unlocked_def locks_kept_def)

lemma vol_ok_buf_cache:
  "vol_ok (s\<lparr>buf_cache := c\<rparr>) \<longleftrightarrow> clusters_ok s \<and> cache_ok BUFC (s\<lparr>buf_cache := c\<rparr>) \<and> spare BUFC c \<and> layout_ok s"
proof -
  have "fat_ok (s\<lparr>buf_cache := c\<rparr>) = fat_ok s" by (simp add: fat_ok_def cache_ok_def device_ok_def geometry_ok_def out_of_range_def)
  moreover have "is_cluster (s\<lparr>buf_cache := c\<rparr>) = is_cluster s" "loc_ok (s\<lparr>buf_cache := c\<rparr>) = loc_ok s"
    by (simp_all add: is_cluster_def loc_ok_def fat_len_def fun_eq_iff)
  moreover have "layout_ok (s\<lparr>buf_cache := c\<rparr>) = layout_ok s" by (simp add: layout_ok_def out_of_range_def)
  ultimately show ?thesis by (simp add: vol_ok_def clusters_ok_def)
qed

lemma buf_lock_run:
  assumes "vol_ok s" "holds BUFC s x y"
  shows "run_state (buf_lock x) s = ((), s\<lparr>buf_cache := flag_slot y (\<lambda>f. f OR LOCKBIT) (buf_cache s)\<rparr>)"
    "run_state (buf_unlock x) s = ((), s\<lparr>buf_cache := flag_slot y (\<lambda>f. f AND NOT LOCKBIT) (buf_cache s)\<rparr>)"
proof -
  have "cache_ok BUFC s" using assms(1) by (simp add: vol_ok_def)
  note f = cache_find_Some [OF this assms(2)]
  show "run_state (buf_lock x) s = ((), s\<lparr>buf_cache := flag_slot y (\<lambda>f. f OR LOCKBIT) (buf_cache s)\<rparr>)"
    "run_state (buf_unlock x) s = ((), s\<lparr>buf_cache := flag_slot y (\<lambda>f. f AND NOT LOCKBIT) (buf_cache s)\<rparr>)"
    by (simp_all add: buf_lock_def buf_unlock_def f upd_slot_def flag_slot_def)
qed

lemma lockbit: "(f OR LOCKBIT) AND LOCKBIT \<noteq> 0" "(f AND NOT LOCKBIT) AND LOCKBIT = 0"
proof -
  have "bit ((f OR LOCKBIT) AND LOCKBIT) 0" by (simp add: LOCKBIT_def bit_and_iff bit_or_iff)
  then show "(f OR LOCKBIT) AND LOCKBIT \<noteq> 0" by (metis bit_0_eq bot_apply bot_bool_def)
  show "(f AND NOT LOCKBIT) AND LOCKBIT = 0" by (rule bit_word_eqI) (auto simp: bit_and_iff bit_not_iff)
qed

lemma flag_slot_unlocked:
  "unlocked (flag_slot y (\<lambda>f. f OR LOCKBIT) c) z \<longleftrightarrow> z \<noteq> y \<and> unlocked c z"
  "unlocked (flag_slot y (\<lambda>f. f AND NOT LOCKBIT) c) z \<longleftrightarrow> z = y \<or> unlocked c z"
  using lockbit by (auto simp: flag_slot_def unlocked_def)

text \<open>The volume with one buffer locked, and what remains of a step after it has been unlocked again.\<close>

lemma locked_vol_ok:
  assumes "vol_ok s" "all_unlocked s" "holds BUFC s x y"
  defines "s' \<equiv> s\<lparr>buf_cache := flag_slot y (\<lambda>f. f OR LOCKBIT) (buf_cache s)\<rparr>"
  shows "vol_ok s'" "holds BUFC s' x y" "\<not> unlocked (buf_cache s') y" "\<And>z. z \<noteq> y \<Longrightarrow> unlocked (buf_cache s') z"
proof -
  have "cache_ok BUFC s" using assms(1) by (simp add: vol_ok_def)
  then have c: "cache_ok BUFC s'" using keepsD [OF buf_lock_keeps _ buf_lock_run(1) [OF assms(1,3)]] by (simp add: s'_def)
  obtain z where z: "z \<in> slots BUFC" "z \<noteq> y"
  proof (cases "y = CSlot 0")
    case True
    then show ?thesis using that [of "CSlot 1"] by (simp add: slots_def cache_consts)
  next
    case False
    then show ?thesis using that [of "CSlot 0"] by (simp add: slots_def cache_consts)
  qed
  have u: "unlocked (buf_cache s) z" for z using assms(2) by (simp add: all_unlocked_def)
  have "spare BUFC (buf_cache s')" using z u by (auto simp: spare_def s'_def flag_slot_unlocked)
  then show "vol_ok s'" using c assms(1) by (simp add: s'_def vol_ok_buf_cache) (simp add: vol_ok_def)
  show "holds BUFC s' x y" using assms(3) by (simp add: s'_def holds_def flag_slot_def)
  show "\<not> unlocked (buf_cache s') y" "\<And>z. z \<noteq> y \<Longrightarrow> unlocked (buf_cache s') z" using u by (simp_all add: s'_def flag_slot_unlocked)
qed

lemma locks_kept_holds:
  "vol_step s t \<Longrightarrow> holds BUFC s x y \<Longrightarrow> \<not> unlocked (buf_cache s) y \<Longrightarrow> holds BUFC t x y"
  by (rule vol_step_eq [of s t]) (auto simp: holds_def vol_step_def locks_kept_def)

lemma fat_val_buf_cache: "fat_val (s\<lparr>buf_cache := c\<rparr>) = fat_val s"
proof -
  have "fat_byte (s\<lparr>buf_cache := c\<rparr>) = fat_byte s" by (rule ext) (simp add: fat_byte_def fat_sector_def)
  then show ?thesis by (intro ext) (simp add: fat_val_def)
qed

lemma dir_buf_cache:
  "entry_at (s\<lparr>buf_cache := c\<rparr>) xs = entry_at s xs" "entry_room (s\<lparr>buf_cache := c\<rparr>) xs = entry_room s xs"
  "entry_sector (s\<lparr>buf_cache := c\<rparr>) xs = entry_sector s xs" "entry_off (s\<lparr>buf_cache := c\<rparr>) = entry_off s"
  "chain_clusters (s\<lparr>buf_cache := c\<rparr>) ch ys = chain_clusters s ch ys" "is_cluster (s\<lparr>buf_cache := c\<rparr>) = is_cluster s"
  by (auto simp: entry_at_def entry_room_def entry_sector_def entry_off_def byte_room_def byte_sector_def clu_sector_def START_SECTOR_def
      chain_clusters_def fat_val_buf_cache is_cluster_def fun_eq_iff)

lemma lock_step_unlock:
  assumes "vol_ok s" "all_unlocked s" "holds BUFC s x y"
    and "dir_step xs (s\<lparr>buf_cache := flag_slot y (\<lambda>f. f OR LOCKBIT) (buf_cache s)\<rparr>) t"
  defines "u \<equiv> t\<lparr>buf_cache := flag_slot y (\<lambda>f. f AND NOT LOCKBIT) (buf_cache t)\<rparr>"
  shows "run_state (buf_unlock x) t = ((), u)" "dir_step xs s u" "all_unlocked u" "entry_at u xs = entry_at t xs"
proof -
  let ?s = "s\<lparr>buf_cache := flag_slot y (\<lambda>f. f OR LOCKBIT) (buf_cache s)\<rparr>"
  note l = locked_vol_ok [OF assms(1-3)]
  have st: "vol_step ?s t" and fv: "\<forall>c. is_cluster s c \<longrightarrow> fat_val t c = fat_val s c"
    and bs: "\<forall>x. (\<forall>i<entry_room s xs. x \<noteq> entry_sector s xs i) \<longrightarrow> bufs t x = bufs s x"
    using assms(4) by (simp_all add: dir_step_def dir_buf_cache fat_val_buf_cache)
  have h: "holds BUFC t x y" by (rule locks_kept_holds [OF st l(2,3)])
  show run: "run_state (buf_unlock x) t = ((), u)" unfolding u_def by (rule buf_lock_run(2) [OF vol_step_ok [OF st] h])
  have v: "vol_ok t" by (rule vol_step_ok [OF st])
  have "unlocked (buf_cache t) z" if "z \<noteq> y" for z
    using st l(4) [OF that] by (auto simp: vol_step_def locks_kept_def)
  then have un: "unlocked (buf_cache u) z" for z by (auto simp: u_def flag_slot_unlocked)
  then show au: "all_unlocked u" by (simp add: all_unlocked_def)
  have "cache_ok BUFC u" using keepsD [OF buf_unlock_keeps _ run] v by (simp add: vol_ok_def)
  moreover have "spare BUFC (buf_cache u)" using un slots_nonempty [of BUFC] by (auto simp: spare_def)
  ultimately have vu: "vol_ok u" using v by (simp add: u_def vol_ok_buf_cache) (simp add: vol_ok_def)
  have "u = s\<lparr>FAT_cache := FAT_cache u, buf_cache := buf_cache u, env_pos := env_pos u, dirty := dirty u, bufs := bufs u\<rparr>"
    by (rule vol_step_eq [OF st]) (simp add: u_def)
  moreover have "locks_kept (buf_cache s) (buf_cache u)" using assms(2) un by (simp add: locks_kept_def all_unlocked_def)
  ultimately have "vol_step s u" using vu by (simp add: vol_step_def)
  then show "dir_step xs s u" using fv bs by (simp add: dir_step_def u_def fat_val_buf_cache)
  show "entry_at u xs = entry_at t xs" by (simp add: u_def dir_buf_cache)
qed

section \<open>The code in terms of the contract\<close>

lemma change_then:
  "run_state (do { ok \<leftarrow> edit_entry ch i f; if ok then A else B }) s =
   run_state (do { r \<leftarrow> get_entry_in_dir ch i;
     case r of None \<Rightarrow> B | Some (ep, sct) \<Rightarrow> do { _ \<leftarrow> upd_ep ep f; _ \<leftarrow> buf_modify sct; A } }) s"
  by (auto simp: edit_entry_def split: option.splits prod.splits)

lemma fetch_then:
  "run_state (do { r \<leftarrow> fetch_entry ch i; case r of None \<Rightarrow> B | Some e \<Rightarrow> A e }) s =
   run_state (do { r \<leftarrow> get_entry_in_dir ch i;
     case r of None \<Rightarrow> B | Some (ep, sct) \<Rightarrow> do { e \<leftarrow> read_ep ep; A e } }) s"
  by (auto simp: fetch_entry_def split: option.splits prod.splits)

text \<open>The checksum of a list of entries: the first one without its checksum field.\<close>

fun entries_checksum :: "u8 list list \<Rightarrow> u16" where
  "entries_checksum [] = 0"
| "entries_checksum (e # es) =
     fold (\<lambda>e c. calc_checksum_2byte e DENTRY_SIZE c CS_DEFAULT) es (calc_checksum_2byte e DENTRY_SIZE 0 CS_DIR_ENTRY)"

lemma checksum_loop_eq:
  "run_state (checksum_loop n ch i c) s =
   run_state (do { r \<leftarrow> ea.fetch_all ch (map (\<lambda>k. i + int k) [0..<n]);
     ret (map_option (\<lambda>es. fold (\<lambda>e c. calc_checksum_2byte e DENTRY_SIZE c CS_DEFAULT) es c) r) }) s"
proof (induction n arbitrary: i c s)
  case 0
  then show ?case by simp
next
  case (Suc n)
  have m: "map (\<lambda>k. i + int k) [0..<Suc n] = i # map (\<lambda>k. (i + 1) + int k) [0..<n]"
    by (simp only: map_upt_Suc) (simp add: algebra_simps)
  obtain r t where r: "run_state (get_entry_in_dir ch i) s = (r, t)" by fastforce
  show ?case
  proof (cases r)
    case None
    then have "run_state (fetch_entry ch i) s = (None, t)" by (simp add: fetch_entry_def r)
    then show ?thesis unfolding m using r None by simp
  next
    case (Some a)
    obtain ep sct where a: "a = (ep, sct)" by (cases a)
    obtain e u where e: "run_state (read_ep ep) t = (e, u)" by fastforce
    obtain x v where x: "run_state (ea.fetch_all ch (map (\<lambda>k. (i + 1) + int k) [0..<n])) u = (x, v)" by fastforce
    have "run_state (fetch_entry ch i) s = (Some e, u)" by (simp add: fetch_entry_def r Some a e)
    then show ?thesis unfolding m using Suc.IH [of "i + 1" _ u] by (simp add: r Some a e x option.map_comp o_def)
  qed
qed

lemma checksum_loop_run:
  assumes "is_dir ch xs s" "e + n \<le> entry_room s xs"
  shows "\<exists>t. run_state (checksum_loop n ch (int e) c) s =
      (Some (fold (\<lambda>e c. calc_checksum_2byte e DENTRY_SIZE c CS_DEFAULT) (map (entry_at s xs) [e..<e + n]) c), t) \<and>
    dir_step xs s t \<and> (\<forall>j<entry_room s xs. entry_at t xs j = entry_at s xs j)"
proof -
  have m: "map (\<lambda>k. int e + int k) [0..<n] = map int [e..<e + n]"
    by (rule nth_equalityI) auto
  have "\<forall>i\<in>set [e..<e + n]. i < entry_room s xs" using assms(2) by auto
  from ea.fetch_all_run [OF assms(1) this] show ?thesis unfolding checksum_loop_eq m by auto
qed

text \<open>
  The checksum of an entry set on the volume: after \<^verbatim>\<open>update_dir_checksum\<close> the file entry holds the checksum of the set,
  and nothing else has changed.
\<close>

lemma update_dir_checksum_run:
  assumes "is_dir ch xs s" "all_unlocked s" "e + unat (entry_at s xs e ! file_num_ext) < entry_room s xs"
  defines "c \<equiv> entries_checksum (map (entry_at s xs) [e..<e + unat (entry_at s xs e ! file_num_ext) + 1])"
  shows "\<exists>t. run_state (update_dir_checksum ch (int e)) s = ((), t) \<and> dir_step xs s t \<and> all_unlocked t \<and>
    (\<forall>j<entry_room s xs. entry_at t xs j = (if j = e then SET16 (entry_at s xs e) file_checksum c else entry_at s xs j))"
proof -
  let ?x = "entry_sector s xs e" and ?n = "unat (entry_at s xs e ! file_num_ext)"
  have e: "e < entry_room s xs" using assms(3) by simp
  have s: "vol_ok s" "chain_clusters s ch xs" using assms(1) by (simp_all add: is_dir_def)
  obtain s1 y where s1: "run_state (get_entry_in_dir ch (int e)) s = (Some ((?x, entry_off s e), ?x), s1)"
    "vol_step s s1" "fat_val s1 = fat_val s" "bufs s1 = bufs s" "holds BUFC s1 ?x y"
    using get_entry_in_dir_run [OF s e] .
  have d1: "dir_step xs s s1" by (rule dir_step_same [OF s1(2-4)])
  have v1: "vol_ok s1" "all_unlocked s1" using vol_step_ok [OF s1(2)] vol_step_unlocked [OF s1(2) assms(2)] by simp_all
  have e1: "entry_at s1 xs = entry_at s xs" by (rule entry_at_same [OF s1(2,4)])
  note r1 = vol_step_dir [OF s1(2)]
  define s2 where "s2 = s1\<lparr>buf_cache := flag_slot y (\<lambda>f. f OR LOCKBIT) (buf_cache s1)\<rparr>"
  note l = locked_vol_ok [OF v1 s1(5), folded s2_def]
  have s2: "run_state (buf_lock ?x) s1 = ((), s2)" unfolding s2_def by (rule buf_lock_run(1) [OF v1(1) s1(5)])
  have r2: "entry_at s2 xs = entry_at s xs" "entry_room s2 xs = entry_room s xs" "entry_sector s2 xs = entry_sector s xs" "entry_off s2 = entry_off s"
    by (simp_all add: s2_def dir_buf_cache e1 r1)
  have i2: "is_dir ch xs s2" using l(1) s(2) chain_clusters_step [OF d1] by (simp add: is_dir_def s2_def dir_buf_cache)
  have rd: "run_state (read_ep (?x, entry_off s e)) s2 = (entry_at s xs e, s2)"
  proof -
    have "run_state (read_ep (?x, entry_off s e)) s2 = (entry_at s2 xs e, s2)" by (simp add: read_ep_def entry_at_def r2(3,4))
    then show ?thesis by (simp only: r2(1))
  qed
  have "[e..<e + ?n + 1] = e # [e + 1..<e + 1 + ?n]" by (simp add: upt_conv_Cons del: upt_Suc)
  then have c: "c = fold (\<lambda>e c. calc_checksum_2byte e DENTRY_SIZE c CS_DEFAULT) (map (entry_at s xs) [e + 1..<e + 1 + ?n])
      (calc_checksum_2byte (entry_at s xs e) DENTRY_SIZE 0 CS_DIR_ENTRY)" unfolding c_def by (simp only: list.map entries_checksum.simps)
  have "e + 1 + ?n \<le> entry_room s2 xs" using assms(3) r2(2) by simp
  from checksum_loop_run [OF i2 this, of "calc_checksum_2byte (entry_at s xs e) DENTRY_SIZE 0 CS_DIR_ENTRY", unfolded r2, folded c]
  obtain s3 where s3: "run_state (checksum_loop ?n ch (int (e + 1)) (calc_checksum_2byte (entry_at s xs e) DENTRY_SIZE 0 CS_DIR_ENTRY)) s2 =
      (Some c, s3)" "dir_step xs s2 s3" "\<forall>j<entry_room s xs. entry_at s3 xs j = entry_at s xs j" by blast
  have st3: "vol_step s2 s3" using s3(2) by (simp add: dir_step_def)
  note r3 = vol_step_dir [OF st3]
  have v3: "vol_ok s3" by (rule vol_step_ok [OF st3])
  have h3: "holds BUFC s3 ?x y" by (rule locks_kept_holds [OF st3 l(2,3)])
  have c3: "chain_clusters s3 ch xs" using chain_clusters_step [OF s3(2)] i2 by (simp add: is_dir_def)
  let ?f = "\<lambda>e. SET16 e file_checksum c"
  have "e < entry_room s3 xs" "holds BUFC s3 (entry_sector s3 xs e) y" "length (?f (entry_at s3 xs e)) = 32"
    using e h3 length_entry_at [OF v3] by (simp_all add: r3 r2)
  note upd = upd_entry_run [where f = ?f and i = e, OF v3 c3 this, unfolded r3 r2]
  obtain u s4 where s4: "run_state (upd_ep (?x, entry_off s e) ?f) s3 = ((), u)" "run_state (buf_modify ?x) u = ((), s4)" "dir_step xs s3 s4"
    "\<forall>j<entry_room s xs. entry_at s4 xs j = (if j = e then ?f (entry_at s3 xs e) else entry_at s3 xs j)"
    by (rule upd) (rule that, assumption+, simp_all)
  note k = lock_step_unlock [OF v1 s1(5), folded s2_def, OF dir_step_trans [OF s3(2) s4(3)]]
  define s5 where "s5 = s4\<lparr>buf_cache := flag_slot y (\<lambda>f. f AND NOT LOCKBIT) (buf_cache s4)\<rparr>"
  have "run_state (update_dir_checksum ch (int e)) s = ((), s5)"
    using s1(1) s2 rd s3(1) s4(1,2) k(1) by (simp add: update_dir_checksum_def s5_def add.commute)
  moreover have "dir_step xs s s5" unfolding s5_def by (rule dir_step_trans [OF d1 k(2)])
  moreover have "all_unlocked s5" unfolding s5_def by (rule k(3))
  moreover have "\<forall>j<entry_room s xs. entry_at s5 xs j = (if j = e then ?f (entry_at s xs e) else entry_at s xs j)"
    unfolding s5_def k(4) using s4(4) s3(3) e by simp
  ultimately show ?thesis by blast
qed

lemma name_loop_eq:
  "run_state (exfat_name_loop n ch i name k) s =
   run_state (do { ok \<leftarrow> ea.change_all ch (map (\<lambda>m. (i + int m, \<lambda>e. init_name_entry e (drop (k + 15 * m) name))) [0..<n]);
     ret (if ok then FFS_SUCCESS else FFS_MEDIAERR) }) s"
proof (induction n arbitrary: i k s)
  case 0
  then show ?case by simp
next
  case (Suc n)
  have m: "map (\<lambda>m. (i + int m, \<lambda>e. init_name_entry e (drop (k + 15 * m) name))) [0..<Suc n] =
      (i, \<lambda>e. init_name_entry e (drop k name)) # map (\<lambda>m. ((i + 1) + int m, \<lambda>e. init_name_entry e (drop ((k + 15) + 15 * m) name))) [0..<n]"
    by (simp only: map_upt_Suc) (simp add: algebra_simps)
  have "run_state (exfat_name_loop (Suc n) ch i name k) s =
      run_state (do { ok \<leftarrow> edit_entry ch i (\<lambda>e. init_name_entry e (drop k name));
        if ok then exfat_name_loop n ch (i + 1) name (k + 15) else ret FFS_MEDIAERR }) s"
    unfolding exfat_name_loop.simps by (rule change_then [symmetric])
  then show ?case unfolding m using Suc.IH [of "i + 1" "k + 15"] by (simp split: prod.split)
qed

lemma name_loop_run:
  assumes "is_dir ch xs s" "i + n \<le> entry_room s xs"
  shows "\<exists>t. run_state (exfat_name_loop n ch (int i) name 0) s = (FFS_SUCCESS, t) \<and> dir_step xs s t \<and>
    (\<forall>j<entry_room s xs. entry_at t xs j = (if i \<le> j \<and> j < i + n then init_name_entry (entry_at s xs j) (drop (15 * (j - i)) name)
       else entry_at s xs j))"
proof -
  let ?us = "map (\<lambda>m. (int i + int m, \<lambda>e. init_name_entry e (drop (15 * m) name))) [0..<n]"
  have d: "distinct (map fst ?us)" by (simp add: o_def distinct_map inj_on_def)
  have r: "\<forall>(i, f)\<in>set ?us. 0 \<le> i \<and> nat i < entry_room s xs \<and> (\<forall>e. length e = 32 \<longrightarrow> length (f e) = 32)"
    using assms(2) by auto
  obtain t where t: "run_state (ea.change_all ch ?us) s = (True, t)" "dir_step xs s t"
    "\<forall>j<entry_room s xs. entry_at t xs j = (case map_of ?us (int j) of None \<Rightarrow> entry_at s xs j | Some f \<Rightarrow> f (entry_at s xs j))"
    using ea.change_all_run [OF assms(1) d r] by blast
  have m: "map_of ?us (int j) = (if i \<le> j \<and> j < i + n then Some (\<lambda>e. init_name_entry e (drop (15 * (j - i)) name)) else None)" for j
  proof (cases "i \<le> j \<and> j < i + n")
    case True
    then have "(int j, \<lambda>e. init_name_entry e (drop (15 * (j - i)) name)) \<in> set ?us" by (auto simp: image_iff intro!: bexI [of _ "j - i"])
    then show ?thesis using map_of_is_SomeI [OF d] True by simp
  next
    case False
    then have "int j \<notin> fst ` set ?us" by (auto simp: image_iff)
    then have "map_of ?us (int j) = None" unfolding map_of_eq_None_iff .
    then show ?thesis unfolding if_not_P [OF False] .
  qed
  show ?thesis unfolding name_loop_eq add_0 by (intro exI [of _ t]) (use t in \<open>simp add: m del: map_map\<close>)
qed

lemma checksum_set16: "calc_checksum_2byte (SET16 e file_checksum c) DENTRY_SIZE v CS_DIR_ENTRY = calc_checksum_2byte e DENTRY_SIZE v CS_DIR_ENTRY"
  unfolding file_checksum_def by (rule checksum2_dir_stable)

lemma dir_step_is_dir: "dir_step xs s t \<Longrightarrow> is_dir ch xs s \<Longrightarrow> is_dir ch xs t \<and> entry_room t xs = entry_room s xs"
  by (rule ea.keep_good)

lemma init_ext_entry_run:
  assumes "is_dir ch xs s" "all_unlocked s" "2 \<le> n" "n \<le> 256" "e + n \<le> entry_room s xs"
  shows "\<exists>t. run_state (exfat_init_ext_entry ch (int e) (int n) un) s = (FFS_SUCCESS, t) \<and> dir_step xs s t \<and> all_unlocked t \<and>
    (\<forall>j<entry_room s xs. j < e \<or> e + n \<le> j \<longrightarrow> entry_at t xs j = entry_at s xs j) \<and>
    entry_at t xs e = SET16 ((entry_at s xs e)[file_num_ext := of_nat (n - 1)]) file_checksum (entries_checksum (map (entry_at t xs) [e..<e + n])) \<and>
    entry_at t xs (e + 1) = SET16 ((entry_at s xs (e + 1))[strm_name_len := un_len un]) strm_name_hash (un_hash un) \<and>
    (\<forall>k<n - 2. entry_at t xs (e + 2 + k) = init_name_entry (entry_at s xs (e + 2 + k)) (drop (15 * k) (un_name un)))"
proof -
  let ?f = "\<lambda>x. x[file_num_ext := of_int (int n - 1)]" and ?g = "\<lambda>x. SET16 (x[strm_name_len := un_len un]) strm_name_hash (un_hash un)"
  have len: "length (entry_at u xs i) = 32" if "is_dir ch xs u" for u i using ea.len [OF that] .
  have b: "e < entry_room s xs" "e + 1 < entry_room s xs" using assms(3,5) by simp_all
  obtain s1 where s1: "run_state (edit_entry ch (int e) ?f) s = (True, s1)" "dir_step xs s s1"
    "\<forall>j<entry_room s xs. entry_at s1 xs j = (if j = e then ?f (entry_at s xs e) else entry_at s xs j)"
    using ea.change_spec [where f = ?f, OF assms(1) b(1)] len [OF assms(1)] by auto
  note i1 = dir_step_is_dir [OF s1(2) assms(1)]
  have b2: "e + 1 < entry_room s1 xs" and l2: "length (?g (entry_at s1 xs (e + 1))) = 32" using b(2) i1 len [of s1] by simp_all
  obtain s2 where s2: "run_state (edit_entry ch (int (e + 1)) ?g) s1 = (True, s2)" "dir_step xs s1 s2"
    "\<forall>j<entry_room s xs. entry_at s2 xs j = (if j = e + 1 then ?g (entry_at s1 xs (e + 1)) else entry_at s1 xs j)"
    using ea.change_spec [where f = ?g, OF i1 [THEN conjunct1] b2 l2] unfolding i1 [THEN conjunct2] by blast
  note i2 = dir_step_is_dir [OF s2(2) i1 [THEN conjunct1]]
  have r2: "e + 2 + (n - 2) \<le> entry_room s2 xs" using i1 i2 assms(3,5) by simp
  obtain s3 where s3: "run_state (exfat_name_loop (n - 2) ch (int (e + 2)) (un_name un) 0) s2 = (FFS_SUCCESS, s3)" "dir_step xs s2 s3"
    "\<forall>j<entry_room s xs. entry_at s3 xs j = (if e + 2 \<le> j \<and> j < e + 2 + (n - 2)
       then init_name_entry (entry_at s2 xs j) (drop (15 * (j - (e + 2))) (un_name un)) else entry_at s2 xs j)"
    using name_loop_run [OF i2 [THEN conjunct1] r2, of "un_name un"] i1 i2 by auto
  note i3 = dir_step_is_dir [OF s3(2) i2 [THEN conjunct1]]
  have d3: "dir_step xs s s3" by (rule dir_step_trans [OF dir_step_trans [OF s1(2) s2(2)] s3(2)])
  have u3: "all_unlocked s3" using d3 vol_step_unlocked assms(2) by (auto simp: dir_step_def)
  have e3: "entry_at s3 xs e = ?f (entry_at s xs e)" using s1(3) s2(3) s3(3) b by simp
  have "(of_int (int n - 1) :: u8) = of_nat (n - 1)" using assms(3) by (simp add: of_nat_diff)
  moreover have "unat (of_nat (n - 1) :: u8) = n - 1" using assms(4) by (simp add: unat_of_nat take_bit_nat_eq_self)
  ultimately have num: "unat (entry_at s3 xs e ! file_num_ext) = n - 1" "(of_int (int n - 1) :: u8) = of_nat (n - 1)"
    using e3 len [OF assms(1)] by (simp_all add: file_num_ext_def)
  let ?c = "entries_checksum (map (entry_at s3 xs) [e..<e + n])"
  have n1: "e + (n - 1) + 1 = e + n" using assms(3) by simp
  have n2: "e + (n - 1) < entry_room s3 xs" using i1 i2 i3 assms(3,5) by linarith
  obtain t where t: "run_state (update_dir_checksum ch (int e)) s3 = ((), t)" "dir_step xs s3 t" "all_unlocked t"
    "\<forall>j<entry_room s xs. entry_at t xs j = (if j = e then SET16 (entry_at s3 xs e) file_checksum ?c else entry_at s3 xs j)"
    using update_dir_checksum_run [of ch xs s3 e, unfolded num(1) n1, OF i3 [THEN conjunct1] u3 n2] i1 i2 i3 by auto
  have run: "run_state (exfat_init_ext_entry ch (int e) (int n) un) s = (FFS_SUCCESS, t)"
  proof -
    have "run_state (exfat_init_ext_entry ch (int e) (int n) un) s = run_state (do { ok \<leftarrow> edit_entry ch (int e) ?f;
        if ok then do {
          r2 \<leftarrow> get_entry_in_dir ch (int e + 1);
          case r2 of None \<Rightarrow> ret FFS_MEDIAERR
          | Some (strm_ep, sct2) \<Rightarrow> do {
              _ \<leftarrow> upd_ep strm_ep ?g;
              _ \<leftarrow> buf_modify sct2;
              r \<leftarrow> exfat_name_loop (nat (int n - 2)) ch (int e + 2) (un_name un) 0;
              if r \<noteq> FFS_SUCCESS then ret r
              else do { _ \<leftarrow> update_dir_checksum ch (int e); ret FFS_SUCCESS } } }
        else ret FFS_MEDIAERR }) s"
      unfolding exfat_init_ext_entry_def by (rule change_then [symmetric])
    also have "\<dots> = run_state (do { ok \<leftarrow> edit_entry ch (int e + 1) ?g;
        if ok then do {
          r \<leftarrow> exfat_name_loop (nat (int n - 2)) ch (int e + 2) (un_name un) 0;
          if r \<noteq> FFS_SUCCESS then ret r
          else do { _ \<leftarrow> update_dir_checksum ch (int e); ret FFS_SUCCESS } }
        else ret FFS_MEDIAERR }) s1"
      using s1(1) change_then [of ch "int e + 1" ?g _ "ret FFS_MEDIAERR" s1] by simp
    also have "\<dots> = (FFS_SUCCESS, t)"
      using s2(1) s3(1) t(1) assms(3) by (simp add: nat_diff_distrib add.commute)
    finally show ?thesis .
  qed
  have "map (entry_at t xs) [e..<e + n] = SET16 (entry_at s3 xs e) file_checksum ?c # map (entry_at s3 xs) [e + 1..<e + n]"
  proof -
    have u: "[e..<e + n] = e # [e + 1..<e + n]" using assms(3) by (simp add: upt_conv_Cons)
    have m: "map (entry_at t xs) [e + 1..<e + n] = map (entry_at s3 xs) [e + 1..<e + n]" using t(4) assms(5) by auto
    have te: "entry_at t xs e = SET16 (entry_at s3 xs e) file_checksum ?c" using t(4) b(1) by auto
    have "map (entry_at t xs) [e..<e + n] = entry_at t xs e # map (entry_at t xs) [e + 1..<e + n]" by (simp only: u list.map)
    then show ?thesis unfolding te m .
  qed
  moreover have "map (entry_at s3 xs) [e..<e + n] = entry_at s3 xs e # map (entry_at s3 xs) [e + 1..<e + n]"
    using assms(3) by (simp add: upt_conv_Cons)
  ultimately have c: "entries_checksum (map (entry_at t xs) [e..<e + n]) = ?c" by (simp add: checksum_set16)
  have rest: "entry_at t xs j = entry_at s xs j" if "j < entry_room s xs" "j < e \<or> e + n \<le> j" for j
    using that t(4) s3(3) s2(3) s1(3) assms(3) by auto
  have nm: "entry_at t xs (e + 2 + k) = init_name_entry (entry_at s xs (e + 2 + k)) (drop (15 * k) (un_name un))" if "k < n - 2" for k
    using that t(4) s3(3) s2(3) s1(3) assms(5) by auto
  have st: "entry_at t xs (e + 1) = ?g (entry_at s xs (e + 1))" using t(4) s3(3) s2(3) s1(3) b by simp
  have fl: "entry_at t xs e = SET16 ((entry_at s xs e)[file_num_ext := of_nat (n - 1)]) file_checksum
      (entries_checksum (map (entry_at t xs) [e..<e + n]))" unfolding c using t(4) e3 num(2) b by simp
  show ?thesis
    by (intro exI [of _ t] conjI run dir_step_trans [OF d3 t(2)] t(3) fl st allI impI rest nm)
qed

end
