(* ===== verification/EntrySetProps.thy ===== *)
theory EntrySetProps
  imports DirProps DirSearch
begin

text \<open>
  Entry sets.  \<^verbatim>\<open>get_entry_set_in_dir\<close> copies the entries of a set when their types come in the order of the format, and fails
  otherwise; a name written with \<^verbatim>\<open>exfat_init_ext_entry\<close> is read back from the copy.
\<close>

section \<open>From one sector of a directory to the next\<close>

lemma unat_and_mask: "unat (x AND mask k) = unat x mod 2 ^ k"
proof -
  have "unat (x AND mask k) = take_bit k (unat x)" by (simp only: take_bit_eq_mask [symmetric] unsigned_take_bit_eq)
  then show ?thesis by (simp only: take_bit_eq_mod)
qed

lemma is_last_sector:
  assumes "vol_ok s" "is_cluster s c" "i < 2 ^ sectors_per_clu_bits s"
  shows "IS_LAST_SECTOR_IN_CLUSTER (clu_sector s c i) s \<longleftrightarrow> i = 2 ^ sectors_per_clu_bits s - 1"
proof -
  let ?k = "sectors_per_clu_bits s"
  have u: "unat (clu_sector s c i) = unat (data_start_sector s) + (unat c - 2) * 2 ^ ?k + i" by (rule clu_sector_unat [OF assms])
  have "clu_sector s c i = of_nat (unat (clu_sector s c i))" by simp
  then have "clu_sector s c i - data_start_sector s + 1 = of_nat ((unat c - 2) * 2 ^ ?k + i + 1)" unfolding u by simp
  moreover have "push_bit ?k (1 :: u32) - 1 = mask ?k" by (simp add: mask_eq_exp_minus_1)
  ultimately have "unat ((clu_sector s c i - data_start_sector s + 1) AND (push_bit ?k 1 - 1)) =
      unat (of_nat ((unat c - 2) * 2 ^ ?k + i + 1) :: u32) mod 2 ^ ?k"
    by (simp only: unat_and_mask)
  also have "\<dots> = ((unat c - 2) * 2 ^ ?k + i + 1) mod 2 ^ ?k"
    by (rule unat_of_nat_mod) (use vol_sizes [OF assms(1)] in simp)
  also have "\<dots> = (i + 1) mod 2 ^ ?k" by (simp add: add.assoc)
  finally have "IS_LAST_SECTOR_IN_CLUSTER (clu_sector s c i) s \<longleftrightarrow> (i + 1) mod 2 ^ ?k = 0"
    by (simp add: IS_LAST_SECTOR_IN_CLUSTER_def unat_eq_0 [symmetric] del: unat_eq_0)
  also have "\<dots> \<longleftrightarrow> i = 2 ^ ?k - 1"
  proof (cases "i + 1 = 2 ^ ?k")
    case True
    then show ?thesis by simp
  next
    case False
    then have "i + 1 < 2 ^ ?k" using assms(3) by simp
    then show ?thesis using False by simp
  qed
  finally show ?thesis .
qed

lemma chain_next:
  "chain f c xs \<Longrightarrow> Suc k < length xs \<Longrightarrow> f (xs ! k) = xs ! Suc k"
proof (induction k arbitrary: c xs)
  case 0
  then obtain x y ys where "xs = x # y # ys" by (cases xs; cases "tl xs") auto
  with 0 show ?case by simp
next
  case (Suc k)
  from Suc.prems(2) obtain x ys where xs: "xs = x # ys" by (cases xs) auto
  then have "chain f (f x) ys" "Suc k < length ys" using Suc.prems by auto
  from Suc.IH [OF this] show ?case by (simp add: xs)
qed

text \<open>Entry \<open>i\<close> lies in the same sector as the one before, or at the start of the next sector.\<close>

lemma next_entry:
  assumes "vol_ok s" "chain_clusters s ch xs" "xs \<noteq> []" "Suc i < entry_room s xs"
  defines "k \<equiv> 32 * i div 2 ^ cluster_size_bits s" and "k' \<equiv> 32 * Suc i div 2 ^ cluster_size_bits s"
  shows "entry_off s i + 32 < 2 ^ sector_size_bits s \<Longrightarrow>
      entry_sector s xs (Suc i) = entry_sector s xs i \<and> entry_off s (Suc i) = entry_off s i + 32 \<and> k' = k"
    and "entry_off s i + 32 = 2 ^ sector_size_bits s \<Longrightarrow> entry_off s (Suc i) = 0 \<and>
      (\<exists>t. run_state (next_sector (chain_flags ch = 0x03) (xs ! k) (entry_sector s xs i)) s = (Some (xs ! k', entry_sector s xs (Suc i)), t) \<and>
        fat_step (bufs s) s t)"
proof -
  let ?b = "sector_size_bits s" and ?n = "sectors_per_clu_bits s" and ?c = "cluster_size_bits s"
  note z = vol_sizes [OF assms(1)]
  define q where "q = 32 * i div 2 ^ ?b"
  define q' where "q' = 32 * Suc i div 2 ^ ?b"
  have e: "(2 :: nat) ^ ?c = 2 ^ ?b * 2 ^ ?n" by (simp add: z(2) power_add)
  have kq: "k = q div 2 ^ ?n" "k' = q' div 2 ^ ?n" unfolding k_def k'_def q_def q'_def e div_mult2_eq by simp_all
  have sec: "entry_sector s xs j = clu_sector s (xs ! (32 * j div 2 ^ ?b div 2 ^ ?n)) (32 * j div 2 ^ ?b mod 2 ^ ?n)" for j
  proof -
    have "32 * j mod (2 ^ ?b * 2 ^ ?n) div 2 ^ ?b = 32 * j div 2 ^ ?b mod 2 ^ ?n" by (simp add: mod_mult2_eq)
    then show ?thesis using assms(3) by (simp add: entry_sector_def byte_sector_def e div_mult2_eq)
  qed
  have se: "entry_sector s xs i = clu_sector s (xs ! k) (q mod 2 ^ ?n)" "entry_sector s xs (Suc i) = clu_sector s (xs ! k') (q' mod 2 ^ ?n)"
    unfolding kq q_def q'_def by (rule sec)+
  have s32: "32 * Suc i = 2 ^ ?b * q + (entry_off s i + 32)"
    using div_mult_mod_eq [of "32 * i" "2 ^ ?b"] by (simp add: q_def entry_off_def mult.commute)
  show "entry_sector s xs (Suc i) = entry_sector s xs i \<and> entry_off s (Suc i) = entry_off s i + 32 \<and> k' = k" if lt: "entry_off s i + 32 < 2 ^ ?b"
  proof -
    have "q' = q" unfolding q'_def s32 using lt by simp
    moreover have "entry_off s (Suc i) = entry_off s i + 32" unfolding entry_off_def [of s "Suc i"] s32 using lt by simp
    ultimately show ?thesis by (simp add: kq se)
  qed
  show "entry_off s (Suc i) = 0 \<and> (\<exists>t. run_state (next_sector (chain_flags ch = 0x03) (xs ! k) (entry_sector s xs i)) s =
      (Some (xs ! k', entry_sector s xs (Suc i)), t) \<and> fat_step (bufs s) s t)" if eq: "entry_off s i + 32 = 2 ^ ?b"
  proof -
    have o: "entry_off s (Suc i) = 0" unfolding entry_off_def [of s "Suc i"] s32 eq by simp
    have q': "q' = Suc q" unfolding q'_def s32 eq by simp
    have lk: "k' < length xs" using byte_cluster [OF entry_byte [OF assms(4)] assms(3)] by (simp add: k'_def)
    have le: "k \<le> k'" using q' kq by (simp add: div_le_mono)
    have cl: "is_cluster s (xs ! k)" "is_cluster s (xs ! k')" using assms(2,3) lk le by (auto simp: chain_clusters_def)
    have c: "clusters_ok s" "fat_ok s" using assms(1) by (simp_all add: vol_ok_def clusters_ok_def)
    have m: "q mod 2 ^ ?n < 2 ^ ?n" by simp
    note last = is_last_sector [OF assms(1) cl(1) m]
    show ?thesis
    proof (cases "q mod 2 ^ ?n = 2 ^ ?n - 1")
      case False
      then have "k' = k" "q' mod 2 ^ ?n = Suc (q mod 2 ^ ?n)" using next_pos(1) [of q ?n] by (simp_all add: kq q')
      then have "entry_sector s xs (Suc i) = entry_sector s xs i + 1" by (simp add: se clu_sector_def)
      then have "run_state (next_sector (chain_flags ch = 0x03) (xs ! k) (entry_sector s xs i)) s = (Some (xs ! k', entry_sector s xs (Suc i)), s)"
        using last False \<open>k' = k\<close> by (simp add: next_sector_def se(1))
      then show ?thesis using o fat_step_refl [OF c(2)] by blast
    next
      case True
      then have k': "k' = Suc k" "q' mod 2 ^ ?n = 0" using next_pos(2) [of q ?n] by (simp_all add: kq q')
      have start: "entry_sector s xs (Suc i) = START_SECTOR (xs ! k') s" by (simp add: se(2) k'(2) clu_sector_def)
      have lst: "IS_LAST_SECTOR_IN_CLUSTER (entry_sector s xs i) s" using last True by (simp add: se(1))
      show ?thesis
      proof (cases "chain_flags ch = 3")
        case flags: True
        then have "xs ! j = chain_dir ch + of_nat j" if "j < length xs" for j using assms(2,3) that by (auto simp: chain_clusters_def)
        then have "xs ! k' = xs ! k + 1" using lk k'(1) by simp
        then have "run_state (next_sector (chain_flags ch = 0x03) (xs ! k) (entry_sector s xs i)) s = (Some (xs ! k', entry_sector s xs (Suc i)), s)"
          using lst flags by (simp add: next_sector_def start)
        then show ?thesis using o fat_step_refl [OF c(2)] by blast
      next
        case flags: False
        then have "chain (fat_val s) (chain_dir ch) xs" using assms(2,3) unfolding chain_clusters_def by (auto simp only: if_False)
        then have v: "fat_val s (xs ! k) = xs ! k'" using chain_next [of "fat_val s" _ xs k] lk k'(1) by simp
        obtain t where "run_state (FAT_read (xs ! k)) s = (Some (xs ! k'), t)" "fat_step (bufs s) s t"
          using clu_read_step [OF c(1) cl(1)] unfolding v .
        then have "run_state (next_sector (chain_flags ch = 0x03) (xs ! k) (entry_sector s xs i)) s = (Some (xs ! k', entry_sector s xs (Suc i)), t)"
          using lst flags by (simp add: next_sector_def start)
        then show ?thesis using o \<open>fat_step (bufs s) s t\<close> by blast
      qed
    qed
  qed
qed

section \<open>Reading a set\<close>

text \<open>The order of types that \<^verbatim>\<open>get_entry_set_in_dir\<close> accepts.\<close>

fun es_accept :: "es_mode \<Rightarrow> u32 list \<Rightarrow> bool" where
  "es_accept mode [] = True"
| "es_accept mode (t # ts) = (t \<noteq> TYPE_UNUSED \<and> t \<noteq> TYPE_DELETED \<and>
     (case es_next_mode mode t of None \<Rightarrow> False | Some m \<Rightarrow> es_accept m ts))"

abbreviation entry_types :: "vol \<Rightarrow> u32 list \<Rightarrow> nat \<Rightarrow> nat \<Rightarrow> u32 list" where
  "entry_types s xs i n \<equiv> map (\<lambda>j. get_entry_type (ops (fs_func s)) (entry_at s xs j)) [i..<i + n]"

lemma nat_and_mask: "(n :: nat) AND (2 ^ k - 1) = n mod 2 ^ k"
  using take_bit_eq_mask [of k n] by (simp add: take_bit_eq_mod mask_eq_exp_minus_1)

lemma read_ep_entry: "run_state (read_ep (entry_sector s xs i, entry_off s i)) s = (entry_at s xs i, s)"
  by (simp add: read_ep_def entry_at_def)

lemma entry_set_loop_run:
  assumes "is_dir ch xs s" "xs \<noteq> []" "i + n \<le> entry_room s xs"
  shows "\<exists>t. run_state (entry_set_loop n (chain_flags ch = 0x03) mode (xs ! (32 * i div 2 ^ cluster_size_bits s)) (entry_sector s xs i)
      (entry_sector s xs i) (entry_off s i) acc) s =
    (if es_accept mode (entry_types s xs i n) then Some (acc @ concat (map (entry_at s xs) [i..<i + n])) else None, t) \<and>
    dir_step xs s t \<and> entry_at t xs = entry_at s xs"
  using assms
proof (induction n arbitrary: i mode acc s)
  case 0
  then show ?case using ea.keep_refl [of ch xs s] by auto
next
  case (Suc n)
  let ?e = "entry_at s xs i" and ?t = "get_entry_type (ops (fs_func s)) (entry_at s xs i)" and ?x = "entry_sector s xs i"
  have v: "vol_ok s" "chain_clusters s ch xs" using Suc.prems(1) by (simp_all add: is_dir_def)
  have u: "[i..<i + Suc n] = i # [Suc i..<Suc i + n]" by (simp add: upt_conv_Cons del: upt_Suc)
  have refl: "dir_step xs s s" by (rule ea.keep_refl [OF Suc.prems(1)])
  show ?case
  proof (cases "?t = TYPE_UNUSED \<or> ?t = TYPE_DELETED")
    case True
    then show ?thesis unfolding u using refl by (auto simp: read_ep_entry)
  next
    case t: False
    show ?thesis
    proof (cases "es_next_mode mode ?t")
      case None
      then show ?thesis unfolding u using refl t by (auto simp: read_ep_entry)
    next
      case (Some m)
      show ?thesis
      proof (cases "n = 0")
        case True
        then show ?thesis unfolding u using refl t Some by (auto simp: read_ep_entry)
      next
        case n: False
        have i: "Suc i < entry_room s xs" using Suc.prems(3) n by simp
        note nx = next_entry [OF v Suc.prems(2) i]
        have mask: "unat (sector_size_mask s) = 2 ^ sector_size_bits s - 1"
        proof -
          have m: "sector_size_mask s = sector_size s - 1" using vol_sizes(1) [OF v(1)] by (simp add: geometry_ok_def)
          have "sector_size s \<noteq> 0" using vol_sizes(6) [OF v(1)] by (metis unat_0 power_not_zero zero_neq_numeral)
          then show ?thesis unfolding m using vol_sizes(6) [OF v(1)] by (simp add: unat_minus_one)
        qed
        have b: "(2 :: nat) ^ 9 \<le> 2 ^ sector_size_bits s" using vol_sizes(4) [OF v(1)] by (intro power_increasing) simp_all
        have o: "entry_off s i + 32 \<le> 2 ^ sector_size_bits s" by (rule entry_off_eq(2) [OF v(1)])
        show ?thesis
        proof (cases "entry_off s i + 32 = 2 ^ sector_size_bits s")
          case False
          then have lt: "entry_off s i + 32 < 2 ^ sector_size_bits s" using o by simp
          note same = nx(1) [OF lt]
          have c: "\<not> (entry_off s i + 32) AND unat (sector_size_mask s) < entry_off s i AND unat (sector_size_mask s)"
            unfolding mask nat_and_mask using lt by simp
          have "Suc i + n \<le> entry_room s xs" using Suc.prems(3) by simp
          from Suc.IH [OF Suc.prems(1,2) this, of m "acc @ ?e", unfolded same [THEN conjunct1] same [THEN conjunct2, THEN conjunct1]
            same [THEN conjunct2, THEN conjunct2]]
          obtain t3 where "run_state (entry_set_loop n (chain_flags ch = 0x03) m (xs ! (32 * i div 2 ^ cluster_size_bits s)) ?x ?x
              (entry_off s i + 32) (acc @ ?e)) s =
            (if es_accept m (entry_types s xs (Suc i) n) then Some ((acc @ ?e) @ concat (map (entry_at s xs) [Suc i..<Suc i + n])) else None, t3)"
            "dir_step xs s t3" "entry_at t3 xs = entry_at s xs" by blast
          then show ?thesis unfolding u using t Some n c by (auto simp: read_ep_entry simp del: upt_Suc)
        next
          case True
          then obtain t1 where t1: "entry_off s (Suc i) = 0"
            "run_state (next_sector (chain_flags ch = 0x03) (xs ! (32 * i div 2 ^ cluster_size_bits s)) ?x) s =
              (Some (xs ! (32 * Suc i div 2 ^ cluster_size_bits s), entry_sector s xs (Suc i)), t1)" "fat_step (bufs s) s t1"
            using nx(2) by blast
          note f1 = fat_step_vol [OF v(1) t1(3)]
          have "data_sector t1 (entry_sector s xs (Suc i))"
            using byte_sector_data [OF v entry_byte [OF i]] by (simp add: vol_step_fields [OF f1(1)] entry_sector_def)
          then obtain t2 y where t2: "run_state (buf_getblk (entry_sector s xs (Suc i))) t1 = (Some (entry_sector s xs (Suc i)), t2)" "vol_step t1 t2"
            "fat_val t2 = fat_val t1" "bufs t2 = bufs t1" using buf_getblk_vol [OF vol_step_ok [OF f1(1)]] by blast
          have st: "vol_step s t2" by (rule vol_step_trans [OF f1(1) t2(2)])
          have d: "dir_step xs s t2" by (rule dir_step_same [OF st]) (use f1 t2 in simp_all)
          have e: "entry_at t2 xs = entry_at s xs" by (rule entry_at_same [OF st]) (use f1 t2 in simp)
          note r = vol_step_dir [OF st] vol_step_fields [OF st]
          have c: "(entry_off s i + 32) AND unat (sector_size_mask s) < entry_off s i AND unat (sector_size_mask s)"
            unfolding mask nat_and_mask using True b by simp
          have "is_dir ch xs t2" "Suc i + n \<le> entry_room t2 xs" using dir_step_is_dir [OF d Suc.prems(1)] Suc.prems(3) by simp_all
          from Suc.IH [OF this(1) Suc.prems(2) this(2), of m "acc @ ?e", unfolded r e t1(1)]
          obtain t3 where "run_state (entry_set_loop n (chain_flags ch = 0x03) m (xs ! (32 * Suc i div 2 ^ cluster_size_bits s)) (entry_sector s xs (Suc i))
              (entry_sector s xs (Suc i)) 0 (acc @ ?e)) t2 =
            (if es_accept m (entry_types s xs (Suc i) n) then Some ((acc @ ?e) @ concat (map (entry_at s xs) [Suc i..<Suc i + n])) else None, t3)"
            "dir_step xs t2 t3" "entry_at t3 xs = entry_at s xs" by blast
          then show ?thesis unfolding u using t Some n c t1(2) t2(1) dir_step_trans [OF d] by (auto simp: read_ep_entry simp del: upt_Suc)
        qed
      qed
    qed
  qed
qed

lemma vol_step_env:
  assumes "vol_ok s"
  shows "vol_step s (s\<lparr>env_pos := n\<rparr>)" "fat_val (s\<lparr>env_pos := n\<rparr>) = fat_val s"
proof -
  have "fat_ok (s\<lparr>env_pos := n\<rparr>) = fat_ok s" by (simp add: fat_ok_def device_ok_def geometry_ok_def out_of_range_def)
  moreover have "is_cluster (s\<lparr>env_pos := n\<rparr>) = is_cluster s" "loc_ok (s\<lparr>env_pos := n\<rparr>) = loc_ok s"
    by (simp_all add: is_cluster_def loc_ok_def fat_len_def fun_eq_iff)
  moreover have "layout_ok (s\<lparr>env_pos := n\<rparr>) = layout_ok s" by (simp add: layout_ok_def out_of_range_def)
  ultimately have "vol_ok (s\<lparr>env_pos := n\<rparr>)" using assms by (simp add: vol_ok_def clusters_ok_def)
  then show "vol_step s (s\<lparr>env_pos := n\<rparr>)" by (simp add: vol_step_def locks_kept_refl)
  have "fat_byte (s\<lparr>env_pos := n\<rparr>) = fat_byte s" by (rule ext) (simp add: fat_byte_def fat_sector_def)
  then show "fat_val (s\<lparr>env_pos := n\<rparr>) = fat_val s" by (intro ext) (simp add: fat_val_def)
qed

lemma get_entry_set_run:
  assumes "is_dir ch xs s" "xs \<noteq> []" "n = unat (entry_at s xs i ! file_num_ext) + 1" "n < 256" "i + n \<le> entry_room s xs"
  shows "\<exists>t. run_state (get_entry_set_in_dir ch (int i) ES_ALL_ENTRIES) s =
    (if es_accept ES_MODE_STARTED (entry_types s xs i n)
     then Some \<lparr>es_sector = entry_sector s xs i, es_offset = int (entry_off s i), es_alloc_flag = uint (chain_flags ch),
       es_num_entries = n, es_buf = concat (map (entry_at s xs) [i..<i + n])\<rparr> else None, t) \<and>
    dir_step xs s t \<and> entry_at t xs = entry_at s xs"
proof -
  have v: "vol_ok s" "chain_clusters s ch xs" using assms(1) by (simp_all add: is_dir_def)
  have i: "i < entry_room s xs" using assms(3,5) by simp
  have off: "push_bit 5 (int i) = int (32 * i)" by (simp add: push_bit_eq_mult mult.commute)
  obtain t1 where t1: "run_state (walk_fat_chain ch (int (32 * i))) s = (Some (xs ! (32 * i div 2 ^ cluster_size_bits s)), t1)"
    "fat_step (bufs s) s t1" using walk_fat_chain_run [OF v assms(2) entry_byte [OF i]] .
  note f1 = fat_step_vol [OF v(1) t1(2)]
  have "data_sector t1 (entry_sector s xs i)"
    using byte_sector_data [OF v entry_byte [OF i]] by (simp add: vol_step_fields [OF f1(1)] entry_sector_def)
  then obtain t2 y where t2: "run_state (buf_getblk (entry_sector s xs i)) t1 = (Some (entry_sector s xs i), t2)" "vol_step t1 t2"
    "fat_val t2 = fat_val t1" "bufs t2 = bufs t1" using buf_getblk_vol [OF vol_step_ok [OF f1(1)]] by blast
  have st2: "vol_step s t2" by (rule vol_step_trans [OF f1(1) t2(2)])
  have e2: "entry_at t2 xs = entry_at s xs" by (rule entry_at_same [OF st2]) (use f1 t2 in simp)
  note r2 = vol_step_dir [OF st2]
  have rd: "run_state (read_ep (entry_sector s xs i, entry_off s i)) t2 = (entry_at s xs i, t2)"
    using read_ep_entry [of t2 xs i] unfolding r2 e2 .
  note loc = cluster_location [OF v(1) assms(2), of i]
  let ?T = "get_entry_type (ops (fs_func s)) (entry_at s xs i)"
  have d2: "dir_step xs s t2" by (rule dir_step_same [OF st2]) (use f1 t2 in simp_all)
  have types: "entry_types s xs i n = ?T # map (\<lambda>j. get_entry_type (ops (fs_func s)) (entry_at s xs j)) [Suc i..<i + n]"
    using assms(3) by (simp add: upt_conv_Cons del: upt_Suc)
  show ?thesis
  proof (cases "?T = TYPE_FILE \<or> ?T = TYPE_DIR")
    case False
    then have "\<not> es_accept ES_MODE_STARTED (entry_types s xs i n)" unfolding types by auto
    moreover have "run_state (get_entry_set_in_dir ch (int i) ES_ALL_ENTRIES) s = (None, t2)"
      unfolding get_entry_set_in_dir_def
      by (simp only: run_state_bind run_gets prod.case id_apply Let_def off t1(1) option.case loc t2(1) rd) (use False in simp)
    ultimately show ?thesis using d2 e2 by auto
  next
    case True
    then have nt: "(?T \<noteq> TYPE_FILE \<and> ?T \<noteq> TYPE_DIR) = False" by blast
    define t3 where "t3 = t2\<lparr>env_pos := env_pos t2 + 1\<rparr>"
    have v2: "vol_ok t2" by (rule vol_step_ok [OF st2])
    have "env_ok t2 = (\<lambda>_. True)" using v2 by (simp add: vol_ok_def clusters_ok_def fat_ok_def device_ok_def)
    then have env: "run_state next_env t2 = (True, t3)" by (simp add: next_env_def t3_def)
    have st3: "vol_step t2 t3" "fat_val t3 = fat_val t2" unfolding t3_def by (rule vol_step_env [OF v2])+
    have st: "vol_step s t3" by (rule vol_step_trans [OF st2 st3(1)])
    have b3: "bufs t3 = bufs s" using f1 t2 by (simp add: t3_def)
    have d: "dir_step xs s t3" by (rule dir_step_same [OF st]) (use f1 t2 st3 b3 in simp_all)
    have e: "entry_at t3 xs = entry_at s xs" by (rule entry_at_same [OF st b3])
    note r = vol_step_dir [OF st] vol_step_fields [OF st]
    have num: "unat (entry_at s xs i ! file_num_ext + 1) = n"
      using assms(3,4) by (simp add: unat_word_ariths)
    have "is_dir ch xs t3" "i + n \<le> entry_room t3 xs" using dir_step_is_dir [OF d assms(1)] assms(5) by simp_all
    from entry_set_loop_run [OF this(1) assms(2) this(2), of ES_MODE_STARTED "[]", unfolded r e]
    obtain t4 where t4: "run_state (entry_set_loop n (chain_flags ch = 0x03) ES_MODE_STARTED (xs ! (32 * i div 2 ^ cluster_size_bits s))
        (entry_sector s xs i) (entry_sector s xs i) (entry_off s i) []) t3 =
      (if es_accept ES_MODE_STARTED (entry_types s xs i n) then Some (concat (map (entry_at s xs) [i..<i + n])) else None, t4)"
      "dir_step xs t3 t4" "entry_at t4 xs = entry_at s xs" by auto
    have "run_state (get_entry_set_in_dir ch (int i) ES_ALL_ENTRIES) s =
      (if es_accept ES_MODE_STARTED (entry_types s xs i n)
       then Some \<lparr>es_sector = entry_sector s xs i, es_offset = int (entry_off s i), es_alloc_flag = uint (chain_flags ch),
         es_num_entries = n, es_buf = concat (map (entry_at s xs) [i..<i + n])\<rparr> else None, t4)"
      unfolding get_entry_set_in_dir_def
      by (simp only: run_state_bind run_gets prod.case id_apply Let_def off t1(1) option.case loc t2(1) rd nt if_False env)
        (use t4(1) num in \<open>simp del: upt_Suc\<close>)
    then show ?thesis using dir_step_trans [OF d t4(2)] t4(3) by blast
  qed
qed

section \<open>A stored name is read back\<close>

lemma exfat_type_bytes:
  "exfat_get_entry_type e = TYPE_STREAM \<longleftrightarrow> e ! 0 = 0xC0"
  by (auto simp: exfat_get_entry_type_def type_defs layouts Let_def split: if_splits)

lemma es_accept_names:
  "es_accept ES_MODE_GET_NAME_ENTRY (replicate n TYPE_EXTEND)"
  by (induction n) (simp_all add: type_defs)

lemma es_accept_file:
  "t \<in> {TYPE_FILE, TYPE_DIR} \<Longrightarrow> es_accept ES_MODE_STARTED (t # TYPE_STREAM # replicate n TYPE_EXTEND)"
proof -
  assume "t \<in> {TYPE_FILE, TYPE_DIR}"
  then have "es_accept ES_MODE_STARTED (t # TYPE_STREAM # replicate n TYPE_EXTEND) = es_accept ES_MODE_GET_STRM_ENTRY (replicate n TYPE_EXTEND)"
    by (auto simp: type_defs)
  also have "\<dots>" using es_accept_names by (cases n) (simp_all add: type_defs)
  finally show ?thesis .
qed

lemma takeWhile_name:
  assumes "0 \<notin> set nm" "k \<le> length nm"
  shows "takeWhile (\<lambda>u. u \<noteq> 0) (take m (drop k (nm @ (0 :: u16) # rest))) = take m (drop k nm)"
proof -
  have nz: "\<forall>x\<in>set (drop k nm). x \<noteq> 0" using assms(1) by (auto dest: in_set_dropD)
  have d: "drop k (nm @ 0 # rest) = drop k nm @ 0 # rest" using assms(2) by simp
  show ?thesis
  proof (cases "m \<le> length nm - k")
    case True
    then have "take m (drop k nm @ 0 # rest) = take m (drop k nm)" by simp
    moreover have "takeWhile (\<lambda>u. u \<noteq> 0) (take m (drop k nm)) = take m (drop k nm)"
      using nz by (auto simp: takeWhile_eq_all_conv dest: in_set_takeD)
    ultimately show ?thesis unfolding d by simp
  next
    case False
    then have "take m (drop k nm @ 0 # rest) = drop k nm @ 0 # take (m - (length nm - k) - 1) rest"
      by (cases "m - (length nm - k)") simp_all
    moreover have "takeWhile (\<lambda>u. u \<noteq> 0) (drop k nm @ 0 # ys) = drop k nm" for ys
      using nz by (subst takeWhile_append2) auto
    ultimately show ?thesis unfolding d using False by simp
  qed
qed

lemma take_write_at: "k + length xs \<le> length u \<Longrightarrow> take (k + length xs) (write_at u k xs) = take k u @ xs"
  by (simp add: write_at_def)

lemma names_loop_run:
  assumes "0 \<notin> set nm" "length nm < 256" "15 * (j + m) < length u" "15 * (j + m) \<le> length (nm @ 0 # rest)"
    "\<And>k. k < m \<Longrightarrow> \<exists>e. length e = 32 \<and> es_get es (i + k) = init_name_entry e (drop (15 * (j + k)) (nm @ 0 # rest))"
    "take (15 * j) u = take (15 * j) nm" "0 < m" "15 * (j + m - 1) < length nm" "length nm \<le> 15 * (j + m)"
  shows "\<exists>u'. run_state (exfat_names_loop m ExfatOps es i u (15 * j)) s = (u', s) \<and> length u' = length u \<and>
    take (Suc (length nm)) u' = nm @ [0]"
  using assms
proof (induction m arbitrary: i j u)
  case 0
  then show ?case by simp
next
  case (Suc m)
  let ?part = "take 15 (drop (15 * j) nm)"
  obtain e where e: "length e = 32" "es_get es i = init_name_entry e (drop (15 * j) (nm @ 0 # rest))" using Suc.prems(5) [of 0] by auto
  have "15 \<le> length (drop (15 * j) (nm @ 0 # rest))" using Suc.prems(4) by simp
  moreover have "15 * j + 15 < length u" using Suc.prems(3) by simp
  ultimately have x: "extract_uni_name_from_name_entry (es_get es i) u (15 * j) (int i) = (write_at u (15 * j) (?part @ [0]), length ?part)"
    unfolding e(2) using name_roundtrip [OF e(1), of "drop (15 * j) (nm @ 0 # rest)" "15 * j" u "int i"] takeWhile_name [OF Suc.prems(1), of "15 * j"] Suc.prems(8) by simp
  have t: "get_entry_type (ops ExfatOps) (es_get es i) = TYPE_EXTEND"
    using init_name_entry_type [OF e(1)] by (simp add: e(2) exfat_fs_func_def)
  have len: "15 * j + length ?part \<le> length nm" using Suc.prems(8) by simp
  let ?u = "write_at u (15 * j) (?part @ [0])"
  have lu: "length ?u = length u" using Suc.prems(3) by (simp add: write_at_def)
  have step: "run_state (exfat_names_loop (Suc m) ExfatOps es i u (15 * j)) s = run_state (exfat_names_loop m ExfatOps es (i + 1) ?u (15 * (j + 1))) s"
    using t x len Suc.prems(2) by (simp add: MAX_NAME_LENGTH_def algebra_simps)
  have tk: "take (15 * j + length ?part + 1) ?u = take (15 * j) nm @ ?part @ [0]"
    using take_write_at [of "15 * j" "?part @ [0]" u] Suc.prems(3,6) by simp
  show ?case
  proof (cases "m = 0")
    case True
    then have "?part = drop (15 * j) nm" "15 * j \<le> length nm" using Suc.prems(8,9) by simp_all
    then have "take (Suc (length nm)) ?u = nm @ [0]" using tk by (simp add: append_assoc [symmetric] del: append_assoc)
    then show ?thesis using step True lu by auto
  next
    case False
    have ge: "15 * (j + 1) < length nm" using Suc.prems(8) False by simp
    then have lp: "length ?part = 15" by simp
    have "take (15 * (j + 1)) ?u = take (15 * (j + 1)) (take (15 * j + length ?part + 1) ?u)" using lp by (simp add: min_def)
    also have "\<dots> = take (15 * j) nm @ ?part" unfolding tk using lp ge by simp
    also have "\<dots> = take (15 * (j + 1)) nm" by (simp add: take_add [symmetric] algebra_simps)
    finally have "take (15 * (j + 1)) ?u = take (15 * (j + 1)) nm" .
    moreover have "\<exists>e. length e = 32 \<and> es_get es (i + 1 + k) = init_name_entry e (drop (15 * (j + 1 + k)) (nm @ 0 # rest))" if "k < m" for k
      using Suc.prems(5) [of "Suc k"] that by (simp add: add.commute add.left_commute)
    ultimately have "\<exists>u'. run_state (exfat_names_loop m ExfatOps es (i + 1) ?u (15 * (j + 1))) s = (u', s) \<and> length u' = length ?u \<and>
        take (Suc (length nm)) u' = nm @ [0]"
      using Suc.IH [of "j + 1" ?u "i + 1"] Suc.prems False lu by simp
    then show ?thesis using step lu by simp
  qed
qed

lemma concat_entry:
  assumes "\<forall>x\<in>set es. length x = 32" "i < length es"
  shows "take 32 (drop (32 * i) (concat es)) = es ! i"
  using assms
proof (induction es arbitrary: i)
  case Nil
  then show ?case by simp
next
  case (Cons x es)
  then show ?case by (cases i) simp_all
qed

lemma es_get_entry:
  assumes "is_dir ch xs s" "k < n" "es_buf es = concat (map (entry_at s xs) [i..<i + n])"
  shows "es_get es k = entry_at s xs (i + k)"
  unfolding es_get_def assms(3) by (subst concat_entry) (use assms(2) ea.len [OF assms(1)] in auto)

lemma name_entries_bounds:
  fixes L :: nat
  assumes "0 < L"
  shows "15 * ((L + 14) div 15) \<le> L + 14 \<and> L \<le> 15 * ((L + 14) div 15)"
  using div_mult_mod_eq [of "L + 14" 15] mod_less_divisor [of 15 "L + 14"] by linarith

lemma exfat_type_cong:
  "e' ! 0 = e ! 0 \<Longrightarrow> e' ! 4 = e ! 4 \<Longrightarrow> e' ! 5 = e ! 5 \<Longrightarrow> exfat_get_entry_type e' = exfat_get_entry_type e"
  by (simp add: exfat_get_entry_type_def GET16_def layouts)

lemma exfat_type_file: "e ! 0 = 0x85 \<Longrightarrow> exfat_get_entry_type e \<in> {TYPE_FILE, TYPE_DIR}"
  by (simp add: exfat_get_entry_type_def layouts)

lemma unat_of_nat_u8: "n < 256 \<Longrightarrow> unat (of_nat n :: u8) = n"
  by (simp add: unat_of_nat)

lemma exfat_num_entries:
  assumes "0 < n" "n \<le> 255"
  shows "exfat_calc_num_entries (of_nat n) = int ((n + 14) div 15 + 2)"
proof -
  have "unat (of_nat n :: u8) = n" using assms(2) by (simp add: unat_of_nat_u8)
  then have "uint (of_nat n :: u8) = int n" by (metis uint_nat)
  moreover have "(int n - 1) div 15 + 3 = int ((n + 14) div 15 + 2)"
  proof -
    obtain m where m: "n = Suc m" using assms(1) gr0_implies_Suc by blast
    then have "(n + 14) div 15 = m div 15 + 1" by simp
    then show ?thesis using m by (simp add: zdiv_int)
  qed
  ultimately show ?thesis using assms(1) unfolding exfat_calc_num_entries_def Let_def by simp
qed

lemma stored_name_run:
  assumes d: "is_dir ch xs s" "all_unlocked s" and fk: "fs_func s = ExfatOps" and xs: "xs \<noteq> []"
    and ty: "entry_at s xs e ! 0 = 0x85" "entry_at s xs (e + 1) ! 0 = 0xC0"
    and nm: "un_name un = nm @ 0 # rest" "un_len un = of_nat (length nm)" "0 \<notin> set nm" "nm \<noteq> []" "length nm \<le> 255"
    and lens: "length (un_name un) = 256" "length u = 256"
    and n: "n = (length nm + 14) div 15 + 2" and room: "e + n \<le> entry_room s xs"
  shows "\<exists>t t' u'. run_state (exfat_init_ext_entry ch (int e) (int n) un) s = (FFS_SUCCESS, t) \<and>
    run_state (exfat_get_uni_name_from_ext_entry ch (int e) u) t = (u', t') \<and>
    length u' = 256 \<and> take (Suc (length nm)) u' = nm @ [0]"
proof -
  have pos: "0 < length nm" using nm(4) by simp
  have n3: "2 < n" "n \<le> 19" using n nm(5) pos name_entries_bounds [OF pos] by linarith+
  obtain t where t: "run_state (exfat_init_ext_entry ch (int e) (int n) un) s = (FFS_SUCCESS, t)" "dir_step xs s t"
    and e0: "entry_at t xs e = SET16 ((entry_at s xs e)[file_num_ext := of_nat (n - 1)]) file_checksum (entries_checksum (map (entry_at t xs) [e..<e + n]))"
    and e1: "entry_at t xs (e + 1) = SET16 ((entry_at s xs (e + 1))[strm_name_len := un_len un]) strm_name_hash (un_hash un)"
    and en: "\<forall>k<n - 2. entry_at t xs (e + 2 + k) = init_name_entry (entry_at s xs (e + 2 + k)) (drop (15 * k) (un_name un))"
    using init_ext_entry_run [OF d, of n e un] n3 room by auto
  have dt: "is_dir ch xs t" and rt: "entry_room t xs = entry_room s xs" using dir_step_is_dir [OF t(2) d(1)] by simp_all
  have ft: "fs_func t = ExfatOps" using vol_step_fields [of s t] t(2) fk by (simp add: dir_step_def)
  have len: "length (entry_at s xs i) = 32" for i by (rule ea.len [OF d(1)])
  have ne: "n - 1 < 256" using n3 by simp
  have num: "n = unat (entry_at t xs e ! file_num_ext) + 1"
    using e0 n3 len unat_of_nat_u8 [OF ne] by (simp add: SET16_def layouts del: of_nat_diff)
  have ty0: "exfat_get_entry_type (entry_at t xs e) \<in> {TYPE_FILE, TYPE_DIR}"
    by (rule exfat_type_file) (use e0 ty(1) in \<open>simp add: SET16_def layouts\<close>)
  have ty1: "exfat_get_entry_type (entry_at t xs (e + 1)) = TYPE_STREAM"
    unfolding exfat_type_bytes using e1 ty(2) by (simp add: SET16_def layouts)
  have tyn: "exfat_get_entry_type (entry_at t xs (e + 2 + k)) = TYPE_EXTEND" if "k < n - 2" for k
    using en that init_name_entry_type [OF len] by simp
  have types: "entry_types t xs e n = exfat_get_entry_type (entry_at t xs e) # TYPE_STREAM # replicate (n - 2) TYPE_EXTEND"
  proof (rule nth_equalityI)
    fix i
    assume "i < length (entry_types t xs e n)"
    then have i: "i < n" by simp
    consider "i = 0" | "i = 1" | k where "i = k + 2" "k < n - 2" using i by (metis One_nat_def Suc_1 add_2_eq_Suc' less_diff_conv not0_implies_Suc)
    then show "entry_types t xs e n ! i = (exfat_get_entry_type (entry_at t xs e) # TYPE_STREAM # replicate (n - 2) TYPE_EXTEND) ! i"
      using i ty1 tyn n3 ft by cases (simp_all add: exfat_fs_func_def add.commute add.left_commute del: upt_Suc)
  qed (use n3 in simp)
  have acc: "es_accept ES_MODE_STARTED (entry_types t xs e n)" unfolding types by (rule es_accept_file [OF ty0])
  obtain t' es where t': "run_state (get_entry_set_in_dir ch (int e) ES_ALL_ENTRIES) t = (Some es, t')" "dir_step xs t t'"
    "es_num_entries es = n" "es_buf es = concat (map (entry_at t xs) [e..<e + n])"
    using get_entry_set_run [OF dt xs num] acc n3 room rt by auto
  have ft': "fs_func t' = ExfatOps" using vol_step_fields [of t t'] t'(2) ft by (simp add: dir_step_def)
  have get: "\<exists>x. length x = 32 \<and> es_get es (2 + k) = init_name_entry x (drop (15 * (0 + k)) (nm @ 0 # rest))" if "k < n - 2" for k
    using es_get_entry [OF dt _ t'(4), of "2 + k"] en that len [of "e + 2 + k"] nm(1) by (auto simp: add.assoc)
  obtain m where m: "n = m + 2" "15 * m \<le> length nm + 14" "length nm \<le> 15 * m" using n name_entries_bounds [OF pos] by blast
  have mb: "15 * m \<le> 255" using m(1) n3 by linarith
  have ln: "length (nm @ 0 # rest) = 256" using lens(1) nm(1) by simp
  have b: "15 * (0 + (n - 2)) < length u" "15 * (0 + (n - 2)) \<le> length (nm @ 0 # rest)" "15 * (0 + (n - 2) - 1) < length nm" "length nm \<le> 15 * (0 + (n - 2))"
    unfolding ln lens(2) m(1) using mb m(2,3) pos by (simp; fail | linarith)+
  have "length nm < 256" "0 < n - 2" using nm(5) n3 by simp_all
  from names_loop_run [OF nm(3) this(1) b(1,2) get _ this(2) b(3,4), of t'] obtain u' where u':
    "run_state (exfat_names_loop (n - 2) ExfatOps es 2 u 0) t' = (u', t')" "length u' = length u" "take (Suc (length nm)) u' = nm @ [0]"
    by auto
  have "run_state (exfat_get_uni_name_from_ext_entry ch (int e) u) t = (u', t')"
    unfolding exfat_get_uni_name_from_ext_entry_def using t' ft' u'(1) n3 by simp
  then show ?thesis using t(1) u' lens(2) by auto
qed

end
