(* ===== verification/DirSpec.thy ===== *)
theory DirSpec
  imports EntrySetProps
begin

text \<open>
  What the operations on directories do, stated over the array of entries: single entries, deleting a range of
  entries, writing the name of a new file behind its entry, collecting an entry set, and reading a name back; each
  on the root directory of the sample volume.
\<close>

section \<open>Deleting entries\<close>

abbreviation mark_deleted :: "vol \<Rightarrow> u8 list \<Rightarrow> u8 list" where
  "mark_deleted s e \<equiv> set_entry_type (ops (fs_func s)) e TYPE_DELETED"

lemma length_mark_deleted: "length (mark_deleted s e) = length e"
  by (cases "fs_func s") (simp_all add: fat_fs_func_def exfat_fs_func_def fat_set_entry_type_def exfat_set_entry_type_def Let_def)

lemma delete_step:
  assumes "is_dir ch xs s" "i < entry_room s xs"
  obtains t where "dir_step xs s t" "\<And>d. run_state (delete_loop (Suc n) ch (int i) d) s = run_state (delete_loop n ch (int i + d) d) t"
    "\<forall>j<entry_room s xs. entry_at t xs j = (if j = i then mark_deleted s (entry_at s xs i) else entry_at s xs j)"
proof -
  let ?f = "\<lambda>e. mark_deleted s e"
  obtain s1 y where s1: "run_state (get_entry_in_dir ch (int i)) s = (Some ((entry_sector s xs i, entry_off s i), entry_sector s xs i), s1)"
    "vol_step s s1" using get_entry_in_dir_run [of s ch xs i] assms unfolding is_dir_def by metis
  have l: "length (?f (entry_at s xs i)) = 32" using ea.len [OF assms(1)] by (simp add: length_mark_deleted)
  obtain t where t: "run_state (edit_entry ch (int i) ?f) s = (True, t)" "dir_step xs s t"
    "\<forall>j<entry_room s xs. entry_at t xs j = (if j = i then ?f (entry_at s xs i) else entry_at s xs j)"
    using ea.change_spec [where f = ?f, OF assms l] by blast
  have "run_state (delete_loop (Suc n) ch (int i) d) s = run_state (delete_loop n ch (int i + d) d) t" for d
    using t(1) s1 by (simp add: edit_entry_def vol_step_fields split: prod.splits)
  then show ?thesis using that t by blast
qed

lemma delete_loop_run:
  assumes "is_dir ch xs s" "i + n \<le> entry_room s xs"
  shows "\<exists>t. run_state (delete_loop n ch (int i) 1) s = ((), t) \<and> dir_step xs s t \<and>
    (\<forall>j<entry_room s xs. entry_at t xs j = (if i \<le> j \<and> j < i + n then mark_deleted s (entry_at s xs j) else entry_at s xs j))"
  using assms
proof (induction n arbitrary: i s)
  case 0
  then show ?case using ea.keep_refl [of ch xs s] by auto
next
  case (Suc n)
  then have "i < entry_room s xs" by simp
  from delete_step [OF Suc.prems(1) this, of n] obtain t where t: "dir_step xs s t"
    "run_state (delete_loop (Suc n) ch (int i) 1) s = run_state (delete_loop n ch (int (Suc i)) 1) t"
    "\<forall>j<entry_room s xs. entry_at t xs j = (if j = i then mark_deleted s (entry_at s xs i) else entry_at s xs j)"
    by (metis of_nat_Suc add.commute)
  note k = dir_step_is_dir [OF t(1) Suc.prems(1)]
  have fk: "fs_func t = fs_func s" using t(1) vol_step_fields [of s t] by (simp add: dir_step_def)
  have b: "Suc i + n \<le> entry_room t xs" using Suc.prems(2) k by simp
  obtain u where u: "run_state (delete_loop n ch (int (Suc i)) 1) t = ((), u)" "dir_step xs t u"
    "\<forall>j<entry_room t xs. entry_at u xs j = (if Suc i \<le> j \<and> j < Suc i + n then mark_deleted t (entry_at t xs j) else entry_at t xs j)"
    using Suc.IH [OF k [THEN conjunct1] b] by blast
  have "entry_at u xs j = (if i \<le> j \<and> j < i + Suc n then mark_deleted s (entry_at s xs j) else entry_at s xs j)" if "j < entry_room s xs" for j
    using u(3) t(3) k that by (auto simp: fk)
  then show ?case using t(2) u(1) dir_step_trans [OF t(1) u(2)] by auto
qed

lemma deleted_type:
  assumes "length e = 32" "e ! 0 \<noteq> 0" "e ! 0 \<noteq> 0x80"
  shows "get_entry_type (ops k) (set_entry_type (ops k) e TYPE_DELETED) = TYPE_DELETED"
proof (cases k)
  case FatOps
  then show ?thesis using assms(1)
    by (simp add: fat_fs_func_def fat_get_entry_type_def fat_set_entry_type_def layouts type_defs)
next
  case ExfatOps
  let ?b = "(e ! 0) AND NOT (0x80 :: u8)"
  have n: "NOT (0x80 :: u8) = mask 7" by (simp add: word_eq_iff_unsigned mask_eq_exp_minus_1)
  have b: "unat ?b = unat (e ! 0) mod 128"
  proof -
    have "unat ?b = take_bit 7 (unat (e ! 0))" unfolding n by (simp only: take_bit_eq_mask [symmetric] unsigned_take_bit_eq)
    then show ?thesis by (simp add: take_bit_eq_mod)
  qed
  then have "?b < 0x80" by (simp add: word_less_nat_alt)
  moreover have "?b \<noteq> 0"
  proof
    assume "?b = 0"
    then have "unat (e ! 0) mod 128 = 0" using b by simp
    moreover have "unat (e ! 0) < 256" using unsigned_less [of "e ! 0"] by simp
    ultimately have "unat (e ! 0) = 0 \<or> unat (e ! 0) = 128" by presburger
    then show False using assms(2,3) unfolding word_unat_eq_iff by simp
  qed
  ultimately show ?thesis using ExfatOps assms(1)
    by (simp add: exfat_fs_func_def exfat_get_entry_type_def exfat_set_entry_type_def layouts type_defs Let_def)
qed

section \<open>The properties\<close>

text \<open>
  C21: A directory is an array of entries: for every index below the room of its clusters \<open>xs\<close>, reading the entry
  that \<^verbatim>\<open>get_entry_in_dir\<close> finds gives that entry and changes no entry, no FAT value and no other sector, and
  changing it there changes just that entry.
\<close>

theorem directory_refines_array:
  assumes "is_dir ch xs s" "i < entry_room s xs" "length (f (entry_at s xs i)) = 32"
  shows "\<exists>t u. run_state (fetch_entry ch (int i)) s = (Some (entry_at s xs i), t) \<and> dir_step xs s t \<and> entry_at t xs = entry_at s xs \<and>
    run_state (edit_entry ch (int i) f) s = (True, u) \<and> dir_step xs s u \<and>
    (\<forall>j<entry_room s xs. entry_at u xs j = ((entry_at s xs)(i := f (entry_at s xs i))) j) \<and> dirty u (entry_sector s xs i)"
  using fetch_entry_run [OF assms(1,2)] edit_entry_run [where f = f, OF assms] by auto

text \<open>
  C24: Deleting the entries of a file marks exactly the entries of the range as deleted, in a FAT directory (where the
  long-name entries lie before the entry) as in an exFAT directory (where they follow it), and an entry in use that is
  not of the invalid type \<open>0x80\<close> is then of type \<^verbatim>\<open>TYPE_DELETED\<close>.
\<close>

theorem delete_dir_entry_correct:
  assumes "is_dir ch xs s" "order \<le> n" and fk: "fs_func s = FatOps \<Longrightarrow> lo + (n - 1) = e \<and> 0 < n" "fs_func s = ExfatOps \<Longrightarrow> lo = e + order"
    and "lo + (n - order) \<le> entry_room s xs"
  shows "\<exists>t. run_state (delete_dir_entry (fs_func s) ch (int e) (int order) (int n)) s = ((), t) \<and> dir_step xs s t \<and>
    (\<forall>j<entry_room s xs. j < lo \<or> lo + (n - order) \<le> j \<longrightarrow> entry_at t xs j = entry_at s xs j) \<and>
    (\<forall>j. lo \<le> j \<and> j < lo + (n - order) \<and> entry_at s xs j ! 0 \<notin> {0, 0x80} \<longrightarrow>
      get_entry_type (ops (fs_func s)) (entry_at t xs j) = TYPE_DELETED)"
proof -
  have start: "nat (int n - int order) = n - order" by simp
  have run: "run_state (delete_dir_entry (fs_func s) ch (int e) (int order) (int n)) s = run_state (delete_loop (n - order) ch (int lo) 1) s"
  proof (cases "fs_func s")
    case FatOps
    then have "int e - (int n - 1) = int lo" using fk(1) by auto
    then show ?thesis using FatOps start by (simp add: fat_delete_dir_entry_def)
  next
    case ExfatOps
    then have "int e + int order = int lo" using fk(2) by simp
    then show ?thesis using ExfatOps start by (simp add: exfat_delete_dir_entry_def)
  qed
  obtain t where t: "run_state (delete_loop (n - order) ch (int lo) 1) s = ((), t)" "dir_step xs s t"
    "\<forall>j<entry_room s xs. entry_at t xs j = (if lo \<le> j \<and> j < lo + (n - order) then mark_deleted s (entry_at s xs j) else entry_at s xs j)"
    using delete_loop_run [OF assms(1,5)] by blast
  have "get_entry_type (ops (fs_func s)) (entry_at t xs j) = TYPE_DELETED"
    if "lo \<le> j" "j < lo + (n - order)" "entry_at s xs j ! 0 \<notin> {0, 0x80}" for j
  proof -
    have "entry_at t xs j = mark_deleted s (entry_at s xs j)" using t(3) that(1,2) less_le_trans [OF that(2) assms(5)] by (simp del: add_diff_assoc)
    then show ?thesis using deleted_type [OF ea.len [OF assms(1)], of j "fs_func s"] that(3) by simp
  qed
  then show ?thesis using run t by auto
qed

text \<open>
  C23: \<^verbatim>\<open>exfat_init_ext_entry\<close> stores the number of secondary entries in the file entry, length and hash of the name in
  the stream entry, the parts of the name in the entries behind it and a checksum of the whole set that is valid: the
  one that its entries have after the call; no other entry of the directory changes, and no buffer stays locked.
\<close>

theorem exfat_init_ext_entry_correct:
  assumes "is_dir ch xs s" "all_unlocked s" "2 \<le> n" "n \<le> 256" "e + n \<le> entry_room s xs"
  shows "\<exists>t. run_state (exfat_init_ext_entry ch (int e) (int n) un) s = (FFS_SUCCESS, t) \<and> dir_step xs s t \<and> all_unlocked t \<and>
    entry_at t xs e = SET16 ((entry_at s xs e)[file_num_ext := of_nat (n - 1)]) file_checksum (entries_checksum (map (entry_at t xs) [e..<e + n])) \<and>
    entry_at t xs (e + 1) = SET16 ((entry_at s xs (e + 1))[strm_name_len := un_len un]) strm_name_hash (un_hash un) \<and>
    (\<forall>k<n - 2. entry_at t xs (e + 2 + k) = init_name_entry (entry_at s xs (e + 2 + k)) (drop (15 * k) (un_name un))) \<and>
    (\<forall>j<entry_room s xs. j < e \<or> e + n \<le> j \<longrightarrow> entry_at t xs j = entry_at s xs j)"
  using init_ext_entry_run [OF assms, of un] by blast

text \<open>
  C22: Collecting the entries of a file gives a copy of the file entry and of the secondary entries it announces, when
  their types are those of a file (an automaton reads them in order: file, stream, names, then critical secondary
  entries), and an error otherwise; the directory may spread over any number of sectors and clusters.
\<close>

theorem get_entry_set_in_dir_correct:
  assumes "is_dir ch xs s" "xs \<noteq> []" "n = unat (entry_at s xs i ! file_num_ext) + 1" "n < 256" "i + n \<le> entry_room s xs"
  shows "\<exists>t. run_state (get_entry_set_in_dir ch (int i) ES_ALL_ENTRIES) s =
    (if es_accept ES_MODE_STARTED (map (\<lambda>j. get_entry_type (ops (fs_func s)) (entry_at s xs j)) [i..<i + n])
     then Some \<lparr>es_sector = entry_sector s xs i, es_offset = int (entry_off s i), es_alloc_flag = uint (chain_flags ch),
       es_num_entries = n, es_buf = concat (map (entry_at s xs) [i..<i + n])\<rparr> else None, t) \<and>
    dir_step xs s t \<and> entry_at t xs = entry_at s xs"
  by (rule get_entry_set_run [OF assms])

text \<open>
  C20: A name of up to 255 units that \<^verbatim>\<open>exfat_init_ext_entry\<close> has stored behind a file entry is what
  \<^verbatim>\<open>exfat_get_uni_name_from_ext_entry\<close> reads back, terminated, when the number of entries is the one that
  \<^verbatim>\<open>exfat_calc_num_entries\<close> computes.
\<close>

theorem stored_name_read_back:
  assumes "is_dir ch xs s" "all_unlocked s" "fs_func s = ExfatOps" "xs \<noteq> []"
    and "entry_at s xs e ! 0 = 0x85" "entry_at s xs (e + 1) ! 0 = 0xC0"
    and "un_name un = nm @ 0 # rest" "un_len un = of_nat (length nm)" "0 \<notin> set nm" "nm \<noteq> []" "length nm \<le> 255"
    and "length (un_name un) = 256" "length u = 256"
    and "int e + exfat_calc_num_entries (un_len un) \<le> int (entry_room s xs)"
  shows "\<exists>t t' u'. run_state (exfat_init_ext_entry ch (int e) (exfat_calc_num_entries (un_len un)) un) s = (FFS_SUCCESS, t) \<and>
    run_state (exfat_get_uni_name_from_ext_entry ch (int e) u) t = (u', t') \<and>
    length u' = 256 \<and> take (Suc (length nm)) u' = nm @ [0]"
proof -
  let ?n = "(length nm + 14) div 15 + 2"
  have n: "exfat_calc_num_entries (un_len un) = int ?n"
    unfolding assms(8) using assms(10,11) by (intro exfat_num_entries) simp_all
  then have "e + ?n \<le> entry_room s xs" using assms(14) by linarith
  then show ?thesis using stored_name_run [OF assms(1-13) refl] unfolding n by blast
qed

section \<open>On the sample volume\<close>

lemma vol_ok_ready:
  assumes "\<And>b. length (bs b) = 512" "102 \<le> fat_limit t"
  shows "vol_ok (ready t bs)"
proof -
  have "clusters_ok (ready t bs)"
    by (auto simp: clusters_ok_def fat_ok_ready assms is_cluster_def vol_types word_less_nat_alt intro!: loc_ok_ready)
  moreover have "layout_ok (ready t bs)" by (auto simp: layout_ok_def out_of_range_def word_le_nat_alt)
  ultimately show ?thesis using ready_ok(2) ready_spare [of BUFC t bs] by (simp add: vol_ok_def)
qed

text \<open>The root directory in the clusters 5 and 6, with the first two entries of a file.\<close>

definition named_dir :: "u32 \<Rightarrow> u8 list" where
  "named_dir = zeros(18 := (replicate 512 0)[0 := 0x85, 32 := 0xC0])"

definition root_ch :: CHAIN_T where
  "root_ch = \<lparr>chain_dir = 5, chain_size = 2, chain_flags = 3\<rparr>"

lemma named_dir_len: "length (named_dir b) = 512"
  by (simp add: named_dir_def)

lemma named_is_dir: "is_dir root_ch [5, 6] (ready EXFAT named_dir)"
  using vol_ok_ready [of named_dir EXFAT] by (simp add: fat_limit_def vol_types is_dir_def named_dir_len chain_clusters_def root_ch_def is_cluster_def less_Suc_eq)

lemma named_room: "entry_room (ready EXFAT named_dir) [5, 6] = 64"
  by (simp add: entry_room_def byte_room_def)

lemma init_all_unlocked:
  assumes "\<forall>x. unlocked c x"
  shows "unlocked (init_cache w bits c) x"
proof -
  let ?c = "c\<lparr>lru_next := (lru_next c)(CLru := CLru), lru_prev := (lru_prev c)(CLru := CLru)\<rparr>"
  have "\<forall>x. bc_flag (slot (fold init_slot [0..<n] ?c) x) AND LOCKBIT = 0" for n
    using assms [unfolded unlocked_def] by (induction n) (auto simp: init_slot_def push_to_mru_def case_prod_unfold unlocked_def)
  moreover have "bc_flag (slot (fold init_head [0..<n] d) x) = bc_flag (slot d x)" for n d x by (induction n) (auto simp: init_head_def)
  ultimately show ?thesis
    using insert_slots_fields(3) [of w bits "cache_size w"] by (simp add: init_cache_def insert_slots_def [symmetric] unlocked_def Let_def)
qed

lemma ready_unlocked: "all_unlocked (ready t bs)"
  using init_all_unlocked [of blank_cache BUFC 1] by (simp add: all_unlocked_def ready_eq blank_cache_def blank_slot_def unlocked_def)

lemma named_entries:
  "entry_at (ready EXFAT named_dir) [5, 6] 0 = (replicate 32 0)[0 := 0x85]"
  "entry_at (ready EXFAT named_dir) [5, 6] 1 = (replicate 32 0)[0 := 0xC0]"
  by (simp_all add: entry_at_def entry_off_def entry_sector_def byte_sector_def clu_sector_def START_SECTOR_def named_dir_def
      take_update_swap drop_update_swap list_update_beyond)

lemma directory_refines_array_witness:
  "\<exists>u. run_state (edit_entry root_ch (int 1) (\<lambda>e. e[1 := 9])) (ready EXFAT named_dir) = (True, u) \<and> entry_at u [5, 6] 1 ! 1 = 9 \<and>
     entry_at u [5, 6] 0 = (replicate 32 0)[0 := 0x85]"
proof -
  let ?s = "ready EXFAT named_dir"
  have "1 < entry_room ?s [5, 6]" "length ((entry_at ?s [5, 6] 1)[1 := 9]) = 32" by (simp_all only: named_room named_entries) simp_all
  from directory_refines_array [where f = "\<lambda>e. e[1 := 9]", OF named_is_dir this] obtain u where
    u: "run_state (edit_entry root_ch (int 1) (\<lambda>e. e[1 := 9])) ?s = (True, u)"
    "\<forall>j<entry_room ?s [5, 6]. entry_at u [5, 6] j = ((entry_at ?s [5, 6])(1 := (entry_at ?s [5, 6] 1)[1 := 9])) j" by blast
  have "entry_at u [5, 6] 1 ! 1 = 9" "entry_at u [5, 6] 0 = (replicate 32 0)[0 := 0x85]"
    using u(2) [rule_format, of 1] u(2) [rule_format, of 0] named_entries by (simp_all only: named_room) simp_all
  then show ?thesis using u(1) by blast
qed

lemma delete_dir_entry_correct_witness:
  "\<exists>t. run_state (delete_dir_entry (fs_func (ready EXFAT named_dir)) root_ch (int 0) (int 0) (int 2)) (ready EXFAT named_dir) = ((), t) \<and>
     exfat_get_entry_type (entry_at t [5, 6] 1) = TYPE_DELETED"
  using delete_dir_entry_correct [OF named_is_dir, of 0 2 0 0]
  by (auto simp: named_room named_entries [unfolded One_nat_def] exfat_fs_func_def)

lemma exfat_init_ext_entry_correct_witness:
  "\<exists>t. run_state (exfat_init_ext_entry root_ch (int 0) (int 3) \<lparr>un_name = replicate 256 65, un_hash = 7, un_len = 15\<rparr>) (ready EXFAT named_dir) =
     (FFS_SUCCESS, t) \<and> entry_at t [5, 6] 1 ! 4 = 7"
  using exfat_init_ext_entry_correct [OF named_is_dir ready_unlocked, of 3 0 "\<lparr>un_name = replicate 256 65, un_hash = 7, un_len = 15\<rparr>"]
  by (auto simp: named_room named_entries [unfolded One_nat_def] SET16_def layouts)

lemma get_entry_set_in_dir_correct_witness:
  "\<exists>t. run_state (get_entry_set_in_dir root_ch (int 0) ES_ALL_ENTRIES) (ready EXFAT named_dir) = (Some \<lparr>es_sector = 18, es_offset = 0,
     es_alloc_flag = 3, es_num_entries = 1, es_buf = (replicate 32 0)[0 := 0x85]\<rparr>, t)"
  using get_entry_set_in_dir_correct [OF named_is_dir, of 1 0]
  by (auto simp: named_room named_entries layouts exfat_fs_func_def exfat_get_entry_type_def GET16_def type_defs entry_off_def
      entry_sector_def byte_sector_def clu_sector_def START_SECTOR_def root_ch_def)

lemma stored_name_read_back_witness:
  "\<exists>t t' u'. run_state (exfat_get_uni_name_from_ext_entry root_ch (int 0) (replicate 256 0)) t = (u', t') \<and>
     take (Suc (length [65, 66, 67 :: u16])) u' = [65, 66, 67] @ [0]"
proof -
  let ?un = "\<lparr>un_name = [65, 66, 67] @ 0 # replicate 252 0, un_hash = 7, un_len = 3\<rparr>"
  have n: "exfat_calc_num_entries (un_len ?un) = 3" by (simp add: exfat_calc_num_entries_def)
  have "entry_at (ready EXFAT named_dir) [5, 6] 0 ! 0 = 0x85" "entry_at (ready EXFAT named_dir) [5, 6] (0 + 1) ! 0 = 0xC0"
    unfolding add_0 named_entries by simp_all
  moreover have "un_name ?un = [65, 66, 67] @ 0 # replicate 252 0" "un_len ?un = of_nat (length [65, 66, 67 :: u16])"
    "0 \<notin> set [65, 66, 67 :: u16]" "length (un_name ?un) = 256" by simp_all
  ultimately show ?thesis
    using stored_name_read_back [OF named_is_dir ready_unlocked, of 0 ?un "[65, 66, 67]" "replicate 252 0" "replicate 256 0"]
    unfolding n named_room by auto
qed

end
