(* ===== verification/FileSpec.thy ===== *)
theory FileSpec
  imports DirSpec FileApi
begin

text \<open>
  Reading and writing files, stated over the bytes of a file: \<open>file_byte\<close> is byte \<open>p\<close> of the clusters of a file,
  \<open>file_ok\<close> says that a file identifier describes a file of the volume and that the hint of its last position is right.
\<close>

section \<open>The bytes of a file\<close>

definition file_byte :: "vol \<Rightarrow> u32 list \<Rightarrow> nat \<Rightarrow> u8" where
  "file_byte s xs p = bufs s (byte_sector s xs p) ! (p mod 2 ^ sector_size_bits s)"

text \<open>The clusters of a file, and what the hint of its last position must satisfy.\<close>

definition file_chain :: "FILE_ID_T \<Rightarrow> CHAIN_T" where
  "file_chain fid = \<lparr>chain_dir = start_clu fid, chain_size = 0, chain_flags = fid_flags fid\<rparr>"

definition hint_ok :: "u32 list \<Rightarrow> FILE_ID_T \<Rightarrow> bool" where
  "hint_ok xs fid \<longleftrightarrow> hint_last_off fid > 0 \<longrightarrow> nat (hint_last_off fid) < length xs \<and> hint_last_clu fid = xs ! nat (hint_last_off fid)"

definition file_ok :: "u32 list \<Rightarrow> FILE_ID_T \<Rightarrow> vol \<Rightarrow> bool" where
  "file_ok xs fid s \<longleftrightarrow> vol_ok s \<and> xs \<noteq> [] \<and> chain_clusters s (file_chain fid) xs \<and> length xs < 2 ^ 31 \<and> hint_ok xs fid \<and>
     0 \<le> rwoffset fid \<and> unat (fid_size fid) \<le> byte_room s xs \<and> unat (fid_size fid) < 2 ^ 63"

lemma byte_room_file: "xs \<noteq> [] \<Longrightarrow> byte_room s xs = length xs * 2 ^ cluster_size_bits s"
  by (simp add: byte_room_def)

lemma sint_of_nat_u32: "k < 2 ^ 31 \<Longrightarrow> sint (of_nat k :: u32) = int k"
proof -
  assume "k < 2 ^ 31"
  then have "int k < int (2 ^ 31)" by (simp only: of_nat_less_iff)
  moreover have "- (2 ^ 31) \<le> int k" by (rule order_trans [of _ 0]) simp_all
  ultimately have "signed_take_bit 31 (int k) = int k" by (intro signed_take_bit_int_eq_self) simp_all
  then show ?thesis by (simp add: signed_of_nat)
qed

lemma sint_of_nat_u64: "k < 2 ^ 63 \<Longrightarrow> sint (of_nat k :: u64) = int k"
proof -
  assume "k < 2 ^ 63"
  then have "int k < int (2 ^ 63)" by (simp only: of_nat_less_iff)
  moreover have "- (2 ^ 63) \<le> int k" by (rule order_trans [of _ 0]) simp_all
  ultimately have "signed_take_bit 63 (int k) = int k" by (intro signed_take_bit_int_eq_self) simp_all
  then show ?thesis by (simp add: signed_of_nat)
qed

lemma rw_cluster_eq:
  assumes "rwoffset fid = int p" "p div 2 ^ cluster_size_bits s < 2 ^ 31"
  shows "rw_cluster fid s = int (p div 2 ^ cluster_size_bits s)"
  unfolding rw_cluster_def assms(1) drop_bit_int of_int_of_nat_eq by (rule sint_of_nat_u32 [OF assms(2)])

lemma rw_sector_eq:
  assumes "vol_ok s" "xs \<noteq> []" "rwoffset fid = int p"
  shows "rw_sector fid (xs ! (p div 2 ^ cluster_size_bits s)) s = (byte_sector s xs p, p mod 2 ^ sector_size_bits s)"
  unfolding rw_sector_def Let_def assms(3) using byte_location [OF assms(1,2), of p] by (simp only: add.commute)

text \<open>The walk to the cluster of the position, from the hint when there is one.\<close>

lemma chain_drop_nth: "chain f c xs \<Longrightarrow> k < length xs \<Longrightarrow> chain f (xs ! k) (drop k xs)"
proof (induction xs arbitrary: c k)
  case Nil
  then show ?case by simp
next
  case (Cons x xs)
  show ?case
  proof (cases k)
    case 0
    then show ?thesis using Cons.prems by simp
  next
    case (Suc j)
    then show ?thesis using Cons.IH [of "f x" j] Cons.prems by simp
  qed
qed

lemma walk_start_run:
  assumes "chain f (start_clu fid) xs" "hint_ok xs fid" "k < length xs" "walk_start fid (int k) = (n, clu)"
  obtains j where "n = int (k - j)" "j \<le> k" "clu = xs ! j" "chain f clu (drop j xs)"
proof (cases "int k > 0 \<and> hint_last_off fid > 0 \<and> int k \<ge> hint_last_off fid")
  case True
  let ?j = "nat (hint_last_off fid)"
  have "n = int (k - ?j)" "clu = xs ! ?j" "?j < length xs" "?j \<le> k" using True assms(2,4) by (auto simp: walk_start_def hint_ok_def)
  then show ?thesis using that [of ?j] chain_drop_nth [OF assms(1), of ?j] by simp
next
  case False
  then have "n = int k" "clu = start_clu fid" using assms(4) by (auto simp: walk_start_def split: if_splits)
  moreover have "start_clu fid = xs ! 0" using assms(1,3) by (cases xs) auto
  ultimately show ?thesis using that [of 0] assms(1) by simp
qed

lemma read_cluster_run:
  assumes "file_ok xs fid s" "rwoffset fid = int p" "p < byte_room s xs"
  obtains t where "run_state (read_cluster fid) s = (Some (xs ! (p div 2 ^ cluster_size_bits s)), t)" "fat_step (bufs s) s t"
proof -
  let ?k = "p div 2 ^ cluster_size_bits s"
  have v: "vol_ok s" and c: "clusters_ok s" and xs: "xs \<noteq> []" "chain_clusters s (file_chain fid) xs" "length xs < 2 ^ 31" "hint_ok xs fid"
    using assms(1) by (auto simp: file_ok_def vol_ok_def)
  have k: "?k < length xs" by (rule byte_cluster [OF assms(3) xs(1)])
  have rw: "rw_cluster fid s = int ?k" using rw_cluster_eq [OF assms(2)] k xs(3) by simp
  show thesis
  proof (cases "fid_flags fid = 3")
    case True
    then have "xs ! ?k = start_clu fid + of_nat ?k" using xs k by (simp add: chain_clusters_def file_chain_def)
    then have "run_state (read_cluster fid) s = (Some (xs ! ?k), s)" using True by (simp add: read_cluster_def rw)
    then show ?thesis using that fat_step_refl c by (simp add: clusters_ok_def)
  next
    case False
    have x: "chain (fat_val s) (start_clu fid) xs" "\<forall>x\<in>set xs. is_cluster s x"
      using xs(1,2) False by (auto simp: chain_clusters_def file_chain_def)
    obtain n clu where w: "walk_start fid (int ?k) = (n, clu)" by (cases "walk_start fid (int ?k)")
    obtain j where j: "n = int (?k - j)" "j \<le> ?k" "clu = xs ! j" "chain (fat_val s) clu (drop j xs)"
      using walk_start_run [OF x(1) xs(4) k w] .
    have d: "\<forall>x\<in>set (drop j xs). is_cluster s x" using x(2) by (auto dest: in_set_dropD)
    have "?k - j < length (drop j xs)" using k j(2) by simp
    from walk_chain_loop_run [OF c j(4) this d] obtain t where
      "run_state (walk_chain_loop (?k - j) clu) s = (Some (drop j xs ! (?k - j)), t)" "fat_step (bufs s) s t" .
    moreover have "drop j xs ! (?k - j) = xs ! ?k" using j(2) k by simp
    ultimately show ?thesis using that False w j(1) by (simp add: read_cluster_def rw)
  qed
qed

section \<open>Reading a file\<close>

lemma byte_sector_same:
  assumes "p div 2 ^ sector_size_bits s = q div 2 ^ sector_size_bits s" "vol_ok s"
  shows "byte_sector s xs p = byte_sector s xs q"
proof -
  note z = vol_sizes [OF assms(2)]
  have e: "r div 2 ^ cluster_size_bits s = r div 2 ^ sector_size_bits s div 2 ^ sectors_per_clu_bits s" for r :: nat
    by (simp add: z(2) power_add div_mult2_eq)
  have f: "r mod 2 ^ cluster_size_bits s div 2 ^ sector_size_bits s = r div 2 ^ sector_size_bits s mod 2 ^ sectors_per_clu_bits s" for r :: nat
    by (simp add: z(2) power_add mod_mult2_eq)
  show ?thesis unfolding byte_sector_def e f assms(1) ..
qed

lemma small_div_mod: "r < m \<Longrightarrow> (m * q + r) div m = q \<and> (m * q + r) mod m = (r :: nat)"
  by simp

text \<open>The part of a sector that a turn of a loop transfers.\<close>

lemma sector_part:
  fixes p k :: nat
  assumes "vol_ok s" "k \<le> 2 ^ sector_size_bits s - p mod 2 ^ sector_size_bits s"
  shows "take k (drop (p mod 2 ^ sector_size_bits s) (bufs s (byte_sector s xs p))) = map (file_byte s xs) [p..<p + k]"
proof (rule nth_equalityI)
  let ?m = "2 ^ sector_size_bits s :: nat"
  have l: "length (bufs s x) = ?m" for x using vol_sizes(1) [OF assms(1)] by (simp add: geometry_ok_def)
  show len: "length (take k (drop (p mod ?m) (bufs s (byte_sector s xs p)))) = length (map (file_byte s xs) [p..<p + k])"
    using assms(2) by (simp add: l)
  fix i
  assume "i < length (take k (drop (p mod ?m) (bufs s (byte_sector s xs p))))"
  then have i: "i < k" using assms(2) by (simp add: l)
  then have lt: "p mod ?m + i < ?m" using assms(2) by simp
  have e: "p + i = ?m * (p div ?m) + (p mod ?m + i)" by simp
  have d: "(p + i) div ?m = p div ?m" "(p + i) mod ?m = p mod ?m + i"
    unfolding e using small_div_mod [OF lt, of "p div ?m"] by blast+
  then show "take k (drop (p mod ?m) (bufs s (byte_sector s xs p))) ! i = map (file_byte s xs) [p..<p + k] ! i"
    using i byte_sector_same [OF d(1) assms(1), of xs] l by (simp add: file_byte_def)
qed

lemma file_byte_step: "vol_step s t \<Longrightarrow> bufs t = bufs s \<Longrightarrow> file_byte t = file_byte s"
  using vol_step_dir(1) [of s t] vol_step_fields [of s t] by (simp add: file_byte_def fun_eq_iff)

text \<open>Moving the position and setting the hint keep the file well formed.\<close>

lemma file_ok_move:
  assumes "file_ok xs fid s" "rwoffset fid = int p" "p < byte_room s xs" "0 \<le> q" "vol_step s t" "\<forall>c. is_cluster s c \<longrightarrow> fat_val t c = fat_val s c"
  shows "file_ok xs ((set_rw_hint (xs ! (p div 2 ^ cluster_size_bits s)) s fid)\<lparr>rwoffset := q\<rparr>) t"
proof -
  have xs: "xs \<noteq> []" "chain_clusters s (file_chain fid) xs" "length xs < 2 ^ 31" using assms(1) by (simp_all add: file_ok_def)
  have k: "p div 2 ^ cluster_size_bits s < length xs" by (rule byte_cluster [OF assms(3) xs(1)])
  have rw: "rw_cluster fid s = int (p div 2 ^ cluster_size_bits s)" using rw_cluster_eq [OF assms(2)] k xs(3) by simp
  have "chain_clusters t (file_chain fid) xs"
    using chain_clusters_vals [of s t "file_chain fid" xs] xs(2) assms(5,6) by simp
  then show ?thesis using assms(1,4) vol_step_ok [OF assms(5)] vol_step_dir(2) [OF assms(5)] k
    by (simp add: file_ok_def hint_ok_def set_rw_hint_def rw file_chain_def)
qed

lemma read_loop_run:
  assumes "file_ok xs fid s" "rwoffset fid = int p" "p + count \<le> byte_room s xs" "count \<le> n"
  shows "\<exists>t fid'. run_state (read_loop n fid count acc bh) s = ((False, fid', acc @ map (file_byte s xs) [p..<p + count]), t) \<and>
    vol_step s t \<and> fat_val t = fat_val s \<and> bufs t = bufs s \<and> file_ok xs fid' t \<and>
    fid' = fid\<lparr>rwoffset := int (p + count), hint_last_off := hint_last_off fid', hint_last_clu := hint_last_clu fid'\<rparr>"
  using assms
proof (induction n arbitrary: fid p count acc bh s)
  case 0
  then have "vol_step s s" by (simp add: file_ok_def vol_step_refl)
  then show ?case using 0 by auto
next
  case (Suc n)
  show ?case
  proof (cases count)
    case 0
    have "vol_step s s" using Suc.prems(1) by (simp add: file_ok_def vol_step_refl)
    then show ?thesis using Suc.prems 0 by auto
  next
    case (Suc c)
    have v: "vol_ok s" and xs: "xs \<noteq> []" "chain_clusters s (file_chain fid) xs" using Suc.prems(1) by (simp_all add: file_ok_def)
    note z = vol_sizes [OF v]
    let ?m = "2 ^ sector_size_bits s :: nat" and ?clu = "xs ! (p div 2 ^ cluster_size_bits s)"
    define len where "len = min (?m - p mod ?m) (Suc c)"
    have p: "p < byte_room s xs" using Suc.prems(3) Suc by simp
    obtain t1 where t1: "run_state (read_cluster fid) s = (Some ?clu, t1)" "fat_step (bufs s) s t1"
      using read_cluster_run [OF Suc.prems(1,2) p] .
    note f1 = fat_step_vol [OF v t1(2)]
    note r1 = vol_step_fields [OF f1(1)] vol_step_dir [OF f1(1)]
    let ?fid = "set_rw_hint ?clu s fid"
    have fid: "set_rw_hint ?clu t1 fid = ?fid" "rwoffset ?fid = int p" using Suc.prems(2) by (simp_all add: set_rw_hint_def rw_cluster_def r1)
    have sec: "rw_sector ?fid ?clu t1 = (byte_sector s xs p, p mod ?m)"
      using rw_sector_eq [OF vol_step_ok [OF f1(1)] xs(1) fid(2)] by (simp add: r1)
    have "data_sector t1 (byte_sector s xs p)" using byte_sector_data [OF v xs(2) p] by (simp add: r1)
    then have ran: "\<not> out_of_range (byte_sector s xs p) t1" by (rule data_sector_range [OF vol_step_ok [OF f1(1)]])
    have dev: "device_ok t1" using vol_step_ok [OF f1(1)] by (simp add: vol_ok_def clusters_ok_def fat_ok_def)
    define t2 where "t2 = t1\<lparr>env_pos := env_pos t1 + 1\<rparr>"
    note st2 = vol_step_env [OF vol_step_ok [OF f1(1)], of "env_pos t1 + 1", folded t2_def]
    have st: "vol_step s t2" by (rule vol_step_trans [OF f1(1) st2(1)])
    have b2: "bufs t2 = bufs s" "fat_val t2 = fat_val s" using f1 st2 by (simp_all add: t2_def)
    let ?fid' = "?fid\<lparr>rwoffset := int (p + len)\<rparr>"
    have ok: "file_ok xs ?fid' t2" by (rule file_ok_move [OF Suc.prems(1,2) p _ st]) (simp_all add: b2)
    have len: "0 < len" "len \<le> Suc c" "len \<le> ?m - p mod ?m" by (simp_all add: len_def)
    have part: "take len (drop (p mod ?m) (bufs s (byte_sector s xs p))) = map (file_byte s xs) [p..<p + len]"
      by (rule sector_part [OF v len(3)])
    have run: "run_state (read_loop (Suc n) fid count acc bh) s =
      run_state (read_loop n ?fid' (Suc c - len) (acc @ map (file_byte s xs) [p..<p + len]) (Some (byte_sector s xs p))) t2"
      using t1(1) run_sector_read [OF dev ran, of bh True] fid sec part z(6) Suc
      by (simp add: Let_def r1 f1(3) t2_def len_def [symmetric] Suc.prems(2) FFS_SUCCESS_def)
    have b: "p + len + (Suc c - len) \<le> byte_room t2 xs" "Suc c - len \<le> n"
      using Suc.prems(3,4) Suc len by (simp_all add: vol_step_dir [OF st])
    have rwf: "rwoffset ?fid' = int (p + len)" by simp
    obtain t fid' where t: "run_state (read_loop n ?fid' (Suc c - len) (acc @ map (file_byte s xs) [p..<p + len]) (Some (byte_sector s xs p))) t2 =
        ((False, fid', (acc @ map (file_byte s xs) [p..<p + len]) @ map (file_byte t2 xs) [p + len..<p + len + (Suc c - len)]), t)"
      "vol_step t2 t" "fat_val t = fat_val t2" "bufs t = bufs t2" "file_ok xs fid' t"
      "fid' = ?fid'\<lparr>rwoffset := int (p + len + (Suc c - len)), hint_last_off := hint_last_off fid', hint_last_clu := hint_last_clu fid'\<rparr>"
      using Suc.IH [OF ok rwf b, of "acc @ map (file_byte s xs) [p..<p + len]" "Some (byte_sector s xs p)"] by (elim exE conjE) (rule that)
    have "[p..<p + count] = [p..<p + len] @ [p + len..<p + len + (Suc c - len)]"
      using upt_add_eq_append [of p "p + len" "Suc c - len"] len(2) Suc by simp
    then have out: "(acc @ map (file_byte s xs) [p..<p + len]) @ map (file_byte t2 xs) [p + len..<p + len + (Suc c - len)] =
        acc @ map (file_byte s xs) [p..<p + count]" by (simp add: file_byte_step [OF st b2(1)] del: upt_Suc)
    have "fid' = fid\<lparr>rwoffset := int (p + count), hint_last_off := hint_last_off fid', hint_last_clu := hint_last_clu fid'\<rparr>"
      by (subst t(6)) (use len(2) Suc in \<open>simp add: set_rw_hint_def\<close>)
    then show ?thesis using run t(1-5) vol_step_trans [OF st t(2)] b2 unfolding out by metis
  qed
qed


lemma u64_of_nat: "n < 2 ^ 63 \<Longrightarrow> unat (of_int (int n) :: u64) = n"
  by (simp add: unat_of_nat take_bit_eq_mod)

lemma ffsReadFile_run:
  fixes count :: u64
  assumes "file_ok xs fid s" "fid_type fid = TYPE_FILE" "rwoffset fid < 2 ^ 63"
  defines "p \<equiv> min (nat (rwoffset fid)) (unat (fid_size fid))"
  defines "k \<equiv> min (unat count) (unat (fid_size fid) - p)"
  shows "\<exists>t fid'. run_state (ffsReadFile fid count) s =
      ((if k = 0 then FFS_EOF else FFS_SUCCESS, map (file_byte s xs) [p..<p + k], fid'), t) \<and>
    vol_step s t \<and> fat_val t = fat_val s \<and> bufs t = bufs s \<and> file_ok xs fid' t \<and>
    fid' = fid\<lparr>rwoffset := int (p + k), hint_last_off := hint_last_off fid', hint_last_clu := hint_last_clu fid'\<rparr>"
proof -
  obtain n where n: "rwoffset fid = int n" "n < 2 ^ 63" using assms(1,3) by (metis file_ok_def nonneg_int_cases of_nat_less_iff of_nat_numeral of_nat_power)
  have sz: "unat (fid_size fid) < 2 ^ 63" "unat (fid_size fid) \<le> byte_room s xs" using assms(1) by (simp_all add: file_ok_def)
  let ?fid = "fid\<lparr>rwoffset := int p\<rparr>"
  have cut: "(if (of_int (rwoffset fid) :: u64) > fid_size fid then fid\<lparr>rwoffset := sint (fid_size fid)\<rparr> else fid) = ?fid"
  proof -
    have "((of_int (rwoffset fid) :: u64) > fid_size fid) = (n > unat (fid_size fid))"
      unfolding n(1) by (simp only: word_less_nat_alt u64_of_nat [OF n(2)])
    moreover have "sint (fid_size fid) = int (unat (fid_size fid))" using sint_of_nat_u64 [OF sz(1)] by simp
    ultimately show ?thesis using n(1) by (simp add: p_def)
  qed
  have pl: "p \<le> unat (fid_size fid)" "p < 2 ^ 63" using sz(1) by (simp_all add: p_def)
  have kw: "unat (min count (fid_size fid - of_int (int p))) = k"
  proof -
    have "unat (fid_size fid - of_int (int p)) = unat (fid_size fid) - p"
      using unat_sub [of "of_int (int p)" "fid_size fid"] u64_of_nat [OF pl(2)] pl(1) by (simp add: word_le_nat_alt)
    then show ?thesis by (auto simp: k_def min_def word_le_nat_alt)
  qed
  have ok: "file_ok xs ?fid s" using assms(1) by (simp add: file_ok_def hint_ok_def file_chain_def)
  have run: "run_state (ffsReadFile fid count) s = run_state (if k = 0 then ret (FFS_EOF, [], ?fid)
      else do { (stop, fid, bs) \<leftarrow> read_loop k ?fid k [] None;
                if stop then ret (FFS_MEDIAERR, bs, fid) else do { r \<leftarrow> media FFS_SUCCESS; ret (r, bs, fid) } }) s"
    unfolding ffsReadFile_def Let_def cut using assms(2) kw by (simp add: unat_eq_0 flip: kw)
  show ?thesis
  proof (cases "k = 0")
    case True
    have "vol_step s s" using assms(1) by (simp add: file_ok_def vol_step_refl)
    then show ?thesis using run True ok by auto
  next
    case False
    have pk: "p + k \<le> byte_room s xs" and rp: "rwoffset ?fid = int p" using pl(1) sz(2) by (simp_all add: k_def)
    obtain t fid' where t: "run_state (read_loop k ?fid k [] None) s = ((False, fid', [] @ map (file_byte s xs) [p..<p + k]), t)"
      "vol_step s t" "fat_val t = fat_val s" "bufs t = bufs s" "file_ok xs fid' t"
      "fid' = ?fid\<lparr>rwoffset := int (p + k), hint_last_off := hint_last_off fid', hint_last_clu := hint_last_clu fid'\<rparr>"
      using read_loop_run [OF ok rp pk le_refl, of "[]" None] by (elim exE conjE) (rule that)
    have "fid' = fid\<lparr>rwoffset := int (p + k), hint_last_off := hint_last_off fid', hint_last_clu := hint_last_clu fid'\<rparr>"
      by (subst t(6)) simp
    moreover have "\<not> dev_ejected t" using vol_step_ok [OF t(2)] by (simp add: vol_ok_def clusters_ok_def fat_ok_def device_ok_def)
    ultimately show ?thesis using run False t by (auto simp: media_def simp del: upt_Suc)
  qed
qed

section \<open>Overwriting bytes\<close>

lemma walk_to_end_run:
  assumes "clusters_ok s" "chain (fat_val s) c xs" "k < length xs" "\<forall>x\<in>set xs. is_cluster s x"
  shows "\<exists>l t. run_state (walk_to_end k l0 c) s = (Some (l, xs ! k), t) \<and> fat_step (bufs s) s t"
  using assms
proof (induction k arbitrary: c xs s l0)
  case 0
  then have "c = xs ! 0" by (cases xs) auto
  moreover have "fat_step (bufs s) s s" using 0(1) by (simp add: clusters_ok_def fat_step_refl)
  ultimately show ?case by simp
next
  case (Suc k)
  from Suc.prems(3) obtain x xs' where xs: "xs = x # xs'" by (cases xs) auto
  have c: "c = x" "is_cluster s c" and tl: "chain (fat_val s) (fat_val s c) xs'" using Suc.prems xs by auto
  obtain t1 where t1: "run_state (FAT_read c) s = (Some (fat_val s c), t1)" "fat_step (bufs s) s t1"
    using clu_read_step [OF Suc.prems(1) c(2)] .
  note f1 = fat_step_bufs [OF Suc.prems(1) t1(2)]
  have "k < length xs'" "\<forall>x\<in>set xs'. is_cluster t1 x" "chain (fat_val t1) (fat_val s c) xs'" using Suc.prems xs f1 tl by simp_all
  then obtain l t where "run_state (walk_to_end k c (fat_val s c)) t1 = (Some (l, xs' ! k), t)" "fat_step (bufs t1) t1 t"
    using Suc.IH [OF f1(3)] by blast
  moreover have "c \<noteq> CLU_EOF" using is_cluster_not_EOF [OF c(2)] .
  ultimately show ?case using t1 xs fat_step_trans [OF t1(2)] fat_step_fields(1) [OF t1(2)] by auto
qed

lemma write_cluster_run:
  assumes "file_ok xs fid s" "rwoffset fid = int p" "p < byte_room s xs" "int (p div 2 ^ cluster_size_bits s) < num_clus"
  shows "\<exists>l t. run_state (write_cluster fid (int (p div 2 ^ cluster_size_bits s)) num_clus) s = (Some (l, xs ! (p div 2 ^ cluster_size_bits s)), t) \<and>
    fat_step (bufs s) s t"
proof -
  let ?k = "p div 2 ^ cluster_size_bits s"
  have c: "clusters_ok s" and xs: "xs \<noteq> []" "chain_clusters s (file_chain fid) xs" "hint_ok xs fid"
    using assms(1) by (auto simp: file_ok_def vol_ok_def)
  have k: "?k < length xs" by (rule byte_cluster [OF assms(3) xs(1)])
  show ?thesis
  proof (cases "fid_flags fid = 3")
    case True
    then have e: "xs ! i = start_clu fid + of_nat i" if "i < length xs" for i using xs that by (simp add: chain_clusters_def file_chain_def)
    have "start_clu fid = hd xs" "is_cluster s (hd xs)" using xs by (simp_all add: chain_clusters_def file_chain_def)
    then have "start_clu fid \<noteq> CLU_EOF" using is_cluster_not_EOF by simp
    moreover have "start_clu fid = xs ! 0" using e [of 0] xs(1) by simp
    moreover have "fat_step (bufs s) s s" using c by (simp add: clusters_ok_def fat_step_refl)
    moreover have "(int ?k = num_clus) = False" using assms(4) by simp
    ultimately have "\<exists>l. run_state (write_cluster fid (int ?k) num_clus) s = (Some (l, xs ! ?k), s)"
      unfolding write_cluster_def using True e [OF k] by (cases "?k = 0") (simp_all only: if_True, simp_all)
    then show ?thesis using \<open>fat_step (bufs s) s s\<close> by blast
  next
    case False
    have x: "chain (fat_val s) (start_clu fid) xs" "\<forall>x\<in>set xs. is_cluster s x"
      using xs(1,2) False by (auto simp: chain_clusters_def file_chain_def)
    obtain n clu where w: "walk_start fid (int ?k) = (n, clu)" by (cases "walk_start fid (int ?k)")
    obtain j where j: "n = int (?k - j)" "j \<le> ?k" "clu = xs ! j" "chain (fat_val s) clu (drop j xs)"
      using walk_start_run [OF x(1) xs(3) k w] .
    have d: "\<forall>x\<in>set (drop j xs). is_cluster s x" "?k - j < length (drop j xs)" using x(2) k j(2) by (auto dest: in_set_dropD)
    have "drop j xs ! (?k - j) = xs ! ?k" using j(2) k by simp
    then show ?thesis using walk_to_end_run [OF c j(4) d(2,1), of "start_clu fid"] False w j(1) by (simp add: write_cluster_def)
  qed
qed

lemma byte_entry:
  assumes "vol_ok s" "p < byte_room s xs" "xs \<noteq> []"
  shows "byte_sector s xs p = entry_sector s xs (p div 32)" "p div 32 < entry_room s xs"
proof -
  note z = vol_sizes [OF assms(1)]
  have e: "(2 :: nat) ^ sector_size_bits s = 32 * 2 ^ (sector_size_bits s - 5)"
    using z(4) power_add [of "2 :: nat" 5 "sector_size_bits s - 5"] by simp
  have "p div (32 * m) = 32 * (p div 32) div (32 * m)" for m :: nat
    by (simp add: div_mult2_eq)
  then show "byte_sector s xs p = entry_sector s xs (p div 32)"
    unfolding entry_sector_def by (intro byte_sector_same [OF _ assms(1)]) (simp only: e)
  have "(2 :: nat) ^ cluster_size_bits s = 32 * 2 ^ (cluster_size_bits s - 5)"
    using z(2,4) power_add [of "2 :: nat" 5 "cluster_size_bits s - 5"] by simp
  then obtain r where "byte_room s xs = 32 * r" using assms(3) by (auto simp: byte_room_def)
  then show "p div 32 < entry_room s xs" using assms(2) by (simp add: entry_room_def less_mult_imp_div_less mult.commute)
qed

text \<open>The bytes of a file after bytes from \<open>p\<close> on have been replaced.\<close>

definition overwrite :: "nat \<Rightarrow> u8 list \<Rightarrow> (nat \<Rightarrow> u8) \<Rightarrow> nat \<Rightarrow> u8" where
  "overwrite p data f q = (if p \<le> q \<and> q < p + length data then data ! (q - p) else f q)"

lemma overwrite_append: "overwrite (p + length a) b (overwrite p a f) = overwrite p (a @ b) f"
  by (auto simp: overwrite_def fun_eq_iff nth_append)

lemma nth_patch:
  "a + length d \<le> length b \<Longrightarrow> r < length b \<Longrightarrow>
    (take a b @ d @ drop (a + length d) b) ! r = (if a \<le> r \<and> r < a + length d then d ! (r - a) else b ! r)"
  by (auto simp: nth_append min_def)

lemma put_bytes:
  assumes v: "vol_ok s" and xs: "xs \<noteq> []" "chain_clusters s ch xs"
    and p: "p + length data \<le> byte_room s xs" "p mod 2 ^ sector_size_bits s + length data \<le> 2 ^ sector_size_bits s" "data \<noteq> []"
    and t: "bufs t = (bufs s)(byte_sector s xs p := take (p mod 2 ^ sector_size_bits s) (bufs s (byte_sector s xs p)) @ data @
        drop (p mod 2 ^ sector_size_bits s + length data) (bufs s (byte_sector s xs p)))" "vol_step s t"
    and q: "q < byte_room s xs"
  shows "file_byte t xs q = overwrite p data (file_byte s xs) q"
proof -
  let ?m = "2 ^ sector_size_bits s :: nat" and ?x = "byte_sector s xs p"
  have l: "length (bufs s x) = ?m" for x using vol_sizes(1) [OF v] by (simp add: geometry_ok_def)
  have pr: "p < byte_room s xs" using p(1,3) by (cases data) auto
  have f: "file_byte t xs q = bufs t (byte_sector s xs q) ! (q mod ?m)" using vol_step_dir(1) [OF t(2)] vol_step_fields [OF t(2)] by (simp add: file_byte_def)
  show ?thesis
  proof (cases "q div ?m = p div ?m")
    case False
    then have "byte_sector s xs q \<noteq> ?x" using byte_sector_inj [OF v xs(2) q pr] by blast
    moreover have "\<not> (p \<le> q \<and> q < p + length data)"
    proof
      assume a: "p \<le> q \<and> q < p + length data"
      then have "q - p < length data" by linarith
      then have "p mod ?m + (q - p) < ?m" using p(2) by linarith
      moreover have "q = ?m * (p div ?m) + (p mod ?m + (q - p))" using a by simp
      ultimately show False using small_div_mod [of "p mod ?m + (q - p)" ?m "p div ?m"] False by metis
    qed
    ultimately show ?thesis unfolding f t(1) overwrite_def by (auto simp: file_byte_def [of s])
  next
    case True
    have same: "byte_sector s xs q = ?x" by (rule byte_sector_same [OF True v])
    have o: "q + p mod ?m = p + q mod ?m" using True div_mult_mod_eq [of q ?m] div_mult_mod_eq [of p ?m] by simp
    then have c: "(p \<le> q) = (p mod ?m \<le> q mod ?m)" "(q < p + length data) = (q mod ?m < p mod ?m + length data)" "p \<le> q \<Longrightarrow> q - p = q mod ?m - p mod ?m" by linarith+
    have "q mod ?m < length (bufs s ?x)" "p mod ?m + length data \<le> length (bufs s ?x)" using l p(2) by simp_all
    note patch = nth_patch [OF this(2,1)]
    show ?thesis unfolding f t(1) overwrite_def same file_byte_def [of s] fun_upd_same patch using c by simp
  qed
qed

lemma write_sector_part_run:
  fixes data :: "u8 list"
  assumes "file_ok xs fid s" "rwoffset fid = int p" "p < byte_room s xs"
  defines "len \<equiv> min (2 ^ sector_size_bits s - p mod 2 ^ sector_size_bits s) (length data)"
  shows "\<exists>t. run_state (write_sector_part fid (xs ! (p div 2 ^ cluster_size_bits s)) data bh) s = (Some (len, byte_sector s xs p), t) \<and>
    dir_step xs s t \<and> dirty t (byte_sector s xs p) \<and> bufs t = (bufs s)(byte_sector s xs p := take (p mod 2 ^ sector_size_bits s) (bufs s (byte_sector s xs p)) @
        take len data @ drop (p mod 2 ^ sector_size_bits s + len) (bufs s (byte_sector s xs p)))"
proof -
  let ?m = "2 ^ sector_size_bits s :: nat" and ?x = "byte_sector s xs p"
  have v: "vol_ok s" and xs: "xs \<noteq> []" "chain_clusters s (file_chain fid) xs" using assms(1) by (simp_all add: file_ok_def)
  note z = vol_sizes [OF v]
  have ds: "data_sector s ?x" by (rule byte_sector_data [OF v xs(2) assms(3)])
  have dev: "device_ok s" using v by (simp add: vol_ok_def clusters_ok_def fat_ok_def)
  define s1 where "s1 = s\<lparr>env_pos := env_pos s + 1\<rparr>"
  define new where "new = take (p mod ?m) (bufs s ?x) @ take len data @ drop (p mod ?m + len) (bufs s ?x)"
  define t where "t = s1\<lparr>dirty := (dirty s1)(?x := True), bufs := (bufs s1)(?x := new)\<rparr>"
  note e = vol_step_env [OF v, of "env_pos s + 1", folded s1_def]
  have "length (bufs s ?x) = ?m" using z(1) by (simp add: geometry_ok_def)
  moreover have "p mod ?m + len \<le> ?m"
  proof -
    have "len \<le> ?m - p mod ?m" by (simp add: len_def)
    moreover have "p mod ?m < ?m" by (rule mod_less_divisor) simp
    ultimately show ?thesis by linarith
  qed
  moreover have "len \<le> length data" by (simp add: len_def)
  ultimately have l: "length new = length (bufs s1 ?x)" by (simp add: new_def s1_def)
  have ds1: "data_sector s1 ?x" using ds by (simp add: vol_step_fields [OF e(1)])
  note put = vol_step_put [OF vol_step_ok [OF e(1)] ds1 l, folded t_def]
  have st: "vol_step s t" by (rule vol_step_trans [OF e(1) put(1)])
  have rd: "run_state (sector_read ?x bh b) s = ((FFS_SUCCESS, Some ?x), s1)" for b
    unfolding s1_def by (rule run_sector_read [OF dev data_sector_range [OF v ds]])
  have sec: "rw_sector fid (xs ! (p div 2 ^ cluster_size_bits s)) s = (?x, p mod ?m)" by (rule rw_sector_eq [OF v xs(1) assms(2)])
  have "\<not> out_of_range ?x s1" by (rule data_sector_range [OF vol_step_ok [OF e(1)] ds1])
  then have ran: "out_of_range ?x (s1\<lparr>bufs := b\<rparr>) = False" for b by (simp add: out_of_range_def)
  have wr: "run_state (do { _ \<leftarrow> set_buf ?x (\<lambda>q. take (p mod ?m) q @ take len data @ drop (p mod ?m + len) q);
      sector_write ?x (Some ?x) False }) s1 = (FFS_SUCCESS, t)"
    using dev by (simp add: set_buf_def sector_write_def bdev_write_def mark_buffer_dirty_def ran device_ok_def) (simp add: s1_def t_def new_def)
  have "run_state (write_sector_part fid (xs ! (p div 2 ^ cluster_size_bits s)) data bh) s = (Some (len, ?x), t)"
    unfolding write_sector_part_def
    by (simp only: run_state_bind run_gets prod.case id_apply Let_def sec z(6) len_def [symmetric] rd simp_thms if_False option.case)
      (use wr in \<open>simp add: case_prod_unfold prod_eq_iff\<close>)
  moreover have "dir_step xs s t"
    unfolding dir_step_def
  proof (intro conjI allI impI)
    fix c assume "is_cluster s c"
    then have "is_cluster s1 c" by (simp add: vol_step_fields [OF e(1)])
    then show "fat_val t c = fat_val s c" using put(2) e(2) by simp
  next
    fix y assume "\<forall>i<entry_room s xs. y \<noteq> entry_sector s xs i"
    then have "y \<noteq> ?x" using byte_entry [OF v assms(3) xs(1)] by metis
    then show "bufs t y = bufs s y" by (simp add: t_def s1_def)
  qed (rule st)
  moreover have "dirty t ?x" "bufs t = (bufs s)(?x := new)" by (simp_all add: t_def s1_def)
  ultimately show ?thesis by (auto simp: new_def)
qed

lemma fat_step_dir:
  assumes "vol_ok s" "fat_step (bufs s) s t"
  shows "dir_step xs s t" "bufs t = bufs s"
  using fat_step_vol [OF assms] by (simp_all add: dir_step_def)

lemma overwrite_cong: "f q = g q \<Longrightarrow> overwrite p d f q = overwrite p d g q"
  by (simp add: overwrite_def)

text \<open>The state of the loop after \<open>k\<close> bytes, for an overwriting write.\<close>

definition written :: "nat \<Rightarrow> nat \<Rightarrow> write_state \<Rightarrow> write_state \<Rightarrow> bool" where
  "written p k ws ws' \<longleftrightarrow> ws' = ws\<lparr>ws_fid := (ws_fid ws)\<lparr>rwoffset := int (p + k), fid_attr := fid_attr (ws_fid ws'),
     hint_last_off := hint_last_off (ws_fid ws'), hint_last_clu := hint_last_clu (ws_fid ws')\<rparr>, ws_written := ws_written ws + k\<rparr>"

lemma written_trans:
  assumes "written p a ws ws1" "written (p + a) b ws1 ws2"
  shows "written p (a + b) ws ws2"
proof -
  obtain w :: FILE_ID_T where w: "ws1 = ws\<lparr>ws_fid := (ws_fid ws)\<lparr>rwoffset := int (p + a), fid_attr := fid_attr w, hint_last_off := hint_last_off w,
      hint_last_clu := hint_last_clu w\<rparr>, ws_written := ws_written ws + a\<rparr>" using that [of "ws_fid ws1"] assms(1) unfolding written_def by simp
  obtain v :: FILE_ID_T where v: "ws2 = ws1\<lparr>ws_fid := (ws_fid ws1)\<lparr>rwoffset := int (p + a + b), fid_attr := fid_attr v, hint_last_off := hint_last_off v,
      hint_last_clu := hint_last_clu v\<rparr>, ws_written := ws_written ws1 + b\<rparr>" using that [of "ws_fid ws2"] assms(2) unfolding written_def by simp
  show ?thesis unfolding written_def v w by (simp add: add.assoc)
qed

lemma write_file_loop_run:
  assumes "file_ok xs (ws_fid ws) s" "rwoffset (ws_fid ws) = int p" "p + length data \<le> unat (fid_size (ws_fid ws))" "length data \<le> n"
    "int ((unat (fid_size (ws_fid ws)) - 1) div 2 ^ cluster_size_bits s) < ws_num_clus ws"
  shows "\<exists>t ws'. run_state (write_file_loop n data ws bh) s = ((Done, ws'), t) \<and> dir_step xs s t \<and> file_ok xs (ws_fid ws') t \<and>
    written p (length data) ws ws' \<and> (\<forall>q<byte_room s xs. file_byte t xs q = overwrite p data (file_byte s xs) q)"
  using assms
proof (induction n arbitrary: data ws p bh s)
  case 0
  then have "vol_ok s" by (simp add: file_ok_def)
  then show ?case using 0 dir_step_refl by (auto simp: written_def overwrite_def intro!: exI [of _ s])
next
  case (Suc n)
  have v: "vol_ok s" and xs: "xs \<noteq> []" "chain_clusters s (file_chain (ws_fid ws)) xs" and sz: "unat (fid_size (ws_fid ws)) \<le> byte_room s xs"
    "unat (fid_size (ws_fid ws)) < 2 ^ 63" and lx: "length xs < 2 ^ 31" using Suc.prems(1) by (simp_all add: file_ok_def)
  note z = vol_sizes [OF v]
  show ?case
  proof (cases "data = []")
    case True
    then show ?thesis using Suc.prems dir_step_refl [OF v] by (auto simp: written_def overwrite_def intro!: exI [of _ s])
  next
    case False
    let ?m = "2 ^ sector_size_bits s :: nat" and ?k = "p div 2 ^ cluster_size_bits s" and ?fid = "ws_fid ws"
    let ?clu = "xs ! ?k" and ?x = "byte_sector s xs p"
    define len where "len = min (?m - p mod ?m) (length data)"
    have pm: "p mod ?m < ?m" by (rule mod_less_divisor) simp
    have "len \<le> ?m - p mod ?m" "len \<le> length data" "0 < length data" using False by (simp_all add: len_def)
    then have len: "0 < len" "len \<le> length data" "p mod ?m + len \<le> ?m" using pm unfolding len_def by linarith+
    have p: "p < byte_room s xs" "p \<le> unat (fid_size ?fid) - 1" using Suc.prems(3) sz(1) False by (cases data; simp)+
    have k: "?k < length xs" by (rule byte_cluster [OF p(1) xs(1)])
    have rw: "rw_cluster ?fid s = int ?k" by (rule rw_cluster_eq [OF Suc.prems(2)]) (use k lx in simp)
    have "?k \<le> (unat (fid_size ?fid) - 1) div 2 ^ cluster_size_bits s" by (rule div_le_mono [OF p(2)])
    then have "int ?k < ws_num_clus ws" using Suc.prems(5) by linarith
    then obtain l s1 where s1: "run_state (write_cluster ?fid (int ?k) (ws_num_clus ws)) s = (Some (l, ?clu), s1)" "fat_step (bufs s) s s1"
      using write_cluster_run [OF Suc.prems(1,2) p(1)] by blast
    note f1 = fat_step_vol [OF v s1(2)] and d1 = fat_step_dir(1) [OF v s1(2), of xs]
    note r1 = vol_step_fields [OF f1(1)] vol_step_dir [OF f1(1)]
    have "is_cluster s ?clu" using xs k by (simp add: chain_clusters_def)
    then have eof: "(?clu = CLU_EOF) = False" using is_cluster_not_EOF by blast
    let ?fid1 = "set_rw_hint ?clu s ?fid"
    have h: "set_rw_hint ?clu s1 ?fid = ?fid1" by (simp add: set_rw_hint_def rw_cluster_def r1)
    have same: "?fid1\<lparr>rwoffset := int p\<rparr> = ?fid1" using Suc.prems(2) by (cases "ws_fid ws") (simp add: set_rw_hint_def)
    have "file_ok xs (?fid1\<lparr>rwoffset := int p\<rparr>) s1" by (rule file_ok_move [OF Suc.prems(1,2) p(1) _ f1(1)]) (simp_all add: f1(2))
    then have ok1: "file_ok xs ?fid1 s1" unfolding same .
    have rw1: "rwoffset ?fid1 = int p" "p < byte_room s1 xs" using Suc.prems(2) p(1) by (simp_all add: set_rw_hint_def r1)
    obtain s2 where s2: "run_state (write_sector_part ?fid1 ?clu data bh) s1 = (Some (len, ?x), s2)" "dir_step xs s1 s2"
      "bufs s2 = (bufs s)(?x := take (p mod ?m) (bufs s ?x) @ take len data @ drop (p mod ?m + len) (bufs s ?x))"
      using write_sector_part_run [OF ok1 rw1, of data bh] by (simp add: r1 f1(3) len_def [symmetric]) blast
    have d2: "dir_step xs s s2" by (rule dir_step_trans [OF d1 s2(2)])
    have st2: "vol_step s s2" using d2 by (simp add: dir_step_def)
    let ?ws1 = "advance len (ws\<lparr>ws_alloced := ws_alloced ws, ws_fid := ?fid1, ws_modified := ws_modified ws, ws_num_clus := ws_num_clus ws\<rparr>)"
    have small: "p + len < 2 ^ 63" "p + len \<le> unat (fid_size ?fid)" using Suc.prems(3) len(2) sz(2) by linarith+
    have "(fid_size ?fid < of_int (int p + int len)) = False"
      using u64_of_nat [OF small(1)] small(2) by (simp add: word_less_nat_alt)
    then have ws1: "?ws1 = ws\<lparr>ws_fid := ?fid1\<lparr>rwoffset := int (p + len), fid_attr := fid_attr ?fid OR ATTR_ARCHIVE\<rparr>, ws_written := ws_written ws + len\<rparr>"
      using Suc.prems(2) by (simp add: advance_def Let_def set_rw_hint_def)
    have w1: "written p len ws ?ws1" unfolding ws1 by (simp add: written_def set_rw_hint_def)
    have run: "run_state (write_file_loop (Suc n) data ws bh) s = run_state (write_file_loop n (drop len data) ?ws1 (Some ?x)) s2"
      using False s1(1) s2(1) by (simp add: rw Let_def h eof)
    have vals: "\<forall>c. is_cluster s c \<longrightarrow> fat_val s2 c = fat_val s c" using d2 by (simp add: dir_step_def)
    have fid2: "ws_fid ?ws1 = ?fid1\<lparr>rwoffset := int (p + len)\<rparr>\<lparr>fid_attr := fid_attr ?fid OR ATTR_ARCHIVE\<rparr>" unfolding ws1 by simp
    have "file_ok xs (?fid1\<lparr>rwoffset := int (p + len)\<rparr>) s2" by (rule file_ok_move [OF Suc.prems(1,2) p(1) _ st2 vals]) simp
    then have ok2: "file_ok xs (ws_fid ?ws1) s2" unfolding fid2 by (simp add: file_ok_def hint_ok_def file_chain_def)
    have b: "rwoffset (ws_fid ?ws1) = int (p + len)" "p + len + length (drop len data) \<le> unat (fid_size (ws_fid ?ws1))"
      "length (drop len data) \<le> n" "int ((unat (fid_size (ws_fid ?ws1)) - 1) div 2 ^ cluster_size_bits s2) < ws_num_clus ?ws1"
      unfolding ws1 using Suc.prems(3-5) len by (simp_all add: set_rw_hint_def vol_step_fields [OF st2])
    obtain t ws' where t: "run_state (write_file_loop n (drop len data) ?ws1 (Some ?x)) s2 = ((Done, ws'), t)" "dir_step xs s2 t"
      "file_ok xs (ws_fid ws') t" "written (p + len) (length (drop len data)) ?ws1 ws'"
      "\<forall>q<byte_room s2 xs. file_byte t xs q = overwrite (p + len) (drop len data) (file_byte s2 xs) q"
      using Suc.IH [OF ok2 b, of "Some ?x"] by (elim exE conjE) (rule that)
    have tl: "length (take len data) = len" "take len data \<noteq> []" using len False by auto
    have "file_byte t xs q = overwrite p data (file_byte s xs) q" if q: "q < byte_room s xs" for q
    proof -
      have "file_byte s2 xs q = overwrite p (take len data) (file_byte s xs) q"
        by (rule put_bytes [OF v xs _ _ tl(2) _ st2 q]) (use Suc.prems(3) sz(1) len tl(1) s2(3) in simp_all)
      then have "overwrite (p + len) (drop len data) (file_byte s2 xs) q =
          overwrite (p + length (take len data)) (drop len data) (overwrite p (take len data) (file_byte s xs)) q"
        unfolding tl(1) by (rule overwrite_cong)
      also have "\<dots> = overwrite p data (file_byte s xs) q" unfolding overwrite_append by simp
      finally show ?thesis using t(5) q by (simp add: vol_step_dir [OF st2])
    qed
    moreover have "written p (length data) ws ws'" using written_trans [OF w1 t(4)] len(2) by simp
    ultimately show ?thesis using run t(1,3) dir_step_trans [OF d2 t(2)] by metis
  qed
qed

section \<open>A whole write\<close>

text \<open>The volume flag is no part of what the steps look at.\<close>

lemma flag_same:
  "vol_ok (s\<lparr>vol_flag := f\<rparr>) = vol_ok s" "chain_clusters (s\<lparr>vol_flag := f\<rparr>) = chain_clusters s"
  "byte_room (s\<lparr>vol_flag := f\<rparr>) = byte_room s" "byte_sector (s\<lparr>vol_flag := f\<rparr>) = byte_sector s"
  "entry_room (s\<lparr>vol_flag := f\<rparr>) = entry_room s" "file_byte (s\<lparr>vol_flag := f\<rparr>) = file_byte s"
  "file_ok xs fid (s\<lparr>vol_flag := f\<rparr>) = file_ok xs fid s" "is_dir ch xs (s\<lparr>vol_flag := f\<rparr>) = is_dir ch xs s"
proof -
  let ?s = "s\<lparr>vol_flag := f\<rparr>"
  have fb: "fat_byte ?s = fat_byte s" by (simp add: fat_byte_def fat_sector_def fun_eq_iff)
  have c: "is_cluster ?s = is_cluster s" "fat_val ?s = fat_val s" "loc_ok ?s = loc_ok s"
    by (simp_all add: is_cluster_def fat_val_def fb loc_ok_def fat_len_def fun_eq_iff)
  have "fat_ok ?s = fat_ok s" by (simp add: fat_ok_def cache_ok_def device_ok_def geometry_ok_def out_of_range_def)
  then show v: "vol_ok ?s = vol_ok s" by (simp add: vol_ok_def clusters_ok_def cache_ok_def layout_ok_def out_of_range_def c)
  show k: "chain_clusters ?s = chain_clusters s" by (simp add: chain_clusters_def c fun_eq_iff)
  show b: "byte_room ?s = byte_room s" "byte_sector ?s = byte_sector s"
    by (simp_all add: byte_room_def byte_sector_def clu_sector_def START_SECTOR_def fun_eq_iff)
  show "entry_room ?s = entry_room s" "file_byte ?s = file_byte s" by (simp_all add: entry_room_def file_byte_def b fun_eq_iff)
  show "file_ok xs fid ?s = file_ok xs fid s" "is_dir ch xs ?s = is_dir ch xs s" by (simp_all add: file_ok_def is_dir_def v k b)
qed

lemma set_flag_run: "vol_type s \<noteq> EXFAT \<Longrightarrow> run_state (fs_set_vol_flags f) s = ((), s\<lparr>vol_flag := f\<rparr>)"
  by (cases s) (simp add: fs_set_vol_flags_def)

text \<open>Sectors of different files and directories.\<close>

lemma sectors_apart:
  assumes "vol_ok s" "xs \<noteq> []" "chain_clusters s ch xs" "chain_clusters s ch' ys" "set xs \<inter> set ys = {}" "p < byte_room s xs" "q < byte_room s ys"
  shows "byte_sector s xs p \<noteq> byte_sector s ys q"
proof
  assume e: "byte_sector s xs p = byte_sector s ys q"
  let ?x = "xs ! (p div 2 ^ cluster_size_bits s)" and ?i = "\<lambda>p :: nat. p mod 2 ^ cluster_size_bits s div 2 ^ sector_size_bits s"
  have px: "p div 2 ^ cluster_size_bits s < length xs" by (rule byte_cluster [OF assms(6,2)])
  then have x: "is_cluster s ?x" "?x \<in> set xs" using assms(2,3) by (simp_all add: chain_clusters_def)
  note i = sector_in_cluster(1) [OF assms(1)]
  have bx: "byte_sector s xs p = clu_sector s ?x (?i p)" using assms(2) by (simp add: byte_sector_def)
  show False
  proof (cases "ys = []")
    case True
    let ?j = "q div 2 ^ sector_size_bits s"
    have j: "unat (root_start_sector s) + ?j < unat (data_start_sector s)" using byte_root assms(7) True by simp
    then have "unat (of_nat (unat (root_start_sector s) + ?j) :: u32) = unat (root_start_sector s) + ?j"
      by (intro unat_of_nat_u32) (use unat_u32 [of "data_start_sector s"] in linarith)
    then have "unat (byte_sector s ys q) = unat (root_start_sector s) + ?j" using True by (simp add: byte_sector_def add.commute)
    then show False using e bx clu_sector_unat [OF assms(1) x(1) i, of p] j by simp
  next
    case False
    have q: "q div 2 ^ cluster_size_bits s < length ys" by (rule byte_cluster [OF assms(7) False])
    let ?y = "ys ! (q div 2 ^ cluster_size_bits s)"
    have y: "is_cluster s ?y" "?y \<in> set ys" using assms(4) False q by (simp_all add: chain_clusters_def)
    have "byte_sector s ys q = clu_sector s ?y (?i q)" using False by (simp add: byte_sector_def)
    then have "?x = ?y" using clu_sector_inj [OF assms(1) x(1) y(1) i i, of p q] e bx by simp
    then show False using x(2) y(2) assms(5) by auto
  qed
qed

lemma dir_step_bytes:
  assumes "dir_step ys s t" "vol_ok s" "xs \<noteq> []" "chain_clusters s ch xs" "chain_clusters s ch' ys" "set xs \<inter> set ys = {}" "q < byte_room s xs"
  shows "file_byte t xs q = file_byte s xs q"
proof -
  have st: "vol_step s t" using assms(1) by (simp add: dir_step_def)
  have "byte_sector s xs q \<noteq> entry_sector s ys i" if "i < entry_room s ys" for i
    using sectors_apart [OF assms(2-6,7) entry_byte [OF that]] by (simp add: entry_sector_def)
  then have "bufs t (byte_sector s xs q) = bufs s (byte_sector s xs q)" using assms(1) by (simp add: dir_step_def)
  then show ?thesis using vol_step_dir(1) [OF st] vol_step_fields [OF st] by (simp add: file_byte_def)
qed

lemma file_ok_dir_step: "file_ok xs fid s \<Longrightarrow> dir_step ys s t \<Longrightarrow> file_ok xs fid t"
  using chain_clusters_step [of ys s t "file_chain fid" xs] vol_step_ok [of s t] vol_step_dir(2) [of s t]
  by (simp add: file_ok_def dir_step_def)

lemma length_entry_ops:
  "length (set_entry_attr (ops k) e a) = length e" "length (set_entry_time (ops k) e tp m) = length e"
  by (cases k; simp add: fat.len_attr fat.len_time exfat.len_attr exfat.len_time)+

text \<open>The entry of the file in a FAT directory.\<close>

lemma write_entry_run:
  assumes "vol_type s \<noteq> EXFAT" "is_dir (fid_dir fid) ys s" "fid_entry fid = int e" "e < entry_room s ys"
  shows "\<exists>t. run_state (write_entry ev fid False) s = (True, t) \<and> dir_step ys s t"
proof -
  let ?f = "\<lambda>e. set_entry_attr (ops (fs_func s)) (set_entry_time (ops (fs_func s)) e (now ev) TM_MODIFY) (fid_attr fid)"
  have "length (?f (entry_at s ys e)) = 32" using ea.len [OF assms(2)] by (simp add: length_entry_ops)
  then obtain t where t: "run_state (edit_entry (fid_dir fid) (int e) ?f) s = (True, t)" "dir_step ys s t"
    using ea.change_spec [where f = ?f, OF assms(2,4)] by blast
  obtain s1 y where s1: "run_state (get_entry_in_dir (fid_dir fid) (int e)) s = (Some ((entry_sector s ys e, entry_off s e), entry_sector s ys e), s1)"
    "vol_step s s1" using get_entry_in_dir_run [of s "fid_dir fid" ys e] assms(2,4) unfolding is_dir_def by metis
  have "run_state (write_entry ev fid False) s = (True, t)"
    using t(1) s1 assms(1,3) by (simp add: write_entry_def open_entry_def edit_entry_def Let_def split: prod.splits)
  then show ?thesis using t(2) by blast
qed

lemma clusters_of_eq:
  assumes "file_ok xs fid s" "0 < unat (fid_size fid)"
  shows "clusters_of (fid_size fid) s = int ((unat (fid_size fid) - 1) div 2 ^ cluster_size_bits s) + 1"
proof -
  let ?k = "(unat (fid_size fid) - 1) div 2 ^ cluster_size_bits s"
  have "unat (fid_size fid) - 1 < length xs * 2 ^ cluster_size_bits s" "length xs < 2 ^ 31"
    using assms by (auto simp: file_ok_def byte_room_file)
  then have k: "?k < 2 ^ 31" using less_mult_imp_div_less [of "unat (fid_size fid) - 1"] by fastforce
  have "1 \<le> fid_size fid" using assms(2) by (simp add: word_le_nat_alt)
  then have "unat (fid_size fid - 1) = unat (fid_size fid) - 1" by (simp add: unat_sub)
  then have u: "unat (drop_bit (cluster_size_bits s) (fid_size fid - 1)) = ?k" unfolding unat_drop_bit_eq by (simp add: drop_bit_eq_div)
  have "drop_bit (cluster_size_bits s) (fid_size fid - 1) = of_nat ?k" unfolding u [symmetric] by simp
  moreover have "(ucast (of_nat ?k :: u64) :: u32) = of_nat ?k"
    using k by (simp add: word_unat_eq_iff unsigned_ucast_eq unat_of_nat take_bit_eq_mod)
  ultimately show ?thesis unfolding clusters_of_def to_s32_def using sint_of_nat_u32 [OF k] by simp
qed

lemma ffsWriteFile_run:
  assumes f: "file_ok xs fid s" "fid_type fid = TYPE_FILE" "rwoffset fid = int p" "p + length data \<le> unat (fid_size fid)" "data \<noteq> []"
    and d: "vol_type s \<noteq> EXFAT" "is_dir (fid_dir fid) ys s" "fid_entry fid = int e" "e < entry_room s ys" "set xs \<inter> set ys = {}"
  shows "\<exists>t fid'. run_state (ffsWriteFile ev fid data) s = ((FFS_SUCCESS, length data, fid'), t) \<and> file_ok xs fid' t \<and>
    rwoffset fid' = int (p + length data) \<and> fid_size fid' = fid_size fid \<and> fid_type fid' = TYPE_FILE \<and> byte_room t xs = byte_room s xs \<and>
    (\<forall>q<byte_room s xs. file_byte t xs q = overwrite p data (file_byte s xs) q)"
proof -
  let ?s = "s\<lparr>vol_flag := VOL_DIRTY\<rparr>"
  let ?ws = "\<lparr>ws_fid = fid, ws_modified = False, ws_num_clus = (if fid_size fid = 0 then 0 else clusters_of (fid_size fid) ?s), ws_alloced = -1, ws_written = 0\<rparr>"
  have "0 < length data" using f(5) by simp
  then have sz: "0 < unat (fid_size fid)" "unat (fid_size fid) < 2 ^ 63" using f(1,4) by (linarith, simp add: file_ok_def)
  then have nz: "fid_size fid \<noteq> 0" by (metis unat_0 less_irrefl)
  have p63: "p < 2 ^ 63" using f(4) sz(2) by linarith
  have "((of_int (rwoffset fid) :: u64) > fid_size fid) = (p > unat (fid_size fid))"
    unfolding f(3) by (simp only: word_less_nat_alt u64_of_nat [OF p63])
  then have cut: "((of_int (rwoffset fid) :: u64) > fid_size fid) = False" using f(4) by simp
  have ok: "file_ok xs (ws_fid ?ws) ?s" using f(1) by (simp add: flag_same)
  have "clusters_of (fid_size fid) ?s = clusters_of (fid_size fid) s" by (simp add: clusters_of_def)
  then have num: "int ((unat (fid_size (ws_fid ?ws)) - 1) div 2 ^ cluster_size_bits ?s) < ws_num_clus ?ws"
    using clusters_of_eq [OF f(1) sz(1)] nz by simp
  have pre: "rwoffset (ws_fid ?ws) = int p" "p + length data \<le> unat (fid_size (ws_fid ?ws))" using f(3,4) by simp_all
  obtain t1 ws where t1: "run_state (write_file_loop (length data) data ?ws None) ?s = ((Done, ws), t1)" "dir_step xs ?s t1" "file_ok xs (ws_fid ws) t1"
    "written p (length data) ?ws ws" "\<forall>q<byte_room ?s xs. file_byte t1 xs q = overwrite p data (file_byte ?s xs) q"
    using write_file_loop_run [OF ok pre le_refl num, of None] by (elim exE conjE) (rule that)
  define w where "w = ws_fid ws"
  have w: "fid_dir w = fid_dir fid" "fid_entry w = fid_entry fid" "rwoffset w = int (p + length data)" "fid_size w = fid_size fid"
    "fid_type w = TYPE_FILE" "ws_modified ws = False" "ws_alloced ws = -1" "ws_written ws = length data"
    by (rule written_def [THEN iffD1, OF t1(4), THEN ssubst], simp add: w_def f(2))+
  note k = dir_step_is_dir [OF t1(2)]
  have st1: "vol_step ?s t1" using t1(2) by (simp add: dir_step_def)
  have dir: "is_dir (fid_dir w) ys t1" "e < entry_room t1 ys"
  proof -
    have "is_dir (fid_dir fid) ys ?s" "e < entry_room ?s ys" using d(2,4) by (simp_all add: flag_same)
    then show "is_dir (fid_dir w) ys t1" "e < entry_room t1 ys"
      using chain_clusters_step [OF t1(2)] vol_step_ok [OF st1] vol_step_dir(5) [OF st1] w by (simp_all add: is_dir_def)
  qed
  have vt: "vol_type t1 \<noteq> EXFAT" "fid_entry w = int e" using d(1,3) vol_step_fields(1) [OF st1] w by simp_all
  obtain t2 where t2: "run_state (write_entry ev w False) t1 = (True, t2)" "dir_step ys t1 t2"
    using write_entry_run [OF vt(1) dir(1) vt(2) dir(2)] by blast
  have st2: "vol_step t1 t2" using t2(2) by (simp add: dir_step_def)
  have ok2: "file_ok xs w t2" using file_ok_dir_step [OF t1(3) t2(2)] by (simp add: w_def)
  let ?t = "t2\<lparr>vol_flag := VOL_CLEAN\<rparr>"
  have vt2: "vol_type t2 \<noteq> EXFAT" using vt(1) vol_step_fields(1) [OF st2] by simp
  have "\<not> dev_ejected ?t" using vol_step_ok [OF st2] by (simp add: vol_ok_def clusters_ok_def fat_ok_def device_ok_def)
  then have run: "run_state (ffsWriteFile ev fid data) s = ((FFS_SUCCESS, length data, w), ?t)"
    unfolding ffsWriteFile_def Let_def cut
    using f(2,5) nz t1(1) t2(1) w set_flag_run [OF d(1)] set_flag_run [OF vt2]
    by (simp add: sync_clean_def fs_sync_def media_def w_def [symmetric])
  have "byte_room t1 xs = byte_room s xs" using vol_step_dir(2) [OF st1] by (simp add: flag_same)
  then have room: "byte_room t2 xs = byte_room s xs" using vol_step_dir(2) [OF st2] by simp
  have "file_byte ?t xs q = overwrite p data (file_byte s xs) q" if q: "q < byte_room s xs" for q
  proof -
    have c: "vol_ok t1" "xs \<noteq> []" "chain_clusters t1 (file_chain (ws_fid ws)) xs" using t1(3) by (simp_all add: file_ok_def)
    have "file_byte t2 xs q = file_byte t1 xs q"
      by (rule dir_step_bytes [OF t2(2) c, of "fid_dir w"]) (use dir(1) d(5) q \<open>byte_room t1 xs = byte_room s xs\<close> in \<open>simp_all add: is_dir_def\<close>)
    then show ?thesis using t1(5) q by (simp add: flag_same)
  qed
  then show ?thesis using run ok2 w(3-5) room by (intro exI [of _ ?t] exI [of _ w]) (simp add: flag_same)
qed

section \<open>The properties\<close>

text \<open>
  C8: \<^verbatim>\<open>ffsReadFile\<close> returns the bytes of the file from its position on, as many as are asked for but not more than the
  file has, wherever its clusters lie and whether they are chained in the table or consecutive; a position behind the
  end is moved to the end, \<^verbatim>\<open>FFS_EOF\<close> is returned when there is nothing to read, the position moves by the number of bytes
  read, the hint of the last position stays right, and no buffer changes.
\<close>

theorem ffsReadFile_correct:
  fixes count :: u64
  assumes "file_ok xs fid s" "fid_type fid = TYPE_FILE" "rwoffset fid < 2 ^ 63"
  defines "p \<equiv> min (nat (rwoffset fid)) (unat (fid_size fid))"
  defines "k \<equiv> min (unat count) (unat (fid_size fid) - p)"
  shows "\<exists>t fid'. run_state (ffsReadFile fid count) s =
      ((if k = 0 then FFS_EOF else FFS_SUCCESS, map (file_byte s xs) [p..<p + k], fid'), t) \<and>
    rwoffset fid' = int (p + k) \<and> file_ok xs fid' t \<and> bufs t = bufs s \<and> fat_val t = fat_val s \<and> vol_step s t"
proof -
  obtain t fid' where t: "run_state (ffsReadFile fid count) s = ((if k = 0 then FFS_EOF else FFS_SUCCESS, map (file_byte s xs) [p..<p + k], fid'), t)"
    "vol_step s t" "fat_val t = fat_val s" "bufs t = bufs s" "file_ok xs fid' t"
    "fid' = fid\<lparr>rwoffset := int (p + k), hint_last_off := hint_last_off fid', hint_last_clu := hint_last_clu fid'\<rparr>"
    using ffsReadFile_run [OF assms(1-3), of count, folded p_def, folded k_def] by (elim exE conjE) (rule that)
  have "rwoffset fid' = int (p + k)" by (subst t(6)) simp
  with t(1-5) show ?thesis by blast
qed

text \<open>
  C9: the loop of \<^verbatim>\<open>ffsWriteFile\<close> over a part of a file that exists, on every kind of volume: it ends regularly, replaces
  exactly the bytes from the position on by the data, and changes no other byte of the file, no FAT value and no sector
  outside of the file.
\<close>

theorem write_file_loop_overwrites:
  assumes "file_ok xs (ws_fid ws) s" "rwoffset (ws_fid ws) = int p" "p + length data \<le> unat (fid_size (ws_fid ws))" "length data \<le> n"
    "int ((unat (fid_size (ws_fid ws)) - 1) div 2 ^ cluster_size_bits s) < ws_num_clus ws"
  shows "\<exists>t ws'. run_state (write_file_loop n data ws bh) s = ((Done, ws'), t) \<and> ws_written ws' = ws_written ws + length data \<and>
    (\<forall>q<byte_room s xs. file_byte t xs q = (if p \<le> q \<and> q < p + length data then data ! (q - p) else file_byte s xs q)) \<and>
    (\<forall>c. is_cluster s c \<longrightarrow> fat_val t c = fat_val s c) \<and> (\<forall>x. (\<forall>i<entry_room s xs. x \<noteq> entry_sector s xs i) \<longrightarrow> bufs t x = bufs s x)"
proof -
  obtain t ws' where t: "run_state (write_file_loop n data ws bh) s = ((Done, ws'), t)" "dir_step xs s t" "file_ok xs (ws_fid ws') t"
    "written p (length data) ws ws'" "\<forall>q<byte_room s xs. file_byte t xs q = overwrite p data (file_byte s xs) q"
    using write_file_loop_run [OF assms, of bh] by (elim exE conjE) (rule that)
  have "ws_written ws' = ws_written ws + length data" by (rule written_def [THEN iffD1, OF t(4), THEN ssubst]) simp
  then show ?thesis using t(1,2,5) by (auto simp: dir_step_def overwrite_def)
qed

text \<open>
  C1: what a program writes to a file it reads back: on a FAT volume, \<^verbatim>\<open>ffsWriteFile\<close> over a part of a file that exists
  succeeds and writes everything, the entry of the file in its directory (whose clusters are others) included, and
  \<^verbatim>\<open>ffsReadFile\<close> from the old position then returns the data.
\<close>

theorem write_then_read_file:
  assumes "file_ok xs fid s" "fid_type fid = TYPE_FILE" "rwoffset fid = int p" "p + length data \<le> unat (fid_size fid)" "data \<noteq> []"
    and "vol_type s \<noteq> EXFAT" "is_dir (fid_dir fid) ys s" "fid_entry fid = int e" "e < entry_room s ys" "set xs \<inter> set ys = {}"
  shows "\<exists>t fid' u fid''. run_state (ffsWriteFile ev fid data) s = ((FFS_SUCCESS, length data, fid'), t) \<and>
    (\<forall>q<byte_room s xs. file_byte t xs q = (if p \<le> q \<and> q < p + length data then data ! (q - p) else file_byte s xs q)) \<and>
    run_state (ffsReadFile (fid'\<lparr>rwoffset := int p\<rparr>) (of_nat (length data))) t = ((FFS_SUCCESS, data, fid''), u)"
proof -
  obtain t fid' where t: "run_state (ffsWriteFile ev fid data) s = ((FFS_SUCCESS, length data, fid'), t)" "file_ok xs fid' t"
    "fid_size fid' = fid_size fid" "fid_type fid' = TYPE_FILE" "byte_room t xs = byte_room s xs"
    "\<forall>q<byte_room s xs. file_byte t xs q = overwrite p data (file_byte s xs) q"
    using ffsWriteFile_run [OF assms, of ev] by blast
  let ?fid = "fid'\<lparr>rwoffset := int p\<rparr>"
  have sz: "unat (fid_size fid) \<le> byte_room s xs" "unat (fid_size fid) < 2 ^ 63" using assms(1) by (simp_all add: file_ok_def)
  have p: "p < 2 ^ 63" "length data < 2 ^ 63" "0 < length data" using assms(4,5) sz(2) by (linarith, linarith, simp)
  have ok: "file_ok xs ?fid t" using t(2) by (simp add: file_ok_def hint_ok_def file_chain_def)
  have n: "unat (of_nat (length data) :: u64) = length data" using u64_of_nat [OF p(2)] by simp
  have pp: "min (nat (rwoffset ?fid)) (unat (fid_size ?fid)) = p" using assms(4) t(3) by simp
  have kk: "min (unat (of_nat (length data) :: u64)) (unat (fid_size ?fid) - p) = length data" unfolding n using assms(4) t(3) by simp
  have "rwoffset ?fid < 2 ^ 63" using p(1) by (metis FILE_ID_T.select_convs(8) FILE_ID_T.surjective FILE_ID_T.update_convs(8) of_nat_less_iff of_nat_numeral of_nat_power)
  from ffsReadFile_run [OF ok _ this, of "of_nat (length data)", unfolded pp kk] obtain u fid'' where
    u: "run_state (ffsReadFile ?fid (of_nat (length data))) t = ((FFS_SUCCESS, map (file_byte t xs) [p..<p + length data], fid''), u)"
    using t(4) assms(5) by auto
  have "map (file_byte t xs) [p..<p + length data] = data"
    by (rule nth_equalityI) (use t(6) assms(4) sz(1) in \<open>simp_all add: overwrite_def\<close>)
  then show ?thesis using t(1,6) u by (auto simp: overwrite_def)
qed

section \<open>On the sample volume\<close>

text \<open>A file of 1500 bytes in the clusters 5 and 6 of a FAT16, whose entry is the first one of the root directory.\<close>

definition two_file :: FILE_ID_T where
  "two_file = \<lparr>fid_dir = \<lparr>chain_dir = 0, chain_size = 0, chain_flags = 1\<rparr>, fid_entry = 0, fid_type = TYPE_FILE, fid_attr = 0, start_clu = 5,
     fid_size = 1500, fid_flags = 1, rwoffset = 1020, hint_last_off = -1, hint_last_clu = 0\<rparr>"

lemma two_vol: "vol_ok (ready FAT16 two_chain)"
  by (rule vol_ok_ready) (simp_all add: two_chain_def fat_limit_def vol_types)

lemma two_file_ok: "file_ok [5, 6] two_file (ready FAT16 two_chain)"
  using two_vol two_chain_chain two_chain_clusters
  by (simp add: file_ok_def chain_clusters_def two_file_def file_chain_def hint_ok_def byte_room_def)

lemma two_zero: "q < 2048 \<Longrightarrow> file_byte (ready FAT16 two_chain) [5, 6] q = 0"
proof -
  let ?s = "ready FAT16 two_chain"
  assume "q < 2048"
  then have "data_sector ?s (byte_sector ?s [5, 6] q)"
    using two_file_ok by (intro byte_sector_data [of _ "file_chain two_file"]) (simp_all add: file_ok_def byte_room_def)
  then have "byte_sector ?s [5, 6] q \<noteq> 1" by (auto simp: data_sector_def word_le_nat_alt)
  then show ?thesis by (simp add: file_byte_def two_chain_def)
qed

lemma ffsReadFile_correct_witness:
  "\<exists>t fid'. run_state (ffsReadFile two_file 10) (ready FAT16 two_chain) = ((FFS_SUCCESS, replicate 10 0, fid'), t) \<and> rwoffset fid' = 1030"
proof -
  have m: "map (file_byte (ready FAT16 two_chain) [5, 6]) [1020..<1030] = replicate 10 0"
  proof -
    have "map (file_byte (ready FAT16 two_chain) [5, 6]) [1020..<1030] = map (\<lambda>_. 0) [1020..<1030]" by (intro map_cong) (auto simp: two_zero)
    then show ?thesis by (simp only: map_replicate_const length_upt) simp
  qed
  have "fid_type two_file = TYPE_FILE" "rwoffset two_file < 2 ^ 63" by (simp_all add: two_file_def)
  from ffsReadFile_correct [OF two_file_ok this, of 10] m show ?thesis by (simp add: two_file_def) blast
qed

lemma write_file_loop_overwrites_witness:
  "\<exists>t ws'. run_state (write_file_loop 3 [7, 8, 9] \<lparr>ws_fid = two_file, ws_modified = False, ws_num_clus = 2, ws_alloced = -1, ws_written = 0\<rparr> None)
     (ready FAT16 two_chain) = ((Done, ws'), t) \<and> file_byte t [5, 6] 1021 = 8 \<and> file_byte t [5, 6] 1023 = 0"
proof -
  let ?ws = "\<lparr>ws_fid = two_file, ws_modified = False, ws_num_clus = 2, ws_alloced = -1, ws_written = 0\<rparr>"
  have "rwoffset (ws_fid ?ws) = int 1020" "1020 + length [7, 8, 9 :: u8] \<le> unat (fid_size (ws_fid ?ws))" "length [7, 8, 9 :: u8] \<le> 3"
    "int ((unat (fid_size (ws_fid ?ws)) - 1) div 2 ^ cluster_size_bits (ready FAT16 two_chain)) < ws_num_clus ?ws" by (simp_all add: two_file_def)
  from write_file_loop_overwrites [OF _ this, of "[5, 6]" None] two_file_ok obtain t ws' where
    t: "run_state (write_file_loop 3 [7, 8, 9] ?ws None) (ready FAT16 two_chain) = ((Done, ws'), t)"
    "\<forall>q<byte_room (ready FAT16 two_chain) [5, 6]. file_byte t [5, 6] q = (if 1020 \<le> q \<and> q < 1020 + length [7, 8, 9 :: u8] then [7, 8, 9] ! (q - 1020)
       else file_byte (ready FAT16 two_chain) [5, 6] q)" by auto
  have "byte_room (ready FAT16 two_chain) [5, 6] = 2048" by (simp add: byte_room_def)
  then have "file_byte t [5, 6] 1021 = 8" "file_byte t [5, 6] 1023 = 0" using t(2) [rule_format, of 1021] t(2) [rule_format, of 1023] two_zero by simp_all
  then show ?thesis using t(1) by blast
qed

lemma write_then_read_file_witness:
  "\<exists>t fid' u fid''. run_state (ffsReadFile fid' (of_nat (length [7, 8, 9 :: u8]))) t = ((FFS_SUCCESS, [7, 8, 9], fid''), u)"
proof -
  have "is_dir (fid_dir two_file) [] (ready FAT16 two_chain)" "0 < entry_room (ready FAT16 two_chain) []"
    using two_vol by (simp_all add: is_dir_def two_file_def chain_clusters_def entry_room_def byte_room_def)
  then show ?thesis
    using write_then_read_file [OF two_file_ok, of 1020 "[7, 8, 9]" "[]" 0]
    by (simp add: two_file_def vol_types) blast
qed

end
