(* ===== verification/MountProps.thy ===== *)
theory MountProps
  imports Mount DirProps Sample
begin

text \<open>
  Mounting a FAT volume: what the driver reads off a boot sector, without wrap-around, and that a mounted volume is in order,
  as the theorems on tables, chains, directories and files suppose.
\<close>

section \<open>What a boot sector of a FAT volume says\<close>

text \<open>The numbers of the boot sector \<open>p\<close> of a volume with sectors of \<open>2 ^ b\<close> bytes, and those the driver derives from them.\<close>

definition bs_fat32 :: "u8 list \<Rightarrow> bool" where
  "bs_fat32 p \<longleftrightarrow> GET16 p bpb_num_fat_sectors = 0"

definition bs_fat_sectors :: "u8 list \<Rightarrow> nat" where
  "bs_fat_sectors p = (if bs_fat32 p then unat (GET32 p bpb32_num_fat32_sectors) else unat (GET16 p bpb_num_fat_sectors))"

definition bs_reserved :: "u8 list \<Rightarrow> nat" where
  "bs_reserved p = unat (GET16 p bpb_num_reserved)"

definition bs_root_start :: "u8 list \<Rightarrow> nat" where
  "bs_root_start p = bs_reserved p + (if p ! bpb_num_fats = 1 then 1 else 2) * bs_fat_sectors p"

definition bs_data_start :: "nat \<Rightarrow> u8 list \<Rightarrow> nat" where
  "bs_data_start b p = bs_root_start p +
     (if bs_fat32 p then 0 else (32 * unat (GET16 p bpb_num_root_entries) + 2 ^ b - 1) div 2 ^ b)"

definition bs_total :: "u8 list \<Rightarrow> nat" where
  "bs_total p = (if bs_fat32 p \<or> GET16 p bpb_num_sectors = 0 then unat (GET32 p bpb_num_huge_sectors)
     else unat (GET16 p bpb_num_sectors))"

definition bs_clusters :: "nat \<Rightarrow> u8 list \<Rightarrow> nat" where
  "bs_clusters b p = (bs_total p - bs_data_start b p) div unat (p ! bpb_sectors_per_clu)"

definition bs_type :: "nat \<Rightarrow> u8 list \<Rightarrow> u32" where
  "bs_type b p = (if bs_fat32 p then FAT32 else if bs_clusters b p + 2 < 4087 then FAT12 else FAT16)"

text \<open>The bytes of a table with \<open>n\<close> entries.\<close>

definition table_bytes :: "u32 \<Rightarrow> nat \<Rightarrow> nat" where
  "table_bytes t n = (if t = FAT12 then n - 1 + (n - 1) div 2 + 2 else if t = FAT16 then 2 * n else 4 * n)"

text \<open>
  A boot sector that makes sense: a power of two of sectors per cluster, a data region within the volume, at least one cluster,
  no more than the width can number, and tables with an entry for each.
\<close>

definition fat_boot_ok :: "nat \<Rightarrow> u8 list \<Rightarrow> bool" where
  "fat_boot_ok b p \<longleftrightarrow> p ! bpb_num_fats \<noteq> 0 \<and>
     (\<exists>k < 8. unat (p ! bpb_sectors_per_clu) = 2 ^ k) \<and>
     bs_data_start b p \<le> bs_total p \<and> 0 < bs_clusters b p \<and>
     bs_clusters b p + 2 \<le> unat (fat_limit (bs_type b p)) \<and>
     table_bytes (bs_type b p) (bs_clusters b p + 2) \<le> bs_fat_sectors p * 2 ^ b"

text \<open>The super block before it is mounted, on a device that works.\<close>

definition mountable :: "nat \<Rightarrow> vol \<Rightarrow> bool" where
  "mountable b s \<longleftrightarrow> 9 \<le> b \<and> b \<le> 12 \<and> fs_drv s \<noteq> -1 \<and> \<not> opened s \<and> \<not> debug_error_rw s \<and> env_ok s = (\<lambda>_. True) \<and>
     num_sectors s = 0 \<and> dev_block_size s = 2 ^ b \<and> s_blocksize s \<le> 2 ^ b \<and> (\<forall>x. length (bufs s x) = 2 ^ b)"

section \<open>Running the mount\<close>

lemma ilog2_power [simp]: "ilog2 (2 ^ k) = k"
  by (induction k) (simp_all add: ilog2.simps)

lemma unat_two_power: "b < 32 \<Longrightarrow> unat (2 ^ b :: u32) = 2 ^ b"
  using unat_of_nat_u32 [of "2 ^ b"] by (simp add: power_strict_increasing_iff [of 2 b 32, simplified])

text \<open>The state in which the boot sector is decoded.\<close>

definition opened_vol :: "nat \<Rightarrow> vol \<Rightarrow> vol" where
  "opened_vol b s = (snd (run_state buf_init s))
     \<lparr>dev_ejected := False, sector_size := 2 ^ b, sector_size_bits := b, sector_size_mask := 2 ^ b - 1,
      bd_num_sectors := ucast (drop_bit b (dev_size s)), opened := True, s_blocksize := 2 ^ b, env_pos := env_pos s + 1, PBR_sector := 0\<rparr>"

lemma mount_run:
  assumes "mountable b s" "GET16 (bufs s 0) pbr_signature = PBR_SIGNATURE"
    "\<exists>i \<in> {..<53}. drop bpb_off (bufs s 0) ! i \<noteq> 0"
    "run_state (if bs_fat32 (drop bpb_off (bufs s 0)) then fat32_mount (drop bpb_off (bufs s 0)) else fat16_mount (drop bpb_off (bufs s 0)))
       (opened_vol b s) = (0, s')" "vol_type s' \<noteq> EXFAT" "\<not> dev_ejected s'"
  shows "run_state FsMountVol s = (FFS_SUCCESS, s')"
proof -
  let ?p = "drop bpb_off (bufs s 0)"
  note m = assms(1) [unfolded mountable_def]
  have b: "b < 32" "(2 :: u32) ^ b \<noteq> 0" using m unat_two_power [of b] by auto
  have i: "run_state buf_init s = (0, s\<lparr>FAT_cache := init_cache FATC (sectors_per_clu_bits s) (FAT_cache s),
      buf_cache := init_cache BUFC (sectors_per_clu_bits s) (buf_cache s)\<rparr>)"
    by (simp add: buf_init_def FFS_SUCCESS_def)
  have "mount_by_bpb ?p = (if bs_fat32 ?p then fat32_mount ?p else fat16_mount ?p)"
    using assms(3) by (auto simp: mount_by_bpb_def bs_fat32_def)
  note d = this
  define s1 where "s1 = (snd (run_state buf_init s))\<lparr>dev_ejected := False\<rparr>"
  define s2 where "s2 = s1\<lparr>sector_size := 2 ^ b, sector_size_bits := b, sector_size_mask := 2 ^ b - 1,
      bd_num_sectors := ucast (drop_bit b (dev_size s)), opened := True\<rparr>"
  define s3 where "s3 = s2\<lparr>s_blocksize := 2 ^ b\<rparr>"
  have f1: "opened s1 = False" "dev_block_size s1 = 2 ^ b" "dev_size s1 = dev_size s" using m by (simp_all add: s1_def i)
  have o: "run_state bdev_open s1 = (0, s2)"
    by (simp add: bdev_open_def f1 s2_def unat_two_power b FFS_SUCCESS_def)
  have f2: "sector_size s2 = 2 ^ b" "s_blocksize s2 = s_blocksize s" "s_blocksize s \<le> 2 ^ b" using m by (simp_all add: s2_def s1_def i)
  have k: "s2 = s3" if "\<not> s_blocksize s < 2 ^ b"
    using that f2(2,3) by (simp add: s3_def)
  have "device_ok s3" "\<not> out_of_range 0 s3"
    using m by (simp_all add: device_ok_def out_of_range_def s3_def s2_def s1_def i)
  then have r: "run_state (sector_read 0 None True) s3 = ((0, Some 0), s3\<lparr>env_pos := env_pos s3 + 1\<rparr>)"
    by (simp add: run_sector_read FFS_SUCCESS_def)
  have e: "s3\<lparr>env_pos := Suc (env_pos s3), PBR_sector := 0\<rparr> = opened_vol b s"
    by (simp add: opened_vol_def s3_def s2_def s1_def i)
  have f4: "sector_size s3 = 2 ^ b" "s_blocksize s3 = 2 ^ b" by (simp_all add: s3_def f2)
  have f3: "bufs (opened_vol b s) = bufs s" "bufs s3 = bufs s" by (simp_all add: opened_vol_def i s3_def s2_def s1_def)
  have "\<not> sector_size s2 < s_blocksize s2" using f2 by simp
  then have "run_state ffsMountVol (snd (run_state buf_init s)) = (0, s')"
    using assms(4,5,6)
    by (cases "s_blocksize s < 2 ^ b")
       (simp_all add: ffsMountVol_def s1_def [symmetric] o k s3_def [symmetric] r e f2 f3 f4 d assms(2) FFS_SUCCESS_def)
  then show ?thesis by (simp add: FsMountVol_def i FFS_SUCCESS_def)
qed

section \<open>Decoding the boot sector\<close>

lemma unat_plus_u32: "unat (x :: u32) + unat y < 2 ^ 32 \<Longrightarrow> unat (x + y) = unat x + unat y"
  using unat_add_lem [of x y] by simp

lemma unat_ucast_u16: "unat (ucast (x :: u16) :: u32) = unat x"
  by transfer simp

text \<open>The sectors of the root directory, as the code computes them on \<open>int\<close>.\<close>

lemma root_sectors:
  fixes n :: u16
  assumes "9 \<le> b"
  shows "drop_bit b (push_bit 5 (uint n) - 1) + 1 = int ((32 * unat n + 2 ^ b - 1) div 2 ^ b)"
    and "(32 * unat n + 2 ^ b - 1) div 2 ^ b < 2 ^ 21"
proof -
  have "Suc 0 \<le> 32 * unat n + 2 ^ b" by (simp add: Suc_le_eq)
  then have "int (32 * unat n + 2 ^ b - 1) = push_bit 5 (uint n) - 1 + 2 ^ b"
    by (simp add: of_nat_diff push_bit_eq_mult)
  then have "int ((32 * unat n + 2 ^ b - 1) div 2 ^ b) = (push_bit 5 (uint n) - 1 + 2 ^ b) div 2 ^ b"
    by (simp add: zdiv_int)
  then show "drop_bit b (push_bit 5 (uint n) - 1) + 1 = int ((32 * unat n + 2 ^ b - 1) div 2 ^ b)"
    using div_add_self2 [of "2 ^ b" "push_bit 5 (uint n) - 1"] by (simp add: drop_bit_eq_div)
  have "unat n < 2 ^ 16" using unsigned_less [of n] by simp
  then have "32 * unat n + 2 ^ b - 1 < 2 ^ 21 + 2 ^ b" by simp
  also have "\<dots> \<le> 2 ^ 21 * 2 ^ b" using power_increasing [of 1 b "2 :: nat"] assms by simp
  finally show "(32 * unat n + 2 ^ b - 1) div 2 ^ b < 2 ^ 21" by (simp add: less_mult_imp_div_less)
qed

lemma cluster_count:
  fixes ns ds :: u32
  assumes "unat ds \<le> unat ns" "(unat ns - unat ds) div 2 ^ k + 2 < 2 ^ 32"
  shows "unat (drop_bit k (ns - ds) + 2) = (unat ns - unat ds) div 2 ^ k + 2"
proof -
  have "unat (ns - ds) = unat ns - unat ds" using assms(1) by (simp add: unat_sub word_le_nat_alt)
  then have "unat (drop_bit k (ns - ds)) = (unat ns - unat ds) div 2 ^ k" unfolding unat_drop_bit_eq by (simp add: drop_bit_eq_div)
  then show ?thesis using unat_plus_u32 [of "drop_bit k (ns - ds)" 2] assms(2) by simp
qed

text \<open>What decoding leaves alone.\<close>

definition same_device :: "vol \<Rightarrow> vol \<Rightarrow> bool" where
  "same_device s t \<longleftrightarrow> bufs t = bufs s \<and> dirty t = dirty s \<and> env_ok t = env_ok s \<and> opened t = opened s \<and>
     debug_error_rw t = debug_error_rw s \<and> dev_ejected t = dev_ejected s \<and> sector_size t = sector_size s \<and>
     sector_size_bits t = sector_size_bits s \<and> sector_size_mask t = sector_size_mask s \<and> PBR_sector t = PBR_sector s \<and>
     FAT_cache t = FAT_cache s \<and> buf_cache t = buf_cache s \<and> fs_drv t = fs_drv s"

text \<open>The geometry of a volume is the one that its boot sector gives.\<close>

definition geometry_of :: "nat \<Rightarrow> u8 list \<Rightarrow> vol \<Rightarrow> bool" where
  "geometry_of b p s \<longleftrightarrow> vol_type s = bs_type b p \<and>
     unat (p ! bpb_sectors_per_clu) = 2 ^ sectors_per_clu_bits s \<and> sectors_per_clu s = 2 ^ sectors_per_clu_bits s \<and>
     cluster_size_bits s = b + sectors_per_clu_bits s \<and> cluster_size s = 2 ^ cluster_size_bits s \<and>
     unat (FAT1_start_sector s) = bs_reserved p \<and> unat (num_FAT_sectors s) = bs_fat_sectors p \<and>
     unat (root_start_sector s) = bs_root_start p \<and> unat (data_start_sector s) = bs_data_start b p \<and>
     unat (num_sectors s) = bs_total p \<and> unat (num_clusters s) = bs_clusters b p + 2 \<and>
     root_dir s = (if bs_fat32 p then GET32 p bpb32_root_cluster else 0) \<and>
     dentries_in_root s = (if bs_fat32 p then 0 else ucast (GET16 p bpb_num_root_entries)) \<and> fs_func s = FatOps"

lemma unat_u16: "unat (x :: u16) < 65536"
  by (rule order.strict_trans2 [OF unsigned_less]) simp

lemma bs_total_less: "bs_total p < 2 ^ 32"
  using unat_u32 [of "GET32 p bpb_num_huge_sectors"] unat_u16 [of "GET16 p bpb_num_sectors"] by (auto simp: bs_total_def)

lemma starts_of_boot:
  fixes F1 nfs root dat ns :: u32
  assumes ok: "fat_boot_ok b p" and k: "unat (p ! bpb_sectors_per_clu) = 2 ^ k"
    and F1: "unat F1 = bs_reserved p" and nfs: "unat nfs = bs_fat_sectors p" and ns: "unat ns = bs_total p"
    and root: "root = (if p ! bpb_num_fats = 1 then F1 else F1 + nfs) + nfs"
    and dat: "dat = root + of_nat (bs_data_start b p - bs_root_start p)"
  shows "unat root = bs_root_start p" "unat dat = bs_data_start b p" "unat (drop_bit k (ns - dat) + 2) = bs_clusters b p + 2"
proof -
  note a = ok [unfolded fat_boot_ok_def]
  have le: "bs_root_start p \<le> bs_data_start b p" by (simp add: bs_data_start_def)
  have lt: "bs_data_start b p < 2 ^ 32" using a bs_total_less [of p] by linarith
  have r: "bs_root_start p < 2 ^ 32" using le lt by linarith
  show u: "unat root = bs_root_start p"
  proof (cases "p ! bpb_num_fats = 1")
    case True
    then show ?thesis using r unat_plus_u32 [of F1 nfs] by (simp add: root bs_root_start_def F1 nfs)
  next
    case False
    then have s: "unat F1 + 2 * unat nfs < 2 ^ 32" using r by (simp add: bs_root_start_def F1 nfs)
    have "unat (F1 + nfs) = unat F1 + unat nfs" by (rule unat_plus_u32) (use s in linarith)
    moreover have "unat (F1 + nfs + nfs) = unat (F1 + nfs) + unat nfs" by (rule unat_plus_u32) (use s calculation in linarith)
    ultimately show ?thesis using False by (simp add: root bs_root_start_def F1 nfs)
  qed
  define e where "e = bs_data_start b p - bs_root_start p"
  have d: "unat (of_nat e :: u32) = e" by (rule unat_of_nat_u32) (use lt in \<open>simp add: e_def\<close>)
  have e: "bs_root_start p + e = bs_data_start b p" using le by (simp add: e_def)
  show ud: "unat dat = bs_data_start b p"
    unfolding dat e_def [symmetric] using unat_plus_u32 [of root "of_nat e"] lt by (simp add: u d e)
  have "bs_clusters b p + 2 < 2 ^ 32" using a unat_u32 [of "fat_limit (bs_type b p)"] by linarith
  then show "unat (drop_bit k (ns - dat) + 2) = bs_clusters b p + 2"
    using cluster_count [of dat ns k] a by (simp add: ud ns bs_clusters_def k)
qed

text \<open>The fields that the three steps set, and those they leave alone.\<close>

lemma cluster_geometry_fields:
  "sectors_per_clu (cluster_geometry spc bits s) = spc" "sectors_per_clu_bits (cluster_geometry spc bits s) = bits"
  "cluster_size_bits (cluster_geometry spc bits s) = bits + sector_size_bits s"
  "cluster_size (cluster_geometry spc bits s) = push_bit (bits + sector_size_bits s) 1"
  "bufs (cluster_geometry spc bits s) = bufs s" "dirty (cluster_geometry spc bits s) = dirty s"
  "env_ok (cluster_geometry spc bits s) = env_ok s" "opened (cluster_geometry spc bits s) = opened s"
  "debug_error_rw (cluster_geometry spc bits s) = debug_error_rw s"
  "dev_ejected (cluster_geometry spc bits s) = dev_ejected s" "sector_size (cluster_geometry spc bits s) = sector_size s"
  "sector_size_bits (cluster_geometry spc bits s) = sector_size_bits s"
  "sector_size_mask (cluster_geometry spc bits s) = sector_size_mask s"
  "PBR_sector (cluster_geometry spc bits s) = PBR_sector s" "FAT_cache (cluster_geometry spc bits s) = FAT_cache s"
  "buf_cache (cluster_geometry spc bits s) = buf_cache s" "fs_drv (cluster_geometry spc bits s) = fs_drv s"
  by (simp_all add: cluster_geometry_def Let_def)

lemma fat_starts_fields:
  "num_FAT_sectors (fat_starts n f k s) = n" "FAT1_start_sector (fat_starts n f k s) = PBR_sector s + f"
  "FAT2_start_sector (fat_starts n f k s) = (if k = 1 then PBR_sector s + f else PBR_sector s + f + n)"
  "bufs (fat_starts n f k s) = bufs s" "dirty (fat_starts n f k s) = dirty s" "env_ok (fat_starts n f k s) = env_ok s"
  "opened (fat_starts n f k s) = opened s" "debug_error_rw (fat_starts n f k s) = debug_error_rw s"
  "dev_ejected (fat_starts n f k s) = dev_ejected s" "sector_size (fat_starts n f k s) = sector_size s"
  "sector_size_bits (fat_starts n f k s) = sector_size_bits s" "sector_size_mask (fat_starts n f k s) = sector_size_mask s"
  "PBR_sector (fat_starts n f k s) = PBR_sector s" "FAT_cache (fat_starts n f k s) = FAT_cache s"
  "buf_cache (fat_starts n f k s) = buf_cache s" "fs_drv (fat_starts n f k s) = fs_drv s"
  "sectors_per_clu (fat_starts n f k s) = sectors_per_clu s"
  "sectors_per_clu_bits (fat_starts n f k s) = sectors_per_clu_bits s"
  "cluster_size_bits (fat_starts n f k s) = cluster_size_bits s" "cluster_size (fat_starts n f k s) = cluster_size s"
  by (simp_all add: fat_starts_def Let_def)

lemma mount_rest_fields:
  "root_dir (mount_rest kind serial root entries flag s) = root" "dentries_in_root (mount_rest kind serial root entries flag s) = entries"
  "fs_func (mount_rest kind serial root entries flag s) = kind"
  "bufs (mount_rest kind serial root entries flag s) = bufs s" "dirty (mount_rest kind serial root entries flag s) = dirty s"
  "env_ok (mount_rest kind serial root entries flag s) = env_ok s"
  "opened (mount_rest kind serial root entries flag s) = opened s"
  "debug_error_rw (mount_rest kind serial root entries flag s) = debug_error_rw s"
  "dev_ejected (mount_rest kind serial root entries flag s) = dev_ejected s"
  "sector_size (mount_rest kind serial root entries flag s) = sector_size s"
  "sector_size_bits (mount_rest kind serial root entries flag s) = sector_size_bits s"
  "sector_size_mask (mount_rest kind serial root entries flag s) = sector_size_mask s"
  "PBR_sector (mount_rest kind serial root entries flag s) = PBR_sector s"
  "FAT_cache (mount_rest kind serial root entries flag s) = FAT_cache s"
  "buf_cache (mount_rest kind serial root entries flag s) = buf_cache s"
  "fs_drv (mount_rest kind serial root entries flag s) = fs_drv s"
  "sectors_per_clu (mount_rest kind serial root entries flag s) = sectors_per_clu s"
  "sectors_per_clu_bits (mount_rest kind serial root entries flag s) = sectors_per_clu_bits s"
  "cluster_size_bits (mount_rest kind serial root entries flag s) = cluster_size_bits s"
  "cluster_size (mount_rest kind serial root entries flag s) = cluster_size s"
  "FAT1_start_sector (mount_rest kind serial root entries flag s) = FAT1_start_sector s"
  "num_FAT_sectors (mount_rest kind serial root entries flag s) = num_FAT_sectors s"
  "FAT2_start_sector (mount_rest kind serial root entries flag s) = FAT2_start_sector s"
  "root_start_sector (mount_rest kind serial root entries flag s) = root_start_sector s"
  "data_start_sector (mount_rest kind serial root entries flag s) = data_start_sector s"
  "num_sectors (mount_rest kind serial root entries flag s) = num_sectors s"
  "num_clusters (mount_rest kind serial root entries flag s) = num_clusters s"
  "vol_type (mount_rest kind serial root entries flag s) = vol_type s"
  by (simp_all add: mount_rest_def)

lemmas mount_fields = cluster_geometry_fields fat_starts_fields mount_rest_fields

lemma fat32_mount_run:
  assumes "fat_boot_ok b p" "bs_fat32 p" "sector_size_bits t = b" "PBR_sector t = 0"
  shows "\<exists>s'. run_state (fat32_mount p) t = (0, s') \<and> same_device t s' \<and> geometry_of b p s'"
proof -
  define s' where "s' = snd (run_state (fat32_mount p) t)"
  obtain k where k: "unat (p ! bpb_sectors_per_clu) = 2 ^ k" and k8: "k < 8" using assms(1) by (auto simp: fat_boot_ok_def)
  have nz: "p ! bpb_sectors_per_clu \<noteq> 0" "p ! bpb_num_fats \<noteq> 0" using k assms(1) by (auto simp: fat_boot_ok_def)
  have spc: "(ucast (p ! bpb_sectors_per_clu) :: u32) = 2 ^ k"
    using k unat_two_power [of k] k8 by (simp add: word_unat_eq_iff)
  note defs = fat32_mount_def Let_def mount_fields nz k assms(3,4)
  have "run_state (fat32_mount p) t = (0, s')"
    using nz by (simp add: s'_def fat32_mount_def Let_def FFS_SUCCESS_def)
  moreover have "same_device t s'" by (simp add: s'_def same_device_def defs)
  moreover have "geometry_of b p s'"
  proof -
    have w: "FAT1_start_sector s' = ucast (GET16 p bpb_num_reserved)" "num_FAT_sectors s' = GET32 p bpb32_num_fat32_sectors"
        "root_start_sector s' = (if p ! bpb_num_fats = 1 then FAT1_start_sector s' else FAT1_start_sector s' + num_FAT_sectors s') + num_FAT_sectors s'"
        "data_start_sector s' = root_start_sector s'" "num_sectors s' = GET32 p bpb_num_huge_sectors"
        "num_clusters s' = drop_bit k (num_sectors s' - data_start_sector s') + 2" "vol_type s' = FAT32"
      by (simp_all add: s'_def defs)
    have u: "unat (FAT1_start_sector s') = bs_reserved p" "unat (num_FAT_sectors s') = bs_fat_sectors p" "unat (num_sectors s') = bs_total p"
        "data_start_sector s' = root_start_sector s' + of_nat (bs_data_start b p - bs_root_start p)"
      using assms(2) by (simp_all add: w(1,2,5) w(4) bs_reserved_def bs_fat_sectors_def bs_total_def bs_data_start_def unat_ucast_u16)
    note st = starts_of_boot [OF assms(1) k u(1-3) w(3) u(4), folded w(6)]
    show ?thesis
      unfolding geometry_of_def using assms(2)
      by (simp add: st u(1-3) w(7) bs_type_def) (simp add: s'_def defs spc)
  qed
  ultimately show ?thesis by blast
qed

lemma fat16_mount_run:
  assumes "fat_boot_ok b p" "\<not> bs_fat32 p" "sector_size_bits t = b" "PBR_sector t = 0" "9 \<le> b"
  shows "\<exists>s'. run_state (fat16_mount p) t = (0, s') \<and> same_device t s' \<and> geometry_of b p s'"
proof -
  define s' where "s' = snd (run_state (fat16_mount p) t)"
  define n where "n = GET16 p bpb_num_root_entries"
  obtain k where k: "unat (p ! bpb_sectors_per_clu) = 2 ^ k" and k8: "k < 8" using assms(1) by (auto simp: fat_boot_ok_def)
  have nz: "p ! bpb_sectors_per_clu \<noteq> 0" "p ! bpb_num_fats \<noteq> 0" using k assms(1) by (auto simp: fat_boot_ok_def)
  have spc: "(ucast (p ! bpb_sectors_per_clu) :: u32) = 2 ^ k"
    using k unat_two_power [of k] k8 by (simp add: word_unat_eq_iff)
  have rs: "bs_data_start b p - bs_root_start p = (32 * unat n + 2 ^ b - 1) div 2 ^ b"
    using assms(2) by (simp add: bs_data_start_def n_def)
  have "(of_int (drop_bit b (push_bit 5 (uint n) - 1)) + 1 :: u32) = of_int (drop_bit b (push_bit 5 (uint n) - 1) + 1)" by simp
  then have rsw: "(of_int (drop_bit b (push_bit 5 (uint n) - 1)) + 1 :: u32) = of_nat (bs_data_start b p - bs_root_start p)"
    unfolding root_sectors(1) [OF assms(5)] rs by (simp only: of_int_of_nat_eq)
  have z: "(ucast (x :: u16) :: u32) = 0 \<longleftrightarrow> x = 0" for x by (simp add: word_unat_eq_iff unat_ucast_u16)
  note defs = fat16_mount_def Let_def mount_fields nz k assms(3,4) n_def [symmetric] rsw z
  have "run_state (fat16_mount p) t = (0, s')"
    using nz by (simp add: s'_def fat16_mount_def Let_def FFS_SUCCESS_def)
  moreover have "same_device t s'" by (simp add: s'_def same_device_def defs)
  moreover have "geometry_of b p s'"
  proof -
    have w: "FAT1_start_sector s' = ucast (GET16 p bpb_num_reserved)" "num_FAT_sectors s' = ucast (GET16 p bpb_num_fat_sectors)"
        "root_start_sector s' = (if p ! bpb_num_fats = 1 then FAT1_start_sector s' else FAT1_start_sector s' + num_FAT_sectors s') + num_FAT_sectors s'"
        "data_start_sector s' = root_start_sector s' + of_nat (bs_data_start b p - bs_root_start p)"
        "num_sectors s' = (if GET16 p bpb_num_sectors = 0 then GET32 p bpb_num_huge_sectors else ucast (GET16 p bpb_num_sectors))"
        "num_clusters s' = drop_bit k (num_sectors s' - data_start_sector s') + 2"
        "vol_type s' = (if num_clusters s' < FAT12_THRESHOLD then FAT12 else FAT16)"
      by (simp_all add: s'_def defs)
    have u: "unat (FAT1_start_sector s') = bs_reserved p" "unat (num_FAT_sectors s') = bs_fat_sectors p" "unat (num_sectors s') = bs_total p"
      using assms(2) by (simp_all add: w(1,2,5) bs_reserved_def bs_fat_sectors_def bs_total_def unat_ucast_u16)
    note st = starts_of_boot [OF assms(1) k u(1-3) w(3) w(4), folded w(6)]
    have "vol_type s' = bs_type b p"
      using assms(2) by (simp add: w(7) bs_type_def FAT12_THRESHOLD_def word_less_nat_alt st(3))
    then show ?thesis
      unfolding geometry_of_def using assms(2)
      by (simp add: st u(1-3)) (simp add: s'_def defs spc n_def [symmetric])
  qed
  ultimately show ?thesis by blast
qed

section \<open>The mounted volume is in order\<close>

lemma init_cache_drv: "x \<in> slots w \<Longrightarrow> bc_drv (slot (init_cache w bits c) x) = -1"
  using insert_slots_fields(3) [of w bits "cache_size w"]
  by (auto simp: slots_def init_cache_def insert_slots_def [symmetric] init_heads_fields init_slots_slot Let_def)

text \<open>\<^verbatim>\<open>buf_init\<close> runs before the size of a cluster is known: the hash lists it makes are right for every size.\<close>

lemma cache_inv_init_any:
  assumes "d \<noteq> -1"
  shows "cache_inv w bits' d (init_cache w bits c)"
proof -
  have i: "cache_inv w bits d (init_cache w bits c)" by (rule cache_inv_init [OF assms])
  then obtain B where B: "hashed w bits d (init_cache w bits c) B" by (auto simp: cache_inv_def)
  have "bc_drv (slot (init_cache w bits c) x) \<noteq> d" if "k < hash_size w" "x \<in> set (B k)" for k x
  proof -
    have "x \<in> slots w" using B that by (auto simp: hashed_def)
    then show ?thesis using assms by (simp add: init_cache_drv)
  qed
  then have "hashed w bits' d (init_cache w bits c) B" using B by (simp add: hashed_def)
  then show ?thesis using i by (auto simp: cache_inv_def)
qed

lemma spare_init: "spare w (init_cache w bits c)"
proof (cases w)
  case BUFC
  have "unlocked (init_cache BUFC bits c) (CSlot 0)" by (rule init_cache_unlocked) (simp add: cache_consts)
  moreover have "CSlot 0 \<in> slots BUFC" by (simp add: slots_def cache_consts)
  ultimately show ?thesis using BUFC by (auto simp: spare_def)
qed (simp add: spare_def)

lemma opened_caches:
  "FAT_cache (opened_vol b s) = init_cache FATC (sectors_per_clu_bits s) (FAT_cache s)"
  "buf_cache (opened_vol b s) = init_cache BUFC (sectors_per_clu_bits s) (buf_cache s)"
  "fs_drv (opened_vol b s) = fs_drv s" "bufs (opened_vol b s) = bufs s" "dirty (opened_vol b s) = dirty s"
  "env_ok (opened_vol b s) = env_ok s" "debug_error_rw (opened_vol b s) = debug_error_rw s"
  "sector_size_bits (opened_vol b s) = b" "PBR_sector (opened_vol b s) = 0" "opened (opened_vol b s) = True" "dev_ejected (opened_vol b s) = False"
  "sector_size (opened_vol b s) = 2 ^ b" "sector_size_mask (opened_vol b s) = 2 ^ b - 1"
  by (simp_all add: opened_vol_def buf_init_def)

lemma fat_pos_table:
  assumes "t = FAT12 \<or> t = FAT16 \<or> t = FAT32" "unat c < n" "2 \<le> n"
  shows "fat_pos t c + (if t = FAT12 \<or> t = FAT16 then 2 else 4) \<le> table_bytes t n"
proof -
  have "unat c div 2 \<le> (n - 1) div 2" using assms(2) by (intro div_le_mono) simp
  then show ?thesis using assms by (auto simp: fat_pos_def table_bytes_def FAT12_def FAT16_def FAT32_def)
qed

lemma mounted_vol_ok:
  assumes m: "mountable b s" and ok: "fat_boot_ok b p" and dev: "same_device (opened_vol b s) t" and geo: "geometry_of b p t"
  shows "vol_ok t"
proof -
  note m' = m [unfolded mountable_def] and ok' = ok [unfolded fat_boot_ok_def]
    and dev' = dev [unfolded same_device_def opened_caches] and geo' = geo [unfolded geometry_of_def]
  have caches: "cache_ok FATC t" "cache_ok BUFC t" "spare BUFC (buf_cache t)"
    using dev' m' by (simp_all add: cache_ok_def cache_inv_init_any spare_init)
  have device: "device_ok t" using dev' m' by (simp add: device_ok_def)
  have geometry: "geometry_ok t" using dev' m' by (simp add: geometry_ok_def)
  have bits: "sector_size_bits t = b" "PBR_sector t = 0" using dev' by simp_all
  have type: "vol_type t = FAT12 \<or> vol_type t = FAT16 \<or> vol_type t = FAT32" using geo' by (simp add: bs_type_def)
  have total: "\<not> out_of_range x t" if "unat x < bs_total p" for x
    using that geo' by (auto simp: out_of_range_def bits word_le_nat_alt)
  have starts: "bs_reserved p + bs_fat_sectors p \<le> bs_root_start p" "bs_root_start p \<le> bs_data_start b p"
    by (simp_all add: bs_root_start_def bs_data_start_def)
  note lt = bs_total_less [of p]
  have "\<not> out_of_range (FAT1_start_sector t + of_nat i) t" if "i < bs_fat_sectors p" for i
  proof -
    have "bs_reserved p + i < bs_total p" using that starts ok' by linarith
    moreover have "unat (of_nat i :: u32) = i" by (rule unat_of_nat_u32) (use calculation lt in linarith)
    ultimately show ?thesis
      using unat_plus_u32 [of "FAT1_start_sector t" "of_nat i"] geo' lt by (intro total) simp
  qed
  then have fat: "fat_ok t" using caches device geometry geo' by (simp add: fat_ok_def)
  have clusters: "clusters_ok t"
  proof -
    have "loc_ok t c" if "is_cluster t c" for c
    proof -
      have c: "unat c < bs_clusters b p + 2" using that geo' by (simp add: is_cluster_def word_less_nat_alt)
      have "fat_pos (vol_type t) c + (if vol_type t = FAT12 \<or> vol_type t = FAT16 then 2 else 4) \<le> fat_len t"
        using fat_pos_table [OF type c] ok' geo' by (simp add: fat_len_def bits)
      moreover have "fat_pos FAT12 c < 2 ^ 32" if "vol_type t = FAT12"
      proof -
        have "unat c < 4088" using c ok' geo' that by (auto simp: fat_limit_def split: if_splits)
        then show ?thesis by (simp add: fat_pos_def)
      qed
      ultimately show ?thesis by (simp add: loc_ok_def)
    qed
    then show ?thesis using fat ok' geo' by (simp add: clusters_ok_def word_less_nat_alt word_le_nat_alt)
  qed
  have layout: "layout_ok t"
  proof -
    obtain k where k: "k < 8" "unat (p ! bpb_sectors_per_clu) = 2 ^ k" using ok' by auto
    have kt: "sectors_per_clu_bits t = k" using geo' k(2) by simp
    have "bs_clusters b p * 2 ^ k \<le> bs_total p - bs_data_start b p"
      by (simp add: bs_clusters_def k(2) div_times_less_eq_dividend)
    then have room: "bs_data_start b p + bs_clusters b p * 2 ^ k \<le> bs_total p" using ok' by linarith
    show ?thesis
      unfolding layout_ok_def using geo' k(1) m' room lt starts
      by (auto simp: bits kt word_le_nat_alt intro!: total)
  qed
  show ?thesis using clusters caches layout by (simp add: vol_ok_def)
qed

text \<open>
  C3: Mounting a FAT volume establishes what the other properties take for granted.  When sector 0 has the signature of a boot
  sector and its numbers make sense, \<^verbatim>\<open>FsMountVol\<close> succeeds on a device that works; the geometry it keeps is
  the one of the boot sector, without wrap-around; the caches, the table and the layout of the volume are in order (\<open>vol_ok\<close>), and
  nothing on the medium has changed.
\<close>

theorem mount_establishes_vol_ok:
  assumes "mountable b s" "GET16 (bufs s 0) pbr_signature = PBR_SIGNATURE" "fat_boot_ok b (drop bpb_off (bufs s 0))"
  shows "\<exists>s'. run_state FsMountVol s = (FFS_SUCCESS, s') \<and> vol_ok s' \<and> geometry_of b (drop bpb_off (bufs s 0)) s' \<and>
    bufs s' = bufs s \<and> dirty s' = dirty s"
proof -
  let ?p = "drop bpb_off (bufs s 0)" and ?t = "opened_vol b s"
  have b: "9 \<le> b" using assms(1) by (simp add: mountable_def)
  have "?p ! bpb_num_fats \<noteq> 0" using assms(3) by (simp add: fat_boot_ok_def)
  moreover have "bpb_num_fats \<in> {..<53}" by (simp add: bpb_layout)
  ultimately have nz: "\<exists>i \<in> {..<53}. ?p ! i \<noteq> 0" by blast
  obtain s' where run: "run_state (if bs_fat32 ?p then fat32_mount ?p else fat16_mount ?p) ?t = (0, s')"
    and dev: "same_device ?t s'" and geo: "geometry_of b ?p s'"
    using fat32_mount_run [OF assms(3), of ?t] fat16_mount_run [OF assms(3), of ?t] b
    by (cases "bs_fat32 ?p") (auto simp: opened_caches)
  have "vol_type s' \<noteq> EXFAT" "\<not> dev_ejected s'"
    using geo dev by (auto simp: geometry_of_def bs_type_def same_device_def opened_caches FAT12_def FAT16_def FAT32_def EXFAT_def)
  then have "run_state FsMountVol s = (FFS_SUCCESS, s')" by (rule mount_run [OF assms(1,2) nz run])
  moreover have "bufs s' = bufs s" "dirty s' = dirty s" using dev by (simp_all add: same_device_def opened_caches)
  ultimately show ?thesis using mounted_vol_ok [OF assms(1,3) dev geo] geo by blast
qed

text \<open>A volume of 1000 sectors of 512 bytes, with one sector in a cluster, two tables of three sectors and 112 root entries.\<close>

definition sample_boot :: "u8 list" where
  "sample_boot = replicate 13 0 @ [1, 1, 0, 2, 112, 0, 0xE8, 0x03, 0, 3, 0] @ replicate 486 0 @ [0x55, 0xAA]"

lemma sample_boot_parts:
  "length sample_boot = 512" "sample_boot ! 510 = 0x55" "sample_boot ! 511 = 0xAA"
  "drop bpb_off sample_boot = [0, 0] @ [1, 1, 0, 2, 112, 0, 0xE8, 0x03, 0, 3, 0] @ replicate 486 0 @ [0x55, 0xAA]"
  by (simp_all add: sample_boot_def bpb_off_def nth_append, simp add: numeral_2_eq_2)

lemma mount_establishes_vol_ok_witness:
  "\<exists>s'. run_state FsMountVol ((sample 0 (zeros(0 := sample_boot)))\<lparr>opened := False, num_sectors := 0\<rparr>) = (FFS_SUCCESS, s') \<and> vol_ok s' \<and>
    vol_type s' = FAT12 \<and> unat (num_clusters s') = 988"
proof -
  let ?s = "(sample 0 (zeros(0 := sample_boot)))\<lparr>opened := False, num_sectors := 0\<rparr>" and ?p = "drop bpb_off sample_boot"
  have "mountable 9 ?s" by (simp add: mountable_def sample_def sample_boot_parts)
  moreover have "GET16 (bufs ?s 0) pbr_signature = PBR_SIGNATURE"
    by (simp add: sample_def GET16_def pbr_signature_def PBR_SIGNATURE_def sample_boot_parts)
  moreover have fields: "GET16 ?p bpb_num_fat_sectors = 3" "GET16 ?p bpb_num_reserved = 1" "?p ! bpb_num_fats = 2"
      "GET16 ?p bpb_num_root_entries = 112" "GET16 ?p bpb_num_sectors = 1000" "?p ! bpb_sectors_per_clu = 1"
    by (simp_all add: sample_boot_parts GET16_def bpb_layout)
  then have nums: "bs_type 9 ?p = FAT12" "bs_clusters 9 ?p = 986" "bs_data_start 9 ?p = 14" "bs_total ?p = 1000" "bs_fat_sectors ?p = 3"
    by (simp_all add: bs_type_def bs_clusters_def bs_data_start_def bs_root_start_def bs_reserved_def bs_fat_sectors_def bs_total_def bs_fat32_def)
  then have "fat_boot_ok 9 ?p"
    unfolding fat_boot_ok_def by (simp add: fields table_bytes_def fat_limit_def) (rule exI [of _ 0], simp)
  ultimately show ?thesis
    using mount_establishes_vol_ok [of 9 ?s] nums by (auto simp: sample_def geometry_of_def)
qed

end
