(* ===== verification/AllocProps.thy ===== *)
theory AllocProps
  imports AllocMap FatProps
begin

text \<open>
  The allocation bitmap of an exFAT volume is an array of bits, one per cluster.  Setting and clearing a bit changes this bit only;
  the byte-wise search with its lookup table finds what a search bit by bit finds, in the order in which it looks; the byte-wise
  count is the number of set bits.
\<close>

section \<open>The map as an array of bits\<close>

definition map_sector :: "vol \<Rightarrow> nat \<Rightarrow> u32" where
  "map_sector s i = START_SECTOR (map_clu s) s + of_nat i"

text \<open>Byte \<open>q\<close> of the map, and the number of bytes that hold the bits of the clusters.\<close>

definition map_byte :: "vol \<Rightarrow> nat \<Rightarrow> u8" where
  "map_byte s q = bufs s (map_sector s (q div 2 ^ sector_size_bits s)) ! (q mod 2 ^ sector_size_bits s)"

definition map_turns :: "vol \<Rightarrow> nat" where
  "map_turns s = (unat (num_clusters s) - 2 + 7) div 8"

text \<open>
  The map as \<^verbatim>\<open>load_alloc_bitmap\<close> leaves it: a buffer for each of its sectors, as many as the clusters need.
\<close>

definition map_ok :: "vol \<Rightarrow> bool" where
  "map_ok s \<longleftrightarrow> geometry_ok s \<and> device_ok s \<and> num_clusters s \<le> 0xFFFFFFF0 \<and>
     unat (map_sectors s) = (map_turns s + 2 ^ sector_size_bits s - 1) div 2 ^ sector_size_bits s \<and>
     (\<exists>m. vol_amap s = Some m \<and> (\<forall>i<unat (map_sectors s). m i = Some (map_sector s i))) \<and>
     (\<forall>i<unat (map_sectors s). \<not> out_of_range (map_sector s i) s)"

definition nbits :: "vol \<Rightarrow> nat" where
  "nbits s = (if map_ok s then unat (num_clusters s) - 2 else 0)"

definition in_use :: "vol \<Rightarrow> nat \<Rightarrow> bool" where
  "in_use s n \<longleftrightarrow> n < nbits s \<and> bit (map_byte s (n div 8)) (n mod 8)"

text \<open>The blocks that are not part of the map.\<close>

definition map_outside :: "vol \<Rightarrow> u32 \<Rightarrow> bool" where
  "map_outside s x \<longleftrightarrow> (\<forall>i<unat (map_sectors s). x \<noteq> map_sector s i)"

lemma nbits_pos: "n < nbits s \<Longrightarrow> map_ok s \<and> n < unat (num_clusters s) - 2 \<and> n div 8 < map_turns s"
  by (auto simp: nbits_def map_turns_def split: if_splits)

lemma map_sectors_room:
  assumes "map_ok s" "q < map_turns s"
  shows "q div 2 ^ sector_size_bits s < unat (map_sectors s)"
proof -
  let ?m = "2 ^ sector_size_bits s :: nat"
  have "q < (map_turns s + ?m - 1) div ?m * ?m"
  proof -
    have "map_turns s + ?m - 1 = (map_turns s + ?m - 1) div ?m * ?m + (map_turns s + ?m - 1) mod ?m" by (rule div_mult_mod_eq [symmetric])
    moreover have "(map_turns s + ?m - 1) mod ?m \<le> ?m - 1" by (rule Suc_le_mono [THEN iffD1]) (simp add: Suc_le_eq)
    moreover have "0 < ?m" by simp
    ultimately show ?thesis using assms(2) by linarith
  qed
  then show ?thesis using assms(1) by (simp add: map_ok_def less_mult_imp_div_less)
qed

lemma map_sector_inj:
  "map_ok s \<Longrightarrow> i < unat (map_sectors s) \<Longrightarrow> j < unat (map_sectors s) \<Longrightarrow> map_sector s i = map_sector s j \<Longrightarrow> i = j"
  using unat_u32 [of "map_sectors s"] by (simp add: map_sector_def word_of_nat_eq_iff take_bit_nat_eq_self)

lemma map_index_div: "map_index c s = unat c div 8 div 2 ^ sector_size_bits s"
  unfolding map_index_def unat_drop_bit_eq by (simp add: drop_bit_eq_div power_add div_mult2_eq [symmetric] mult.commute)

lemma map_bit_mod:
  assumes "geometry_ok s"
  shows "map_bit c s = unat c mod (8 * 2 ^ sector_size_bits s)"
proof -
  have b: "sector_size_bits s + 3 \<le> 32" using assms by (simp add: geometry_ok_def)
  have "push_bit 3 (sector_size s) - 1 = mask (sector_size_bits s + 3)"
    using assms by (simp add: geometry_ok_def mask_eq_exp_minus_1 push_bit_eq_mult power_add mult.commute)
  then have "map_bit c s = take_bit (sector_size_bits s + 3) (unat c)"
    by (simp only: map_bit_def take_bit_eq_mask [symmetric] unsigned_take_bit_eq)
  then show ?thesis by (simp add: take_bit_eq_mod power_add mult.commute)
qed

lemma amap_buf_run: "map_ok s \<Longrightarrow> i < unat (map_sectors s) \<Longrightarrow> run_state (amap_buf i) s = (Some (map_sector s i), s)"
  by (auto simp: amap_buf_def map_ok_def)

section \<open>Setting and clearing\<close>

text \<open>What the two operations have in common: \<open>f\<close> changes a bit of the buffer of the bit's sector.\<close>

lemma map_update_run:
  assumes "n < nbits s" "\<And>p i. length (f p i) = length p"
    "\<And>p i j. i < 8 * length p \<Longrightarrow> bit (f p i ! (j div 8)) (j mod 8) = g (i = j) (bit (p ! (j div 8)) (j mod 8))"
    "\<And>x. g False x = x"
  shows "\<exists>t. run_state (do { _ \<leftarrow> set_buf (map_sector s (map_index (of_nat n) s)) (\<lambda>p. f p (map_bit (of_nat n) s));
      sector_write (map_sector s (map_index (of_nat n) s)) (Some (map_sector s (map_index (of_nat n) s))) False }) s = (FFS_SUCCESS, t) \<and>
    nbits t = nbits s \<and> (\<forall>j<nbits s. in_use t j = g (n = j) (in_use s j)) \<and> (\<forall>x. map_outside s x \<longrightarrow> bufs t x = bufs s x) \<and>
    (\<exists>b d. t = s\<lparr>bufs := b, dirty := d\<rparr> \<and> (\<forall>x. length (b x) = length (bufs s x)))"
proof -
  note n = nbits_pos [OF assms(1), THEN conjunct1] nbits_pos [OF assms(1), THEN conjunct2, THEN conjunct1]
    nbits_pos [OF assms(1), THEN conjunct2, THEN conjunct2]
  let ?m = "2 ^ sector_size_bits s :: nat" and ?q = "n div 8"
  define i where "i = ?q div ?m"
  define k where "k = n mod (8 * ?m)"
  define x where "x = map_sector s i"
  define b where "b = (bufs s)(x := f (bufs s x) k)"
  have g: "geometry_ok s" "device_ok s" using n(1) by (simp_all add: map_ok_def)
  have un: "unat (of_nat n :: u32) = n"
    using n(2) unat_u32 [of "num_clusters s"] by (simp add: unat_of_nat take_bit_nat_eq_self)
  have e: "map_index (of_nat n) s = i" "map_bit (of_nat n) s = k"
    by (simp_all add: map_index_div map_bit_mod [OF g(1)] un i_def k_def)
  have i: "i < unat (map_sectors s)" using map_sectors_room [OF n(1,3)] by (simp add: i_def)
  then have r: "\<not> out_of_range x s" using n(1) by (simp add: map_ok_def x_def)
  let ?s = "s\<lparr>bufs := b\<rparr>"
  have "device_ok ?s" "\<not> out_of_range x ?s" using g(2) r by (simp_all add: device_ok_def out_of_range_def)
  then have run: "run_state (do { _ \<leftarrow> set_buf x (\<lambda>p. f p k); sector_write x (Some x) False }) s = (FFS_SUCCESS, ?s\<lparr>dirty := (dirty s)(x := True)\<rparr>)"
    by (simp add: set_buf_def run_sector_write b_def [symmetric])
  let ?t = "?s\<lparr>dirty := (dirty s)(x := True)\<rparr>"
  have bx: "b x = f (bufs s x) k" "\<And>y. y \<noteq> x \<Longrightarrow> b y = bufs s y" by (simp_all add: b_def)
  have l: "length (b y) = length (bufs s y)" for y using assms(2) by (simp add: b_def)
  have st: "map_sector ?t = map_sector s" "map_turns ?t = map_turns s" by (simp_all add: map_sector_def START_SECTOR_def map_turns_def fun_eq_iff)
  have "map_ok ?t = map_ok s" by (simp add: map_ok_def st geometry_ok_def device_ok_def out_of_range_def l)
  then have ok: "map_ok ?t" using n(1) by simp
  then have nb: "nbits ?t = nbits s" using n(1) by (simp add: nbits_def)
  have bits: "in_use ?t j = g (n = j) (in_use s j)" if j: "j < nbits s" for j
  proof -
    let ?i = "j div 8 div ?m"
    have ij: "?i < unat (map_sectors s)" using map_sectors_room [OF n(1)] nbits_pos [OF j] by blast
    show ?thesis
    proof (cases "?i = i")
      case True
      have "j mod (8 * ?m) div 8 = j div 8 mod ?m" "j mod (8 * ?m) mod 8 = j mod 8" for j
        by (simp_all add: mod_mult2_eq mod_mod_cancel)
      note this [of j]
      moreover have "k = j mod (8 * ?m) \<longleftrightarrow> n = j"
      proof -
        have "n div (8 * ?m) = j div (8 * ?m)" using True by (simp add: i_def div_mult2_eq)
        then show ?thesis unfolding k_def by (metis div_mult_mod_eq)
      qed
      moreover have "k < 8 * length (bufs s x)" using g(1) by (simp add: geometry_ok_def k_def)
      ultimately show ?thesis
        using assms(3) [of k "bufs s x" "j mod (8 * ?m)"] j nb True by (simp add: in_use_def map_byte_def st bx x_def [symmetric])
    next
      case False
      then have "map_sector s ?i \<noteq> x" using map_sector_inj [OF n(1) ij i] by (auto simp: x_def)
      moreover have "n \<noteq> j" using False by (auto simp: i_def)
      ultimately show ?thesis using nb assms(4) by (simp add: in_use_def map_byte_def st bx)
    qed
  qed
  have "bufs ?t y = bufs s y" if "map_outside s y" for y using that i by (auto simp: map_outside_def b_def x_def)
  then show ?thesis
    using run nb bits l unfolding e x_def [symmetric] by (intro exI [of _ ?t]) (auto intro!: exI [of _ b] exI [of _ "(dirty s)(x := True)"])
qed

lemma nbits_word: "n < nbits s \<Longrightarrow> unat (of_nat n :: u32) = n"
proof -
  assume "n < nbits s"
  then have "n < 2 ^ 32" using nbits_pos [of n s] unat_u32 [of "num_clusters s"] by linarith
  then show ?thesis by (simp add: unat_of_nat take_bit_nat_eq_self)
qed

lemma map_index_room: "n < nbits s \<Longrightarrow> map_index (of_nat n) s < unat (map_sectors s)"
  using map_sectors_room [of s "n div 8"] nbits_pos [of n s] by (simp add: map_index_div nbits_word)

lemma set_alloc_bitmap_run:
  assumes "n < nbits s"
  shows "\<exists>t. run_state (set_alloc_bitmap (of_nat n)) s = (FFS_SUCCESS, t) \<and> nbits t = nbits s \<and>
    (\<forall>j<nbits s. in_use t j = (n = j \<or> in_use s j)) \<and> (\<forall>x. map_outside s x \<longrightarrow> bufs t x = bufs s x) \<and>
    (\<exists>b d. t = s\<lparr>bufs := b, dirty := d\<rparr> \<and> (\<forall>x. length (b x) = length (bufs s x)))"
  using map_update_run [OF assms, of exfat_bitmap_set "\<lambda>e x. e \<or> x"] bit_exfat_bitmap_set
    amap_buf_run [OF nbits_pos [OF assms, THEN conjunct1] map_index_room [OF assms]]
  by (simp add: set_alloc_bitmap_def map_sector_def Let_def)

lemma clr_alloc_bitmap_run:
  assumes "n < nbits s"
  shows "\<exists>t. run_state (clr_alloc_bitmap (of_nat n)) s = (FFS_SUCCESS, t) \<and> nbits t = nbits s \<and>
    (\<forall>j<nbits s. in_use t j = (n \<noteq> j \<and> in_use s j)) \<and> (\<forall>x. map_outside s x \<longrightarrow> bufs t x = bufs s x) \<and>
    (\<exists>b d. t = s\<lparr>bufs := b, dirty := d\<rparr> \<and> (\<forall>x. length (b x) = length (bufs s x)))"
  using map_update_run [OF assms, of exfat_bitmap_clear "\<lambda>e x. \<not> e \<and> x"] bit_exfat_bitmap_clear
    amap_buf_run [OF nbits_pos [OF assms, THEN conjunct1] map_index_room [OF assms]]
  by (simp add: clr_alloc_bitmap_def map_sector_def Let_def)

text \<open>The map on the volume is a bit array too.\<close>

interpretation vb: bit_array in_use "\<lambda>s n. snd (run_state (set_alloc_bitmap (of_nat n)) s)"
  "\<lambda>s n. snd (run_state (clr_alloc_bitmap (of_nat n)) s)" nbits
proof
  fix s i j assume i: "i < nbits s"
  obtain t where t: "run_state (set_alloc_bitmap (of_nat i)) s = (FFS_SUCCESS, t)" "nbits t = nbits s"
    "\<forall>j<nbits s. in_use t j = (i = j \<or> in_use s j)" using set_alloc_bitmap_run [OF i] by blast
  show "nbits (snd (run_state (set_alloc_bitmap (of_nat i)) s)) = nbits s" using t by simp
  show "in_use (snd (run_state (set_alloc_bitmap (of_nat i)) s)) j = (i = j \<or> in_use s j)"
    using t i by (cases "j < nbits s") (auto simp: in_use_def)
  obtain u where u: "run_state (clr_alloc_bitmap (of_nat i)) s = (FFS_SUCCESS, u)" "nbits u = nbits s"
    "\<forall>j<nbits s. in_use u j = (i \<noteq> j \<and> in_use s j)" using clr_alloc_bitmap_run [OF i] by blast
  show "nbits (snd (run_state (clr_alloc_bitmap (of_nat i)) s)) = nbits s" using u by simp
  show "in_use (snd (run_state (clr_alloc_bitmap (of_nat i)) s)) j = (i \<noteq> j \<and> in_use s j)"
    using u i by (cases "j < nbits s") (auto simp: in_use_def)
qed

text \<open>
  C25: the allocation bitmap is a set.  For a cluster of the volume, \<^verbatim>\<open>set_alloc_bitmap\<close> and \<^verbatim>\<open>clr_alloc_bitmap\<close> succeed, put it into or
  take it out of the set of used clusters, leave every other cluster and every block outside of the map alone, and one after the
  other they restore the set.
\<close>

theorem alloc_bitmap_refines_set:
  assumes "n < nbits s"
  shows "(\<exists>t. run_state (set_alloc_bitmap (of_nat n)) s = (FFS_SUCCESS, t) \<and> {j. in_use t j} = insert n {j. in_use s j} \<and>
      (\<forall>x. map_outside s x \<longrightarrow> bufs t x = bufs s x) \<and>
      (\<not> in_use s n \<longrightarrow> {j. in_use (snd (run_state (clr_alloc_bitmap (of_nat n)) t)) j} = {j. in_use s j})) \<and>
    (\<exists>t. run_state (clr_alloc_bitmap (of_nat n)) s = (FFS_SUCCESS, t) \<and> {j. in_use t j} = {j. in_use s j} - {n} \<and>
      (\<forall>x. map_outside s x \<longrightarrow> bufs t x = bufs s x))"
proof
  obtain t where t: "run_state (set_alloc_bitmap (of_nat n)) s = (FFS_SUCCESS, t)" "\<forall>x. map_outside s x \<longrightarrow> bufs t x = bufs s x"
    using set_alloc_bitmap_run [OF assms] by blast
  then show "\<exists>t. run_state (set_alloc_bitmap (of_nat n)) s = (FFS_SUCCESS, t) \<and> {j. in_use t j} = insert n {j. in_use s j} \<and>
      (\<forall>x. map_outside s x \<longrightarrow> bufs t x = bufs s x) \<and>
      (\<not> in_use s n \<longrightarrow> {j. in_use (snd (run_state (clr_alloc_bitmap (of_nat n)) t)) j} = {j. in_use s j})"
    using vb.test_set [OF assms] vb.test_clr_set [OF assms] by auto
  obtain u where u: "run_state (clr_alloc_bitmap (of_nat n)) s = (FFS_SUCCESS, u)" "\<forall>x. map_outside s x \<longrightarrow> bufs u x = bufs s x"
    using clr_alloc_bitmap_run [OF assms] by blast
  then show "\<exists>t. run_state (clr_alloc_bitmap (of_nat n)) s = (FFS_SUCCESS, t) \<and> {j. in_use t j} = {j. in_use s j} - {n} \<and>
      (\<forall>x. map_outside s x \<longrightarrow> bufs t x = bufs s x)"
    using vb.test_clr [OF assms] by auto
qed

section \<open>Searching\<close>

text \<open>The bits of a byte below \<open>N\<close>, from bit \<open>m\<close> of it on; the order of the bytes.\<close>

definition byte_bits :: "nat \<Rightarrow> nat \<Rightarrow> nat \<Rightarrow> nat list" where
  "byte_bits N m q = [8 * q + m..<min (8 * q + 8) N]"

fun cyc :: "nat \<Rightarrow> nat \<Rightarrow> nat \<Rightarrow> nat list" where
  "cyc T 0 q = []"
| "cyc T (Suc n) q = q # cyc T n (if q + 1 \<ge> T then 0 else q + 1)"

lemma cyc_low: "q + n \<le> T \<Longrightarrow> cyc T n q = [q..<q + n]"
  by (induction n arbitrary: q) (auto simp: upt_rec)

lemma cyc_append: "q \<le> T \<Longrightarrow> cyc T (T - q + m) q = (if q = T then cyc T m q else [q..<T] @ cyc T m 0)"
proof (induction "T - q" arbitrary: q)
  case 0
  then show ?case by simp
next
  case (Suc n)
  then have q: "q < T" by simp
  then have e: "T - q + m = Suc (T - Suc q + m)" by simp
  show ?case
  proof (cases "Suc q = T")
    case True
    then show ?thesis unfolding e using q by (simp add: upt_rec)
  next
    case False
    then show ?thesis unfolding e using Suc.hyps(1) [of "Suc q"] Suc.hyps(2) q by (simp add: upt_conv_Cons)
  qed
qed

lemma concat_byte_bits: "q \<le> r \<Longrightarrow> concat (map (byte_bits N 0) [q..<r]) = [8 * q..<min (8 * r) N]"
proof (induction r)
  case 0
  then show ?case by simp
next
  case (Suc r)
  show ?case
  proof (cases "q \<le> r")
    case True
    have "[8 * q..<min (8 * r) N] @ [8 * r..<min (8 * r + 8) N] = [8 * q..<min (8 * Suc r) N]"
    proof (cases "8 * r \<le> N")
      case le: True
      have "[8 * q..<8 * r] @ [8 * r..<min (8 * r + 8) N] = [8 * q..<min (8 * r + 8) N]"
        using upt_add_eq_append [of "8 * q" "8 * r" "min (8 * r + 8) N - 8 * r"] True le by simp
      then show ?thesis using le by (simp add: add.commute)
    next
      case False
      then show ?thesis by simp
    qed
    then show ?thesis using Suc True by (simp add: byte_bits_def)
  next
    case False
    then show ?thesis using Suc.prems by simp
  qed
qed

lemma find_upt_Some:
  assumes "a \<le> j" "j < b" "P j" "\<And>i. a \<le> i \<Longrightarrow> i < j \<Longrightarrow> \<not> P i"
  shows "find P [a..<b] = Some j"
  unfolding find_Some_iff by (rule exI [of _ "j - a"]) (use assms in auto)

lemma u8_le: "(x :: u8) \<le> 0xFF"
  using unsigned_less [where ?'a = nat and w = x] by (simp add: word_le_nat_alt)

lemma low_zero_masked:
  fixes k :: u8
  assumes "m < 8"
  defines "z \<equiv> low_zero 8 (unat (k OR mask m))"
  shows "k OR mask m < 0xFF \<longleftrightarrow> z < 8" "z < 8 \<Longrightarrow> m \<le> z \<and> \<not> bit k z" "\<And>i. m \<le> i \<Longrightarrow> i < z \<Longrightarrow> bit k i"
proof -
  let ?w = "k OR mask m"
  have b: "bit (unat ?w) i \<longleftrightarrow> bit k i \<or> (i < m \<and> i < 8)" for i
    by (auto simp: bit_unsigned_iff bit_or_iff bit_mask_iff dest: bit_imp_le_length)
  note z = low_zero_spec [of 8 "unat ?w", folded z_def]
  show "?w < 0xFF \<longleftrightarrow> z < 8"
  proof
    assume l: "?w < 0xFF"
    show "z < 8"
    proof (rule ccontr)
      assume "\<not> z < 8"
      then have all: "bit (unat ?w) i" if "i < 8" for i using z that by auto
      have "?w = 0xFF"
      proof (rule bit_word_eqI)
        fix i assume "i < LENGTH(8)"
        then have i: "i < 8" by simp
        then have "bit ?w i" using all [OF i] by (simp add: bit_unsigned_iff)
        moreover have "bit (0xFF :: u8) i" using i by (auto simp: numeral_eq_Suc less_Suc_eq)
        ultimately show "bit ?w i = bit (0xFF :: u8) i" by simp
      qed
      with l show False by simp
    qed
  next
    assume lt: "z < 8"
    then have "\<not> bit (unat ?w) z" using z by blast
    then have "\<not> bit ?w z" using lt by (simp add: bit_unsigned_iff)
    moreover have "bit (0xFF :: u8) z" using lt by (auto simp: numeral_eq_Suc less_Suc_eq)
    ultimately have "?w \<noteq> 0xFF" by auto
    moreover have "?w \<le> 0xFF" by (rule u8_le)
    ultimately show "?w < 0xFF" by simp
  qed
  show "m \<le> z \<and> \<not> bit k z" if lt: "z < 8"
  proof -
    have "\<not> bit (unat ?w) z" using z lt by blast
    then show ?thesis using lt b [of z] by auto
  qed
  show "bit k i" if "m \<le> i" "i < z" for i using z that b [of i] by auto
qed

text \<open>What is found in one byte, with its first \<open>m\<close> bits masked.\<close>

lemma find_byte:
  fixes k :: u8
  assumes "m < 8"
  defines "w \<equiv> k OR mask m"
  shows "find (\<lambda>j. \<not> bit k (j - 8 * q)) (byte_bits N m q) =
    (if w < 0xFF \<and> 8 * q + free_bit ! unat w < N then Some (8 * q + free_bit ! unat w) else None)"
proof (cases "w < 0xFF")
  case True
  define z where "z = low_zero 8 (unat w)"
  have f: "free_bit ! unat w = z" using True free_bit_nth [of "unat w"] by (simp add: z_def word_less_nat_alt)
  have z: "z < 8" "m \<le> z" "\<not> bit k z" "\<And>i. m \<le> i \<Longrightarrow> i < z \<Longrightarrow> bit k i"
    using low_zero_masked [OF assms(1), where k = k] True unfolding w_def z_def by blast+
  show ?thesis
  proof (cases "8 * q + z < N")
    case in_range: True
    have "find (\<lambda>j. \<not> bit k (j - 8 * q)) (byte_bits N m q) = Some (8 * q + z)"
      unfolding byte_bits_def
    proof (rule find_upt_Some)
      fix i assume "8 * q + m \<le> i" "i < 8 * q + z"
      then show "\<not> \<not> bit k (i - 8 * q)" using z(4) [of "i - 8 * q"] by simp
    qed (use z in_range in simp_all)
    then show ?thesis using True f in_range by simp
  next
    case False
    have "\<not> (\<exists>j\<in>set (byte_bits N m q). \<not> bit k (j - 8 * q))"
    proof
      assume "\<exists>j\<in>set (byte_bits N m q). \<not> bit k (j - 8 * q)"
      then obtain j where j: "8 * q + m \<le> j" "j < N" "\<not> bit k (j - 8 * q)" by (auto simp: byte_bits_def)
      then show False using z(4) [of "j - 8 * q"] False by simp
    qed
    then show ?thesis using f False by (auto simp: find_None_iff)
  qed
next
  case False
  then have "\<not> low_zero 8 (unat w) < 8" using low_zero_masked(1) [OF assms(1), of k] by (simp add: w_def)
  then have "bit k i" if "m \<le> i" "i < 8" for i using low_zero_masked(3) [OF assms(1), where k = k and i = i] that by (simp add: w_def)
  then have "\<forall>j\<in>set (byte_bits N m q). bit k (j - 8 * q)" by (auto simp: byte_bits_def)
  then have "find (\<lambda>j. \<not> bit k (j - 8 * q)) (byte_bits N m q) = None" by (simp add: find_None_iff)
  then show ?thesis using False by simp
qed

text \<open>One turn of the search.\<close>

lemma test_turn:
  fixes c :: u8 and j :: nat
  assumes "vol_amap s = Some a" "a i = Some x"
  defines "w \<equiv> bufs s x ! j OR c"
  shows "test_loop (Suc n) s base c i j = (if w < 0xFF \<and> base + of_nat (free_bit ! unat w) < num_clusters s
      then Some (base + of_nat (free_bit ! unat w))
      else if Suc j \<ge> unat (sector_size s) \<or> base + 8 \<ge> num_clusters s
         then if Suc i \<ge> unat (map_sectors s) then test_loop n s 2 0 0 0 else test_loop n s (base + 8) 0 (Suc i) 0
         else test_loop n s (base + 8) 0 i (Suc j))"
proof (cases "c = 0")
  case True
  then show ?thesis using assms(1,2) by (simp add: Let_def w_def)
next
  case False
  then have "0 < c" unfolding word_gt_0 by (rule not_sym)
  then show ?thesis using assms(1,2) by (simp add: Let_def w_def)
qed

lemma test_step:
  assumes "map_ok s" "q < map_turns s" "m < 8"
  defines "q' \<equiv> (if q + 1 \<ge> map_turns s then 0 else q + 1)" and "B \<equiv> (2 :: nat) ^ sector_size_bits s"
  shows "test_loop (Suc n) s (of_nat (8 * q + 2)) (mask m) (q div B) (q mod B) =
    (case find (\<lambda>j. \<not> in_use s j) (byte_bits (nbits s) m q) of
       Some j \<Rightarrow> Some (of_nat (j + 2)) | None \<Rightarrow> test_loop n s (of_nat (8 * q' + 2)) 0 (q' div B) (q' mod B))"
proof -
  let ?N = "unat (num_clusters s) - 2"
  have g: "unat (sector_size s) = B" using assms(1) unat_sector_size [of s] by (simp add: map_ok_def B_def)
  have B: "0 < B" by (simp add: B_def)
  have N: "nbits s = ?N" using assms(1) by (simp add: nbits_def)
  have T: "map_turns s = (?N + 7) div 8" by (simp add: map_turns_def)
  have nc: "unat (num_clusters s) \<le> 0xFFFFFFF0" using assms(1) by (simp add: map_ok_def word_le_nat_alt)
  have qN: "8 * q < ?N" using assms(2) T by linarith
  have room: "q div B < unat (map_sectors s)" using map_sectors_room [OF assms(1,2)] by (simp add: B_def)
  have wq: "unat (of_nat (8 * q + 2) :: u32) = 8 * q + 2" "unat (of_nat (8 * q + 10) :: u32) = 8 * q + 10"
    by (rule unat_of_nat_u32, use qN nc in simp)+
  obtain a where a: "vol_amap s = Some a" "a (q div B) = Some (map_sector s (q div B))"
    using assms(1) room by (auto simp: map_ok_def)
  have k: "bufs s (map_sector s (q div B)) ! (q mod B) = map_byte s q" by (simp add: map_byte_def B_def)
  have find: "find (\<lambda>j. \<not> in_use s j) (byte_bits (nbits s) m q) = find (\<lambda>j. \<not> bit (map_byte s q) (j - 8 * q)) (byte_bits (nbits s) m q)"
  proof (rule find_cong [OF refl])
    fix j assume "j \<in> set (byte_bits (nbits s) m q)"
    then have j: "8 * q \<le> j" "j < 8 * q + 8" "j < nbits s" by (auto simp: byte_bits_def)
    then have d: "j div 8 = q" by (intro div_nat_eqI) simp_all
    then have "j mod 8 = j - 8 * q" using minus_div_mult_eq_mod [of j 8] by (simp add: mult.commute)
    with d show "(\<not> in_use s j) = (\<not> bit (map_byte s q) (j - 8 * q))" using j by (simp add: in_use_def)
  qed
  let ?w = "map_byte s q OR mask m"
  have c: "(of_nat (8 * q + 2) :: u32) + of_nat f = of_nat (8 * q + f + 2)" for f by simp
  have found: "(?w < 0xFF \<and> (of_nat (8 * q + 2) :: u32) + of_nat (free_bit ! unat ?w) < num_clusters s) =
      (?w < 0xFF \<and> 8 * q + free_bit ! unat ?w < nbits s)"
  proof (cases "?w < 0xFF")
    case True
    then have "free_bit ! unat ?w \<le> 8" using free_bit_nth [of "unat ?w"] low_zero_spec [of 8 "unat ?w"] by (simp add: word_less_nat_alt)
    then have "unat (of_nat (8 * q + free_bit ! unat ?w + 2) :: u32) = 8 * q + free_bit ! unat ?w + 2"
      by (intro unat_of_nat_u32) (use qN nc in simp)
    then show ?thesis unfolding c word_less_nat_alt [of _ "num_clusters s"] N by auto
  qed simp
  have base: "(of_nat (8 * q + 2) :: u32) + 8 = of_nat (8 * q + 10)" by simp
  have last: "(of_nat (8 * q + 10) \<ge> num_clusters s) = (map_turns s \<le> Suc q)"
    unfolding word_le_nat_alt wq T using qN by linarith
  have nxt: "(if Suc (q mod B) \<ge> unat (sector_size s) \<or> of_nat (8 * q + 10) \<ge> num_clusters s
         then if Suc (q div B) \<ge> unat (map_sectors s) then test_loop n s 2 0 0 0 else test_loop n s (of_nat (8 * q + 10)) 0 (Suc (q div B)) 0
         else test_loop n s (of_nat (8 * q + 10)) 0 (q div B) (Suc (q mod B))) =
      test_loop n s (of_nat (8 * q' + 2)) 0 (q' div B) (q' mod B)"
  proof (cases "map_turns s \<le> Suc q")
    case True
    then have "map_turns s = Suc q" using assms(2) by simp
    then have "unat (map_sectors s) = (q + B) div B" using assms(1) by (simp add: map_ok_def B_def)
    then have "unat (map_sectors s) = Suc (q div B)" using div_add_self2 [of B q] B by simp
    then show ?thesis using True last by (simp add: q'_def)
  next
    case False
    then have r: "Suc q div B < unat (map_sectors s)" using map_sectors_room [OF assms(1), of "Suc q"] by (simp add: B_def)
    have e: "8 * Suc q + 2 = 8 * q + 10" by simp
    have q': "q' = Suc q" using False by (simp add: q'_def)
    show ?thesis
    proof (cases "q mod B = B - 1")
      case eos: True
      then show ?thesis using next_pos(2) [of q "sector_size_bits s", folded B_def] r B last g unfolding q' e by simp
    next
      case mid: False
      have "q mod B < B" using B by simp
      then have "\<not> B \<le> Suc (q mod B)" using mid by linarith
      then show ?thesis using next_pos(1) [of q "sector_size_bits s", folded B_def] mid False last g unfolding q' e by simp
    qed
  qed
  have turn: "test_loop (Suc n) s (of_nat (8 * q + 2)) (mask m) (q div B) (q mod B) =
     (if ?w < 0xFF \<and> (of_nat (8 * q + 2) :: u32) + of_nat (free_bit ! unat ?w) < num_clusters s
      then Some (of_nat (8 * q + 2) + of_nat (free_bit ! unat ?w))
      else if Suc (q mod B) \<ge> unat (sector_size s) \<or> of_nat (8 * q + 10) \<ge> num_clusters s
         then if Suc (q div B) \<ge> unat (map_sectors s) then test_loop n s 2 0 0 0 else test_loop n s (of_nat (8 * q + 10)) 0 (Suc (q div B)) 0
         else test_loop n s (of_nat (8 * q + 10)) 0 (q div B) (Suc (q mod B)))"
    by (simp only: test_turn [OF a] k base)
  show ?thesis
    unfolding find find_byte [OF assms(3)] turn nxt unfolding found unfolding c
    by (cases "?w < 0xFF \<and> 8 * q + free_bit ! unat ?w < nbits s") (simp_all only: if_True if_False option.case simp_thms)
qed

lemma find_app: "find P (xs @ ys) = (case find P xs of None \<Rightarrow> find P ys | Some x \<Rightarrow> Some x)"
  by (induction xs) auto

lemma test_loop_run:
  assumes "map_ok s" "q < map_turns s"
  shows "test_loop n s (of_nat (8 * q + 2)) 0 (q div 2 ^ sector_size_bits s) (q mod 2 ^ sector_size_bits s) =
    Some (case find (\<lambda>j. \<not> in_use s j) (concat (map (byte_bits (nbits s) 0) (cyc (map_turns s) n q))) of
       None \<Rightarrow> CLU_EOF | Some j \<Rightarrow> of_nat (j + 2))"
  using assms(2)
proof (induction n arbitrary: q)
  case 0
  then show ?case by simp
next
  case (Suc n)
  let ?q = "if q + 1 \<ge> map_turns s then 0 else q + 1"
  have q: "?q < map_turns s" using Suc.prems by auto
  have m: "mask 0 = (0 :: u8)" "(0::nat) < 8" by simp_all
  show ?case
    unfolding test_step [OF assms(1) Suc.prems m(2), of n, unfolded m(1)] Suc.IH [OF q]
    by (simp add: find_app split: option.split)
qed

lemma cyc_rest: "q < T \<Longrightarrow> cyc T (T - 1) (if q + 1 \<ge> T then 0 else q + 1) = [Suc q..<T] @ [0..<q]"
proof (cases "Suc q < T")
  case True
  have "T - 1 = T - Suc q + q" using True by simp
  then show ?thesis using cyc_append [of "Suc q" T q] cyc_low [of 0 q T] True by simp
next
  case False
  moreover assume "q < T"
  ultimately have "q = T - 1" by simp
  then show ?thesis using cyc_low [of 0 q T] by (cases T) auto
qed

text \<open>The words the search starts with.\<close>

lemma search_start:
  assumes "h < 2 ^ 32" "geometry_ok s"
  defines "c \<equiv> of_nat h :: u32"
  shows "(c AND NOT 0x7) + 2 = of_nat (8 * (h div 8) + 2)"
    "ucast (push_bit (unat (c - of_nat (8 * (h div 8) + 2) + 2)) (1 :: u32) - 1) = (mask (h mod 8) :: u8)"
    "unat (drop_bit (sector_size_bits s + 3) c) = h div 8 div 2 ^ sector_size_bits s"
    "unat (drop_bit 3 c AND sector_size_mask s) = h div 8 mod 2 ^ sector_size_bits s"
proof -
  have u: "unat c = h" unfolding c_def by (rule unat_of_nat_u32 [OF assms(1)])
  have "c AND NOT 7 = push_bit 3 (drop_bit 3 c)"
  proof -
    have e: "(7 :: u32) = mask 3" by (simp add: mask_eq_exp_minus_1)
    show ?thesis unfolding e by (rule bit_word_eqI) (auto simp: bit_and_iff bit_not_iff bit_mask_iff bit_push_bit_iff bit_drop_bit_eq)
  qed
  moreover have "drop_bit 3 c = of_nat (h div 8)"
  proof -
    have "h div 8 < 2 ^ 32" using assms(1) by simp
    from unat_of_nat_u32 [OF this] show ?thesis unfolding word_unat_eq_iff unat_drop_bit_eq u by (simp add: drop_bit_eq_div)
  qed
  ultimately have a: "c AND NOT 7 = of_nat (8 * (h div 8))" by (simp add: push_bit_eq_mult)
  then show "(c AND NOT 0x7) + 2 = of_nat (8 * (h div 8) + 2)" by simp
  have "c = of_nat (8 * (h div 8)) + of_nat (h mod 8)" unfolding of_nat_add [symmetric] by (simp add: c_def)
  then have d: "c - of_nat (8 * (h div 8) + 2) + 2 = of_nat (h mod 8)" by (simp only: of_nat_add) simp
  show "ucast (push_bit (unat (c - of_nat (8 * (h div 8) + 2) + 2)) (1 :: u32) - 1) = (mask (h mod 8) :: u8)"
  proof -
    have "unat (of_nat (h mod 8) :: u32) = h mod 8" by (rule unat_of_nat_u32) simp
    then have "push_bit (unat (c - of_nat (8 * (h div 8) + 2) + 2)) (1 :: u32) - 1 = mask (h mod 8)" unfolding d by (simp add: mask_eq_exp_minus_1)
    then show ?thesis by (simp only:) (rule bit_word_eqI, simp add: bit_ucast_iff bit_mask_iff)
  qed
  show "unat (drop_bit (sector_size_bits s + 3) c) = h div 8 div 2 ^ sector_size_bits s"
    using map_index_div [of c s] u by (simp add: map_index_def)
  show "unat (drop_bit 3 c AND sector_size_mask s) = h div 8 mod 2 ^ sector_size_bits s"
    unfolding and_size_mask [OF assms(2)] unat_drop_bit_eq u by (simp add: drop_bit_eq_div)
qed

lemma test_alloc_bitmap_run:
  assumes "h < nbits s"
  shows "run_state (test_alloc_bitmap (of_nat h)) s =
    (case find (\<lambda>j. \<not> in_use s j) ([h..<nbits s] @ [0..<8 * (h div 8)]) of None \<Rightarrow> CLU_EOF | Some j \<Rightarrow> of_nat (j + 2), s)"
proof -
  let ?B = "2 ^ sector_size_bits s :: nat" and ?q = "h div 8" and ?m = "h mod 8" and ?T = "map_turns s" and ?N = "nbits s"
  have ok: "map_ok s" "?q < ?T" "?m < 8" using nbits_pos [OF assms] by simp_all
  have h: "h < 2 ^ 32" using nbits_pos [OF assms] unat_u32 [of "num_clusters s"] by linarith
  have g: "geometry_ok s" using ok(1) by (simp add: map_ok_def)
  have T: "test_turns s = Suc (?T - 1)" using ok(2) by (simp add: test_turns_def map_turns_def)
  have q': "(if ?q + 1 \<ge> ?T then 0 else ?q + 1) < ?T" using ok(2) by auto
  have "concat (map (byte_bits ?N 0) [Suc ?q..<?T]) = [8 * Suc ?q..<?N]"
  proof -
    have "?N \<le> 8 * ?T" using ok(1) by (simp add: nbits_def map_turns_def)
    then show ?thesis using concat_byte_bits [of "Suc ?q" ?T ?N] ok(2) by (simp add: min_def)
  qed
  moreover have "concat (map (byte_bits ?N 0) [0..<?q]) = [0..<8 * ?q]"
    using concat_byte_bits [of 0 ?q ?N] assms by (simp add: min_def)
  moreover have "byte_bits ?N ?m ?q @ [8 * Suc ?q..<?N] = [h..<?N]"
  proof (cases "8 * ?q + 8 \<le> ?N")
    case True
    then show ?thesis using upt_add_eq_append [of h "8 * ?q + 8" "?N - (8 * ?q + 8)"] by (simp add: byte_bits_def add.commute)
  next
    case False
    then show ?thesis by (simp add: byte_bits_def)
  qed
  ultimately have order: "byte_bits ?N ?m ?q @ concat (map (byte_bits ?N 0) (cyc ?T (?T - 1) (if ?q + 1 \<ge> ?T then 0 else ?q + 1))) =
      [h..<?N] @ [0..<8 * ?q]"
    unfolding cyc_rest [OF ok(2)] map_append concat_append append_assoc [symmetric] by simp
  have "test_loop (test_turns s) s (of_nat (8 * ?q + 2)) (mask ?m) (?q div ?B) (?q mod ?B) =
      Some (case find (\<lambda>j. \<not> in_use s j) ([h..<?N] @ [0..<8 * ?q]) of None \<Rightarrow> CLU_EOF | Some j \<Rightarrow> of_nat (j + 2))"
    unfolding T test_step [OF ok] test_loop_run [OF ok(1) q'] order [symmetric] find_app [of _ "byte_bits ?N ?m ?q"]
    by (simp split: option.split)
  then show ?thesis
    unfolding test_alloc_bitmap_def by (simp only: run_state_bind run_gets prod.case id_apply Let_def search_start [OF h g] option.case run_state_return)
qed

text \<open>
  C11: the search for a free cluster.  \<^verbatim>\<open>test_alloc_bitmap\<close>, which goes through the map byte by byte with a lookup table, finds what a
  search bit by bit finds: the first free cluster from the hint on to the end of the volume, then from the start of the volume to
  the byte of the hint.  It reads only.  (The clusters before the hint in the hint's own byte are not looked at.)
\<close>

theorem test_alloc_bitmap_finds:
  assumes "h < nbits s"
  shows "run_state (test_alloc_bitmap (of_nat h)) s =
    (case find (\<lambda>j. \<not> in_use s j) ([h..<nbits s] @ [0..<8 * (h div 8)]) of None \<Rightarrow> CLU_EOF | Some j \<Rightarrow> of_nat (j + 2), s)"
  by (rule test_alloc_bitmap_run [OF assms])

text \<open>
  C34: a free cluster can be missed.  When the only free clusters of the volume lie before the hint in the byte of the hint,
  \<^verbatim>\<open>test_alloc_bitmap\<close> reports that there is none.
\<close>

theorem test_alloc_bitmap_misses:
  assumes "h < nbits s" "j < h" "j div 8 = h div 8" "\<not> in_use s j"
    "\<And>i. i < nbits s \<Longrightarrow> \<not> in_use s i \<Longrightarrow> i < h \<and> i div 8 = h div 8"
  shows "run_state (test_alloc_bitmap (of_nat h)) s = (CLU_EOF, s)"
proof -
  have "find (\<lambda>j. \<not> in_use s j) ([h..<nbits s] @ [0..<8 * (h div 8)]) = None"
    unfolding find_None_iff
  proof
    assume "\<exists>i. i \<in> set ([h..<nbits s] @ [0..<8 * (h div 8)]) \<and> \<not> in_use s i"
    then obtain i where i: "h \<le> i \<and> i < nbits s \<or> i < 8 * (h div 8)" "\<not> in_use s i" by auto
    then have "i < nbits s" using assms(1) by auto
    then have "i < h" "i div 8 = h div 8" using assms(5) i(2) by blast+
    then show False using i(1) by (metis div_less_iff_less_mult less_irrefl mult.commute not_le zero_less_numeral)
  qed
  then show ?thesis by (simp add: test_alloc_bitmap_run [OF assms(1)])
qed

section \<open>Counting\<close>

lemma count_loop_run:
  assumes "map_ok s" "q + n \<le> map_turns s"
  shows "count_loop n s (q div 2 ^ sector_size_bits s) (q mod 2 ^ sector_size_bits s) =
    Some (\<Sum>r = q..<q + n. popcount 8 (unat (map_byte s r)))"
  using assms(2)
proof (induction n arbitrary: q)
  case 0
  then show ?case by simp
next
  case (Suc n)
  let ?b = "sector_size_bits s"
  have g: "unat (sector_size s) = 2 ^ ?b" using assms(1) by (simp add: map_ok_def unat_sector_size)
  have "q div 2 ^ ?b < unat (map_sectors s)" using map_sectors_room [OF assms(1), of q] Suc.prems by simp
  then obtain a where a: "vol_amap s = Some a" "a (q div 2 ^ ?b) = Some (map_sector s (q div 2 ^ ?b))"
    using assms(1) by (auto simp: map_ok_def)
  have u: "used_bit ! unat (map_byte s q) = popcount 8 (unat (map_byte s q))"
    using unsigned_less [where ?'a = nat and w = "map_byte s q"] by (intro used_bit_nth) simp
  have IH: "count_loop n s (Suc q div 2 ^ ?b) (Suc q mod 2 ^ ?b) = Some (\<Sum>r = Suc q..<Suc q + n. popcount 8 (unat (map_byte s r)))"
    using Suc.IH [of "Suc q"] Suc.prems by simp
  have nx: "(if q mod 2 ^ ?b + 1 \<ge> unat (sector_size s) then count_loop n s (q div 2 ^ ?b + 1) 0
      else count_loop n s (q div 2 ^ ?b) (q mod 2 ^ ?b + 1)) = count_loop n s (Suc q div 2 ^ ?b) (Suc q mod 2 ^ ?b)"
  proof (cases "q mod 2 ^ ?b = 2 ^ ?b - 1")
    case True
    then show ?thesis using next_pos(2) [OF True] g by simp
  next
    case False
    have "q mod 2 ^ ?b < 2 ^ ?b" by simp
    then have "\<not> 2 ^ ?b \<le> q mod 2 ^ ?b + 1" using False by linarith
    then show ?thesis using next_pos(1) [OF False] g by simp
  qed
  have "(\<Sum>r = q..<q + Suc n. popcount 8 (unat (map_byte s r))) =
      popcount 8 (unat (map_byte s q)) + (\<Sum>r = Suc q..<Suc q + n. popcount 8 (unat (map_byte s r)))"
    by (simp add: sum.atLeast_Suc_lessThan)
  then show ?case
    unfolding count_loop.simps a option.case nx IH using u by (simp add: map_byte_def)
qed

lemma popcount_sum:
  "(\<Sum>r = 0..<n. popcount 8 (unat (f r :: u8))) = card {j. j < 8 * n \<and> bit (f (j div 8)) (j mod 8)}"
proof (induction n)
  case 0
  then show ?case by simp
next
  case (Suc n)
  have "{j. j < 8 * Suc n \<and> bit (f (j div 8)) (j mod 8)} =
      {j. j < 8 * n \<and> bit (f (j div 8)) (j mod 8)} \<union> (\<lambda>i. 8 * n + i) ` {i. i < 8 \<and> bit (unat (f n)) i}" (is "?A = ?B \<union> ?C")
  proof (intro set_eqI iffI)
    fix j assume "j \<in> ?A"
    then have j: "j < 8 * Suc n" "bit (f (j div 8)) (j mod 8)" by simp_all
    show "j \<in> ?B \<union> ?C"
    proof (cases "j < 8 * n")
      case False
      then have d: "j div 8 = n" using j(1) by (intro div_nat_eqI) simp_all
      then have "j = 8 * n + j mod 8" using div_mult_mod_eq [of j 8] by simp
      moreover have "j mod 8 \<in> {i. i < 8 \<and> bit (unat (f n)) i}" using j(2) d by (simp add: bit_unsigned_iff)
      ultimately show ?thesis by blast
    qed (use j in simp)
  next
    fix j assume "j \<in> ?B \<union> ?C"
    then show "j \<in> ?A" by (auto simp: bit_unsigned_iff div_add1_eq)
  qed
  moreover have "card (?B \<union> ?C) = card ?B + card ?C" by (rule card_Un_disjoint) auto
  moreover have "card ?C = card {i. i < 8 \<and> bit (unat (f n)) i}" by (rule card_image) (simp add: inj_on_def)
  ultimately show ?case using Suc.IH popcount_card [of 8 "unat (f n)"] by simp
qed

text \<open>
  The count of used clusters.  \<^verbatim>\<open>exfat_count_used_clusters\<close> returns the number of the used clusters of the volume and, when the last
  byte of the map holds bits behind the last cluster, of those of these bits that are set too.
\<close>

theorem exfat_count_used_clusters_correct:
  assumes "map_ok s"
  shows "run_state exfat_count_used_clusters s = (int (card {j. in_use s j} +
    card {j. nbits s \<le> j \<and> j < 8 * map_turns s \<and> bit (map_byte s (j div 8)) (j mod 8)}), s)"
proof -
  let ?b = "\<lambda>j. bit (map_byte s (j div 8)) (j mod 8)"
  have le: "nbits s \<le> 8 * map_turns s" using assms by (simp add: nbits_def map_turns_def)
  let ?A = "{j. in_use s j}" and ?B = "{j. nbits s \<le> j \<and> j < 8 * map_turns s \<and> ?b j}"
  have "{j. j < 8 * map_turns s \<and> ?b j} = ?A \<union> ?B" using le by (auto simp: in_use_def)
  moreover have "card (?A \<union> ?B) = card ?A + card ?B"
  proof (rule card_Un_disjoint)
    show "finite ?A" by (rule finite_subset [of _ "{..<nbits s}"]) (auto simp: in_use_def)
    show "?A \<inter> ?B = {}" by (auto simp: in_use_def)
  qed simp
  moreover have "test_turns s = map_turns s" by (simp add: test_turns_def map_turns_def)
  ultimately show ?thesis
    using count_loop_run [OF assms, of 0 "map_turns s"] popcount_sum [of "map_byte s" "map_turns s"]
    by (simp add: exfat_count_used_clusters_def)
qed

section \<open>On the sample volume\<close>

lemma map_ok_ready: "(\<And>b. length (bs b) = 512) \<Longrightarrow> map_ok (ready EXFAT bs)"
  by (simp add: map_ok_def ready_device geometry_ok_def map_turns_def map_sector_def START_SECTOR_def out_of_range_def word_le_nat_alt)

lemma nbits_ready: "(\<And>b. length (bs b) = 512) \<Longrightarrow> nbits (ready EXFAT bs) = 100"
  by (simp add: nbits_def map_ok_ready)

text \<open>A map in which only cluster 2 is free.\<close>

definition full_map :: "u32 \<Rightarrow> u8 list" where
  "full_map = zeros(12 := (replicate 512 0xFF)[0 := 0xFE])"

lemma full_map_len: "length (full_map b) = 512"
  by (simp add: full_map_def)

lemma bit_FF: "j < 8 \<Longrightarrow> bit (0xFF :: u8) j" "j < 8 \<Longrightarrow> bit (0xFE :: u8) j \<longleftrightarrow> j \<noteq> 0"
  by (auto simp: numeral_eq_Suc less_Suc_eq)

lemma full_map_in_use: "j < 100 \<Longrightarrow> in_use (ready EXFAT full_map) j \<longleftrightarrow> j \<noteq> 0"
proof -
  assume j: "j < 100"
  then have "map_byte (ready EXFAT full_map) (j div 8) = (if j div 8 = 0 then 0xFE else 0xFF)"
    by (simp add: map_byte_def map_sector_def START_SECTOR_def full_map_def)
  then have "in_use (ready EXFAT full_map) j \<longleftrightarrow> bit (if j div 8 = 0 then 0xFE else 0xFF :: u8) (j mod 8)"
    using j unfolding in_use_def nbits_ready [of full_map, OF full_map_len] by simp
  also have "\<dots> \<longleftrightarrow> j \<noteq> 0" using bit_FF(1) [of "j mod 8"] bit_FF(2) [of "j mod 8"] by (auto simp only: split: if_splits) auto
  finally show ?thesis .
qed

lemma alloc_bitmap_refines_set_witness:
  "\<exists>t. run_state (set_alloc_bitmap (of_nat 9)) (ready EXFAT zeros) = (FFS_SUCCESS, t) \<and> in_use t 9 \<and> \<not> in_use t 10"
proof -
  have "\<not> in_use (ready EXFAT zeros) 10" by (simp add: in_use_def map_byte_def)
  then show ?thesis using alloc_bitmap_refines_set [of 9 "ready EXFAT zeros"] nbits_ready [of zeros] by (auto simp: set_eq_iff)
qed

lemma test_alloc_bitmap_finds_witness:
  "run_state (test_alloc_bitmap (of_nat 0)) (ready EXFAT full_map) = (2, ready EXFAT full_map)"
  using test_alloc_bitmap_finds [of 0 "ready EXFAT full_map"] full_map_in_use [of 0]
  by (simp add: nbits_ready full_map_len upt_conv_Cons)

lemma test_alloc_bitmap_misses_witness:
  "run_state (test_alloc_bitmap (of_nat 1)) (ready EXFAT full_map) = (CLU_EOF, ready EXFAT full_map)"
proof (rule test_alloc_bitmap_misses [of 1 _ 0])
  fix i assume "i < nbits (ready EXFAT full_map)" "\<not> in_use (ready EXFAT full_map) i"
  then have "i = 0" using full_map_in_use [of i] by (simp add: nbits_ready full_map_len)
  then show "i < 1 \<and> i div 8 = 1 div 8" by simp
qed (use full_map_in_use [of 0] in \<open>simp_all add: nbits_ready full_map_len\<close>)

lemma exfat_count_used_clusters_correct_witness:
  "fst (run_state exfat_count_used_clusters (ready EXFAT zeros)) = 0"
proof -
  have "\<not> in_use (ready EXFAT zeros) j" for j by (simp add: in_use_def map_byte_def)
  moreover have "map_byte (ready EXFAT zeros) q = 0" for q by (simp add: map_byte_def)
  ultimately show ?thesis using exfat_count_used_clusters_correct [OF map_ok_ready, of zeros] by simp
qed

end
