(* ===== verification/DirScan.thy ===== *)
theory DirScan
  imports DirSpec
begin

text \<open>
  The functions of \<^verbatim>\<open>exfat_core.c\<close> that go through a whole directory read its entries in order, over the sectors and the
  clusters, until the body of their loop returns: \<open>scan_dir\<close> is a fold over the entries.  The contract of a body is the
  locale \<open>dir_search\<close>; counting, the test for emptiness and the search for a name are its instances.
\<close>

section \<open>Steps of a search\<close>

text \<open>A search reads; beside the caches it may change only the hint for the next search for room.\<close>

definition search_step :: "vol \<Rightarrow> vol \<Rightarrow> bool" where
  "search_step s t \<longleftrightarrow> vol_step (s\<lparr>hint_uentry := hint_uentry t\<rparr>) t \<and> fat_val t = fat_val s \<and> bufs t = bufs s"

lemma hint_neutral [simp]:
  "vol_ok (s\<lparr>hint_uentry := h\<rparr>) = vol_ok s" "fat_val (s\<lparr>hint_uentry := h\<rparr>) = fat_val s"
  "chain_clusters (s\<lparr>hint_uentry := h\<rparr>) = chain_clusters s" "entry_at (s\<lparr>hint_uentry := h\<rparr>) = entry_at s"
  "entry_room (s\<lparr>hint_uentry := h\<rparr>) = entry_room s" "is_dir ch xs (s\<lparr>hint_uentry := h\<rparr>) = is_dir ch xs s"
proof -
  let ?t = "s\<lparr>hint_uentry := h\<rparr>"
  have c: "cache w ?t = cache w s" for w by (cases w) simp_all
  have o: "device_ok ?t = device_ok s" "geometry_ok ?t = geometry_ok s" "loc_ok ?t = loc_ok s" "is_cluster ?t = is_cluster s"
    "fat_sector ?t = fat_sector s" "layout_ok ?t = layout_ok s" "cache_ok w ?t = cache_ok w s" for w
    by (simp_all add: device_ok_def geometry_ok_def loc_ok_def fat_len_def is_cluster_def fat_sector_def layout_ok_def cache_ok_def
        out_of_range_def fun_eq_iff c)
  show "vol_ok ?t = vol_ok s" by (simp add: vol_ok_def clusters_ok_def fat_ok_def out_of_range_def o)
  have "fat_byte ?t = fat_byte s" by (rule ext) (simp add: fat_byte_def o)
  then show v: "fat_val ?t = fat_val s" by (intro ext) (simp add: fat_val_def)
  show c: "chain_clusters ?t = chain_clusters s" by (simp add: chain_clusters_def v o fun_eq_iff)
  show "entry_at ?t = entry_at s" "entry_room ?t = entry_room s"
    by (simp_all add: entry_at_def entry_sector_def entry_off_def entry_room_def byte_sector_def byte_room_def clu_sector_def
        START_SECTOR_def fun_eq_iff)
  show "is_dir ch xs ?t = is_dir ch xs s" using c \<open>vol_ok ?t = vol_ok s\<close> by (simp add: is_dir_def)
qed

lemma vol_step_hint: "vol_step s t \<Longrightarrow> vol_step (s\<lparr>hint_uentry := h\<rparr>) (t\<lparr>hint_uentry := h\<rparr>)"
proof -
  assume st: "vol_step s t"
  then have "vol_ok t" "locks_kept (buf_cache s) (buf_cache t)" by (simp_all add: vol_step_def)
  moreover have "t\<lparr>hint_uentry := h\<rparr> = s\<lparr>hint_uentry := h, FAT_cache := FAT_cache t, buf_cache := buf_cache t, env_pos := env_pos t,
      dirty := dirty t, bufs := bufs t\<rparr>" by (rule vol_step_eq [OF st]) simp
  moreover have "vol_ok (t\<lparr>hint_uentry := h\<rparr>)" using calculation(1) by simp
  ultimately show ?thesis unfolding vol_step_def by (intro conjI) simp_all
qed

lemma search_step_refl: "vol_ok s \<Longrightarrow> search_step s s"
  by (simp add: search_step_def vol_step_refl)

lemma search_step_trans:
  assumes "search_step s t" "search_step t u"
  shows "search_step s u"
proof -
  have "vol_step (s\<lparr>hint_uentry := hint_uentry u\<rparr>) (t\<lparr>hint_uentry := hint_uentry u\<rparr>)"
    using vol_step_hint [of "s\<lparr>hint_uentry := hint_uentry t\<rparr>" t "hint_uentry u"] assms(1) by (simp add: search_step_def)
  then show ?thesis using assms vol_step_trans unfolding search_step_def by auto
qed

lemma search_step_hint: "vol_ok s \<Longrightarrow> search_step s (s\<lparr>hint_uentry := h\<rparr>)"
  by (simp add: search_step_def vol_step_refl)

lemma search_step_vol:
  assumes "vol_step s t" "fat_val t = fat_val s" "bufs t = bufs s"
  shows "search_step s t"
proof -
  have "s\<lparr>hint_uentry := hint_uentry t\<rparr> = s" by (rule vol_step_eq [OF assms(1)]) simp
  then show ?thesis using assms by (simp add: search_step_def)
qed

lemma search_step_fields:
  assumes "search_step s t"
  shows "vol_ok t" "fs_func t = fs_func s" "vol_type t = vol_type s" "root_dir t = root_dir s" "dev_ejected t = dev_ejected s"
    "dentries_per_clu t = dentries_per_clu s" "dentries_in_root t = dentries_in_root s" "cluster_size_bits t = cluster_size_bits s"
    "entry_at t = entry_at s" "entry_room t = entry_room s" "is_dir ch xs s \<Longrightarrow> is_dir ch xs t" "ub t = ub s"
proof -
  define h where "h = hint_uentry t"
  let ?s = "s\<lparr>hint_uentry := h\<rparr>"
  have v: "vol_step ?s t" and b: "bufs t = bufs ?s" "fat_val t = fat_val ?s" using assms by (simp_all add: search_step_def h_def)
  show "vol_ok t" by (rule vol_step_ok [OF v])
  show "fs_func t = fs_func s" "vol_type t = vol_type s" "root_dir t = root_dir s" "dev_ejected t = dev_ejected s"
    "dentries_per_clu t = dentries_per_clu s" "dentries_in_root t = dentries_in_root s" "cluster_size_bits t = cluster_size_bits s"
    "ub t = ub s"
    by (rule vol_step_eq [OF v]; simp)+
  show "entry_at t = entry_at s" using entry_at_same [OF v b(1)] by (auto simp: fun_eq_iff)
  show "entry_room t = entry_room s" using vol_step_dir(5) [OF v] by (auto simp: fun_eq_iff)
  show "is_dir ch xs t" if "is_dir ch xs s"
    using dir_step_is_dir [OF dir_step_same [OF v b(2,1), of xs], of ch] that by simp
qed

section \<open>The clusters of a directory\<close>

definition sized :: "CHAIN_T \<Rightarrow> u32 list \<Rightarrow> bool" where
  "sized ch xs \<longleftrightarrow> (chain_flags ch = 3 \<longrightarrow> chain_size ch = int (length xs))"

text \<open>A way to the next cluster leads through the clusters of the directory, and to the end mark behind the last one.\<close>

definition advances :: "(CHAIN_T \<Rightarrow> CHAIN_T option fsM) \<Rightarrow> u8 \<Rightarrow> bool" where
  "advances nxt fl \<longleftrightarrow> (\<forall>ch c cs s. is_dir ch (c # cs) s \<and> sized ch (c # cs) \<and> chain_flags ch = fl \<longrightarrow>
     (\<exists>ch' t. run_state (nxt ch) s = (Some ch', t) \<and> search_step s t \<and> chain_flags ch' = fl \<and>
       (if cs = [] then chain_dir ch' = CLU_EOF else is_dir ch' cs t \<and> sized ch' cs)))"

lemma fat_next_run:
  assumes "is_dir ch (c # cs) s" "chain_flags ch \<noteq> 3"
  shows "\<exists>ch' t. run_state (fat_next ch) s = (Some ch', t) \<and> search_step s t \<and> chain_flags ch' = chain_flags ch \<and>
    (if cs = [] then chain_dir ch' = CLU_EOF else is_dir ch' cs t)"
proof -
  have v: "vol_ok s" "clusters_ok s" using assms(1) by (simp_all add: is_dir_def vol_ok_def)
  have c: "is_cluster s c" "chain_dir ch = c" "chain (fat_val s) c (c # cs)" "distinct cs" "\<forall>x\<in>set cs. is_cluster s x"
    using assms by (simp_all add: is_dir_def chain_clusters_def)
  then have n: "chain (fat_val s) (fat_val s c) cs" by simp
  obtain t where t: "run_state (FAT_read c) s = (Some (fat_val s c), t)" "fat_step (bufs s) s t"
    by (rule clu_read_step [OF v(2) c(1)])
  note f = fat_step_vol [OF v(1) t(2)]
  let ?ch = "ch\<lparr>chain_dir := fat_val s c\<rparr>"
  have "cs = [] \<Longrightarrow> fat_val s c = CLU_EOF" using n by simp
  moreover have "is_dir ?ch cs t" if "cs \<noteq> []"
  proof -
    have "chain_dir ?ch = hd cs" using that n by (cases cs) simp_all
    then have "chain_clusters s ?ch cs" using c n assms(2) that by (simp add: chain_clusters_def)
    then show ?thesis using chain_clusters_vals [OF f(1)] f(2) vol_step_ok [OF f(1)] by (simp add: is_dir_def)
  qed
  ultimately show ?thesis using t(1) search_step_vol [OF f] c(2) by (auto simp: fat_next_def)
qed

lemma fat_next_advances: "fl \<noteq> 3 \<Longrightarrow> advances fat_next fl"
  using fat_next_run by (fastforce simp: advances_def sized_def)

lemma chain_next_advances: "advances chain_next fl"
  unfolding advances_def
proof (intro allI impI, elim conjE)
  fix ch c cs s
  assume d: "is_dir ch (c # cs) s" and sz: "sized ch (c # cs)" and fl: "chain_flags ch = fl"
  show "\<exists>ch' t. run_state (chain_next ch) s = (Some ch', t) \<and> search_step s t \<and> chain_flags ch' = fl \<and>
    (if cs = [] then chain_dir ch' = CLU_EOF else is_dir ch' cs t \<and> sized ch' cs)"
  proof (cases "chain_flags ch = 3")
    case False
    then have "chain_next ch = fat_next ch" by (simp add: chain_next_def)
    then show ?thesis using fat_next_advances [of fl, unfolded advances_def] d sz fl False by auto
  next
    case True
    have n: "\<forall>i<length (c # cs). (c # cs) ! i = c + of_nat i" and x: "chain_dir ch = c" "distinct cs" "\<forall>x\<in>set cs. is_cluster s x"
      using d True by (auto simp: is_dir_def chain_clusters_def)
    have i: "\<forall>i<length cs. cs ! i = c + 1 + of_nat i" using n [rule_format, of "Suc i" for i] by (auto simp: add.assoc)
    have v: "vol_ok s" using d by (simp add: is_dir_def)
    have size: "chain_size ch = int (length cs) + 1" using sz True by (simp add: sized_def)
    show ?thesis
    proof (cases "cs = []")
      case True
      then show ?thesis using size \<open>chain_flags ch = 3\<close> fl search_step_refl [OF v] by (simp add: chain_next_def)
    next
      case False
      let ?ch = "ch\<lparr>chain_size := chain_size ch - 1, chain_dir := chain_dir ch + 1\<rparr>"
      have "hd cs = c + 1" using i False by (simp add: hd_conv_nth)
      then have "is_dir ?ch cs s" using v x i False \<open>chain_flags ch = 3\<close> by (simp add: is_dir_def chain_clusters_def)
      moreover have "0 < length cs" using False by simp
      then have "0 < chain_size ch - 1" unfolding size by simp
      ultimately show ?thesis using size \<open>chain_flags ch = 3\<close> fl search_step_refl [OF v] False
        by (auto simp: chain_next_def sized_def)
    qed
  qed
qed

text \<open>The entries behind those of the first cluster are those of the rest.\<close>

lemma entry_at_tail:
  assumes "vol_ok s" "cs \<noteq> []"
  shows "entry_at s (c # cs) (2 ^ cluster_size_bits s div 32 + i) = entry_at s cs i"
    "entry_room s (c # cs) = 2 ^ cluster_size_bits s div 32 + entry_room s cs"
proof -
  let ?c = "cluster_size_bits s" and ?b = "sector_size_bits s"
  note z = vol_sizes [OF assms(1)]
  have "(2 :: nat) ^ ?c = 2 ^ (5 + (?c - 5))" using z(2,4) by simp
  then have c: "(2 :: nat) ^ ?c = 32 * 2 ^ (?c - 5)" by (simp add: power_add)
  have b: "(2 :: nat) ^ ?c = 2 ^ ?b * 2 ^ sectors_per_clu_bits s" by (simp add: z(2) power_add)
  have p: "32 * (2 ^ ?c div 32 + i) = 2 ^ ?c + 32 * i" unfolding c by simp
  have "(2 ^ ?c + 32 * i) div 2 ^ ?c = Suc (32 * i div 2 ^ ?c)" by (simp add: div_add_self1)
  then have "byte_sector s (c # cs) (2 ^ ?c + 32 * i) = byte_sector s cs (32 * i)" using assms(2) by (simp add: byte_sector_def)
  moreover have "(2 ^ ?c + 32 * i) mod 2 ^ ?b = 32 * i mod 2 ^ ?b" unfolding b by simp
  ultimately show "entry_at s (c # cs) (2 ^ ?c div 32 + i) = entry_at s cs i"
    by (simp only: entry_at_def entry_sector_def entry_off_def p)
  show "entry_room s (c # cs) = 2 ^ ?c div 32 + entry_room s cs"
    using assms(2) unfolding entry_room_def byte_room_def by (simp add: c)
qed

section \<open>The contract of a search\<close>

text \<open>Reading entries until the body returns; the fold over a list of entries, and the entries it may meet.\<close>

fun walk :: "('e \<Rightarrow> 'b \<Rightarrow> ('r, 'b) ctl) \<Rightarrow> 'e list \<Rightarrow> 'b \<Rightarrow> ('r, 'b) ctl" where
  "walk f [] b = Cont b"
| "walk f (e # es) b = (case f e b of Cont b' \<Rightarrow> walk f es b' | x \<Rightarrow> x)"

fun safe :: "('e \<Rightarrow> 'b \<Rightarrow> ('r, 'b) ctl) \<Rightarrow> ('e \<Rightarrow> 'b \<Rightarrow> bool) \<Rightarrow> 'e list \<Rightarrow> 'b \<Rightarrow> bool" where
  "safe f ok [] b \<longleftrightarrow> True"
| "safe f ok (e # es) b \<longleftrightarrow> ok e b \<and> (case f e b of Cont b' \<Rightarrow> safe f ok es b' | _ \<Rightarrow> True)"

lemma walk_append: "walk f (xs @ ys) b = (case walk f xs b of Cont b' \<Rightarrow> walk f ys b' | x \<Rightarrow> x)"
  by (induction xs arbitrary: b) (auto split: ctl.splits)

lemma safe_append: "safe f ok (xs @ ys) b \<longleftrightarrow> safe f ok xs b \<and> (case walk f xs b of Cont b' \<Rightarrow> safe f ok ys b' | _ \<Rightarrow> True)"
  by (induction xs arbitrary: b) (auto split: ctl.splits)

lemma safe_True: "safe f (\<lambda>_ _. True) es b"
  by (induction es arbitrary: b) (auto split: ctl.splits)

abbreviation dir_entries :: "vol \<Rightarrow> u32 list \<Rightarrow> u8 list list" where
  "dir_entries s xs \<equiv> map (entry_at s xs) [0..<entry_room s xs]"

text \<open>
  A directory that can be searched: its size, when it has no chain, and the numbers of entries in a cluster and in the root
  directory agree with the volume.  \<open>dir_list\<close> are its entries.
\<close>

definition scannable :: "CHAIN_T \<Rightarrow> u32 list \<Rightarrow> vol \<Rightarrow> bool" where
  "scannable ch xs s \<longleftrightarrow> is_dir ch xs s \<and> sized ch xs \<and> \<not> dev_ejected s \<and>
     (if xs = [] then 0 \<le> sint (dentries_in_root s) \<and> sint (dentries_in_root s) \<le> int (entry_room s [])
      else sint (dentries_per_clu s) = int (2 ^ cluster_size_bits s div 32))"

definition dir_list :: "vol \<Rightarrow> u32 list \<Rightarrow> u8 list list" where
  "dir_list s xs = (if xs = [] then map (entry_at s []) [0..<nat (sint (dentries_in_root s))] else dir_entries s xs)"

text \<open>What a search returns whose entries \<open>w\<close> is the fold over: what the body returned, or \<open>done\<close> at the end.\<close>

definition finishes :: "('a \<Rightarrow> 'b \<Rightarrow> bool) \<Rightarrow> ('a \<Rightarrow> 'r) \<Rightarrow> ('r, 'b) ctl \<Rightarrow> 'r \<Rightarrow> bool" where
  "finishes R done w r \<longleftrightarrow> (case w of Ret r' \<Rightarrow> r = r' | Cont b \<Rightarrow> (\<exists>a. R a b \<and> r = done a) | Brk _ \<Rightarrow> False)"

text \<open>
  The body of a search: from a state that is \<open>good\<close>, at an entry it is \<open>ok\<close> to meet, it does what \<open>pure\<close> says of the entry
  alone, changing no more than the hint.  \<open>R\<close> relates its state to the state of \<open>pure\<close>.
\<close>

locale dir_search =
  fixes good :: "vol \<Rightarrow> bool"
    and body :: "CHAIN_T \<Rightarrow> u8 list \<Rightarrow> 'a \<Rightarrow> ('r, 'a) ctl fsM"
    and pure :: "u8 list \<Rightarrow> 'b \<Rightarrow> ('r, 'b) ctl"
    and ok :: "u8 list \<Rightarrow> 'b \<Rightarrow> bool"
    and R :: "'a \<Rightarrow> 'b \<Rightarrow> bool"
  assumes good_step: "good s \<Longrightarrow> search_step s t \<Longrightarrow> good t"
    and body_spec: "good s \<Longrightarrow> R a b \<Longrightarrow> ok e b \<Longrightarrow>
      \<exists>x h. run_state (body ch e a) s = (x, s\<lparr>hint_uentry := h\<rparr>) \<and> rel_ctl (=) R x (pure e b)"
    and no_break: "pure e b \<noteq> Brk c"
begin

lemma walk_no_break: "walk pure es b \<noteq> Brk c"
  by (induction es arbitrary: b) (auto simp: no_break split: ctl.splits)

lemma entries_loop_run:
  assumes "is_dir ch xs s" "good s" "R a b" "i + n \<le> entry_room s xs" "safe pure ok (map (entry_at s xs) [i..<i + n]) b"
  shows "\<exists>x t. run_state (entries_loop n ch (int i) fail body a) s = (x, t) \<and> search_step s t \<and>
    rel_ctl (=) R x (walk pure (map (entry_at s xs) [i..<i + n]) b)"
  using assms
proof (induction n arbitrary: i a b s)
  case 0
  then show ?case using search_step_refl by (auto simp: is_dir_def)
next
  case (Suc n)
  have u: "[i..<i + Suc n] = i # [Suc i..<Suc i + n]" by (simp add: upt_conv_Cons del: upt_Suc)
  have v: "vol_ok s" "chain_clusters s ch xs" "i < entry_room s xs" using Suc.prems(1,4) by (simp_all add: is_dir_def)
  obtain t y where t: "run_state (get_entry_in_dir ch (int i)) s = (Some ((entry_sector s xs i, entry_off s i), entry_sector s xs i), t)"
    "vol_step s t" "fat_val t = fat_val s" "bufs t = bufs s" using get_entry_in_dir_run [OF v] by metis
  have st: "search_step s t" by (rule search_step_vol [OF t(2-4)])
  have e: "run_state (read_ep (entry_sector s xs i, entry_off s i)) t = (entry_at s xs i, t)"
    by (simp add: read_ep_def entry_at_def t(4))
  have ok: "ok (entry_at s xs i) b" using Suc.prems(5) unfolding u by simp
  obtain x h where x: "run_state (body ch (entry_at s xs i) a) t = (x, t\<lparr>hint_uentry := h\<rparr>)" "rel_ctl (=) R x (pure (entry_at s xs i) b)"
    using body_spec [OF good_step [OF Suc.prems(2) st] Suc.prems(3) ok] by blast
  let ?t = "t\<lparr>hint_uentry := h\<rparr>"
  have st2: "search_step s ?t" using search_step_trans [OF st search_step_hint] search_step_fields(1) [OF st] by blast
  show ?case
  proof (cases "pure (entry_at s xs i) b")
    case (Cont b')
    then obtain a' where a': "x = Cont a'" "R a' b'" using x(2) by (cases x) auto
    note f = search_step_fields [OF st2]
    have d: "is_dir ch xs ?t" using Suc.prems(1) f(11) by blast
    have g: "good ?t" by (rule good_step [OF Suc.prems(2) st2])
    have r: "Suc i + n \<le> entry_room ?t xs" using Suc.prems(4) f(10) by simp
    have sf: "safe pure ok (map (entry_at ?t xs) [Suc i..<Suc i + n]) b'"
      using Suc.prems(5) Cont unfolding u f(9) by (simp del: upt_Suc)
    from Suc.IH [OF d g a'(2) r sf, unfolded f(9)] obtain x' t' where
      "run_state (entries_loop n ch (int (Suc i)) fail body a') ?t = (x', t')" "search_step ?t t'"
      "rel_ctl (=) R x' (walk pure (map (entry_at s xs) [Suc i..<Suc i + n]) b')" by blast
    then show ?thesis using t(1) e x(1) a'(1) Cont search_step_trans [OF st2] unfolding u
      by (auto simp: add.commute simp del: upt_Suc)
  next
    case (Ret r)
    then have "x = Ret r" using x(2) by (cases x) auto
    then show ?thesis using t(1) e x(1) Ret st2 unfolding u by (auto simp del: upt_Suc)
  qed (simp add: no_break)
qed

lemma clusters_loop_run:
  assumes "advances nxt fl" "chain_flags ch = fl" "is_dir ch xs s" "sized ch xs" "xs \<noteq> []" "good s" "\<not> dev_ejected s" "R a b"
    "safe pure ok (dir_entries s xs) b" "length xs < m" "dpc = 2 ^ cluster_size_bits s div 32"
  shows "\<exists>r t. run_state (clusters_loop m False (int dpc) (\<lambda>_. 0) nxt fail body broken fin ch a) s = (r, t) \<and> search_step s t \<and>
    finishes R fin (walk pure (dir_entries s xs) b) r"
  using assms
proof (induction xs arbitrary: m ch s a b)
  case Nil
  then show ?case by simp
next
  case (Cons c cs)
  obtain m' where m: "m = Suc m'" "length cs < m'" using Cons.prems(10) by (cases m) auto
  have v: "vol_ok s" "is_cluster s c" "chain_dir ch = c" using Cons.prems(3) by (simp_all add: is_dir_def chain_clusters_def)
  have room: "entry_room s (c # cs) = dpc + (if cs = [] then 0 else entry_room s cs)"
    using entry_at_tail(2) [OF v(1), of cs c] Cons.prems(11) by (auto simp: entry_room_def byte_room_def)
  have split: "dir_entries s (c # cs) = map (entry_at s (c # cs)) [0..<dpc] @ (if cs = [] then [] else dir_entries s cs)"
  proof (cases "cs = []")
    case False
    then have "[0..<entry_room s (c # cs)] = [0..<dpc] @ map (\<lambda>i. i + dpc) [0..<entry_room s cs]"
      by (simp only: room if_False upt_add_eq_append [OF le0] map_add_upt add.commute)
    then show ?thesis using False entry_at_tail(1) [OF v(1) False, of c] Cons.prems(11) by (simp add: comp_def add.commute)
  next
    case True
    then have "entry_room s [c] = dpc" using room by simp
    then show ?thesis using True by simp
  qed
  have "safe pure ok (map (entry_at s (c # cs)) [0..<0 + dpc]) b" using Cons.prems(9) unfolding split by (simp add: safe_append)
  from entries_loop_run [where fail = fail, OF Cons.prems(3,6,8) _ this] obtain x t where
    x: "run_state (entries_loop dpc ch 0 fail body a) s = (x, t)" "search_step s t"
    "rel_ctl (=) R x (walk pure (map (entry_at s (c # cs)) [0..<dpc]) b)" using room by auto
  note f = search_step_fields [OF x(2)]
  have ne: "chain_dir ch \<noteq> CLU_EOF" using is_cluster_not_EOF v by simp
  show ?case
  proof (cases "walk pure (map (entry_at s (c # cs)) [0..<dpc]) b")
    case (Ret r)
    then have "x = Ret r" using x(3) by (cases x) auto
    then show ?thesis using x Ret ne Cons.prems(7) unfolding split m by (auto simp: finishes_def walk_append)
  next
    case (Brk b')
    then show ?thesis using walk_no_break by auto
  next
    case (Cont b')
    then obtain a' where a': "x = Cont a'" "R a' b'" using x(3) by (cases x) auto
    have "is_dir ch (c # cs) t" using f(11) Cons.prems(3) by blast
    then obtain ch' u where n: "run_state (nxt ch) t = (Some ch', u)" "search_step t u" "chain_flags ch' = fl"
      "if cs = [] then chain_dir ch' = CLU_EOF else is_dir ch' cs u \<and> sized ch' cs"
      using Cons.prems(1,2,4) unfolding advances_def by blast
    have su: "search_step s u" by (rule search_step_trans [OF x(2) n(2)])
    note fu = search_step_fields [OF su]
    have run: "run_state (clusters_loop m False (int dpc) (\<lambda>_. 0) nxt fail body broken fin ch a) s =
        run_state (clusters_loop m' False (int dpc) (\<lambda>_. 0) nxt fail body broken fin ch' a') u"
      using x(1) a'(1) n(1) ne Cons.prems(7) unfolding m by simp
    show ?thesis
    proof (cases "cs = []")
      case True
      then obtain m'' where "m' = Suc m''" using m(2) by (cases m') auto
      then show ?thesis using run True n(4) su Cont a'(2) unfolding split by (auto simp: finishes_def walk_append)
    next
      case False
      have sf: "safe pure ok (dir_entries u cs) b'" using Cons.prems(9) Cont False unfolding split fu by (simp add: safe_append)
      have "is_dir ch' cs u" "sized ch' cs" "good u" "\<not> dev_ejected u" "dpc = 2 ^ cluster_size_bits u div 32"
        using n(4) False good_step [OF Cons.prems(6) su] Cons.prems(7,11) fu by simp_all
      from Cons.IH [OF Cons.prems(1) n(3) this(1,2) False this(3,4) a'(2) sf m(2) this(5), unfolded fu] obtain r u' where
        "run_state (clusters_loop m' False (int dpc) (\<lambda>_. 0) nxt fail body broken fin ch' a') u = (r, u')" "search_step u u'"
        "finishes R fin (walk pure (dir_entries s cs) b') r" by blast
      then show ?thesis using run search_step_trans [OF su] Cont False unfolding split by (auto simp: finishes_def walk_append)
    qed
  qed
qed

lemma scan_run:
  assumes "advances nxt (chain_flags ch)" "scannable ch xs s" "good s" "R a b" "safe pure ok (dir_list s xs) b"
  shows "\<exists>r t. run_state (scan_dir ch nxt fail body broken fin a) s = (r, t) \<and> search_step s t \<and>
    finishes R fin (walk pure (dir_list s xs) b) r"
proof (cases "xs = []")
  case True
  let ?n = "nat (sint (dentries_in_root s))"
  have d: "is_dir ch [] s" "?n \<le> entry_room s []" "int ?n = sint (dentries_in_root s)" "\<not> dev_ejected s"
    using assms(2) True by (simp_all add: scannable_def nat_le_iff)
  have r: "chain_dir ch = 0" using d(1) by (simp add: is_dir_def chain_clusters_def)
  have l: "dir_list s xs = map (entry_at s []) [0..<?n]" using True by (simp add: dir_list_def)
  have "safe pure ok (map (entry_at s []) [0..<0 + ?n]) b" using assms(5) by (simp add: l)
  from entries_loop_run [where fail = fail, OF d(1) assms(3,4) _ this] obtain x t where
    x: "run_state (entries_loop ?n ch 0 fail body a) s = (x, t)" "search_step s t" "rel_ctl (=) R x (walk pure (dir_list s xs) b)"
    using d(2) by (auto simp: l)
  obtain k where k: "CHAIN_FUEL = Suc k" by (simp add: CHAIN_FUEL_def)
  have "chain_dir ch \<noteq> CLU_EOF" by (simp add: r CLU_EOF_def)
  then have run: "run_state (scan_dir ch nxt fail body broken fin a) s =
      ((case x of Ret r \<Rightarrow> r | Brk a \<Rightarrow> fin a | Cont a \<Rightarrow> fin a), t)"
    using x(1) d(3,4) r by (simp add: scan_dir_def k dir_dentries_def split: ctl.splits)
  have "finishes R fin (walk pure (dir_list s xs) b) (case x of Ret r \<Rightarrow> r | Brk a \<Rightarrow> fin a | Cont a \<Rightarrow> fin a)"
    using x(3) walk_no_break by (cases x; cases "walk pure (dir_list s xs) b") (auto simp: finishes_def)
  then show ?thesis using run x(2) by blast
next
  case False
  have d: "is_dir ch xs s" "sized ch xs" "\<not> dev_ejected s" "sint (dentries_per_clu s) = int (2 ^ cluster_size_bits s div 32)"
    using assms(2) False by (simp_all add: scannable_def)
  have x: "distinct xs" "\<forall>x\<in>set xs. is_cluster s x" "chain_dir ch = hd xs" using d(1) False by (simp_all add: is_dir_def chain_clusters_def)
  then have "is_cluster s (chain_dir ch)" using False by simp
  then have r: "chain_dir ch \<noteq> 0" by (auto simp: is_cluster_def)
  have "length xs < CHAIN_FUEL"
    using cluster_list_length [OF x(1,2)] unat_u32 [of "num_clusters s"] by (simp add: CHAIN_FUEL_def)
  moreover have "safe pure ok (dir_entries s xs) b" using assms(5) False by (simp add: dir_list_def)
  ultimately show ?thesis
    using clusters_loop_run [OF assms(1) refl d(1,2) False assms(3) d(3) assms(4) _ _ refl] r d(4) False
    by (simp add: scan_dir_def dir_dentries_def dir_list_def)
qed

end

section \<open>Counting, and the test for emptiness\<close>

text \<open>The entries of a directory before the first unused one, which ends it.\<close>

definition used_entries :: "fs_kind \<Rightarrow> u8 list list \<Rightarrow> u8 list list" where
  "used_entries k = takeWhile (\<lambda>e. get_entry_type (ops k) e \<noteq> TYPE_UNUSED)"

definition count_pure :: "fs_kind \<Rightarrow> u32 \<Rightarrow> u8 list \<Rightarrow> s32 \<Rightarrow> (s32, s32) ctl" where
  "count_pure k type e count = (let t = get_entry_type (ops k) e in
     if t = TYPE_UNUSED then Ret count
     else Cont (if (type AND TYPE_CRITICAL_PRI \<noteq> 0 \<or> type AND TYPE_BENIGN_PRI \<noteq> 0) \<and> (type = TYPE_ALL \<or> type = t) then count + 1 else count))"

interpretation counting: dir_search "\<lambda>s. fs_func s = k" "count_body type" "count_pure k type" "\<lambda>_ _. True" "(=)" for k type
proof
  fix s t a b e ch c
  show "fs_func s = k \<Longrightarrow> search_step s t \<Longrightarrow> fs_func t = k" by (simp add: search_step_fields)
  show "\<exists>x h. run_state (count_body type ch e a) s = (x, s\<lparr>hint_uentry := h\<rparr>) \<and> rel_ctl (=) (=) x (count_pure k type e b)"
    if "fs_func s = k" "a = b"
    using that by (intro exI [of _ "count_pure k type e b"] exI [of _ "hint_uentry s"])
      (auto simp: count_body_def count_pure_def Let_def ctl.rel_refl)
  show "count_pure k type e b \<noteq> Brk c" by (simp add: count_pure_def Let_def)
qed

lemma walk_count:
  assumes "type AND TYPE_CRITICAL_PRI \<noteq> 0 \<or> type AND TYPE_BENIGN_PRI \<noteq> 0"
  shows "finishes (=) id (walk (count_pure k type) es c) r \<longleftrightarrow>
    r = c + int (length (filter (\<lambda>e. type = TYPE_ALL \<or> type = get_entry_type (ops k) e) (used_entries k es)))"
proof (induction es arbitrary: c)
  case Nil
  then show ?case by (simp add: finishes_def used_entries_def)
next
  case (Cons e es)
  show ?case
  proof (cases "get_entry_type (ops k) e = TYPE_UNUSED")
    case True
    then show ?thesis by (simp add: finishes_def used_entries_def count_pure_def Let_def)
  next
    case False
    then show ?thesis using Cons.IH assms by (simp add: used_entries_def count_pure_def Let_def add.assoc)
  qed
qed

definition empty_pure :: "fs_kind \<Rightarrow> bool \<Rightarrow> u8 list \<Rightarrow> s32 \<Rightarrow> (bool, s32) ctl" where
  "empty_pure k flat e count = (let t = get_entry_type (ops k) e in
     if t = TYPE_UNUSED then Ret True
     else if t \<noteq> TYPE_FILE \<and> t \<noteq> TYPE_DIR then Cont count
     else if flat \<or> count + 1 > 2 then Ret False else Cont (count + 1))"

text \<open>Directories without the entries for themselves and their parent.\<close>

definition flat_dir :: "CHAIN_T \<Rightarrow> vol \<Rightarrow> bool" where
  "flat_dir ch s \<longleftrightarrow> chain_dir ch = 0 \<or> vol_type s = EXFAT \<or> chain_dir ch = root_dir s"

interpretation emptiness: dir_search "\<lambda>s. fs_func s = k \<and> flat_dir p s = flat" "dir_empty_body p" "empty_pure k flat" "\<lambda>_ _. True" "(=)"
  for k p flat
proof
  fix s t a b e ch c
  show "fs_func s = k \<and> flat_dir p s = flat \<Longrightarrow> search_step s t \<Longrightarrow> fs_func t = k \<and> flat_dir p t = flat"
    by (simp add: flat_dir_def search_step_fields)
  show "\<exists>x h. run_state (dir_empty_body p ch e a) s = (x, s\<lparr>hint_uentry := h\<rparr>) \<and> rel_ctl (=) (=) x (empty_pure k flat e b)"
    if "fs_func s = k \<and> flat_dir p s = flat" "a = b"
    using that by (intro exI [of _ "empty_pure k flat e b"] exI [of _ "hint_uentry s"])
      (auto simp: dir_empty_body_def empty_pure_def flat_dir_def Let_def ctl.rel_refl)
  show "empty_pure k flat e b \<noteq> Brk c" by (simp add: empty_pure_def Let_def)
qed

lemma walk_empty:
  "0 \<le> c \<Longrightarrow> c \<le> 2 \<Longrightarrow> finishes (=) (\<lambda>_. True) (walk (empty_pure k flat) es c) r \<longleftrightarrow>
    (r \<longleftrightarrow> (let n = int (length (filter (\<lambda>e. get_entry_type (ops k) e \<in> {TYPE_FILE, TYPE_DIR}) (used_entries k es)))
           in if flat then n = 0 else c + n \<le> 2))"
proof (induction es arbitrary: c)
  case Nil
  then show ?case by (simp add: finishes_def used_entries_def)
next
  case (Cons e es)
  show ?case
  proof (cases "get_entry_type (ops k) e = TYPE_UNUSED \<or> get_entry_type (ops k) e \<notin> {TYPE_FILE, TYPE_DIR}")
    case True
    then show ?thesis using Cons by (auto simp: finishes_def used_entries_def empty_pure_def Let_def)
  next
    case False
    then show ?thesis using Cons.IH [of "c + 1"] Cons.prems
      by (auto simp: finishes_def used_entries_def empty_pure_def Let_def)
  qed
qed

lemma count_dos_name_entries_run:
  assumes "scannable ch xs s" "type AND TYPE_CRITICAL_PRI \<noteq> 0 \<or> type AND TYPE_BENIGN_PRI \<noteq> 0"
  shows "\<exists>t. run_state (count_dos_name_entries ch type) s = (int (length (filter (\<lambda>e. type = TYPE_ALL \<or> type = get_entry_type (ops (fs_func s)) e)
    (used_entries (fs_func s) (dir_list s xs)))), t) \<and> search_step s t"
  using counting.scan_run [OF chain_next_advances assms(1) refl refl safe_True, where type = type and a = 0 and fail = "\<lambda>_. Ret (- 1)"
      and broken = "\<lambda>_. - 1" and fin = id] walk_count [OF assms(2)]
  by (auto simp: count_dos_name_entries_def)

lemma is_dir_empty_run:
  assumes "scannable ch xs s"
  defines "n \<equiv> length (filter (\<lambda>e. get_entry_type (ops (fs_func s)) e \<in> {TYPE_FILE, TYPE_DIR}) (used_entries (fs_func s) (dir_list s xs)))"
  shows "\<exists>t. run_state (is_dir_empty ch) s = (if flat_dir ch s then n = 0 else n \<le> 2, t) \<and> search_step s t"
proof -
  have g: "fs_func s = fs_func s \<and> flat_dir ch s = flat_dir ch s" by simp
  obtain r t where "run_state (is_dir_empty ch) s = (r, t)" "search_step s t"
    "finishes (=) (\<lambda>_. True) (walk (empty_pure (fs_func s) (flat_dir ch s)) (dir_list s xs) 0) r"
    using emptiness.scan_run [OF chain_next_advances assms(1) g refl safe_True, where fail = Brk and broken = "\<lambda>_. True" and fin = "\<lambda>_. True"]
    unfolding is_dir_empty_def by blast
  then show ?thesis using walk_empty [of 0 "fs_func s" "flat_dir ch s" "dir_list s xs" r] by (simp add: n_def Let_def split: if_splits)
qed

end
