(* ===== verification/NameSearch.thy ===== *)
theory NameSearch
  imports DirScan
begin

text \<open>
  \<^verbatim>\<open>exfat_find_dir_entry\<close> (\<^verbatim>\<open>exfat_core.c\<close>) is an automaton over the entries of the directory.  On a directory that is a sequence
  of entry sets it finds the first set of the wanted type whose name is, up to case, the wanted one.
\<close>

section \<open>The automaton\<close>

definition name_ptr :: "exfat_find \<Rightarrow> s32 option" where
  "name_ptr a = (if ef_order a + 1 = 2 then Some 0 else map_option (\<lambda>p. p + 15) (ef_uniname a))"

definition name_part :: "(u16 \<Rightarrow> u16) \<Rightarrow> UNI_NAME_T \<Rightarrow> u8 list \<Rightarrow> exfat_find \<Rightarrow> bool option" where
  "name_part up un e a = (case extract_uni_name_from_name_entry e (replicate 16 0) 0 (ef_order a + 1) of
     (part, len) \<Rightarrow> compare_part up (un_name un) (name_ptr a) part len)"

definition find_pure :: "(u16 \<Rightarrow> u16) \<Rightarrow> UNI_NAME_T \<Rightarrow> u32 \<Rightarrow> u8 list \<Rightarrow> exfat_find \<Rightarrow> (s32, exfat_find) ctl" where
  "find_pure up un type e a = (let t = exfat_get_entry_type e; a1 = a\<lparr>ef_dentry := ef_dentry a + 1\<rparr> in
     if t = TYPE_UNUSED then Ret (-2)
     else if t = TYPE_DELETED then Cont (a1\<lparr>ef_feasible := False\<rparr>)
     else if t = TYPE_FILE \<or> t = TYPE_DIR then
       Cont (if type = TYPE_ALL \<or> type = t then a1\<lparr>ef_num_ext := uint (e ! file_num_ext), ef_feasible := True\<rparr>
             else a1\<lparr>ef_feasible := False\<rparr>)
     else if t = TYPE_STREAM then
       Cont (if ef_feasible a then (if un_len un = e ! strm_name_len then a1\<lparr>ef_order := 1\<rparr> else a1\<lparr>ef_feasible := False\<rparr>) else a1)
     else if t = TYPE_EXTEND then
       (if \<not> ef_feasible a then Cont a1
        else if \<not> the (name_part up un e a) then Cont (a1\<lparr>ef_order := ef_order a + 1, ef_uniname := name_ptr a, ef_feasible := False\<rparr>)
        else if ef_order a + 1 = ef_num_ext a then Ret (ef_dentry a - ef_num_ext a)
        else Cont (a1\<lparr>ef_order := ef_order a + 1, ef_uniname := name_ptr a\<rparr>))
     else Cont (a1\<lparr>ef_feasible := False\<rparr>))"

definition find_ok :: "(u16 \<Rightarrow> u16) \<Rightarrow> UNI_NAME_T \<Rightarrow> u8 list \<Rightarrow> exfat_find \<Rightarrow> bool" where
  "find_ok up un e a \<longleftrightarrow> (exfat_get_entry_type e = TYPE_EXTEND \<and> ef_feasible a \<longrightarrow> name_part up un e a \<noteq> None)"

text \<open>The run of free entries is counted for the hint only.\<close>

definition same_find :: "exfat_find \<Rightarrow> exfat_find \<Rightarrow> bool" where
  "same_find a b \<longleftrightarrow> (\<exists>n. a = b\<lparr>ef_num_empty := n\<rparr>)"

lemma when_set_hint: "run_state (whenM c (set_hint f)) s = ((), s\<lparr>hint_uentry := (if c then f (hint_uentry s) else hint_uentry s)\<rparr>)"
  by (simp add: set_hint_def)

lemma free_run:
  "\<exists>h m. run_state (exfat_find_free n ch t a) s =
    (if t = TYPE_UNUSED then Ret (-2) else Cont (a\<lparr>ef_dentry := ef_dentry a + 1, ef_feasible := False, ef_num_empty := m\<rparr>), s\<lparr>hint_uentry := h\<rparr>)"
proof (cases "ue_entry (hint_uentry s) = -1")
  case True
  let ?h = "if ef_num_empty a + 1 = 1 then hint_uentry s\<lparr>ue_clu := ch\<rparr> else hint_uentry s"
  let ?k = "if ef_num_empty a + 1 \<ge> n \<or> t = TYPE_UNUSED then ?h\<lparr>ue_entry := ef_dentry a - ef_num_empty a\<rparr> else ?h"
  show ?thesis
    by (rule exI [of _ ?k], rule exI [of _ "ef_num_empty a + 1"])
      (use True in \<open>simp add: exfat_find_free_def when_set_hint Let_def del: run_whenM cong: if_cong\<close>)
next
  case False
  show ?thesis
    by (rule exI [of _ "hint_uentry s"], rule exI [of _ "ef_num_empty a"]) (use False in \<open>simp add: exfat_find_free_def Let_def\<close>)
qed

lemma same_find_update: "same_find (b\<lparr>ef_num_empty := n\<rparr>) b"
  by (auto simp: same_find_def)

interpretation naming: dir_search "\<lambda>s. fs_func s = ExfatOps" "exfat_find_body up un n type" "find_pure up un type" "find_ok up un" same_find
  for up un n type
proof
  fix s t a b e ch c
  show "fs_func s = ExfatOps \<Longrightarrow> search_step s t \<Longrightarrow> fs_func t = ExfatOps" by (simp add: search_step_fields)
  show "find_pure up un type e b \<noteq> Brk c" by (simp add: find_pure_def Let_def)
  show "\<exists>x h. run_state (exfat_find_body up un n type ch e a) s = (x, s\<lparr>hint_uentry := h\<rparr>) \<and> rel_ctl (=) same_find x (find_pure up un type e b)"
    if s: "fs_func s = ExfatOps" and ab: "same_find a b" and ok: "find_ok up un e b"
  proof -
    obtain k where a: "a = b\<lparr>ef_num_empty := k\<rparr>" using ab by (auto simp: same_find_def)
    have g: "get_entry_type (ops (fs_func s)) e = exfat_get_entry_type e" using s by (simp add: exfat_fs_func_def)
    let ?t = "exfat_get_entry_type e"
    consider (free) "?t = TYPE_UNUSED \<or> ?t = TYPE_DELETED" | (name) "?t = TYPE_EXTEND" "ef_feasible b"
      | (other) "\<not> (?t = TYPE_UNUSED \<or> ?t = TYPE_DELETED)" "\<not> (?t = TYPE_EXTEND \<and> ef_feasible b)" by blast
    then show ?thesis
    proof cases
      case free
      then have "run_state (exfat_find_body up un n type ch e a) s = run_state (exfat_find_free n ch ?t a) s"
        by (simp add: exfat_find_body_def g Let_def)
      moreover have "find_pure up un type e b = (if ?t = TYPE_UNUSED then Ret (-2) else Cont (b\<lparr>ef_dentry := ef_dentry b + 1, ef_feasible := False\<rparr>))"
      proof (cases "?t = TYPE_UNUSED")
        case False
        then have "?t = TYPE_DELETED" using free by simp
        then show ?thesis using False unfolding find_pure_def Let_def by (simp only: if_False if_True refl)
      qed (simp add: find_pure_def Let_def)
      moreover obtain h m where "run_state (exfat_find_free n ch ?t a) s =
          (if ?t = TYPE_UNUSED then Ret (-2) else Cont (a\<lparr>ef_dentry := ef_dentry a + 1, ef_feasible := False, ef_num_empty := m\<rparr>), s\<lparr>hint_uentry := h\<rparr>)"
        using free_run by blast
      moreover have "same_find (a\<lparr>ef_dentry := ef_dentry a + 1, ef_feasible := False, ef_num_empty := m\<rparr>)
          (b\<lparr>ef_dentry := ef_dentry b + 1, ef_feasible := False\<rparr>)" unfolding a same_find_def by (rule exI [of _ m]) simp
      ultimately show ?thesis by (intro exI conjI) (simp, simp)
    next
      case other
      note nt = other(1) [unfolded de_Morgan_disj, THEN conjunct1] other(1) [unfolded de_Morgan_disj, THEN conjunct2]
      have keep: "p = (map_ctl id (\<lambda>x. x\<lparr>ef_num_empty := 0\<rparr>) (find_pure up un type e b), s) \<Longrightarrow>
          \<exists>x h. p = (x, s\<lparr>hint_uentry := h\<rparr>) \<and> rel_ctl (=) same_find x (find_pure up un type e b)" for p
        by (intro exI [of _ "map_ctl id (\<lambda>x. x\<lparr>ef_num_empty := 0\<rparr>) (find_pure up un type e b)"] exI [of _ "hint_uentry s"])
          (cases "find_pure up un type e b"; simp add: same_find_update)
      consider (prim) "?t = TYPE_FILE \<or> ?t = TYPE_DIR" | (stream) "?t = TYPE_STREAM" "\<not> (?t = TYPE_FILE \<or> ?t = TYPE_DIR)"
        | (part) "?t = TYPE_EXTEND" "?t \<noteq> TYPE_STREAM" "\<not> (?t = TYPE_FILE \<or> ?t = TYPE_DIR)" "\<not> ef_feasible b"
        | (rest) "?t \<noteq> TYPE_EXTEND" "?t \<noteq> TYPE_STREAM" "\<not> (?t = TYPE_FILE \<or> ?t = TYPE_DIR)" using other(2) by blast
      then show ?thesis
      proof cases
        case prim
        show ?thesis
          by (rule keep) (simp only: exfat_find_body_def find_pure_def run_state_bind run_gets prod.case id_apply g Let_def nt prim
            simp_thms if_True if_False run_state_return, simp add: a)
      next
        case stream
        show ?thesis
          by (rule keep) (simp only: exfat_find_body_def find_pure_def run_state_bind run_gets prod.case id_apply g Let_def nt stream(2)
            simp_thms if_True if_False run_state_return, simp add: a stream(1))
      next
        case part
        show ?thesis
          by (rule keep) (simp only: exfat_find_body_def find_pure_def run_state_bind run_gets prod.case id_apply g Let_def nt part(2,3)
            simp_thms if_True if_False run_state_return, simp add: a part(1,4))
      next
        case rest
        show ?thesis
          by (rule keep) (simp only: exfat_find_body_def find_pure_def run_state_bind run_gets prod.case id_apply g Let_def nt rest
            simp_thms if_True if_False run_state_return, simp add: a)
      qed
    next
      case name
      then obtain eq where eq: "name_part up un e b = Some eq" using ok by (auto simp: find_ok_def)
      obtain part len where "extract_uni_name_from_name_entry e (replicate 16 0) 0 0 = (part, len)" by (rule prod.exhaust)
      then have x: "extract_uni_name_from_name_entry e (replicate 16 0) 0 i = (part, len)" for i
        by (simp add: extract_uni_name_from_name_entry_def)
      then have c: "compare_part up (un_name un) (name_ptr b) part len = Some eq" using eq by (simp add: name_part_def)
      have nt: "?t \<noteq> TYPE_UNUSED" "?t \<noteq> TYPE_DELETED" "?t \<noteq> TYPE_FILE" "?t \<noteq> TYPE_DIR" "?t \<noteq> TYPE_STREAM" using name by (simp_all add: type_defs)
      have fs: "\<not> (TYPE_EXTEND = TYPE_UNUSED \<or> TYPE_EXTEND = TYPE_DELETED)" "\<not> (TYPE_EXTEND = TYPE_FILE \<or> TYPE_EXTEND = TYPE_DIR)"
        "TYPE_EXTEND \<noteq> TYPE_STREAM" "TYPE_EXTEND \<noteq> TYPE_UNUSED" "TYPE_EXTEND \<noteq> TYPE_DELETED" by (simp_all add: type_defs)
      let ?o = "ef_order b + 1"
      let ?b = "b\<lparr>ef_dentry := ef_dentry b + 1, ef_order := ?o, ef_uniname := name_ptr b\<rparr>"
      let ?hint = "hint_uentry s\<lparr>ue_dir := CLU_EOF, ue_entry := -1\<rparr>"
      have p: "find_pure up un type e b = (if \<not> eq then Cont (?b\<lparr>ef_feasible := False\<rparr>)
          else if ?o = ef_num_ext b then Ret (ef_dentry b - ef_num_ext b) else Cont ?b)"
        unfolding find_pure_def Let_def name(1) by (simp only: fs simp_thms if_False if_True name(2) eq option.sel)
      have r: "run_state (exfat_find_body up un n type ch e a) s =
          (if \<not> eq then (Cont (?b\<lparr>ef_num_empty := 0, ef_feasible := False\<rparr>), s)
           else if ?o = ef_num_ext b then (Ret (ef_dentry b - ef_num_ext b), s\<lparr>hint_uentry := ?hint\<rparr>)
           else (Cont (?b\<lparr>ef_num_empty := 0\<rparr>), s))"
        using c unfolding exfat_find_body_def Let_def name_ptr_def
        by (cases "ef_order b = 1") (simp_all add: g name fs a x set_hint_def)
      have f: "same_find (?b\<lparr>ef_num_empty := 0, ef_feasible := False\<rparr>) (?b\<lparr>ef_feasible := False\<rparr>)" "same_find (?b\<lparr>ef_num_empty := 0\<rparr>) ?b"
        unfolding same_find_def by (rule exI [of _ 0], simp)+
      show ?thesis
      proof (cases "eq \<and> ?o = ef_num_ext b")
        case True
        then show ?thesis unfolding r p by (intro exI [of _ "Ret (ef_dentry b - ef_num_ext b)"] exI [of _ ?hint]) simp
      next
        case False
        then show ?thesis unfolding r p using f
          by (intro exI [of _ "if eq then Cont (?b\<lparr>ef_num_empty := 0\<rparr>) else Cont (?b\<lparr>ef_num_empty := 0, ef_feasible := False\<rparr>)"]
              exI [of _ "hint_uentry s"]) simp
      qed
    qed
  qed
qed

section \<open>Comparing a part of the name\<close>

lemma uniname_cmp_loop_eq:
  assumes "\<forall>k<m. a ! (i + k) \<noteq> 0" "a ! (i + m) = 0" "b ! (j + m) = 0" "m < n"
  shows "uniname_cmp_loop n up a i b j = 0 \<longleftrightarrow> (\<forall>k<m. up (a ! (i + k)) = up (b ! (j + k)))"
  using assms
proof (induction m arbitrary: n i j)
  case 0
  then obtain n' where "n = Suc n'" by (cases n) auto
  then show ?case using 0 by simp
next
  case (Suc m)
  obtain n' where n: "n = Suc n'" "m < n'" using Suc.prems(4) by (cases n) auto
  have "a ! i \<noteq> 0" using Suc.prems(1) by force
  moreover have "uniname_cmp_loop n' up a (i + 1) b (j + 1) = 0 \<longleftrightarrow> (\<forall>k<m. up (a ! (i + 1 + k)) = up (b ! (j + 1 + k)))"
    by (rule Suc.IH [OF _ _ _ n(2)]) (use Suc.prems in \<open>auto simp: add.assoc\<close>)
  ultimately show ?case unfolding n(1) by (auto simp: All_less_Suc2)
qed

text \<open>The units of a name entry.\<close>

definition name_units :: "u8 list \<Rightarrow> u16 list" where
  "name_units e = takeWhile (\<lambda>u. u \<noteq> 0) (units name_unicode_0_14 15 e)"

lemma length_name_units: "length (name_units e) \<le> 15"
  unfolding name_units_def by (rule order_trans [OF length_takeWhile_le]) (simp add: length_units)

lemma extract_name_units:
  "extract_uni_name_from_name_entry e (replicate 16 0) 0 i = (write_at (replicate 16 0) 0 (name_units e @ [0]), length (name_units e))"
  using copy_units_result [of 0 0 "units name_unicode_0_14 15 e" "replicate 16 0"]
  by (simp add: extract_uni_name_from_name_entry_def get_units_copy name_units_def length_units)

text \<open>The searched name, as the conversion of a path builds it: up to 255 units and a zero in an array of \<^verbatim>\<open>MAX_NAME_LENGTH\<close> units.\<close>

definition searched :: "u16 list \<Rightarrow> UNI_NAME_T \<Rightarrow> bool" where
  "searched nm un \<longleftrightarrow> (\<exists>rest. un_name un = nm @ 0 # rest) \<and> 0 \<notin> set nm \<and> length nm < MAX_NAME_LENGTH \<and>
     un_len un = of_nat (length nm) \<and> length (un_name un) = MAX_NAME_LENGTH"

lemma compare_part_eq:
  assumes "searched nm un" "k + length us \<le> length nm" "length us \<le> 15"
  shows "compare_part up (un_name un) (Some (int k)) (write_at (replicate 16 0) 0 (us @ [0])) (length us) =
    Some (map up (take (length us) (drop k nm)) = map up us)"
proof -
  obtain rest where u: "un_name un = nm @ 0 # rest" and nz: "0 \<notin> set nm" "length nm < 256" "length (un_name un) = 256"
    using assms(1) by (auto simp: searched_def MAX_NAME_LENGTH_def)
  let ?a = "(un_name un)[k + length us := 0]" and ?b = "write_at (replicate 16 0) 0 (us @ [0]) :: u16 list"
  have a: "?a ! (k + l) = nm ! (k + l) \<and> nm ! (k + l) \<noteq> 0" if "l < length us" for l
  proof -
    have "k + l < length nm" using that assms(2) by simp
    then show ?thesis using nz(1) that by (auto simp: u nth_append dest: nth_mem)
  qed
  have b: "?b ! l = (us @ [0]) ! l" if "l \<le> length us" for l
    using that assms(3) by (simp add: write_at_def nth_append)
  have z: "?a ! (k + length us) = 0" "?b ! (0 + length us) = 0" using nz assms(2) b [of "length us"] by simp_all
  have "nls_uniname_cmp up ?a k ?b 0 = 0 \<longleftrightarrow> (\<forall>l<length us. up (?a ! (k + l)) = up (?b ! (0 + l)))"
    unfolding nls_uniname_cmp_def by (rule uniname_cmp_loop_eq) (use a z assms(3) in \<open>auto simp: MAX_NAME_LENGTH_def\<close>)
  also have "\<dots> \<longleftrightarrow> (\<forall>l<length us. up (nm ! (k + l)) = up (us ! l))" using a b by (auto simp: nth_append)
  also have "\<dots> \<longleftrightarrow> map up (take (length us) (drop k nm)) = map up us" using assms(2) by (auto simp: list_eq_iff_nth_eq)
  finally show ?thesis using assms(2) nz(2) by (simp add: compare_part_def MAX_NAME_LENGTH_def)
qed

section \<open>A directory as a sequence of entry sets\<close>

text \<open>A free entry, a primary entry that is no file (volume label, bitmap, case table, \<dots>) or the entries of a file.\<close>

datatype dir_item = FreeEntry "u8 list" | OtherEntry "u8 list" | FileSet "u8 list" "u8 list" "u8 list list"

fun item_entries :: "dir_item \<Rightarrow> u8 list list" where
  "item_entries (FreeEntry e) = [e]"
| "item_entries (OtherEntry e) = [e]"
| "item_entries (FileSet f st ns) = f # st # ns"

definition names_of :: "u8 list list \<Rightarrow> u16 list" where
  "names_of ns = concat (map name_units ns)"

text \<open>The parts of a name fill their entries, except for the last one.\<close>

fun parts_ok :: "u8 list list \<Rightarrow> bool" where
  "parts_ok [] \<longleftrightarrow> False"
| "parts_ok [e] \<longleftrightarrow> exfat_get_entry_type e = TYPE_EXTEND"
| "parts_ok (e # es) \<longleftrightarrow> exfat_get_entry_type e = TYPE_EXTEND \<and> length (name_units e) = 15 \<and> parts_ok es"

fun item_ok :: "dir_item \<Rightarrow> bool" where
  "item_ok (FreeEntry e) \<longleftrightarrow> exfat_get_entry_type e = TYPE_DELETED"
| "item_ok (OtherEntry e) \<longleftrightarrow>
     exfat_get_entry_type e \<notin> {TYPE_UNUSED, TYPE_DELETED, TYPE_FILE, TYPE_DIR, TYPE_STREAM, TYPE_EXTEND}"
| "item_ok (FileSet f st ns) \<longleftrightarrow> exfat_get_entry_type f \<in> {TYPE_FILE, TYPE_DIR} \<and> exfat_get_entry_type st = TYPE_STREAM \<and>
     parts_ok ns \<and> unat (f ! file_num_ext) = length ns + 1 \<and> unat (st ! strm_name_len) = length (names_of ns)"

fun item_matches :: "(u16 \<Rightarrow> u16) \<Rightarrow> u16 list \<Rightarrow> u32 \<Rightarrow> dir_item \<Rightarrow> bool" where
  "item_matches up nm type (FileSet f st ns) \<longleftrightarrow>
     (type = TYPE_ALL \<or> type = exfat_get_entry_type f) \<and> map up (names_of ns) = map up nm"
| "item_matches up nm type _ \<longleftrightarrow> False"

text \<open>The index of the first entry of the first item with a property; \<open>-2\<close> when there is none.\<close>

fun find_item :: "(dir_item \<Rightarrow> bool) \<Rightarrow> nat \<Rightarrow> dir_item list \<Rightarrow> int" where
  "find_item P i [] = -2"
| "find_item P i (it # its) = (if P it then int i else find_item P (i + length (item_entries it)) its)"

lemma find_item_spec:
  "(\<exists>k<length its. P (its ! k) \<and> (\<forall>j<k. \<not> P (its ! j)) \<and> find_item P i its = int (i + length (concat (map item_entries (take k its))))) \<or>
   (\<forall>it\<in>set its. \<not> P it) \<and> find_item P i its = -2"
proof (induction its arbitrary: i)
  case Nil
  then show ?case by simp
next
  case (Cons it its)
  show ?case
  proof (cases "P it")
    case True
    then show ?thesis by (intro disjI1 exI [of _ 0]) simp
  next
    case False
    from Cons.IH [of "i + length (item_entries it)"] show ?thesis
    proof (elim disjE exE conjE)
      fix k
      assume "k < length its" "P (its ! k)" "\<forall>j<k. \<not> P (its ! j)"
        "find_item P (i + length (item_entries it)) its = int (i + length (item_entries it) + length (concat (map item_entries (take k its))))"
      then show ?thesis using False by (intro disjI1 exI [of _ "Suc k"]) (auto simp: All_less_Suc2)
    qed (use False in simp)
  qed
qed

lemma walk_infeasible:
  assumes "parts_ok ns" "\<not> ef_feasible a"
  shows "\<exists>b. walk (find_pure up un type) ns a = Cont b \<and> ef_dentry b = ef_dentry a + int (length ns)"
    "safe (find_pure up un type) (find_ok up un) ns a"
proof -
  have "\<exists>b. walk (find_pure up un type) ns a = Cont b \<and> ef_dentry b = ef_dentry a + int (length ns) \<and> safe (find_pure up un type) (find_ok up un) ns a"
    using assms
  proof (induction ns arbitrary: a rule: parts_ok.induct)
    case (2 e)
    then show ?case by (simp add: find_pure_def find_ok_def Let_def type_defs)
  next
    case (3 e e' es)
    have "\<exists>b. walk (find_pure up un type) (e' # es) (a\<lparr>ef_dentry := ef_dentry a + 1\<rparr>) = Cont b \<and>
        ef_dentry b = ef_dentry a + 1 + int (length (e' # es)) \<and> safe (find_pure up un type) (find_ok up un) (e' # es) (a\<lparr>ef_dentry := ef_dentry a + 1\<rparr>)"
      using 3(1) [of "a\<lparr>ef_dentry := ef_dentry a + 1\<rparr>"] 3(2,3) by simp
    moreover have "find_pure up un type e a = Cont (a\<lparr>ef_dentry := ef_dentry a + 1\<rparr>)" "find_ok up un e a"
      using 3(2,3) by (simp_all add: find_pure_def find_ok_def Let_def type_defs)
    ultimately show ?case by auto
  qed simp
  then show "\<exists>b. walk (find_pure up un type) ns a = Cont b \<and> ef_dentry b = ef_dentry a + int (length ns)"
    "safe (find_pure up un type) (find_ok up un) ns a" by blast+
qed

lemma name_step:
  assumes "searched nm un" "exfat_get_entry_type e = TYPE_EXTEND" "ef_feasible a" "ef_order a = int j + 1"
    "j = 0 \<or> ef_uniname a = Some (15 * (int j - 1))" "15 * j + length (name_units e) \<le> length nm"
  defines "b \<equiv> a\<lparr>ef_dentry := ef_dentry a + 1, ef_order := int j + 2, ef_uniname := Some (int (15 * j))\<rparr>"
  shows "find_ok up un e a" "find_pure up un type e a =
    (if map up (take (length (name_units e)) (drop (15 * j) nm)) \<noteq> map up (name_units e) then Cont (b\<lparr>ef_feasible := False\<rparr>)
     else if int j + 2 = ef_num_ext a then Ret (ef_dentry a - ef_num_ext a) else Cont b)"
proof -
  have ptr: "name_ptr a = Some (int (15 * j))" using assms(4,5) by (auto simp: name_ptr_def)
  have part: "name_part up un e a = Some (map up (take (length (name_units e)) (drop (15 * j) nm)) = map up (name_units e))"
    using compare_part_eq [OF assms(1,6) length_name_units] by (simp add: name_part_def extract_name_units ptr)
  show "find_ok up un e a" by (simp add: find_ok_def part)
  have fs: "TYPE_EXTEND \<noteq> TYPE_FILE" "TYPE_EXTEND \<noteq> TYPE_DIR" "TYPE_EXTEND \<noteq> TYPE_STREAM" "TYPE_EXTEND \<noteq> TYPE_UNUSED" "TYPE_EXTEND \<noteq> TYPE_DELETED"
    by (simp_all add: type_defs)
  show "find_pure up un type e a =
    (if map up (take (length (name_units e)) (drop (15 * j) nm)) \<noteq> map up (name_units e) then Cont (b\<lparr>ef_feasible := False\<rparr>)
     else if int j + 2 = ef_num_ext a then Ret (ef_dentry a - ef_num_ext a) else Cont b)"
    unfolding find_pure_def Let_def assms(2) part ptr using fs assms(3,4) by (simp add: b_def)
qed

lemma names_walk:
  assumes "searched nm un" "parts_ok ns" "ef_feasible a" "ef_order a = int j + 1" "j = 0 \<or> ef_uniname a = Some (15 * (int j - 1))"
    "ef_num_ext a = int (j + length ns) + 1" "length nm = 15 * j + length (names_of ns)"
  shows "safe (find_pure up un type) (find_ok up un) ns a \<and>
    (if map up (names_of ns) = map up (drop (15 * j) nm)
     then walk (find_pure up un type) ns a = Ret (ef_dentry a + int (length ns) - 1 - ef_num_ext a)
     else \<exists>b. walk (find_pure up un type) ns a = Cont b \<and> ef_dentry b = ef_dentry a + int (length ns))"
  using assms(2-)
proof (induction ns arbitrary: a j rule: parts_ok.induct)
  case 1
  then show ?case by simp
next
  case (2 e)
  have n: "names_of [e] = name_units e" by (simp add: names_of_def)
  have r: "15 * j + length (name_units e) \<le> length nm" "take (length (name_units e)) (drop (15 * j) nm) = drop (15 * j) nm"
    using "2.prems"(6) by (simp_all add: n)
  note st = name_step [OF assms(1) _ "2.prems"(2,3,4) r(1)]
  show ?case using "2.prems"(1,5) st(1) [of up] st(2) [of up type] by (auto simp: r(2) n)
next
  case (3 e e' es)
  let ?ns = "e' # es"
  have n: "names_of (e # ?ns) = name_units e @ names_of ?ns" and l: "length (name_units e) = 15" "exfat_get_entry_type e = TYPE_EXTEND" "parts_ok ?ns"
    using "3.prems"(1) by (simp_all add: names_of_def)
  have r: "15 * j + length (name_units e) \<le> length nm" using "3.prems"(6) by (simp add: n)
  note st = name_step [OF assms(1) l(2) "3.prems"(2,3,4) r]
  let ?b = "a\<lparr>ef_dentry := ef_dentry a + 1, ef_order := int j + 2, ef_uniname := Some (int (15 * j))\<rparr>"
  have d: "drop (15 * j) nm = take 15 (drop (15 * j) nm) @ drop (15 * (j + 1)) nm"
    using append_take_drop_id [of 15 "drop (15 * j) nm"] by (simp add: add.commute)
  have lt: "length (take 15 (drop (15 * j) nm)) = 15" using r by (simp add: l)
  have eq: "map up (names_of (e # ?ns)) = map up (drop (15 * j) nm) \<longleftrightarrow>
      map up (take 15 (drop (15 * j) nm)) = map up (name_units e) \<and> map up (names_of ?ns) = map up (drop (15 * (j + 1)) nm)"
  proof -
    have "map up (drop (15 * j) nm) = map up (take 15 (drop (15 * j) nm)) @ map up (drop (15 * (j + 1)) nm)" by (subst d) simp
    then show ?thesis unfolding n using lt l(1) by (auto simp: append_eq_append_conv)
  qed
  have ne: "int j + 2 \<noteq> ef_num_ext a" using "3.prems"(5) by simp
  show ?case
  proof (cases "map up (take 15 (drop (15 * j) nm)) = map up (name_units e)")
    case False
    then have s: "find_pure up un type e a = Cont (?b\<lparr>ef_feasible := False\<rparr>)" using st(2) by (simp add: l(1))
    show ?thesis using walk_infeasible [OF l(3), of "?b\<lparr>ef_feasible := False\<rparr>" up un type] st(1) s eq False by auto
  next
    case True
    then have s: "find_pure up un type e a = Cont ?b" using st(2) ne by (simp add: l(1))
    have "length nm = 15 * (j + 1) + length (names_of ?ns)" "ef_num_ext ?b = int (j + 1 + length ?ns) + 1"
      "ef_order ?b = int (j + 1) + 1" "ef_feasible ?b" "ef_uniname ?b = Some (15 * (int (j + 1) - 1))"
      using "3.prems"(2,5,6) l(1) by (simp_all add: n)
    then have "safe (find_pure up un type) (find_ok up un) ?ns ?b \<and>
      (if map up (names_of ?ns) = map up (drop (15 * (j + 1)) nm)
       then walk (find_pure up un type) ?ns ?b = Ret (ef_dentry ?b + int (length ?ns) - 1 - ef_num_ext ?b)
       else \<exists>b. walk (find_pure up un type) ?ns ?b = Cont b \<and> ef_dentry b = ef_dentry ?b + int (length ?ns))"
      by (intro "3.IH" [OF l(3)] disjI2)
    then show ?thesis using st(1) s eq True by (auto simp: algebra_simps)
  qed
qed

lemma prim_step:
  assumes "exfat_get_entry_type f \<in> {TYPE_FILE, TYPE_DIR}"
  shows "find_ok up un f a" "find_pure up un type f a = Cont (if type = TYPE_ALL \<or> type = exfat_get_entry_type f
    then a\<lparr>ef_dentry := ef_dentry a + 1, ef_num_ext := uint (f ! file_num_ext), ef_feasible := True\<rparr>
    else a\<lparr>ef_dentry := ef_dentry a + 1, ef_feasible := False\<rparr>)"
  using assms by (auto simp: find_ok_def find_pure_def Let_def type_defs)

lemma stream_step:
  assumes "exfat_get_entry_type st = TYPE_STREAM"
  shows "find_ok up un st a" "find_pure up un type st a = Cont (let b = a\<lparr>ef_dentry := ef_dentry a + 1\<rparr> in
    if \<not> ef_feasible a then b else if un_len un = st ! strm_name_len then b\<lparr>ef_order := 1\<rparr> else b\<lparr>ef_feasible := False\<rparr>)"
  using assms by (auto simp: find_ok_def find_pure_def Let_def type_defs)

lemma item_walk:
  assumes "searched nm un" "item_ok it"
  shows "safe (find_pure up un type) (find_ok up un) (item_entries it) a \<and>
    (if item_matches up nm type it then walk (find_pure up un type) (item_entries it) a = Ret (ef_dentry a)
     else \<exists>b. walk (find_pure up un type) (item_entries it) a = Cont b \<and> ef_dentry b = ef_dentry a + int (length (item_entries it)))"
proof (cases it)
  case (FreeEntry e)
  then show ?thesis using assms(2) by (simp add: find_ok_def find_pure_def Let_def type_defs)
next
  case (OtherEntry e)
  then show ?thesis using assms(2) by (simp add: find_ok_def find_pure_def Let_def)
next
  case (FileSet f st ns)
  have ok: "exfat_get_entry_type f \<in> {TYPE_FILE, TYPE_DIR}" "exfat_get_entry_type st = TYPE_STREAM" "parts_ok ns"
    "unat (f ! file_num_ext) = length ns + 1" "unat (st ! strm_name_len) = length (names_of ns)" using assms(2) FileSet by simp_all
  note f = prim_step [OF ok(1), of up un] and st = stream_step [OF ok(2), of up un]
  have len: "un_len un = st ! strm_name_len \<longleftrightarrow> length nm = length (names_of ns)"
  proof -
    have "unat (un_len un) = length nm" using assms(1) by (simp add: searched_def MAX_NAME_LENGTH_def unat_of_nat_u8)
    then show ?thesis using ok(5) by (simp add: word_unat_eq_iff)
  qed
  have num: "uint (f ! file_num_ext) = int (0 + length ns) + 1" using ok(4) by (metis add_0 of_nat_1 of_nat_add uint_nat)
  define b where "b = a\<lparr>ef_num_ext := int (0 + length ns) + 1, ef_feasible := True, ef_dentry := 2 + ef_dentry a, ef_order := 1\<rparr>"
  show ?thesis
  proof (cases "(type = TYPE_ALL \<or> type = exfat_get_entry_type f) \<and> length nm = length (names_of ns)")
    case True
    then have "walk (find_pure up un type) (item_entries it) a = walk (find_pure up un type) ns b"
      "safe (find_pure up un type) (find_ok up un) (item_entries it) a = safe (find_pure up un type) (find_ok up un) ns b"
      using f st len num by (simp_all add: FileSet b_def Let_def)
    moreover have "item_matches up nm type it \<longleftrightarrow> map up (names_of ns) = map up (drop (15 * 0) nm)" using True by (simp add: FileSet)
    moreover have "ef_feasible b" "ef_order b = int 0 + 1" "ef_num_ext b = int (0 + length ns) + 1" "ef_dentry b = 2 + ef_dentry a" by (simp_all add: b_def)
    moreover have "int (length (item_entries it)) = 2 + int (length ns)" by (simp add: FileSet)
    ultimately show ?thesis
      using names_walk [OF assms(1) ok(3), of b 0 up type] True by auto
  next
    case False
    define c where "c = (if type = TYPE_ALL \<or> type = exfat_get_entry_type f
      then a\<lparr>ef_num_ext := uint (f ! file_num_ext), ef_dentry := 2 + ef_dentry a, ef_feasible := False\<rparr>
      else a\<lparr>ef_feasible := False, ef_dentry := 2 + ef_dentry a\<rparr>)"
    have c: "walk (find_pure up un type) (item_entries it) a = walk (find_pure up un type) ns c" "\<not> ef_feasible c"
      "safe (find_pure up un type) (find_ok up un) (item_entries it) a = safe (find_pure up un type) (find_ok up un) ns c"
      "ef_dentry c = 2 + ef_dentry a"
      using f st len False by (cases "length nm = length (names_of ns)"; simp add: FileSet Let_def c_def)+
    have "\<not> item_matches up nm type it" using False by (auto simp: FileSet dest: map_eq_imp_length_eq)
    then show ?thesis using walk_infeasible [OF ok(3) c(2), of up un type] c by (auto simp: FileSet)
  qed
qed

lemma items_walk:
  assumes "searched nm un" "\<forall>it\<in>set its. item_ok it" "rest = [] \<or> exfat_get_entry_type (hd rest) = TYPE_UNUSED" "ef_dentry a = int i"
  shows "safe (find_pure up un type) (find_ok up un) (concat (map item_entries its) @ rest) a \<and>
    (finishes same_find (\<lambda>_. -2) (walk (find_pure up un type) (concat (map item_entries its) @ rest) a) r \<longrightarrow>
      r = find_item (item_matches up nm type) i its)"
  using assms(2,4)
proof (induction its arbitrary: a i)
  case Nil
  show ?case
  proof (cases rest)
    case Nil
    then show ?thesis by (simp add: finishes_def)
  next
    case (Cons e es)
    then have "exfat_get_entry_type e = TYPE_UNUSED" using assms(3) by simp
    then show ?thesis using Cons by (simp add: find_ok_def find_pure_def finishes_def type_defs Let_def)
  qed
next
  case (Cons it its)
  note w = item_walk [OF assms(1), of it up type a]
  show ?case
  proof (cases "item_matches up nm type it")
    case True
    then show ?thesis using w Cons.prems by (simp add: safe_append walk_append finishes_def)
  next
    case False
    then obtain b where b: "walk (find_pure up un type) (item_entries it) a = Cont b"
      "ef_dentry b = int (i + length (item_entries it))" "safe (find_pure up un type) (find_ok up un) (item_entries it) a"
      using w Cons.prems by auto
    show ?thesis using Cons.IH [OF _ b(2)] b(1,3) False Cons.prems(1) by (simp add: safe_append walk_append)
  qed
qed

lemma exfat_find_run:
  assumes "scannable ch xs s" "fs_func s = ExfatOps" "searched nm un" "\<not> is_root_dot up ch un s"
    "dir_list s xs = concat (map item_entries its) @ rest" "\<forall>it\<in>set its. item_ok it"
    "rest = [] \<or> exfat_get_entry_type (hd rest) = TYPE_UNUSED"
  shows "\<exists>t. run_state (exfat_find_dir_entry up ch un n dn type) s = (find_item (item_matches up nm type) 0 its, t) \<and> search_step s t"
proof -
  let ?a = "\<lparr>ef_dentry = 0, ef_num_ext = 0, ef_order = 0, ef_feasible = False, ef_num_empty = 0, ef_uniname = None\<rparr>"
  let ?s = "s\<lparr>hint_uentry := hint_uentry s\<lparr>ue_dir := chain_dir ch, ue_entry := -1\<rparr>\<rparr>"
  have v: "vol_ok s" using assms(1) by (simp add: scannable_def is_dir_def)
  have st: "search_step s ?s" by (rule search_step_hint [OF v])
  have l: "dir_list ?s xs = dir_list s xs" "scannable ch xs ?s" using assms(1) by (simp_all add: dir_list_def scannable_def)
  note w = items_walk [OF assms(3,6,7), of ?a 0 up type]
  have sf: "safe (find_pure up un type) (find_ok up un) (dir_list ?s xs) ?a" using w by (simp add: l assms(5))
  have same: "same_find ?a ?a" using same_find_update [of 0 ?a] by simp
  have g: "fs_func ?s = ExfatOps" using assms(2) by simp
  obtain r t where
    "run_state (scan_dir ch chain_next (\<lambda>_. Ret (-2)) (exfat_find_body up un n type) (\<lambda>_. -2) (\<lambda>_. -2) ?a) ?s = (r, t)" "search_step ?s t"
    "finishes same_find (\<lambda>_. -2) (walk (find_pure up un type) (dir_list ?s xs) ?a) r"
    using naming.scan_run [OF chain_next_advances l(2) g same sf] by blast
  then show ?thesis using w search_step_trans [OF st] assms(4)
    by (auto simp: exfat_find_dir_entry_def set_hint_def l assms(5))
qed

end
