(* ===== verification/NameSpec.thy ===== *)
theory NameSpec
  imports NameSearch
begin

text \<open>
  A directory as a map from names to entry sets: what \<^verbatim>\<open>exfat_find_dir_entry\<close> returns after a name has been stored, after its entries
  have been deleted, and what counting and the test for emptiness return.
\<close>

section \<open>After an entry set has been stored\<close>

lemma dir_step_scannable:
  assumes "dir_step xs s t" "scannable ch xs s"
  shows "scannable ch xs t" "entry_room t xs = entry_room s xs" "fs_func t = fs_func s" "is_root_dot up ch un t = is_root_dot up ch un s"
proof -
  have v: "vol_step s t" using assms(1) by (simp add: dir_step_def)
  have f: "dev_ejected t = dev_ejected s" "dentries_per_clu t = dentries_per_clu s" "dentries_in_root t = dentries_in_root s"
    "cluster_size_bits t = cluster_size_bits s" "root_dir t = root_dir s" by (rule vol_step_eq [OF v]; simp)+
  note d = dir_step_is_dir [OF assms(1), of ch]
  show "scannable ch xs t" using assms(2) d vol_step_dir(5) [OF v, of "[]"] by (simp add: scannable_def f)
  show "entry_room t xs = entry_room s xs" using assms(2) d by (simp add: scannable_def)
  show "fs_func t = fs_func s" "is_root_dot up ch un t = is_root_dot up ch un s"
    by (simp_all add: vol_step_fields [OF v] is_root_dot_def f)
qed

lemma name_units_init:
  assumes "length e = 32" "15 \<le> length uni"
  shows "name_units (init_name_entry e uni) = takeWhile (\<lambda>u. u \<noteq> 0) (take 15 uni)"
  using assms by (simp add: name_units_def init_name_entry_def exfat_set_entry_type_def layouts type_defs Let_def
      put_name_units_units [where k = 0, simplified])

lemma concat_parts: "concat (map (\<lambda>k. take 15 (drop (15 * k) nm)) [0..<m]) = take (15 * m) nm"
proof (induction m)
  case (Suc m)
  have "take (15 * Suc m) nm = take (15 * m) nm @ take 15 (drop (15 * m) nm)" by (simp add: take_add [symmetric] add.commute)
  then show ?case using Suc by simp
qed simp

lemma parts_okI:
  assumes "0 < length ns" "\<forall>e\<in>set ns. exfat_get_entry_type e = TYPE_EXTEND" "\<forall>k. Suc k < length ns \<longrightarrow> length (name_units (ns ! k)) = 15"
  shows "parts_ok ns"
  using assms
proof (induction ns rule: parts_ok.induct)
  case (3 e e' es)
  have "\<forall>k. Suc k < length (e' # es) \<longrightarrow> length (name_units ((e' # es) ! k)) = 15" using 3(4) [rule_format, of "Suc k" for k] by auto
  then show ?case using 3 by auto
qed simp_all

lemma stored_parts:
  assumes "searched nm un" "nm \<noteq> []" "length ns = (length nm + 14) div 15" "\<forall>k<length ns. \<exists>e. length e = 32 \<and> ns ! k = init_name_entry e (drop (15 * k) (un_name un))"
  shows "parts_ok ns" "names_of ns = nm"
proof -
  obtain rest where u: "un_name un = nm @ 0 # rest" "0 \<notin> set nm" "length nm < 256" "length (un_name un) = 256"
    using assms(1) by (auto simp: searched_def MAX_NAME_LENGTH_def)
  have pos: "0 < length nm" using assms(2) by simp
  have m: "15 * length ns \<le> length nm + 14" "length nm \<le> 15 * length ns" using name_entries_bounds [OF pos] assms(3) by simp_all
  have part: "name_units (ns ! k) = take 15 (drop (15 * k) nm)" if lt: "k < length ns" for k
  proof -
    obtain e where e: "length e = 32" "ns ! k = init_name_entry e (drop (15 * k) (un_name un))" using assms(4) lt by blast
    have k: "15 * k + 15 \<le> 15 * length ns" "15 * k \<le> length nm" using lt m by linarith+
    have "15 * length ns < 256 + 14" using m(1) u(3) by linarith
    then have "15 * k + 15 \<le> 256" using k(1) lt by presburger
    then have "15 \<le> length (drop (15 * k) (un_name un))" by (simp add: u(4))
    then show ?thesis using name_units_init [OF e(1)] takeWhile_name [OF u(2) k(2), of 15 rest] by (simp add: e(2) u(1))
  qed
  have "map name_units ns = map (\<lambda>k. take 15 (drop (15 * k) nm)) [0..<length ns]" by (rule nth_equalityI) (simp_all add: part)
  then have "names_of ns = take (15 * length ns) nm" by (simp add: names_of_def concat_parts)
  then show "names_of ns = nm" using m(2) by simp
  show "parts_ok ns"
  proof (rule parts_okI)
    show "0 < length ns" using m(2) pos by linarith
    show "\<forall>e\<in>set ns. exfat_get_entry_type e = TYPE_EXTEND" unfolding all_set_conv_all_nth using assms(4) init_name_entry_type by metis
    show "\<forall>k. Suc k < length ns \<longrightarrow> length (name_units (ns ! k)) = 15"
    proof (intro allI impI)
      fix k assume k: "Suc k < length ns"
      then have "15 * k + 15 \<le> length nm" using m(1) by linarith
      then show "length (name_units (ns ! k)) = 15" using part [of k] k by simp
    qed
  qed
qed

lemma find_item_append:
  "\<forall>it\<in>set its. \<not> P it \<Longrightarrow> find_item P i (its @ js) = find_item P (i + length (concat (map item_entries its))) js"
  by (induction its arbitrary: i) (simp_all add: add.assoc)

lemma find_item_none: "\<forall>it\<in>set its. \<not> P it \<Longrightarrow> find_item P i its = -2"
  by (induction its arbitrary: i) simp_all

lemma stored_file_run:
  assumes sc: "scannable ch xs s" "xs \<noteq> []" "all_unlocked s" "fs_func s = ExfatOps" and nm: "searched nm un" "nm \<noteq> []" "\<not> is_root_dot up ch un s"
    and l: "dir_list s xs = concat (map item_entries its) @ f # st # ns @ rest" "f ! 0 = 0x85" "st ! 0 = 0xC0"
    and n: "length ns = (length nm + 14) div 15"
    and its: "\<forall>it\<in>set its. item_ok it \<and> \<not> item_matches up nm type it" and rest: "rest = [] \<or> exfat_get_entry_type (hd rest) = TYPE_UNUSED"
    and type: "type \<in> {TYPE_ALL, exfat_get_entry_type f}" and e: "e = length (concat (map item_entries its))"
  shows "\<exists>t u. run_state (exfat_init_ext_entry ch (int e) (int (length ns + 2)) un) s = (FFS_SUCCESS, t) \<and>
    run_state (exfat_find_dir_entry up ch un m dn type) t = (int e, u)"
proof -
  let ?n = "length ns + 2"
  have d: "is_dir ch xs s" using sc(1) by (simp add: scannable_def)
  have ds: "dir_list v xs = map (entry_at v xs) [0..<entry_room v xs]" for v using sc(2) by (simp add: dir_list_def)
  have R: "entry_room s xs = e + ?n + length rest" using arg_cong [OF l(1), of length] by (simp add: ds e)
  have at: "entry_at s xs i = (concat (map item_entries its) @ f # st # ns @ rest) ! i" if "i < entry_room s xs" for i
    using that l(1) by (metis add_0 diff_zero ds length_upt nth_map nth_upt)
  have len: "length (entry_at v xs i) = 32" if "is_dir ch xs v" for v i by (rule ea.len [OF that])
  have ft: "entry_at s xs e = f" "entry_at s xs (e + 1) = st" using R by (simp_all add: at e nth_append)
  have lnm: "length nm < 256" "0 < length nm" using nm(1,2) by (auto simp: searched_def MAX_NAME_LENGTH_def)
  have n19: "?n \<le> 19" using name_entries_bounds [OF lnm(2)] lnm n by linarith
  obtain t where t: "run_state (exfat_init_ext_entry ch (int e) (int ?n) un) s = (FFS_SUCCESS, t)" "dir_step xs s t"
    and out: "\<forall>j<entry_room s xs. j < e \<or> e + ?n \<le> j \<longrightarrow> entry_at t xs j = entry_at s xs j"
    and e0: "entry_at t xs e = SET16 (f[file_num_ext := of_nat (?n - 1)]) file_checksum (entries_checksum (map (entry_at t xs) [e..<e + ?n]))"
    and e1: "entry_at t xs (e + 1) = SET16 (st[strm_name_len := un_len un]) strm_name_hash (un_hash un)"
    and en: "\<forall>k<?n - 2. entry_at t xs (e + 2 + k) = init_name_entry (entry_at s xs (e + 2 + k)) (drop (15 * k) (un_name un))"
    using init_ext_entry_run [OF d sc(3), of ?n e un] n19 R ft by auto
  note sct = dir_step_scannable [OF t(2) sc(1)]
  let ?f = "entry_at t xs e" and ?st = "entry_at t xs (e + 1)" and ?ns = "map (\<lambda>k. entry_at t xs (e + 2 + k)) [0..<length ns]"
  have lf: "length f = 32" "length st = 32" using len [OF d, of e] len [OF d, of "e + 1"] unfolding ft by simp_all
  have tf: "exfat_get_entry_type ?f = exfat_get_entry_type f" by (rule exfat_type_cong) (simp_all add: e0 SET16_def layouts)
  have ts: "exfat_get_entry_type ?st = TYPE_STREAM" unfolding exfat_type_bytes e1 using l(3) by (simp add: SET16_def layouts)
  have ns: "parts_ok ?ns" "names_of ?ns = nm" using stored_parts [OF nm(1,2), of ?ns] n en len [OF d] by auto
  have num: "unat (?f ! file_num_ext) = length ?ns + 1"
    using lf(1) n19 unat_of_nat_u8 [of "?n - 1"] by (simp add: e0 SET16_def layouts del: of_nat_Suc)
  have nl: "unat (?st ! strm_name_len) = length (names_of ?ns)"
  proof -
    have "un_len un = of_nat (length nm)" using nm(1) by (simp add: searched_def)
    then show ?thesis using lf(2) lnm(1) unfolding ns(2) e1 by (simp add: SET16_def layouts unat_of_nat_u8)
  qed
  let ?it = "FileSet ?f ?st ?ns"
  have it: "item_ok ?it" "item_matches up nm type ?it"
    using exfat_type_file [OF l(2)] tf ts ns num nl type by auto
  have dl: "dir_list t xs = concat (map item_entries (its @ [?it])) @ rest"
  proof -
    have "[0..<entry_room t xs] = [0..<e] @ e # (e + 1) # map (\<lambda>k. e + 2 + k) [0..<length ns] @ [e + ?n..<entry_room s xs]"
    proof -
      have "[0..<entry_room t xs] = [0..<e] @ [e..<e + 2] @ [e + 2..<e + 2 + length ns] @ [e + ?n..<entry_room s xs]"
        unfolding sct(2) R using upt_add_eq_append [of 0 e "?n + length rest"] upt_add_eq_append [of e "e + 2" "length ns + length rest"]
          upt_add_eq_append [of "e + 2" "e + 2 + length ns" "length rest"] by (simp add: add.assoc)
      moreover have "[e + 2..<e + 2 + length ns] = map (\<lambda>k. e + 2 + k) [0..<length ns]" using map_add_upt [of "e + 2" "length ns"] by (simp add: add.commute)
      moreover have "[e..<e + 2] = [e, e + 1]" by (simp add: upt_rec)
      ultimately show ?thesis by simp
    qed
    moreover have "map (entry_at t xs) [0..<e] = concat (map item_entries its)"
      by (rule nth_equalityI) (use out R at in \<open>auto simp: e nth_append\<close>)
    moreover have "map (entry_at t xs) [e + ?n..<entry_room s xs] = rest"
    proof (rule nth_equalityI)
      fix i assume i: "i < length (map (entry_at t xs) [e + ?n..<entry_room s xs])"
      have "(concat (map item_entries its) @ f # st # ns) @ rest = concat (map item_entries its) @ f # st # ns @ rest"
        "length (concat (map item_entries its) @ f # st # ns) = e + ?n" by (simp_all add: e)
      then have "entry_at s xs (e + ?n + i) = rest ! i" using at [of "e + ?n + i"] i R by (metis length_map length_upt less_diff_conv add.commute nth_append_length_plus)
      then show "map (entry_at t xs) [e + ?n..<entry_room s xs] ! i = rest ! i" using out [rule_format, of "e + ?n + i"] i by simp
    qed (simp only: R length_map length_upt diff_add_inverse)
    ultimately show ?thesis by (simp add: ds comp_def)
  qed
  have "\<forall>it\<in>set (its @ [?it]). item_ok it" using its it(1) by simp
  from exfat_find_run [OF sct(1) _ nm(1) _ dl this rest, of up m dn type] obtain u where
    "run_state (exfat_find_dir_entry up ch un m dn type) t = (find_item (item_matches up nm type) 0 (its @ [?it]), u)"
    using sc(4) sct(3) nm(3) sct(4) [of up un] by auto
  moreover have "find_item (item_matches up nm type) 0 (its @ [?it]) = int e" using its it(2) by (simp add: find_item_append e)
  ultimately show ?thesis using t(1) by auto
qed

section \<open>After the entries of a file have been deleted\<close>

lemma used_byte: "exfat_get_entry_type e \<in> {TYPE_FILE, TYPE_DIR, TYPE_STREAM, TYPE_EXTEND} \<Longrightarrow> e ! 0 \<noteq> 0 \<and> e ! 0 \<noteq> 0x80"
  by (auto simp: exfat_get_entry_type_def layouts type_defs)

lemma parts_ok_types: "parts_ok ns \<Longrightarrow> e \<in> set ns \<Longrightarrow> exfat_get_entry_type e = TYPE_EXTEND"
  by (induction ns rule: parts_ok.induct) auto

lemma map_middle_nth:
  "length l = e \<Longrightarrow> length es = n \<Longrightarrow> (l @ map g es @ r) ! i = (if e \<le> i \<and> i < e + n then g ((l @ es @ r) ! i) else (l @ es @ r) ! i)"
  by (auto simp: nth_append)

lemma deleted_file_run:
  assumes sc: "scannable ch xs s" "xs \<noteq> []" "fs_func s = ExfatOps" and nm: "searched nm un" "\<not> is_root_dot up ch un s"
    and l: "dir_list s xs = concat (map item_entries (its @ FileSet f st ns # js)) @ rest"
    and its: "\<forall>it\<in>set (its @ FileSet f st ns # js). item_ok it" "\<forall>it\<in>set (its @ js). \<not> item_matches up nm type it"
    and rest: "rest = [] \<or> exfat_get_entry_type (hd rest) = TYPE_UNUSED" and e: "e = length (concat (map item_entries its))"
  shows "\<exists>t u. run_state (delete_dir_entry ExfatOps ch (int e) 0 (int (length ns + 2))) s = ((), t) \<and>
    run_state (exfat_find_dir_entry up ch un m dn type) t = (-2, u)"
proof -
  let ?n = "length ns + 2" and ?es = "f # st # ns" and ?l = "concat (map item_entries its)" and ?r = "concat (map item_entries js) @ rest"
  have d: "is_dir ch xs s" using sc(1) by (simp add: scannable_def)
  have ds: "dir_list v xs = map (entry_at v xs) [0..<entry_room v xs]" for v using sc(2) by (simp add: dir_list_def)
  have l': "dir_list s xs = ?l @ ?es @ ?r" using l by simp
  have R: "entry_room s xs = e + ?n + length ?r" using arg_cong [OF l', of length] by (simp add: ds e)
  have at: "entry_at s xs i = (?l @ ?es @ ?r) ! i" if "i < entry_room s xs" for i
    using that l' by (metis add_0 diff_zero ds length_upt nth_map nth_upt)
  have "e + ?n \<le> entry_room s xs" using R by simp
  from delete_loop_run [OF d this] obtain t where
    t: "run_state (delete_loop ?n ch (int e) 1) s = ((), t)" "dir_step xs s t"
    "\<forall>j<entry_room s xs. entry_at t xs j = (if e \<le> j \<and> j < e + ?n then mark_deleted s (entry_at s xs j) else entry_at s xs j)"
    by blast
  have run: "run_state (delete_dir_entry ExfatOps ch (int e) 0 (int ?n)) s = ((), t)" using t(1)
    by (simp only: delete_dir_entry.simps exfat_delete_dir_entry_def diff_zero add_0_right nat_int)
  note sct = dir_step_scannable [OF t(2) sc(1)]
  let ?its = "its @ map (\<lambda>x. FreeEntry (mark_deleted s x)) ?es @ js"
  have n: "length ?l = e" "length ?es = ?n" by (simp_all add: e)
  have dl: "dir_list t xs = concat (map item_entries ?its) @ rest"
  proof -
    have "concat (map item_entries ?its) @ rest = ?l @ map (mark_deleted s) ?es @ ?r"
      by (simp add: comp_def concat_map_singleton)
    moreover have "dir_list t xs = ?l @ map (mark_deleted s) ?es @ ?r"
    proof (rule nth_equalityI)
      show len: "length (dir_list t xs) = length (?l @ map (mark_deleted s) ?es @ ?r)" using R by (simp add: ds sct(2) e)
      fix i assume "i < length (dir_list t xs)"
      then have i: "i < entry_room s xs" by (simp add: ds sct(2))
      then have "dir_list t xs ! i = entry_at t xs i" by (simp add: ds sct(2))
      also have "\<dots> = (?l @ map (mark_deleted s) ?es @ ?r) ! i"
        unfolding map_middle_nth [OF n] t(3) [rule_format, OF i] at [OF i] ..
      finally show "dir_list t xs ! i = (?l @ map (mark_deleted s) ?es @ ?r) ! i" .
    qed
    ultimately show ?thesis by simp
  qed
  have del: "exfat_get_entry_type (mark_deleted s x) = TYPE_DELETED" if "x \<in> set ?es" for x
  proof -
    obtain i where i: "i < length ?es" "x = ?es ! i" using \<open>x \<in> set ?es\<close> by (metis in_set_conv_nth)
    have "e + i < entry_room s xs" using i(1) R by simp
    then have "x = entry_at s xs (e + i)" using at [of "e + i"] i n by (metis nth_append nth_append_length_plus)
    then have len: "length x = 32" using ea.len [OF d] by simp
    have "exfat_get_entry_type x \<in> {TYPE_FILE, TYPE_DIR, TYPE_STREAM, TYPE_EXTEND}"
      using that its(1) parts_ok_types by auto
    from used_byte [OF this] show ?thesis using deleted_type [OF len, of ExfatOps] sc(3) by (simp add: exfat_fs_func_def)
  qed
  have ok: "\<forall>it\<in>set ?its. item_ok it" using its(1) del by auto
  have "\<forall>it\<in>set ?its. \<not> item_matches up nm type it" using its(2) by auto
  then have none: "find_item (item_matches up nm type) 0 ?its = -2" by (rule find_item_none)
  from exfat_find_run [OF sct(1) _ nm(1) _ dl ok rest, of up m dn type] obtain u where
    "run_state (exfat_find_dir_entry up ch un m dn type) t = (-2, u)"
    using sc(3) sct(3) nm(2) sct(4) [of up un] none by auto
  then show ?thesis using run by blast
qed

section \<open>A file with further secondary entries\<close>

text \<open>
  The automaton reports a file at its last entry, and only when this is a name entry: with a further secondary entry behind the
  names (which \<^verbatim>\<open>get_entry_set_in_dir\<close> accepts) the count in the file entry is not reached, and no search finds the file.
\<close>

lemma names_walk_longer:
  assumes "searched nm un" "parts_ok ns" "ef_feasible a" "ef_order a = int j + 1" "j = 0 \<or> ef_uniname a = Some (15 * (int j - 1))"
    "int (j + length ns) + 1 < ef_num_ext a" "length nm = 15 * j + length (names_of ns)"
  shows "safe (find_pure up un type) (find_ok up un) ns a \<and> (\<exists>b. walk (find_pure up un type) ns a = Cont b)"
  using assms(2-)
proof (induction ns arbitrary: a j rule: parts_ok.induct)
  case 1
  then show ?case by simp
next
  case (2 e)
  have r: "15 * j + length (name_units e) \<le> length nm" using "2.prems"(6) by (simp add: names_of_def)
  note st = name_step [OF assms(1) _ "2.prems"(2,3,4) r]
  show ?case using "2.prems"(1,5) st(1) [of up] st(2) [of up type] by auto
next
  case (3 e e' es)
  let ?b = "a\<lparr>ef_dentry := ef_dentry a + 1, ef_order := int j + 2, ef_uniname := Some (int (15 * j))\<rparr>"
  have l: "length (name_units e) = 15" "exfat_get_entry_type e = TYPE_EXTEND" "parts_ok (e' # es)" using "3.prems"(1) by simp_all
  have n: "length nm = 15 * (j + 1) + length (names_of (e' # es))" using "3.prems"(6) l(1) by (simp add: names_of_def)
  have r: "15 * j + length (name_units e) \<le> length nm" using n l(1) by simp
  note st = name_step [OF assms(1) l(2) "3.prems"(2,3,4) r, of up]
  have "int j + 2 \<noteq> ef_num_ext a" using "3.prems"(5) by simp
  then consider "find_pure up un type e a = Cont (?b\<lparr>ef_feasible := False\<rparr>)" | "find_pure up un type e a = Cont ?b" using st(2) [of type] by metis
  then show ?case
  proof cases
    case 1
    then show ?thesis using walk_infeasible [OF l(3), of "?b\<lparr>ef_feasible := False\<rparr>" up un type] st(1) by auto
  next
    case 2
    have "safe (find_pure up un type) (find_ok up un) (e' # es) ?b \<and> (\<exists>b. walk (find_pure up un type) (e' # es) ?b = Cont b)"
      by (rule "3.IH" [OF l(3), of _ "j + 1"]) (use "3.prems"(2,5) n in simp_all)
    then show ?thesis using 2 st(1) by auto
  qed
qed

lemma extension_hides_file:
  assumes "scannable ch xs s" "fs_func s = ExfatOps" "searched nm un" "\<not> is_root_dot up ch un s"
    "dir_list s xs = f # st # ns @ x # rest" "rest = [] \<or> exfat_get_entry_type (hd rest) = TYPE_UNUSED"
    "exfat_get_entry_type f \<in> {TYPE_FILE, TYPE_DIR}" "exfat_get_entry_type st = TYPE_STREAM" "parts_ok ns" "names_of ns = nm"
    "st ! strm_name_len = of_nat (length nm)" "unat (f ! file_num_ext) = length ns + 2"
    "exfat_get_entry_type x \<notin> {TYPE_UNUSED, TYPE_DELETED, TYPE_FILE, TYPE_DIR, TYPE_STREAM, TYPE_EXTEND}"
  shows "\<exists>t. run_state (exfat_find_dir_entry up ch un n dn TYPE_ALL) s = (-2, t)"
proof -
  let ?a = "\<lparr>ef_dentry = 0, ef_num_ext = 0, ef_order = 0, ef_feasible = False, ef_num_empty = 0, ef_uniname = None\<rparr>"
  let ?s = "s\<lparr>hint_uentry := hint_uentry s\<lparr>ue_dir := chain_dir ch, ue_entry := -1\<rparr>\<rparr>"
  let ?b = "\<lparr>ef_dentry = 2, ef_num_ext = int (length ns) + 2, ef_order = 1, ef_feasible = True, ef_num_empty = 0, ef_uniname = None\<rparr>"
  let ?p = "find_pure up un TYPE_ALL" and ?ok = "find_ok up un"
  have num: "uint (f ! file_num_ext) = int (length ns) + 2" using assms(12) by (metis of_nat_add of_nat_numeral uint_nat)
  have len: "un_len un = st ! strm_name_len" using assms(3,11) by (simp add: searched_def)
  have tail: "safe ?p ?ok (x # rest) b \<and> (finishes same_find (\<lambda>_. -2) (walk ?p (x # rest) b) r \<longrightarrow> r = -2)" for b r
    using assms(6,13) by (cases rest) (simp_all add: find_ok_def find_pure_def Let_def finishes_def type_defs)
  have names: "safe ?p ?ok ns ?b \<and> (\<exists>b. walk ?p ns ?b = Cont b)"
    by (rule names_walk_longer [OF assms(3,9), of _ 0]) (simp_all add: assms(10))
  have steps: "safe ?p ?ok (f # st # zs) ?a = safe ?p ?ok zs ?b" "walk ?p (f # st # zs) ?a = walk ?p zs ?b" for zs
    using prim_step [OF assms(7), of up un] stream_step [OF assms(8), of up un] by (simp_all add: num len Let_def)
  have w: "safe ?p ?ok (f # st # ns @ x # rest) ?a" "finishes same_find (\<lambda>_. -2) (walk ?p (f # st # ns @ x # rest) ?a) r \<longrightarrow> r = -2" for r
    unfolding steps using names tail by (auto simp: safe_append walk_append)
  have v: "vol_ok s" using assms(1) by (simp add: scannable_def is_dir_def)
  have l: "dir_list ?s xs = dir_list s xs" "scannable ch xs ?s" "fs_func ?s = ExfatOps" using assms(1,2) by (simp_all add: dir_list_def scannable_def)
  have sf: "safe ?p ?ok (dir_list ?s xs) ?a" using w(1) by (simp add: l(1) assms(5))
  have same: "same_find ?a ?a" using same_find_update [of 0 ?a] by simp
  obtain r t where
    "run_state (scan_dir ch chain_next (\<lambda>_. Ret (-2)) (exfat_find_body up un n TYPE_ALL) (\<lambda>_. -2) (\<lambda>_. -2) ?a) ?s = (r, t)"
    "finishes same_find (\<lambda>_. -2) (walk ?p (dir_list ?s xs) ?a) r"
    using naming.scan_run [OF chain_next_advances l(2,3) same sf] by blast
  then show ?thesis using w(2) assms(4) by (auto simp: exfat_find_dir_entry_def set_hint_def l(1) assms(5))
qed

section \<open>The properties\<close>

text \<open>
  C7: On a directory that is a sequence of free entries, other primary entries and well-formed entry sets, over any number of
  sectors and clusters, \<^verbatim>\<open>exfat_find_dir_entry\<close> returns the index of the first file of the wanted type whose name is, up to
  case, the searched one, and \<open>-2\<close> when there is none.
\<close>

theorem exfat_find_dir_entry_correct:
  assumes "scannable ch xs s" "fs_func s = ExfatOps" "searched nm un" "\<not> is_root_dot up ch un s"
    and "dir_list s xs = concat (map item_entries its) @ rest" "\<forall>it\<in>set its. item_ok it"
    and "rest = [] \<or> exfat_get_entry_type (hd rest) = TYPE_UNUSED"
  shows "\<exists>r t. run_state (exfat_find_dir_entry up ch un n dn type) s = (r, t) \<and> search_step s t \<and>
    ((\<exists>k<length its. item_matches up nm type (its ! k) \<and> (\<forall>j<k. \<not> item_matches up nm type (its ! j)) \<and>
        r = int (length (concat (map item_entries (take k its))))) \<or>
     (\<forall>it\<in>set its. \<not> item_matches up nm type it) \<and> r = -2)"
  using exfat_find_run [OF assms, of n dn type] find_item_spec [of its "item_matches up nm type" 0] by auto

text \<open>
  C15: A name that \<^verbatim>\<open>exfat_init_ext_entry\<close> stores behind a file and a stream entry is found by \<^verbatim>\<open>exfat_find_dir_entry\<close>, at
  the index of the file entry, when no file before has this name.
\<close>

theorem stored_file_is_found:
  assumes "scannable ch xs s" "xs \<noteq> []" "all_unlocked s" "fs_func s = ExfatOps" "searched nm un" "nm \<noteq> []" "\<not> is_root_dot up ch un s"
    and "dir_list s xs = concat (map item_entries its) @ f # st # ns @ rest" "f ! 0 = 0x85" "st ! 0 = 0xC0"
    and "exfat_calc_num_entries (un_len un) = int (length ns + 2)"
    and "\<forall>it\<in>set its. item_ok it \<and> \<not> item_matches up nm type it" "rest = [] \<or> exfat_get_entry_type (hd rest) = TYPE_UNUSED"
    and "type \<in> {TYPE_ALL, exfat_get_entry_type f}" "e = length (concat (map item_entries its))"
  shows "\<exists>t u. run_state (exfat_init_ext_entry ch (int e) (exfat_calc_num_entries (un_len un)) un) s = (FFS_SUCCESS, t) \<and>
    run_state (exfat_find_dir_entry up ch un m dn type) t = (int e, u)"
proof -
  have "un_len un = of_nat (length nm)" "length nm < 256" "0 < length nm" using assms(5,6) by (auto simp: searched_def MAX_NAME_LENGTH_def)
  then have "length ns = (length nm + 14) div 15" using assms(11) exfat_num_entries [of "length nm"] by simp
  then show ?thesis using stored_file_run [OF assms(1-10) _ assms(12-15)] unfolding assms(11) by blast
qed

text \<open>
  C16: After \<^verbatim>\<open>delete_dir_entry\<close> has deleted the entries of a file, \<^verbatim>\<open>exfat_find_dir_entry\<close> does not find its name any
  more, when no other file of the directory has it.
\<close>

theorem deleted_file_is_gone:
  assumes "scannable ch xs s" "xs \<noteq> []" "fs_func s = ExfatOps" "searched nm un" "\<not> is_root_dot up ch un s"
    and "dir_list s xs = concat (map item_entries (its @ FileSet f st ns # js)) @ rest"
    and "\<forall>it\<in>set (its @ FileSet f st ns # js). item_ok it" "\<forall>it\<in>set (its @ js). \<not> item_matches up nm type it"
    and "rest = [] \<or> exfat_get_entry_type (hd rest) = TYPE_UNUSED" "e = length (concat (map item_entries its))"
  shows "\<exists>t u. run_state (delete_dir_entry ExfatOps ch (int e) 0 (int (length ns + 2))) s = ((), t) \<and>
    run_state (exfat_find_dir_entry up ch un m dn type) t = (-2, u)"
  by (rule deleted_file_run [OF assms])

text \<open>
  C18: \<^verbatim>\<open>count_dos_name_entries\<close> returns the number of entries of a type before the first unused one, and \<^verbatim>\<open>is_dir_empty\<close>
  whether there are no files and directories among them, or no more than the two that a FAT directory has for itself and its parent;
  both read the whole directory, on every kind of volume, and change nothing but caches.
\<close>

theorem directory_scans_correct:
  assumes "scannable ch xs s" "type AND TYPE_CRITICAL_PRI \<noteq> 0 \<or> type AND TYPE_BENIGN_PRI \<noteq> 0"
  defines "used \<equiv> used_entries (fs_func s) (dir_list s xs)"
    and "typ \<equiv> get_entry_type (ops (fs_func s))"
  shows "\<exists>t u. run_state (count_dos_name_entries ch type) s = (int (length (filter (\<lambda>e. type = TYPE_ALL \<or> type = typ e) used)), t) \<and>
    run_state (is_dir_empty ch) s = (length (filter (\<lambda>e. typ e \<in> {TYPE_FILE, TYPE_DIR}) used) \<le> (if flat_dir ch s then 0 else 2), u) \<and>
    search_step s t \<and> search_step s u"
  using count_dos_name_entries_run [OF assms(1,2)] is_dir_empty_run [OF assms(1)] unfolding used_def typ_def by auto

section \<open>On the sample volume\<close>

text \<open>A directory with the file \<open>A\<close>.\<close>

definition found_dir :: "u32 \<Rightarrow> u8 list" where
  "found_dir = zeros(18 := (replicate 512 0)[0 := 0x85, 1 := 2, 32 := 0xC0, 35 := 1, 64 := 0xC1, 66 := 65])"

definition A_name :: UNI_NAME_T where
  "A_name = \<lparr>un_name = 65 # 0 # replicate 254 0, un_hash = 0, un_len = 1\<rparr>"

lemma found_entries:
  "entry_at (ready EXFAT found_dir) [5, 6] 0 = (replicate 32 0)[0 := 0x85, 1 := 2]"
  "entry_at (ready EXFAT found_dir) [5, 6] 1 = (replicate 32 0)[0 := 0xC0, 3 := 1]"
  "entry_at (ready EXFAT found_dir) [5, 6] 2 = (replicate 32 0)[0 := 0xC1, 2 := 65]"
  "entry_at (ready EXFAT found_dir) [5, 6] 3 = replicate 32 0"
  by (simp_all add: entry_at_def entry_off_def entry_sector_def byte_sector_def clu_sector_def START_SECTOR_def found_dir_def
      take_update_swap drop_update_swap list_update_beyond)

lemma sample_scannable:
  assumes "\<And>b. length (bs b) = 512"
  shows "scannable root_ch [5, 6] (ready EXFAT bs)" "dir_list (ready EXFAT bs) [5, 6] = map (entry_at (ready EXFAT bs) [5, 6]) [0..<64]"
proof -
  have r: "entry_room (ready EXFAT bs) [5, 6] = 64" by (simp add: entry_room_def byte_room_def)
  show "scannable root_ch [5, 6] (ready EXFAT bs)"
    using vol_ok_ready [of bs EXFAT] assms
    by (simp add: scannable_def is_dir_def chain_clusters_def sized_def root_ch_def fat_limit_def vol_types is_cluster_def less_Suc_eq)
  show "dir_list (ready EXFAT bs) [5, 6] = map (entry_at (ready EXFAT bs) [5, 6]) [0..<64]" by (simp add: dir_list_def r)
qed

lemma upt_64: "[0..<64] = 0 # 1 # 2 # 3 # [4..<64]"
  by (simp add: upt_conv_Cons)

lemma A_searched: "searched [65] A_name" "\<not> is_root_dot id root_ch A_name (ready EXFAT bs)"
proof -
  show "searched [65] A_name" by (auto simp: searched_def A_name_def MAX_NAME_LENGTH_def)
  have fuel: "MAX_NAME_LENGTH = Suc 255" by (simp add: MAX_NAME_LENGTH_def)
  have "nls_uniname_cmp id a 0 b 0 = 1" if "a ! 0 \<noteq> b ! 0" for a b
    unfolding nls_uniname_cmp_def fuel uniname_cmp_loop.simps using that by simp
  then show "\<not> is_root_dot id root_ch A_name (ready EXFAT bs)"
    by (simp add: is_root_dot_def A_name_def UNI_CUR_DIR_NAME_def UNI_PAR_DIR_NAME_def)
qed

lemma found_items:
  "dir_list (ready EXFAT found_dir) [5, 6] = concat (map item_entries [FileSet (entry_at (ready EXFAT found_dir) [5, 6] 0)
    (entry_at (ready EXFAT found_dir) [5, 6] 1) [entry_at (ready EXFAT found_dir) [5, 6] 2]]) @
    entry_at (ready EXFAT found_dir) [5, 6] 3 # map (entry_at (ready EXFAT found_dir) [5, 6]) [4..<64]"
proof -
  have "length (found_dir b) = 512" for b by (simp add: found_dir_def)
  then show ?thesis by (simp add: sample_scannable(2) upt_64)
qed

lemma found_item_ok:
  "item_ok (FileSet (entry_at (ready EXFAT found_dir) [5, 6] 0) (entry_at (ready EXFAT found_dir) [5, 6] 1) [entry_at (ready EXFAT found_dir) [5, 6] 2])"
  "names_of [entry_at (ready EXFAT found_dir) [5, 6] 2] = [65]"
proof -
  let ?e = "(replicate 32 0)[0 := 0xC1, 2 := 65] :: u8 list"
  have "units 2 15 ?e = GET16 ?e 2 # GET16 ?e 4 # units 6 13 ?e" using units_Suc [of 2 14 ?e] units_Suc [of 4 13 ?e] by simp
  then have n: "name_units ?e = [65]" by (simp add: name_units_def layouts GET16_def)
  then show "names_of [entry_at (ready EXFAT found_dir) [5, 6] 2] = [65]" by (simp add: names_of_def found_entries)
  show "item_ok (FileSet (entry_at (ready EXFAT found_dir) [5, 6] 0) (entry_at (ready EXFAT found_dir) [5, 6] 1) [entry_at (ready EXFAT found_dir) [5, 6] 2])"
    using n unfolding item_ok.simps found_entries
    by (simp add: exfat_get_entry_type_def layouts type_defs Let_def GET16_def names_of_def)
qed

lemma unused_zeros: "exfat_get_entry_type (replicate 32 0) = TYPE_UNUSED"
  by (simp add: exfat_get_entry_type_def layouts)

lemma exfat_find_dir_entry_correct_witness:
  "\<exists>t. run_state (exfat_find_dir_entry id root_ch A_name 3 \<lparr>dn_name = [], dn_case = 0\<rparr> TYPE_ALL) (ready EXFAT found_dir) = (0, t)"
proof -
  let ?s = "ready EXFAT found_dir"
  let ?it = "FileSet (entry_at ?s [5, 6] 0) (entry_at ?s [5, 6] 1) [entry_at ?s [5, 6] 2]"
  have "length (found_dir b) = 512" for b by (simp add: found_dir_def)
  note sc = sample_scannable(1) [of found_dir, OF this]
  have ok: "\<forall>it\<in>set [?it]. item_ok it" and m: "item_matches id [65] TYPE_ALL ?it" using found_item_ok by simp_all
  have u: "entry_at ?s [5, 6] 3 # map (entry_at ?s [5, 6]) [4..<64] = [] \<or>
      exfat_get_entry_type (hd (entry_at ?s [5, 6] 3 # map (entry_at ?s [5, 6]) [4..<64])) = TYPE_UNUSED"
    by (simp add: found_entries unused_zeros)
  obtain r t where rt: "run_state (exfat_find_dir_entry id root_ch A_name 3 \<lparr>dn_name = [], dn_case = 0\<rparr> TYPE_ALL) ?s = (r, t)"
    "(\<exists>k<length [?it]. item_matches id [65] TYPE_ALL ([?it] ! k) \<and> (\<forall>j<k. \<not> item_matches id [65] TYPE_ALL ([?it] ! j)) \<and>
        r = int (length (concat (map item_entries (take k [?it]))))) \<or> (\<forall>it\<in>set [?it]. \<not> item_matches id [65] TYPE_ALL it) \<and> r = -2"
    using exfat_find_dir_entry_correct [OF sc _ A_searched found_items ok u, of 3 "\<lparr>dn_name = [], dn_case = 0\<rparr>" TYPE_ALL] by auto
  then have "r = 0" using m by auto
  then show ?thesis using rt(1) by blast
qed

lemma stored_file_is_found_witness:
  "\<exists>t u. run_state (exfat_init_ext_entry root_ch (int 0) (exfat_calc_num_entries (un_len A_name)) A_name) (ready EXFAT named_dir) = (FFS_SUCCESS, t) \<and>
     run_state (exfat_find_dir_entry id root_ch A_name 3 \<lparr>dn_name = [], dn_case = 0\<rparr> TYPE_ALL) t = (int 0, u)"
proof -
  let ?s = "ready EXFAT named_dir"
  note sc = sample_scannable [of named_dir, OF named_dir_len]
  have e3: "entry_at ?s [5, 6] 3 = replicate 32 0"
    by (simp add: entry_at_def entry_off_def entry_sector_def byte_sector_def clu_sector_def START_SECTOR_def named_dir_def)
  have l: "dir_list ?s [5, 6] = concat (map item_entries []) @ entry_at ?s [5, 6] 0 # entry_at ?s [5, 6] 1 # [entry_at ?s [5, 6] 2] @
      map (entry_at ?s [5, 6]) (3 # [4..<64])" by (simp add: sc(2) upt_64)
  have n: "exfat_calc_num_entries (un_len A_name) = int (length [entry_at ?s [5, 6] 2] + 2)" by (simp add: exfat_calc_num_entries_def A_name_def)
  have u: "map (entry_at ?s [5, 6]) (3 # [4..<64]) = [] \<or> exfat_get_entry_type (hd (map (entry_at ?s [5, 6]) (3 # [4..<64]))) = TYPE_UNUSED"
    by (simp add: e3 unused_zeros)
  show ?thesis
    by (rule stored_file_is_found [OF sc(1) _ ready_unlocked _ A_searched(1) _ A_searched(2) l _ _ n _ u]) (simp_all add: named_entries [unfolded One_nat_def])
qed

lemma deleted_file_is_gone_witness:
  "\<exists>t u. run_state (delete_dir_entry ExfatOps root_ch (int 0) 0 (int (length [entry_at (ready EXFAT found_dir) [5, 6] 2] + 2))) (ready EXFAT found_dir) = ((), t) \<and>
     run_state (exfat_find_dir_entry id root_ch A_name 3 \<lparr>dn_name = [], dn_case = 0\<rparr> TYPE_ALL) t = (-2, u)"
proof -
  let ?s = "ready EXFAT found_dir"
  have "length (found_dir b) = 512" for b by (simp add: found_dir_def)
  note sc = sample_scannable(1) [of found_dir, OF this]
  have u: "entry_at ?s [5, 6] 3 # map (entry_at ?s [5, 6]) [4..<64] = [] \<or>
      exfat_get_entry_type (hd (entry_at ?s [5, 6] 3 # map (entry_at ?s [5, 6]) [4..<64])) = TYPE_UNUSED"
    by (simp add: found_entries unused_zeros)
  let ?it = "FileSet (entry_at ?s [5, 6] 0) (entry_at ?s [5, 6] 1) [entry_at ?s [5, 6] 2]"
  have l: "dir_list ?s [5, 6] = concat (map item_entries ([] @ [?it])) @ entry_at ?s [5, 6] 3 # map (entry_at ?s [5, 6]) [4..<64]"
    unfolding append_Nil by (rule found_items)
  have ok: "\<forall>it\<in>set ([] @ [?it]). item_ok it" "\<forall>it\<in>set ([] @ []). \<not> item_matches id [65] TYPE_ALL it"
    using found_item_ok(1) by simp_all
  have e: "0 = length (concat (map item_entries []))" by simp
  show ?thesis by (rule deleted_file_is_gone [OF sc _ _ A_searched l ok u e]) simp_all
qed

lemma directory_scans_correct_witness:
  "\<exists>t u. run_state (count_dos_name_entries root_ch TYPE_FILE) (ready EXFAT found_dir) = (1, t) \<and>
     run_state (is_dir_empty root_ch) (ready EXFAT found_dir) = (False, u)"
proof -
  let ?s = "ready EXFAT found_dir"
  have b: "length (found_dir b) = 512" for b by (simp add: found_dir_def)
  have "used_entries ExfatOps (dir_list ?s [5, 6]) = [entry_at ?s [5, 6] 0, entry_at ?s [5, 6] 1, entry_at ?s [5, 6] 2]"
    unfolding sample_scannable(2) [of found_dir, OF b] upt_64 list.map found_entries
    by (simp add: used_entries_def exfat_fs_func_def exfat_get_entry_type_def layouts type_defs GET16_def)
  moreover have "TYPE_FILE AND TYPE_CRITICAL_PRI \<noteq> 0 \<or> TYPE_FILE AND TYPE_BENIGN_PRI \<noteq> 0" by (simp add: type_defs)
  moreover have "exfat_get_entry_type (entry_at ?s [5, 6] 0) = TYPE_FILE" "exfat_get_entry_type (entry_at ?s [5, 6] 1) = TYPE_STREAM"
    "exfat_get_entry_type (entry_at ?s [5, 6] 2) = TYPE_EXTEND"
    unfolding found_entries by (simp_all add: exfat_get_entry_type_def layouts type_defs GET16_def)
  ultimately show ?thesis
    using directory_scans_correct [OF sample_scannable(1) [of found_dir, OF b], of TYPE_FILE]
    by (auto simp: exfat_fs_func_def flat_dir_def type_defs)
qed

end
