(* ===== verification/VfsName.thy ===== *)
theory VfsName
  imports FileAttr
begin

text \<open>
  The operations of the dentry cache in \<^verbatim>\<open>exfat_super.c\<close>: trailing dots, hashing and comparing names, revalidation.
  The signatures and branches are those for kernels from 3.11 on.  The kernel's hash functions are a record of parameters,
  its lower-case tables are arguments.  A \<^verbatim>\<open>qstr\<close> is its array and its length.
\<close>

section \<open>The code\<close>

fun striptail_len :: "nat \<Rightarrow> u8 list \<Rightarrow> nat" where
  "striptail_len 0 name = 0"
| "striptail_len (Suc n) name = (if name ! n = chr8 CHR ''.'' then striptail_len n name else Suc n)"

record qstr =
  q_name :: "u8 list"
  q_len :: nat

definition exfat_striptail_len :: "qstr \<Rightarrow> nat" where
  "exfat_striptail_len q = striptail_len (q_len q) (q_name q)"

text \<open>The kernel's hash functions.\<close>

record name_hash =
  full_name_hash :: "u8 list \<Rightarrow> u32"
  init_name_hash :: u64
  partial_name_hash :: "u16 \<Rightarrow> u64 \<Rightarrow> u64"
  end_name_hash :: "u64 \<Rightarrow> u32"

definition exfat_d_hash :: "name_hash \<Rightarrow> qstr \<Rightarrow> u32" where
  "exfat_d_hash h q = full_name_hash h (take (exfat_striptail_len q) (q_name q))"

fun hashi_loop :: "name_hash \<Rightarrow> (u16 \<Rightarrow> u16) \<Rightarrow> u8 list \<Rightarrow> u64 \<Rightarrow> u64" where
  "hashi_loop h up [] hash = hash"
| "hashi_loop h up (c # name) hash = hashi_loop h up name (partial_name_hash h (up (ucast c)) hash)"

definition exfat_d_hashi :: "name_hash \<Rightarrow> (u16 \<Rightarrow> u16) \<Rightarrow> qstr \<Rightarrow> u32" where
  "exfat_d_hashi h up q =
     end_name_hash h (hashi_loop h up (take (exfat_striptail_len q) (q_name q)) (init_name_hash h))"

text \<open>
  \<^verbatim>\<open>strncmp\<close> and \<^verbatim>\<open>strncasecmp\<close> with result zero, the characters compared under \<open>f\<close> and the comparison ending at a
  zero; \<^verbatim>\<open>nls_strnicmp\<close> does not end there.
\<close>

fun strn_eq :: "(u8 \<Rightarrow> u8) \<Rightarrow> nat \<Rightarrow> u8 list \<Rightarrow> u8 list \<Rightarrow> nat \<Rightarrow> bool" where
  "strn_eq f 0 a b i = True"
| "strn_eq f (Suc n) a b i =
     (if f (a ! i) \<noteq> f (b ! i) then False else if a ! i = 0 then True else strn_eq f n a b (i + 1))"

fun nls_strn_eq :: "(u8 \<Rightarrow> u8) \<Rightarrow> nat \<Rightarrow> u8 list \<Rightarrow> u8 list \<Rightarrow> nat \<Rightarrow> bool" where
  "nls_strn_eq f 0 a b i = True"
| "nls_strn_eq f (Suc n) a b i = (if f (a ! i) \<noteq> f (b ! i) then False else nls_strn_eq f n a b (i + 1))"

text \<open>\<open>tolower\<close> is the kernel's, \<open>io\<close> the lower-case table of \<^verbatim>\<open>nls_io\<close> if there is one.\<close>

definition exfat_cmpi :: "(u8 \<Rightarrow> u8) \<Rightarrow> (u8 \<Rightarrow> u8) option \<Rightarrow> u8 list \<Rightarrow> nat \<Rightarrow> qstr \<Rightarrow> s32" where
  "exfat_cmpi tolower io str len name =
     (let alen = exfat_striptail_len name; blen = striptail_len len str
      in if alen = blen \<and>
            (case io of None \<Rightarrow> strn_eq tolower alen (q_name name) str 0 | Some f \<Rightarrow> nls_strn_eq f alen (q_name name) str 0)
         then 0 else 1)"

definition exfat_cmp :: "u8 list \<Rightarrow> nat \<Rightarrow> qstr \<Rightarrow> s32" where
  "exfat_cmp str len name =
     (let alen = exfat_striptail_len name; blen = striptail_len len str
      in if alen = blen \<and> strn_eq id alen (q_name name) str 0 then 0 else 1)"

text \<open>\<^verbatim>\<open>exfat_revalidate\<close> and \<^verbatim>\<open>exfat_revalidate_ci\<close>; \<open>has_inode\<close> is \<^verbatim>\<open>dentry->d_inode\<close>.\<close>

definition ECHILD :: s32 where "ECHILD = 10"
definition LOOKUP_RCU :: u32 where "LOOKUP_RCU = 0x0040"
definition LOOKUP_CREATE :: u32 where "LOOKUP_CREATE = 0x0200"
definition LOOKUP_RENAME_TARGET :: u32 where "LOOKUP_RENAME_TARGET = 0x0800"

definition exfat_revalidate :: "bool \<Rightarrow> u32 \<Rightarrow> s32" where
  "exfat_revalidate has_inode flags =
     (if flags AND LOOKUP_RCU \<noteq> 0 then - ECHILD else if has_inode then 1 else 0)"

definition exfat_revalidate_ci :: "bool \<Rightarrow> u32 \<Rightarrow> s32" where
  "exfat_revalidate_ci has_inode flags =
     (if flags AND LOOKUP_RCU \<noteq> 0 then - ECHILD
      else if has_inode then 1
      else if flags = 0 then 0
      else if flags AND (LOOKUP_CREATE OR LOOKUP_RENAME_TARGET) \<noteq> 0 then 0
      else 0)"

section \<open>The law of the dentry cache\<close>

lemma striptail_len_le: "striptail_len n name \<le> n"
  by (induction n) auto

lemma strn_eq_map:
  assumes "strn_eq f n a b i" "i + n \<le> length a" "i + n \<le> length b" "0 \<notin> set (take n (drop i a))"
  shows "map f (take n (drop i a)) = map f (take n (drop i b))"
  using assms
proof (induction n arbitrary: i)
  case 0
  then show ?case by simp
next
  case (Suc n)
  have c: "drop i a = a ! i # drop (i + 1) a" "drop i b = b ! i # drop (i + 1) b" using Suc.prems(2,3) by (simp_all add: Cons_nth_drop_Suc)
  then have "a ! i \<noteq> 0" using Suc.prems(4) by auto
  moreover have "0 \<notin> set (take n (drop (i + 1) a))" using Suc.prems(4) c(1) by simp
  ultimately show ?case using Suc.IH [of "i + 1"] Suc.prems(1-3) by (simp add: c split: if_splits)
qed

lemma nls_strn_eq_map:
  assumes "nls_strn_eq f n a b i" "i + n \<le> length a" "i + n \<le> length b"
  shows "map f (take n (drop i a)) = map f (take n (drop i b))"
  using assms
proof (induction n arbitrary: i)
  case 0
  then show ?case by simp
next
  case (Suc n)
  have c: "drop i a = a ! i # drop (i + 1) a" "drop i b = b ! i # drop (i + 1) b" using Suc.prems(2,3) by (simp_all add: Cons_nth_drop_Suc)
  then show ?case using Suc.IH [of "i + 1"] Suc.prems(1-3) by (simp add: c split: if_splits)
qed

lemma hashi_loop_cong:
  assumes "map f a = map f b" "\<And>x y. f x = f y \<Longrightarrow> up (ucast x) = up (ucast y)"
  shows "hashi_loop h up a s = hashi_loop h up b s"
  using assms(1)
proof (induction a arbitrary: b s)
  case (Cons x a)
  then obtain y b' where b: "b = y # b'" "f x = f y" "map f a = map f b'" by auto
  then show ?case using Cons.IH assms(2) [OF b(2)] by simp
qed simp


text \<open>The kernel's functions (\<^verbatim>\<open>linux/dcache.h\<close> before 4.8) and ASCII letters, for the witness.\<close>

definition ascii_lower :: "u8 \<Rightarrow> u8" where
  "ascii_lower c = (if 65 \<le> c \<and> c \<le> 90 then c + 32 else c)"

definition linux_hash :: name_hash where
  "linux_hash = \<lparr>full_name_hash = (\<lambda>cs. ucast (foldl (\<lambda>h c. (h + push_bit 4 (ucast c) + drop_bit 4 (ucast c)) * 11) (0 :: u64) cs)),
     init_name_hash = 0, partial_name_hash = (\<lambda>c h. (h + push_bit 4 (ucast c) + drop_bit 4 (ucast c)) * 11), end_name_hash = ucast\<rparr>"

lemma u8_u16_u8: "ucast (ucast x :: u16) = (x :: u8)"
  by (rule bit_word_eqI) (simp add: bit_simps)


text \<open>
  Without an up-case table, and none is loaded for a FAT volume, the law fails: the names \<^verbatim>\<open>A\<close> and \<^verbatim>\<open>a\<close> are equal and
  have different hash values.
\<close>

lemma dcache_hash_broken:
  assumes "vol_utbl s = None"
  shows "exfat_cmpi ascii_lower None [97] 1 \<lparr>q_name = [65], q_len = 1\<rparr> = 0 \<and>
    exfat_d_hashi linux_hash (nls_upper False s) \<lparr>q_name = [65], q_len = 1\<rparr> \<noteq>
    exfat_d_hashi linux_hash (nls_upper False s) \<lparr>q_name = [97], q_len = 1\<rparr>"
  by (simp add: exfat_cmpi_def exfat_striptail_len_def ascii_lower_def chr8_def exfat_d_hashi_def linux_hash_def nls_upper_def assms
      word_le_nat_alt)

end
