(* ===== verification/VfsMode.thy ===== *)
theory VfsMode
  imports FileAttr
begin

text \<open>
  Mount options and modes (\<^verbatim>\<open>exfat_super.h\<close>, \<^verbatim>\<open>exfat_super.c\<close>).  \<^verbatim>\<open>mode_t\<close> has 32 bits, \<^verbatim>\<open>umode_t\<close> 16.  The kernel's option
  parser (\<^verbatim>\<open>match_token\<close>, \<^verbatim>\<open>match_int\<close>, \<^verbatim>\<open>match_octal\<close>, \<^verbatim>\<open>match_strdup\<close>) and the credentials of the calling process are
  records of parameters.
\<close>

section \<open>Modes\<close>

definition S_IFMT :: u32 where "S_IFMT = 0xF000"
definition S_IFREG :: u32 where "S_IFREG = 0x8000"
definition S_IFLNK :: u32 where "S_IFLNK = 0xA000"
definition S_IFDIR :: u32 where "S_IFDIR = 0x4000"
definition S_IRWXUGO :: u32 where "S_IRWXUGO = 0x1FF"
definition S_IRUGO :: u32 where "S_IRUGO = 0x124"
definition S_IWUGO :: u32 where "S_IWUGO = 0x92"
definition S_IXUGO :: u32 where "S_IXUGO = 0x49"
definition S_IWGRP :: u32 where "S_IWGRP = 0x10"
definition S_IWOTH :: u32 where "S_IWOTH = 0x02"
definition MAY_WRITE :: u32 where "MAY_WRITE = 2"

lemmas mode_bits = S_IFMT_def S_IFREG_def S_IFLNK_def S_IFDIR_def S_IRWXUGO_def S_IRUGO_def S_IWUGO_def S_IXUGO_def
  S_IWGRP_def S_IWOTH_def MAY_WRITE_def

definition ATTR_RWMASK :: u32 where "ATTR_RWMASK = 0x7E"

definition S_ISDIR :: "u16 \<Rightarrow> bool" where "S_ISDIR m \<longleftrightarrow> ucast m AND S_IFMT = S_IFDIR"
definition S_ISREG :: "u16 \<Rightarrow> bool" where "S_ISREG m \<longleftrightarrow> ucast m AND S_IFMT = S_IFREG"
definition S_ISLNK :: "u16 \<Rightarrow> bool" where "S_ISLNK m \<longleftrightarrow> ucast m AND S_IFMT = S_IFLNK"

text \<open>
  The string \<^verbatim>\<open>iocharset\<close>: the array \<^verbatim>\<open>exfat_default_iocharset\<close>, a copy from \<^verbatim>\<open>match_strdup\<close>, or a pointer to a copy that
  has been freed.
\<close>

datatype charset_ptr = DefaultCharset | Allocated string | Freed

datatype err_option = EXFAT_ERRORS_CONT | EXFAT_ERRORS_PANIC | EXFAT_ERRORS_RO

record exfat_mount_options =
  fs_uid :: u32
  fs_gid :: u32
  fs_fmask :: u16
  fs_dmask :: u16
  allow_utime :: u16
  codepage :: u16
  iocharset :: charset_ptr
  opt_casesensitive :: u8
  opt_errors :: err_option
  opt_discard :: bool

definition exfat_mode_can_hold_ro :: "exfat_mount_options \<Rightarrow> u16 \<Rightarrow> bool" where
  "exfat_mode_can_hold_ro opts i_mode =
     (if S_ISDIR i_mode then False
      else if NOT (ucast (fs_fmask opts)) AND S_IWUGO \<noteq> 0 then True
      else False)"

definition exfat_make_mode :: "exfat_mount_options \<Rightarrow> u32 \<Rightarrow> u32 \<Rightarrow> u32" where
  "exfat_make_mode opts attr mode =
     (let mode = (if attr AND ATTR_READONLY \<noteq> 0 \<and> \<not> attr AND ATTR_SUBDIR \<noteq> 0 then mode AND NOT S_IWUGO else mode)
      in if attr AND ATTR_SUBDIR \<noteq> 0 then (mode AND NOT (ucast (fs_dmask opts))) OR S_IFDIR
         else if attr AND ATTR_SYMLINK \<noteq> 0 then (mode AND NOT (ucast (fs_dmask opts))) OR S_IFLNK
         else (mode AND NOT (ucast (fs_fmask opts))) OR S_IFREG)"

text \<open>The attributes of an inode with mode \<open>i_mode\<close> and \<^verbatim>\<open>fid.attr\<close> equal to \<open>fid_attr\<close>; what becomes of \<^verbatim>\<open>fid.attr\<close>.\<close>

definition exfat_make_attr :: "exfat_mount_options \<Rightarrow> u16 \<Rightarrow> u32 \<Rightarrow> u32" where
  "exfat_make_attr opts i_mode attr =
     (if exfat_mode_can_hold_ro opts i_mode \<and> ucast i_mode AND S_IWUGO = 0 then attr OR ATTR_READONLY else attr)"

definition exfat_save_attr :: "exfat_mount_options \<Rightarrow> u16 \<Rightarrow> u32 \<Rightarrow> u32" where
  "exfat_save_attr opts i_mode attr =
     (if exfat_mode_can_hold_ro opts i_mode then attr AND ATTR_RWMASK else attr AND (ATTR_RWMASK OR ATTR_READONLY))"

text \<open>\<^verbatim>\<open>exfat_sanitize_mode\<close>: the new \<^verbatim>\<open>*mode_ptr\<close>, or \<open>None\<close> for \<^verbatim>\<open>-EPERM\<close>.\<close>

definition exfat_sanitize_mode :: "exfat_mount_options \<Rightarrow> u16 \<Rightarrow> u16 \<Rightarrow> u16 option" where
  "exfat_sanitize_mode opts i_mode mode =
     (let mask = (ucast (if S_ISREG i_mode \<or> S_ISLNK i_mode then fs_fmask opts else fs_dmask opts) :: u32);
          perm = ucast mode AND NOT (S_IFMT OR mask)
      in if perm AND (S_IRUGO OR S_IXUGO) \<noteq> ucast i_mode AND (S_IRUGO OR S_IXUGO) then None
         else if (if exfat_mode_can_hold_ro opts i_mode
                  then perm AND S_IWUGO \<noteq> 0 \<and> perm AND S_IWUGO \<noteq> S_IWUGO AND NOT mask
                  else perm AND S_IWUGO \<noteq> S_IWUGO AND NOT mask) then None
         else Some (mode AND ucast (S_IFMT OR perm)))"

text \<open>\<^verbatim>\<open>exfat_allow_set_time\<close>; \<open>owner\<close> is the comparison of the user ids, \<open>in_group\<close> is \<^verbatim>\<open>in_group_p\<close>.\<close>

definition exfat_allow_set_time :: "exfat_mount_options \<Rightarrow> bool \<Rightarrow> bool \<Rightarrow> bool" where
  "exfat_allow_set_time opts owner in_group =
     (let utime = (ucast (allow_utime opts) :: u32) in
      if \<not> owner then (let utime = (if in_group then drop_bit 3 utime else utime) in utime AND MAY_WRITE \<noteq> 0)
      else False)"

section \<open>Mount options\<close>

datatype opt_token = Opt_uid | Opt_gid | Opt_umask | Opt_dmask | Opt_fmask | Opt_allow_utime | Opt_codepage | Opt_charset
  | Opt_namecase | Opt_debug | Opt_err_cont | Opt_err_panic | Opt_err_ro | Opt_utf8_hack | Opt_err | Opt_discard

definition exfat_tokens :: "(opt_token \<times> string option) list" where
  "exfat_tokens =
    [(Opt_uid, Some ''uid=%u''), (Opt_gid, Some ''gid=%u''), (Opt_umask, Some ''umask=%o''), (Opt_dmask, Some ''dmask=%o''),
     (Opt_fmask, Some ''fmask=%o''), (Opt_allow_utime, Some ''allow_utime=%o''), (Opt_codepage, Some ''codepage=%u''),
     (Opt_charset, Some ''iocharset=%s''), (Opt_namecase, Some ''namecase=%u''), (Opt_debug, Some ''debug''),
     (Opt_err_cont, Some ''errors=continue''), (Opt_err_panic, Some ''errors=panic''),
     (Opt_err_ro, Some ''errors=remount-ro''), (Opt_utf8_hack, Some ''utf8''), (Opt_discard, Some ''discard''),
     (Opt_err, None)]"

text \<open>
  The kernel's side: \<^verbatim>\<open>match_token\<close> returns the token and the text of the first argument, \<^verbatim>\<open>match_int\<close> and
  \<^verbatim>\<open>match_octal\<close> the number if it is one, \<^verbatim>\<open>match_strdup\<close> the copy if there is memory.
\<close>

record opt_env =
  match_token :: "string \<Rightarrow> (opt_token \<times> string option) list \<Rightarrow> opt_token \<times> string"
  match_int :: "string \<Rightarrow> int option"
  match_octal :: "string \<Rightarrow> int option"
  match_strdup :: "string \<Rightarrow> string option"
  cur_uid :: u32
  cur_gid :: u32
  cur_umask :: int

definition EPERM :: s32 where "EPERM = 1"
definition ENOENT :: s32 where "ENOENT = 2"
definition EIO :: s32 where "EIO = 5"
definition ENOMEM :: s32 where "ENOMEM = 12"
definition EFAULT :: s32 where "EFAULT = 14"
definition EBUSY :: s32 where "EBUSY = 16"
definition EEXIST :: s32 where "EEXIST = 17"
definition EINVAL :: s32 where "EINVAL = 22"
definition ENOTTY :: s32 where "ENOTTY = 25"
definition ENOSPC :: s32 where "ENOSPC = 28"
definition ENAMETOOLONG :: s32 where "ENAMETOOLONG = 36"
definition ENOTEMPTY :: s32 where "ENOTEMPTY = 39"

lemmas errnos = EPERM_def ENOENT_def EIO_def ENOMEM_def EFAULT_def EBUSY_def EEXIST_def EINVAL_def ENOTTY_def ENOSPC_def
  ENAMETOOLONG_def ENOTEMPTY_def

text \<open>The pieces that \<^verbatim>\<open>strsep\<close> cuts off at commas.\<close>

fun strsep :: "string \<Rightarrow> string list" where
  "strsep [] = [[]]"
| "strsep (c # cs) = (if c = CHR '','' then [] # strsep cs else (case strsep cs of p # ps \<Rightarrow> (c # p) # ps | [] \<Rightarrow> [[c]]))"

text \<open>One recognised option: the code to return, or \<open>Inr\<close> to go on.\<close>

type_synonym opt_state = "exfat_mount_options \<times> bool"

definition with_number :: "int option \<Rightarrow> opt_state \<Rightarrow> (int \<Rightarrow> exfat_mount_options) \<Rightarrow> (s32 \<times> opt_state) + opt_state" where
  "with_number n st f = (case n of None \<Rightarrow> Inl (0, st) | Some v \<Rightarrow> Inr (f v, snd st))"

definition kfree_charset :: "charset_ptr \<Rightarrow> charset_ptr" where
  "kfree_charset p = (case p of DefaultCharset \<Rightarrow> DefaultCharset | _ \<Rightarrow> Freed)"

definition set_option :: "opt_env \<Rightarrow> opt_token \<Rightarrow> string \<Rightarrow> opt_state \<Rightarrow> (s32 \<times> opt_state) + opt_state" where
  "set_option oe token arg st = (case st of (opts, debug) \<Rightarrow>
     (case token of
        Opt_uid \<Rightarrow> with_number (match_int oe arg) st (\<lambda>v. opts\<lparr>fs_uid := of_int v\<rparr>)
      | Opt_gid \<Rightarrow> with_number (match_int oe arg) st (\<lambda>v. opts\<lparr>fs_gid := of_int v\<rparr>)
      | Opt_umask \<Rightarrow> with_number (match_octal oe arg) st (\<lambda>v. opts\<lparr>fs_fmask := of_int v, fs_dmask := of_int v\<rparr>)
      | Opt_dmask \<Rightarrow> with_number (match_octal oe arg) st (\<lambda>v. opts\<lparr>fs_dmask := of_int v\<rparr>)
      | Opt_fmask \<Rightarrow> with_number (match_octal oe arg) st (\<lambda>v. opts\<lparr>fs_fmask := of_int v\<rparr>)
      | Opt_allow_utime \<Rightarrow> with_number (match_octal oe arg) st
          (\<lambda>v. opts\<lparr>allow_utime := ucast ((of_int v :: u32) AND (S_IWGRP OR S_IWOTH))\<rparr>)
      | Opt_codepage \<Rightarrow> with_number (match_int oe arg) st (\<lambda>v. opts\<lparr>codepage := of_int v\<rparr>)
      | Opt_charset \<Rightarrow>
          let opts = opts\<lparr>iocharset := kfree_charset (iocharset opts)\<rparr> in
          (case match_strdup oe arg of
             None \<Rightarrow> Inl (- ENOMEM, opts, debug)
           | Some cs \<Rightarrow> Inr (opts\<lparr>iocharset := Allocated cs\<rparr>, debug))
      | Opt_namecase \<Rightarrow> with_number (match_int oe arg) st (\<lambda>v. opts\<lparr>opt_casesensitive := of_int v\<rparr>)
      | Opt_err_cont \<Rightarrow> Inr (opts\<lparr>opt_errors := EXFAT_ERRORS_CONT\<rparr>, debug)
      | Opt_err_panic \<Rightarrow> Inr (opts\<lparr>opt_errors := EXFAT_ERRORS_PANIC\<rparr>, debug)
      | Opt_err_ro \<Rightarrow> Inr (opts\<lparr>opt_errors := EXFAT_ERRORS_RO\<rparr>, debug)
      | Opt_debug \<Rightarrow> Inr (opts, True)
      | Opt_discard \<Rightarrow> Inr (opts\<lparr>opt_discard := True\<rparr>, debug)
      | Opt_utf8_hack \<Rightarrow> Inr (opts, debug)
      | Opt_err \<Rightarrow> Inl (- EINVAL, opts, debug)))"

fun option_loop :: "opt_env \<Rightarrow> string list \<Rightarrow> opt_state \<Rightarrow> (s32 \<times> opt_state) + opt_state" where
  "option_loop oe [] st = Inr st"
| "option_loop oe (p # ps) st =
     (if p = [] then option_loop oe ps st
      else (case match_token oe p exfat_tokens of (token, arg) \<Rightarrow>
             (case set_option oe token arg st of Inl r \<Rightarrow> Inl r | Inr st \<Rightarrow> option_loop oe ps st)))"

definition default_options :: "opt_env \<Rightarrow> exfat_mount_options" where
  "default_options oe =
     \<lparr>fs_uid = cur_uid oe, fs_gid = cur_gid oe, fs_fmask = of_int (cur_umask oe), fs_dmask = of_int (cur_umask oe),
      allow_utime = -1, codepage = 437, iocharset = DefaultCharset, opt_casesensitive = 0,
      opt_errors = EXFAT_ERRORS_RO, opt_discard = False\<rparr>"

definition options_out :: "opt_state \<Rightarrow> s32 \<times> opt_state" where
  "options_out st = (case st of (opts, debug) \<Rightarrow>
     (0, if allow_utime opts = -1
         then opts\<lparr>allow_utime := ucast (NOT (ucast (fs_dmask opts)) AND (S_IWGRP OR S_IWOTH))\<rparr> else opts, debug))"

definition parse_options :: "opt_env \<Rightarrow> string option \<Rightarrow> s32 \<times> opt_state" where
  "parse_options oe options =
     (let st = (default_options oe, False) in
      case options of
        None \<Rightarrow> options_out st
      | Some str \<Rightarrow> (case option_loop oe (strsep str) st of Inl r \<Rightarrow> r | Inr st \<Rightarrow> options_out st))"

section \<open>Changing the mode\<close>

text \<open>The mode that the driver computes for an inode with attributes \<open>attr\<close>.\<close>

definition mode_of :: "exfat_mount_options \<Rightarrow> u32 \<Rightarrow> u16" where
  "mode_of opts attr = ucast (exfat_make_mode opts attr S_IRWXUGO)"

text \<open>The attribute bits that decide on the type, the mask that applies and the type.\<close>

definition type_bits :: "exfat_mount_options \<Rightarrow> u32 \<Rightarrow> u32 \<times> u32" where
  "type_bits opts attr =
     (if attr AND ATTR_SUBDIR \<noteq> 0 then (ucast (fs_dmask opts), S_IFDIR)
      else if attr AND ATTR_SYMLINK \<noteq> 0 then (ucast (fs_dmask opts), S_IFLNK)
      else (ucast (fs_fmask opts), S_IFREG))"

definition keeps_ro :: "u32 \<Rightarrow> bool" where
  "keeps_ro attr \<longleftrightarrow> attr AND ATTR_READONLY \<noteq> 0 \<and> attr AND ATTR_SUBDIR = 0"

lemma and_or_split: "(x :: u32) = r OR w \<Longrightarrow> x AND m = (r AND m) OR (w AND m)"
  by (simp only: bit.conj_disj_distrib2)

lemma make_mode_parts:
  "exfat_make_mode opts attr S_IRWXUGO = (case type_bits opts attr of (mk, tp) \<Rightarrow>
     tp OR ((S_IRUGO OR S_IXUGO) AND NOT mk) OR (if keeps_ro attr then 0 else S_IWUGO AND NOT mk))"
proof -
  let ?r = "S_IRUGO OR S_IXUGO"
  have a: "S_IRWXUGO AND NOT S_IWUGO = ?r" by (simp add: mode_bits)
  have b: "S_IRWXUGO AND NOT (ucast m) = (?r AND NOT (ucast m)) OR (S_IWUGO AND NOT (ucast m))" for m :: u16
    by (rule and_or_split) (simp add: mode_bits)
  show ?thesis
    by (cases "attr AND ATTR_SUBDIR = 0"; cases "attr AND ATTR_SYMLINK = 0"; cases "attr AND ATTR_READONLY = 0")
       (simp_all only: exfat_make_mode_def type_bits_def keeps_ro_def a b Let_def prod.case if_True if_False simp_thms or.right_neutral or.left_neutral
          or.assoc or.commute or.left_commute)
qed

lemma mode_split:
  assumes "x AND NOT (S_IFMT OR S_IRWXUGO) = 0"
  shows "x = (x AND S_IFMT) OR (x AND (S_IRUGO OR S_IXUGO)) OR (x AND S_IWUGO)"
proof (rule bit_word_eqI)
  fix n
  have "S_IFMT OR S_IRWXUGO = (S_IFMT OR (S_IRUGO OR S_IXUGO)) OR S_IWUGO" by (simp add: mode_bits)
  moreover have "\<not> bit (x AND NOT (S_IFMT OR S_IRWXUGO)) n" by (simp only: assms bit_0_eq bot_apply) simp
  moreover assume "n < LENGTH(32)"
  ultimately show "bit x n = bit ((x AND S_IFMT) OR (x AND (S_IRUGO OR S_IXUGO)) OR (x AND S_IWUGO)) n"
    by (simp only: bit_and_iff bit_or_iff bit_not_iff) auto
qed

lemma disjoint_bits: "(x :: u32) AND y = 0 \<Longrightarrow> bit x n \<Longrightarrow> \<not> bit y n"
  by (metis bit_and_iff bit_0_eq bot_apply bot_bool_def)

lemma mode_fields:
  fixes tp a b :: u32
  assumes "tp AND NOT S_IFMT = 0"
  defines "x \<equiv> tp OR ((S_IRUGO OR S_IXUGO) AND a) OR (S_IWUGO AND b)"
  shows "x AND S_IFMT = tp" "x AND (S_IRUGO OR S_IXUGO) = (S_IRUGO OR S_IXUGO) AND a" "x AND S_IWUGO = S_IWUGO AND b"
proof -
  let ?r = "S_IRUGO OR S_IXUGO"
  have d: "?r AND S_IFMT = 0" "S_IWUGO AND S_IFMT = 0" "?r AND S_IWUGO = 0" by (simp_all add: mode_bits)
  note e = disjoint_bits [OF assms(1)] disjoint_bits [OF d(1)] disjoint_bits [OF d(2)] disjoint_bits [OF d(3)]
  have x: "bit x n \<longleftrightarrow> bit tp n \<or> (bit ?r n \<and> bit a n) \<or> (bit S_IWUGO n \<and> bit b n)" for n
    unfolding x_def by (simp only: bit_or_iff bit_and_iff)
  have n: "bit (x AND S_IFMT) n = bit tp n" "bit (x AND ?r) n = bit (?r AND a) n" "bit (x AND S_IWUGO) n = bit (S_IWUGO AND b) n"
    if "n < LENGTH(32)" for n
    using that e [of n] by (auto simp only: bit_and_iff x bit_not_iff possible_bit_word)
  show "x AND S_IFMT = tp" by (rule bit_word_eqI) (rule n(1))
  show "x AND ?r = ?r AND a" by (rule bit_word_eqI) (rule n(2))
  show "x AND S_IWUGO = S_IWUGO AND b" by (rule bit_word_eqI) (rule n(3))
qed

lemma fields_in_mask:
  fixes tp r w a b M :: u32
  assumes "tp AND M = tp" "r AND M = r" "w AND M = w"
  shows "(tp OR (r AND a) OR (w AND b)) AND M = tp OR (r AND a) OR (w AND b)"
proof -
  have "(r AND a) AND M = (r AND M) AND a" "(w AND b) AND M = (w AND M) AND b" by (simp_all only: ac_simps)
  then show ?thesis by (simp only: bit.conj_disj_distrib2 assms)
qed

lemma ucast_u16_u32: "(ucast (ucast x :: u16) :: u32) = take_bit 16 x"
  by (rule bit_word_eqI) (auto simp: bit_ucast_iff bit_take_bit_iff)

lemma type_of_mode:
  assumes "type_bits opts attr = (mk, tp)"
  shows "tp AND NOT S_IFMT = 0" "ucast (mode_of opts attr) = exfat_make_mode opts attr S_IRWXUGO"
    and "(ucast (mode_of opts attr) :: u32) AND S_IFMT = tp"
proof -
  show t: "tp AND NOT S_IFMT = 0" using assms by (auto simp: type_bits_def mode_bits split: if_splits)
  let ?x = "exfat_make_mode opts attr S_IRWXUGO" and ?b = "if keeps_ro attr then 0 else NOT mk"
  have x: "?x = tp OR ((S_IRUGO OR S_IXUGO) AND NOT mk) OR (S_IWUGO AND ?b)"
    using assms by (simp add: make_mode_parts)
  have "tp AND 0xFFFF = tp" "(S_IRUGO OR S_IXUGO) AND 0xFFFF = S_IRUGO OR S_IXUGO" "S_IWUGO AND 0xFFFF = S_IWUGO"
    using assms by (auto simp: type_bits_def mode_bits split: if_splits)
  then have "?x AND 0xFFFF = ?x" unfolding x by (rule fields_in_mask)
  then have "take_bit 16 ?x = ?x" by (simp only: and_ones_16)
  then show u: "ucast (mode_of opts attr) = ?x" by (simp only: mode_of_def ucast_u16_u32)
  show "(ucast (mode_of opts attr) :: u32) AND S_IFMT = tp"
    unfolding u x by (rule mode_fields) (rule t)
qed

lemma sanitize_fields:
  fixes m :: u16 and mk :: u32
  defines "perm \<equiv> ucast m AND NOT (S_IFMT OR mk)"
  defines "m' \<equiv> m AND ucast (S_IFMT OR perm)"
  shows "(ucast m' :: u32) AND S_IFMT = ucast m AND S_IFMT"
    and "(ucast m' :: u32) AND (S_IRUGO OR S_IXUGO) = perm AND (S_IRUGO OR S_IXUGO)"
    and "(ucast m' :: u32) AND S_IWUGO = perm AND S_IWUGO"
proof -
  let ?r = "S_IRUGO OR S_IXUGO"
  have d: "?r AND S_IFMT = 0" "S_IWUGO AND S_IFMT = 0" by (simp_all add: mode_bits)
  note e = disjoint_bits [OF d(1)] disjoint_bits [OF d(2)]
  have b: "bit (ucast m' :: u32) n \<longleftrightarrow> bit m n \<and> (bit S_IFMT n \<or> bit perm n)" for n
    unfolding m'_def by (auto simp: bit_ucast_iff bit_and_iff bit_or_iff dest: bit_imp_le_length)
  have p: "bit perm n \<longleftrightarrow> bit m n \<and> \<not> bit S_IFMT n \<and> \<not> bit mk n" if "n < LENGTH(32)" for n
    unfolding perm_def using that by (auto simp: bit_ucast_iff bit_and_iff bit_or_iff bit_not_iff possible_bit_word dest: bit_imp_le_length)
  have c: "bit (ucast m :: u32) n \<longleftrightarrow> bit m n" for n
    by (auto simp: bit_ucast_iff dest: bit_imp_le_length)
  have n: "bit ((ucast m' :: u32) AND S_IFMT) n = bit ((ucast m :: u32) AND S_IFMT) n" "bit ((ucast m' :: u32) AND ?r) n = bit (perm AND ?r) n"
      "bit ((ucast m' :: u32) AND S_IWUGO) n = bit (perm AND S_IWUGO) n" if "n < LENGTH(32)" for n
    using that e [of n] by (auto simp only: bit_and_iff b p c)
  show "(ucast m' :: u32) AND S_IFMT = ucast m AND S_IFMT" by (rule bit_word_eqI) (rule n(1))
  show "(ucast m' :: u32) AND ?r = perm AND ?r" by (rule bit_word_eqI) (rule n(2))
  show "(ucast m' :: u32) AND S_IWUGO = perm AND S_IWUGO" by (rule bit_word_eqI) (rule n(3))
qed

lemma saved_attr:
  "exfat_save_attr opts im attr AND ATTR_SUBDIR = attr AND ATTR_SUBDIR"
  "exfat_save_attr opts im attr AND ATTR_SYMLINK = attr AND ATTR_SYMLINK"
  "exfat_save_attr opts im attr AND ATTR_READONLY = (if exfat_mode_can_hold_ro opts im then 0 else attr AND ATTR_READONLY)"
  "(a OR ATTR_READONLY) AND ATTR_SUBDIR = a AND ATTR_SUBDIR"
  "(a OR ATTR_READONLY) AND ATTR_SYMLINK = a AND ATTR_SYMLINK"
  "(a OR ATTR_READONLY) AND ATTR_READONLY = ATTR_READONLY"
  by (simp_all add: exfat_save_attr_def ATTR_RWMASK_def ATTR_SUBDIR_def ATTR_SYMLINK_def ATTR_READONLY_def and.assoc bit.conj_disj_distrib2)

lemma hold_ro_type:
  assumes "(ucast im :: u32) AND S_IFMT = ucast im' AND S_IFMT"
  shows "exfat_mode_can_hold_ro opts im = exfat_mode_can_hold_ro opts im'"
  using assms by (simp add: exfat_mode_can_hold_ro_def S_ISDIR_def)

lemma type_bits_cong:
  "a AND ATTR_SUBDIR = b AND ATTR_SUBDIR \<Longrightarrow> a AND ATTR_SYMLINK = b AND ATTR_SYMLINK \<Longrightarrow> type_bits opts a = type_bits opts b"
  by (simp add: type_bits_def)

lemma sanitize_outside:
  fixes m q :: u16
  assumes "(ucast m :: u32) AND NOT M = 0"
  shows "(ucast (m AND q) :: u32) AND NOT M = 0"
proof -
  have "(ucast (m AND q) :: u32) = ucast m AND ucast q"
    by (rule bit_word_eqI) (auto simp: bit_ucast_iff bit_and_iff)
  then have "(ucast (m AND q) :: u32) AND NOT M = ((ucast m :: u32) AND NOT M) AND ucast q" by (simp only: ac_simps)
  then show ?thesis by (simp only: assms zero_and_eq)
qed

text \<open>The mode made from the attributes that are stored for an inode with the write bits \<open>wr\<close>.\<close>

lemma stored_mode:
  fixes opts :: exfat_mount_options and im :: u16 and attr wr :: u32
  defines "sv \<equiv> exfat_save_attr opts im attr"
  assumes kind: "attr AND ATTR_SUBDIR \<noteq> 0 \<or> attr AND ATTR_SYMLINK = 0" and ty: "type_bits opts attr = (mk, tp)"
    and dir: "S_ISDIR im \<longleftrightarrow> attr AND ATTR_SUBDIR \<noteq> 0"
    and w: "if exfat_mode_can_hold_ro opts im then wr = 0 \<or> wr = S_IWUGO AND NOT mk else wr = S_IWUGO AND NOT mk"
  shows "exfat_make_mode opts (if exfat_mode_can_hold_ro opts im \<and> wr = 0 then sv OR ATTR_READONLY else sv) S_IRWXUGO =
    tp OR ((S_IRUGO OR S_IXUGO) AND NOT mk) OR wr"
proof -
  let ?at = "if exfat_mode_can_hold_ro opts im \<and> wr = 0 then sv OR ATTR_READONLY else sv"
  have "type_bits opts ?at = type_bits opts attr"
    by (rule type_bits_cong) (simp_all add: sv_def saved_attr)
  moreover have "(if keeps_ro ?at then 0 else S_IWUGO AND NOT mk) = wr"
  proof (cases "exfat_mode_can_hold_ro opts im")
    case True
    then have "attr AND ATTR_SUBDIR = 0" by (simp add: exfat_mode_can_hold_ro_def dir split: if_splits)
    moreover have "ATTR_READONLY \<noteq> 0" by (simp add: ATTR_READONLY_def)
    ultimately show ?thesis using True w by (auto simp: sv_def keeps_ro_def saved_attr)
  next
    case False
    have "S_IWUGO AND NOT mk = 0" if "attr AND ATTR_SUBDIR = 0"
    proof -
      have "NOT (ucast (fs_fmask opts)) AND S_IWUGO = 0"
        using False that by (simp add: exfat_mode_can_hold_ro_def dir split: if_splits)
      moreover have "mk = ucast (fs_fmask opts)" using ty that kind by (auto simp: type_bits_def)
      ultimately show ?thesis by (simp only: and.commute)
    qed
    then show ?thesis using False w by (auto simp: sv_def keeps_ro_def saved_attr)
  qed
  ultimately show ?thesis by (simp only: make_mode_parts ty prod.case)
qed

text \<open>
  C37: A mode that \<^verbatim>\<open>exfat_sanitize_mode\<close> accepts for a file or a directory is what the driver computes again from the
  attributes that it stores for the inode: \<^verbatim>\<open>chmod\<close> is either refused or survives being written to the volume and read back.
  (For a symbolic link the two functions use different masks.)
\<close>

theorem chmod_survives:
  assumes kind: "attr AND ATTR_SUBDIR \<noteq> 0 \<or> attr AND ATTR_SYMLINK = 0"
    and type: "(ucast m :: u32) AND S_IFMT = ucast (mode_of opts attr) AND S_IFMT"
    and bits: "(ucast m :: u32) AND NOT (S_IFMT OR S_IRWXUGO) = 0"
    and acc: "exfat_sanitize_mode opts (mode_of opts attr) m = Some m'"
  shows "mode_of opts (exfat_make_attr opts m' (exfat_save_attr opts (mode_of opts attr) attr)) = m'"
proof -
  let ?im = "mode_of opts attr" and ?r = "S_IRUGO OR S_IXUGO"
  obtain mk tp where ty: "type_bits opts attr = (mk, tp)" by fastforce
  note ot = type_of_mode [OF ty]
  define perm where "perm = (ucast m :: u32) AND NOT (S_IFMT OR mk)"
  have mask: "(ucast (if S_ISREG ?im \<or> S_ISLNK ?im then fs_fmask opts else fs_dmask opts) :: u32) = mk"
    using kind ty ot(3) by (auto simp: type_bits_def S_ISREG_def S_ISLNK_def mode_bits split: if_splits)
  have dir: "S_ISDIR ?im \<longleftrightarrow> attr AND ATTR_SUBDIR \<noteq> 0"
    using ty ot(3) by (auto simp: type_bits_def S_ISDIR_def mode_bits split: if_splits)
  note acc' = acc [unfolded exfat_sanitize_mode_def Let_def mask, folded perm_def]
  have m': "m' = m AND ucast (S_IFMT OR perm)" and r: "perm AND ?r = ucast ?im AND ?r"
    and w: "if exfat_mode_can_hold_ro opts ?im then perm AND S_IWUGO = 0 \<or> perm AND S_IWUGO = S_IWUGO AND NOT mk
            else perm AND S_IWUGO = S_IWUGO AND NOT mk"
    using acc' by (auto split: if_splits)
  note fields = sanitize_fields [of m mk, folded perm_def, folded m']
  have im_r: "ucast ?im AND ?r = ?r AND NOT mk"
    unfolding ot(2) make_mode_parts ty prod.case
    using mode_fields(2) [OF ot(1), of "NOT mk" "if keeps_ro attr then 0 else NOT mk"] by (simp split: if_splits)
  have "(ucast m' :: u32) = tp OR (?r AND NOT mk) OR (perm AND S_IWUGO)"
    using mode_split [of "ucast m'", unfolded m', OF sanitize_outside [OF bits], folded m'] by (simp only: fields r im_r type ot(3))
  moreover have "exfat_make_mode opts (exfat_make_attr opts m' (exfat_save_attr opts ?im attr)) S_IRWXUGO =
      tp OR (?r AND NOT mk) OR (perm AND S_IWUGO)"
  proof -
    have hold: "exfat_mode_can_hold_ro opts m' = exfat_mode_can_hold_ro opts ?im"
      by (rule hold_ro_type) (simp only: fields type)
    show ?thesis
      using stored_mode [OF kind ty dir w] by (simp only: exfat_make_attr_def hold fields)
  qed
  ultimately have "exfat_make_mode opts (exfat_make_attr opts m' (exfat_save_attr opts ?im attr)) S_IRWXUGO = ucast m'" by simp
  moreover have "ucast (ucast m' :: u32) = m'" by (rule bit_word_eqI) (auto simp: bit_ucast_iff)
  ultimately show ?thesis by (simp only: mode_of_def)
qed

text \<open>Taking the write bits of a file away on a volume mounted with \<open>umask=022\<close>.\<close>

definition sample_options :: exfat_mount_options where
  "sample_options = \<lparr>fs_uid = 0, fs_gid = 0, fs_fmask = 0x12, fs_dmask = 0x12, allow_utime = 0, codepage = 437,
     iocharset = DefaultCharset, opt_casesensitive = 0, opt_errors = EXFAT_ERRORS_RO, opt_discard = False\<rparr>"

lemma chmod_survives_witness:
  "exfat_sanitize_mode sample_options (mode_of sample_options ATTR_ARCHIVE) 0x816D = Some 0x816D \<and>
   mode_of sample_options (exfat_make_attr sample_options 0x816D
     (exfat_save_attr sample_options (mode_of sample_options ATTR_ARCHIVE) ATTR_ARCHIVE)) = 0x816D"
proof -
  note ev = sample_options_def mode_of_def exfat_make_mode_def exfat_sanitize_mode_def exfat_mode_can_hold_ro_def
    S_ISDIR_def S_ISREG_def S_ISLNK_def mode_bits ATTR_ARCHIVE_def ATTR_SUBDIR_def ATTR_SYMLINK_def ATTR_READONLY_def Let_def
  have "exfat_sanitize_mode sample_options (mode_of sample_options ATTR_ARCHIVE) 0x816D = Some 0x816D" by (simp add: ev)
  then show ?thesis
    using chmod_survives [of ATTR_ARCHIVE "0x816D" sample_options "0x816D"] by (simp add: ev)
qed

section \<open>Reading the mount options\<close>

text \<open>The code for which an option is refused; the values it gives to the masks.\<close>

definition refused :: "opt_env \<Rightarrow> string \<Rightarrow> s32 option" where
  "refused oe p = (if p = [] then None else case match_token oe p exfat_tokens of (token, arg) \<Rightarrow>
     if token \<in> {Opt_uid, Opt_gid, Opt_codepage, Opt_namecase} then (if match_int oe arg = None then Some 0 else None)
     else if token \<in> {Opt_umask, Opt_dmask, Opt_fmask, Opt_allow_utime} then (if match_octal oe arg = None then Some 0 else None)
     else if token = Opt_charset then (if match_strdup oe arg = None then Some (- ENOMEM) else None)
     else if token = Opt_err then Some (- EINVAL) else None)"

definition octal_of :: "opt_token set \<Rightarrow> opt_env \<Rightarrow> string \<Rightarrow> int option" where
  "octal_of ts oe p = (if p = [] then None else case match_token oe p exfat_tokens of (token, arg) \<Rightarrow>
     if token \<in> ts then match_octal oe arg else None)"

text \<open>The last value that the options give, \<open>d\<close> if none does.\<close>

definition last_octal :: "opt_token set \<Rightarrow> opt_env \<Rightarrow> (int \<Rightarrow> 'a) \<Rightarrow> 'a \<Rightarrow> string list \<Rightarrow> 'a" where
  "last_octal ts oe f d ps = last (d # map f (List.map_filter (octal_of ts oe) ps))"

definition utime_of :: "int \<Rightarrow> u16" where
  "utime_of v = ucast ((of_int v :: u32) AND (S_IWGRP OR S_IWOTH))"

lemma last_octal_simps [simp]:
  "last_octal ts oe f d [] = d"
  "last_octal ts oe f d (p # ps) = last_octal ts oe f (case octal_of ts oe p of None \<Rightarrow> d | Some v \<Rightarrow> f v) ps"
  by (simp_all add: last_octal_def map_filter_def split: option.split)

lemma set_option_step:
  assumes "match_token oe p exfat_tokens = (token, arg)" "p \<noteq> []"
  shows "case set_option oe token arg (opts, debug) of
           Inl (c, opts', _) \<Rightarrow> refused oe p = Some c \<and> fs_dmask opts' = fs_dmask opts \<and> fs_fmask opts' = fs_fmask opts \<and>
             allow_utime opts' = allow_utime opts
         | Inr (opts', _) \<Rightarrow> refused oe p = None \<and>
             fs_dmask opts' = (case octal_of {Opt_umask, Opt_dmask} oe p of None \<Rightarrow> fs_dmask opts | Some v \<Rightarrow> of_int v) \<and>
             fs_fmask opts' = (case octal_of {Opt_umask, Opt_fmask} oe p of None \<Rightarrow> fs_fmask opts | Some v \<Rightarrow> of_int v) \<and>
             allow_utime opts' = (case octal_of {Opt_allow_utime} oe p of None \<Rightarrow> allow_utime opts | Some v \<Rightarrow> utime_of v)"
  by (cases token)
     (simp_all add: set_option_def with_number_def refused_def octal_of_def utime_of_def assms Let_def split: option.split)

lemma option_loop_spec:
  "option_loop oe ps (opts, debug) = r \<Longrightarrow> \<exists>opts' debug'.
     r = (case dropWhile (\<lambda>p. refused oe p = None) ps of [] \<Rightarrow> Inr (opts', debug') | p # _ \<Rightarrow> Inl (the (refused oe p), opts', debug')) \<and>
     fs_dmask opts' = last_octal {Opt_umask, Opt_dmask} oe of_int (fs_dmask opts) (takeWhile (\<lambda>p. refused oe p = None) ps) \<and>
     fs_fmask opts' = last_octal {Opt_umask, Opt_fmask} oe of_int (fs_fmask opts) (takeWhile (\<lambda>p. refused oe p = None) ps) \<and>
     allow_utime opts' = last_octal {Opt_allow_utime} oe utime_of (allow_utime opts) (takeWhile (\<lambda>p. refused oe p = None) ps)"
proof (induction ps arbitrary: opts debug)
  case Nil
  then show ?case by auto
next
  case (Cons p ps)
  show ?case
  proof (cases "p = []")
    case True
    then have "refused oe p = None" "octal_of ts oe p = None" for ts by (simp_all add: refused_def octal_of_def)
    then show ?thesis using Cons True by simp
  next
    case False
    obtain token arg where t: "match_token oe p exfat_tokens = (token, arg)" by fastforce
    note st = set_option_step [OF t False, of opts debug]
    show ?thesis
    proof (cases "set_option oe token arg (opts, debug)")
      case (Inl x)
      obtain c o2 d2 where x: "x = (c, o2, d2)" by (cases x) auto
      then have "refused oe p = Some c" "fs_dmask o2 = fs_dmask opts" "fs_fmask o2 = fs_fmask opts" "allow_utime o2 = allow_utime opts"
        using st Inl by simp_all
      moreover have "r = Inl (c, o2, d2)" using Cons.prems False t Inl x by simp
      ultimately show ?thesis by (intro exI [of _ o2] exI [of _ d2]) simp
    next
      case (Inr x)
      obtain o2 d2 where x: "x = (o2, d2)" by fastforce
      have "option_loop oe ps (o2, d2) = r" using Cons.prems False t Inr x by simp
      from Cons.IH [OF this] show ?thesis using Inr x st by simp
    qed
  qed
qed

lemma last_octal_none:
  "(\<And>p. p \<in> set ps \<Longrightarrow> octal_of ts oe p = None) \<Longrightarrow> last_octal ts oe f d ps = d"
  by (induction ps) simp_all

lemma parse_options_run:
  fixes oe :: opt_env and str :: string
  defines "taken \<equiv> takeWhile (\<lambda>p. refused oe p = None) (strsep str)"
    and "rest \<equiv> dropWhile (\<lambda>p. refused oe p = None) (strsep str)"
    and "utime \<equiv> last_octal {Opt_allow_utime} oe utime_of (-1) (takeWhile (\<lambda>p. refused oe p = None) (strsep str))"
  shows "case parse_options oe (Some str) of (code, opts, _) \<Rightarrow>
     code = (case rest of [] \<Rightarrow> 0 | p # _ \<Rightarrow> the (refused oe p)) \<and>
     fs_dmask opts = last_octal {Opt_umask, Opt_dmask} oe of_int (of_int (cur_umask oe)) taken \<and>
     fs_fmask opts = last_octal {Opt_umask, Opt_fmask} oe of_int (of_int (cur_umask oe)) taken \<and>
     allow_utime opts =
       (if rest = [] \<and> utime = -1 then ucast (NOT (ucast (fs_dmask opts)) AND (S_IWGRP OR S_IWOTH) :: u32) else utime)"
proof -
  obtain opts' debug' where
    r: "option_loop oe (strsep str) (default_options oe, False) =
          (case rest of [] \<Rightarrow> Inr (opts', debug') | p # _ \<Rightarrow> Inl (the (refused oe p), opts', debug'))"
    and m: "fs_dmask opts' = last_octal {Opt_umask, Opt_dmask} oe of_int (of_int (cur_umask oe)) taken"
      "fs_fmask opts' = last_octal {Opt_umask, Opt_fmask} oe of_int (of_int (cur_umask oe)) taken" "allow_utime opts' = utime"
    using option_loop_spec [of oe "strsep str" "default_options oe" False, OF refl]
    unfolding taken_def rest_def utime_def by (auto simp: default_options_def)
  show ?thesis
    by (cases rest) (simp_all add: parse_options_def r options_out_def m)
qed


text \<open>
  Who may set the times of a file (\<^verbatim>\<open>utimes\<close>) without owning it, on a volume mounted without \<^verbatim>\<open>allow_utime\<close>: those
  whom the mask of directories leaves the right to write, but everybody when the options had a malformed number.
\<close>

lemma and_may_write: "(x :: u32) AND MAY_WRITE \<noteq> 0 \<longleftrightarrow> bit x 1"
  using bit_iff_and_push_bit_not_eq_0 [of x 1] by (simp add: MAY_WRITE_def)

lemma bit_drop_3: "bit (drop_bit 3 (x :: u32)) 1 \<longleftrightarrow> bit x 4"
  by (simp add: bit_drop_bit_eq)

lemma set_time_permission:
  assumes parse: "parse_options oe (Some str) = (0, opts, debug)"
    and none: "\<And>p. p \<in> set (takeWhile (\<lambda>p. refused oe p = None) (strsep str)) \<Longrightarrow> octal_of {Opt_allow_utime} oe p = None"
  shows "exfat_allow_set_time opts False in_group \<longleftrightarrow>
     (\<exists>p \<in> set (strsep str). refused oe p \<noteq> None) \<or> \<not> bit (fs_dmask opts) (if in_group then 4 else 1)"
proof -
  let ?rest = "dropWhile (\<lambda>p. refused oe p = None) (strsep str)"
  have "last_octal {Opt_allow_utime} oe utime_of (-1) (takeWhile (\<lambda>p. refused oe p = None) (strsep str)) = -1"
    using none by (rule last_octal_none)
  then have u: "allow_utime opts = (if ?rest = [] then ucast (NOT (ucast (fs_dmask opts)) AND (S_IWGRP OR S_IWOTH) :: u32) else -1)"
    using parse_options_run [of oe str] parse by (simp split: if_splits)
  have "?rest = [] \<longleftrightarrow> \<not> (\<exists>p \<in> set (strsep str). refused oe p \<noteq> None)" by auto
  moreover have b: "bit (ucast (allow_utime opts) :: u32) n \<longleftrightarrow> (?rest = [] \<longrightarrow> \<not> bit (fs_dmask opts) n)" if "n = 1 \<or> n = 4" for n
  proof (cases "?rest = []")
    case True
    have "bit (S_IWGRP OR S_IWOTH) n" using that by (auto simp: mode_bits bit_or_iff)
    then show ?thesis using that True by (auto simp: u bit_ucast_iff bit_and_iff bit_not_iff possible_bit_word)
  next
    case False
    then show ?thesis using that by (auto simp: u bit_ucast_iff)
  qed
  ultimately show ?thesis using b [of 1] b [of 4]
    by (simp only: exfat_allow_set_time_def Let_def and_may_write bit_drop_3 if_distrib [of "\<lambda>x. x AND MAY_WRITE \<noteq> 0"]
          not_False_eq_True if_True split: if_split) auto
qed

end
