(* ===== verification/VfsTime.thy ===== *)
theory VfsTime
  imports FileAttr
begin

text \<open>
  The time conversions of \<^verbatim>\<open>exfat_super.c\<close> between seconds since 1970 and the broken-down dates of the entries.  The zone
  (\<^verbatim>\<open>sys_tz.tz_minuteswest\<close>) is an argument; \<^verbatim>\<open>time_t\<close> is an \<open>int\<close>, as in \<^verbatim>\<open>tm_current\<close>.  \<^verbatim>\<open>exfat_time_fat2unix\<close> indexes a table by
  the month: \<open>None\<close> is an index behind its end.  \<^verbatim>\<open>exfat_time_unix2fat\<close> leaves the milliseconds as they are.
\<close>

section \<open>The code\<close>

definition exfat_time_fat2unix :: "int \<Rightarrow> DATE_TIME_T \<Rightarrow> int option" where
  "exfat_time_fat2unix tz tp =
     (let year = uint (Year tp);
          ld = MAKE_LEAP_YEAR year;
          ld = (if IS_LEAP_YEAR year \<and> Month tp > 2 then ld + 1 else ld)
      in if unat (Month tp) < length accum_days_in_year
         then Some (uint (Second tp) + uint (Minute tp) * SECS_PER_MIN + uint (Hour tp) * SECS_PER_HOUR +
                (year * 365 + ld + accum_days_in_year ! unat (Month tp) + (uint (Day tp) - 1) + DAYS_DELTA_DECADE) * SECS_PER_DAY +
                tz * SECS_PER_MIN)
         else None)"

definition exfat_time_unix2fat :: "int \<Rightarrow> int \<Rightarrow> DATE_TIME_T \<Rightarrow> DATE_TIME_T" where
  "exfat_time_unix2fat tz tv_sec tp =
     (let second = tv_sec - tz * SECS_PER_MIN in
      if second < UNIX_SECS_1980 then
        tp\<lparr>Second := 0, Minute := 0, Hour := 0, Day := 1, Month := 1, Year := 0\<rparr>
      else if second \<ge> UNIX_SECS_2108 then
        tp\<lparr>Second := 59, Minute := 59, Hour := 23, Day := 31, Month := 12, Year := 127\<rparr>
      else
        let day = second div SECS_PER_DAY - DAYS_DELTA_DECADE;
            year = day div 365;
            ld = MAKE_LEAP_YEAR year;
            year = (if year * 365 + ld > day then year - 1 else year);
            ld = MAKE_LEAP_YEAR year;
            day = day - (year * 365 + ld);
            (month, day) =
              (if IS_LEAP_YEAR year \<and> day = accum_days_in_year ! 3 then (2, day)
               else let day = (if IS_LEAP_YEAR year \<and> day > accum_days_in_year ! 3 then day - 1 else day)
                    in (month_loop 1 day, day));
            day = day - accum_days_in_year ! month
        in tp\<lparr>Second := word_of_int (second mod SECS_PER_MIN),
              Minute := word_of_int ((second div SECS_PER_MIN) mod 60),
              Hour := word_of_int ((second div SECS_PER_HOUR) mod 24),
              Day := word_of_int (day + 1),
              Month := of_nat month,
              Year := word_of_int year\<rparr>)"

section \<open>The calendar\<close>

text \<open>Both functions of the driver that break down a time agree.\<close>

lemma unix2fat_tm_current:
  "exfat_time_unix2fat tz t tp = (to_date (tm_current t tz))\<lparr>MilliSecond := MilliSecond tp\<rparr>"
  by (cases tp) (simp add: exfat_time_unix2fat_def tm_current_def to_date_def Let_def case_prod_unfold)

lemma months: "1 \<le> m \<Longrightarrow> m \<le> 12 \<Longrightarrow> m \<in> {1, 2, 3, 4, 5, 6, 7, 8, 9, 10, 11, 12 :: nat}"
  by (simp only: insert_iff empty_iff) presburger

lemma accum_before_month:
  assumes "1 \<le> m" "m \<le> 12"
  shows "accum_days_in_year ! m + (if leap y \<and> 2 < m then 1 else 0) = days_before_month y m"
proof -
  show ?thesis using months [OF assms] by (auto simp: accum_days_in_year_def days_before_month_table simp del: One_nat_def)
qed

lemma fat2unix_secs:
  assumes "valid_timestamp (to_tm d)"
  shows "exfat_time_fat2unix tz d = Some (secs_since_1980 (to_tm d) + UNIX_SECS_1980 + tz * SECS_PER_MIN)"
proof -
  let ?y = "uint (Year d)" and ?m = "unat (Month d)"
  have v: "?y \<le> 127" "1 \<le> uint (Month d)" "uint (Month d) \<le> 12" using assms by (simp_all add: valid_timestamp_def to_tm_def)
  have m: "1 \<le> ?m" "?m \<le> 12" using v(2,3) unfolding uint_nat by linarith+
  have lp: "IS_LEAP_YEAR ?y = leap ?y" by (rule IS_LEAP_YEAR_leap) (use v in simp_all)
  have gt: "(Month d > 2) = (2 < ?m)" by (simp add: word_less_nat_alt)
  have ny: "days_before_year (unat (Year d)) = ?y * 365 + MAKE_LEAP_YEAR ?y"
    using days_before_year_code [of "unat (Year d)"] v(1) unfolding uint_nat by linarith
  let ?L = "if leap ?y \<and> 2 < ?m then MAKE_LEAP_YEAR ?y + 1 else MAKE_LEAP_YEAR ?y"
  have core: "?y * 365 + ?L + accum_days_in_year ! ?m = days_before_year (unat (Year d)) + days_before_month ?y ?m"
    using ny accum_before_month [OF m, of ?y] by auto
  have "uint (Second d) + uint (Minute d) * 60 + uint (Hour d) * 3600 + (?y * 365 + ?L + accum_days_in_year ! ?m + (uint (Day d) - 1) + 3652) * 86400 + tz * 60 =
      secs_since_1980 (to_tm d) + 315532800 + tz * 60"
    unfolding core by (simp add: secs_since_1980_def to_tm_def)
  then show ?thesis using m by (simp only: exfat_time_fat2unix_def Let_def lp gt clock_consts) (simp add: accum_days_in_year_def)
qed

text \<open>A valid date is determined by its seconds.\<close>

lemma days_in_year:
  assumes "1 \<le> m" "m \<le> 12" "0 \<le> d" "d < month_len y m"
  shows "0 \<le> days_before_month y m + d" "days_before_month y m + d < 365 + (if leap y then 1 else 0)"
proof -
  show "0 \<le> days_before_month y m + d" "days_before_month y m + d < 365 + (if leap y then 1 else 0)"
    using months [OF assms(1,2)] assms(3,4) by (auto simp: days_before_month_table simp del: One_nat_def)
qed

lemma days_before_month_mono:
  assumes "1 \<le> m" "m < n"
  shows "days_before_month y m + month_len y m \<le> days_before_month y n"
  using assms(2)
proof (induction n)
  case (Suc n)
  show ?case
  proof (cases "m = n")
    case True
    then show ?thesis using days_before_month_step [OF assms(1)] by simp
  next
    case False
    then have "days_before_month y m + month_len y m \<le> days_before_month y n" using Suc by simp
    moreover have "0 \<le> month_len y n" by simp
    ultimately show ?thesis using days_before_month_step [of n y] Suc.prems assms(1) False by simp
  qed
qed simp

lemma days_before_year_mono:
  assumes "y < z"
  shows "days_before_year y + (if leap (int y) then 366 else 365) \<le> days_before_year z"
  using assms
proof (induction z)
  case (Suc z)
  have s: "days_before_year (Suc k) = days_before_year k + (if leap (int k) then 366 else 365)" for k by (simp add: days_before_year_def)
  show ?case
  proof (cases "y = z")
    case False
    then have "days_before_year y + (if leap (int y) then 366 else 365) \<le> days_before_year z" using Suc by simp
    then show ?thesis using s [of z] by simp
  qed (simp add: s)
qed simp

lemma day_unique:
  assumes "1 \<le> m" "0 \<le> d" "d < month_len y m" "1 \<le> m'" "0 \<le> d'" "d' < month_len y m'"
    and "days_before_month y m + d = days_before_month y m' + d'"
  shows "m = m' \<and> d = d'"
proof (rule linorder_cases [of m m'])
  assume "m < m'"
  then show ?thesis using days_before_month_mono [of m m' y] assms by linarith
next
  assume "m' < m"
  then show ?thesis using days_before_month_mono [of m' m y] assms by linarith
qed (use assms in simp)

lemma year_unique:
  assumes "0 \<le> a" "a < (if leap (int y) then 366 else 365)" "0 \<le> b" "b < (if leap (int z) then 366 else 365)"
    and "days_before_year y + a = days_before_year z + b"
  shows "y = z \<and> a = b"
proof (rule linorder_cases [of y z])
  assume "y < z"
  then show ?thesis using days_before_year_mono [of y z] assms by linarith
next
  assume "z < y"
  then show ?thesis using days_before_year_mono [of z y] assms by linarith
qed (use assms in simp)

lemma secs_unique:
  assumes "valid_timestamp t" "valid_timestamp u" "secs_since_1980 t = secs_since_1980 u"
  shows "t = u"
proof -
  define day where "day x = days_before_year (unat (tm_year x)) + days_before_month (uint (tm_year x)) (unat (tm_mon x)) + (uint (tm_day x) - 1)" for x :: TIMESTAMP_T
  define sec where "sec x = uint (tm_hour x) * 3600 + uint (tm_min x) * 60 + uint (tm_sec x)" for x :: TIMESTAMP_T
  have s: "secs_since_1980 x = day x * 86400 + sec x" for x by (simp add: secs_since_1980_def day_def sec_def)
  have r: "0 \<le> sec x \<and> sec x < 86400" if "valid_timestamp x" for x
    using that by (simp add: valid_timestamp_def sec_def)
  have "day t = day u" using assms(3) r [OF assms(1)] r [OF assms(2)] unfolding s by linarith
  then have e: "day t = day u" "sec t = sec u" using assms(3) unfolding s by simp_all
  have g: "0 \<le> uint (tm_min x)" "0 \<le> uint (tm_sec x)" for x :: TIMESTAMP_T by simp_all
  have m60: "uint (tm_min t) < 60" "uint (tm_min u) < 60" "uint (tm_sec t) < 60" "uint (tm_sec u) < 60"
    using assms(1,2) by (simp_all add: valid_timestamp_def)
  have h: "uint (tm_hour t) = uint (tm_hour u)" using e(2) m60 g [of t] g [of u] unfolding sec_def by linarith
  have n: "uint (tm_min t) = uint (tm_min u)" using e(2) h m60 g [of t] g [of u] unfolding sec_def by linarith
  have hms: "uint (tm_hour t) = uint (tm_hour u)" "uint (tm_min t) = uint (tm_min u)" "uint (tm_sec t) = uint (tm_sec u)"
    using h n e(2) by (simp_all add: sec_def)
  define a where "a x = days_before_month (uint (tm_year x)) (unat (tm_mon x)) + (uint (tm_day x) - 1)" for x :: TIMESTAMP_T
  have mon: "1 \<le> unat (tm_mon x) \<and> unat (tm_mon x) \<le> 12 \<and> 0 \<le> uint (tm_day x) - 1 \<and>
      uint (tm_day x) - 1 < month_len (uint (tm_year x)) (unat (tm_mon x))" if "valid_timestamp x" for x
    using that unfolding valid_timestamp_def uint_nat by linarith
  have ar: "0 \<le> a x \<and> a x < (if leap (int (unat (tm_year x))) then 366 else 365)" if "valid_timestamp x" for x
    using days_in_year [of "unat (tm_mon x)" "uint (tm_day x) - 1" "uint (tm_year x)"] mon [OF that] unfolding a_def
    by (auto simp: split: if_splits)
  have "day x = days_before_year (unat (tm_year x)) + a x" for x by (simp add: day_def a_def)
  then have ya: "unat (tm_year t) = unat (tm_year u) \<and> a t = a u"
    using year_unique [of "a t" "unat (tm_year t)" "a u" "unat (tm_year u)"] ar [OF assms(1)] ar [OF assms(2)] e(1) by simp
  then have y: "tm_year t = tm_year u" by (simp add: word_unat_eq_iff)
  have "unat (tm_mon t) = unat (tm_mon u) \<and> uint (tm_day t) - 1 = uint (tm_day u) - 1"
    by (rule day_unique [of _ _ "uint (tm_year t)"]) (use mon [OF assms(1)] mon [OF assms(2)] ya y in \<open>simp_all add: a_def\<close>)
  then have "tm_mon t = tm_mon u" "uint (tm_day t) = uint (tm_day u)" by (simp_all add: word_unat_eq_iff)
  then show ?thesis using hms y by (simp add: word_uint_eq_iff)
qed

lemma secs_range:
  assumes "valid_timestamp t"
  shows "0 \<le> secs_since_1980 t" "secs_since_1980 t + UNIX_SECS_1980 < UNIX_SECS_2108"
proof -
  let ?y = "unat (tm_year t)" and ?m = "unat (tm_mon t)" and ?d = "uint (tm_day t) - 1"
  have v: "?y \<le> 127" "1 \<le> ?m" "?m \<le> 12" "0 \<le> ?d" "?d < month_len (uint (tm_year t)) ?m"
    using assms unfolding valid_timestamp_def uint_nat by linarith+
  note dy = days_in_year [OF v(2-5)]
  have s: "0 \<le> uint (tm_hour t) * 3600 + uint (tm_min t) * 60 + uint (tm_sec t)"
    "uint (tm_hour t) * 3600 + uint (tm_min t) * 60 + uint (tm_sec t) < 86400" using assms by (simp_all add: valid_timestamp_def)
  have "days_before_year ?y + (if leap (int ?y) then 366 else 365) \<le> days_before_year 128"
    using days_before_year_mono [of ?y 128] v(1) by simp
  moreover have "days_before_year 128 = 46751" using days_before_year_code [of 128] by (simp add: MAKE_LEAP_YEAR_def NO_LEAP_YEAR_2100_def)
  moreover have "int ?y = uint (tm_year t)" by (rule uint_nat [symmetric])
  moreover have "0 \<le> days_before_year ?y" by (simp add: days_before_year_def sum_nonneg)
  ultimately have x: "0 \<le> days_before_year ?y + days_before_month (uint (tm_year t)) ?m + ?d"
    "days_before_year ?y + days_before_month (uint (tm_year t)) ?m + ?d < 46751" using dy by (auto split: if_splits)
  obtain a b where ab: "secs_since_1980 t = a * 86400 + b" "0 \<le> a" "a < 46751" "0 \<le> b" "b < 86400"
    using that [OF _ x s] by (simp add: secs_since_1980_def)
  show "0 \<le> secs_since_1980 t" using ab by simp
  show "secs_since_1980 t + UNIX_SECS_1980 < UNIX_SECS_2108" using ab by (simp add: clock_consts)
qed

lemma fat_time_inverse:
  assumes "UNIX_SECS_1980 \<le> t - tz * SECS_PER_MIN \<and> t - tz * SECS_PER_MIN < UNIX_SECS_2108"
  shows "exfat_time_fat2unix tz (exfat_time_unix2fat tz t tp) = Some t"
proof -
  have e: "to_tm (exfat_time_unix2fat tz t tp) = tm_current t tz"
    by (simp add: unix2fat_tm_current to_tm_def to_date_def)
  have "valid_timestamp (tm_current t tz) \<and> secs_since_1980 (tm_current t tz) = t - tz * SECS_PER_MIN - UNIX_SECS_1980"
    using tm_current_calendar [of "t - tz * SECS_PER_MIN"] assms tm_current_zone [of t tz] by simp
  then show ?thesis using fat2unix_secs [of "exfat_time_unix2fat tz t tp" tz] unfolding e by simp
qed

lemma unix_time_inverse:
  assumes v: "valid_timestamp (to_tm d)"
  shows "\<exists>t. exfat_time_fat2unix tz d = Some t \<and> exfat_time_unix2fat tz t tp = d\<lparr>MilliSecond := MilliSecond tp\<rparr>"
proof -
  let ?t = "secs_since_1980 (to_tm d) + UNIX_SECS_1980 + tz * SECS_PER_MIN"
  have "valid_timestamp (tm_current ?t tz) \<and> secs_since_1980 (tm_current ?t tz) = secs_since_1980 (to_tm d)"
    using tm_current_calendar [of "?t - tz * SECS_PER_MIN"] secs_range [OF v] tm_current_zone [of ?t tz] by simp
  then have "tm_current ?t tz = to_tm d" using secs_unique v by blast
  then have "exfat_time_unix2fat tz ?t tp = d\<lparr>MilliSecond := MilliSecond tp\<rparr>"
    unfolding unix2fat_tm_current by (cases d) (simp add: to_date_def to_tm_def)
  then show ?thesis using fat2unix_secs [OF v, of tz] by blast
qed

text \<open>The access time of an entry, which \<^verbatim>\<open>ffsGetStat\<close> fills with zeros, becomes the last day of 1979.\<close>

lemma no_date_time: "exfat_time_fat2unix tz no_date = Some (UNIX_SECS_1980 - SECS_PER_DAY + tz * SECS_PER_MIN)"
  by (simp add: exfat_time_fat2unix_def no_date_def accum_days_in_year_def MAKE_LEAP_YEAR_0 clock_consts)

text \<open>
  C35: Converting a time to a FAT date and back gives the time itself, for every second from 1980 to 2107, and
  converting a valid FAT date to a time and back gives the date (the milliseconds, which no conversion sets, aside).
\<close>

theorem time_conversions_inverse:
  "(UNIX_SECS_1980 \<le> t - tz * SECS_PER_MIN \<and> t - tz * SECS_PER_MIN < UNIX_SECS_2108 \<longrightarrow>
      exfat_time_fat2unix tz (exfat_time_unix2fat tz t tp) = Some t) \<and>
   (valid_timestamp (to_tm d) \<longrightarrow> (\<exists>t. exfat_time_fat2unix tz d = Some t \<and>
      exfat_time_unix2fat tz t tp = d\<lparr>MilliSecond := MilliSecond tp\<rparr>))"
  using fat_time_inverse [of t tz tp] unix_time_inverse [of d tz tp] by blast

lemma time_conversions_inverse_witness:
  "exfat_time_fat2unix 60 (exfat_time_unix2fat 60 951868800 no_date) = Some 951868800 \<and>
   (\<exists>t. exfat_time_fat2unix 0 \<lparr>Year = 20, Month = 2, Day = 29, Hour = 23, Minute = 1, Second = 2, MilliSecond = 0\<rparr> = Some t \<and>
     exfat_time_unix2fat 0 t no_date = \<lparr>Year = 20, Month = 2, Day = 29, Hour = 23, Minute = 1, Second = 2, MilliSecond = 0\<rparr>)"
  using time_conversions_inverse [of 951868800 60 no_date no_date]
    time_conversions_inverse [of 0 0 no_date "\<lparr>Year = 20, Month = 2, Day = 29, Hour = 23, Minute = 1, Second = 2, MilliSecond = 0\<rparr>"]
  by (simp add: clock_consts valid_timestamp_def to_tm_def leap_def no_date_def)

end
