(* ===== verification/FsApi.thy ===== *)
theory FsApi
  imports Mount FileAttr
begin

text \<open>
  The interface of the driver (\<^verbatim>\<open>exfat_api.c\<close>) that \<^verbatim>\<open>exfat_super.c\<close> calls: each function checks its pointers, takes the
  semaphore of the volume and calls its \<^verbatim>\<open>ffs\<close> counterpart.  The semaphores have no state in the sequential model.  A
  path is a C string, the list of its bytes before the zero.  All pointers that the callers pass are addresses of variables
  or have been tested before, so that of the tests only that for an empty path remains.
\<close>

definition FFS_INVALIDFID :: s32 where "FFS_INVALIDFID = 8"
definition FFS_DIRBUSY :: s32 where "FFS_DIRBUSY = 16"
definition FFS_NAMETOOLONG :: s32 where "FFS_NAMETOOLONG = 18"

section \<open>Volumes\<close>

definition FsGetVolInfo :: "(s32 \<times> VOL_INFO_T) fsM" where
  "FsGetVolInfo = ffsGetVolInfo"

definition FsSyncVol :: "bool \<Rightarrow> s32 fsM" where
  "FsSyncVol do_sync = ffsSyncVol do_sync"

definition FsReleaseCache :: "s32 fsM" where
  "FsReleaseCache = do { _ \<leftarrow> FAT_release_all; _ \<leftarrow> buf_release_all; ret 0 }"

section \<open>Files\<close>

definition FsLookupFile :: "fs_env \<Rightarrow> inode \<Rightarrow> u8 list \<Rightarrow> FILE_ID_T \<Rightarrow> file_result fsM" where
  "FsLookupFile ev ino path fid =
     (if path = [] then ret (FFS_ERROR, ino, fid) else ffsLookupFile ev ino path fid)"

definition FsCreateFile :: "fs_env \<Rightarrow> inode \<Rightarrow> u8 list \<Rightarrow> u8 \<Rightarrow> FILE_ID_T \<Rightarrow> file_result fsM" where
  "FsCreateFile ev ino path mode fid =
     (if path = [] then ret (FFS_ERROR, ino, fid) else ffsCreateFile ev ino path mode fid)"

definition FsReadFile :: "FILE_ID_T \<Rightarrow> u64 \<Rightarrow> (s32 \<times> u8 list \<times> FILE_ID_T) fsM" where
  "FsReadFile fid count = ffsReadFile fid count"

definition FsWriteFile :: "fs_env \<Rightarrow> FILE_ID_T \<Rightarrow> u8 list \<Rightarrow> (s32 \<times> nat \<times> FILE_ID_T) fsM" where
  "FsWriteFile ev fid data = ffsWriteFile ev fid data"

definition FsTruncateFile :: "fs_env \<Rightarrow> inode \<Rightarrow> u64 \<Rightarrow> u64 \<Rightarrow> (s32 \<times> inode) fsM" where
  "FsTruncateFile ev ino old_size new_size = ffsTruncateFile ev ino old_size new_size"

definition FsMoveFile :: "fs_env \<Rightarrow> inode \<Rightarrow> FILE_ID_T \<Rightarrow> inode \<Rightarrow> u8 list \<Rightarrow> FILE_ID_T option \<Rightarrow> move_result fsM" where
  "FsMoveFile ev old_parent fid new_parent new_path new_fid = ffsMoveFile ev old_parent fid new_parent new_path new_fid"

definition FsRemoveFile :: "FILE_ID_T \<Rightarrow> (s32 \<times> FILE_ID_T) fsM" where
  "FsRemoveFile fid = ffsRemoveFile fid"

definition FsSetAttr :: "inode \<Rightarrow> u32 \<Rightarrow> (s32 \<times> inode) fsM" where
  "FsSetAttr ino attr = ffsSetAttr ino attr"

definition FsReadStat :: "fs_env \<Rightarrow> inode \<Rightarrow> DIR_ENTRY_T \<Rightarrow> (s32 \<times> DIR_ENTRY_T) fsM" where
  "FsReadStat ev ino info = ffsGetStat ev ino info"

definition FsWriteStat :: "inode \<Rightarrow> DIR_ENTRY_T \<Rightarrow> s32 fsM" where
  "FsWriteStat ino info = ffsSetStat ino info"

definition FsMapCluster :: "inode \<Rightarrow> s32 \<Rightarrow> (s32 \<times> u32 \<times> inode) fsM" where
  "FsMapCluster ino clu_offset = ffsMapCluster ino clu_offset"

section \<open>Directories\<close>

definition FsCreateDir :: "fs_env \<Rightarrow> inode \<Rightarrow> u8 list \<Rightarrow> FILE_ID_T \<Rightarrow> file_result fsM" where
  "FsCreateDir ev ino path fid =
     (if path = [] then ret (FFS_ERROR, ino, fid) else ffsCreateDir ev ino path fid)"

definition FsReadDir :: "fs_env \<Rightarrow> inode \<Rightarrow> DIR_ENTRY_T \<Rightarrow> (s32 \<times> inode \<times> DIR_ENTRY_T) fsM" where
  "FsReadDir ev ino de = ffsReadDir ev ino de"

definition FsRemoveDir :: "FILE_ID_T \<Rightarrow> (s32 \<times> FILE_ID_T) fsM" where
  "FsRemoveDir fid = ffsRemoveDir fid"

end
