(* ===== verification/VfsInode.thy ===== *)
theory VfsInode
  imports VfsMode VfsTime FsApi
begin

text \<open>
  Inodes and the inode hash table (\<^verbatim>\<open>exfat_super.c\<close>).  An inode is known by its address, a number.  The parts of
  \<^verbatim>\<open>struct inode\<close> and \<^verbatim>\<open>struct exfat_inode_info\<close> that the core of the driver uses are the record \<open>inode\<close>, in the field
  \<open>vi\<close>; \<open>i_hash_fat\<close> tells in which list of the hash table the node of the inode is.  An \<^verbatim>\<open>hlist\<close> is a list of addresses.
  The kernel keeps the reference counts; \<open>i_freeing\<close> says that \<^verbatim>\<open>igrab\<close> fails.  Semaphores, spin locks, \<^verbatim>\<open>i_fop\<close> and
  the page cache have no state in the model.
\<close>

datatype inode_ops = No_ops | Dir_ops | Symlink_ops | File_ops

record vinode =
  vi :: inode
  i_pos :: u64
  i_target :: "u8 list option"
  i_hash_fat :: "nat option"
  i_ino :: u64
  i_mode :: u16
  i_uid :: u32
  i_gid :: u32
  i_version :: u64
  i_generation :: u32
  i_nlink :: u32
  i_mtime :: int
  i_ctime :: int
  i_atime :: int
  i_op :: inode_ops
  i_dirsync :: bool
  i_sync :: bool
  i_dirty :: bool
  i_freeing :: bool
  i_hashed :: bool

text \<open>\<^verbatim>\<open>struct exfat_sb_info\<close> and what the driver sets in \<^verbatim>\<open>struct super_block\<close>.\<close>

record vfs =
  v_vol :: vol
  inodes :: "nat \<Rightarrow> vinode"
  inode_hashtable :: "nat \<Rightarrow> nat list"
  options :: exfat_mount_options
  debug_flags :: u64

text \<open>
  What comes from the kernel: its clock and time zone, the hash function, the numbers and the memory of new inodes, and
  what the stack holds where a \<^verbatim>\<open>FILE_ID_T\<close> or a \<^verbatim>\<open>DIR_ENTRY_T\<close> is put.
\<close>

record vfs_env =
  ve_fs :: fs_env
  tz_minuteswest :: int
  seconds :: int
  hash_32 :: "u32 \<Rightarrow> nat \<Rightarrow> nat"
  new_inode :: "vfs \<Rightarrow> (nat \<times> vinode) option"
  iunique :: "vfs \<Rightarrow> u64"
  junk_fid :: FILE_ID_T
  junk_info :: DIR_ENTRY_T

type_synonym 'a vM = "(vfs, 'a) state"

definition on_vol :: "'a fsM \<Rightarrow> 'a vM" where
  "on_vol m = State (\<lambda>s. case run_state m (v_vol s) of (a, v) \<Rightarrow> (a, s\<lparr>v_vol := v\<rparr>))"

definition get_inode :: "nat \<Rightarrow> vinode vM" where
  "get_inode p = gets (\<lambda>s. inodes s p)"

definition upd_inode :: "nat \<Rightarrow> (vinode \<Rightarrow> vinode) \<Rightarrow> unit vM" where
  "upd_inode p f = modify (\<lambda>s. s\<lparr>inodes := (inodes s)(p := f (inodes s p))\<rparr>)"

lemma run_on_vol [simp]:
  "run_state (on_vol m) s = (fst (run_state m (v_vol s)), s\<lparr>v_vol := snd (run_state m (v_vol s))\<rparr>)"
  by (simp add: on_vol_def split: prod.split)

lemma run_get_inode [simp]: "run_state (get_inode p) s = (inodes s p, s)"
  by (simp add: get_inode_def)

lemma run_upd_inode [simp]: "run_state (upd_inode p f) s = ((), s\<lparr>inodes := (inodes s)(p := f (inodes s p))\<rparr>)"
  by (simp add: upd_inode_def)

definition EXFAT_ROOT_INO :: u64 where "EXFAT_ROOT_INO = 1"
definition EXFAT_HASH_BITS :: nat where "EXFAT_HASH_BITS = 8"
definition EXFAT_HASH_SIZE :: nat where "EXFAT_HASH_SIZE = 256"
definition EXFAT_DEBUGFLAGS_INVALID_UMOUNT :: u64 where "EXFAT_DEBUGFLAGS_INVALID_UMOUNT = 0x01"
definition EXFAT_DEBUGFLAGS_ERROR_RW :: u64 where "EXFAT_DEBUGFLAGS_ERROR_RW = 0x02"

section \<open>The hash table\<close>

text \<open>\<^verbatim>\<open>hash_32\<close> takes 32 bits.\<close>

definition exfat_hash :: "vfs_env \<Rightarrow> u64 \<Rightarrow> nat" where
  "exfat_hash ev pos = hash_32 ev (ucast pos) EXFAT_HASH_BITS"

fun iget_loop :: "(nat \<Rightarrow> vinode) \<Rightarrow> u64 \<Rightarrow> nat list \<Rightarrow> nat option" where
  "iget_loop m pos [] = None"
| "iget_loop m pos (p # ps) =
     (if pos \<noteq> i_pos (m p) then iget_loop m pos ps
      else if \<not> i_freeing (m p) then Some p
      else iget_loop m pos ps)"

definition exfat_iget :: "vfs_env \<Rightarrow> u64 \<Rightarrow> nat option vM" where
  "exfat_iget ev pos = gets (\<lambda>s. iget_loop (inodes s) pos (inode_hashtable s (exfat_hash ev pos)))"

definition exfat_attach :: "vfs_env \<Rightarrow> nat \<Rightarrow> u64 \<Rightarrow> unit vM" where
  "exfat_attach ev p pos = do {
     let h = exfat_hash ev pos;
     _ \<leftarrow> upd_inode p (\<lambda>v. v\<lparr>i_pos := pos, i_hash_fat := Some h\<rparr>);
     modify (\<lambda>s. s\<lparr>inode_hashtable := (inode_hashtable s)(h := p # inode_hashtable s h)\<rparr>) }"

definition exfat_detach :: "nat \<Rightarrow> unit vM" where
  "exfat_detach p = do {
     v \<leftarrow> get_inode p;
     _ \<leftarrow> (case i_hash_fat v of
            None \<Rightarrow> ret ()
          | Some h \<Rightarrow> modify (\<lambda>s. s\<lparr>inode_hashtable := (inode_hashtable s)(h := remove1 p (inode_hashtable s h))\<rparr>));
     upd_inode p (\<lambda>v. v\<lparr>i_hash_fat := None, i_pos := 0\<rparr>) }"

definition exfat_hash_init :: "unit vM" where
  "exfat_hash_init = modify (\<lambda>s. s\<lparr>inode_hashtable := (\<lambda>i. if i < EXFAT_HASH_SIZE then [] else inode_hashtable s i)\<rparr>)"

section \<open>Filling an inode\<close>

definition blocks_of :: "u64 \<Rightarrow> vol \<Rightarrow> u64" where
  "blocks_of sz s =
     signed_drop_bit 9 ((sz + ucast (cluster_size s - 1)) AND NOT (ucast (cluster_size s) - 1))"

text \<open>A time read from the volume; a month behind the table reads behind it.\<close>

definition unix_time :: "vfs_env \<Rightarrow> DATE_TIME_T \<Rightarrow> int vM" where
  "unix_time ev d = (case exfat_time_fat2unix (tz_minuteswest ev) d of
     None \<Rightarrow> do { _ \<leftarrow> on_vol set_ub; ret 0 } | Some t \<Rightarrow> ret t)"

definition set_size :: "u64 \<Rightarrow> vinode \<Rightarrow> vinode" where
  "set_size sz v = v\<lparr>vi := (vi v)\<lparr>i_size := sz, mmu_private := sz\<rparr>\<rparr>"

definition set_fid :: "FILE_ID_T \<Rightarrow> vinode \<Rightarrow> vinode" where
  "set_fid fid v = v\<lparr>vi := (vi v)\<lparr>i_fid := fid\<rparr>\<rparr>"

definition v_fid :: "vinode \<Rightarrow> FILE_ID_T" where
  "v_fid v = i_fid (vi v)"

definition save_attr :: "exfat_mount_options \<Rightarrow> u32 \<Rightarrow> vinode \<Rightarrow> vinode" where
  "save_attr opts attr v = set_fid ((v_fid v)\<lparr>fid_attr := exfat_save_attr opts (i_mode v) attr\<rparr>) v"

definition fill_kind :: "exfat_mount_options \<Rightarrow> DIR_ENTRY_T \<Rightarrow> vinode \<Rightarrow> vinode" where
  "fill_kind opts info v =
     (let md = ucast (exfat_make_mode opts (de_Attr info) S_IRWXUGO) in
      if de_Attr info AND ATTR_SUBDIR \<noteq> 0 then
        (set_size (de_Size info) (v\<lparr>i_generation := i_generation v AND NOT 1, i_mode := md, i_op := Dir_ops\<rparr>))
          \<lparr>i_nlink := de_NumSubdirs info\<rparr>
      else if de_Attr info AND ATTR_SYMLINK \<noteq> 0 then
        set_size (de_Size info) (v\<lparr>i_generation := i_generation v OR 1, i_mode := md, i_op := Symlink_ops\<rparr>)
      else
        set_size (de_Size info) (v\<lparr>i_generation := i_generation v OR 1, i_mode := md, i_op := File_ops\<rparr>))"

definition exfat_fill_inode :: "vfs_env \<Rightarrow> nat \<Rightarrow> FILE_ID_T \<Rightarrow> s32 vM" where
  "exfat_fill_inode ev p fid = do {
     _ \<leftarrow> upd_inode p (set_fid fid);
     v \<leftarrow> get_inode p;
     (_, info) \<leftarrow> on_vol (FsReadStat (ve_fs ev) (vi v) (junk_info ev));
     s \<leftarrow> gets id;
     let opts = options s;
     _ \<leftarrow> upd_inode p (\<lambda>v. v\<lparr>i_pos := 0, i_target := None, i_uid := fs_uid opts, i_gid := fs_gid opts,
            i_version := i_version v + 1, i_generation := of_int (seconds ev)\<rparr>);
     _ \<leftarrow> upd_inode p (fill_kind opts info);
     _ \<leftarrow> upd_inode p (save_attr opts (de_Attr info));
     _ \<leftarrow> upd_inode p (\<lambda>v. v\<lparr>vi := (vi v)\<lparr>i_blocks := blocks_of (i_size (vi v)) (v_vol s)\<rparr>\<rparr>);
     mt \<leftarrow> unix_time ev (de_Modify info);
     ct \<leftarrow> unix_time ev (de_Create info);
     at \<leftarrow> unix_time ev (de_Access info);
     _ \<leftarrow> upd_inode p (\<lambda>v. v\<lparr>i_mtime := mt, i_ctime := ct, i_atime := at\<rparr>);
     ret 0 }"

text \<open>\<^verbatim>\<open>exfat_build_inode\<close>: an error or the inode.  The code of \<^verbatim>\<open>exfat_fill_inode\<close> is always zero.\<close>

definition exfat_build_inode :: "vfs_env \<Rightarrow> FILE_ID_T \<Rightarrow> u64 \<Rightarrow> (s32 + nat) vM" where
  "exfat_build_inode ev fid pos = do {
     r \<leftarrow> exfat_iget ev pos;
     case r of
       Some p \<Rightarrow> ret (Inr p)
     | None \<Rightarrow> do {
         s \<leftarrow> gets id;
         case new_inode ev s of
           None \<Rightarrow> ret (Inl (- ENOMEM))
         | Some (p, v) \<Rightarrow> do {
             _ \<leftarrow> upd_inode p (\<lambda>_. v\<lparr>i_ino := iunique ev s, i_version := 1\<rparr>);
             err \<leftarrow> exfat_fill_inode ev p fid;
             if err \<noteq> 0 then ret (Inl err)
             else do {
               _ \<leftarrow> exfat_attach ev p pos;
               _ \<leftarrow> upd_inode p (\<lambda>v. v\<lparr>i_hashed := True\<rparr>);
               ret (Inr p) } } } }"

section \<open>Writing and dropping an inode\<close>

definition exfat_write_inode :: "vfs_env \<Rightarrow> nat \<Rightarrow> s32 vM" where
  "exfat_write_inode ev p = do {
     v \<leftarrow> get_inode p;
     if i_ino v = EXFAT_ROOT_INO then ret 0
     else do {
       opts \<leftarrow> gets options;
       let info = junk_info ev;
       let tz = tz_minuteswest ev;
       let info = info\<lparr>de_Attr := exfat_make_attr opts (i_mode v) (fid_attr (v_fid v)), de_Size := i_size (vi v),
                       de_Modify := exfat_time_unix2fat tz (i_mtime v) (de_Modify info),
                       de_Create := exfat_time_unix2fat tz (i_ctime v) (de_Create info),
                       de_Access := exfat_time_unix2fat tz (i_atime v) (de_Access info)\<rparr>;
       _ \<leftarrow> on_vol (FsWriteStat (vi v) info);
       ret 0 } }"

definition exfat_sync_inode :: "vfs_env \<Rightarrow> nat \<Rightarrow> s32 vM" where
  "exfat_sync_inode ev p = exfat_write_inode ev p"

definition mark_inode_dirty :: "nat \<Rightarrow> unit vM" where
  "mark_inode_dirty p = upd_inode p (\<lambda>v. v\<lparr>i_dirty := True\<rparr>)"

definition exfat_evict_inode :: "nat \<Rightarrow> unit vM" where
  "exfat_evict_inode p = do {
     _ \<leftarrow> upd_inode p (\<lambda>v. if i_nlink v = 0 then v\<lparr>vi := (vi v)\<lparr>i_size := 0\<rparr>\<rparr> else v);
     _ \<leftarrow> exfat_detach p;
     upd_inode p (\<lambda>v. v\<lparr>i_hashed := False\<rparr>) }"

definition exfat_destroy_inode :: "nat \<Rightarrow> unit vM" where
  "exfat_destroy_inode p = upd_inode p (\<lambda>v. v\<lparr>i_target := None\<rparr>)"

section \<open>The root\<close>

definition exfat_read_root :: "vfs_env \<Rightarrow> nat \<Rightarrow> s32 vM" where
  "exfat_read_root ev p = do {
     s \<leftarrow> gets id;
     let r = root_dir (v_vol s);
     _ \<leftarrow> upd_inode p (\<lambda>v. (set_fid ((v_fid v)\<lparr>fid_dir := (fid_dir (v_fid v))\<lparr>chain_dir := r, chain_flags := 0x01\<rparr>,
            fid_entry := -1, start_clu := r, fid_flags := 0x01, fid_type := TYPE_DIR, rwoffset := 0, hint_last_off := -1\<rparr>) v)
            \<lparr>i_target := None\<rparr>);
     v \<leftarrow> get_inode p;
     (_, info) \<leftarrow> on_vol (FsReadStat (ve_fs ev) (vi v) (junk_info ev));
     s \<leftarrow> gets id;
     let opts = options s;
     _ \<leftarrow> upd_inode p (\<lambda>v. v\<lparr>i_uid := fs_uid opts, i_gid := fs_gid opts, i_version := i_version v + 1, i_generation := 0,
            i_mode := ucast (exfat_make_mode opts ATTR_SUBDIR S_IRWXUGO), i_op := Dir_ops\<rparr>);
     _ \<leftarrow> upd_inode p (\<lambda>v. v\<lparr>vi := (vi v)\<lparr>i_size := de_Size info, i_blocks := blocks_of (de_Size info) (v_vol s),
            mmu_private := de_Size info\<rparr>, i_pos := push_bit 32 (ucast r) OR 0xffffffff\<rparr>);
     _ \<leftarrow> upd_inode p (save_attr opts ATTR_SUBDIR);
     _ \<leftarrow> upd_inode p (\<lambda>v. v\<lparr>i_mtime := seconds ev, i_atime := seconds ev, i_ctime := seconds ev,
            i_nlink := de_NumSubdirs info + 2\<rparr>);
     ret 0 }"

end
