(* ===== verification/VfsReaddir.thy ===== *)
theory VfsReaddir
  imports VfsInode
begin

text \<open>
  \<^verbatim>\<open>exfat_readdir\<close> (\<^verbatim>\<open>exfat_super.c\<close>, for kernels from 3.11 on).  The kernel's \<^verbatim>\<open>dir_emit\<close> and \<^verbatim>\<open>dir_emit_dots\<close> are
  parameters that work on the \<^verbatim>\<open>struct dir_context\<close>, whose type is open but for its position.  \<^verbatim>\<open>loff_t\<close> is an \<open>int\<close>.  The
  loop goes on for as long as \<^verbatim>\<open>dir_emit\<close> takes entries: it is a \<open>partial_function\<close>, \<open>None\<close> is a call that does not return.
\<close>

record 'c dir_ctx =
  ctx_pos :: int
  ctx_actor :: 'c

record 'c dir_emitter =
  emit_dots :: "'c dir_ctx \<Rightarrow> bool \<times> 'c dir_ctx"
  emit :: "'c dir_ctx \<Rightarrow> u8 list \<Rightarrow> u64 \<Rightarrow> bool \<Rightarrow> bool \<times> 'c dir_ctx"

section \<open>The two entries of the directory itself\<close>

text \<open>
  The loop over \<^verbatim>\<open>cpos\<close> below two: false when \<^verbatim>\<open>dir_emit_dots\<close> refuses.  The counter of the loop is the number of turns
  that are left.
\<close>

fun dots_loop :: "'c dir_emitter \<Rightarrow> nat \<Rightarrow> int \<Rightarrow> 'c dir_ctx \<Rightarrow> bool \<times> int \<times> 'c dir_ctx" where
  "dots_loop em 0 cpos ctx = (True, cpos, ctx)"
| "dots_loop em (Suc n) cpos ctx =
     (case emit_dots em ctx of (ok, ctx) \<Rightarrow>
        if \<not> ok then (False, cpos, ctx) else dots_loop em n (cpos + 1) (ctx\<lparr>ctx_pos := ctx_pos ctx + 1\<rparr>))"

section \<open>One entry\<close>

text \<open>\<^verbatim>\<open>memcmp\<close> of a short name, a C string, with a name of eleven bytes.\<close>

definition is_dos_name :: "u8 list \<Rightarrow> u8 list \<Rightarrow> bool" where
  "is_dos_name nm d \<longleftrightarrow> take DOS_NAME_LENGTH nm = d"

definition entry_ino :: "vfs_env \<Rightarrow> nat \<Rightarrow> u64 \<Rightarrow> DIR_ENTRY_T \<Rightarrow> u64 vM" where
  "entry_ino ev p parent_ino de = do {
     v \<leftarrow> get_inode p;
     if is_dos_name (de_ShortName de) DOS_CUR_DIR_NAME then ret (i_ino v)
     else if is_dos_name (de_ShortName de) DOS_PAR_DIR_NAME then ret parent_ino
     else do {
       let pos = push_bit 32 (ucast (start_clu (v_fid v))) OR (of_int (rwoffset (v_fid v) - 1) AND 0xffffffff);
       t \<leftarrow> exfat_iget ev pos;
       case t of
         Some q \<Rightarrow> do { w \<leftarrow> get_inode q; ret (i_ino w) }
       | None \<Rightarrow> gets (iunique ev) } }"

text \<open>
  From \<^verbatim>\<open>get_new\<close> on: \<open>Inl\<close> is the error number with which the call ends, \<open>Inr\<close> the position of the next turn.  The
  directory entry \<open>de\<close> is a variable of the function.
\<close>

definition read_one :: "'c dir_emitter \<Rightarrow> vfs_env \<Rightarrow> nat \<Rightarrow> u64 \<Rightarrow> DIR_ENTRY_T \<Rightarrow> int \<Rightarrow> 'c dir_ctx \<Rightarrow>
    ((s32 \<times> 'c dir_ctx) + (DIR_ENTRY_T \<times> int \<times> 'c dir_ctx)) vM" where
  "read_one em ev p parent_ino de cpos ctx = do {
     _ \<leftarrow> upd_inode p (\<lambda>v. set_fid ((v_fid v)\<lparr>fid_size := i_size (vi v), rwoffset := drop_bit 5 cpos\<rparr>) v);
     v \<leftarrow> get_inode p;
     (err, ino, de) \<leftarrow> on_vol (FsReadDir (ve_fs ev) (vi v) de);
     _ \<leftarrow> upd_inode p (\<lambda>v. v\<lparr>vi := ino\<rparr>);
     if err \<noteq> 0 then do {
       bits \<leftarrow> gets (\<lambda>s. sector_size_bits (v_vol s));
       let cpos = (if err = FFS_MEDIAERR then (cpos + push_bit bits 1) AND NOT (push_bit bits 1 - 1) else cpos);
       ret (Inl (- EIO, ctx\<lparr>ctx_pos := cpos\<rparr>)) }
     else do {
       let cpos = push_bit 5 (rwoffset (i_fid ino));
       if de_Name de = [] then ret (Inl (0, ctx\<lparr>ctx_pos := cpos\<rparr>))
       else do {
         inum \<leftarrow> entry_ino ev p parent_ino de;
         (case emit em ctx (de_Name de) inum (de_Attr de AND ATTR_SUBDIR \<noteq> 0) of (ok, ctx) \<Rightarrow>
            if \<not> ok then ret (Inl (0, ctx)) else ret (Inr (de, cpos, ctx\<lparr>ctx_pos := cpos\<rparr>))) } } }"

section \<open>The whole call\<close>

partial_function (option) readdir_loop :: "'c dir_emitter \<Rightarrow> vfs_env \<Rightarrow> nat \<Rightarrow> u64 \<Rightarrow> DIR_ENTRY_T \<Rightarrow> int \<Rightarrow> 'c dir_ctx \<Rightarrow> vfs \<Rightarrow>
    ((s32 \<times> 'c dir_ctx) \<times> vfs) option" where
  "readdir_loop em ev p parent_ino de cpos ctx s =
     (case run_state (read_one em ev p parent_ino de cpos ctx) s of
        (Inl r, s) \<Rightarrow> Some (r, s)
      | (Inr (de, cpos, ctx), s) \<Rightarrow> readdir_loop em ev p parent_ino de cpos ctx s)"

definition exfat_readdir :: "'c dir_emitter \<Rightarrow> vfs_env \<Rightarrow> nat \<Rightarrow> u64 \<Rightarrow> 'c dir_ctx \<Rightarrow> vfs \<Rightarrow> ((s32 \<times> 'c dir_ctx) \<times> vfs) option" where
  "exfat_readdir em ev p parent_ino ctx s =
     (let cpos = ctx_pos ctx;
          (ok, cpos, ctx) =
            (if vol_type (v_vol s) = EXFAT \<or> i_ino (inodes s p) = EXFAT_ROOT_INO
             then (case dots_loop em (nat (2 - cpos)) cpos ctx of (ok, cpos, ctx) \<Rightarrow> (ok, if ok \<and> cpos = 2 then 0 else cpos, ctx))
             else (True, cpos, ctx))
      in if \<not> ok then Some ((0, ctx), s)
         else if cpos AND 31 \<noteq> 0 then Some ((- ENOENT, ctx), s)
         else readdir_loop em ev p parent_ino (junk_info ev) cpos ctx s)"

end
