(* ===== verification/VfsDir.thy ===== *)
theory VfsDir
  imports VfsInode
begin

text \<open>
  The operations on directories (\<^verbatim>\<open>exfat_super.c\<close>): creating, looking up, removing, renaming.  An operation returns a
  negative error number or zero.
\<close>

definition FM_REGULAR :: u8 where "FM_REGULAR = 0x00"
definition FM_SYMLINK :: u8 where "FM_SYMLINK = 0x40"

text \<open>\<^verbatim>\<open>struct dentry\<close>: the name, the address of its inode, its time and the address of the inode of its parent.\<close>

record dentry =
  d_name :: "u8 list"
  d_inode :: "nat option"
  d_time :: u64
  d_parent :: nat

section \<open>Error numbers\<close>

definition create_errno :: "s32 \<Rightarrow> s32" where
  "create_errno err =
     (if err = FFS_INVALIDPATH then - EINVAL
      else if err = FFS_FILEEXIST then - EEXIST
      else if err = FFS_FULL then - ENOSPC
      else if err = FFS_NAMETOOLONG then - ENAMETOOLONG
      else - EIO)"

definition symlink_errno :: "s32 \<Rightarrow> s32" where
  "symlink_errno err =
     (if err = FFS_INVALIDPATH then - EINVAL
      else if err = FFS_FILEEXIST then - EEXIST
      else if err = FFS_FULL then - ENOSPC
      else - EIO)"

definition unlink_errno :: "s32 \<Rightarrow> s32" where
  "unlink_errno err = (if err = FFS_PERMISSIONERR then - EPERM else - EIO)"

definition rmdir_errno :: "s32 \<Rightarrow> s32" where
  "rmdir_errno err =
     (if err = FFS_INVALIDPATH then - EINVAL
      else if err = FFS_FILEEXIST then - ENOTEMPTY
      else if err = FFS_NOTFOUND then - ENOENT
      else if err = FFS_DIRBUSY then - EBUSY
      else - EIO)"

definition rename_errno :: "s32 \<Rightarrow> s32" where
  "rename_errno err =
     (if err = FFS_PERMISSIONERR then - EPERM
      else if err = FFS_INVALIDPATH then - EINVAL
      else if err = FFS_FILEEXIST then - EEXIST
      else if err = FFS_NOTFOUND then - ENOENT
      else if err = FFS_FULL then - ENOSPC
      else - EIO)"

section \<open>Steps that the operations share\<close>

definition set_vi :: "inode \<Rightarrow> vinode \<Rightarrow> vinode" where
  "set_vi ino v = v\<lparr>vi := ino\<rparr>"

definition sync_or_dirty :: "vfs_env \<Rightarrow> bool \<Rightarrow> nat \<Rightarrow> unit vM" where
  "sync_or_dirty ev sync p = (if sync then do { _ \<leftarrow> exfat_sync_inode ev p; ret () } else mark_inode_dirty p)"

definition set_times :: "int \<Rightarrow> vinode \<Rightarrow> vinode" where
  "set_times ts v = v\<lparr>i_mtime := ts, i_atime := ts, i_ctime := ts\<rparr>"

text \<open>A new entry in the directory; an entry less.\<close>

definition dir_grown :: "vfs_env \<Rightarrow> nat \<Rightarrow> unit vM" where
  "dir_grown ev dir = do {
     _ \<leftarrow> upd_inode dir (\<lambda>v. set_times (seconds ev) (v\<lparr>i_version := i_version v + 1\<rparr>));
     d \<leftarrow> get_inode dir;
     sync_or_dirty ev (i_dirsync d) dir }"

definition dir_shrunk :: "vfs_env \<Rightarrow> nat \<Rightarrow> unit vM" where
  "dir_shrunk ev dir = do {
     _ \<leftarrow> upd_inode dir (\<lambda>v. v\<lparr>i_version := i_version v + 1, i_mtime := seconds ev, i_atime := seconds ev\<rparr>);
     d \<leftarrow> get_inode dir;
     sync_or_dirty ev (i_dirsync d) dir }"

definition fid_pos :: "FILE_ID_T \<Rightarrow> u64" where
  "fid_pos fid = push_bit 32 (ucast (chain_dir (fid_dir fid))) OR (of_int (fid_entry fid) AND 0xffffffff)"

text \<open>The inode of a new file and its dentry.\<close>

definition new_file_inode :: "vfs_env \<Rightarrow> FILE_ID_T \<Rightarrow> (s32 + nat) vM" where
  "new_file_inode ev fid = do {
     r \<leftarrow> exfat_build_inode ev fid (fid_pos fid);
     case r of
       Inl err \<Rightarrow> ret (Inl err)
     | Inr p \<Rightarrow> do {
         _ \<leftarrow> upd_inode p (\<lambda>v. set_times (seconds ev) (v\<lparr>i_version := i_version v + 1\<rparr>));
         ret (Inr p) } }"

definition instantiate :: "dentry \<Rightarrow> nat \<Rightarrow> dentry vM" where
  "instantiate de p = do {
     pv \<leftarrow> get_inode (d_parent de);
     ret (de\<lparr>d_time := i_version pv, d_inode := Some p\<rparr>) }"

section \<open>Creating\<close>

definition create_entry :: "vfs_env \<Rightarrow> nat \<Rightarrow> (inode \<Rightarrow> file_result fsM) \<Rightarrow> (s32 \<times> FILE_ID_T) vM" where
  "create_entry ev dir call = do {
     d \<leftarrow> get_inode dir;
     (err, ino, fid) \<leftarrow> on_vol (call (vi d));
     _ \<leftarrow> upd_inode dir (set_vi ino);
     ret (err, fid) }"

definition exfat_create :: "vfs_env \<Rightarrow> nat \<Rightarrow> dentry \<Rightarrow> (s32 \<times> dentry) vM" where
  "exfat_create ev dir de = do {
     (err, fid) \<leftarrow> create_entry ev dir (\<lambda>ino. FsCreateFile (ve_fs ev) ino (d_name de) FM_REGULAR (junk_fid ev));
     if err \<noteq> 0 then ret (create_errno err, de)
     else do {
       _ \<leftarrow> dir_grown ev dir;
       r \<leftarrow> new_file_inode ev fid;
       case r of
         Inl err \<Rightarrow> ret (err, de)
       | Inr p \<Rightarrow> do { de \<leftarrow> instantiate de p; ret (0, de) } } }"

definition exfat_mkdir :: "vfs_env \<Rightarrow> nat \<Rightarrow> dentry \<Rightarrow> (s32 \<times> dentry) vM" where
  "exfat_mkdir ev dir de = do {
     (err, fid) \<leftarrow> create_entry ev dir (\<lambda>ino. FsCreateDir (ve_fs ev) ino (d_name de) (junk_fid ev));
     if err \<noteq> 0 then ret (create_errno err, de)
     else do {
       _ \<leftarrow> dir_grown ev dir;
       _ \<leftarrow> upd_inode dir (\<lambda>v. v\<lparr>i_nlink := i_nlink v + 1\<rparr>);
       r \<leftarrow> new_file_inode ev fid;
       case r of
         Inl err \<Rightarrow> ret (err, de)
       | Inr p \<Rightarrow> do { de \<leftarrow> instantiate de p; ret (0, de) } } }"

definition exfat_symlink :: "vfs_env \<Rightarrow> nat \<Rightarrow> dentry \<Rightarrow> u8 list \<Rightarrow> (s32 \<times> dentry) vM" where
  "exfat_symlink ev dir de tg = do {
     (err, fid) \<leftarrow> create_entry ev dir (\<lambda>ino. FsCreateFile (ve_fs ev) ino (d_name de) FM_SYMLINK (junk_fid ev));
     if err \<noteq> 0 then ret (symlink_errno err, de)
     else do {
       (err, _, fid) \<leftarrow> on_vol (FsWriteFile (ve_fs ev) fid tg);
       if err \<noteq> 0 then do {
         _ \<leftarrow> on_vol (FsRemoveFile fid);
         ret (if err = FFS_FULL then - ENOSPC else - EIO, de) }
       else do {
         _ \<leftarrow> dir_grown ev dir;
         r \<leftarrow> new_file_inode ev fid;
         case r of
           Inl err \<Rightarrow> ret (err, de)
         | Inr p \<Rightarrow> do {
             ok \<leftarrow> on_vol next_env;
             if \<not> ok then do {
               _ \<leftarrow> upd_inode p (\<lambda>v. v\<lparr>i_target := None\<rparr>);
               ret (- ENOMEM, de) }
             else do {
               _ \<leftarrow> upd_inode p (\<lambda>v. v\<lparr>i_target := Some (tg @ [0])\<rparr>);
               de \<leftarrow> instantiate de p;
               ret (0, de) } } } } }"

section \<open>Looking up\<close>

definition exfat_find_file :: "vfs_env \<Rightarrow> nat \<Rightarrow> u8 list \<Rightarrow> (s32 \<times> FILE_ID_T) vM" where
  "exfat_find_file ev dir qname =
     (if qname = [] then ret (- ENOENT, junk_fid ev)
      else do {
        (err, fid) \<leftarrow> create_entry ev dir (\<lambda>ino. FsLookupFile (ve_fs ev) ino qname (junk_fid ev));
        ret (if err \<noteq> 0 then - ENOENT else 0, fid) })"

text \<open>
  The target of a symbolic link: what \<^verbatim>\<open>FsReadFile\<close> does not fill of the buffer is \<open>junk\<close>.  With the size \<open>-1\<close> the zero
  at the end is written before a buffer of length zero.  The value is false when there is no memory.
\<close>

definition read_target :: "nat \<Rightarrow> FILE_ID_T \<Rightarrow> (nat \<Rightarrow> u8) \<Rightarrow> bool vM" where
  "read_target p fid junk = do {
     v \<leftarrow> get_inode p;
     let sz = i_size (vi v);
     ok \<leftarrow> on_vol next_env;
     if \<not> ok then do {
       _ \<leftarrow> upd_inode p (\<lambda>v. v\<lparr>i_target := None\<rparr>);
       ret False }
     else do {
       (_, bs, _) \<leftarrow> on_vol (FsReadFile fid sz);
       _ \<leftarrow> on_vol (whenM (sz = -1) set_ub);
       _ \<leftarrow> upd_inode p (\<lambda>v. v\<lparr>i_target := Some (bs @ map junk [length bs..<unat sz] @ [0])\<rparr>);
       ret True } }"

text \<open>
  The result of \<^verbatim>\<open>exfat_lookup\<close>: an error pointer, the dentry that already names the inode (with the question whether
  \<^verbatim>\<open>d_move\<close> has given it the new place), or what \<^verbatim>\<open>d_splice_alias\<close> is called with.  \<open>find_alias\<close> is \<^verbatim>\<open>d_find_alias\<close>: the
  number of a dentry, whether it is a disconnected root and whether it is unhashed.
\<close>

datatype lookup_result = Lookup_err s32 | Lookup_alias nat bool | Lookup_splice "nat option"

definition exfat_lookup :: "vfs_env \<Rightarrow> (nat \<Rightarrow> vfs \<Rightarrow> (nat \<times> bool \<times> bool) option) \<Rightarrow> (nat \<Rightarrow> u8) \<Rightarrow> nat \<Rightarrow> dentry \<Rightarrow>
    (lookup_result \<times> dentry) vM" where
  "exfat_lookup ev find_alias junk dir de = do {
     (err, fid) \<leftarrow> exfat_find_file ev dir (d_name de);
     if err \<noteq> 0 then
       (if err = - ENOENT then do {
          pv \<leftarrow> get_inode (d_parent de);
          ret (Lookup_splice None, de\<lparr>d_time := i_version pv\<rparr>) }
        else ret (Lookup_err err, de))
     else do {
       r \<leftarrow> exfat_build_inode ev fid (fid_pos fid);
       case r of
         Inl err \<Rightarrow> ret (Lookup_err err, de)
       | Inr p \<Rightarrow> do {
           v \<leftarrow> get_inode p;
           ok \<leftarrow> (if S_ISLNK (i_mode v) then read_target p fid junk else ret True);
           if \<not> ok then ret (Lookup_err (- ENOMEM), de)
           else do {
             s \<leftarrow> gets id;
             case (case find_alias p s of Some (a, anon, unhashed) \<Rightarrow> (if anon then None else Some (a, unhashed)) | None \<Rightarrow> None) of
               Some (a, unhashed) \<Rightarrow> do {
                 _ \<leftarrow> on_vol (whenM unhashed (modify (\<lambda>s. s\<lparr>panicked := True\<rparr>)));
                 ret (Lookup_alias a (\<not> S_ISDIR (i_mode v)), de) }
             | None \<Rightarrow> do {
                 pv \<leftarrow> get_inode (d_parent de);
                 ret (Lookup_splice (Some p), de\<lparr>d_time := i_version pv\<rparr>) } } } } }"

section \<open>Removing\<close>

text \<open>Taking the inode of a removed file out of the tables.\<close>

definition drop_inode :: "vfs_env \<Rightarrow> nat \<Rightarrow> unit vM" where
  "drop_inode ev p = do {
     _ \<leftarrow> upd_inode p (\<lambda>v. v\<lparr>i_nlink := 0, i_mtime := seconds ev, i_atime := seconds ev\<rparr>);
     _ \<leftarrow> exfat_detach p;
     upd_inode p (\<lambda>v. v\<lparr>i_hashed := False\<rparr>) }"

definition size_to_fid :: "vinode \<Rightarrow> vinode" where
  "size_to_fid v = set_fid ((v_fid v)\<lparr>fid_size := i_size (vi v)\<rparr>) v"

definition exfat_unlink :: "vfs_env \<Rightarrow> nat \<Rightarrow> nat \<Rightarrow> s32 vM" where
  "exfat_unlink ev dir p = do {
     _ \<leftarrow> upd_inode p size_to_fid;
     v \<leftarrow> get_inode p;
     (err, fid) \<leftarrow> on_vol (FsRemoveFile (v_fid v));
     _ \<leftarrow> upd_inode p (set_fid fid);
     if err \<noteq> 0 then ret (unlink_errno err)
     else do {
       _ \<leftarrow> dir_shrunk ev dir;
       _ \<leftarrow> drop_inode ev p;
       ret 0 } }"

definition exfat_rmdir :: "vfs_env \<Rightarrow> nat \<Rightarrow> nat \<Rightarrow> s32 vM" where
  "exfat_rmdir ev dir p = do {
     _ \<leftarrow> upd_inode p size_to_fid;
     v \<leftarrow> get_inode p;
     (err, fid) \<leftarrow> on_vol (FsRemoveDir (v_fid v));
     _ \<leftarrow> upd_inode p (set_fid fid);
     if err \<noteq> 0 then ret (rmdir_errno err)
     else do {
       _ \<leftarrow> dir_shrunk ev dir;
       _ \<leftarrow> upd_inode dir (\<lambda>v. v\<lparr>i_nlink := i_nlink v - 1\<rparr>);
       _ \<leftarrow> drop_inode ev p;
       ret 0 } }"

section \<open>Renaming\<close>

text \<open>The call of \<^verbatim>\<open>FsMoveFile\<close>; \<open>np\<close> is the inode that the new name had.\<close>

definition move_call :: "vfs_env \<Rightarrow> nat \<Rightarrow> nat \<Rightarrow> nat \<Rightarrow> u8 list \<Rightarrow> nat option \<Rightarrow> s32 vM" where
  "move_call ev old_dir p new_dir name np = do {
     _ \<leftarrow> upd_inode p size_to_fid;
     od \<leftarrow> get_inode old_dir;
     v \<leftarrow> get_inode p;
     nd \<leftarrow> get_inode new_dir;
     nf \<leftarrow> (case np of None \<Rightarrow> ret None | Some q \<Rightarrow> do { w \<leftarrow> get_inode q; ret (Some (v_fid w)) });
     (err, fid, ino, nf) \<leftarrow> on_vol (FsMoveFile (ve_fs ev) (vi od) (v_fid v) (vi nd) name nf);
     _ \<leftarrow> upd_inode new_dir (set_vi ino);
     _ \<leftarrow> upd_inode p (set_fid fid);
     _ \<leftarrow> (case (np, nf) of (Some q, Some f) \<Rightarrow> upd_inode q (set_fid f) | _ \<Rightarrow> ret ());
     ret err }"

text \<open>The steps behind the call: the new directory, the inode, the old directory, the replaced inode.\<close>

definition rename_inode :: "vfs_env \<Rightarrow> nat \<Rightarrow> nat \<Rightarrow> unit vM" where
  "rename_inode ev p new_dir = do {
     v \<leftarrow> get_inode p;
     _ \<leftarrow> exfat_detach p;
     _ \<leftarrow> exfat_attach ev p (fid_pos (v_fid v));
     nd \<leftarrow> get_inode new_dir;
     sync_or_dirty ev (i_dirsync nd) p }"

definition rename_links :: "nat \<Rightarrow> nat \<Rightarrow> nat \<Rightarrow> nat option \<Rightarrow> unit vM" where
  "rename_links p old_dir new_dir np = do {
     v \<leftarrow> get_inode p;
     whenM (S_ISDIR (i_mode v) \<and> old_dir \<noteq> new_dir) (do {
       _ \<leftarrow> upd_inode old_dir (\<lambda>v. v\<lparr>i_nlink := i_nlink v - 1\<rparr>);
       whenM (np = None) (upd_inode new_dir (\<lambda>v. v\<lparr>i_nlink := i_nlink v + 1\<rparr>)) }) }"

definition rename_old_dir :: "vfs_env \<Rightarrow> nat \<Rightarrow> unit vM" where
  "rename_old_dir ev dir = do {
     _ \<leftarrow> upd_inode dir (\<lambda>v. v\<lparr>i_version := i_version v + 1, i_mtime := seconds ev, i_ctime := seconds ev\<rparr>);
     d \<leftarrow> get_inode dir;
     sync_or_dirty ev (i_dirsync d) dir }"

definition rename_replaced :: "vfs_env \<Rightarrow> nat option \<Rightarrow> unit vM" where
  "rename_replaced ev np = (case np of
     None \<Rightarrow> ret ()
   | Some q \<Rightarrow> do {
       _ \<leftarrow> exfat_detach q;
       _ \<leftarrow> upd_inode q (\<lambda>v. v\<lparr>i_nlink := i_nlink v - 1\<rparr>);
       _ \<leftarrow> upd_inode q (\<lambda>v. if S_ISDIR (i_mode v) then v\<lparr>i_nlink := i_nlink v - 1\<rparr> else v);
       upd_inode q (\<lambda>v. v\<lparr>i_ctime := seconds ev\<rparr>) })"

definition exfat_rename :: "vfs_env \<Rightarrow> nat \<Rightarrow> nat \<Rightarrow> nat \<Rightarrow> dentry \<Rightarrow> s32 vM" where
  "exfat_rename ev old_dir p new_dir new_de = do {
     let np = d_inode new_de;
     err \<leftarrow> move_call ev old_dir p new_dir (d_name new_de) np;
     if err \<noteq> 0 then ret (rename_errno err)
     else do {
       _ \<leftarrow> dir_grown ev new_dir;
       _ \<leftarrow> rename_inode ev p new_dir;
       _ \<leftarrow> rename_links p old_dir new_dir np;
       _ \<leftarrow> rename_old_dir ev old_dir;
       _ \<leftarrow> rename_replaced ev np;
       ret 0 } }"

end
