(* ===== verification/VfsFile.thy ===== *)
theory VfsFile
  imports VfsDir
begin

text \<open>
  The operations on files (\<^verbatim>\<open>exfat_super.c\<close>): attributes, truncation, mapping of blocks, the hooks of the page cache,
  \<^verbatim>\<open>ioctl\<close>.  The branches are those for kernels from 4.7 on.  The generic functions of the kernel that the driver calls
  are a record of parameters; \<^verbatim>\<open>cont_write_begin\<close> and \<^verbatim>\<open>blockdev_direct_IO\<close> get the inode instead of \<^verbatim>\<open>exfat_get_block\<close>.
\<close>

section \<open>The kernel's side\<close>

definition ATTR_MODE :: u32 where "ATTR_MODE = 0x1"
definition ATTR_UID :: u32 where "ATTR_UID = 0x2"
definition ATTR_GID :: u32 where "ATTR_GID = 0x4"
definition ATTR_SIZE :: u32 where "ATTR_SIZE = 0x8"
definition ATTR_ATIME_SET :: u32 where "ATTR_ATIME_SET = 0x80"
definition ATTR_MTIME_SET :: u32 where "ATTR_MTIME_SET = 0x100"
definition ATTR_TIMES_SET :: u32 where "ATTR_TIMES_SET = 0x10000"

record iattr =
  ia_valid :: u32
  ia_mode :: u16
  ia_uid :: u32
  ia_gid :: u32
  ia_size :: u64

text \<open>\<^verbatim>\<open>struct buffer_head\<close>: its size, where it is mapped to, the flag \<^verbatim>\<open>BH_New\<close>.\<close>

record bh_result =
  b_size :: u64
  b_mapped :: "u64 option"
  b_new :: bool

type_synonym get_block = "u64 \<Rightarrow> bh_result \<Rightarrow> bool \<Rightarrow> (s32 \<times> bh_result) vM"

record page_cache =
  cont_expand_simple :: "nat \<Rightarrow> u64 \<Rightarrow> s32 vM"
  fdatawrite_range :: "nat \<Rightarrow> u64 \<Rightarrow> u64 \<Rightarrow> s32 vM"
  sync_buffers :: "nat \<Rightarrow> s32 vM"
  write_inode_now :: "nat \<Rightarrow> s32 vM"
  fdatawait_range :: "nat \<Rightarrow> u64 \<Rightarrow> u64 \<Rightarrow> s32 vM"
  inode_change_ok :: "vinode \<Rightarrow> iattr \<Rightarrow> s32 \<times> iattr"
  setattr_copy :: "vinode \<Rightarrow> iattr \<Rightarrow> vinode"
  cont_write_begin :: "nat \<Rightarrow> u64 \<Rightarrow> u32 \<Rightarrow> s32 vM"
  generic_write_end :: "nat \<Rightarrow> u64 \<Rightarrow> u32 \<Rightarrow> u32 \<Rightarrow> s32 vM"
  blockdev_direct_IO :: "nat \<Rightarrow> int vM"
  mpage_readpage :: "get_block \<Rightarrow> s32 vM"
  mpage_readpages :: "get_block \<Rightarrow> nat \<Rightarrow> s32 vM"
  block_write_full_page :: "get_block \<Rightarrow> s32 vM"
  mpage_writepages :: "get_block \<Rightarrow> s32 vM"
  generic_block_bmap :: "u64 \<Rightarrow> get_block \<Rightarrow> u64 vM"

section \<open>Truncating\<close>

definition set_i_size :: "u64 \<Rightarrow> vinode \<Rightarrow> vinode" where
  "set_i_size sz v = v\<lparr>vi := (vi v)\<lparr>i_size := sz\<rparr>\<rparr>"

definition exfat_truncate :: "vfs_env \<Rightarrow> nat \<Rightarrow> u64 \<Rightarrow> unit vM" where
  "exfat_truncate ev p old_size = do {
     _ \<leftarrow> upd_inode p (\<lambda>v. if i_size (vi v) <s mmu_private (vi v) then v\<lparr>vi := (vi v)\<lparr>mmu_private := i_size (vi v)\<rparr>\<rparr> else v);
     v \<leftarrow> get_inode p;
     if start_clu (v_fid v) = 0 then ret ()
     else do {
       (err, ino) \<leftarrow> on_vol (FsTruncateFile (ve_fs ev) (vi v) old_size (i_size (vi v)));
       _ \<leftarrow> upd_inode p (set_vi ino);
       if err \<noteq> 0 then ret ()
       else do {
         _ \<leftarrow> upd_inode p (\<lambda>v. v\<lparr>i_mtime := seconds ev, i_ctime := seconds ev\<rparr>);
         v \<leftarrow> get_inode p;
         _ \<leftarrow> sync_or_dirty ev (i_dirsync v) p;
         s \<leftarrow> gets v_vol;
         upd_inode p (\<lambda>v. v\<lparr>vi := (vi v)\<lparr>i_blocks := blocks_of (i_size (vi v)) s\<rparr>\<rparr>) } } }"

section \<open>Attributes\<close>

definition first_error :: "s32 \<Rightarrow> s32 \<Rightarrow> s32" where
  "first_error err err2 = (if err \<noteq> 0 then err else err2)"

definition exfat_cont_expand :: "page_cache \<Rightarrow> vfs_env \<Rightarrow> nat \<Rightarrow> u64 \<Rightarrow> s32 vM" where
  "exfat_cont_expand pc ev p sz = do {
     v \<leftarrow> get_inode p;
     let start = i_size (vi v);
     let count = sz - start;
     err \<leftarrow> cont_expand_simple pc p sz;
     if err \<noteq> 0 then ret err
     else do {
       _ \<leftarrow> upd_inode p (\<lambda>v. v\<lparr>i_ctime := seconds ev, i_mtime := seconds ev\<rparr>);
       _ \<leftarrow> mark_inode_dirty p;
       v \<leftarrow> get_inode p;
       if i_sync v then do {
         err \<leftarrow> fdatawrite_range pc p start (start + count - 1);
         err2 \<leftarrow> sync_buffers pc p;
         let err = first_error err err2;
         err2 \<leftarrow> write_inode_now pc p;
         let err = first_error err err2;
         if err = 0 then fdatawait_range pc p start (start + count - 1) else ret err }
       else ret err } }"

text \<open>\<open>owner\<close> and \<open>in_group\<close> as in \<^verbatim>\<open>exfat_allow_set_time\<close>.\<close>

definition exfat_setattr :: "page_cache \<Rightarrow> vfs_env \<Rightarrow> bool \<Rightarrow> bool \<Rightarrow> nat \<Rightarrow> iattr \<Rightarrow> (s32 \<times> iattr) vM" where
  "exfat_setattr pc ev owner in_group p attr = do {
     v \<leftarrow> get_inode p;
     opts \<leftarrow> gets options;
     (stop, error, attr) \<leftarrow>
       (if ia_valid attr AND ATTR_SIZE \<noteq> 0 \<and> i_size (vi v) <s ia_size attr then do {
          error \<leftarrow> exfat_cont_expand pc ev p (ia_size attr);
          if error \<noteq> 0 \<or> ia_valid attr = ATTR_SIZE then ret (True, error, attr)
          else ret (False, 0, attr\<lparr>ia_valid := ia_valid attr AND NOT ATTR_SIZE\<rparr>) }
        else ret (False, 0, attr));
     if stop then ret (error, attr)
     else do {
       let valid = ia_valid attr;
       let set_bits = ATTR_MTIME_SET OR ATTR_ATIME_SET OR ATTR_TIMES_SET;
       let asked = (if valid AND set_bits \<noteq> 0 \<and> exfat_allow_set_time opts owner in_group
                    then attr\<lparr>ia_valid := valid AND NOT set_bits\<rparr> else attr);
       v \<leftarrow> get_inode p;
       let (error, asked) = inode_change_ok pc v asked;
       let attr = asked\<lparr>ia_valid := valid\<rparr>;
       if error \<noteq> 0 then ret (error, attr)
       else if (valid AND ATTR_UID \<noteq> 0 \<and> ia_uid attr \<noteq> fs_uid opts) \<or> (valid AND ATTR_GID \<noteq> 0 \<and> ia_gid attr \<noteq> fs_gid opts) \<or>
               (valid AND ATTR_MODE \<noteq> 0 \<and> ucast (ia_mode attr) AND NOT (S_IFREG OR S_IFLNK OR S_IFDIR OR S_IRWXUGO) \<noteq> (0 :: u32))
       then ret (- EPERM, attr)
       else do {
         let attr = (if valid AND ATTR_MODE \<noteq> 0
                     then (case exfat_sanitize_mode opts (i_mode v) (ia_mode attr) of
                             None \<Rightarrow> attr\<lparr>ia_valid := valid AND NOT ATTR_MODE\<rparr>
                           | Some m \<Rightarrow> attr\<lparr>ia_mode := m\<rparr>)
                     else attr);
         _ \<leftarrow> upd_inode p size_to_fid;
         _ \<leftarrow> whenM (ia_valid attr AND ATTR_SIZE \<noteq> 0) (do {
                v \<leftarrow> get_inode p;
                _ \<leftarrow> upd_inode p (set_i_size (ia_size attr));
                exfat_truncate ev p (i_size (vi v)) });
         _ \<leftarrow> upd_inode p (\<lambda>v. setattr_copy pc v attr);
         _ \<leftarrow> mark_inode_dirty p;
         ret (error, attr) } } }"

text \<open>\<^verbatim>\<open>exfat_getattr\<close> sets the block size; \<^verbatim>\<open>generic_fillattr\<close> copies the fields of the inode.\<close>

definition exfat_getattr :: "nat \<Rightarrow> (vinode \<times> u32) vM" where
  "exfat_getattr p = do { v \<leftarrow> get_inode p; b \<leftarrow> gets (\<lambda>s. cluster_size (v_vol s)); ret (v, b) }"

definition exfat_get_link :: "nat \<Rightarrow> u8 list option vM" where
  "exfat_get_link p = do { v \<leftarrow> get_inode p; ret (i_target v) }"

definition exfat_file_release :: "nat \<Rightarrow> s32 vM" where
  "exfat_file_release p = do {
     _ \<leftarrow> upd_inode p size_to_fid;
     _ \<leftarrow> on_vol (FsSyncVol False);
     ret 0 }"

section \<open>Mapping blocks\<close>

text \<open>The code, the sector, the number of sectors that follow it in the cluster, and \<^verbatim>\<open>create\<close>.\<close>

definition exfat_bmap :: "nat \<Rightarrow> u64 \<Rightarrow> bool \<Rightarrow> (s32 \<times> u64 \<times> u64 \<times> bool) vM" where
  "exfat_bmap p sector create = do {
     v \<leftarrow> get_inode p;
     s \<leftarrow> gets v_vol;
     if (vol_type s = FAT12 \<or> vol_type s = FAT16) \<and> i_ino v = EXFAT_ROOT_INO then
       ret (if sector < ucast (drop_bit (sector_size_bits s - 5) (dentries_in_root s))
            then (0, sector + ucast (root_start_sector s), 1, create) else (0, 0, 0, create))
     else do {
       let last_block = drop_bit (ilog2 (unat (s_blocksize s))) (i_size (vi v) + (ucast (s_blocksize s) - 1));
       if sector \<ge> last_block \<and> \<not> create then ret (0, 0, 0, create)
       else do {
         let create = (if sector \<ge> last_block then create else False);
         let clu_offset = to_s32 (drop_bit (sectors_per_clu_bits s) sector);
         let sec_offset = to_s32 (sector AND ucast (sectors_per_clu s - 1));
         _ \<leftarrow> upd_inode p size_to_fid;
         v \<leftarrow> get_inode p;
         (err, cluster, ino) \<leftarrow> on_vol (FsMapCluster (vi v) clu_offset);
         _ \<leftarrow> upd_inode p (set_vi ino);
         if err \<noteq> 0 then ret (if err = FFS_FULL then - ENOSPC else - EIO, 0, 0, create)
         else if cluster \<noteq> CLU_EOF
         then ret (0, ucast (START_SECTOR cluster s + of_int sec_offset), ucast (sectors_per_clu s - of_int sec_offset), create)
         else ret (0, 0, 0, create) } } }"

definition exfat_get_block :: "nat \<Rightarrow> u64 \<Rightarrow> bh_result \<Rightarrow> bool \<Rightarrow> (s32 \<times> bh_result) vM" where
  "exfat_get_block p iblock bh create = do {
     s \<leftarrow> gets v_vol;
     let bits = ilog2 (unat (s_blocksize s));
     let max_blocks = drop_bit bits (b_size bh);
     (err, phys, mapped_blocks, create) \<leftarrow> exfat_bmap p iblock create;
     if err \<noteq> 0 then ret (err, bh)
     else if phys \<noteq> 0 then do {
       let max_blocks = min mapped_blocks max_blocks;
       _ \<leftarrow> whenM create (upd_inode p (\<lambda>v. v\<lparr>vi := (vi v)\<lparr>mmu_private := mmu_private (vi v) + push_bit bits max_blocks\<rparr>\<rparr>));
       ret (0, \<lparr>b_size = push_bit bits max_blocks, b_mapped = Some phys, b_new = b_new bh \<or> create\<rparr>) }
     else ret (0, bh\<lparr>b_size := push_bit bits max_blocks\<rparr>) }"

text \<open>The operations of the address space of inode \<open>p\<close> that only hand \<^verbatim>\<open>exfat_get_block\<close> to the kernel.\<close>

definition exfat_readpage :: "page_cache \<Rightarrow> nat \<Rightarrow> s32 vM" where
  "exfat_readpage pc p = mpage_readpage pc (exfat_get_block p)"

definition exfat_readpages :: "page_cache \<Rightarrow> nat \<Rightarrow> nat \<Rightarrow> s32 vM" where
  "exfat_readpages pc p nr_pages = mpage_readpages pc (exfat_get_block p) nr_pages"

definition exfat_writepage :: "page_cache \<Rightarrow> nat \<Rightarrow> s32 vM" where
  "exfat_writepage pc p = block_write_full_page pc (exfat_get_block p)"

definition exfat_writepages :: "page_cache \<Rightarrow> nat \<Rightarrow> s32 vM" where
  "exfat_writepages pc p = mpage_writepages pc (exfat_get_block p)"

definition exfat_block_bmap :: "page_cache \<Rightarrow> nat \<Rightarrow> u64 \<Rightarrow> u64 vM" where
  "exfat_block_bmap pc p block = generic_block_bmap pc block (exfat_get_block p)"

section \<open>Writing\<close>

definition exfat_write_failed :: "vfs_env \<Rightarrow> nat \<Rightarrow> u64 \<Rightarrow> unit vM" where
  "exfat_write_failed ev p to = do {
     v \<leftarrow> get_inode p;
     whenM (i_size (vi v) <s to) (do {
       _ \<leftarrow> upd_inode p size_to_fid;
       v \<leftarrow> get_inode p;
       exfat_truncate ev p (i_size (vi v)) }) }"

definition exfat_write_begin :: "page_cache \<Rightarrow> vfs_env \<Rightarrow> nat \<Rightarrow> u64 \<Rightarrow> u32 \<Rightarrow> s32 vM" where
  "exfat_write_begin pc ev p pos len = do {
     r \<leftarrow> cont_write_begin pc p pos len;
     _ \<leftarrow> whenM (r < 0) (exfat_write_failed ev p (pos + ucast len));
     ret r }"

text \<open>The comparison of the code with the length is one of unsigned numbers.\<close>

definition exfat_write_end :: "page_cache \<Rightarrow> vfs_env \<Rightarrow> nat \<Rightarrow> u64 \<Rightarrow> u32 \<Rightarrow> u32 \<Rightarrow> s32 vM" where
  "exfat_write_end pc ev p pos len copied = do {
     err \<leftarrow> generic_write_end pc p pos len copied;
     _ \<leftarrow> whenM ((of_int err :: u32) < len) (exfat_write_failed ev p (pos + ucast len));
     v \<leftarrow> get_inode p;
     _ \<leftarrow> whenM (\<not> err < 0 \<and> fid_attr (v_fid v) AND ATTR_ARCHIVE = 0) (do {
            _ \<leftarrow> upd_inode p (\<lambda>v. v\<lparr>i_mtime := seconds ev, i_ctime := seconds ev\<rparr>);
            _ \<leftarrow> upd_inode p (\<lambda>v. set_fid ((v_fid v)\<lparr>fid_attr := fid_attr (v_fid v) OR ATTR_ARCHIVE\<rparr>) v);
            mark_inode_dirty p });
     ret err }"

definition exfat_direct_IO :: "page_cache \<Rightarrow> vfs_env \<Rightarrow> nat \<Rightarrow> bool \<Rightarrow> u64 \<Rightarrow> int vM" where
  "exfat_direct_IO pc ev p wr count = do {
     v \<leftarrow> get_inode p;
     if wr \<and> mmu_private (vi v) < count then ret 0
     else do {
       r \<leftarrow> blockdev_direct_IO pc p;
       _ \<leftarrow> whenM (r < 0 \<and> wr) (exfat_write_failed ev p count);
       ret r } }"

section \<open>ioctl\<close>

definition EXFAT_IOCTL_GET_VOLUME_ID :: u32 where "EXFAT_IOCTL_GET_VOLUME_ID = 0x80047212"
definition EXFAT_IOC_GET_DEBUGFLAGS :: u32 where "EXFAT_IOC_GET_DEBUGFLAGS = 0x80086664"
definition EXFAT_IOC_SET_DEBUGFLAGS :: u32 where "EXFAT_IOC_SET_DEBUGFLAGS = 0x40086665"

definition exfat_ioctl_volume_id :: "vfs \<Rightarrow> s32" where
  "exfat_ioctl_volume_id s = sint (vol_id (v_vol s))"

text \<open>
  \<open>put_user\<close> stores for the caller, \<open>get_user\<close> is what it passed, \<open>admin\<close> whether it has \<^verbatim>\<open>CAP_SYS_ADMIN\<close>.  The core of
  the driver sees the debug flag \<^verbatim>\<open>EXFAT_DEBUGFLAGS_ERROR_RW\<close> in its own state.
\<close>

definition exfat_generic_ioctl :: "(u32 \<Rightarrow> int) \<Rightarrow> u32 option \<Rightarrow> bool \<Rightarrow> u32 \<Rightarrow> int vM" where
  "exfat_generic_ioctl put_user get_user admin cmd = do {
     s \<leftarrow> gets id;
     if cmd = EXFAT_IOCTL_GET_VOLUME_ID then ret (exfat_ioctl_volume_id s)
     else if cmd = EXFAT_IOC_GET_DEBUGFLAGS then ret (put_user (ucast (debug_flags s)))
     else if cmd = EXFAT_IOC_SET_DEBUGFLAGS then
       (if \<not> admin then ret (- EPERM)
        else case get_user of
          None \<Rightarrow> ret (- EFAULT)
        | Some flags \<Rightarrow> do {
            _ \<leftarrow> modify (\<lambda>s. s\<lparr>debug_flags := ucast flags,
                   v_vol := (v_vol s)\<lparr>debug_error_rw := (ucast flags AND EXFAT_DEBUGFLAGS_ERROR_RW \<noteq> 0)\<rparr>\<rparr>);
            ret 0 })
     else ret (- ENOTTY) }"

end
