(* ===== verification/VfsSuper.thy ===== *)
theory VfsSuper
  imports VfsInode
begin

text \<open>
  The operations on the super block (\<^verbatim>\<open>exfat_super.c\<close>): mounting, unmounting, syncing, statistics, the module itself.
\<close>

section \<open>State and the kernel's side\<close>

text \<open>
  What the kernel and \<^verbatim>\<open>exfat_fill_super\<close> keep besides \<open>vfs\<close>: \<^verbatim>\<open>s_fs_info\<close>, the dentry operations, the character tables,
  the root, flags and constants of \<^verbatim>\<open>struct super_block\<close>.
\<close>

record super = vfs +
  s_fs_info :: bool
  s_d_op_ci :: bool
  s_nls_disk :: "nls option"
  s_nls_io :: "nls option"
  s_root :: "nat option"
  s_flags :: u64
  s_magic :: u64
  s_maxbytes :: u64

record super_env =
  se_options :: opt_env
  load_nls :: "string \<Rightarrow> nls option"
  d_make_root_ok :: bool
  kzalloc_ok :: bool

definition MS_RDONLY :: u64 where "MS_RDONLY = 1"
definition MS_NODIRATIME :: u64 where "MS_NODIRATIME = 2048"
definition EXFAT_SUPER_MAGIC :: u64 where "EXFAT_SUPER_MAGIC = 0x2011BAB0"

type_synonym 'a sM = "(super, 'a) state"

definition on_vfs :: "'a vM \<Rightarrow> 'a sM" where
  "on_vfs m = State (\<lambda>s. case run_state m (vfs.truncate s) of (a, v) \<Rightarrow>
     (a, s\<lparr>v_vol := v_vol v, inodes := inodes v, inode_hashtable := inode_hashtable v, options := options v,
           debug_flags := debug_flags v\<rparr>))"

section \<open>Unmounting and syncing\<close>

text \<open>Freeing a string that has been freed is undefined.\<close>

definition exfat_free_super :: "unit sM" where
  "exfat_free_super = do {
     opts \<leftarrow> gets options;
     _ \<leftarrow> on_vfs (on_vol (whenM (iocharset opts = Freed) set_ub));
     modify (\<lambda>s. s\<lparr>s_nls_disk := None, s_nls_io := None, options := opts\<lparr>iocharset := kfree_charset (iocharset opts)\<rparr>\<rparr>) }"

definition set_sb_clean :: "unit fsM" where
  "set_sb_clean = modify (\<lambda>s. s\<lparr>sb_dirty := False\<rparr>)"

definition exfat_write_super :: "unit fsM" where
  "exfat_write_super = do {
     _ \<leftarrow> set_sb_clean;
     ro \<leftarrow> gets rdonly;
     whenM (\<not> ro) (do { _ \<leftarrow> FsSyncVol True; ret () }) }"

definition exfat_sync_fs :: "s32 fsM" where
  "exfat_sync_fs = do {
     d \<leftarrow> gets sb_dirty;
     if d then do { _ \<leftarrow> set_sb_clean; FsSyncVol True } else ret 0 }"

definition exfat_put_super :: "unit sM" where
  "exfat_put_super = do {
     d \<leftarrow> gets (\<lambda>s. sb_dirty (v_vol s));
     _ \<leftarrow> on_vfs (on_vol (whenM d exfat_write_super));
     _ \<leftarrow> on_vfs (on_vol FsUmountVol);
     _ \<leftarrow> modify (\<lambda>s. s\<lparr>s_fs_info := False\<rparr>);
     exfat_free_super }"

text \<open>\<^verbatim>\<open>exfat_debug_kill_sb\<close> before \<^verbatim>\<open>kill_block_super\<close>; \<open>invalidate\<close> is \<^verbatim>\<open>invalidate_bdev\<close>.\<close>

definition exfat_debug_kill_sb :: "unit fsM \<Rightarrow> unit sM" where
  "exfat_debug_kill_sb invalidate = do {
     s \<leftarrow> gets id;
     whenM (s_fs_info s \<and> debug_flags s AND EXFAT_DEBUGFLAGS_INVALID_UMOUNT \<noteq> 0)
       (do { _ \<leftarrow> on_vfs (on_vol FsReleaseCache); on_vfs (on_vol invalidate) }) }"

section \<open>Statistics\<close>

record kstatfs =
  f_type :: u64
  f_bsize :: u64
  f_blocks :: u64
  f_bfree :: u64
  f_bavail :: u64
  f_fsid :: "u32 \<times> u32"
  f_namelen :: u64

text \<open>\<open>dev\<close> is \<^verbatim>\<open>huge_encode_dev\<close>.\<close>

definition exfat_statfs :: "u64 \<Rightarrow> u64 \<Rightarrow> (s32 \<times> kstatfs option) fsM" where
  "exfat_statfs magic dev = do {
     s \<leftarrow> gets id;
     (err, info) \<leftarrow>
       (if used_clusters s = -1 then FsGetVolInfo
        else ret (0, \<lparr>FatType = vol_type s, ClusterSize = cluster_size s, NumClusters = num_clusters s - 2,
                      FreeClusters = num_clusters s - 2 - used_clusters s, UsedClusters = used_clusters s\<rparr>));
     if err = FFS_MEDIAERR then ret (- EIO, None)
     else ret (0, Some \<lparr>f_type = magic, f_bsize = ucast (ClusterSize info), f_blocks = ucast (NumClusters info),
       f_bfree = ucast (FreeClusters info), f_bavail = ucast (FreeClusters info),
       f_fsid = (ucast dev, ucast (drop_bit 32 dev)), f_namelen = 260\<rparr>) }"

definition exfat_remount :: "u64 \<Rightarrow> s32 \<times> u64" where
  "exfat_remount flags = (0, flags OR MS_NODIRATIME)"

section \<open>Mounting\<close>

definition setup_dops :: "unit sM" where
  "setup_dops = modify (\<lambda>s. s\<lparr>s_d_op_ci := (opt_casesensitive (options s) = 0)\<rparr>)"

text \<open>\<^verbatim>\<open>sprintf\<close> with \<^verbatim>\<open>"cp%d"\<close>.\<close>

fun dec_string :: "nat \<Rightarrow> string" where
  "dec_string n = (if n < 10 then [char_of (48 + n)] else dec_string (n div 10) @ [char_of (48 + n mod 10)])"

declare dec_string.simps [simp del]

definition charset_name :: "charset_ptr \<Rightarrow> string" where
  "charset_name p = (case p of Allocated cs \<Rightarrow> cs | _ \<Rightarrow> ''utf8'')"

text \<open>\<^verbatim>\<open>out_fail\<close> and \<^verbatim>\<open>out_fail2\<close>; \<open>put_again\<close> says that the inode of the root has already been put.\<close>

definition out_fail :: "s32 \<Rightarrow> bool \<Rightarrow> s32 sM" where
  "out_fail error put_again = do {
     _ \<leftarrow> on_vfs (on_vol (whenM put_again set_ub));
     _ \<leftarrow> modify (\<lambda>s. s\<lparr>s_fs_info := False\<rparr>);
     _ \<leftarrow> exfat_free_super;
     ret error }"

definition out_fail2 :: "s32 \<Rightarrow> bool \<Rightarrow> s32 sM" where
  "out_fail2 error put_again = do { _ \<leftarrow> on_vfs (on_vol FsUmountVol); out_fail error put_again }"

text \<open>The root inode.\<close>

definition make_root :: "vfs_env \<Rightarrow> super_env \<Rightarrow> s32 sM" where
  "make_root ev se = do {
     s \<leftarrow> gets vfs.truncate;
     case new_inode ev s of
       None \<Rightarrow> out_fail2 (- ENOMEM) False
     | Some (p, v) \<Rightarrow> do {
         _ \<leftarrow> on_vfs (upd_inode p (\<lambda>_. v\<lparr>i_ino := EXFAT_ROOT_INO, i_version := 1\<rparr>));
         error \<leftarrow> on_vfs (exfat_read_root ev p);
         if error < 0 then out_fail2 error False
         else do {
           v \<leftarrow> on_vfs (get_inode p);
           _ \<leftarrow> on_vfs (exfat_attach ev p (i_pos v));
           _ \<leftarrow> on_vfs (upd_inode p (\<lambda>v. v\<lparr>i_hashed := True\<rparr>));
           if \<not> d_make_root_ok se then out_fail2 (- ENOMEM) True
           else do { _ \<leftarrow> modify (\<lambda>s. s\<lparr>s_root := Some p\<rparr>); ret 0 } } } }"

text \<open>\<^verbatim>\<open>sb_min_blocksize\<close> sets a block size of at least 512 bytes, the kernel's choice \<open>bs\<close>.\<close>

definition exfat_fill_super :: "vfs_env \<Rightarrow> super_env \<Rightarrow> u32 \<Rightarrow> string option \<Rightarrow> s32 sM" where
  "exfat_fill_super ev se bs data =
     (if \<not> kzalloc_ok se then ret (- ENOMEM)
      else do {
        _ \<leftarrow> modify (\<lambda>s. s\<lparr>s_fs_info := True, s_flags := s_flags s OR MS_NODIRATIME, s_magic := EXFAT_SUPER_MAGIC\<rparr>);
        let (error, opts, debug) = parse_options (se_options se) data;
        _ \<leftarrow> modify (\<lambda>s. s\<lparr>options := opts\<rparr>);
        if error \<noteq> 0 then out_fail error False
        else do {
          _ \<leftarrow> setup_dops;
          _ \<leftarrow> modify (\<lambda>s. s\<lparr>v_vol := (v_vol s)\<lparr>s_blocksize := bs\<rparr>, s_maxbytes := 0x7fffffffffffffff\<rparr>);
          r \<leftarrow> on_vfs (on_vol FsMountVol);
          if r \<noteq> 0 then out_fail (- EIO) False
          else do {
            _ \<leftarrow> on_vfs exfat_hash_init;
            t \<leftarrow> gets (\<lambda>s. vol_type (v_vol s));
            let disk = (if t \<noteq> EXFAT then load_nls se (''cp'' @ dec_string (unat (codepage opts))) else None);
            _ \<leftarrow> modify (\<lambda>s. s\<lparr>s_nls_disk := disk\<rparr>);
            if t \<noteq> EXFAT \<and> disk = None then out_fail2 (- EINVAL) False
            else do {
              _ \<leftarrow> modify (\<lambda>s. s\<lparr>s_nls_io := load_nls se (charset_name (iocharset opts))\<rparr>);
              make_root ev se } } } })"

section \<open>Showing the options\<close>

text \<open>\<^verbatim>\<open>%04o\<close>; \<open>disk\<close> and \<open>io\<close> are the names of the two character tables.\<close>

fun oct_string :: "nat \<Rightarrow> string" where
  "oct_string n = (if n < 8 then [char_of (48 + n)] else oct_string (n div 8) @ [char_of (48 + n mod 8)])"

declare oct_string.simps [simp del]

definition oct4 :: "u16 \<Rightarrow> string" where
  "oct4 m = (let d = oct_string (unat m) in replicate (4 - length d) CHR ''0'' @ d)"

definition show_if :: "bool \<Rightarrow> string \<Rightarrow> string" where
  "show_if b str = (if b then str else [])"

definition exfat_show_options :: "exfat_mount_options \<Rightarrow> string option \<Rightarrow> string option \<Rightarrow> string" where
  "exfat_show_options opts disk io =
     show_if (fs_uid opts \<noteq> 0) ('',uid='' @ dec_string (unat (fs_uid opts))) @
     show_if (fs_gid opts \<noteq> 0) ('',gid='' @ dec_string (unat (fs_gid opts))) @
     '',fmask='' @ oct4 (fs_fmask opts) @
     '',dmask='' @ oct4 (fs_dmask opts) @
     show_if (allow_utime opts \<noteq> 0) ('',allow_utime='' @ oct4 (allow_utime opts)) @
     (case disk of Some cs \<Rightarrow> '',codepage='' @ cs | None \<Rightarrow> []) @
     (case io of Some cs \<Rightarrow> '',iocharset='' @ cs | None \<Rightarrow> []) @
     '',namecase='' @ dec_string (unat (opt_casesensitive opts)) @
     (case opt_errors opts of
        EXFAT_ERRORS_CONT \<Rightarrow> '',errors=continue''
      | EXFAT_ERRORS_PANIC \<Rightarrow> '',errors=panic''
      | EXFAT_ERRORS_RO \<Rightarrow> '',errors=remount-ro'') @
     show_if (opt_discard opts) '',discard''"

section \<open>The module\<close>

text \<open>\<open>init\<close>, \<open>created\<close> and \<open>reg\<close> are the results of \<^verbatim>\<open>FsInit\<close>, \<^verbatim>\<open>exfat_init_inodecache\<close> and \<^verbatim>\<open>register_filesystem\<close>; the second
  value says whether \<^verbatim>\<open>FsShutdown\<close> is called.\<close>

definition exfat_init_inodecache :: "bool \<Rightarrow> s32" where
  "exfat_init_inodecache created = (if created then 0 else - ENOMEM)"

definition init_exfat :: "s32 \<Rightarrow> s32 \<Rightarrow> s32 \<Rightarrow> s32 \<times> bool" where
  "init_exfat init created reg =
     (if init \<noteq> 0 then (if init = FFS_MEMORYERR then - ENOMEM else - EIO, False)
      else if created \<noteq> 0 then (created, True)
      else if reg \<noteq> 0 then (reg, True)
      else (0, False))"

end
