(* ===== verification/VfsTable.thy ===== *)
theory VfsTable
  imports VfsReaddir VfsFile VfsSuper Sample
begin

text \<open>
  The inode hash table: an interface of tables with several values per key, its interpretation on the table of the driver,
  and the invariant that every operation of the driver keeps.
\<close>

section \<open>Tables with several values per key\<close>

text \<open>
  A table keeps for each key the values attached to it, the last one first.  A value is attached at most once (\<open>free\<close>
  says that it is not attached).
\<close>

locale multi_table =
  fixes attach :: "'v \<Rightarrow> 'k \<Rightarrow> 's \<Rightarrow> 's"
    and detach :: "'v \<Rightarrow> 's \<Rightarrow> 's"
    and entries :: "'s \<Rightarrow> 'k \<Rightarrow> 'v list"
    and free :: "'s \<Rightarrow> 'v \<Rightarrow> bool"
    and invar :: "'s \<Rightarrow> bool"
  assumes entries_attach: "invar s \<Longrightarrow> free s v \<Longrightarrow> entries (attach v k s) = (entries s)(k := v # entries s k)"
    and entries_detach: "invar s \<Longrightarrow> entries (detach v s) = (\<lambda>k. removeAll v (entries s k))"
    and invar_attach: "invar s \<Longrightarrow> free s v \<Longrightarrow> invar (attach v k s)"
    and invar_detach: "invar s \<Longrightarrow> invar (detach v s)"
    and free_detach: "invar s \<Longrightarrow> free (detach v s) v"
    and free_entries: "invar s \<Longrightarrow> free s v \<longleftrightarrow> (\<forall>k. v \<notin> set (entries s k))"
begin

text \<open>Moving a value to another key, as renaming a file does.\<close>

lemma entries_move:
  assumes "invar s"
  shows "entries (attach v k (detach v s)) = (\<lambda>k'. (if k' = k then [v] else []) @ removeAll v (entries s k'))"
    and "invar (attach v k (detach v s))"
  using assms by (auto simp: fun_eq_iff entries_attach entries_detach invar_detach invar_attach free_detach)

lemma detach_attach:
  assumes "invar s" "free s v"
  shows "entries (detach v (attach v k s)) = entries s"
  using assms free_entries [of s v] by (auto simp: fun_eq_iff entries_attach entries_detach invar_attach)

end

section \<open>The table of the driver\<close>

definition table_ok :: "vfs_env \<Rightarrow> vfs \<Rightarrow> bool" where
  "table_ok ev s \<longleftrightarrow>
     (\<forall>h p. p \<in> set (inode_hashtable s h) \<longleftrightarrow> i_hash_fat (inodes s p) = Some h) \<and>
     (\<forall>h. distinct (inode_hashtable s h)) \<and>
     (\<forall>h p. i_hash_fat (inodes s p) = Some h \<longrightarrow> exfat_hash ev (i_pos (inodes s p)) = h)"

definition table_entries :: "vfs_env \<Rightarrow> vfs \<Rightarrow> u64 \<Rightarrow> nat list" where
  "table_entries ev s pos = filter (\<lambda>p. i_pos (inodes s p) = pos) (inode_hashtable s (exfat_hash ev pos))"

definition unhashed :: "vfs \<Rightarrow> nat \<Rightarrow> bool" where
  "unhashed s p \<longleftrightarrow> i_hash_fat (inodes s p) = None"

definition attached :: "vfs_env \<Rightarrow> nat \<Rightarrow> u64 \<Rightarrow> vfs \<Rightarrow> vfs" where
  "attached ev p pos s = snd (run_state (exfat_attach ev p pos) s)"

definition detached :: "nat \<Rightarrow> vfs \<Rightarrow> vfs" where
  "detached p s = snd (run_state (exfat_detach p) s)"

lemma attached_eq:
  "attached ev p pos s = s\<lparr>inodes := (inodes s)(p := (inodes s p)\<lparr>i_pos := pos, i_hash_fat := Some (exfat_hash ev pos)\<rparr>),
     inode_hashtable := (inode_hashtable s)(exfat_hash ev pos := p # inode_hashtable s (exfat_hash ev pos))\<rparr>"
  by (simp add: attached_def exfat_attach_def Let_def)

lemma detached_eq:
  "detached p s = s\<lparr>inodes := (inodes s)(p := (inodes s p)\<lparr>i_hash_fat := None, i_pos := 0\<rparr>),
     inode_hashtable := (case i_hash_fat (inodes s p) of None \<Rightarrow> inode_hashtable s
       | Some h \<Rightarrow> (inode_hashtable s)(h := remove1 p (inode_hashtable s h)))\<rparr>"
  by (simp add: detached_def exfat_detach_def split: option.split)

lemma table_okD:
  assumes "table_ok ev s"
  shows "p \<in> set (inode_hashtable s h) \<longleftrightarrow> i_hash_fat (inodes s p) = Some h" "distinct (inode_hashtable s h)"
    "i_hash_fat (inodes s p) = Some h \<Longrightarrow> exfat_hash ev (i_pos (inodes s p)) = h"
  using assms by (simp_all add: table_ok_def)

lemma table_ok_attached:
  assumes "table_ok ev s" "unhashed s p"
  shows "table_ok ev (attached ev p pos s)"
  using assms unfolding table_ok_def attached_eq unhashed_def by simp

lemma table_ok_detached:
  assumes "table_ok ev s"
  shows "table_ok ev (detached p s)"
proof (cases "i_hash_fat (inodes s p)")
  case None
  then show ?thesis using assms unfolding table_ok_def detached_eq by simp
next
  case (Some h)
  have "set (remove1 p (inode_hashtable s h)) = set (inode_hashtable s h) - {p}"
    using table_okD(2) [OF assms] by simp
  then show ?thesis using assms Some unfolding table_ok_def detached_eq by (simp add: distinct_remove1)
qed

lemma entries_attached:
  assumes "table_ok ev s" "unhashed s p"
  shows "table_entries ev (attached ev p pos s) k = (if k = pos then [p] else []) @ table_entries ev s k"
proof -
  have "p \<notin> set (inode_hashtable s h)" for h using assms by (simp add: table_okD unhashed_def)
  then have "filter (\<lambda>q. i_pos (inodes (attached ev p pos s) q) = k) (inode_hashtable s h) =
      filter (\<lambda>q. i_pos (inodes s q) = k) (inode_hashtable s h)" for h
    by (intro filter_cong refl) (auto simp: attached_eq)
  then show ?thesis by (auto simp: table_entries_def) (simp_all add: attached_eq)
qed

lemma entries_detached:
  assumes "table_ok ev s"
  shows "table_entries ev (detached p s) k = removeAll p (table_entries ev s k)"
proof -
  let ?h = "exfat_hash ev k"
  have t: "inode_hashtable (detached p s) ?h = removeAll p (inode_hashtable s ?h)"
  proof (cases "i_hash_fat (inodes s p) = Some ?h")
    case True
    then show ?thesis using table_okD(2) [OF assms, of ?h] by (simp add: detached_eq distinct_remove1_removeAll)
  next
    case False
    then have "p \<notin> set (inode_hashtable s ?h)" by (simp add: table_okD(1) [OF assms])
    then show ?thesis using False by (auto simp: detached_eq removeAll_id split: option.split)
  qed
  have "filter (\<lambda>q. i_pos (inodes (detached p s) q) = k) (removeAll p xs) =
      filter (\<lambda>q. i_pos (inodes s q) = k) (removeAll p xs)" for xs
    by (intro filter_cong refl) (auto simp: detached_eq)
  also have "filter f (removeAll p xs) = removeAll p (filter f xs)" for f and xs :: "nat list"
    by (simp add: removeAll_filter_not_eq conj_commute)
  finally have "filter (\<lambda>q. i_pos (inodes (detached p s) q) = k) (removeAll p xs) =
      removeAll p (filter (\<lambda>q. i_pos (inodes s q) = k) xs)" for xs .
  then show ?thesis by (simp add: table_entries_def t)
qed

lemma unhashed_entries:
  assumes "table_ok ev s"
  shows "unhashed s p \<longleftrightarrow> (\<forall>k. p \<notin> set (table_entries ev s k))"
proof
  assume "\<forall>k. p \<notin> set (table_entries ev s k)"
  then have "p \<notin> set (inode_hashtable s (exfat_hash ev (i_pos (inodes s p))))" by (auto simp: table_entries_def)
  then show "unhashed s p" using table_okD(1,3) [OF assms] by (auto simp: unhashed_def) (metis not_None_eq)
qed (simp add: table_entries_def unhashed_def table_okD(1) [OF assms])

interpretation it: multi_table "attached ev" detached "table_entries ev" unhashed "table_ok ev" for ev
  by unfold_locales
     (auto simp: fun_eq_iff entries_attached entries_detached table_ok_attached table_ok_detached unhashed_entries [symmetric],
      simp add: unhashed_def detached_eq)

section \<open>Looking up\<close>

lemma iget_loop_find:
  "iget_loop m pos ps = find (\<lambda>p. \<not> i_freeing (m p)) (filter (\<lambda>p. i_pos (m p) = pos) ps)"
  by (induction ps) auto

lemma iget_entries:
  "run_state (exfat_iget ev pos) s = (find (\<lambda>p. \<not> i_freeing (inodes s p)) (table_entries ev s pos), s)"
  by (simp add: exfat_iget_def iget_loop_find table_entries_def)

section \<open>The invariant of the table\<close>

named_theorems table_keeps \<open>operations that keep the inode hash table in order\<close>

text \<open>What is documented of the kernel's \<^verbatim>\<open>new_inode\<close>: the inode is in no list, it was in none before and is not being freed.\<close>

definition fresh_inodes :: "vfs_env \<Rightarrow> bool" where
  "fresh_inodes ev \<longleftrightarrow> (\<forall>s p v. new_inode ev s = Some (p, v) \<longrightarrow>
     i_hash_fat v = None \<and> \<not> i_freeing v \<and> i_hash_fat (inodes s p) = None)"

lemma table_ok_frame:
  assumes "table_ok ev s" "\<And>p. i_hash_fat (inodes s' p) = i_hash_fat (inodes s p)" "\<And>p. i_pos (inodes s' p) = i_pos (inodes s p)"
    "inode_hashtable s' = inode_hashtable s"
  shows "table_ok ev s'"
  using assms(1) by (simp add: table_ok_def assms(2-4))

lemma keeps_on_vol [table_keeps]: "keeps (table_ok ev) (on_vol m)"
  by (rule keepsI, erule table_ok_frame) auto

lemma keeps_get_inode [table_keeps]: "keeps (table_ok ev) (get_inode p)"
  unfolding get_inode_def by (rule keeps_gets)

lemma keeps_iget [table_keeps]: "keeps (table_ok ev) (exfat_iget ev' pos)"
  unfolding exfat_iget_def by (rule keeps_gets)

lemma keeps_upd_inode:
  assumes "\<And>v. i_hash_fat (f v) = i_hash_fat v" "\<And>v. i_pos (f v) = i_pos v"
  shows "keeps (table_ok ev) (upd_inode p f)"
  by (rule keepsI, erule table_ok_frame) (auto simp: assms)

lemma keeps_detach [table_keeps]: "keeps (table_ok ev) (exfat_detach p)"
  by (rule keepsI) (metis detached_def snd_conv table_ok_detached)

lemma hash_neutral [simp]:
  "i_hash_fat (set_fid fid v) = i_hash_fat v" "i_pos (set_fid fid v) = i_pos v"
  "i_hash_fat (set_size sz v) = i_hash_fat v" "i_pos (set_size sz v) = i_pos v"
  "i_hash_fat (save_attr opts attr v) = i_hash_fat v" "i_pos (save_attr opts attr v) = i_pos v"
  "i_hash_fat (fill_kind opts info v) = i_hash_fat v" "i_pos (fill_kind opts info v) = i_pos v"
  "i_hash_fat (set_vi ino v) = i_hash_fat v" "i_pos (set_vi ino v) = i_pos v"
  "i_hash_fat (set_times ts v) = i_hash_fat v" "i_pos (set_times ts v) = i_pos v"
  "i_hash_fat (size_to_fid v) = i_hash_fat v" "i_pos (size_to_fid v) = i_pos v"
  "i_hash_fat (set_i_size sz v) = i_hash_fat v" "i_pos (set_i_size sz v) = i_pos v"
  by (simp_all add: set_fid_def set_size_def save_attr_def fill_kind_def set_vi_def set_times_def size_to_fid_def set_i_size_def Let_def)

text \<open>The steps that the operations share.\<close>

lemma keeps_write_inode [table_keeps]:
  "keeps (table_ok ev) (exfat_write_inode ev' p)" "keeps (table_ok ev) (exfat_sync_inode ev' p)"
  unfolding exfat_write_inode_def exfat_sync_inode_def Let_def
  by (intro hoare_rules table_keeps)+

lemma keeps_mark_inode_dirty [table_keeps]: "keeps (table_ok ev) (mark_inode_dirty p)"
  unfolding mark_inode_dirty_def by (rule keeps_upd_inode) simp_all

lemma keeps_sync_or_dirty [table_keeps]: "keeps (table_ok ev) (sync_or_dirty ev' b p)"
  unfolding sync_or_dirty_def by (intro hoare_rules table_keeps)

lemma keeps_dir_steps [table_keeps]:
  "keeps (table_ok ev) (dir_grown ev' p)" "keeps (table_ok ev) (dir_shrunk ev' p)" "keeps (table_ok ev) (rename_old_dir ev' p)"
  unfolding dir_grown_def dir_shrunk_def rename_old_dir_def
  by (intro hoare_rules table_keeps keeps_upd_inode; simp)+

lemma keeps_drop_inode [table_keeps]: "keeps (table_ok ev) (drop_inode ev' p)"
  unfolding drop_inode_def by (intro hoare_rules table_keeps keeps_upd_inode; simp)

lemma keeps_instantiate [table_keeps]: "keeps (table_ok ev) (instantiate de p)"
  unfolding instantiate_def by (intro hoare_rules table_keeps)

lemma keeps_create_entry [table_keeps]: "keeps (table_ok ev) (create_entry ev' dir call)"
  unfolding create_entry_def by (intro hoare_rules table_keeps keeps_upd_inode; simp)

text \<open>A new inode is in no list while it is filled.\<close>

definition fresh_ok :: "vfs_env \<Rightarrow> nat \<Rightarrow> vfs \<Rightarrow> bool" where
  "fresh_ok ev p s \<longleftrightarrow> table_ok ev s \<and> unhashed s p"

lemma fresh_keeps:
  "keeps (fresh_ok ev p) (on_vol m)" "keeps (fresh_ok ev p) (get_inode q)"
  "(\<And>v. i_hash_fat (f v) = i_hash_fat v) \<Longrightarrow> keeps (fresh_ok ev p) (upd_inode p f)"
proof -
  show "keeps (fresh_ok ev p) (on_vol m)"
    by (rule keepsI) (auto simp: fresh_ok_def unhashed_def elim: table_ok_frame)
  show "keeps (fresh_ok ev p) (get_inode q)" unfolding get_inode_def by (rule keeps_gets)
  assume f: "\<And>v. i_hash_fat (f v) = i_hash_fat v"
  have "fresh_ok ev p (s\<lparr>inodes := (inodes s)(p := f (inodes s p))\<rparr>)" if "fresh_ok ev p s" for s
    using that unfolding fresh_ok_def table_ok_def unhashed_def by (simp add: f)
  then show "keeps (fresh_ok ev p) (upd_inode p f)" by (intro keepsI) auto
qed

lemma fresh_keeps_fill: "keeps (fresh_ok ev p) (exfat_fill_inode ev' p fid)"
  unfolding exfat_fill_inode_def unix_time_def Let_def
  by (intro hoare_rules fresh_keeps; simp)

lemma fill_inode_code: "fst (run_state (exfat_fill_inode ev p fid) s) = 0"
  by (simp add: exfat_fill_inode_def Let_def case_prod_unfold)

lemma attach_fresh:
  "hoare (fresh_ok ev p) (exfat_attach ev p pos) (\<lambda>_ s. table_ok ev s)"
  by (rule hoareI) (metis attached_def fresh_ok_def snd_conv table_ok_attached)

lemma keeps_build_inode [table_keeps]:
  assumes "fresh_inodes ev"
  shows "keeps (table_ok ev) (exfat_build_inode ev fid pos)"
proof (rule keepsI)
  fix s a s'
  assume s: "table_ok ev s" and run: "run_state (exfat_build_inode ev fid pos) s = (a, s')"
  show "table_ok ev s'"
  proof (cases "run_state (exfat_iget ev pos) s")
    case (Pair r s1)
    then have s1: "s1 = s" by (simp add: exfat_iget_def)
    show ?thesis
    proof (cases "r = None \<and> new_inode ev s \<noteq> None")
      case False
      then show ?thesis using run s Pair s1 by (auto simp: exfat_build_inode_def split: option.splits)
    next
      case True
      then obtain p v where n: "r = None" "new_inode ev s = Some (p, v)" by auto
      let ?s1 = "s\<lparr>inodes := (inodes s)(p := v\<lparr>i_ino := iunique ev s, i_version := 1\<rparr>)\<rparr>"
      have "i_hash_fat v = None" "i_hash_fat (inodes s p) = None" using n(2) assms by (auto simp: fresh_inodes_def)
      then have f: "fresh_ok ev p ?s1" using s unfolding fresh_ok_def table_ok_def unhashed_def by simp
      have h: "hoare (fresh_ok ev p) (do {
            err \<leftarrow> exfat_fill_inode ev p fid;
            if err \<noteq> 0 then ret (Inl err)
            else do { _ \<leftarrow> exfat_attach ev p pos; _ \<leftarrow> upd_inode p (\<lambda>v. v\<lparr>i_hashed := True\<rparr>); ret (Inr p) } }) (\<lambda>_ s. table_ok ev s)"
        by (rule hoare_bind [OF fresh_keeps_fill [unfolded keeps_def]], rule hoare_if)
           (rule hoare_weaken [OF hoare_ret [where Q = "\<lambda>_. fresh_ok ev p"]],
            (simp add: fresh_ok_def)+,
            rule hoare_bind [OF attach_fresh],
            rule hoare_bind [OF keeps_upd_inode [unfolded keeps_def]],
            simp, simp, rule hoare_ret)
      have "run_state (do {
            err \<leftarrow> exfat_fill_inode ev p fid;
            if err \<noteq> 0 then ret (Inl err)
            else do { _ \<leftarrow> exfat_attach ev p pos; _ \<leftarrow> upd_inode p (\<lambda>v. v\<lparr>i_hashed := True\<rparr>); ret (Inr p) } }) ?s1 = (a, s')"
        using run Pair s1 n by (simp add: exfat_build_inode_def)
      with h f show ?thesis by (rule hoareD)
    qed
  qed
qed

section \<open>The invariant\<close>

lemma keeps_new_file_inode [table_keeps]:
  "fresh_inodes ev \<Longrightarrow> keeps (table_ok ev) (new_file_inode ev fid)"
  unfolding new_file_inode_def by (intro hoare_rules table_keeps keeps_upd_inode; simp)

lemma keeps_creating:
  assumes "fresh_inodes ev"
  shows "keeps (table_ok ev) (exfat_create ev dir de)" "keeps (table_ok ev) (exfat_mkdir ev dir de)"
    "keeps (table_ok ev) (exfat_symlink ev dir de tg)"
  unfolding exfat_create_def exfat_mkdir_def exfat_symlink_def
  by (intro hoare_rules table_keeps keeps_upd_inode assms; simp)+

lemma keeps_find_file [table_keeps]: "keeps (table_ok ev) (exfat_find_file ev' dir nm)"
  unfolding exfat_find_file_def by (intro hoare_rules table_keeps)

lemma keeps_read_target [table_keeps]: "keeps (table_ok ev) (read_target p fid junk)"
  unfolding read_target_def Let_def by (intro hoare_rules table_keeps keeps_upd_inode; simp)

lemma keeps_lookup:
  assumes "fresh_inodes ev"
  shows "keeps (table_ok ev) (exfat_lookup ev fa junk dir de)"
  unfolding exfat_lookup_def
  by (intro hoare_rules table_keeps assms)

lemma keeps_removing: "keeps (table_ok ev) (exfat_unlink ev' dir p)" "keeps (table_ok ev) (exfat_rmdir ev' dir p)"
  unfolding exfat_unlink_def exfat_rmdir_def
  by (intro hoare_rules table_keeps keeps_upd_inode; simp)+

lemma keeps_rename_inode [table_keeps]: "keeps (table_ok ev) (rename_inode ev p nd)"
proof -
  have d: "hoare (table_ok ev) (exfat_detach p) (\<lambda>_. fresh_ok ev p)"
    by (rule hoareI) (metis detached_def fresh_ok_def snd_conv table_ok_detached it.free_detach)
  have t: "hoare (table_ok ev) (do { nd \<leftarrow> get_inode nd; sync_or_dirty ev (i_dirsync nd) p }) (\<lambda>_. table_ok ev)"
    by (fold keeps_def) (intro hoare_rules table_keeps)
  show ?thesis
    unfolding rename_inode_def keeps_def
    by (rule hoare_bind [OF keeps_get_inode [unfolded keeps_def]], rule hoare_bind [OF d], rule hoare_bind [OF attach_fresh], rule t)
qed

lemma keeps_rename:
  "keeps (table_ok ev) (exfat_rename ev p q r de)"
  unfolding exfat_rename_def move_call_def rename_links_def rename_replaced_def Let_def
  by (intro hoare_rules table_keeps keeps_upd_inode; simp)

text \<open>What is expected of the kernel's generic functions: they leave the table and the nodes in it alone.\<close>

definition page_cache_ok :: "vfs_env \<Rightarrow> page_cache \<Rightarrow> bool" where
  "page_cache_ok ev pc \<longleftrightarrow>
     (\<forall>p sz. keeps (table_ok ev) (cont_expand_simple pc p sz)) \<and>
     (\<forall>p a b. keeps (table_ok ev) (fdatawrite_range pc p a b)) \<and>
     (\<forall>p. keeps (table_ok ev) (sync_buffers pc p)) \<and>
     (\<forall>p. keeps (table_ok ev) (write_inode_now pc p)) \<and>
     (\<forall>p a b. keeps (table_ok ev) (fdatawait_range pc p a b)) \<and>
     (\<forall>p pos len. keeps (table_ok ev) (cont_write_begin pc p pos len)) \<and>
     (\<forall>p pos len n. keeps (table_ok ev) (generic_write_end pc p pos len n)) \<and>
     (\<forall>p. keeps (table_ok ev) (blockdev_direct_IO pc p)) \<and>
     (\<forall>v a. i_hash_fat (setattr_copy pc v a) = i_hash_fat v \<and> i_pos (setattr_copy pc v a) = i_pos v)"

lemma keeps_truncate [table_keeps]: "keeps (table_ok ev) (exfat_truncate ev' p sz)"
  unfolding exfat_truncate_def by (intro hoare_rules table_keeps keeps_upd_inode; simp)

lemma keeps_write_failed [table_keeps]: "keeps (table_ok ev) (exfat_write_failed ev' p to)"
  unfolding exfat_write_failed_def by (intro hoare_rules table_keeps keeps_upd_inode; simp)

lemma keeps_mapping:
  "keeps (table_ok ev) (exfat_bmap p n b)" "keeps (table_ok ev) (exfat_get_block p n bh b)"
proof -
  show m: "keeps (table_ok ev) (exfat_bmap p n b)" for p n b
    unfolding exfat_bmap_def Let_def by (intro hoare_rules table_keeps keeps_upd_inode; simp)
  show "keeps (table_ok ev) (exfat_get_block p n bh b)"
    unfolding exfat_get_block_def Let_def by (intro hoare_rules table_keeps keeps_upd_inode m; simp)
qed

lemma keeps_file_ops:
  "keeps (table_ok ev) (exfat_file_release p)" "keeps (table_ok ev) (exfat_generic_ioctl pu gu admin cmd)"
  "keeps (table_ok ev) (exfat_evict_inode p)" "keeps (table_ok ev) (exfat_destroy_inode p)"
proof -
  show "keeps (table_ok ev) (exfat_file_release p)"
    unfolding exfat_file_release_def by (intro hoare_rules table_keeps keeps_upd_inode; simp)
  show "keeps (table_ok ev) (exfat_evict_inode p)" "keeps (table_ok ev) (exfat_destroy_inode p)"
    unfolding exfat_evict_inode_def exfat_destroy_inode_def by (intro hoare_rules table_keeps keeps_upd_inode; simp)+
  show "keeps (table_ok ev) (exfat_generic_ioctl pu gu admin cmd)"
    unfolding exfat_generic_ioctl_def by (intro hoare_rules; erule table_ok_frame; simp)
qed

lemma keeps_page_cache:
  assumes "page_cache_ok ev pc"
  shows "keeps (table_ok ev) (exfat_setattr pc ev' owner grp p attr)"
    "keeps (table_ok ev) (exfat_write_begin pc ev' p pos len)"
    "keeps (table_ok ev) (exfat_write_end pc ev' p pos len n)"
    "keeps (table_ok ev) (exfat_direct_IO pc ev' p wr cnt)"
proof -
  note pc = assms [unfolded page_cache_ok_def, rule_format]
  have k: "keeps (table_ok ev) (cont_expand_simple pc p a)" "keeps (table_ok ev) (fdatawrite_range pc p a b)"
    "keeps (table_ok ev) (sync_buffers pc p)" "keeps (table_ok ev) (write_inode_now pc p)" "keeps (table_ok ev) (fdatawait_range pc p a b)"
    "keeps (table_ok ev) (cont_write_begin pc p a len)" "keeps (table_ok ev) (generic_write_end pc p a len n)"
    "keeps (table_ok ev) (blockdev_direct_IO pc p)" for p a b len n
    using assms unfolding page_cache_ok_def by simp_all
  have n: "i_hash_fat (setattr_copy pc v a) = i_hash_fat v" "i_pos (setattr_copy pc v a) = i_pos v" for v a
    using assms unfolding page_cache_ok_def by simp_all
  show "keeps (table_ok ev) (exfat_setattr pc ev' owner grp p attr)"
    unfolding exfat_setattr_def exfat_cont_expand_def Let_def by (intro hoare_rules table_keeps keeps_upd_inode k; simp add: n)
  show "keeps (table_ok ev) (exfat_write_begin pc ev' p pos len)" "keeps (table_ok ev) (exfat_write_end pc ev' p pos len n)"
    "keeps (table_ok ev) (exfat_direct_IO pc ev' p wr cnt)"
    unfolding exfat_write_begin_def exfat_write_end_def exfat_direct_IO_def
    by (intro hoare_rules table_keeps keeps_upd_inode k; simp)+
qed

text \<open>Reading a directory.\<close>

lemma keeps_read_one: "keeps (table_ok ev) (read_one em ev' p pi de cpos ctx)"
  unfolding read_one_def entry_ino_def Let_def by (intro hoare_rules table_keeps keeps_upd_inode; simp)

lemma keeps_readdir_loop:
  assumes "readdir_loop em ev' p pi de cpos ctx s = Some y" "table_ok ev s"
  shows "table_ok ev (snd y)"
proof -
  have "table_ok ev s \<longrightarrow> table_ok ev (snd y)"
  proof (rule readdir_loop.raw_induct [OF _ assms(1), where P = "\<lambda>em ev' p pi de cpos ctx s y. table_ok ev s \<longrightarrow> table_ok ev (snd y)"])
    fix f and em :: "'a dir_emitter" and ev' p pi de cpos ctx s y
    assume ih: "\<And>em ev' p pi de cpos ctx s y. f em ev' p pi de cpos ctx s = Some y \<Longrightarrow> table_ok ev s \<longrightarrow> table_ok ev (snd y)"
      and st: "(case run_state (read_one em ev' p pi de cpos ctx) s of (Inl r, s) \<Rightarrow> Some (r, s)
          | (Inr (de, cpos, ctx), s) \<Rightarrow> f em ev' p pi de cpos ctx s) = Some y"
    obtain x s1 where x: "run_state (read_one em ev' p pi de cpos ctx) s = (x, s1)" by fastforce
    have "table_ok ev s \<Longrightarrow> table_ok ev s1" by (rule keepsD [OF keeps_read_one _ x])
    then show "table_ok ev s \<longrightarrow> table_ok ev (snd y)"
      using st ih by (cases x) (auto simp: x split: prod.splits)
  qed
  with assms(2) show ?thesis by simp
qed

lemma keeps_readdir:
  "exfat_readdir em ev' p pi ctx s = Some y \<Longrightarrow> table_ok ev s \<Longrightarrow> table_ok ev (snd y)"
  by (auto simp: exfat_readdir_def Let_def split: prod.splits if_splits elim: keeps_readdir_loop)

text \<open>The empty table is in order.\<close>

lemma table_ok_init:
  assumes "\<And>p. i_hash_fat (inodes s p) = None" "\<And>h. EXFAT_HASH_SIZE \<le> h \<Longrightarrow> inode_hashtable s h = []"
  shows "table_ok ev (snd (run_state exfat_hash_init s))"
  using assms by (simp add: exfat_hash_init_def table_ok_def)

section \<open>Finding the inode of a file\<close>

text \<open>What happens to the other inodes and to the table while the new inode \<open>p\<close> is filled.\<close>

definition only_new :: "vfs \<Rightarrow> nat \<Rightarrow> vfs \<Rightarrow> bool" where
  "only_new s0 p s \<longleftrightarrow> (\<forall>q. q \<noteq> p \<longrightarrow> inodes s q = inodes s0 q) \<and> inode_hashtable s = inode_hashtable s0 \<and>
     i_hash_fat (inodes s p) = None \<and> \<not> i_freeing (inodes s p)"

lemma only_new_keeps:
  "keeps (only_new s0 p) (on_vol m)" "keeps (only_new s0 p) (get_inode q)"
  "(\<And>v. i_hash_fat (f v) = i_hash_fat v) \<Longrightarrow> (\<And>v. i_freeing (f v) = i_freeing v) \<Longrightarrow> keeps (only_new s0 p) (upd_inode p f)"
  by (rule keepsI; simp add: only_new_def; force)+

lemma freeing_neutral [simp]:
  "i_freeing (set_fid fid v) = i_freeing v" "i_freeing (save_attr opts attr v) = i_freeing v" "i_freeing (fill_kind opts info v) = i_freeing v"
  by (simp_all add: set_fid_def set_size_def save_attr_def fill_kind_def Let_def)

lemma only_new_fill: "keeps (only_new s0 p) (exfat_fill_inode ev p fid)"
  unfolding exfat_fill_inode_def unix_time_def Let_def
  by (intro hoare_rules only_new_keeps; simp)

lemma build_inode_run:
  assumes s: "table_ok ev s" and fresh: "fresh_inodes ev"
    and none: "fst (run_state (exfat_iget ev pos) s) = None" and new: "new_inode ev s = Some (p, v)"
  obtains s' where "run_state (exfat_build_inode ev fid pos) s = (Inr p, s')"
    and "\<And>k. table_entries ev s' k = (if k = pos then [p] else []) @ table_entries ev s k"
    and "\<not> i_freeing (inodes s' p)"
proof -
  let ?s1 = "s\<lparr>inodes := (inodes s)(p := v\<lparr>i_ino := iunique ev s, i_version := 1\<rparr>)\<rparr>"
  have v: "i_hash_fat v = None" "\<not> i_freeing v" "i_hash_fat (inodes s p) = None" using new fresh by (auto simp: fresh_inodes_def)
  obtain s2 where fill: "run_state (exfat_fill_inode ev p fid) ?s1 = (0, s2)"
    using fill_inode_code [of ev p fid ?s1] by (metis prod.collapse)
  have "fresh_ok ev p ?s1" using s v unfolding fresh_ok_def table_ok_def unhashed_def by simp
  then have f2: "fresh_ok ev p s2" using fill by (rule keepsD [OF fresh_keeps_fill])
  have "only_new s p ?s1" using v by (simp add: only_new_def)
  then have o2: "only_new s p s2" using fill by (rule keepsD [OF only_new_fill])
  have np: "p \<notin> set (inode_hashtable s h)" for h using s v by (simp add: table_okD)
  have "filter (\<lambda>q. i_pos (inodes s2 q) = k) (inode_hashtable s h) = filter (\<lambda>q. i_pos (inodes s q) = k) (inode_hashtable s h)" for k h
    by (intro filter_cong refl) (metis np o2 only_new_def)
  then have e2: "table_entries ev s2 k = table_entries ev s k" for k
    using o2 by (simp add: table_entries_def only_new_def)
  let ?s3 = "attached ev p pos s2"
  let ?s4 = "?s3\<lparr>inodes := (inodes ?s3)(p := (inodes ?s3 p)\<lparr>i_hashed := True\<rparr>)\<rparr>"
  have att: "run_state (exfat_attach ev p pos) s2 = ((), ?s3)" by (metis attached_def prod.collapse unit.exhaust)
  have "fst (run_state (exfat_iget ev pos) s) = None \<Longrightarrow> run_state (exfat_iget ev pos) s = (None, s)" by (simp add: exfat_iget_def)
  then have "run_state (exfat_build_inode ev fid pos) s = (Inr p, ?s4)"
    using none new fill att by (simp add: exfat_build_inode_def)
  moreover have "table_entries ev ?s4 k = table_entries ev ?s3 k" for k
    by (auto simp: table_entries_def intro!: filter_cong)
  then have "table_entries ev ?s4 k = (if k = pos then [p] else []) @ table_entries ev s k" for k
    using f2 by (simp add: entries_attached fresh_ok_def e2)
  moreover have "\<not> i_freeing (inodes ?s4 p)" using o2 by (simp add: attached_eq only_new_def)
  ultimately show ?thesis by (rule that)
qed

lemma iget_state: "run_state (exfat_iget ev pos) s = (fst (run_state (exfat_iget ev pos) s), s)"
  by (simp add: exfat_iget_def)

lemma build_inode_hit:
  "fst (run_state (exfat_iget ev pos) s) = Some p \<Longrightarrow> run_state (exfat_build_inode ev fid pos) s = (Inr p, s)"
  using iget_state [of ev pos s] by (simp add: exfat_build_inode_def)

text \<open>
  C39: \<^verbatim>\<open>exfat_build_inode\<close> finds or makes the one inode of a file.  It fails only when the file has no inode in memory and
  there is no memory for one; then nothing has changed.  Otherwise \<^verbatim>\<open>exfat_iget\<close> finds the inode it returns at the place of
  the file from then on, a second call returns it again without reading the volume, and no other place of the table is
  touched; an inode that was there already is returned as it is.
\<close>

theorem build_inode_coherent:
  assumes "table_ok ev s" "fresh_inodes ev"
  shows "case run_state (exfat_build_inode ev fid pos) s of
     (Inl e, s') \<Rightarrow> e = - ENOMEM \<and> s' = s \<and> fst (run_state (exfat_iget ev pos) s) = None \<and> new_inode ev s = None
   | (Inr p, s') \<Rightarrow>
       fst (run_state (exfat_iget ev pos) s') = Some p \<and>
       run_state (exfat_build_inode ev fid' pos) s' = (Inr p, s') \<and>
       (\<forall>k. table_entries ev s' k =
          (if k = pos \<and> fst (run_state (exfat_iget ev pos) s) = None then [p] else []) @ table_entries ev s k)"
proof (cases "fst (run_state (exfat_iget ev pos) s)")
  case (Some q)
  then show ?thesis by (simp add: build_inode_hit)
next
  case None
  show ?thesis
  proof (cases "new_inode ev s")
    case None
    then show ?thesis
      using \<open>fst (run_state (exfat_iget ev pos) s) = None\<close> iget_state [of ev pos s] by (simp add: exfat_build_inode_def)
  next
    case (Some x)
    then obtain p v where n: "new_inode ev s = Some (p, v)" by (cases x) simp
    obtain s' where s': "run_state (exfat_build_inode ev fid pos) s = (Inr p, s')"
      "\<And>k. table_entries ev s' k = (if k = pos then [p] else []) @ table_entries ev s k" "\<not> i_freeing (inodes s' p)"
      by (rule build_inode_run [OF assms None n, where fid = fid]) (rule that)
    have "fst (run_state (exfat_iget ev pos) s') = Some p" by (simp add: iget_entries s'(2,3))
    then show ?thesis using None by (simp add: s'(1,2) build_inode_hit)
  qed
qed

section \<open>A sample\<close>

definition blank_chain :: CHAIN_T where "blank_chain = \<lparr>chain_dir = 0, chain_size = 0, chain_flags = 0x01\<rparr>"

definition blank_fid :: FILE_ID_T where
  "blank_fid = \<lparr>fid_dir = blank_chain, fid_entry = 0, fid_type = TYPE_FILE, fid_attr = 0, start_clu = 0, fid_size = 0,
     fid_flags = 0x01, rwoffset = 0, hint_last_off = -1, hint_last_clu = 0\<rparr>"

definition blank_info :: DIR_ENTRY_T where
  "blank_info = \<lparr>de_Name = [], de_ShortName = [], de_Attr = 0, de_Size = 0, de_NumSubdirs = 0, de_Create = no_date,
     de_Modify = no_date, de_Access = no_date\<rparr>"

definition blank_vinode :: vinode where
  "blank_vinode = \<lparr>vi = \<lparr>i_fid = blank_fid, i_size = 0, i_blocks = 0, mmu_private = 0\<rparr>, i_pos = 0, i_target = None,
     i_hash_fat = None, i_ino = 0, i_mode = 0, i_uid = 0, i_gid = 0, i_version = 0, i_generation = 0, i_nlink = 1,
     i_mtime = 0, i_ctime = 0, i_atime = 0, i_op = No_ops, i_dirsync = False, i_sync = False, i_dirty = False,
     i_freeing = False, i_hashed = False\<rparr>"

definition ascii_nls :: nls where
  "ascii_nls = \<lparr>uni2char = (\<lambda>u. if u < 128 then Some [ucast u] else None),
     char2uni = (\<lambda>bs. case bs of [] \<Rightarrow> None | b # _ \<Rightarrow> if b < 128 then Some (1, ucast b) else None), charset_utf8 = False\<rparr>"

definition sample_fs_env :: fs_env where
  "sample_fs_env = \<lparr>nls_disk = ascii_nls, nls_io = Some ascii_nls, utf8_decode = map ucast, utf8_encode = map ucast,
     casesensitive = False, now = \<lparr>tm_sec = 0, tm_min = 0, tm_hour = 0, tm_day = 1, tm_mon = 1, tm_year = 40\<rparr>,
     stack_junk = replicate 256 0\<rparr>"

text \<open>New inodes get the number 7 as long as that one is in no list.\<close>

definition sample_vfs_env :: vfs_env where
  "sample_vfs_env = \<lparr>ve_fs = sample_fs_env, tz_minuteswest = 0, seconds = 1577836800,
     hash_32 = (\<lambda>v n. unat v mod 2 ^ n),
     new_inode = (\<lambda>s. if i_hash_fat (inodes s 7) = None then Some (7, blank_vinode) else None), iunique = (\<lambda>_. 99),
     junk_fid = blank_fid, junk_info = blank_info\<rparr>"

definition sample_vfs :: "vol \<Rightarrow> vfs" where
  "sample_vfs v = \<lparr>v_vol = v, inodes = (\<lambda>_. blank_vinode), inode_hashtable = (\<lambda>_. []), options = sample_options, debug_flags = 0\<rparr>"

lemma sample_table_ok: "table_ok ev (sample_vfs v)"
  by (simp add: table_ok_def sample_vfs_def blank_vinode_def)

lemma sample_fresh: "fresh_inodes sample_vfs_env"
  by (auto simp: fresh_inodes_def sample_vfs_env_def blank_vinode_def)

lemma build_inode_coherent_witness:
  "case run_state (exfat_build_inode sample_vfs_env blank_fid 5) (sample_vfs (ready FAT16 (\<lambda>_. replicate 512 0))) of
     (Inl e, s') \<Rightarrow> False
   | (Inr p, s') \<Rightarrow> fst (run_state (exfat_iget sample_vfs_env 5) s') = Some p"
proof -
  let ?s = "sample_vfs (ready FAT16 (\<lambda>_. replicate 512 0))"
  have "new_inode sample_vfs_env ?s \<noteq> None" by (simp add: sample_vfs_env_def sample_vfs_def blank_vinode_def)
  then show ?thesis
    using build_inode_coherent [where ev = sample_vfs_env and s = ?s and fid = blank_fid and pos = 5 and fid' = blank_fid, OF sample_table_ok sample_fresh]
    by (auto split: prod.splits sum.splits)
qed

section \<open>The properties\<close>

text \<open>
  C4: The hash table refines a table that keeps a list of inodes for each place, the last one attached first:
  \<^verbatim>\<open>exfat_iget\<close> returns the first inode of the list that is not being freed, \<^verbatim>\<open>exfat_attach\<close> puts an inode in front of
  the list of its place, \<^verbatim>\<open>exfat_detach\<close> takes it out of every list, and the two calls that \<^verbatim>\<open>exfat_rename\<close> makes
  move it to its new place; the lists of all other places stay.
\<close>

theorem inode_table_refines:
  assumes "table_ok ev s"
  shows "run_state (exfat_iget ev pos) s = (find (\<lambda>p. \<not> i_freeing (inodes s p)) (table_entries ev s pos), s) \<and>
    (i_hash_fat (inodes s p) = None \<longrightarrow>
      table_entries ev (snd (run_state (exfat_attach ev p pos) s)) = (table_entries ev s)(pos := p # table_entries ev s pos)) \<and>
    table_entries ev (snd (run_state (exfat_detach p) s)) = (\<lambda>k. removeAll p (table_entries ev s k)) \<and>
    table_entries ev (snd (run_state (do { _ \<leftarrow> exfat_detach p; exfat_attach ev p pos }) s)) =
      (\<lambda>k. (if k = pos then [p] else []) @ removeAll p (table_entries ev s k))"
proof -
  have "snd (run_state (do { _ \<leftarrow> exfat_detach p; exfat_attach ev p pos }) s) = attached ev p pos (detached p s)"
    by (simp add: attached_def detached_def case_prod_unfold)
  then show ?thesis
    using it.entries_attach [OF assms, of p pos] it.entries_detach [OF assms, of p] it.entries_move(1) [OF assms, of p pos]
    by (simp add: iget_entries attached_def [symmetric] detached_def [symmetric] unhashed_def)
qed

lemma inode_table_refines_witness:
  "table_entries sample_vfs_env (snd (run_state (exfat_attach sample_vfs_env 3 9) (sample_vfs (ready FAT16 (\<lambda>_. []))))) 9 = [3] \<and>
   table_entries sample_vfs_env (snd (run_state (exfat_detach 3) (sample_vfs (ready FAT16 (\<lambda>_. []))))) 9 = []"
proof -
  let ?s = "sample_vfs (ready FAT16 (\<lambda>_. []))"
  have "i_hash_fat (inodes ?s 3) = None" "table_entries sample_vfs_env ?s 9 = []"
    by (simp_all add: sample_vfs_def blank_vinode_def table_entries_def)
  then show ?thesis
    using inode_table_refines [where ev = sample_vfs_env and s = ?s and p = 3 and pos = 9, OF sample_table_ok] by simp
qed

text \<open>
  C5: Every operation of the driver keeps the inode hash table in order: an inode is in the list that its node names and
  only there, once, and the list is that of its place.  \<^verbatim>\<open>new_inode\<close> has to return an inode that is in no list, and the
  generic functions of the page cache have to leave the table alone.
\<close>

theorem vfs_keeps_inode_table:
  assumes "fresh_inodes ev" "page_cache_ok ev pc"
  shows "keeps (table_ok ev) (exfat_lookup ev fa junk dir de) \<and>
    keeps (table_ok ev) (exfat_create ev dir de) \<and> keeps (table_ok ev) (exfat_mkdir ev dir de) \<and>
    keeps (table_ok ev) (exfat_symlink ev dir de tg) \<and>
    keeps (table_ok ev) (exfat_unlink ev dir p) \<and> keeps (table_ok ev) (exfat_rmdir ev dir p) \<and>
    keeps (table_ok ev) (exfat_rename ev dir p dir' de) \<and>
    keeps (table_ok ev) (exfat_write_inode ev p) \<and> keeps (table_ok ev) (exfat_evict_inode p) \<and>
    keeps (table_ok ev) (exfat_setattr pc ev owner grp p attr) \<and>
    keeps (table_ok ev) (exfat_get_block p n bh create) \<and>
    keeps (table_ok ev) (exfat_write_begin pc ev p pos len) \<and> keeps (table_ok ev) (exfat_write_end pc ev p pos len cnt) \<and>
    (\<forall>y. exfat_readdir em ev p pi ctx s = Some y \<longrightarrow> table_ok ev s \<longrightarrow> table_ok ev (snd y))"
  using assms
  by (simp add: keeps_lookup keeps_creating keeps_removing keeps_rename keeps_write_inode keeps_file_ops keeps_page_cache
      keeps_mapping keeps_readdir)

definition idle_page_cache :: page_cache where
  "idle_page_cache = \<lparr>cont_expand_simple = (\<lambda>_ _. ret 0), fdatawrite_range = (\<lambda>_ _ _. ret 0), sync_buffers = (\<lambda>_. ret 0),
     write_inode_now = (\<lambda>_. ret 0), fdatawait_range = (\<lambda>_ _ _. ret 0), inode_change_ok = (\<lambda>_ a. (0, a)),
     setattr_copy = (\<lambda>v _. v), cont_write_begin = (\<lambda>_ _ _. ret 0), generic_write_end = (\<lambda>_ _ _ n. ret (uint n)),
     blockdev_direct_IO = (\<lambda>_. ret 0), mpage_readpage = (\<lambda>_. ret 0), mpage_readpages = (\<lambda>_ _. ret 0),
     block_write_full_page = (\<lambda>_. ret 0), mpage_writepages = (\<lambda>_. ret 0), generic_block_bmap = (\<lambda>_ _. ret 0)\<rparr>"

lemma vfs_keeps_inode_table_witness:
  "table_ok sample_vfs_env (snd (run_state (exfat_mkdir sample_vfs_env 1 \<lparr>d_name = [0x41], d_inode = None, d_time = 0, d_parent = 1\<rparr>)
     (sample_vfs (ready FAT16 (\<lambda>_. replicate 512 0)))))"
proof -
  let ?m = "exfat_mkdir sample_vfs_env 1 \<lparr>d_name = [0x41], d_inode = None, d_time = 0, d_parent = 1\<rparr>"
    and ?s = "sample_vfs (ready FAT16 (\<lambda>_. replicate 512 0))"
  have "page_cache_ok sample_vfs_env idle_page_cache"
    by (simp add: page_cache_ok_def idle_page_cache_def keeps_ret)
  note r = vfs_keeps_inode_table [where ev = sample_vfs_env and dir = 1 and de = "\<lparr>d_name = [0x41], d_inode = None, d_time = 0, d_parent = 1\<rparr>" and
      em = "\<lparr>emit_dots = Pair True, emit = (\<lambda>c _ _ _. (False, c))\<rparr> :: unit dir_emitter", OF sample_fresh this]
  have "keeps (table_ok sample_vfs_env) ?m" by (rule r [THEN conjunct2, THEN conjunct2, THEN conjunct1])
  then show ?thesis by (rule keepsD [where s = ?s]) (rule sample_table_ok, rule prod.collapse [symmetric])
qed

end
