(* ===== verification/VfsProps.thy ===== *)
theory VfsProps
  imports VfsTable
begin

text \<open>
  Properties of whole operations on the VFS: mounting leaves all or nothing, reading a directory returns; and three places
  where the code does not do what it means to.
\<close>

section \<open>Mounting\<close>

text \<open>What mounting leaves behind: nothing when it fails, otherwise a root directory that the inode table finds.\<close>

definition unmounted :: "super \<Rightarrow> bool" where
  "unmounted s \<longleftrightarrow> \<not> s_fs_info s \<and> s_nls_disk s = None \<and> s_nls_io s = None"

definition root_inode :: "nat \<Rightarrow> vfs \<Rightarrow> bool" where
  "root_inode p s \<longleftrightarrow> i_ino (inodes s p) = EXFAT_ROOT_INO \<and> i_op (inodes s p) = Dir_ops \<and>
     fid_type (v_fid (inodes s p)) = TYPE_DIR \<and>
     i_pos (inodes s p) = push_bit 32 (ucast (start_clu (v_fid (inodes s p)))) OR 0xffffffff"

definition mounted :: "vfs_env \<Rightarrow> super \<Rightarrow> bool" where
  "mounted ev s \<longleftrightarrow> s_fs_info s \<and> table_ok ev (vfs.truncate s) \<and>
     (\<exists>p. s_root s = Some p \<and> root_inode p (vfs.truncate s) \<and> table_entries ev (vfs.truncate s) (i_pos (inodes s p)) = [p])"

definition mount_result :: "vfs_env \<Rightarrow> s32 \<Rightarrow> super \<Rightarrow> bool" where
  "mount_result ev r s \<longleftrightarrow> (if r = 0 then mounted ev s else unmounted s \<and> r \<in> {- ENOMEM, - EINVAL, - EIO})"

text \<open>No inode is in a list.\<close>

definition no_inodes :: "vfs \<Rightarrow> bool" where
  "no_inodes s \<longleftrightarrow> (\<forall>h. inode_hashtable s h = []) \<and> (\<forall>p. i_hash_fat (inodes s p) = None)"

definition put_vfs :: "super \<Rightarrow> vfs \<Rightarrow> super" where
  "put_vfs s v = s\<lparr>v_vol := v_vol v, inodes := inodes v, inode_hashtable := inode_hashtable v, options := options v,
     debug_flags := debug_flags v\<rparr>"

lemma run_on_vfs [simp]:
  "run_state (on_vfs m) s = (fst (run_state m (vfs.truncate s)), put_vfs s (snd (run_state m (vfs.truncate s))))"
  by (simp add: on_vfs_def put_vfs_def case_prod_unfold)

lemma put_vfs_simps [simp]:
  "vfs.truncate (put_vfs s v) = v" "put_vfs (put_vfs s v) w = put_vfs s w" "s_fs_info (put_vfs s v) = s_fs_info s"
  "inodes (put_vfs s v) = inodes v" "inode_hashtable (put_vfs s v) = inode_hashtable v" "v_vol (put_vfs s v) = v_vol v" "options (put_vfs s v) = options v"
  "s_nls_disk (put_vfs s v) = s_nls_disk s" "s_nls_io (put_vfs s v) = s_nls_io s"
  by (simp_all add: put_vfs_def vfs.defs)

lemma truncate_simps [simp]:
  "inodes (vfs.truncate s) = inodes s" "inode_hashtable (vfs.truncate s) = inode_hashtable s" "v_vol (vfs.truncate s) = v_vol s"
  "vfs.truncate (s\<lparr>s_root := x\<rparr>) = vfs.truncate s" "vfs.truncate (s\<lparr>s_nls_disk := t\<rparr>) = vfs.truncate s"
  "vfs.truncate (s\<lparr>s_nls_io := t\<rparr>) = vfs.truncate s"
  by (simp_all add: vfs.defs)

lemma out_fail_result:
  "hoare (\<lambda>_. e \<in> {- ENOMEM, - EINVAL, - EIO}) (out_fail e b) (mount_result ev)"
  "hoare (\<lambda>_. e \<in> {- ENOMEM, - EINVAL, - EIO}) (out_fail2 e b) (mount_result ev)"
  by (auto simp: hoare_def out_fail_def out_fail2_def exfat_free_super_def mount_result_def unmounted_def Let_def
      ENOMEM_def EINVAL_def EIO_def)

lemma read_root_run:
  fixes ev :: vfs_env and p :: nat and s :: vfs
  defines "s' \<equiv> snd (run_state (exfat_read_root ev p) s)"
  shows "fst (run_state (exfat_read_root ev p) s) = 0" "inode_hashtable s' = inode_hashtable s"
    "i_hash_fat (inodes s' q) = i_hash_fat (inodes s q)" "i_ino (inodes s' p) = i_ino (inodes s p)"
    "i_op (inodes s' p) = Dir_ops" "fid_type (v_fid (inodes s' p)) = TYPE_DIR"
    "i_pos (inodes s' p) = push_bit 32 (ucast (start_clu (v_fid (inodes s' p)))) OR 0xffffffff"
  unfolding s'_def
  by (simp_all add: exfat_read_root_def Let_def case_prod_unfold save_attr_def set_fid_def v_fid_def)

lemma make_root_result:
  assumes "fresh_inodes ev"
  shows "hoare (\<lambda>s. s_fs_info s \<and> no_inodes (vfs.truncate s)) (make_root ev se) (mount_result ev)"
proof (rule hoareI)
  fix s r s'
  assume pre: "s_fs_info s \<and> no_inodes (vfs.truncate s)" and run: "run_state (make_root ev se) s = (r, s')"
  note fail = hoareD [OF out_fail_result(2)]
  show "mount_result ev r s'"
  proof (cases "new_inode ev (vfs.truncate s)")
    case None
    then have "run_state (out_fail2 (- ENOMEM) False) s = (r, s')" using run by (simp add: make_root_def)
    then show ?thesis by (rule fail [rotated]) simp
  next
    case (Some x)
    then obtain p v where x: "new_inode ev (vfs.truncate s) = Some (p, v)" by (cases x) simp
    define s1 where "s1 = (vfs.truncate s)\<lparr>inodes := (inodes s)(p := v\<lparr>i_ino := EXFAT_ROOT_INO, i_version := 1\<rparr>)\<rparr>"
    define s2 where "s2 = snd (run_state (exfat_read_root ev p) s1)"
    have "i_hash_fat v = None" using assms x by (auto simp: fresh_inodes_def)
    then have n1: "no_inodes s1" using pre by (simp add: no_inodes_def s1_def vfs.defs)
    have n2: "no_inodes s2" using n1 by (simp add: no_inodes_def s2_def read_root_run)
    let ?v = "inodes s2 p"
    define s3 where "s3 = attached ev p (i_pos ?v) s2"
    define s4 where "s4 = s3\<lparr>inodes := (inodes s3)(p := (inodes s3 p)\<lparr>i_hashed := True\<rparr>)\<rparr>"
    have "run_state (make_root ev se) s =
        (if d_make_root_ok se then (0, (put_vfs s s4)\<lparr>s_root := Some p\<rparr>) else run_state (out_fail2 (- ENOMEM) True) (put_vfs s s4))"
      by (simp add: make_root_def x s1_def [symmetric] s2_def [symmetric] read_root_run(1) attached_def [symmetric] s3_def [symmetric] s4_def)
    moreover have "mounted ev ((put_vfs s s4)\<lparr>s_root := Some p\<rparr>)"
    proof -
      have "unhashed s2 p" "table_ok ev s2" using n2 by (simp_all add: no_inodes_def unhashed_def table_ok_def)
      then have "table_ok ev s3" "table_entries ev s3 (i_pos ?v) = [p]"
        using n2 unfolding s3_def by (simp_all add: table_ok_attached entries_attached) (simp add: no_inodes_def table_entries_def)
      moreover have "i_pos (inodes s4 q) = i_pos (inodes s3 q)" "i_hash_fat (inodes s4 q) = i_hash_fat (inodes s3 q)"
          "inode_hashtable s4 = inode_hashtable s3" for q by (simp_all add: s4_def)
      ultimately have "table_ok ev s4" "table_entries ev s4 (i_pos ?v) = [p]"
        by (auto simp: table_entries_def elim: table_ok_frame)
      moreover have "i_pos (inodes s4 p) = i_pos ?v" "root_inode p s4"
        using read_root_run(4-7) [of ev p s1, folded s2_def]
        by (simp_all add: s4_def s3_def attached_eq root_inode_def s1_def v_fid_def)
      ultimately show ?thesis using pre by (simp add: mounted_def)
    qed
    ultimately show ?thesis
      using run hoareD [OF out_fail_result(2), of "- ENOMEM" True "put_vfs s s4" r s' ev]
      by (cases "d_make_root_ok se") (auto simp: mount_result_def)
  qed
qed

lemma parse_options_code:
  "fst (parse_options oe data) \<in> {0, - ENOMEM, - EINVAL}"
proof (cases data)
  case None
  then show ?thesis by (simp add: parse_options_def options_out_def case_prod_unfold Let_def)
next
  case (Some str)
  have "the (refused oe p) \<in> {0, - ENOMEM, - EINVAL}" if "refused oe p \<noteq> None" for p
    using that by (auto simp: refused_def split: if_splits prod.splits)
  moreover have "refused oe p \<noteq> None" if "dropWhile (\<lambda>p. refused oe p = None) (strsep str) = p # ps" for p ps
    using hd_dropWhile [of "\<lambda>p. refused oe p = None" "strsep str"] that by simp
  moreover obtain code opts dbg where p: "parse_options oe (Some str) = (code, opts, dbg)" by (rule prod_cases3)
  have "code = (case dropWhile (\<lambda>p. refused oe p = None) (strsep str) of [] \<Rightarrow> 0 | p # _ \<Rightarrow> the (refused oe p))"
    using parse_options_run [of oe str] by (simp only: p prod.case)
  ultimately show ?thesis
    by (cases "dropWhile (\<lambda>p. refused oe p = None) (strsep str)") (simp_all add: Some p)
qed

definition no_hashed :: "super \<Rightarrow> bool" where
  "no_hashed s \<longleftrightarrow> s_fs_info s \<and> (\<forall>p. i_hash_fat (inodes s p) = None) \<and> (\<forall>h \<ge> EXFAT_HASH_SIZE. inode_hashtable s h = [])"

lemma no_hashed_init:
  "hoare no_hashed (on_vfs exfat_hash_init) (\<lambda>_ s. s_fs_info s \<and> no_inodes (vfs.truncate s))"
  by (auto simp: hoare_def exfat_hash_init_def no_hashed_def no_inodes_def)

lemma hashed_frame [hoare_rules]:
  "hoare no_hashed (on_vfs (on_vol m)) (\<lambda>_. no_hashed)" "hoare no_hashed (gets g) (\<lambda>_. no_hashed)"
  by (simp_all add: hoare_def no_hashed_def put_vfs_def)

lemma fail_any: "e \<in> {- ENOMEM, - EINVAL, - EIO} \<Longrightarrow> hoare P (out_fail e b) (mount_result ev)"
    "e \<in> {- ENOMEM, - EINVAL, - EIO} \<Longrightarrow> hoare P (out_fail2 e b) (mount_result ev)"
  by (rule hoare_weaken [OF out_fail_result(1)], simp_all) (rule hoare_weaken [OF out_fail_result(2)], simp_all)


definition sample_super :: "vol \<Rightarrow> super" where
  "sample_super v = vfs.extend (sample_vfs v)
     (super.fields False False None None None 0 0 0)"

definition sample_super_env :: super_env where
  "sample_super_env = \<lparr>se_options = \<lparr>match_token = (\<lambda>_ _. (Opt_err, [])), match_int = (\<lambda>_. None), match_octal = (\<lambda>_. None),
       match_strdup = Some, cur_uid = 0, cur_gid = 0, cur_umask = 18\<rparr>,
     load_nls = (\<lambda>_. Some ascii_nls), d_make_root_ok = True, kzalloc_ok = True\<rparr>"


section \<open>Reading a directory ends\<close>

text \<open>What a computation may return, whatever the state.\<close>

definition yields :: "('a \<Rightarrow> bool) \<Rightarrow> ('s, 'a) state \<Rightarrow> bool" where
  "yields Q m \<longleftrightarrow> hoare (\<lambda>_. True) m (\<lambda>a _. Q a)"

lemma yieldsD: "yields Q m \<Longrightarrow> run_state m s = (a, s') \<Longrightarrow> Q a"
  unfolding yields_def using hoareD by fastforce

lemma yields_rules:
  "Q a \<Longrightarrow> yields Q (ret a)" "(\<And>a. yields Q (f a)) \<Longrightarrow> yields Q (State_Monad.bind k f)"
  "(b \<Longrightarrow> yields Q m) \<Longrightarrow> (\<not> b \<Longrightarrow> yields Q n) \<Longrightarrow> yields Q (if b then m else n)"
  "(\<And>x y z. yields Q (g x y z)) \<Longrightarrow> yields Q (case t of (x, y, z) \<Rightarrow> g x y z)"
  by (auto simp: yields_def hoare_def case_prod_unfold)

text \<open>What one turn of the loop does with the context: either it ends, or \<open>emit\<close> has taken an entry.\<close>

definition turn_result :: "'c dir_emitter \<Rightarrow> 'c dir_ctx \<Rightarrow> (s32 \<times> 'c dir_ctx) + (DIR_ENTRY_T \<times> int \<times> 'c dir_ctx) \<Rightarrow> bool" where
  "turn_result em ctx r \<longleftrightarrow> (case r of
     Inl (e, _) \<Rightarrow> e \<in> {0, - EIO}
   | Inr (_, cpos, ctx') \<Rightarrow> \<exists>nm ino d c. nm \<noteq> [] \<and> emit em ctx nm ino d = (True, c) \<and> ctx' = c\<lparr>ctx_pos := cpos\<rparr>)"

lemma read_one_turn: "yields (turn_result em ctx) (read_one em ev p pi de cpos ctx)"
proof -
  have ends: "yields (turn_result em ctx) (ret (Inl (- EIO, c)))" "yields (turn_result em ctx) (ret (Inl (0, c)))" for c :: "'a dir_ctx"
    by (simp_all add: turn_result_def yields_rules)
  have emits: "yields (turn_result em ctx) (case emit em ctx (de_Name de) i d of (ok, ctx) \<Rightarrow>
      if \<not> ok then ret (Inl (0, ctx)) else ret (Inr (de, cpos, ctx\<lparr>ctx_pos := cpos\<rparr>)))" if "de_Name de \<noteq> []" for de cpos i d
    using that by (cases "emit em ctx (de_Name de) i d") (auto simp: turn_result_def intro!: yields_rules, blast)
  show ?thesis
    unfolding read_one_def Let_def
    by (intro yields_rules ends emits)
qed

lemma readdir_loop_returns:
  assumes room: "\<And>c nm ino d c'. nm \<noteq> [] \<Longrightarrow> emit em c nm ino d = (True, c') \<Longrightarrow> room (ctx_actor c') < (room (ctx_actor c) :: nat)"
  shows "\<exists>e c' s'. readdir_loop em ev p pi de cpos ctx s = Some ((e, c'), s') \<and> e \<in> {0, - EIO}"
proof (induction "room (ctx_actor ctx)" arbitrary: de cpos ctx s rule: less_induct)
  case less
  show ?case
  proof (cases "run_state (read_one em ev p pi de cpos ctx) s")
    case (Pair r s1)
    show ?thesis
    proof (cases r)
      case (Inl x)
      obtain e c where x: "x = (e, c)" by fastforce
      show ?thesis using yieldsD [OF read_one_turn Pair [unfolded Inl x]]
        by (simp add: turn_result_def readdir_loop.simps [of em ev p pi de cpos ctx s] Pair Inl x)
    next
      case (Inr x)
      obtain de' cpos' c where x: "x = (de', cpos', c)" by (cases x) auto
      obtain nm ino d c0 where c: "emit em ctx nm ino d = (True, c0)" "c = c0\<lparr>ctx_pos := cpos'\<rparr>" "nm \<noteq> []"
        using yieldsD [OF read_one_turn Pair [unfolded Inr x]] by (auto simp: turn_result_def)
      have "room (ctx_actor c) < room (ctx_actor ctx)" using room [OF c(3,1)] c(2) by simp
      from less [OF this] show ?thesis
        by (simp add: readdir_loop.simps [of em ev p pi de cpos ctx s] Pair Inr x)
    qed
  qed
qed


definition sample_emitter :: "nat dir_emitter" where
  "sample_emitter = \<lparr>emit_dots = Pair True,
     emit = (\<lambda>c _ _ _. if ctx_actor c = 0 then (False, c) else (True, c\<lparr>ctx_actor := ctx_actor c - 1\<rparr>))\<rparr>"


text \<open>
  The loop counts the two entries of the directory itself a second time in the position of the caller: \<open>emit_dots\<close>, which
  emits what is left of the two entries, has advanced it already.  When the buffer is full after them, the position stays
  at four and the next call ends with \<^verbatim>\<open>-ENOENT\<close>: the entries of the directory are not found.
\<close>

lemma readdir_at_4:
  assumes "ctx_pos ctx = 4"
  shows "exfat_readdir em ev p pi ctx s = Some ((- ENOENT, ctx), s)"
  by (simp add: exfat_readdir_def assms)

lemma readdir_loses_entries:
  assumes dots: "vol_type (v_vol s) = EXFAT \<or> i_ino (inodes s p) = EXFAT_ROOT_INO" "ctx_pos ctx = 0"
    "emit_dots em ctx = (True, c)" "ctx_pos c = 2" "\<And>c. 2 \<le> ctx_pos c \<Longrightarrow> emit_dots em c = (True, c)"
    and full: "run_state (read_one em ev p pi (junk_info ev) 0 (c\<lparr>ctx_pos := 4\<rparr>)) s = (Inl (0, c\<lparr>ctx_pos := 4\<rparr>), s')"
  shows "exfat_readdir em ev p pi ctx s = Some ((0, c\<lparr>ctx_pos := 4\<rparr>), s')"
    and "exfat_readdir em ev p pi (c\<lparr>ctx_pos := 4\<rparr>) s' = Some ((- ENOENT, c\<lparr>ctx_pos := 4\<rparr>), s')"
proof -
  have "dots_loop em 2 0 ctx = (True, 2, c\<lparr>ctx_pos := 4\<rparr>)"
    using dots(5) [of "c\<lparr>ctx_pos := 3\<rparr>"] by (simp add: numeral_2_eq_2 dots(3,4))
  then show "exfat_readdir em ev p pi ctx s = Some ((0, c\<lparr>ctx_pos := 4\<rparr>), s')"
    using dots(1) by (auto simp: exfat_readdir_def dots(2) readdir_loop.simps full)
  show "exfat_readdir em ev p pi (c\<lparr>ctx_pos := 4\<rparr>) s' = Some ((- ENOENT, c\<lparr>ctx_pos := 4\<rparr>), s')"
    by (rule readdir_at_4) simp
qed

section \<open>Error paths that go wrong\<close>

text \<open>
  \<^verbatim>\<open>exfat_write_failed\<close> means to free the clusters that a failed write has allocated behind the end of the file; but it
  truncates from the size that the file has to the same size, which changes nothing on the volume.
\<close>

lemma truncate_same_size:
  "run_state (FsTruncateFile ev ino sz sz) v = ((if fid_type (i_fid ino) \<noteq> TYPE_FILE then FFS_PERMISSIONERR else FFS_SUCCESS, ino), v)"
  by (simp add: FsTruncateFile_def ffsTruncateFile_def Let_def)

lemma truncate_changes_nothing:
  assumes "\<not> i_dirsync (inodes s p)" "i_size (vi (inodes s p)) = sz"
  shows "v_vol (snd (run_state (exfat_truncate ev p sz) s)) = v_vol s"
  unfolding exfat_truncate_def using assms
  by (cases "i_size (vi (inodes s p)) <s mmu_private (vi (inodes s p))"; cases "start_clu (v_fid (inodes s p)) = 0")
     (simp_all add: truncate_same_size sync_or_dirty_def mark_inode_dirty_def set_vi_def v_fid_def)

lemma write_failed_frees_nothing:
  assumes "\<not> i_dirsync (inodes s p)"
  shows "v_vol (snd (run_state (exfat_write_failed ev p to) s)) = v_vol s"
  using assms by (simp add: exfat_write_failed_def truncate_changes_nothing size_to_fid_def set_fid_def)

text \<open>
  When \<^verbatim>\<open>d_make_root\<close> fails, it has put the inode of the root; \<^verbatim>\<open>exfat_fill_super\<close> puts it again.
\<close>

lemma failed_root_put_twice:
  assumes "new_inode ev (vfs.truncate s) \<noteq> None" "\<not> d_make_root_ok se"
  shows "ub (v_vol (snd (run_state (make_root ev se) s)))"
  using assms
  by (auto simp: make_root_def out_fail2_def out_fail_def exfat_free_super_def case_prod_unfold Let_def set_ub_def read_root_run(1))

end
