(* ===== verification/Spec2Isabelle.thy ===== *)
theory Spec2Isabelle
  imports NandEcc FlashImg Vercmp FileAttr FileSpec MountProps AllocProps NameSpec VfsName VfsProps
begin

text \<open>
  \<^bold>\<open>A verification development for the C programs of the YDFS distribution.\<close>

  \<^bold>\<open>What is modelled.\<close>  YDFS is a Linux distribution: build scripts, configuration and many copied-in packages.  The C code
  that carries logic of its own, and that is modelled here, is in three places under \<^verbatim>\<open>src/2.10/tools\<close>:

  \<^item> \<^verbatim>\<open>src/exfat\<close>, a file-system driver for FAT12, FAT16, FAT32 and exFAT (the bulk of the development);
  \<^item> \<^verbatim>\<open>src/flashimg-0.1\<close>, a tool that reads and writes the partitions of a flash image, and its NAND error-correcting code;
  \<^item> \<^verbatim>\<open>opkg-utils/opkg-compare-versions.c\<close>, the comparison of package versions.

  \<^bold>\<open>The driver, from the bottom up.\<close>  Each theory models one layer, in the order in which the layers call each other.

  \<^item> \<open>Prelude\<close>: the C integer types as words, the return codes, the state monad of the stateful functions, Hoare triples.
  \<^item> \<open>Bytes\<close>, \<open>Bitmap\<close>, \<open>Checksum\<close>: the \<^verbatim>\<open>GET\<close> and \<^verbatim>\<open>SET\<close> macros of \<^verbatim>\<open>exfat_core.h\<close>, the bit operations of
    \<^verbatim>\<open>exfat_bitmap.c\<close> with the tables \<^verbatim>\<open>free_bit\<close> and \<^verbatim>\<open>used_bit\<close>, the rolling checksums.
  \<^item> \<open>Clock\<close>: \<^verbatim>\<open>tm_current\<close> of \<^verbatim>\<open>exfat_oal.c\<close>.
  \<^item> \<open>Dentry\<close>: directory entries as 32 bytes, and the accessor functions of the tables \<^verbatim>\<open>fat_fs_func\<close> and \<^verbatim>\<open>exfat_fs_func\<close>.
  \<^item> \<open>Device\<close>: the volume state \<open>vol\<close> (the fields of \<^verbatim>\<open>FS_INFO_T\<close> and \<^verbatim>\<open>BD_INFO_T\<close> and the kernel's buffers),
    \<^verbatim>\<open>exfat_blkdev.c\<close> and the sector functions of \<^verbatim>\<open>exfat_core.c\<close>.
  \<^item> \<open>Cache\<close>: the FAT cache and the buffer cache of \<^verbatim>\<open>exfat_cache.c\<close> with the pointers of their lists.
  \<^item> \<open>Fat\<close>: \<^verbatim>\<open>FAT_read\<close> and \<^verbatim>\<open>FAT_write\<close> for the four widths.  \<open>AllocMap\<close>: the allocation bitmap of exFAT.
    \<open>Cluster\<close>: allocating, freeing and walking chains of clusters.
  \<^item> \<open>Names\<close>, \<open>UpcaseTable\<close>, \<open>Upcase\<close>: \<^verbatim>\<open>exfat_nls.c\<close>, \<^verbatim>\<open>exfat_upcase.c\<close>, loading of the up-case table.
  \<^item> \<open>Dir\<close>, \<open>EntrySet\<close>, \<open>DirSearch\<close>: directories of \<^verbatim>\<open>exfat_core.c\<close>: locating entries, writing and reading entry
    sets, searching by name, finding room.
  \<^item> \<open>Mount\<close>: \<^verbatim>\<open>ffsMountVol\<close>, the four boot sectors, unmounting, volume information.
  \<^item> \<open>FileOps\<close>, \<open>FileApi\<close>, \<open>FileAttr\<close>: the operations on files and directories, from the internal ones
    (\<^verbatim>\<open>create_dir\<close>, \<^verbatim>\<open>rename_file\<close>, \<dots>) to \<^verbatim>\<open>ffsReadFile\<close>, \<^verbatim>\<open>ffsWriteFile\<close>, \<^verbatim>\<open>ffsMoveFile\<close>, \<^verbatim>\<open>ffsReadDir\<close> and the others.
    \<open>FsApi\<close>: the functions \<^verbatim>\<open>Fs\<dots>\<close> of \<^verbatim>\<open>exfat_api.c\<close>, through which \<^verbatim>\<open>exfat_super.c\<close> calls them.
  \<^item> \<^verbatim>\<open>exfat_super.c\<close>, the driver's side of the Linux VFS, as compiled for kernels from 4.7 on.  \<open>VfsTime\<close>: times of the medium
    and of UNIX.  \<open>VfsName\<close>: hashing and comparing the names of dentries.  \<open>VfsMode\<close>: modes and attributes, the mount options.
    \<open>VfsInode\<close>: the state \<open>vfs\<close> (a volume, the inodes, the inode hash table, the options), filling, writing and evicting inodes.
    \<open>VfsDir\<close>: the operations on directories from \<^verbatim>\<open>exfat_create\<close> to \<^verbatim>\<open>exfat_rename\<close>.  \<open>VfsFile\<close>: truncating, attributes,
    mapping of blocks, the operations of the page cache, \<^verbatim>\<open>ioctl\<close>.  \<open>VfsReaddir\<close>: \<^verbatim>\<open>exfat_readdir\<close>.  \<open>VfsSuper\<close>: the super
    block from \<^verbatim>\<open>exfat_fill_super\<close> to \<^verbatim>\<open>exfat_put_super\<close>.

  The lemmas on these layers are in \<open>DentryProps\<close>, \<open>LinkRings\<close>, \<open>CacheProps\<close>, \<open>FatProps\<close>, \<open>AllocProps\<close>, \<open>ClusterProps\<close>,
  \<open>DirProps\<close>, \<open>EntrySetProps\<close>, \<open>DirSpec\<close>, \<open>DirScan\<close>, \<open>NameSearch\<close>, \<open>NameSpec\<close>, \<open>MountProps\<close>, \<open>FileSpec\<close>, \<open>VfsTable\<close> and \<open>VfsProps\<close>, and at the end of \<open>VfsTime\<close>, \<open>VfsName\<close> and \<open>VfsMode\<close>; theory
  \<open>Sample\<close> has a small concrete volume on which the hypotheses of the theorems are shown to hold.  The other programs are
  in \<open>NandEcc\<close>, \<open>FlashImg\<close> and \<open>Vercmp\<close>, model and lemmas together.

  \<^bold>\<open>State and effects.\<close>  A function that works on the volume is a computation in the state monad over \<open>vol\<close>.  A pointer to a buffer
  is the number of its block (the kernel keeps one buffer per block), the contents are in \<open>bufs\<close>, the dirty marks in
  \<open>dirty\<close>.  A pointer into a buffer is the block and an offset.  A null pointer, or the result \<open>-1\<close>, is \<open>None\<close>; return codes
  are the C values.  \<^verbatim>\<open>u8\<close> to \<^verbatim>\<open>u64\<close> are words of their width; \<^verbatim>\<open>s32\<close> is \<open>int\<close>, as the sources keep it in range.
  Whether a request to the kernel succeeds (reading or writing a block, getting memory) is taken from an arbitrary
  sequence of answers, \<open>env_ok\<close>.  The ghost field \<open>ub\<close> is set where C would follow a null pointer, leave an array or
  run for ever, \<open>panicked\<close> by \<^verbatim>\<open>panic\<close>.  The functions of \<^verbatim>\<open>exfat_super.c\<close> work on \<open>vfs\<close>, which contains the volume, and those
  of the super block on \<open>super\<close>, which contains a \<open>vfs\<close>; \<open>on_vol\<close> and \<open>on_vfs\<close> lift the operations of the layer below.  An inode is
  a number, its contents are in the map \<open>inodes\<close>.

  \<^bold>\<open>Bounds of loops.\<close>  Loops whose number of turns is known when they start recurse on it.  The others have a bound that they
  cannot reach unless the C loop runs for ever, and reaching it sets \<open>ub\<close>: a walk along the links of a cache takes at
  most one step more than there are slots and heads; a walk along a chain of clusters takes at most
  \<open>CHAIN_FUEL = 2 ^ 32 + 4\<close> steps, more than there are cluster numbers (\<open>ClusterProps\<close> shows that a chain has no cluster
  twice and that the walks end within the bound).  \<^verbatim>\<open>exfat_readdir\<close> goes on for as long as the caller takes entries and is a
  partial function.

  \<^bold>\<open>Parameters.\<close>  What is not in the repository is an argument: the kernel's character tables and UTF-8 codecs (record
  \<open>nls\<close>), the clock, the results of \<^verbatim>\<open>fscanf\<close> in \<open>FlashImg\<close>, and the functions of the kernel that \<^verbatim>\<open>exfat_super.c\<close> calls: the
  hash functions, \<^verbatim>\<open>new_inode\<close>, \<^verbatim>\<open>iunique\<close>, \<^verbatim>\<open>match_int\<close>, \<^verbatim>\<open>dir_emit\<close>, those of the page cache and of the dentry cache
  (records \<open>vfs_env\<close>, \<open>opt_env\<close>, \<open>dir_emitter\<close>, \<open>page_cache\<close>, \<open>super_env\<close>).

  \<^bold>\<open>Interfaces.\<close>  The contracts between the layers are locales, each interpreted on the definitions of the layer that provides
  it: \<open>byte_field\<close> (a field of a buffer: \<open>f16\<close>, \<open>f32\<close>, \<open>f64\<close>), \<open>bit_array\<close> (a set of bits: \<open>bm\<close> for a buffer, \<open>vb\<close> for
  the bitmap of a volume), \<open>rolling_checksum\<close> (\<open>ck1\<close>, \<open>ck2\<close>, \<open>ck4\<close>), \<open>entry_ops\<close> (the function tables), \<open>recency_list\<close>
  (the LRU list: \<open>lru\<close>), \<open>cluster_map\<close> (the table as a map: \<open>fm\<close>), \<open>entry_array\<close> (a directory as an array of entries:
  \<open>ea\<close>), \<open>dir_search\<close> (the body of a search through a directory: \<open>counting\<close>, \<open>emptiness\<close>, \<open>naming\<close>), \<open>multi_table\<close> (the inode hash table: \<open>it\<close>).

  \<^bold>\<open>What the lemmas show.\<close>

  \<^item> Entries (\<open>DentryProps\<close>): names stored in name entries are read back; the entries reserved for a name are those it needs.
  \<^item> Caches (\<open>CacheProps\<close>): the pointer structure refines a list in order of use and a set of hash lists; getting a
    block always ends; every operation keeps the invariant.  After a failed read the structure can be broken, which a theorem shows.
  \<^item> Allocation table (\<open>FatProps\<close>): for every width, reading and writing refine a map from clusters to values.
  \<^item> Bitmap (\<open>AllocProps\<close>): setting and clearing refine a set; the byte-wise search and count are equal to bit-wise ones.
  \<^item> Chains (\<open>ClusterProps\<close>): what allocation, release and the walks do to the chains of the table.
  \<^item> Directories (\<open>DirProps\<close>, \<open>EntrySetProps\<close>, \<open>DirSpec\<close>): a directory refines an array of entries, wherever its sectors lie; what
    deleting and writing the entries of a file change; collecting an entry set is the run of an automaton; a stored name is read back.
  \<^item> Searches (\<open>DirScan\<close>, \<open>NameSearch\<close>, \<open>NameSpec\<close>): going through a directory is a fold over its entries; counting, the test for
    emptiness; the search for a name in exFAT finds the first file with this name, a name that has been stored is found, one whose
    entries have been deleted is not, and a file with further secondary entries never is.
  \<^item> Mounting (\<open>MountProps\<close>): a FAT volume with a sensible boot sector is mounted with the geometry of the boot sector, and the
    mounted volume satisfies the invariant \<open>vol_ok\<close> that the theorems on chains, directories and files suppose.
  \<^item> Files (\<open>FileSpec\<close>): reading returns the bytes of the file, writing replaces just the bytes written, the two fit together.
  \<^item> VFS: converting times back and forth (\<open>VfsTime\<close>); equal names have equal hashes (\<open>VfsName\<close>), but not on a volume without
    an up-case table; a mode that is accepted is the mode found later, and all outcomes of the mount options (\<open>VfsMode\<close>); the
    inode hash table refines a table from places to inodes, and every operation keeps it in order (\<open>VfsTable\<close>), mounting
    leaves all or nothing, reading a directory returns, and three error paths that go wrong (\<open>VfsProps\<close>).
  \<^item> \<open>NandEcc\<close>: every bit of the code is the parity it stands for, and a flipped bit is located.  \<open>FlashImg\<close>: the round trip through a
    partition, and two ways to lose data.  \<open>Vercmp\<close>: the comparison is the lexicographic order of keys.

  \<^bold>\<open>Not modelled.\<close>  The semaphores and locks have no effect on a single call and are left out, as are reference counts of
  buffers and inodes and all output on the terminal.  Of \<^verbatim>\<open>exfat_super.c\<close> the branches for kernels before 4.7 and the tables of
  function pointers are left out; the kernel itself is not in the repository.  \<^verbatim>\<open>multi_sector_read\<close> and \<^verbatim>\<open>multi_sector_write\<close>
  have no caller.  The copied-in packages (grub4dos, grubutil, 7-Zip, the LADSPA
  SDK, the Python launcher, \<^verbatim>\<open>cpuid\<close>) are the work of other projects or thin wrappers of system interfaces.
\<close>

end
